(* ===== verification/JS_Prelude.thy ===== *)
theory JS_Prelude
  imports Complex_Main "HOL-Library.Multiset"
begin

text \<open>
  The shared vocabulary of the development: the fragment of the JavaScript language and of its
  standard library that the modelled sources use.

  \<^item> Strings are lists of UTF-16 code units (\<open>jstring\<close>); \<open>lit\<close> turns an ASCII literal into one.
  \<^item> Values are the datatype \<open>jsval\<close>: \<open>undefined\<close>, \<open>null\<close>, booleans, numbers, strings, functions
    (by identity), arrays, and objects. An object is the list of its own enumerable properties
    in enumeration order, with the kind of its prototype.
  \<^item> Numbers are \<open>NaN\<close>, the infinities and exact rationals. The program compares and counts
    with them, so rounding plays no part in the theorems. Printing of a non-integer stops after
    17 decimal places.
  \<^item> A function that may throw returns \<open>'e + 'a\<close> with \<open>Inl\<close> for the thrown error; \<open>andThen\<close>
    sequences such computations, \<open>mapE\<close> and \<open>mapiE\<close> are \<open>Array.prototype.map\<close> with a
    callback that may throw.
  \<^item> A \<open>Map\<close> is an association list in insertion order (\<open>jmap\<close>) and a \<open>Set\<close> a list without
    repetitions; the locale \<open>ordered_map\<close> states the laws the clients rely on.
\<close>

named_theorems js_result \<open>decomposition of computations that may throw\<close>
named_theorems js_map \<open>laws of insertion-ordered maps\<close>
named_theorems js_eval \<open>equations used to evaluate closed instances\<close>

section \<open>Strings\<close>

type_synonym jstring = "int list"

definition lit :: "string \<Rightarrow> jstring" where
  "lit s = map of_char s"

definition js_space :: "int \<Rightarrow> bool" where
  "js_space c \<longleftrightarrow> c \<in> set [9, 10, 11, 12, 13, 32, 160, 5760, 8232, 8233, 8239, 8287, 12288, 65279]
     \<or> (8192 \<le> c \<and> c \<le> 8202)"

definition trim :: "jstring \<Rightarrow> jstring" where
  "trim s = rev (dropWhile js_space (rev (dropWhile js_space s)))"

definition is_digit :: "int \<Rightarrow> bool" where
  "is_digit c \<longleftrightarrow> 48 \<le> c \<and> c \<le> 57"

definition is_lower :: "int \<Rightarrow> bool" where
  "is_lower c \<longleftrightarrow> 97 \<le> c \<and> c \<le> 122"

definition is_upper :: "int \<Rightarrow> bool" where
  "is_upper c \<longleftrightarrow> 65 \<le> c \<and> c \<le> 90"

definition lower_char :: "int \<Rightarrow> int" where
  "lower_char c = (if is_upper c then c + 32 else c)"

definition upper_char :: "int \<Rightarrow> int" where
  "upper_char c = (if is_lower c then c - 32 else c)"

text \<open>ASCII case mapping; the program lowers and raises protocol words only.\<close>

definition to_lower :: "jstring \<Rightarrow> jstring" where
  "to_lower s = map lower_char s"

definition to_upper :: "jstring \<Rightarrow> jstring" where
  "to_upper s = map upper_char s"

definition starts_with :: "jstring \<Rightarrow> jstring \<Rightarrow> bool" where
  "starts_with s p \<longleftrightarrow> take (length p) s = p"

fun str_includes :: "jstring \<Rightarrow> jstring \<Rightarrow> bool" where
  "str_includes s p = (starts_with s p \<or> (case s of [] \<Rightarrow> False | _ # s' \<Rightarrow> str_includes s' p))"

declare str_includes.simps [simp del]

fun split_on :: "int \<Rightarrow> jstring \<Rightarrow> jstring list" where
  "split_on c [] = [[]]"
| "split_on c (x # s) =
     (if x = c then [] # split_on c s
      else case split_on c s of [] \<Rightarrow> [[x]] | w # ws \<Rightarrow> (x # w) # ws)"

fun join :: "jstring \<Rightarrow> jstring list \<Rightarrow> jstring" where
  "join sep [] = []"
| "join sep [x] = x"
| "join sep (x # xs) = x @ sep @ join sep xs"

text \<open>\<open>s.replace(/\s+/g, " ")\<close>: every run of white space becomes one space.\<close>

function collapse_spaces :: "jstring \<Rightarrow> jstring" where
  "collapse_spaces [] = []"
| "collapse_spaces (c # s) =
     (if js_space c then 32 # collapse_spaces (dropWhile js_space s) else c # collapse_spaces s)"
  by pat_completeness auto
termination
  by (relation "measure length") (auto simp: le_imp_less_Suc length_dropWhile_le)

text \<open>\<open>xs.slice(0, n)\<close> for a bound that is not negative; counting in \<open>int\<close> keeps large bounds cheap to evaluate.\<close>

fun slice_to :: "int \<Rightarrow> 'a list \<Rightarrow> 'a list" where
  "slice_to n [] = []"
| "slice_to n (x # xs) = (if n \<le> 0 then [] else x # slice_to (n - 1) xs)"

text \<open>\<open>s.split(/\s+/)\<close> on a string without leading and trailing white space.\<close>

definition split_spaces :: "jstring \<Rightarrow> jstring list" where
  "split_spaces s = split_on 32 (collapse_spaces s)"

definition replace_char :: "int \<Rightarrow> int \<Rightarrow> jstring \<Rightarrow> jstring" where
  "replace_char a b s = map (\<lambda>c. if c = a then b else c) s"

fun nat_str :: "nat \<Rightarrow> jstring" where
  "nat_str n = (if n < 10 then [48 + int n] else nat_str (n div 10) @ [48 + int (n mod 10)])"

declare nat_str.simps [simp del]

definition int_str :: "int \<Rightarrow> jstring" where
  "int_str i = (if i < 0 then 45 # nat_str (nat (- i)) else nat_str (nat i))"

definition indexed :: "jstring \<Rightarrow> nat \<Rightarrow> jstring" where
  "indexed field i = field @ lit ''['' @ nat_str i @ lit '']''"

section \<open>Values\<close>

datatype jsnum = NaN | PosInf | NegInf | Fin rat

datatype proto = ObjectProto | NullProto | OtherProto

datatype jsval =
    JUndef
  | JNull
  | JBool bool
  | JNum jsnum
  | JStr jstring
  | JFun nat
  | JArr "jsval list"
  | JObj proto "(jstring \<times> jsval) list"

abbreviation jint :: "int \<Rightarrow> jsval" where
  "jint i \<equiv> JNum (Fin (of_int i))"

abbreviation jlit :: "string \<Rightarrow> jsval" where
  "jlit s \<equiv> JStr (lit s)"

definition jobj :: "(string \<times> jsval) list \<Rightarrow> jsval" where
  "jobj kvs = JObj ObjectProto (map (\<lambda>(k, v). (lit k, v)) kvs)"

fun truthy :: "jsval \<Rightarrow> bool" where
  "truthy JUndef = False"
| "truthy JNull = False"
| "truthy (JBool b) = b"
| "truthy (JNum n) = (n \<noteq> NaN \<and> n \<noteq> Fin 0)"
| "truthy (JStr s) = (s \<noteq> [])"
| "truthy (JFun _) = True"
| "truthy (JArr _) = True"
| "truthy (JObj _ _) = True"

text \<open>\<open>a || b\<close> and \<open>a ?? b\<close>.\<close>

definition jor :: "jsval \<Rightarrow> jsval \<Rightarrow> jsval" where
  "jor a b = (if truthy a then a else b)"

definition nullish :: "jsval \<Rightarrow> jsval \<Rightarrow> jsval" where
  "nullish a b = (if a = JUndef \<or> a = JNull then b else a)"

definition is_string :: "jsval \<Rightarrow> bool" where
  "is_string v \<longleftrightarrow> (case v of JStr _ \<Rightarrow> True | _ \<Rightarrow> False)"

definition is_function :: "jsval \<Rightarrow> bool" where
  "is_function v \<longleftrightarrow> (case v of JFun _ \<Rightarrow> True | _ \<Rightarrow> False)"

definition is_array :: "jsval \<Rightarrow> bool" where
  "is_array v \<longleftrightarrow> (case v of JArr _ \<Rightarrow> True | _ \<Rightarrow> False)"

definition is_boolean :: "jsval \<Rightarrow> bool" where
  "is_boolean v \<longleftrightarrow> (case v of JBool _ \<Rightarrow> True | _ \<Rightarrow> False)"

text \<open>\<open>v && typeof v === "object" && !Array.isArray(v)\<close>.\<close>

definition is_object :: "jsval \<Rightarrow> bool" where
  "is_object v \<longleftrightarrow> (case v of JObj _ _ \<Rightarrow> True | _ \<Rightarrow> False)"

definition is_plain_object :: "jsval \<Rightarrow> bool" where
  "is_plain_object v \<longleftrightarrow> (case v of JObj p _ \<Rightarrow> p \<noteq> OtherProto | _ \<Rightarrow> False)"

definition object_value :: "jsval \<Rightarrow> jsval" where
  "object_value v = (if is_object v then v else JObj ObjectProto [])"

definition array_items :: "jsval \<Rightarrow> jsval list" where
  "array_items v = (case v of JArr xs \<Rightarrow> xs | _ \<Rightarrow> [])"

text \<open>Property reads. \<open>dot v k\<close> is \<open>v?.k\<close> for a name the source writes out (none of them is
  a name of \<open>Object.prototype\<close>); \<open>index v k\<close> is \<open>v[k]\<close> for a computed name, where the inherited
  members of \<open>Object.prototype\<close> are visible.\<close>

definition own_prop :: "jsval \<Rightarrow> jstring \<Rightarrow> jsval option" where
  "own_prop v k = (case v of JObj _ kvs \<Rightarrow> map_of kvs k | _ \<Rightarrow> None)"

definition dot :: "jsval \<Rightarrow> string \<Rightarrow> jsval" where
  "dot v k = (case own_prop v (lit k) of Some x \<Rightarrow> x | None \<Rightarrow> JUndef)"

definition object_prototype_names :: "jstring list" where
  "object_prototype_names = map lit
     [''constructor'', ''toString'', ''valueOf'', ''hasOwnProperty'', ''isPrototypeOf'',
      ''propertyIsEnumerable'', ''toLocaleString'', ''__defineGetter__'', ''__defineSetter__'',
      ''__lookupGetter__'', ''__lookupSetter__'']"

definition index :: "jsval \<Rightarrow> jstring \<Rightarrow> jsval" where
  "index v k = (case own_prop v k of Some x \<Rightarrow> x
     | None \<Rightarrow> (case v of
          JObj p _ \<Rightarrow> if p = NullProto then JUndef
                     else if k \<in> set object_prototype_names then JFun 0
                     else if k = lit ''__proto__'' then JObj OtherProto [] else JUndef
        | _ \<Rightarrow> JUndef))"

definition obj_keys :: "jsval \<Rightarrow> jstring list" where
  "obj_keys v = (case v of JObj _ kvs \<Rightarrow> map fst kvs | _ \<Rightarrow> [])"

section \<open>Conversions\<close>

fun frac_digits :: "nat \<Rightarrow> rat \<Rightarrow> jstring" where
  "frac_digits 0 r = []"
| "frac_digits (Suc k) r =
     (if r = 0 then [] else (48 + \<lfloor>10 * r\<rfloor>) # frac_digits k (10 * r - of_int \<lfloor>10 * r\<rfloor>))"

definition rat_str :: "rat \<Rightarrow> jstring" where
  "rat_str r = (if of_int \<lfloor>r\<rfloor> = r then int_str \<lfloor>r\<rfloor>
     else (if r < 0 then [45] else []) @ int_str \<lfloor>\<bar>r\<bar>\<rfloor> @ [46]
          @ frac_digits 17 (\<bar>r\<bar> - of_int \<lfloor>\<bar>r\<bar>\<rfloor>))"

fun num_str :: "jsnum \<Rightarrow> jstring" where
  "num_str NaN = lit ''NaN''"
| "num_str PosInf = lit ''Infinity''"
| "num_str NegInf = lit ''-Infinity''"
| "num_str (Fin r) = rat_str r"

text \<open>\<open>String(v)\<close>. An object is printed by the inherited \<open>toString\<close>; the text of a function is
  not modelled further than that it is not empty.\<close>

fun to_str :: "jsval \<Rightarrow> jstring" where
  "to_str JUndef = lit ''undefined''"
| "to_str JNull = lit ''null''"
| "to_str (JBool b) = (if b then lit ''true'' else lit ''false'')"
| "to_str (JNum n) = num_str n"
| "to_str (JStr s) = s"
| "to_str (JFun _) = lit ''function () { [native code] }''"
| "to_str (JArr xs) =
     join (lit '','') (map (\<lambda>x. if x = JUndef \<or> x = JNull then [] else to_str x) xs)"
| "to_str (JObj _ _) = lit ''[object Object]''"

definition digits_val :: "jstring \<Rightarrow> int" where
  "digits_val ds = foldl (\<lambda>a d. 10 * a + (d - 48)) 0 ds"

text \<open>A finite literal that is too large for a double reads as an infinity.\<close>

definition fin_or_inf :: "rat \<Rightarrow> jsnum" where
  "fin_or_inf r = (if r \<ge> 2 ^ 1024 - 2 ^ 970 then PosInf
                   else if r \<le> - (2 ^ 1024 - 2 ^ 970) then NegInf else Fin r)"

definition parse_exponent :: "jstring \<Rightarrow> rat option" where
  "parse_exponent e =
     (let neg = (case e of c # _ \<Rightarrow> c = 45 | [] \<Rightarrow> False);
          ds = (case e of c # d \<Rightarrow> if c = 45 \<or> c = 43 then d else e | [] \<Rightarrow> e)
      in if ds \<noteq> [] \<and> list_all is_digit ds
         then Some (if neg then 1 / 10 ^ nat (digits_val ds) else 10 ^ nat (digits_val ds))
         else None)"

definition parse_decimal :: "jstring \<Rightarrow> rat option" where
  "parse_decimal s =
     (let ip = takeWhile is_digit s; r = dropWhile is_digit s;
          fp = (case r of c # r' \<Rightarrow> if c = 46 then takeWhile is_digit r' else [] | [] \<Rightarrow> []);
          r2 = (case r of c # r' \<Rightarrow> if c = 46 then dropWhile is_digit r' else r | [] \<Rightarrow> []);
          m = of_int (digits_val (ip @ fp)) / 10 ^ length fp
      in if ip = [] \<and> fp = [] then None
         else (case r2 of [] \<Rightarrow> Some m
               | c # e \<Rightarrow> if c = 101 \<or> c = 69 then map_option (\<lambda>x. m * x) (parse_exponent e)
                          else None))"

definition digit_value :: "int \<Rightarrow> int" where
  "digit_value c = (if is_digit c then c - 48 else if is_lower c then c - 87
                    else if is_upper c then c - 55 else 99)"

definition parse_radix :: "int \<Rightarrow> jstring \<Rightarrow> rat option" where
  "parse_radix b ds = (if ds \<noteq> [] \<and> list_all (\<lambda>c. digit_value c < b) ds
     then Some (of_int (foldl (\<lambda>a d. b * a + digit_value d) 0 ds)) else None)"

definition num_of_option :: "rat option \<Rightarrow> jsnum" where
  "num_of_option r = (case r of None \<Rightarrow> NaN | Some x \<Rightarrow> fin_or_inf x)"

definition str_to_num :: "jstring \<Rightarrow> jsnum" where
  "str_to_num s0 =
     (let s = trim s0; neg = starts_with s (lit ''-'');
          u = (if neg \<or> starts_with s (lit ''+'') then drop 1 s else s);
          p = to_lower (take 2 s)
      in if s = [] then Fin 0
         else if p = lit ''0x'' then num_of_option (parse_radix 16 (drop 2 s))
         else if p = lit ''0o'' then num_of_option (parse_radix 8 (drop 2 s))
         else if p = lit ''0b'' then num_of_option (parse_radix 2 (drop 2 s))
         else if u = lit ''Infinity'' then (if neg then NegInf else PosInf)
         else num_of_option (map_option (\<lambda>r. if neg then - r else r) (parse_decimal u)))"

text \<open>\<open>Number(v)\<close>.\<close>

fun to_num :: "jsval \<Rightarrow> jsnum" where
  "to_num JUndef = NaN"
| "to_num JNull = Fin 0"
| "to_num (JBool b) = (if b then Fin 1 else Fin 0)"
| "to_num (JNum n) = n"
| "to_num (JStr s) = str_to_num s"
| "to_num (JFun _) = NaN"
| "to_num (JArr xs) = str_to_num (to_str (JArr xs))"
| "to_num (JObj _ _) = NaN"

definition is_finite :: "jsnum \<Rightarrow> bool" where
  "is_finite n \<longleftrightarrow> (case n of Fin _ \<Rightarrow> True | _ \<Rightarrow> False)"

definition is_integer :: "jsnum \<Rightarrow> bool" where
  "is_integer n \<longleftrightarrow> (case n of Fin r \<Rightarrow> of_int \<lfloor>r\<rfloor> = r | _ \<Rightarrow> False)"

text \<open>\<open>Number.isSafeInteger\<close>.\<close>

definition safe_integer :: "jsnum \<Rightarrow> bool" where
  "safe_integer n \<longleftrightarrow> (case n of
       Fin r \<Rightarrow> of_int \<lfloor>r\<rfloor> = r \<and> - 9007199254740991 \<le> \<lfloor>r\<rfloor> \<and> \<lfloor>r\<rfloor> \<le> 9007199254740991
     | _ \<Rightarrow> False)"

text \<open>The value of a finite number; only read behind \<open>is_finite\<close>.\<close>

definition num_val :: "jsnum \<Rightarrow> rat" where
  "num_val n = (case n of Fin r \<Rightarrow> r | _ \<Rightarrow> 0)"

text \<open>\<open>a < b\<close> on numbers: false as soon as one side is \<open>NaN\<close>.\<close>

fun num_less :: "jsnum \<Rightarrow> jsnum \<Rightarrow> bool" where
  "num_less NaN b = False"
| "num_less a NaN = False"
| "num_less PosInf b = False"
| "num_less NegInf b = (b \<noteq> NegInf)"
| "num_less (Fin a) PosInf = True"
| "num_less (Fin a) NegInf = False"
| "num_less (Fin a) (Fin b) = (a < b)"

text \<open>\<open>String(v || "")\<close>, the source's usual way to read a text field, and its trimmed form.\<close>

definition text_of :: "jsval \<Rightarrow> jstring" where
  "text_of v = to_str (jor v (JStr []))"

definition trimmed_text :: "jsval \<Rightarrow> jstring" where
  "trimmed_text v = trim (text_of v)"

text \<open>\<open>typeof v === "string" ? v.trim() : ""\<close>.\<close>

definition string_text :: "jsval \<Rightarrow> jstring" where
  "string_text v = (case v of JStr s \<Rightarrow> trim s | _ \<Rightarrow> [])"

section \<open>Computations that throw\<close>

definition andThen :: "'e + 'a \<Rightarrow> ('a \<Rightarrow> 'e + 'b) \<Rightarrow> 'e + 'b" where
  "andThen m f = (case m of Inl e \<Rightarrow> Inl e | Inr x \<Rightarrow> f x)"

definition check :: "bool \<Rightarrow> 'e \<Rightarrow> 'e + unit" where
  "check b e = (if b then Inr () else Inl e)"

fun mapE :: "('a \<Rightarrow> 'e + 'b) \<Rightarrow> 'a list \<Rightarrow> 'e + 'b list" where
  "mapE f [] = Inr []"
| "mapE f (x # xs) = andThen (f x) (\<lambda>y. andThen (mapE f xs) (\<lambda>ys. Inr (y # ys)))"

fun mapiE :: "(nat \<Rightarrow> 'a \<Rightarrow> 'e + 'b) \<Rightarrow> nat \<Rightarrow> 'a list \<Rightarrow> 'e + 'b list" where
  "mapiE f i [] = Inr []"
| "mapiE f i (x # xs) =
     andThen (f i x) (\<lambda>y. andThen (mapiE f (Suc i) xs) (\<lambda>ys. Inr (y # ys)))"

definition is_ok :: "'e + 'a \<Rightarrow> bool" where
  "is_ok m \<longleftrightarrow> (case m of Inr _ \<Rightarrow> True | Inl _ \<Rightarrow> False)"

section \<open>Maps and sets in insertion order\<close>

type_synonym ('k, 'v) jmap = "('k \<times> 'v) list"

definition map_has :: "('k, 'v) jmap \<Rightarrow> 'k \<Rightarrow> bool" where
  "map_has m k \<longleftrightarrow> k \<in> fst ` set m"

definition map_get :: "('k, 'v) jmap \<Rightarrow> 'k \<Rightarrow> 'v option" where
  "map_get m k = map_of m k"

definition map_set :: "('k, 'v) jmap \<Rightarrow> 'k \<Rightarrow> 'v \<Rightarrow> ('k, 'v) jmap" where
  "map_set m k v = (if map_has m k then map (\<lambda>(k', v'). (k', if k' = k then v else v')) m
                    else m @ [(k, v)])"

definition map_delete :: "('k, 'v) jmap \<Rightarrow> 'k \<Rightarrow> ('k, 'v) jmap" where
  "map_delete m k = filter (\<lambda>(k', _). k' \<noteq> k) m"

definition map_values :: "('k, 'v) jmap \<Rightarrow> 'v list" where
  "map_values m = map snd m"

definition map_ok :: "('k, 'v) jmap \<Rightarrow> bool" where
  "map_ok m \<longleftrightarrow> distinct (map fst m)"

definition set_add :: "'a list \<Rightarrow> 'a \<Rightarrow> 'a list" where
  "set_add s x = (if x \<in> set s then s else s @ [x])"

text \<open>\<open>[...new Set(xs)]\<close>: the first occurrence of every element, in order.\<close>

definition uniq :: "'a list \<Rightarrow> 'a list" where
  "uniq xs = foldl set_add [] xs"

text \<open>\<open>Array.prototype.sort\<close> with a comparator: a stable sort. \<open>le a b\<close> is \<open>cmp a b \<le> 0\<close>.\<close>

fun insort_by :: "('a \<Rightarrow> 'a \<Rightarrow> bool) \<Rightarrow> 'a \<Rightarrow> 'a list \<Rightarrow> 'a list" where
  "insort_by le x [] = [x]"
| "insort_by le x (y # ys) = (if le x y then x # y # ys else y # insort_by le x ys)"

definition sort_by :: "('a \<Rightarrow> 'a \<Rightarrow> bool) \<Rightarrow> 'a list \<Rightarrow> 'a list" where
  "sort_by le xs = foldr (insort_by le) xs []"

section \<open>Lemmas\<close>

subsection \<open>Strings\<close>

lemma slice_to_take: "slice_to n xs = take (nat n) xs"
proof (induction n xs rule: slice_to.induct)
  case (2 n x xs)
  show ?case
  proof (cases "n \<le> 0")
    case False
    then have "nat n = Suc (nat (n - 1))" by simp
    with 2 False show ?thesis by simp
  qed simp
qed simp

lemma length_slice_to [simp]: "length (slice_to n xs) = min (length xs) (nat n)"
  by (simp add: slice_to_take)

lemma lit_inject [simp]: "lit s = lit t \<longleftrightarrow> s = t"
proof -
  have "inj (of_char :: char \<Rightarrow> int)"
    by (auto intro!: injI simp: of_char_eq_iff)
  then show ?thesis by (simp add: lit_def inj_map_eq_map)
qed

lemma lit_append: "lit (s @ t) = lit s @ lit t"
  by (simp add: lit_def)

lemma lit_Nil [simp]: "lit [] = []"
  by (simp add: lit_def)

lemma lit_eq_Nil [simp]: "lit s = [] \<longleftrightarrow> s = []"
  by (simp add: lit_def)

lemma Nil_eq_lit [simp]: "[] = lit s \<longleftrightarrow> s = []"
  by (auto simp: lit_def)

lemma trim_Nil [simp]: "trim [] = []"
  by (simp add: trim_def)

lemma hd_dropWhile_not: "dropWhile P xs \<noteq> [] \<Longrightarrow> \<not> P (hd (dropWhile P xs))"
  by (induction xs) auto

lemma dropWhile_id: "xs = [] \<or> \<not> P (hd xs) \<Longrightarrow> dropWhile P xs = xs"
  by (cases xs) auto

text \<open>A trimmed string neither starts nor ends with white space, so trimming it again changes
  nothing.\<close>

lemma trim_ends:
  assumes "trim s \<noteq> []"
  shows "\<not> js_space (hd (trim s))" and "\<not> js_space (last (trim s))"
proof -
  let ?d = "dropWhile js_space s" and ?e = "dropWhile js_space (rev (dropWhile js_space s))"
  have e: "?e \<noteq> []" using assms by (simp add: trim_def)
  have "\<not> js_space (hd ?e)" using e by (rule hd_dropWhile_not)
  then show "\<not> js_space (last (trim s))" using e by (simp add: trim_def last_rev)
  have "rev ?d = takeWhile js_space (rev ?d) @ ?e" by simp
  then have d: "?d = rev ?e @ rev (takeWhile js_space (rev ?d))"
    by (metis rev_append rev_rev_ident)
  have "?d \<noteq> []" using e by (metis dropWhile.simps(1) rev.simps(1))
  moreover have "hd ?d = hd (rev ?e)" using e by (subst d) (auto simp: hd_append)
  ultimately show "\<not> js_space (hd (trim s))"
    using hd_dropWhile_not [of js_space s] by (simp add: trim_def)
qed

lemma trim_idem [simp]: "trim (trim s) = trim s"
proof (cases "trim s = []")
  case True
  then show ?thesis by simp
next
  case False
  let ?t = "trim s"
  have "dropWhile js_space ?t = ?t" by (rule dropWhile_id) (simp add: trim_ends [OF False])
  moreover have "dropWhile js_space (rev ?t) = rev ?t"
    by (rule dropWhile_id) (simp add: False hd_rev trim_ends [OF False])
  ultimately show ?thesis unfolding trim_def [of ?t] by simp
qed

lemma string_text_JStr [simp]: "string_text (JStr s) = trim s"
  by (simp add: string_text_def)

lemma trim_string_text [simp]: "trim (string_text v) = string_text v"
  by (cases v) (auto simp: string_text_def)

lemma trim_trimmed_text [simp]: "trim (trimmed_text v) = trimmed_text v"
  by (simp add: trimmed_text_def)

lemma text_of_JStr [simp]: "text_of (JStr s) = s"
  by (simp add: text_of_def jor_def)

lemma starts_with_append [simp]: "starts_with (p @ s) p"
  by (simp add: starts_with_def)

lemma starts_with_iff: "starts_with s p \<longleftrightarrow> (\<exists>r. s = p @ r)"
  unfolding starts_with_def by (metis append_eq_conv_conj append_take_drop_id)

lemma starts_with_trans: "starts_with s q \<Longrightarrow> starts_with q p \<Longrightarrow> starts_with s p"
  by (auto simp: starts_with_iff)

lemma split_on_not_Nil [simp]: "split_on c s \<noteq> []"
  by (cases s) (auto split: list.splits)

lemma split_on_append:
  assumes "c \<notin> set u"
  shows "split_on c (u @ c # s) = u # split_on c s"
  using assms by (induction u) auto

lemma split_on_single: "c \<notin> set u \<Longrightarrow> split_on c u = [u]"
  by (induction u) auto

lemma digits_val_snoc: "digits_val (ds @ [d]) = 10 * digits_val ds + (d - 48)"
  by (simp add: digits_val_def)

text \<open>Printing a natural number in decimal and reading it back.\<close>

lemma digits_val_nat_str: "digits_val (nat_str n) = int n"
proof (induction n rule: nat_str.induct)
  case (1 n)
  show ?case
  proof (cases "n < 10")
    case True
    then show ?thesis by (simp add: nat_str.simps [of n] digits_val_def)
  next
    case False
    then have "digits_val (nat_str n) = 10 * int (n div 10) + int (n mod 10)"
      using 1 by (simp add: nat_str.simps [of n] digits_val_snoc)
    then show ?thesis by presburger
  qed
qed

text \<open>Numbers of everyday size are read without comparing them with the largest double.\<close>

lemma fin_or_inf_small: "- 1000000 \<le> r \<Longrightarrow> r \<le> 1000000 \<Longrightarrow> fin_or_inf r = Fin r"
proof -
  assume "- 1000000 \<le> r" "r \<le> 1000000"
  moreover have "(1000000 :: rat) < 2 ^ 1024 - 2 ^ 970" by simp
  ultimately show ?thesis by (simp add: fin_or_inf_def)
qed

lemma fin_or_inf_code [code]:
  "fin_or_inf r = (if - 1000000 \<le> r \<and> r \<le> 1000000 then Fin r
     else if r \<ge> 2 ^ 1024 - 2 ^ 970 then PosInf else if r \<le> - (2 ^ 1024 - 2 ^ 970) then NegInf else Fin r)"
  using fin_or_inf_small [of r] by (auto simp: fin_or_inf_def)

lemma nat_str_inject [simp]: "nat_str m = nat_str n \<longleftrightarrow> m = n"
  using digits_val_nat_str by (metis of_nat_eq_iff)

lemma nat_str_not_Nil [simp]: "nat_str n \<noteq> []"
  by (simp add: nat_str.simps [of n])

subsection \<open>Objects\<close>

lemma is_object_simps [simp]:
  "is_object (JObj p kvs)" "\<not> is_object JUndef" "\<not> is_object JNull" "\<not> is_object (JBool b)"
  "\<not> is_object (JNum n)" "\<not> is_object (JStr s)" "\<not> is_object (JFun f)" "\<not> is_object (JArr xs)"
  by (simp_all add: is_object_def)

lemma is_object_iff: "is_object v \<longleftrightarrow> (\<exists>p kvs. v = JObj p kvs)"
  by (cases v) auto

lemma is_object_object_value [simp]: "is_object (object_value v)"
  by (simp add: object_value_def)

lemma object_value_idem [simp]: "object_value (object_value v) = object_value v"
  by (simp add: object_value_def)

lemma dot_jobj: "dot (jobj kvs) k = (case map_of kvs k of Some v \<Rightarrow> v | None \<Rightarrow> JUndef)"
proof -
  have "map_of (map (\<lambda>(k, v). (lit k, v)) kvs) (lit k) = map_of kvs k"
    by (induction kvs) auto
  then show ?thesis by (simp add: dot_def own_prop_def jobj_def)
qed

lemma dot_non_object [simp]: "\<not> is_object v \<Longrightarrow> dot v k = JUndef"
  by (cases v) (auto simp: dot_def own_prop_def)

lemma is_plain_object_jobj [simp]: "is_plain_object (jobj kvs)"
  by (simp add: is_plain_object_def jobj_def)

lemma is_object_jobj [simp]: "is_object (jobj kvs)"
  by (simp add: jobj_def)

lemma obj_keys_jobj [simp]: "obj_keys (jobj kvs) = map lit (map fst kvs)"
  by (induction kvs) (auto simp: obj_keys_def jobj_def)

subsection \<open>Throwing computations\<close>

lemma andThen_simps [simp]:
  "andThen (Inl e) f = Inl e" "andThen (Inr x) f = f x"
  by (simp_all add: andThen_def)

lemma andThen_Inr_iff [js_result]: "andThen m f = Inr y \<longleftrightarrow> (\<exists>x. m = Inr x \<and> f x = Inr y)"
  by (cases m) auto

lemma andThen_Inl_iff [js_result]:
  "andThen m f = Inl e \<longleftrightarrow> m = Inl e \<or> (\<exists>x. m = Inr x \<and> f x = Inl e)"
  by (cases m) auto

lemma check_Inr_iff [js_result]: "check b e = Inr u \<longleftrightarrow> b"
  by (simp add: check_def)

lemma check_Inl_iff [js_result]: "check b e = Inl e' \<longleftrightarrow> \<not> b \<and> e' = e"
  by (auto simp: check_def)

lemma check_True [simp]: "check True e = Inr ()"
  by (simp add: check_def)

lemma check_False [simp]: "check False e = Inl e"
  by (simp add: check_def)

lemma is_ok_simps [simp]: "is_ok (Inr x)" "\<not> is_ok (Inl e)"
  by (simp_all add: is_ok_def)

lemma is_ok_iff: "is_ok m \<longleftrightarrow> (\<exists>x. m = Inr x)"
  by (cases m) auto

lemma mapE_Inr_iff [js_result]: "mapE f xs = Inr ys \<longleftrightarrow> list_all2 (\<lambda>x y. f x = Inr y) xs ys"
proof (induction xs arbitrary: ys)
  case Nil
  then show ?case by auto
next
  case (Cons x xs)
  then show ?case by (cases ys) (auto simp: js_result)
qed

lemma mapiE_length: "mapiE f i xs = Inr ys \<Longrightarrow> length ys = length xs"
  by (induction xs arbitrary: i ys) (auto simp: js_result)

lemma mapiE_nth:
  assumes "mapiE f i xs = Inr ys" and "n < length xs"
  shows "f (i + n) (xs ! n) = Inr (ys ! n)"
  using assms
proof (induction xs arbitrary: i ys n)
  case Nil
  then show ?case by simp
next
  case (Cons x xs)
  then obtain y ys' where ys: "ys = y # ys'" "f i x = Inr y" "mapiE f (Suc i) xs = Inr ys'"
    by (auto simp: js_result)
  show ?case
  proof (cases n)
    case 0
    then show ?thesis using ys by simp
  next
    case (Suc m)
    then show ?thesis using Cons.IH [OF ys(3)] Cons.prems ys by simp
  qed
qed

lemma mapiE_set:
  assumes "mapiE f i xs = Inr ys" and "y \<in> set ys"
  obtains n x where "x \<in> set xs" and "f n x = Inr y"
  using assms
proof (induction xs arbitrary: i ys)
  case Nil
  then show ?case by simp
next
  case (Cons x xs)
  then obtain z zs where ys: "ys = z # zs" "f i x = Inr z" "mapiE f (Suc i) xs = Inr zs"
    by (auto simp: js_result)
  show ?case
  proof (cases "y = z")
    case True
    then show ?thesis using Cons.prems(1) [of x i] ys by simp
  next
    case False
    then show ?thesis using Cons.IH [OF _ ys(3)] Cons.prems ys by auto
  qed
qed

subsection \<open>Sets in insertion order\<close>

lemma set_set_add [simp]: "set (set_add s x) = insert x (set s)"
  by (auto simp: set_add_def)

lemma distinct_set_add [simp]: "distinct (set_add s x) = distinct s"
  by (simp add: set_add_def)

lemma set_foldl_set_add: "set (foldl set_add acc xs) = set acc \<union> set xs"
  by (induction xs arbitrary: acc) auto

lemma distinct_foldl_set_add: "distinct (foldl set_add acc xs) = distinct acc"
  by (induction xs arbitrary: acc) auto

lemma set_uniq [simp]: "set (uniq xs) = set xs"
  by (simp add: uniq_def set_foldl_set_add)

lemma distinct_uniq [simp]: "distinct (uniq xs)"
  by (simp add: uniq_def distinct_foldl_set_add)

lemma foldl_set_add_distinct:
  "distinct (acc @ xs) \<Longrightarrow> foldl set_add acc xs = acc @ xs"
proof (induction xs arbitrary: acc)
  case Nil
  then show ?case by simp
next
  case (Cons x xs)
  then have "set_add acc x = acc @ [x]" by (auto simp: set_add_def)
  then show ?case using Cons.IH [of "acc @ [x]"] Cons.prems by simp
qed

lemma uniq_distinct: "distinct xs \<Longrightarrow> uniq xs = xs"
  using foldl_set_add_distinct [of "[]" xs] by (simp add: uniq_def)

lemma uniq_idem [simp]: "uniq (uniq xs) = uniq xs"
  by (rule uniq_distinct) simp

lemma uniq_Nil [simp]: "uniq [] = []"
  by (simp add: uniq_def)

lemma uniq_eq_Nil [simp]: "uniq xs = [] \<longleftrightarrow> xs = []"
  by (metis set_empty set_uniq)

subsection \<open>Sorting\<close>

lemma set_insort_by [simp]: "set (insort_by le x xs) = insert x (set xs)"
  by (induction xs) auto

lemma set_sort_by [simp]: "set (sort_by le xs) = set xs"
  unfolding sort_by_def by (induction xs) auto

lemma mset_insort_by: "mset (insort_by le x xs) = add_mset x (mset xs)"
  by (induction xs) auto

lemma mset_sort_by: "mset (sort_by le xs) = mset xs"
  unfolding sort_by_def by (induction xs) (auto simp: mset_insort_by)

lemma length_insort_by [simp]: "length (insort_by le x xs) = Suc (length xs)"
  by (induction xs) auto

lemma length_sort_by [simp]: "length (sort_by le xs) = length xs"
  unfolding sort_by_def by (induction xs) auto

lemma sorted_insort_by:
  assumes "\<And>a b. le a b \<or> le b a" and "\<And>a b c. le a b \<Longrightarrow> le b c \<Longrightarrow> le a c"
    and "sorted_wrt le xs"
  shows "sorted_wrt le (insort_by le x xs)"
  using assms(3)
proof (induction xs)
  case Nil
  then show ?case by simp
next
  case (Cons y ys)
  then show ?case using assms(1,2) by auto
qed

lemma sorted_sort_by:
  assumes "\<And>a b. le a b \<or> le b a" and "\<And>a b c. le a b \<Longrightarrow> le b c \<Longrightarrow> le a c"
  shows "sorted_wrt le (sort_by le xs)"
  unfolding sort_by_def
proof (induction xs)
  case Nil
  then show ?case by simp
next
  case (Cons x xs)
  have "sorted_wrt le (insort_by le x (foldr (insort_by le) xs []))"
    using assms Cons.IH by (rule sorted_insort_by)
  then show ?case by simp
qed

subsection \<open>Maps in insertion order: the interface and the implementation\<close>

locale ordered_map =
  fixes get :: "'m \<Rightarrow> 'k \<Rightarrow> 'v option"
    and put :: "'m \<Rightarrow> 'k \<Rightarrow> 'v \<Rightarrow> 'm"
    and del :: "'m \<Rightarrow> 'k \<Rightarrow> 'm"
    and keys :: "'m \<Rightarrow> 'k list"
    and ok :: "'m \<Rightarrow> bool"
  assumes get_put: "get (put m k v) k' = (if k' = k then Some v else get m k')"
    and get_del: "get (del m k) k' = (if k' = k then None else get m k')"
    and keys_put: "keys (put m k v) = (if k \<in> set (keys m) then keys m else keys m @ [k])"
    and keys_del: "keys (del m k) = filter (\<lambda>k'. k' \<noteq> k) (keys m)"
    and get_None: "get m k = None \<longleftrightarrow> k \<notin> set (keys m)"
    and ok_put: "ok m \<Longrightarrow> ok (put m k v)"
    and ok_del: "ok m \<Longrightarrow> ok (del m k)"
    and ok_keys: "ok m \<Longrightarrow> distinct (keys m)"
    and del_put_fresh: "get m k = None \<Longrightarrow> del (put m k v) k = m"
begin

lemma get_put_same: "get (put m k v) k = Some v"
  by (simp add: get_put)

lemma get_put_other: "k' \<noteq> k \<Longrightarrow> get (put m k v) k' = get m k'"
  by (simp add: get_put)

lemma get_del_same: "get (del m k) k = None"
  by (simp add: get_del)

text \<open>A key keeps its position while it stays in the map.\<close>

lemma keys_put_present: "get m k \<noteq> None \<Longrightarrow> keys (put m k v) = keys m"
  using get_None [of m k] by (simp add: keys_put)

text \<open>Registering fresh keys one after the other and deleting them in reverse restores the map.\<close>

lemma del_put_list:
  assumes "distinct (map fst kvs)" and "\<And>k v. (k, v) \<in> set kvs \<Longrightarrow> get m k = None"
  shows "foldr (\<lambda>kv m'. del m' (fst kv)) kvs (foldl (\<lambda>m' kv. put m' (fst kv) (snd kv)) m kvs) = m"
  using assms
proof (induction kvs arbitrary: m)
  case Nil
  then show ?case by simp
next
  case (Cons kv kvs)
  have fresh: "get (put m (fst kv) (snd kv)) k = None" if "(k, v) \<in> set kvs" for k v
  proof -
    have "k \<noteq> fst kv" using that Cons.prems(1) by (force simp: image_iff)
    then show ?thesis using that Cons.prems(2) [of k v] by (simp add: get_put)
  qed
  have "get m (fst kv) = None" using Cons.prems(2) [of "fst kv" "snd kv"] by simp
  then show ?case
    using Cons.IH [of "put m (fst kv) (snd kv)"] fresh Cons.prems(1)
    by (simp add: del_put_fresh)
qed

end

lemma map_has_iff [js_map]: "map_has m k \<longleftrightarrow> map_get m k \<noteq> None"
  by (induction m) (auto simp: map_has_def map_get_def)

lemma map_of_map_value:
  "map_of (map (\<lambda>(k', v'). (k', if k' = k then v else v')) m) k'
     = (if k' = k \<and> map_of m k \<noteq> None then Some v else map_of m k')"
  by (induction m) auto

lemma map_get_set [js_map]: "map_get (map_set m k v) k' = (if k' = k then Some v else map_get m k')"
proof (cases "map_has m k")
  case True
  then have "map_of m k \<noteq> None" by (simp add: map_has_iff map_get_def)
  then show ?thesis using True by (simp add: map_set_def map_get_def map_of_map_value)
next
  case False
  then have "map_of m k = None" by (simp add: map_has_iff map_get_def)
  then show ?thesis using False by (auto simp: map_set_def map_get_def map_of_append map_add_def
        split: option.splits)
qed

lemma map_get_delete [js_map]:
  "map_get (map_delete m k) k' = (if k' = k then None else map_get m k')"
  by (induction m) (auto simp: map_delete_def map_get_def)

lemma map_get_empty [simp]: "map_get [] k = None"
  by (simp add: map_get_def)

lemma keys_map_set: "map fst (map_set m k v)
    = (if k \<in> set (map fst m) then map fst m else map fst m @ [k])"
proof -
  have "map fst (map (\<lambda>(k', v'). (k', if k' = k then v else v')) m) = map fst m"
    by (induction m) auto
  then show ?thesis by (auto simp: map_set_def map_has_def)
qed

lemma keys_map_delete: "map fst (map_delete m k) = filter (\<lambda>k'. k' \<noteq> k) (map fst m)"
  by (induction m) (auto simp: map_delete_def)

lemma map_delete_set_fresh [js_map]: "map_get m k = None \<Longrightarrow> map_delete (map_set m k v) k = m"
proof -
  assume "map_get m k = None"
  then have "\<not> map_has m k" by (simp add: map_has_iff)
  moreover from this have "filter (\<lambda>(k', _). k' \<noteq> k) m = m"
    by (auto simp: map_has_def filter_id_conv image_iff)
  ultimately show ?thesis by (simp add: map_set_def map_delete_def)
qed

interpretation jsmap: ordered_map map_get map_set map_delete "map fst" map_ok
proof unfold_locales
  fix m :: "('k, 'v) jmap" and k k' :: 'k and v :: 'v
  show "map_get (map_set m k v) k' = (if k' = k then Some v else map_get m k')"
    by (rule map_get_set)
  show "map_get (map_delete m k) k' = (if k' = k then None else map_get m k')"
    by (rule map_get_delete)
  show "map fst (map_set m k v) = (if k \<in> set (map fst m) then map fst m else map fst m @ [k])"
    by (rule keys_map_set)
  show "map fst (map_delete m k) = filter (\<lambda>k'. k' \<noteq> k) (map fst m)"
    by (rule keys_map_delete)
  show "map_get m k = None \<longleftrightarrow> k \<notin> set (map fst m)"
    by (simp add: map_get_def map_of_eq_None_iff)
  show "map_ok m \<Longrightarrow> map_ok (map_set m k v)"
    by (simp add: map_ok_def keys_map_set)
  show "map_ok m \<Longrightarrow> map_ok (map_delete m k)"
    by (simp add: map_ok_def keys_map_delete)
  show "map_ok m \<Longrightarrow> distinct (map fst m)"
    by (simp add: map_ok_def)
  show "map_get m k = None \<Longrightarrow> map_delete (map_set m k v) k = m"
    by (rule map_delete_set_fresh)
qed

lemma map_ok_Nil [simp]: "map_ok []"
  by (simp add: map_ok_def)

lemma map_get_in_set: "map_get m k = Some v \<Longrightarrow> (k, v) \<in> set m"
  by (simp add: map_get_def map_of_SomeD)

lemma map_get_of_in_set: "map_ok m \<Longrightarrow> (k, v) \<in> set m \<Longrightarrow> map_get m k = Some v"
  by (simp add: map_get_def map_ok_def)

lemma map_values_set_iff: "map_ok m \<Longrightarrow> v \<in> set (map_values m) \<longleftrightarrow> (\<exists>k. map_get m k = Some v)"
  by (force simp: map_values_def dest: map_get_in_set intro: map_get_of_in_set)

lemma map_set_set [js_map]: "map_set (map_set m k v) k v' = map_set m k v'"
  by (auto simp: map_set_def map_has_def image_iff intro!: map_idI)

text \<open>A key splits a map: setting it replaces the entry in place, deleting it drops the entry.\<close>

lemma map_split:
  assumes "map_ok m" "map_get m k = Some v"
  obtains l r where "m = l @ (k, v) # r" "\<And>v'. map_set m k v' = l @ (k, v') # r" "map_delete m k = l @ r"
proof -
  obtain l r where m: "m = l @ (k, v) # r"
    using map_get_in_set [OF assms(2)] by (auto dest: split_list)
  have "k \<notin> fst ` set l" "k \<notin> fst ` set r" using assms(1) m by (auto simp: map_ok_def)
  then have "map (\<lambda>(k', v'). (k', if k' = k then w else v')) l = l"
    "map (\<lambda>(k', v'). (k', if k' = k then w else v')) r = r"
    "filter (\<lambda>(k', _). k' \<noteq> k) l = l" "filter (\<lambda>(k', _). k' \<noteq> k) r = r" for w
    by (auto simp: filter_id_conv image_iff intro!: map_idI)
  with m that show thesis by (auto simp: map_set_def map_has_def map_delete_def)
qed

lemmas js_values [js_eval] = lit_def trim_def js_space_def is_digit_def is_lower_def is_upper_def
  starts_with_def dot_jobj string_text_def jor_def nullish_def nat_str.simps int_str_def
  map_set_def map_get_def map_has_def map_delete_def set_add_def uniq_def

end
