(* ===== verification/Workbench_Contracts.thy ===== *)
theory Workbench_Contracts
  imports JS_Prelude
begin

text \<open>
  The contracts that cross the boundary between the workbench and its plugins
  (\<open>apps/workbench/src/workbench/contracts.js\<close>): resource references, command definitions and the
  plugin context. A thrown \<open>WorkbenchContractError\<close> is the value \<open>ContractError field message\<close>;
  a frozen result object is a record, and \<open>resource_ref_val\<close>, \<open>command_val\<close> give the object back,
  so that validating a validated object can be stated. The locale \<open>normalizer\<close> is the contract
  of such a validator: what it returns is a fixed point of it.
\<close>

datatype contract_error = ContractError jstring jstring

section \<open>Patterns\<close>

definition ident_char :: "int \<Rightarrow> bool" where
  "ident_char c \<longleftrightarrow> is_lower c \<or> is_digit c \<or> c = 95 \<or> c = 45"

text \<open>\<open>/^[a-z][a-z0-9_-]*$/\<close>\<close>

definition local_pattern :: "jstring \<Rightarrow> bool" where
  "local_pattern s \<longleftrightarrow> (case s of [] \<Rightarrow> False | c # r \<Rightarrow> is_lower c \<and> list_all ident_char r)"

text \<open>\<open>/^[a-z][a-z0-9_-]*(?:\.[a-z][a-z0-9_-]*)+$/\<close>\<close>

definition identifierPattern :: "jstring \<Rightarrow> bool" where
  "identifierPattern s \<longleftrightarrow> 2 \<le> length (split_on 46 s) \<and> list_all local_pattern (split_on 46 s)"

definition version_char :: "int \<Rightarrow> bool" where
  "version_char c \<longleftrightarrow> is_digit c \<or> is_lower c \<or> is_upper c \<or> c = 46 \<or> c = 45"

text \<open>\<open>(\d+)\.\<close>: a run of digits and the dot behind it.\<close>

definition digits_dot :: "jstring \<Rightarrow> (jstring \<times> jstring) option" where
  "digits_dot s = (case dropWhile is_digit s of [] \<Rightarrow> None
     | c # r \<Rightarrow> if c = 46 \<and> takeWhile is_digit s \<noteq> [] then Some (takeWhile is_digit s, r) else None)"

text \<open>\<open>(?:\+[0-9A-Za-z.-]+)?$\<close> and \<open>(?:-[0-9A-Za-z.-]+)?(?:\+[0-9A-Za-z.-]+)?$\<close>\<close>

definition build_suffix :: "jstring \<Rightarrow> bool" where
  "build_suffix s \<longleftrightarrow>
     (case s of [] \<Rightarrow> True | c # r \<Rightarrow> c = 43 \<and> r \<noteq> [] \<and> list_all version_char r)"

definition version_suffix :: "jstring \<Rightarrow> bool" where
  "version_suffix s \<longleftrightarrow> (case s of [] \<Rightarrow> True
     | c # r \<Rightarrow> if c = 45 then takeWhile version_char r \<noteq> [] \<and> build_suffix (dropWhile version_char r)
                else build_suffix s)"

definition semver_parts :: "jstring \<Rightarrow> int list option" where
  "semver_parts s = Option.bind (digits_dot s) (\<lambda>(a, s1).
     Option.bind (digits_dot s1) (\<lambda>(b, s2).
       (let c = takeWhile is_digit s2
        in if c \<noteq> [] \<and> version_suffix (dropWhile is_digit s2)
           then Some [digits_val a, digits_val b, digits_val c] else None)))"

definition semverPattern :: "jstring \<Rightarrow> bool" where
  "semverPattern s \<longleftrightarrow> semver_parts s \<noteq> None"

section \<open>Field validators\<close>

definition RESOURCE_REF_TYPES :: "jstring list" where
  "RESOURCE_REF_TYPES = map lit [''file'', ''artifact'', ''task'', ''session'', ''url'', ''business_object'']"

definition COMMAND_RISKS :: "jstring list" where
  "COMMAND_RISKS = map lit [''read'', ''write'', ''exec'', ''external_effect'']"

definition PLUGIN_CONTEXT_SERVICE_METHODS :: "(string \<times> string list) list" where
  "PLUGIN_CONTEXT_SERVICE_METHODS =
     [(''permissions'', [''has'', ''require'']),
      (''commands'', [''register'', ''execute'']),
      (''dialog'', [''confirm'', ''form'', ''choice'', ''open'']),
      (''notifications'', [''show'']),
      (''resources'', [''listRelated'', ''preview'', ''open'']),
      (''tasks'', [''list'']),
      (''artifacts'', [''list'']),
      (''http'', [''request''])]"

definition requireObject :: "jsval \<Rightarrow> jstring \<Rightarrow> contract_error + jsval" where
  "requireObject v field =
     (if is_plain_object v then Inr v else Inl (ContractError field (lit ''must be a plain object'')))"

definition requireString :: "jsval \<Rightarrow> jstring \<Rightarrow> contract_error + jstring" where
  "requireString v field =
     (if string_text v = [] then Inl (ContractError field (lit ''must be a non-empty string''))
      else Inr (string_text v))"

definition optionalString :: "jsval \<Rightarrow> jstring \<Rightarrow> contract_error + jstring option" where
  "optionalString v field =
     (if v = JUndef \<or> v = JNull \<or> v = JStr [] then Inr None
      else andThen (requireString v field) (\<lambda>s. Inr (Some s)))"

definition requireIdentifier :: "jsval \<Rightarrow> jstring \<Rightarrow> contract_error + jstring" where
  "requireIdentifier v field = andThen (requireString v field) (\<lambda>s.
     if identifierPattern s then Inr s
     else Inl (ContractError field (lit ''must be a lowercase namespaced identifier'')))"

definition stringList :: "jsval \<Rightarrow> jstring \<Rightarrow> bool \<Rightarrow> contract_error + jstring list" where
  "stringList v field namespaced = (case v of
       JUndef \<Rightarrow> Inr []
     | JArr xs \<Rightarrow> andThen (mapiE (\<lambda>i item.
           andThen (requireString item (indexed field i)) (\<lambda>s.
             if namespaced \<and> \<not> identifierPattern s
             then Inl (ContractError (indexed field i) (lit ''must be a lowercase namespaced identifier''))
             else Inr s)) 0 xs) (\<lambda>ss. Inr (uniq ss))
     | _ \<Rightarrow> Inl (ContractError field (lit ''must be an array of strings'')))"

text \<open>Assigning \<open>result[key] = item\<close> on an object literal. The key \<open>__proto__\<close> reaches the setter of
  \<open>Object.prototype\<close>: it replaces the prototype and creates no own property.\<close>

definition assign_key :: "proto \<times> (jstring \<times> jsval) list \<Rightarrow> jstring \<times> jsval
    \<Rightarrow> proto \<times> (jstring \<times> jsval) list" where
  "assign_key acc kv = (case acc of (p, kvs) \<Rightarrow> case kv of (k, v) \<Rightarrow>
     if k = lit ''__proto__'' \<and> p \<noteq> NullProto
     then (case v of JObj _ _ \<Rightarrow> (OtherProto, kvs) | JArr _ \<Rightarrow> (OtherProto, kvs)
             | JNull \<Rightarrow> (NullProto, kvs) | _ \<Rightarrow> (p, kvs))
     else (p, kvs @ [(k, v)]))"

definition object_from :: "(jstring \<times> jsval) list \<Rightarrow> jsval" where
  "object_from kvs = (case foldl assign_key (ObjectProto, []) kvs of (p, xs) \<Rightarrow> JObj p xs)"

lemma mapE_cong [fundef_cong]:
  "xs = ys \<Longrightarrow> (\<And>x. x \<in> set ys \<Longrightarrow> f x = g x) \<Longrightarrow> mapE f xs = mapE g ys"
  by (induction xs arbitrary: ys) auto

lemma mapiE_cong [fundef_cong]:
  "i = j \<Longrightarrow> xs = ys \<Longrightarrow> (\<And>n x. x \<in> set ys \<Longrightarrow> f n x = g n x) \<Longrightarrow> mapiE f i xs = mapiE g j ys"
  by (induction xs arbitrary: ys i j) auto

fun cloneJSONValue :: "jsval \<Rightarrow> jstring \<Rightarrow> contract_error + jsval" where
  "cloneJSONValue JNull field = Inr JNull"
| "cloneJSONValue (JStr s) field = Inr (JStr s)"
| "cloneJSONValue (JBool b) field = Inr (JBool b)"
| "cloneJSONValue (JNum n) field =
     (if is_finite n then Inr (JNum n)
      else Inl (ContractError field (lit ''must contain only JSON-compatible values'')))"
| "cloneJSONValue (JArr xs) field =
     andThen (mapiE (\<lambda>i x. cloneJSONValue x (indexed field i)) 0 xs) (\<lambda>ys. Inr (JArr ys))"
| "cloneJSONValue (JObj p kvs) field =
     (if p = OtherProto then Inl (ContractError field (lit ''must contain only JSON-compatible values''))
      else andThen (mapE (\<lambda>kv. andThen (cloneJSONValue (snd kv) (field @ lit ''.'' @ fst kv))
                                 (\<lambda>v. Inr (fst kv, v))) kvs)
             (\<lambda>kvs'. Inr (object_from kvs')))"
| "cloneJSONValue _ field =
     Inl (ContractError field (lit ''must contain only JSON-compatible values''))"

definition optionalSchema :: "jsval \<Rightarrow> jstring \<Rightarrow> contract_error + jsval option" where
  "optionalSchema v field = (if v = JUndef then Inr None
     else andThen (requireObject v field) (\<lambda>_.
          andThen (cloneJSONValue v field) (\<lambda>c. Inr (Some c))))"

section \<open>Resource references\<close>

record resource_ref =
  rr_id :: jstring
  rr_type :: jstring
  rr_title :: jstring
  rr_source :: jstring
  rr_metadata :: jsval
  rr_mimeType :: "jstring option"
  rr_previewable :: "bool option"

definition defineResourceRef :: "jsval \<Rightarrow> contract_error + resource_ref" where
  "defineResourceRef input =
     andThen (requireObject input (lit ''resource'')) (\<lambda>v.
     andThen (requireString (dot v ''type'') (lit ''resource.type'')) (\<lambda>ty.
     andThen (check (ty \<in> set RESOURCE_REF_TYPES)
        (ContractError (lit ''resource.type'')
           (lit ''must be one of '' @ join (lit '', '') RESOURCE_REF_TYPES))) (\<lambda>_.
     andThen (check (dot v ''previewable'' = JUndef \<or> is_boolean (dot v ''previewable''))
        (ContractError (lit ''resource.previewable'') (lit ''must be a boolean''))) (\<lambda>_.
     andThen (requireString (dot v ''id'') (lit ''resource.id'')) (\<lambda>id.
     andThen (requireString (dot v ''title'') (lit ''resource.title'')) (\<lambda>title.
     andThen (requireString (dot v ''source'') (lit ''resource.source'')) (\<lambda>src.
     andThen (cloneJSONValue (nullish (dot v ''metadata'') (jobj [])) (lit ''resource.metadata'')) (\<lambda>metadata.
     andThen (optionalString (dot v ''mimeType'') (lit ''resource.mimeType'')) (\<lambda>mime.
     Inr \<lparr>rr_id = id, rr_type = ty, rr_title = title, rr_source = src, rr_metadata = metadata,
          rr_mimeType = mime,
          rr_previewable = (case dot v ''previewable'' of JBool b \<Rightarrow> Some b | _ \<Rightarrow> None)\<rparr>)))))))))"

definition isResourceRef :: "jsval \<Rightarrow> bool" where
  "isResourceRef v = is_ok (defineResourceRef v)"

text \<open>The object that \<open>defineResourceRef\<close> returns, as a value.\<close>

definition resource_ref_val :: "resource_ref \<Rightarrow> jsval" where
  "resource_ref_val r = jobj
     ([(''id'', JStr (rr_id r)), (''type'', JStr (rr_type r)), (''title'', JStr (rr_title r)),
       (''source'', JStr (rr_source r)), (''metadata'', rr_metadata r)]
      @ (case rr_mimeType r of None \<Rightarrow> [] | Some m \<Rightarrow> [(''mimeType'', JStr m)])
      @ (case rr_previewable r of None \<Rightarrow> [] | Some b \<Rightarrow> [(''previewable'', JBool b)]))"

section \<open>Commands\<close>

record command_def =
  cd_id :: jstring
  cd_title :: jstring
  cd_risk :: jstring
  cd_requiredPermissions :: "jstring list"
  cd_contexts :: "jstring list"
  cd_inputSchema :: "jsval option"
  cd_outputSchema :: "jsval option"

definition defineCommand :: "jsval \<Rightarrow> contract_error + command_def" where
  "defineCommand input =
     andThen (requireObject input (lit ''command'')) (\<lambda>v.
     andThen (if dot v ''risk'' = JUndef then Inr (lit ''read'')
              else requireString (dot v ''risk'') (lit ''command.risk'')) (\<lambda>risk.
     andThen (check (risk \<in> set COMMAND_RISKS)
        (ContractError (lit ''command.risk'')
           (lit ''must be one of '' @ join (lit '', '') COMMAND_RISKS))) (\<lambda>_.
     andThen (requireIdentifier (dot v ''id'') (lit ''command.id'')) (\<lambda>id.
     andThen (requireString (dot v ''title'') (lit ''command.title'')) (\<lambda>title.
     andThen (stringList (dot v ''requiredPermissions'') (lit ''command.requiredPermissions'') True) (\<lambda>perms.
     andThen (stringList (dot v ''contexts'') (lit ''command.contexts'') True) (\<lambda>contexts.
     andThen (optionalSchema (dot v ''inputSchema'') (lit ''command.inputSchema'')) (\<lambda>isch.
     andThen (optionalSchema (dot v ''outputSchema'') (lit ''command.outputSchema'')) (\<lambda>osch.
     Inr \<lparr>cd_id = id, cd_title = title, cd_risk = risk, cd_requiredPermissions = perms,
          cd_contexts = contexts, cd_inputSchema = isch, cd_outputSchema = osch\<rparr>)))))))))"

definition isCommandDefinition :: "jsval \<Rightarrow> bool" where
  "isCommandDefinition v = is_ok (defineCommand v)"

definition opt_entry :: "string \<Rightarrow> jsval option \<Rightarrow> (string \<times> jsval) list" where
  "opt_entry k v = (case v of None \<Rightarrow> [] | Some x \<Rightarrow> [(k, x)])"

definition command_val :: "command_def \<Rightarrow> jsval" where
  "command_val c = jobj
     ([(''id'', JStr (cd_id c)), (''title'', JStr (cd_title c)), (''risk'', JStr (cd_risk c)),
       (''requiredPermissions'', JArr (map JStr (cd_requiredPermissions c))),
       (''contexts'', JArr (map JStr (cd_contexts c)))]
      @ opt_entry ''inputSchema'' (cd_inputSchema c) @ opt_entry ''outputSchema'' (cd_outputSchema c))"

section \<open>The plugin context\<close>

definition is_service :: "jsval \<Rightarrow> bool" where
  "is_service v \<longleftrightarrow> (case v of JObj _ _ \<Rightarrow> True | JFun _ \<Rightarrow> True | _ \<Rightarrow> False)"

fun require_methods :: "jsval \<Rightarrow> string \<Rightarrow> string list \<Rightarrow> contract_error + unit" where
  "require_methods service name [] = Inr ()"
| "require_methods service name (m # ms) =
     (if is_function (dot service m) then require_methods service name ms
      else Inl (ContractError (lit ''context.'' @ lit name @ lit ''.'' @ lit m) (lit ''must be a function'')))"

definition requireService :: "jsval \<Rightarrow> string \<Rightarrow> string list \<Rightarrow> contract_error + jsval" where
  "requireService context name methods =
     (let service = dot context name
      in if \<not> is_service service
         then Inl (ContractError (lit ''context.'' @ lit name) (lit ''must be a service object''))
         else andThen (require_methods service name methods) (\<lambda>_. Inr service))"

record plugin_context =
  pc_pluginId :: jstring
  pc_version :: jstring
  pc_workspaceId :: jstring
  pc_userId :: jstring
  pc_roles :: "jstring list"
  pc_organizationId :: "jstring option"
  pc_services :: "(string \<times> jsval) list"

definition definePluginContext :: "jsval \<Rightarrow> contract_error + plugin_context" where
  "definePluginContext input =
     andThen (requireObject input (lit ''context'')) (\<lambda>v.
     andThen (requireObject (dot v ''plugin'') (lit ''context.plugin'')) (\<lambda>pl.
     andThen (requireObject (dot v ''scope'') (lit ''context.scope'')) (\<lambda>sc.
     andThen (requireString (dot pl ''version'') (lit ''context.plugin.version'')) (\<lambda>version.
     andThen (check (semverPattern version)
        (ContractError (lit ''context.plugin.version'') (lit ''must be a semantic version''))) (\<lambda>_.
     andThen (requireIdentifier (dot pl ''id'') (lit ''context.plugin.id'')) (\<lambda>id.
     andThen (requireString (dot sc ''workspaceId'') (lit ''context.scope.workspaceId'')) (\<lambda>ws.
     andThen (requireString (dot sc ''userId'') (lit ''context.scope.userId'')) (\<lambda>user.
     andThen (stringList (dot sc ''roles'') (lit ''context.scope.roles'') False) (\<lambda>roles.
     andThen (optionalString (dot sc ''organizationId'') (lit ''context.scope.organizationId'')) (\<lambda>org.
     andThen (mapE (\<lambda>(name, methods). andThen (requireService v name methods) (\<lambda>s. Inr (name, s)))
                PLUGIN_CONTEXT_SERVICE_METHODS) (\<lambda>services.
     Inr \<lparr>pc_pluginId = id, pc_version = version, pc_workspaceId = ws, pc_userId = user,
          pc_roles = roles, pc_organizationId = org, pc_services = services\<rparr>)))))))))))"

section \<open>Lemmas\<close>

subsection \<open>The interface of a validator\<close>

locale normalizer =
  fixes norm :: "jsval \<Rightarrow> 'e + 'a"
    and embed :: "'a \<Rightarrow> jsval"
    and clean :: "jsval \<Rightarrow> bool"
  assumes fixed_point: "clean v \<Longrightarrow> norm v = Inr x \<Longrightarrow> norm (embed x) = Inr x"
    and clean_embed: "clean v \<Longrightarrow> norm v = Inr x \<Longrightarrow> clean (embed x)"
begin

text \<open>A validated object passes any number of further validations unchanged.\<close>

fun revalidate :: "nat \<Rightarrow> 'a \<Rightarrow> 'e + 'a" where
  "revalidate 0 x = Inr x"
| "revalidate (Suc n) x = andThen (norm (embed x)) (revalidate n)"

lemma revalidate_stable:
  assumes "clean v" and "norm v = Inr x"
  shows "revalidate n x = Inr x"
  using assms by (induction n) (auto simp: fixed_point)

lemma accepts_embed: "clean v \<Longrightarrow> norm v = Inr x \<Longrightarrow> is_ok (norm (embed x))"
  by (simp add: fixed_point)

end

subsection \<open>Field validators\<close>

lemma requireObject_Inr [js_result]: "requireObject v f = Inr w \<longleftrightarrow> is_plain_object v \<and> w = v"
  by (auto simp: requireObject_def)

lemma requireString_Inr [js_result]:
  "requireString v f = Inr s \<longleftrightarrow> s = string_text v \<and> s \<noteq> []"
  by (auto simp: requireString_def)

lemma optionalString_Inr:
  "optionalString v f = Inr s \<longleftrightarrow>
     (if v = JUndef \<or> v = JNull \<or> v = JStr [] then s = None
      else s = Some (string_text v) \<and> string_text v \<noteq> [])"
  by (auto simp: optionalString_def js_result)

lemma requireIdentifier_Inr [js_result]:
  "requireIdentifier v f = Inr s \<longleftrightarrow> s = string_text v \<and> s \<noteq> [] \<and> identifierPattern s"
  by (auto simp: requireIdentifier_def js_result split: if_splits)

lemma mapiE_requireString_id:
  assumes "\<And>s. s \<in> set ss \<Longrightarrow> trim s = s \<and> s \<noteq> [] \<and> (ns \<longrightarrow> identifierPattern s)"
  shows "mapiE (\<lambda>i item. andThen (requireString item (indexed field i)) (\<lambda>s.
            if ns \<and> \<not> identifierPattern s then Inl (e i) else Inr s)) n (map JStr ss) = Inr ss"
  using assms by (induction ss arbitrary: n) (auto simp: requireString_def)

lemma stringList_elems:
  assumes "stringList v field ns = Inr ss"
  shows "distinct ss \<and> (\<forall>s\<in>set ss. trim s = s \<and> s \<noteq> [] \<and> (ns \<longrightarrow> identifierPattern s))"
proof (cases v)
  case (JArr xs)
  then obtain us where us: "mapiE (\<lambda>i item. andThen (requireString item (indexed field i)) (\<lambda>s.
           if ns \<and> \<not> identifierPattern s
           then Inl (ContractError (indexed field i) (lit ''must be a lowercase namespaced identifier''))
           else Inr s)) 0 xs = Inr us" and ss: "ss = uniq us"
    using assms by (auto simp: stringList_def js_result)
  have "trim s = s \<and> s \<noteq> [] \<and> (ns \<longrightarrow> identifierPattern s)" if "s \<in> set us" for s
    using us that by (rule mapiE_set) (auto simp: js_result split: if_splits)
  then show ?thesis using ss by simp
qed (use assms in \<open>auto simp: stringList_def\<close>)

lemma stringList_normalized:
  assumes "\<And>s. s \<in> set ss \<Longrightarrow> trim s = s \<and> s \<noteq> [] \<and> (ns \<longrightarrow> identifierPattern s)"
  shows "stringList (JArr (map JStr ss)) field ns = Inr (uniq ss)"
proof -
  have "mapiE (\<lambda>i item. andThen (requireString item (indexed field i)) (\<lambda>s.
           if ns \<and> \<not> identifierPattern s
           then Inl (ContractError (indexed field i) (lit ''must be a lowercase namespaced identifier''))
           else Inr s)) 0 (map JStr ss) = Inr ss"
    using assms by (rule mapiE_requireString_id)
  then show ?thesis by (simp add: stringList_def)
qed

text \<open>A list the validator returned is returned unchanged by it.\<close>

lemma stringList_fixed:
  assumes "stringList v field ns = Inr ss"
  shows "stringList (JArr (map JStr ss)) field' ns = Inr ss"
  using stringList_elems [OF assms] stringList_normalized [of ss ns field']
  by (simp add: uniq_distinct)

subsection \<open>Cloning JSON values\<close>

text \<open>The values on which cloning is the identity up to prototypes: no own key \<open>__proto__\<close>
  anywhere.\<close>

fun no_proto_key :: "jsval \<Rightarrow> bool" where
  "no_proto_key (JArr xs) = list_all no_proto_key xs"
| "no_proto_key (JObj p kvs) = list_all (\<lambda>kv. fst kv \<noteq> lit ''__proto__'' \<and> no_proto_key (snd kv)) kvs"
| "no_proto_key _ = True"

text \<open>The JSON values proper: finite numbers, plain objects, no \<open>undefined\<close> and no functions.\<close>

fun is_json :: "jsval \<Rightarrow> bool" where
  "is_json JUndef = False"
| "is_json JNull = True"
| "is_json (JBool b) = True"
| "is_json (JNum n) = is_finite n"
| "is_json (JStr s) = True"
| "is_json (JFun f) = False"
| "is_json (JArr xs) = list_all is_json xs"
| "is_json (JObj p kvs) = (p \<noteq> OtherProto \<and> list_all (\<lambda>kv. is_json (snd kv)) kvs)"

text \<open>What a clone looks like: every object has the ordinary prototype.\<close>

fun with_object_proto :: "jsval \<Rightarrow> jsval" where
  "with_object_proto (JArr xs) = JArr (map with_object_proto xs)"
| "with_object_proto (JObj p kvs) =
     JObj ObjectProto (map (\<lambda>kv. (fst kv, with_object_proto (snd kv))) kvs)"
| "with_object_proto v = v"

lemma foldl_assign_key:
  "list_all (\<lambda>kv. fst kv \<noteq> lit ''__proto__'') kvs \<Longrightarrow>
     foldl assign_key (p, acc) kvs = (p, acc @ kvs)"
  by (induction kvs arbitrary: acc) (auto simp: assign_key_def)

lemma object_from_plain:
  "list_all (\<lambda>kv. fst kv \<noteq> lit ''__proto__'') kvs \<Longrightarrow> object_from kvs = JObj ObjectProto kvs"
  by (simp add: object_from_def foldl_assign_key)

lemma mapiE_clone:
  assumes "\<And>x i. x \<in> set xs \<Longrightarrow> f i x = Inr (g x)"
  shows "mapiE f n xs = Inr (map g xs)"
  using assms by (induction xs arbitrary: n) auto

lemma mapE_clone:
  assumes "\<And>x. x \<in> set xs \<Longrightarrow> f x = Inr (g x)"
  shows "mapE f xs = Inr (map g xs)"
  using assms by (induction xs) auto

lemma cloneJSONValue_json:
  "is_json v \<Longrightarrow> no_proto_key v \<Longrightarrow> cloneJSONValue v field = Inr (with_object_proto v)"
proof (induction v field rule: cloneJSONValue.induct)
  case (5 xs field)
  then have "mapiE (\<lambda>i x. cloneJSONValue x (indexed field i)) 0 xs = Inr (map with_object_proto xs)"
    by (intro mapiE_clone) (auto simp: list_all_iff)
  then show ?case by simp
next
  case (6 p kvs field)
  have "mapE (\<lambda>kv. andThen (cloneJSONValue (snd kv) (field @ lit ''.'' @ fst kv))
          (\<lambda>v. Inr (fst kv, v))) kvs = Inr (map (\<lambda>kv. (fst kv, with_object_proto (snd kv))) kvs)"
    using 6 by (intro mapE_clone) (auto simp: list_all_iff)
  moreover have "list_all (\<lambda>kv. fst kv \<noteq> lit ''__proto__'')
      (map (\<lambda>kv. (fst kv, with_object_proto (snd kv))) kvs)"
    using 6 by (auto simp: list_all_iff)
  ultimately show ?case using 6 by (simp add: object_from_plain)
qed auto

lemma mapiE_Inr_in:
  assumes "mapiE f n xs = Inr ys" and "x \<in> set xs"
  obtains i y where "f i x = Inr y" and "y \<in> set ys"
  using assms
proof (induction xs arbitrary: n ys)
  case Nil
  then show ?case by simp
next
  case (Cons z zs)
  then obtain w ws where w: "ys = w # ws" "f n z = Inr w" "mapiE f (Suc n) zs = Inr ws"
    by (auto simp: js_result)
  show ?case
  proof (cases "x = z")
    case True
    then show ?thesis using Cons.prems(1) [of n w] w by simp
  next
    case False
    then show ?thesis using Cons.IH [OF _ w(3)] Cons.prems w by auto
  qed
qed

lemma list_all2_in:
  "list_all2 P xs ys \<Longrightarrow> x \<in> set xs \<Longrightarrow> \<exists>y\<in>set ys. P x y"
  by (induction xs ys rule: list_all2_induct) auto

lemma cloneJSONValue_ok_json: "cloneJSONValue v field = Inr w \<Longrightarrow> is_json v"
proof (induction v field arbitrary: w rule: cloneJSONValue.induct)
  case (5 xs field)
  then obtain ys where ys: "mapiE (\<lambda>i x. cloneJSONValue x (indexed field i)) 0 xs = Inr ys"
    by (auto simp: js_result)
  have "is_json x" if "x \<in> set xs" for x
    using mapiE_Inr_in [OF ys that] 5(1) that by metis
  then show ?case by (simp add: list_all_iff)
next
  case (6 p kvs field)
  then have p: "p \<noteq> OtherProto" by auto
  with 6(2) obtain ys where ys: "list_all2 (\<lambda>kv y. andThen (cloneJSONValue (snd kv)
      (field @ lit ''.'' @ fst kv)) (\<lambda>v. Inr (fst kv, v)) = Inr y) kvs ys"
    by (auto simp: js_result)
  have "is_json (snd kv)" if "kv \<in> set kvs" for kv
    using list_all2_in [OF ys that] 6(1) [OF p that] by (auto simp: js_result)
  then show ?case using p by (simp add: list_all_iff)
qed (auto split: if_splits)

text \<open>Cloning succeeds on the JSON values and on nothing else.\<close>

lemma cloneJSONValue_Inr:
  "no_proto_key v \<Longrightarrow>
     cloneJSONValue v field = Inr w \<longleftrightarrow> is_json v \<and> w = with_object_proto v"
  using cloneJSONValue_json cloneJSONValue_ok_json by fastforce

lemma is_json_with_object_proto: "is_json v \<Longrightarrow> is_json (with_object_proto v)"
  by (induction v rule: is_json.induct) (auto simp: list_all_iff)

lemma no_proto_with_object_proto: "no_proto_key v \<Longrightarrow> no_proto_key (with_object_proto v)"
  by (induction v rule: no_proto_key.induct) (auto simp: list_all_iff)

lemma with_object_proto_idem: "with_object_proto (with_object_proto v) = with_object_proto v"
  by (induction v rule: with_object_proto.induct) auto

lemma cloneJSONValue_fixed:
  "no_proto_key v \<Longrightarrow> cloneJSONValue v field = Inr w \<Longrightarrow>
     cloneJSONValue w field' = Inr w \<and> no_proto_key w"
  by (auto simp: cloneJSONValue_Inr no_proto_with_object_proto with_object_proto_idem
      is_json_with_object_proto)

subsection \<open>Validated objects are fixed points\<close>

definition clean_resource :: "jsval \<Rightarrow> bool" where
  "clean_resource v \<longleftrightarrow> no_proto_key (dot v ''metadata'')"

definition clean_command :: "jsval \<Rightarrow> bool" where
  "clean_command v \<longleftrightarrow> no_proto_key (dot v ''inputSchema'') \<and> no_proto_key (dot v ''outputSchema'')"

text \<open>What a validated resource reference satisfies.\<close>

definition resource_ref_ok :: "resource_ref \<Rightarrow> bool" where
  "resource_ref_ok r \<longleftrightarrow> rr_type r \<in> set RESOURCE_REF_TYPES
     \<and> list_all (\<lambda>s. trim s = s \<and> s \<noteq> []) [rr_id r, rr_title r, rr_source r]
     \<and> is_json (rr_metadata r)
     \<and> (case rr_mimeType r of None \<Rightarrow> True | Some m \<Rightarrow> trim m = m \<and> m \<noteq> [])"

definition command_ok :: "command_def \<Rightarrow> bool" where
  "command_ok c \<longleftrightarrow> cd_risk c \<in> set COMMAND_RISKS \<and> identifierPattern (cd_id c)
     \<and> trim (cd_id c) = cd_id c \<and> trim (cd_title c) = cd_title c \<and> cd_title c \<noteq> []
     \<and> distinct (cd_requiredPermissions c) \<and> list_all identifierPattern (cd_requiredPermissions c)
     \<and> distinct (cd_contexts c) \<and> list_all identifierPattern (cd_contexts c)"

lemma resource_ref_val_simps [simp]:
  "is_plain_object (resource_ref_val r)"
  "dot (resource_ref_val r) ''id'' = JStr (rr_id r)"
  "dot (resource_ref_val r) ''type'' = JStr (rr_type r)"
  "dot (resource_ref_val r) ''title'' = JStr (rr_title r)"
  "dot (resource_ref_val r) ''source'' = JStr (rr_source r)"
  "dot (resource_ref_val r) ''metadata'' = rr_metadata r"
  "dot (resource_ref_val r) ''mimeType''
     = (case rr_mimeType r of None \<Rightarrow> JUndef | Some m \<Rightarrow> JStr m)"
  "dot (resource_ref_val r) ''previewable''
     = (case rr_previewable r of None \<Rightarrow> JUndef | Some b \<Rightarrow> JBool b)"
  by (auto simp: resource_ref_val_def dot_jobj split: option.splits)

lemma command_val_simps [simp]:
  "is_plain_object (command_val c)"
  "dot (command_val c) ''id'' = JStr (cd_id c)"
  "dot (command_val c) ''title'' = JStr (cd_title c)"
  "dot (command_val c) ''risk'' = JStr (cd_risk c)"
  "dot (command_val c) ''requiredPermissions'' = JArr (map JStr (cd_requiredPermissions c))"
  "dot (command_val c) ''contexts'' = JArr (map JStr (cd_contexts c))"
  "dot (command_val c) ''inputSchema'' = (case cd_inputSchema c of None \<Rightarrow> JUndef | Some x \<Rightarrow> x)"
  "dot (command_val c) ''outputSchema'' = (case cd_outputSchema c of None \<Rightarrow> JUndef | Some x \<Rightarrow> x)"
  by (auto simp: command_val_def dot_jobj opt_entry_def split: option.splits)

lemma resource_type_trimmed: "t \<in> set RESOURCE_REF_TYPES \<Longrightarrow> trim t = t \<and> t \<noteq> []"
  by (auto simp: RESOURCE_REF_TYPES_def js_values)

lemma is_json_not_nullish: "is_json v \<Longrightarrow> v \<noteq> JUndef"
  by auto

lemma clone_nullish_fixed:
  assumes "no_proto_key v" and "cloneJSONValue (nullish v (jobj [])) f = Inr w"
  shows "cloneJSONValue (nullish w (jobj [])) f = Inr w \<and> no_proto_key w \<and> is_json w"
proof -
  have n: "no_proto_key (nullish v (jobj []))" using assms(1) by (simp add: nullish_def jobj_def)
  note c = cloneJSONValue_fixed [OF n assms(2), of f]
  have "nullish v (jobj []) \<noteq> JNull" and "nullish v (jobj []) \<noteq> JUndef"
    by (auto simp: nullish_def jobj_def)
  then have "w \<noteq> JNull" "w \<noteq> JUndef"
    using assms(2) n by (auto simp: cloneJSONValue_Inr) (cases "nullish v (jobj [])"; simp)+
  then show ?thesis using c cloneJSONValue_ok_json by (auto simp: nullish_def)
qed

lemma optionalString_result:
  assumes "optionalString v f = Inr s"
  shows "optionalString (case s of None \<Rightarrow> JUndef | Some x \<Rightarrow> JStr x) f' = Inr s
     \<and> (case s of None \<Rightarrow> True | Some m \<Rightarrow> trim m = m \<and> m \<noteq> [])"
proof (cases s)
  case None
  then show ?thesis by (simp add: optionalString_def)
next
  case (Some m)
  then have "m = string_text v" and "m \<noteq> []"
    using assms by (simp_all add: optionalString_Inr split: if_splits)
  then show ?thesis using Some by (simp add: optionalString_def requireString_def)
qed

lemma defineResourceRef_Inr:
  "defineResourceRef v = Inr r \<longleftrightarrow> is_plain_object v
     \<and> rr_type r = string_text (dot v ''type'') \<and> string_text (dot v ''type'') \<in> set RESOURCE_REF_TYPES
     \<and> string_text (dot v ''type'') \<noteq> []
     \<and> (dot v ''previewable'' = JUndef \<or> is_boolean (dot v ''previewable''))
     \<and> rr_previewable r = (case dot v ''previewable'' of JBool b \<Rightarrow> Some b | _ \<Rightarrow> None)
     \<and> rr_id r = string_text (dot v ''id'') \<and> string_text (dot v ''id'') \<noteq> []
     \<and> rr_title r = string_text (dot v ''title'') \<and> string_text (dot v ''title'') \<noteq> []
     \<and> rr_source r = string_text (dot v ''source'') \<and> string_text (dot v ''source'') \<noteq> []
     \<and> cloneJSONValue (nullish (dot v ''metadata'') (jobj [])) (lit ''resource.metadata'') = Inr (rr_metadata r)
     \<and> optionalString (dot v ''mimeType'') (lit ''resource.mimeType'') = Inr (rr_mimeType r)"
  by (cases r) (simp add: defineResourceRef_def js_result, blast)

lemma defineResourceRef_result:
  assumes "defineResourceRef v = Inr r" and "clean_resource v"
  shows "resource_ref_ok r \<and> clean_resource (resource_ref_val r)"
proof -
  have n: "no_proto_key (dot v ''metadata'')" using assms(2) by (simp add: clean_resource_def)
  note f = assms(1) [unfolded defineResourceRef_Inr]
  then have "cloneJSONValue (nullish (dot v ''metadata'') (jobj [])) (lit ''resource.metadata'')
      = Inr (rr_metadata r)"
    and "optionalString (dot v ''mimeType'') (lit ''resource.mimeType'') = Inr (rr_mimeType r)"
    by simp_all
  from clone_nullish_fixed [OF n this(1)] optionalString_result [OF this(2)] f show ?thesis
    by (simp add: resource_ref_ok_def clean_resource_def)
qed

lemma defineResourceRef_fixed:
  assumes "clean_resource v" and "defineResourceRef v = Inr r"
  shows "defineResourceRef (resource_ref_val r) = Inr r"
proof -
  have n: "no_proto_key (dot v ''metadata'')" using assms(1) by (simp add: clean_resource_def)
  note f = assms(2) [unfolded defineResourceRef_Inr]
  then have "cloneJSONValue (nullish (dot v ''metadata'') (jobj [])) (lit ''resource.metadata'')
      = Inr (rr_metadata r)"
    and "optionalString (dot v ''mimeType'') (lit ''resource.mimeType'') = Inr (rr_mimeType r)"
    by simp_all
  from clone_nullish_fixed [OF n this(1)] optionalString_result [OF this(2)] f show ?thesis
    by (auto simp: defineResourceRef_Inr is_boolean_def split: option.splits)
qed

lemma optionalSchema_fixed:
  assumes "no_proto_key v" and "optionalSchema v f = Inr s"
  shows "optionalSchema (case s of None \<Rightarrow> JUndef | Some x \<Rightarrow> x) f = Inr s
     \<and> no_proto_key (case s of None \<Rightarrow> JUndef | Some x \<Rightarrow> x)"
proof (cases "v = JUndef")
  case True
  then show ?thesis using assms(2) by (auto simp: optionalSchema_def)
next
  case False
  then obtain w where w: "s = Some w" "is_plain_object v" "cloneJSONValue v f = Inr w"
    using assms(2) by (auto simp: optionalSchema_def js_result)
  have "is_plain_object w"
    using w(2) w(3) [unfolded cloneJSONValue_Inr [OF assms(1)]]
    by (cases v) (auto simp: is_plain_object_def)
  moreover from this have "w \<noteq> JUndef" by (auto simp: is_plain_object_def)
  ultimately show ?thesis
    using cloneJSONValue_fixed [OF assms(1) w(3), of f] w(1)
    by (simp add: optionalSchema_def requireObject_def)
qed

lemma risk_trimmed: "t \<in> set COMMAND_RISKS \<Longrightarrow> trim t = t \<and> t \<noteq> []"
  by (auto simp: COMMAND_RISKS_def js_values)

lemma defineCommand_Inr:
  "defineCommand v = Inr c \<longleftrightarrow> is_plain_object v
     \<and> (if dot v ''risk'' = JUndef then Inr (lit ''read'')
        else requireString (dot v ''risk'') (lit ''command.risk'')) = Inr (cd_risk c)
     \<and> cd_risk c \<in> set COMMAND_RISKS
     \<and> cd_id c = string_text (dot v ''id'') \<and> string_text (dot v ''id'') \<noteq> []
     \<and> identifierPattern (string_text (dot v ''id''))
     \<and> cd_title c = string_text (dot v ''title'') \<and> string_text (dot v ''title'') \<noteq> []
     \<and> stringList (dot v ''requiredPermissions'') (lit ''command.requiredPermissions'') True
         = Inr (cd_requiredPermissions c)
     \<and> stringList (dot v ''contexts'') (lit ''command.contexts'') True = Inr (cd_contexts c)
     \<and> optionalSchema (dot v ''inputSchema'') (lit ''command.inputSchema'') = Inr (cd_inputSchema c)
     \<and> optionalSchema (dot v ''outputSchema'') (lit ''command.outputSchema'') = Inr (cd_outputSchema c)"
  by (cases c) (simp add: defineCommand_def js_result, blast)

lemma defineCommand_result:
  assumes "defineCommand v = Inr c"
  shows "command_ok c"
proof -
  note f = assms [unfolded defineCommand_Inr]
  then have "stringList (dot v ''requiredPermissions'') (lit ''command.requiredPermissions'') True
         = Inr (cd_requiredPermissions c)"
    and "stringList (dot v ''contexts'') (lit ''command.contexts'') True = Inr (cd_contexts c)"
    by simp_all
  from this [THEN stringList_elems] f show ?thesis
    by (simp add: command_ok_def list_all_iff)
qed

lemma defineCommand_fixed:
  assumes "clean_command v" and "defineCommand v = Inr c"
  shows "defineCommand (command_val c) = Inr c \<and> clean_command (command_val c)"
proof -
  note f = assms(2) [unfolded defineCommand_Inr]
  then have perms: "stringList (dot v ''requiredPermissions'') (lit ''command.requiredPermissions'') True
        = Inr (cd_requiredPermissions c)"
    and ctx: "stringList (dot v ''contexts'') (lit ''command.contexts'') True = Inr (cd_contexts c)"
    and isch: "optionalSchema (dot v ''inputSchema'') (lit ''command.inputSchema'') = Inr (cd_inputSchema c)"
    and osch: "optionalSchema (dot v ''outputSchema'') (lit ''command.outputSchema'') = Inr (cd_outputSchema c)"
    and risk: "cd_risk c \<in> set COMMAND_RISKS"
    by simp_all
  have clean: "no_proto_key (dot v ''inputSchema'')" "no_proto_key (dot v ''outputSchema'')"
    using assms(1) by (simp_all add: clean_command_def)
  note facts = optionalSchema_fixed [OF clean(1) isch] optionalSchema_fixed [OF clean(2) osch]
    stringList_fixed [OF perms, of "lit ''command.requiredPermissions''"]
    stringList_fixed [OF ctx, of "lit ''command.contexts''"] risk_trimmed [OF risk]
  show ?thesis using facts f
    by (simp add: defineCommand_Inr clean_command_def requireString_def)
qed

interpretation resource_contract: normalizer defineResourceRef resource_ref_val clean_resource
  by unfold_locales (auto simp: defineResourceRef_fixed dest: defineResourceRef_result)

interpretation command_contract: normalizer defineCommand command_val clean_command
  by unfold_locales (auto dest: defineCommand_fixed)

section \<open>Properties\<close>

text \<open>what \<open>defineResourceRef\<close> accepts comes out well formed (a known type, trimmed non-empty id,
  title and source, JSON metadata), and validating the result again changes nothing, provided no
  own key of the metadata is called \<open>__proto__\<close>.\<close>

theorem resource_ref_stable:
  assumes "defineResourceRef v = Inr r" and "clean_resource v"
  shows "resource_ref_ok r \<and> defineResourceRef (resource_ref_val r) = Inr r"
  using defineResourceRef_result [OF assms] resource_contract.fixed_point [OF assms(2,1)] by simp

text \<open>an accepted command has a namespaced id, a title, a known risk and duplicate-free namespaced
  permissions, and validating it again changes nothing.\<close>

theorem command_stable:
  assumes "defineCommand v = Inr c" and "clean_command v"
  shows "command_ok c \<and> defineCommand (command_val c) = Inr c"
  using defineCommand_result [OF assms(1)] command_contract.fixed_point [OF assms(2,1)] by simp

text \<open>cloning a value that has no own key \<open>__proto__\<close> succeeds exactly on JSON values (finite numbers,
  no \<open>undefined\<close>, no functions, plain objects only), and then the clone is the value itself with
  ordinary prototypes.\<close>

theorem clone_exactly_json:
  assumes "no_proto_key v"
  shows "cloneJSONValue v field = Inr w \<longleftrightarrow> is_json v \<and> w = with_object_proto v"
  using assms by (rule cloneJSONValue_Inr)

text \<open>An own key \<open>__proto__\<close>, as \<open>JSON.parse\<close> makes it, is not copied: the clone loses the key and
  gets the value as its prototype, so that the result of one validation is refused by the next.\<close>

theorem clone_loses_proto_key:
  "cloneJSONValue (JObj ObjectProto [(lit ''__proto__'', JObj ObjectProto [])]) field = Inr (JObj OtherProto [])
   \<and> (\<exists>e. cloneJSONValue (JObj OtherProto []) field = Inl e)"
  by (simp add: object_from_def assign_key_def)

definition sample_resource :: jsval where
  "sample_resource = jobj [(''id'', jlit ''a1''), (''type'', jlit ''artifact''), (''title'', jlit '' Report ''),
     (''source'', jlit ''tma''), (''metadata'', jobj [(''pages'', jint 3)]), (''previewable'', JBool True)]"

lemma sample_resource_accepted:
  "case defineResourceRef sample_resource of Inl _ \<Rightarrow> False | Inr r \<Rightarrow> rr_title r = lit ''Report''"
  by code_simp

theorem resource_ref_stable_witness:
  "\<exists>r. defineResourceRef sample_resource = Inr r \<and> clean_resource sample_resource
     \<and> resource_ref_ok r \<and> defineResourceRef (resource_ref_val r) = Inr r"
proof -
  obtain r where r: "defineResourceRef sample_resource = Inr r" using sample_resource_accepted by (auto split: sum.splits)
  have "clean_resource sample_resource" by code_simp
  then show ?thesis using resource_ref_stable [OF r] r by blast
qed

definition sample_command :: jsval where
  "sample_command = jobj [(''id'', jlit ''acme.run''), (''title'', jlit ''Run''), (''risk'', jlit ''exec''),
     (''requiredPermissions'', JArr [jlit ''acme.use'', jlit ''acme.use''])]"

theorem command_stable_witness:
  "\<exists>c. defineCommand sample_command = Inr c \<and> clean_command sample_command \<and> command_ok c
     \<and> defineCommand (command_val c) = Inr c"
proof -
  have "case defineCommand sample_command of Inl _ \<Rightarrow> False | Inr c \<Rightarrow> length (cd_requiredPermissions c) = 1" by code_simp
  then obtain c where c: "defineCommand sample_command = Inr c" by (auto split: sum.splits)
  have "clean_command sample_command" by code_simp
  then show ?thesis using command_stable [OF c] c by blast
qed

theorem clone_exactly_json_witness:
  "no_proto_key (JArr [jint 1, JUndef]) \<and> \<not> (\<exists>w. cloneJSONValue (JArr [jint 1, JUndef]) [] = Inr w)"
  using clone_exactly_json [of "JArr [jint 1, JUndef]" "[]"] by simp

end
