(* ===== verification/Plugin_Manifest.thy ===== *)
theory Plugin_Manifest
  imports Workbench_Contracts
begin

text \<open>
  The manifest of a workbench plugin (\<open>apps/workbench/src/workbench/pluginManifest.js\<close>): its
  validation, semantic-version ranges, and the compatibility check against the running workbench.
  A \<open>PluginManifestError\<close> is \<open>ManifestError field message code\<close>; the error of the nested
  \<open>defineCommand\<close> call passes through as \<open>CommandContract\<close>. The parts of a version are exact
  integers. The lemmas show what an accepted manifest guarantees to the runtime (\<open>manifest_ok\<close>)
  and that range checking is the lexicographic order on the three parts.
\<close>

datatype manifest_error =
    ManifestError jstring jstring jstring
  | CommandContract contract_error

abbreviation invalid_manifest :: "jstring \<Rightarrow> jstring \<Rightarrow> manifest_error" where
  "invalid_manifest field message \<equiv> ManifestError field message (lit ''invalid_manifest'')"

definition WORKBENCH_PLUGIN_PROTOCOL :: jstring where
  "WORKBENCH_PLUGIN_PROTOCOL = lit ''tma.workbench_plugin.v1''"

definition WORKBENCH_PLUGIN_SURFACES :: "jstring list" where
  "WORKBENCH_PLUGIN_SURFACES = map lit [''web_desktop'', ''desktop_shell'', ''web_tablet'', ''web_mobile'']"

section \<open>Field validators\<close>

definition objectValue :: "jsval \<Rightarrow> jstring \<Rightarrow> manifest_error + jsval" where
  "objectValue v field =
     (if is_plain_object v then Inr v else Inl (invalid_manifest field (lit ''must be a plain object'')))"

text \<open>The guard is the truth value of the key that was found, so an own key \<open>""\<close> that comes before
  the other unknown keys hides them.\<close>

definition allowedKeys :: "jsval \<Rightarrow> jstring \<Rightarrow> string list \<Rightarrow> manifest_error + unit" where
  "allowedKeys v field keys =
     (case List.find (\<lambda>k. k \<notin> set (map lit keys)) (obj_keys v) of
        None \<Rightarrow> Inr ()
      | Some unknown \<Rightarrow>
          if unknown = [] then Inr ()
          else Inl (invalid_manifest (field @ lit ''.'' @ unknown)
                      (lit ''is not supported by the Phase 0A manifest'')))"

definition stringValue :: "jsval \<Rightarrow> jstring \<Rightarrow> manifest_error + jstring" where
  "stringValue v field =
     (if string_text v = [] then Inl (invalid_manifest field (lit ''must be a non-empty string''))
      else Inr (string_text v))"

definition optionalStringM :: "jsval \<Rightarrow> jstring \<Rightarrow> manifest_error + jstring option" where
  "optionalStringM v field = (if v = JUndef \<or> v = JNull \<or> v = JStr [] then Inr None
     else andThen (stringValue v field) (\<lambda>s. Inr (Some s)))"

definition namespacedIdentifier :: "jsval \<Rightarrow> jstring \<Rightarrow> manifest_error + jstring" where
  "namespacedIdentifier v field = andThen (stringValue v field) (\<lambda>s.
     if identifierPattern s then Inr s
     else Inl (invalid_manifest field (lit ''must be a lowercase namespaced identifier'')))"

definition localIdentifier :: "jsval \<Rightarrow> jstring \<Rightarrow> manifest_error + jstring" where
  "localIdentifier v field = andThen (stringValue v field) (\<lambda>s.
     if local_pattern s then Inr s
     else Inl (invalid_manifest field (lit ''must be a lowercase identifier'')))"

definition uniqueStrings :: "jsval \<Rightarrow> jstring \<Rightarrow> (jsval \<Rightarrow> jstring \<Rightarrow> manifest_error + jstring)
    \<Rightarrow> manifest_error + jstring list" where
  "uniqueStrings v field nrm = (case v of
       JArr xs \<Rightarrow> andThen (mapiE (\<lambda>i item. nrm item (indexed field i)) 0 xs) (\<lambda>ss. Inr (uniq ss))
     | _ \<Rightarrow> Inl (invalid_manifest field (lit ''must be an array'')))"

section \<open>Semantic versions\<close>

definition parseSemver :: "jsval \<Rightarrow> jstring \<Rightarrow> manifest_error + jstring \<times> int list" where
  "parseSemver v field = andThen (stringValue v field) (\<lambda>s.
     case semver_parts s of
       None \<Rightarrow> Inl (invalid_manifest field (lit ''must be a semantic version''))
     | Some parts \<Rightarrow> Inr (s, parts))"

fun compareSemver :: "int list \<Rightarrow> int list \<Rightarrow> int" where
  "compareSemver (a # as) (b # bs) = (if a \<noteq> b then (if a < b then -1 else 1) else compareSemver as bs)"
| "compareSemver _ _ = 0"

datatype operator = Ge | Le | Gt | Lt | Eq

definition comparator_operator :: "jstring \<Rightarrow> operator \<times> jstring" where
  "comparator_operator s =
     (if starts_with s (lit ''>='') then (Ge, drop 2 s)
      else if starts_with s (lit ''<='') then (Le, drop 2 s)
      else if starts_with s (lit ''>'') then (Gt, drop 1 s)
      else if starts_with s (lit ''<'') then (Lt, drop 1 s)
      else if starts_with s (lit ''='') then (Eq, drop 1 s)
      else (Eq, s))"

definition parse_comparator :: "jstring \<Rightarrow> nat \<Rightarrow> jstring \<Rightarrow> manifest_error + operator \<times> int list" where
  "parse_comparator field i part = (case comparator_operator part of (op, version) \<Rightarrow>
     case semver_parts version of
       None \<Rightarrow> Inl (invalid_manifest (indexed field i) (lit ''must use exact or comparator semantic versions''))
     | Some parts \<Rightarrow> Inr (op, parts))"

definition parseRange :: "jsval \<Rightarrow> jstring \<Rightarrow> manifest_error + (operator \<times> int list) list" where
  "parseRange v field = andThen (stringValue v field) (\<lambda>s.
     if s = lit ''*'' then Inr [] else mapiE (parse_comparator field) 0 (split_spaces s))"

fun comparator_holds :: "int list \<Rightarrow> operator \<times> int list \<Rightarrow> bool" where
  "comparator_holds current (Ge, expected) = (compareSemver current expected \<ge> 0)"
| "comparator_holds current (Le, expected) = (compareSemver current expected \<le> 0)"
| "comparator_holds current (Gt, expected) = (compareSemver current expected > 0)"
| "comparator_holds current (Lt, expected) = (compareSemver current expected < 0)"
| "comparator_holds current (Eq, expected) = (compareSemver current expected = 0)"

definition satisfiesSemverRange :: "jstring \<Rightarrow> jstring \<Rightarrow> manifest_error + bool" where
  "satisfiesSemverRange version rng =
     andThen (parseSemver (JStr version) (lit ''version'')) (\<lambda>(_, current).
     andThen (parseRange (JStr rng) (lit ''range'')) (\<lambda>comparators.
     Inr (list_all (comparator_holds current) comparators)))"

section \<open>Contributions\<close>

fun check_permissions :: "jstring \<Rightarrow> jstring list \<Rightarrow> nat \<Rightarrow> jstring list \<Rightarrow> manifest_error + unit" where
  "check_permissions field declared i [] = Inr ()"
| "check_permissions field declared i (p # ps) =
     (if p \<in> set declared then check_permissions field declared (Suc i) ps
      else Inl (ManifestError (indexed field i)
             (lit ''permission '' @ p @ lit '' is not declared by the plugin'') (lit ''undeclared_permission'')))"

definition requiredPermissions :: "jsval \<Rightarrow> jstring \<Rightarrow> jstring list \<Rightarrow> manifest_error + jstring list" where
  "requiredPermissions v field declared =
     andThen (uniqueStrings (nullish v (JArr [])) field namespacedIdentifier) (\<lambda>ps.
     andThen (check_permissions field declared 0 ps) (\<lambda>_. Inr ps))"

definition has_scheme :: "jstring \<Rightarrow> bool" where
  "has_scheme s \<longleftrightarrow> takeWhile (\<lambda>c. is_lower c \<or> is_upper c) s \<noteq> []
     \<and> starts_with (dropWhile (\<lambda>c. is_lower c \<or> is_upper c) s) (lit '':'')"

definition normalizeEntry :: "jsval \<Rightarrow> jstring \<Rightarrow> manifest_error + jstring" where
  "normalizeEntry v field = andThen (stringValue v field) (\<lambda>entry.
     if \<not> starts_with entry (lit ''./'') \<or> 92 \<in> set entry \<or> lit ''..'' \<in> set (split_on 47 entry)
        \<or> has_scheme entry
     then Inl (invalid_manifest field (lit ''must be a relative path inside the plugin package''))
     else Inr entry)"

definition plugin_route_prefix :: "jstring \<Rightarrow> jstring" where
  "plugin_route_prefix pluginID = lit ''/plugins/'' @ pluginID @ lit ''/''"

record navigation =
  nav_id :: jstring
  nav_group :: jstring
  nav_title :: jstring
  nav_route :: jstring
  nav_order :: "int option"

definition navigation_order :: "jsval \<Rightarrow> jstring \<Rightarrow> manifest_error + int option" where
  "navigation_order v field = (case v of
       JUndef \<Rightarrow> Inr None
     | JNum n \<Rightarrow> if is_integer n then Inr (Some \<lfloor>num_val n\<rfloor>)
                else Inl (invalid_manifest field (lit ''must be an integer''))
     | _ \<Rightarrow> Inl (invalid_manifest field (lit ''must be an integer'')))"

fun normalize_navigation_items :: "jstring \<Rightarrow> jstring list \<Rightarrow> nat \<Rightarrow> jsval list
    \<Rightarrow> manifest_error + navigation list" where
  "normalize_navigation_items pluginID ids i [] = Inr []"
| "normalize_navigation_items pluginID ids i (item # rest) =
     (let field = indexed (lit ''manifest.contributes.navigation'') i in
      andThen (objectValue item field) (\<lambda>input.
      andThen (allowedKeys input field [''id'', ''group'', ''title'', ''route'', ''order'']) (\<lambda>_.
      andThen (localIdentifier (dot input ''id'') (field @ lit ''.id'')) (\<lambda>id.
      andThen (check (id \<notin> set ids)
         (invalid_manifest (field @ lit ''.id'') (lit ''duplicate navigation id '' @ id))) (\<lambda>_.
      andThen (stringValue (dot input ''route'') (field @ lit ''.route'')) (\<lambda>route.
      andThen (check (starts_with route (plugin_route_prefix pluginID))
         (invalid_manifest (field @ lit ''.route'') (lit ''must be under '' @ plugin_route_prefix pluginID))) (\<lambda>_.
      andThen (localIdentifier (dot input ''group'') (field @ lit ''.group'')) (\<lambda>group.
      andThen (stringValue (dot input ''title'') (field @ lit ''.title'')) (\<lambda>title.
      andThen (navigation_order (dot input ''order'') (field @ lit ''.order'')) (\<lambda>order.
      andThen (normalize_navigation_items pluginID (ids @ [id]) (Suc i) rest) (\<lambda>items.
      Inr (\<lparr>nav_id = id, nav_group = group, nav_title = title, nav_route = route, nav_order = order\<rparr>
           # items))))))))))))"

definition normalizeNavigation :: "jsval \<Rightarrow> jstring \<Rightarrow> manifest_error + navigation list" where
  "normalizeNavigation v pluginID = (case v of
       JUndef \<Rightarrow> Inr []
     | JArr xs \<Rightarrow> normalize_navigation_items pluginID [] 0 xs
     | _ \<Rightarrow> Inl (invalid_manifest (lit ''manifest.contributes.navigation'') (lit ''must be an array'')))"

record route =
  rt_id :: jstring
  rt_path :: jstring
  rt_component :: jstring
  rt_required_permissions :: "jstring list"

fun normalize_route_items :: "jstring \<Rightarrow> jstring list \<Rightarrow> jstring list \<Rightarrow> jstring list \<Rightarrow> nat \<Rightarrow> jsval list
    \<Rightarrow> manifest_error + route list" where
  "normalize_route_items pluginID declared ids paths i [] = Inr []"
| "normalize_route_items pluginID declared ids paths i (item # rest) =
     (let field = indexed (lit ''manifest.contributes.routes'') i in
      andThen (objectValue item field) (\<lambda>input.
      andThen (allowedKeys input field [''id'', ''path'', ''component'', ''required_permissions'']) (\<lambda>_.
      andThen (localIdentifier (dot input ''id'') (field @ lit ''.id'')) (\<lambda>id.
      andThen (stringValue (dot input ''path'') (field @ lit ''.path'')) (\<lambda>path.
      andThen (check (id \<notin> set ids)
         (invalid_manifest (field @ lit ''.id'') (lit ''duplicate route id '' @ id))) (\<lambda>_.
      andThen (check (path \<notin> set paths)
         (invalid_manifest (field @ lit ''.path'') (lit ''duplicate route path '' @ path))) (\<lambda>_.
      andThen (check (starts_with path (plugin_route_prefix pluginID))
         (invalid_manifest (field @ lit ''.path'') (lit ''must be under '' @ plugin_route_prefix pluginID))) (\<lambda>_.
      andThen (stringValue (dot input ''component'') (field @ lit ''.component'')) (\<lambda>component.
      andThen (requiredPermissions (dot input ''required_permissions'')
                 (field @ lit ''.required_permissions'') declared) (\<lambda>perms.
      andThen (normalize_route_items pluginID declared (ids @ [id]) (paths @ [path]) (Suc i) rest) (\<lambda>items.
      Inr (\<lparr>rt_id = id, rt_path = path, rt_component = component, rt_required_permissions = perms\<rparr>
           # items))))))))))))"

definition normalizeRoutes :: "jsval \<Rightarrow> jstring \<Rightarrow> jstring list \<Rightarrow> manifest_error + route list" where
  "normalizeRoutes v pluginID declared = (case v of
       JUndef \<Rightarrow> Inr []
     | JArr xs \<Rightarrow> normalize_route_items pluginID declared [] [] 0 xs
     | _ \<Rightarrow> Inl (invalid_manifest (lit ''manifest.contributes.routes'') (lit ''must be an array'')))"

definition lift_command :: "contract_error + 'a \<Rightarrow> manifest_error + 'a" where
  "lift_command m = (case m of Inl e \<Rightarrow> Inl (CommandContract e) | Inr x \<Rightarrow> Inr x)"

text \<open>The argument of the \<open>defineCommand\<close> call. A property whose value is \<open>undefined\<close> reads like an
  absent one.\<close>

definition command_input :: "jsval \<Rightarrow> jstring list \<Rightarrow> jsval" where
  "command_input input required = jobj
     [(''id'', dot input ''id''), (''title'', dot input ''title''), (''risk'', dot input ''risk''),
      (''requiredPermissions'', JArr (map JStr required)), (''contexts'', dot input ''contexts''),
      (''inputSchema'', dot input ''input_schema''), (''outputSchema'', dot input ''output_schema'')]"

fun normalize_command_items :: "jstring \<Rightarrow> jstring list \<Rightarrow> jstring list \<Rightarrow> nat \<Rightarrow> jsval list
    \<Rightarrow> manifest_error + command_def list" where
  "normalize_command_items pluginID declared ids i [] = Inr []"
| "normalize_command_items pluginID declared ids i (item # rest) =
     (let field = indexed (lit ''manifest.contributes.commands'') i in
      andThen (objectValue item field) (\<lambda>input.
      andThen (allowedKeys input field
         [''id'', ''title'', ''risk'', ''required_permissions'', ''contexts'', ''input_schema'', ''output_schema'']) (\<lambda>_.
      andThen (requiredPermissions (dot input ''required_permissions'')
                 (field @ lit ''.required_permissions'') declared) (\<lambda>required.
      andThen (lift_command (defineCommand (command_input input required))) (\<lambda>command.
      andThen (check (starts_with (cd_id command) (pluginID @ lit ''.''))
         (invalid_manifest (field @ lit ''.id'') (lit ''must use plugin namespace '' @ pluginID))) (\<lambda>_.
      andThen (check (cd_id command \<notin> set ids)
         (invalid_manifest (field @ lit ''.id'') (lit ''duplicate command id '' @ cd_id command))) (\<lambda>_.
      andThen (normalize_command_items pluginID declared (ids @ [cd_id command]) (Suc i) rest) (\<lambda>items.
      Inr (command # items)))))))))"

definition normalizeCommands :: "jsval \<Rightarrow> jstring \<Rightarrow> jstring list \<Rightarrow> manifest_error + command_def list" where
  "normalizeCommands v pluginID declared = (case v of
       JUndef \<Rightarrow> Inr []
     | JArr xs \<Rightarrow> normalize_command_items pluginID declared [] 0 xs
     | _ \<Rightarrow> Inl (invalid_manifest (lit ''manifest.contributes.commands'') (lit ''must be an array'')))"

definition normalizeConfiguration :: "jsval \<Rightarrow> manifest_error + (jstring \<times> jstring) option" where
  "normalizeConfiguration v = (if v = JUndef then Inr None else
     andThen (objectValue v (lit ''manifest.configuration'')) (\<lambda>input.
     andThen (allowedKeys input (lit ''manifest.configuration'') [''schema'', ''scope'']) (\<lambda>_.
     andThen (stringValue (dot input ''scope'') (lit ''manifest.configuration.scope'')) (\<lambda>scope.
     andThen (check (scope \<in> set (map lit [''organization'', ''workspace'', ''user'']))
        (invalid_manifest (lit ''manifest.configuration.scope'') (lit ''must be organization, workspace, or user''))) (\<lambda>_.
     andThen (normalizeEntry (dot input ''schema'') (lit ''manifest.configuration.schema'')) (\<lambda>schema.
     Inr (Some (schema, scope))))))))"

section \<open>The manifest\<close>

record manifest =
  mf_protocol_version :: jstring
  mf_id :: jstring
  mf_name :: jstring
  mf_version :: jstring
  mf_entry :: jstring
  mf_surfaces :: "jstring list"
  mf_workbench_api :: jstring
  mf_design_system :: jstring
  mf_permissions :: "jstring list"
  mf_navigation :: "navigation list"
  mf_routes :: "route list"
  mf_commands :: "command_def list"
  mf_description :: "jstring option"
  mf_configuration :: "(jstring \<times> jstring) option"

definition surfaceValue :: "jsval \<Rightarrow> jstring \<Rightarrow> manifest_error + jstring" where
  "surfaceValue item field = andThen (stringValue item field) (\<lambda>s.
     if s \<in> set WORKBENCH_PLUGIN_SURFACES then Inr s
     else Inl (invalid_manifest field (lit ''is not a supported surface'')))"

fun check_navigation_routes :: "jstring list \<Rightarrow> nat \<Rightarrow> navigation list \<Rightarrow> manifest_error + unit" where
  "check_navigation_routes paths i [] = Inr ()"
| "check_navigation_routes paths i (n # ns) =
     (if nav_route n \<in> set paths then check_navigation_routes paths (Suc i) ns
      else Inl (invalid_manifest (indexed (lit ''manifest.contributes.navigation'') i @ lit ''.route'')
             (lit ''must reference a declared route'')))"

definition definePluginManifest :: "jsval \<Rightarrow> manifest_error + manifest" where
  "definePluginManifest inp =
     andThen (objectValue inp (lit ''manifest'')) (\<lambda>v.
     andThen (allowedKeys v (lit ''manifest'')
        [''protocol_version'', ''id'', ''name'', ''description'', ''version'', ''entry'', ''surfaces'',
         ''engines'', ''permissions'', ''contributes'', ''configuration'']) (\<lambda>_.
     andThen (stringValue (dot v ''protocol_version'') (lit ''manifest.protocol_version'')) (\<lambda>protocol.
     andThen (check (protocol = WORKBENCH_PLUGIN_PROTOCOL)
        (ManifestError (lit ''manifest.protocol_version'') (lit ''must be '' @ WORKBENCH_PLUGIN_PROTOCOL)
           (lit ''unsupported_protocol''))) (\<lambda>_.
     andThen (namespacedIdentifier (dot v ''id'') (lit ''manifest.id'')) (\<lambda>id.
     andThen (parseSemver (dot v ''version'') (lit ''manifest.version'')) (\<lambda>(version, _).
     andThen (uniqueStrings (dot v ''surfaces'') (lit ''manifest.surfaces'') surfaceValue) (\<lambda>surfaces.
     andThen (check (surfaces \<noteq> [])
        (invalid_manifest (lit ''manifest.surfaces'') (lit ''must include at least one surface''))) (\<lambda>_.
     andThen (uniqueStrings (nullish (dot v ''permissions'') (JArr [])) (lit ''manifest.permissions'')
                namespacedIdentifier) (\<lambda>permissions.
     andThen (objectValue (dot v ''engines'') (lit ''manifest.engines'')) (\<lambda>engines.
     andThen (allowedKeys engines (lit ''manifest.engines'') [''workbench_api'', ''design_system'']) (\<lambda>_.
     andThen (stringValue (dot engines ''workbench_api'') (lit ''manifest.engines.workbench_api'')) (\<lambda>api.
     andThen (stringValue (dot engines ''design_system'') (lit ''manifest.engines.design_system'')) (\<lambda>ds.
     andThen (parseRange (JStr api) (lit ''manifest.engines.workbench_api'')) (\<lambda>_.
     andThen (parseRange (JStr ds) (lit ''manifest.engines.design_system'')) (\<lambda>_.
     andThen (if dot v ''contributes'' = JUndef then Inr (jobj [])
              else objectValue (dot v ''contributes'') (lit ''manifest.contributes'')) (\<lambda>contributes.
     andThen (allowedKeys contributes (lit ''manifest.contributes'') [''navigation'', ''routes'', ''commands'']) (\<lambda>_.
     andThen (normalizeRoutes (dot contributes ''routes'') id permissions) (\<lambda>routes.
     andThen (normalizeNavigation (dot contributes ''navigation'') id) (\<lambda>navs.
     andThen (check_navigation_routes (map rt_path routes) 0 navs) (\<lambda>_.
     andThen (normalizeCommands (dot contributes ''commands'') id permissions) (\<lambda>commands.
     andThen (stringValue (dot v ''name'') (lit ''manifest.name'')) (\<lambda>name.
     andThen (normalizeEntry (dot v ''entry'') (lit ''manifest.entry'')) (\<lambda>entry.
     andThen (optionalStringM (dot v ''description'') (lit ''manifest.description'')) (\<lambda>description.
     andThen (normalizeConfiguration (dot v ''configuration'')) (\<lambda>configuration.
     Inr \<lparr>mf_protocol_version = protocol, mf_id = id, mf_name = name, mf_version = version,
          mf_entry = entry, mf_surfaces = surfaces, mf_workbench_api = api, mf_design_system = ds,
          mf_permissions = permissions, mf_navigation = navs, mf_routes = routes,
          mf_commands = commands, mf_description = description,
          mf_configuration = configuration\<rparr>)))))))))))))))))))))))))"

record compatibility =
  cp_compatible :: bool
  cp_manifest :: manifest
  cp_reasons :: "(jstring \<times> jstring) list"

definition compatibility_reasons :: "manifest \<Rightarrow> jstring \<Rightarrow> jstring \<Rightarrow> jstring \<Rightarrow> bool \<Rightarrow> bool
    \<Rightarrow> (jstring \<times> jstring) list" where
  "compatibility_reasons m surface api ds api_ok ds_ok =
     (if surface \<in> set (mf_surfaces m) then []
      else [(lit ''surface_unsupported'', lit ''Surface '' @ surface @ lit '' is not declared.'')])
     @ (if api_ok then []
        else [(lit ''workbench_api_incompatible'',
               lit ''Workbench API '' @ api @ lit '' does not satisfy '' @ mf_workbench_api m @ lit ''.'')])
     @ (if ds_ok then []
        else [(lit ''design_system_incompatible'',
               lit ''Design System '' @ ds @ lit '' does not satisfy '' @ mf_design_system m @ lit ''.'')])"

definition checkPluginCompatibility :: "jsval \<Rightarrow> jsval \<Rightarrow> manifest_error + compatibility" where
  "checkPluginCompatibility inp environment =
     andThen (definePluginManifest inp) (\<lambda>m.
     andThen (objectValue environment (lit ''environment'')) (\<lambda>v.
     andThen (parseSemver (dot v ''workbenchAPIVersion'') (lit ''environment.workbenchAPIVersion'')) (\<lambda>(api, _).
     andThen (parseSemver (dot v ''designSystemVersion'') (lit ''environment.designSystemVersion'')) (\<lambda>(ds, _).
     andThen (stringValue (dot v ''surface'') (lit ''environment.surface'')) (\<lambda>surface.
     andThen (satisfiesSemverRange api (mf_workbench_api m)) (\<lambda>api_ok.
     andThen (satisfiesSemverRange ds (mf_design_system m)) (\<lambda>ds_ok.
     (let reasons = compatibility_reasons m surface api ds api_ok ds_ok
      in Inr \<lparr>cp_compatible = (reasons = []), cp_manifest = m, cp_reasons = reasons\<rparr>))))))))"

section \<open>Lemmas\<close>

subsection \<open>Field validators\<close>

lemma objectValue_Inr [js_result]: "objectValue v f = Inr w \<longleftrightarrow> is_plain_object v \<and> w = v"
  by (auto simp: objectValue_def)

lemma stringValue_Inr [js_result]: "stringValue v f = Inr s \<longleftrightarrow> s = string_text v \<and> string_text v \<noteq> []"
  by (auto simp: stringValue_def)

lemma namespacedIdentifier_Inr [js_result]:
  "namespacedIdentifier v f = Inr s \<longleftrightarrow>
     s = string_text v \<and> string_text v \<noteq> [] \<and> identifierPattern (string_text v)"
  by (auto simp: namespacedIdentifier_def js_result split: if_splits)

lemma localIdentifier_Inr [js_result]:
  "localIdentifier v f = Inr s \<longleftrightarrow>
     s = string_text v \<and> string_text v \<noteq> [] \<and> local_pattern (string_text v)"
  by (auto simp: localIdentifier_def js_result split: if_splits)

lemma surfaceValue_Inr [js_result]:
  "surfaceValue v f = Inr s \<longleftrightarrow>
     s = string_text v \<and> string_text v \<noteq> [] \<and> string_text v \<in> set WORKBENCH_PLUGIN_SURFACES"
  by (auto simp: surfaceValue_def js_result split: if_splits)

lemma uniqueStrings_elems:
  assumes "uniqueStrings v f n = Inr ss"
    and "\<And>x g s. n x g = Inr s \<Longrightarrow> P s"
  shows "distinct ss \<and> (\<forall>s\<in>set ss. P s)"
proof -
  obtain xs us where us: "mapiE (\<lambda>i item. n item (indexed f i)) 0 xs = Inr us" and ss: "ss = uniq us"
    using assms(1) by (cases v) (auto simp: uniqueStrings_def js_result)
  have "P s" if "s \<in> set us" for s
    using us that by (rule mapiE_set) (auto dest: assms(2))
  then show ?thesis using ss by simp
qed

lemma check_permissions_Inr [js_result]:
  "check_permissions f declared i ps = Inr u \<longleftrightarrow> set ps \<subseteq> set declared"
  by (induction ps arbitrary: i) auto

lemma requiredPermissions_elems:
  assumes "requiredPermissions v f declared = Inr ps"
  shows "distinct ps \<and> set ps \<subseteq> set declared \<and> (\<forall>p\<in>set ps. trim p = p \<and> p \<noteq> [] \<and> identifierPattern p)"
proof -
  have u: "uniqueStrings (nullish v (JArr [])) f namespacedIdentifier = Inr ps"
    and d: "set ps \<subseteq> set declared"
    using assms by (auto simp: requiredPermissions_def js_result)
  have "distinct ps \<and> (\<forall>p\<in>set ps. trim p = p \<and> p \<noteq> [] \<and> identifierPattern p)"
    using u by (rule uniqueStrings_elems) (auto simp: js_result)
  with d show ?thesis by blast
qed

subsection \<open>Versions and ranges\<close>

lemma semver_parts_length: "semver_parts s = Some ps \<Longrightarrow> length ps = 3"
  by (auto simp: semver_parts_def bind_eq_Some_conv Let_def split: if_splits)

text \<open>\<open>compareSemver\<close> is the three-way comparison of the lexicographic order.\<close>

lemma compareSemver_neg:
  "length as = length bs \<Longrightarrow> compareSemver as bs < 0 \<longleftrightarrow> ord_class.lexordp as bs"
  by (induction as bs rule: compareSemver.induct) auto

lemma compareSemver_zero: "length as = length bs \<Longrightarrow> compareSemver as bs = 0 \<longleftrightarrow> as = bs"
  by (induction as bs rule: compareSemver.induct) auto

lemma compareSemver_pos:
  "length as = length bs \<Longrightarrow> compareSemver as bs > 0 \<longleftrightarrow> ord_class.lexordp bs as"
  by (induction as bs rule: compareSemver.induct) auto

lemma compareSemver_antisym: "compareSemver bs as = - compareSemver as bs"
  by (induction as bs rule: compareSemver.induct) (auto elim: compareSemver.elims)

definition range_char :: "int \<Rightarrow> bool" where
  "range_char c \<longleftrightarrow> version_char c \<or> c = 43"

lemma is_digit_range_char: "is_digit c \<Longrightarrow> range_char c"
  by (simp add: range_char_def version_char_def)

lemma range_char_not_space: "range_char c \<Longrightarrow> \<not> js_space c"
  by (auto simp: range_char_def version_char_def is_digit_def is_lower_def is_upper_def js_space_def)

lemma range_char_not_operator: "range_char c \<Longrightarrow> c \<noteq> 60 \<and> c \<noteq> 61 \<and> c \<noteq> 62 \<and> c \<noteq> 42"
  by (auto simp: range_char_def version_char_def is_digit_def is_lower_def is_upper_def)

lemma takeWhile_imp: "(\<And>c. P c \<Longrightarrow> Q c) \<Longrightarrow> \<forall>c\<in>set (takeWhile P s). Q c"
  by (auto dest: set_takeWhileD)

lemma build_suffix_chars: "build_suffix s \<Longrightarrow> \<forall>c\<in>set s. range_char c"
  by (cases s) (auto simp: build_suffix_def list_all_iff range_char_def)

lemma version_suffix_chars:
  assumes "version_suffix s"
  shows "\<forall>c\<in>set s. range_char c"
proof (cases s)
  case (Cons c r)
  show ?thesis
  proof (cases "c = 45")
    case True
    then have b: "build_suffix (dropWhile version_char r)"
      using assms Cons by (simp add: version_suffix_def)
    have "set r = set (takeWhile version_char r) \<union> set (dropWhile version_char r)"
      by (metis set_append takeWhile_dropWhile_id)
    then show ?thesis
      using True Cons build_suffix_chars [OF b] takeWhile_imp [of version_char range_char r]
      by (auto simp: range_char_def version_char_def)
  next
    case False
    then show ?thesis using assms Cons build_suffix_chars by (simp add: version_suffix_def)
  qed
qed simp

lemma digits_dot_Some:
  assumes "digits_dot s = Some (a, r)"
  shows "s = a @ 46 # r \<and> (\<forall>c\<in>set a. range_char c) \<and> a \<noteq> [] \<and> is_digit (hd a)"
proof (cases "dropWhile is_digit s")
  case Nil
  then show ?thesis using assms by (simp add: digits_dot_def del: dropWhile_eq_Nil_conv)
next
  case (Cons c r')
  have s: "s = takeWhile is_digit s @ c # r'" using Cons by (metis takeWhile_dropWhile_id)
  have a: "a = takeWhile is_digit s" "r = r'" "c = 46" "a \<noteq> []"
    using assms Cons by (auto simp: digits_dot_def split: if_splits)
  then have "is_digit (hd a)" by (metis hd_in_set set_takeWhileD)
  then show ?thesis
    using s a takeWhile_imp [of is_digit range_char s] is_digit_range_char by metis
qed

text \<open>The text of a version: characters that are neither white space nor an operator, with a digit
  in front.\<close>

lemma semver_chars:
  assumes "semver_parts s = Some ps"
  shows "(\<forall>c\<in>set s. range_char c) \<and> s \<noteq> [] \<and> is_digit (hd s)"
proof -
  from assms obtain a s1 b s2 where
    d1: "digits_dot s = Some (a, s1)" and d2: "digits_dot s1 = Some (b, s2)"
    and suf: "version_suffix (dropWhile is_digit s2)"
    by (auto simp: semver_parts_def bind_eq_Some_conv Let_def split: if_splits)
  have "set s2 = set (takeWhile is_digit s2) \<union> set (dropWhile is_digit s2)"
    by (metis set_append takeWhile_dropWhile_id)
  then have "\<forall>c\<in>set s2. range_char c"
    using version_suffix_chars [OF suf] takeWhile_imp [of is_digit range_char s2] is_digit_range_char
    by auto
  then show ?thesis
    using digits_dot_Some [OF d1] digits_dot_Some [OF d2]
    by (auto simp: range_char_def version_char_def hd_append)
qed

lemma trim_no_space:
  assumes "s \<noteq> []" and "\<not> js_space (hd s)" and "\<not> js_space (last s)"
  shows "trim s = s"
  using assms by (simp add: trim_def dropWhile_id hd_rev)

lemma semver_trim: "semver_parts s = Some ps \<Longrightarrow> trim s = s"
  using semver_chars [of s ps] range_char_not_space by (intro trim_no_space) auto

lemma parseSemver_JStr: "semver_parts s = Some ps \<Longrightarrow> parseSemver (JStr s) f = Inr (s, ps)"
  using semver_chars [of s ps] by (simp add: parseSemver_def stringValue_def semver_trim)

lemma collapse_no_space: "\<forall>c\<in>set s. \<not> js_space c \<Longrightarrow> collapse_spaces s = s"
  by (induction s rule: collapse_spaces.induct) auto

lemma collapse_two_words:
  assumes "\<forall>c\<in>set u. \<not> js_space c" and "\<forall>c\<in>set w. \<not> js_space c"
  shows "collapse_spaces (u @ 32 # w) = u @ 32 # w"
  using assms
proof (induction u)
  case Nil
  moreover from this have "dropWhile js_space w = w" by (cases w) auto
  moreover have "js_space 32" by (simp add: js_space_def)
  ultimately show ?case by (simp add: collapse_no_space)
next
  case (Cons c u)
  then show ?case by simp
qed

lemma split_two_words:
  assumes "\<forall>c\<in>set u. \<not> js_space c" and "\<forall>c\<in>set w. \<not> js_space c"
  shows "split_spaces (u @ 32 # w) = [u, w]"
proof -
  have "js_space 32" by (simp add: js_space_def)
  then have "32 \<notin> set u" "32 \<notin> set w" using assms by auto
  then show ?thesis
    using assms by (simp add: split_spaces_def collapse_two_words split_on_append split_on_single)
qed

lemma comparator_Ge_Lt:
  assumes "x \<noteq> []" and "\<forall>c\<in>set x. range_char c"
  shows "comparator_operator (lit ''>='' @ x) = (Ge, x)" and "comparator_operator (lit ''<'' @ x) = (Lt, x)"
proof -
  have "hd x \<noteq> 61" using assms range_char_not_operator [of "hd x"] by simp
  then show "comparator_operator (lit ''>='' @ x) = (Ge, x)"
    and "comparator_operator (lit ''<'' @ x) = (Lt, x)"
    using assms(1) by (cases x; simp add: comparator_operator_def starts_with_def lit_def)+
qed

text \<open>The usual range \<open>>=x <y\<close> is the half-open interval of the version order.\<close>

lemma satisfies_interval:
  assumes v: "semver_parts v = Some pv" and x: "semver_parts x = Some px" and y: "semver_parts y = Some py"
  shows "satisfiesSemverRange v (lit ''>='' @ x @ 32 # lit ''<'' @ y)
     = Inr (\<not> ord_class.lexordp pv px \<and> ord_class.lexordp pv py)"
proof -
  let ?u = "lit ''>='' @ x" and ?w = "lit ''<'' @ y"
  note cx = semver_chars [OF x] and cy = semver_chars [OF y]
  have nsp: "\<not> js_space c" if "c \<in> set ?u \<or> c \<in> set ?w" for c
    using that cx cy range_char_not_space by (auto simp: lit_def js_space_def)
  have "trim (?u @ 32 # ?w) = ?u @ 32 # ?w"
    using nsp cy range_char_not_space [of "last y"]
    by (intro trim_no_space) (auto simp: lit_def js_space_def)
  moreover have "?u @ 32 # ?w \<noteq> lit ''*''" by (simp add: lit_def)
  moreover have "split_spaces (?u @ 32 # ?w) = [?u, ?w]"
    using nsp by (intro split_two_words) auto
  ultimately have range: "parseRange (JStr (?u @ 32 # ?w)) f = Inr [(Ge, px), (Lt, py)]" for f
    using cx cy x y by (simp add: parseRange_def stringValue_def parse_comparator_def comparator_Ge_Lt)
  have len: "length pv = length px" "length pv = length py"
    using semver_parts_length v x y by metis+
  have "compareSemver pv px \<ge> 0 \<longleftrightarrow> \<not> ord_class.lexordp pv px"
    using compareSemver_neg [OF len(1)] by linarith
  moreover have "compareSemver pv py < 0 \<longleftrightarrow> ord_class.lexordp pv py"
    by (rule compareSemver_neg [OF len(2)])
  ultimately show ?thesis
    using range parseSemver_JStr [OF v] by (simp add: satisfiesSemverRange_def)
qed

subsection \<open>Contributions\<close>

definition route_ok :: "jstring \<Rightarrow> jstring list \<Rightarrow> route \<Rightarrow> bool" where
  "route_ok pluginID declared r \<longleftrightarrow> local_pattern (rt_id r)
     \<and> starts_with (rt_path r) (plugin_route_prefix pluginID) \<and> rt_component r \<noteq> []
     \<and> distinct (rt_required_permissions r) \<and> set (rt_required_permissions r) \<subseteq> set declared"

definition navigation_ok :: "jstring \<Rightarrow> navigation \<Rightarrow> bool" where
  "navigation_ok pluginID n \<longleftrightarrow> local_pattern (nav_id n) \<and> local_pattern (nav_group n)
     \<and> nav_title n \<noteq> [] \<and> starts_with (nav_route n) (plugin_route_prefix pluginID)"

definition contributed_command_ok :: "jstring \<Rightarrow> jstring list \<Rightarrow> command_def \<Rightarrow> bool" where
  "contributed_command_ok pluginID declared c \<longleftrightarrow> command_ok c
     \<and> starts_with (cd_id c) (pluginID @ lit ''.'') \<and> set (cd_requiredPermissions c) \<subseteq> set declared"

lemma normalize_route_items_ok:
  assumes "normalize_route_items pid declared ids paths i xs = Inr rs"
  shows "list_all (route_ok pid declared) rs
     \<and> distinct (map rt_id rs) \<and> set (map rt_id rs) \<inter> set ids = {}
     \<and> distinct (map rt_path rs) \<and> set (map rt_path rs) \<inter> set paths = {}"
  using assms
proof (induction xs arbitrary: ids paths i rs)
  case Nil
  then show ?case by simp
next
  case (Cons x xs)
  then obtain r rs' perms f where rs: "rs = r # rs'"
    and rest: "normalize_route_items pid declared (ids @ [rt_id r]) (paths @ [rt_path r]) (Suc i) xs = Inr rs'"
    and fresh: "rt_id r \<notin> set ids" "rt_path r \<notin> set paths"
    and perms: "requiredPermissions (dot x ''required_permissions'') f declared = Inr perms"
      "rt_required_permissions r = perms"
    and shape: "local_pattern (rt_id r)" "starts_with (rt_path r) (plugin_route_prefix pid)" "rt_component r \<noteq> []"
    by (auto simp: Let_def js_result)
  have "route_ok pid declared r"
    using requiredPermissions_elems [OF perms(1)] perms(2) shape by (simp add: route_ok_def)
  then show ?case using Cons.IH [OF rest] rs fresh by auto
qed

lemma normalize_navigation_items_ok:
  assumes "normalize_navigation_items pid ids i xs = Inr ns"
  shows "list_all (navigation_ok pid) ns \<and> distinct (map nav_id ns) \<and> set (map nav_id ns) \<inter> set ids = {}"
  using assms
proof (induction xs arbitrary: ids i ns)
  case Nil
  then show ?case by simp
next
  case (Cons x xs)
  then obtain n ns' where ns: "ns = n # ns'"
    and rest: "normalize_navigation_items pid (ids @ [nav_id n]) (Suc i) xs = Inr ns'"
    and fresh: "nav_id n \<notin> set ids"
    and ok: "navigation_ok pid n"
    by (auto simp: Let_def js_result navigation_ok_def)
  then show ?case using Cons.IH [OF rest] by auto
qed

lemma lift_command_Inr [js_result]: "lift_command m = Inr c \<longleftrightarrow> m = Inr c"
  by (cases m) (auto simp: lift_command_def)

lemma command_input_perms:
  assumes "defineCommand (command_input v ps) = Inr c"
    and "\<forall>p\<in>set ps. trim p = p \<and> p \<noteq> [] \<and> identifierPattern p" and "distinct ps"
  shows "cd_requiredPermissions c = ps"
proof -
  have "stringList (JArr (map JStr ps)) (lit ''command.requiredPermissions'') True
      = Inr (cd_requiredPermissions c)"
    using assms(1) by (simp add: defineCommand_Inr command_input_def dot_jobj)
  moreover have "stringList (JArr (map JStr ps)) (lit ''command.requiredPermissions'') True = Inr (uniq ps)"
    using assms(2) by (intro stringList_normalized) blast
  ultimately show ?thesis using assms(3) by (simp add: uniq_distinct)
qed

lemma normalize_command_items_ok:
  assumes "normalize_command_items pid declared ids i xs = Inr cs"
  shows "list_all (contributed_command_ok pid declared) cs \<and> distinct (map cd_id cs)
     \<and> set (map cd_id cs) \<inter> set ids = {}"
  using assms
proof (induction xs arbitrary: ids i cs)
  case Nil
  then show ?case by simp
next
  case (Cons x xs)
  then obtain c cs' perms f where cs: "cs = c # cs'"
    and rest: "normalize_command_items pid declared (ids @ [cd_id c]) (Suc i) xs = Inr cs'"
    and fresh: "cd_id c \<notin> set ids" "starts_with (cd_id c) (pid @ lit ''.'')"
    and perms: "requiredPermissions (dot x ''required_permissions'') f declared = Inr perms"
    and cmd: "defineCommand (command_input x perms) = Inr c"
    by (auto simp: Let_def js_result)
  note p = requiredPermissions_elems [OF perms]
  have "cd_requiredPermissions c = perms" using command_input_perms [OF cmd] p by blast
  then have "contributed_command_ok pid declared c"
    using p fresh(2) defineCommand_result [OF cmd] by (simp add: contributed_command_ok_def)
  then show ?case using Cons.IH [OF rest] cs fresh by auto
qed

subsection \<open>What an accepted manifest guarantees\<close>

definition entry_ok :: "jstring \<Rightarrow> bool" where
  "entry_ok e \<longleftrightarrow> starts_with e (lit ''./'') \<and> 92 \<notin> set e \<and> lit ''..'' \<notin> set (split_on 47 e)"

definition manifest_ok :: "manifest \<Rightarrow> bool" where
  "manifest_ok m \<longleftrightarrow> mf_protocol_version m = WORKBENCH_PLUGIN_PROTOCOL
     \<and> identifierPattern (mf_id m) \<and> trim (mf_id m) = mf_id m \<and> semverPattern (mf_version m)
     \<and> trim (mf_version m) = mf_version m
     \<and> mf_surfaces m \<noteq> [] \<and> distinct (mf_surfaces m) \<and> set (mf_surfaces m) \<subseteq> set WORKBENCH_PLUGIN_SURFACES
     \<and> distinct (mf_permissions m) \<and> list_all identifierPattern (mf_permissions m)
     \<and> entry_ok (mf_entry m)
     \<and> list_all (route_ok (mf_id m) (mf_permissions m)) (mf_routes m)
     \<and> distinct (map rt_id (mf_routes m)) \<and> distinct (map rt_path (mf_routes m))
     \<and> list_all (navigation_ok (mf_id m)) (mf_navigation m) \<and> distinct (map nav_id (mf_navigation m))
     \<and> set (map nav_route (mf_navigation m)) \<subseteq> set (map rt_path (mf_routes m))
     \<and> list_all (contributed_command_ok (mf_id m) (mf_permissions m)) (mf_commands m)
     \<and> distinct (map cd_id (mf_commands m))"

lemma check_navigation_routes_Inr [js_result]:
  "check_navigation_routes paths i ns = Inr u \<longleftrightarrow> set (map nav_route ns) \<subseteq> set paths"
  by (induction ns arbitrary: i) auto

lemma normalizeEntry_ok: "normalizeEntry v f = Inr e \<Longrightarrow> entry_ok e"
  by (auto simp: normalizeEntry_def js_result entry_ok_def split: if_splits)

lemma parseSemver_Inr [js_result]:
  "parseSemver v f = Inr p \<longleftrightarrow> fst p = string_text v \<and> string_text v \<noteq> []
     \<and> semver_parts (string_text v) = Some (snd p)"
  by (cases p) (auto simp: parseSemver_def js_result split: option.splits)

lemma normalizeRoutes_ok:
  assumes "normalizeRoutes v pid declared = Inr rs"
  shows "list_all (route_ok pid declared) rs \<and> distinct (map rt_id rs) \<and> distinct (map rt_path rs)"
  using assms normalize_route_items_ok by (cases v) (fastforce simp: normalizeRoutes_def)+

lemma normalizeNavigation_ok:
  assumes "normalizeNavigation v pid = Inr ns"
  shows "list_all (navigation_ok pid) ns \<and> distinct (map nav_id ns)"
  using assms normalize_navigation_items_ok by (cases v) (fastforce simp: normalizeNavigation_def)+

lemma normalizeCommands_ok:
  assumes "normalizeCommands v pid declared = Inr cs"
  shows "list_all (contributed_command_ok pid declared) cs \<and> distinct (map cd_id cs)"
  using assms normalize_command_items_ok by (cases v) (fastforce simp: normalizeCommands_def)+

lemma definePluginManifest_parts:
  assumes "definePluginManifest v = Inr m"
  shows "mf_protocol_version m = WORKBENCH_PLUGIN_PROTOCOL"
    and "namespacedIdentifier (dot v ''id'') (lit ''manifest.id'') = Inr (mf_id m)"
    and "\<exists>parts. parseSemver (dot v ''version'') (lit ''manifest.version'') = Inr (mf_version m, parts)"
    and "uniqueStrings (dot v ''surfaces'') (lit ''manifest.surfaces'') surfaceValue = Inr (mf_surfaces m)"
    and "mf_surfaces m \<noteq> []"
    and "uniqueStrings (nullish (dot v ''permissions'') (JArr [])) (lit ''manifest.permissions'')
           namespacedIdentifier = Inr (mf_permissions m)"
    and "\<exists>w. normalizeRoutes w (mf_id m) (mf_permissions m) = Inr (mf_routes m)"
    and "\<exists>w. normalizeNavigation w (mf_id m) = Inr (mf_navigation m)"
    and "set (map nav_route (mf_navigation m)) \<subseteq> set (map rt_path (mf_routes m))"
    and "\<exists>w. normalizeCommands w (mf_id m) (mf_permissions m) = Inr (mf_commands m)"
    and "\<exists>w. normalizeEntry w (lit ''manifest.entry'') = Inr (mf_entry m)"
    and "\<exists>r. parseRange (JStr (mf_workbench_api m)) (lit ''manifest.engines.workbench_api'') = Inr r"
    and "\<exists>r. parseRange (JStr (mf_design_system m)) (lit ''manifest.engines.design_system'') = Inr r"
  using assms unfolding definePluginManifest_def
  by (auto simp only: andThen_Inr_iff check_Inr_iff objectValue_Inr check_navigation_routes_Inr
      split_beta prod.sel manifest.simps sum.inject fst_conv snd_conv prod.collapse ex_simps)

lemma definePluginManifest_ok:
  assumes "definePluginManifest v = Inr m"
  shows "manifest_ok m"
proof -
  note parts = definePluginManifest_parts [OF assms]
  have surfaces: "distinct (mf_surfaces m) \<and> (\<forall>s\<in>set (mf_surfaces m). s \<in> set WORKBENCH_PLUGIN_SURFACES)"
    using parts(4) by (rule uniqueStrings_elems) (auto simp: js_result)
  have perms: "distinct (mf_permissions m) \<and> (\<forall>s\<in>set (mf_permissions m). identifierPattern s)"
    using parts(6) by (rule uniqueStrings_elems) (auto simp: js_result)
  have ids: "identifierPattern (mf_id m)" "trim (mf_id m) = mf_id m"
    using parts(2) by (auto simp: js_result)
  have vers: "semverPattern (mf_version m)" "trim (mf_version m) = mf_version m"
    using parts(3) by (auto simp: js_result semverPattern_def)
  from parts(7,8,10,11) obtain w1 w2 w3 w4 where
    "normalizeRoutes w1 (mf_id m) (mf_permissions m) = Inr (mf_routes m)"
    "normalizeNavigation w2 (mf_id m) = Inr (mf_navigation m)"
    "normalizeCommands w3 (mf_id m) (mf_permissions m) = Inr (mf_commands m)"
    "normalizeEntry w4 (lit ''manifest.entry'') = Inr (mf_entry m)"
    by blast
  then show ?thesis
    using parts(1,5,9) surfaces perms ids vers normalizeRoutes_ok normalizeNavigation_ok
      normalizeCommands_ok normalizeEntry_ok
    unfolding manifest_ok_def list_all_iff by blast
qed

subsection \<open>Compatibility\<close>

lemma parseRange_field:
  "parseRange v f = Inr r \<Longrightarrow> parseRange v f' = Inr r"
proof -
  have c: "mapiE (parse_comparator f) i ps = Inr r \<Longrightarrow> mapiE (parse_comparator f') i ps = Inr r" for i ps r
    by (induction ps arbitrary: i r)
       (auto simp: js_result parse_comparator_def split: prod.splits option.splits)
  assume "parseRange v f = Inr r"
  then show "parseRange v f' = Inr r"
    by (auto simp: parseRange_def js_result c split: if_splits)
qed

text \<open>On an accepted manifest the range check itself never throws.\<close>

lemma satisfiesSemverRange_total:
  assumes "semver_parts v = Some pv" and "parseRange (JStr r) f = Inr cs"
  shows "satisfiesSemverRange v r = Inr (list_all (comparator_holds pv) cs)"
  using parseSemver_JStr [OF assms(1)] parseRange_field [OF assms(2)]
  by (simp add: satisfiesSemverRange_def)

lemma compatibility_reasons_Nil:
  "compatibility_reasons m surface api ds api_ok ds_ok = []
     \<longleftrightarrow> surface \<in> set (mf_surfaces m) \<and> api_ok \<and> ds_ok"
  by (simp add: compatibility_reasons_def)

lemma checkPluginCompatibility_parts:
  assumes "checkPluginCompatibility v env = Inr c"
  obtains api_ok ds_ok where "definePluginManifest v = Inr (cp_manifest c)"
    and "satisfiesSemverRange (string_text (dot env ''workbenchAPIVersion'')) (mf_workbench_api (cp_manifest c)) = Inr api_ok"
    and "satisfiesSemverRange (string_text (dot env ''designSystemVersion'')) (mf_design_system (cp_manifest c)) = Inr ds_ok"
    and "cp_compatible c \<longleftrightarrow> cp_reasons c = []"
    and "cp_reasons c = [] \<longleftrightarrow> string_text (dot env ''surface'') \<in> set (mf_surfaces (cp_manifest c)) \<and> api_ok \<and> ds_ok"
proof -
  from assms obtain m api ds api_ok ds_ok surface where m: "definePluginManifest v = Inr m"
    and versions: "parseSemver (dot env ''workbenchAPIVersion'') (lit ''environment.workbenchAPIVersion'') = Inr api"
      "parseSemver (dot env ''designSystemVersion'') (lit ''environment.designSystemVersion'') = Inr ds"
    and ranges: "satisfiesSemverRange (fst api) (mf_workbench_api m) = Inr api_ok"
      "satisfiesSemverRange (fst ds) (mf_design_system m) = Inr ds_ok"
    and sf: "surface = string_text (dot env ''surface'')"
    and c: "c = \<lparr>cp_compatible = (compatibility_reasons m surface (fst api) (fst ds) api_ok ds_ok = []),
      cp_manifest = m, cp_reasons = compatibility_reasons m surface (fst api) (fst ds) api_ok ds_ok\<rparr>"
    unfolding checkPluginCompatibility_def andThen_Inr_iff split_beta Let_def objectValue_Inr stringValue_Inr
    by auto
  from versions have "fst api = string_text (dot env ''workbenchAPIVersion'')"
    "fst ds = string_text (dot env ''designSystemVersion'')" by (simp_all add: parseSemver_Inr)
  with m ranges c sf show ?thesis by (intro that) (auto simp: compatibility_reasons_Nil)
qed

lemma checkPluginCompatibility_manifest:
  "checkPluginCompatibility v env = Inr c \<Longrightarrow> definePluginManifest v = Inr (cp_manifest c)"
  by (erule checkPluginCompatibility_parts)

lemma checkPluginCompatibility_reasons:
  "checkPluginCompatibility v env = Inr c \<Longrightarrow> cp_compatible c \<longleftrightarrow> cp_reasons c = []"
  by (erule checkPluginCompatibility_parts)

lemma checkPluginCompatibility_Inr:
  assumes "checkPluginCompatibility v env = Inr c"
  shows "cp_compatible c \<longleftrightarrow> string_text (dot env ''surface'') \<in> set (mf_surfaces (cp_manifest c))
     \<and> satisfiesSemverRange (string_text (dot env ''workbenchAPIVersion'')) (mf_workbench_api (cp_manifest c)) = Inr True
     \<and> satisfiesSemverRange (string_text (dot env ''designSystemVersion'')) (mf_design_system (cp_manifest c)) = Inr True"
  using assms by (rule checkPluginCompatibility_parts) simp

section \<open>Properties\<close>

definition sample_manifest :: jsval where
  "sample_manifest = jobj
     [(''protocol_version'', jlit ''tma.workbench_plugin.v1''), (''id'', jlit ''com.demo''),
      (''name'', jlit ''Demo''), (''version'', jlit ''1.2.0''), (''entry'', jlit ''./index.js''),
      (''surfaces'', JArr [jlit ''web_desktop'']),
      (''engines'', jobj [(''workbench_api'', jlit ''>=1.0.0 <2.0.0''), (''design_system'', jlit ''*'')]),
      (''permissions'', JArr [jlit ''demo.read'']),
      (''contributes'', jobj
         [(''routes'', JArr [jobj [(''id'', jlit ''home''), (''path'', jlit ''/plugins/com.demo/home''),
              (''component'', jlit ''Home''), (''required_permissions'', JArr [jlit ''demo.read''])]]),
          (''navigation'', JArr [jobj [(''id'', jlit ''home''), (''group'', jlit ''workspace''),
              (''title'', jlit ''Demo''), (''route'', jlit ''/plugins/com.demo/home''), (''order'', jint 20)]]),
          (''commands'', JArr [jobj [(''id'', jlit ''com.demo.open''), (''title'', jlit ''Open''),
              (''required_permissions'', JArr [jlit ''demo.read''])]])])]"

definition sample_environment :: jsval where
  "sample_environment = jobj [(''workbenchAPIVersion'', jlit ''1.4.0''),
     (''designSystemVersion'', jlit ''1.0.0''), (''surface'', jlit ''web_desktop'')]"





text \<open>the compatibility check answers \<open>compatible\<close> exactly when the surface of the running
  workbench is declared and both engine ranges admit its versions, and exactly when it reports no
  reason; the manifest it returns is well formed.\<close>

theorem compatibility_iff:
  assumes "checkPluginCompatibility v env = Inr c"
  shows "(cp_compatible c \<longleftrightarrow> string_text (dot env ''surface'') \<in> set (mf_surfaces (cp_manifest c))
     \<and> satisfiesSemverRange (string_text (dot env ''workbenchAPIVersion'')) (mf_workbench_api (cp_manifest c)) = Inr True
     \<and> satisfiesSemverRange (string_text (dot env ''designSystemVersion'')) (mf_design_system (cp_manifest c)) = Inr True)
     \<and> (cp_compatible c \<longleftrightarrow> cp_reasons c = [])
     \<and> manifest_ok (cp_manifest c)"
  using checkPluginCompatibility_Inr [OF assms] checkPluginCompatibility_reasons [OF assms]
    definePluginManifest_ok [OF checkPluginCompatibility_manifest [OF assms]]
  by simp

theorem compatibility_iff_witness:
  "\<exists>c. checkPluginCompatibility sample_manifest sample_environment = Inr c \<and> cp_reasons c = []
     \<and> manifest_ok (cp_manifest c)"
proof -
  have "case checkPluginCompatibility sample_manifest sample_environment of Inl _ \<Rightarrow> False
      | Inr c \<Rightarrow> cp_compatible c"
    by code_simp
  then show ?thesis using compatibility_iff [of sample_manifest sample_environment]
    by (auto split: sum.splits)
qed

text \<open>A key \<open>""\<close> in front of the other unknown keys switches the check of unknown keys off, although
  the manifest is meant to be closed.\<close>

lemma allowedKeys_empty_key_hides:
  assumes "[] \<notin> set keys"
  shows "allowedKeys (JObj p (([], x) # rest)) field keys = Inr ()"
proof -
  have "[] \<notin> lit ` set keys" using assms by auto
  then show ?thesis by (simp add: allowedKeys_def obj_keys_def)
qed

end
