(* ===== verification/Plugin_Policy.thy ===== *)
theory Plugin_Policy
  imports JS_Prelude
begin

text \<open>
  Who may use a plugin, and what a plugin may do: the enablement policy of a plugin package
  (\<open>apps/workbench/src/workbench/pluginPolicy.js\<close>) and the permission service of the workbench
  (\<open>apps/workbench/src/workbench/permissionService.js\<close>). A thrown \<open>TypeError\<close> is \<open>PolicyTypeError\<close>
  with its message; a \<open>PermissionDeniedError\<close> is the list of the missing permissions. The locale
  \<open>permission_checker\<close> is the contract between \<open>has\<close> and \<open>require\<close>.
\<close>

datatype policy_error = PolicyTypeError jstring

section \<open>The enablement policy\<close>

definition trimmed_strings :: "jsval list \<Rightarrow> jstring list" where
  "trimmed_strings xs = uniq (filter (\<lambda>s. s \<noteq> []) (map string_text xs))"

definition normalizedList :: "jsval \<Rightarrow> policy_error + jstring list" where
  "normalizedList v = (case v of
       JUndef \<Rightarrow> Inr []
     | JNull \<Rightarrow> Inr []
     | JArr xs \<Rightarrow> Inr (trimmed_strings xs)
     | _ \<Rightarrow> Inl (PolicyTypeError (lit ''Plugin enablement values must be arrays.'')))"

record enablement_policy =
  ep_defaultEnabled :: bool
  ep_organizations :: "jstring list"
  ep_workspaces :: "jstring list"
  ep_roles :: "jstring list"
  ep_excludedOrganizations :: "jstring list"
  ep_excludedWorkspaces :: "jstring list"
  ep_excludedRoles :: "jstring list"

definition enablement_keys :: "string list" where
  "enablement_keys = [''defaultEnabled'', ''organizations'', ''workspaces'', ''roles'',
     ''excludedOrganizations'', ''excludedWorkspaces'', ''excludedRoles'']"

definition definePluginEnablement :: "jsval \<Rightarrow> policy_error + enablement_policy" where
  "definePluginEnablement arg =
     (let inp = (if arg = JUndef then jobj [] else arg) in
      andThen (check (is_object inp) (PolicyTypeError (lit ''Plugin enablement must be an object.''))) (\<lambda>_.
      andThen (case List.find (\<lambda>k. k \<notin> set (map lit enablement_keys)) (obj_keys inp) of
                 None \<Rightarrow> Inr ()
               | Some unknown \<Rightarrow> if unknown = [] then Inr ()
                   else Inl (PolicyTypeError (lit ''Plugin enablement field '' @ unknown @ lit '' is not supported.''))) (\<lambda>_.
      andThen (check (dot inp ''defaultEnabled'' = JUndef \<or> is_boolean (dot inp ''defaultEnabled''))
         (PolicyTypeError (lit ''Plugin enablement defaultEnabled must be a boolean.''))) (\<lambda>_.
      andThen (normalizedList (dot inp ''organizations'')) (\<lambda>orgs.
      andThen (normalizedList (dot inp ''workspaces'')) (\<lambda>wss.
      andThen (normalizedList (dot inp ''roles'')) (\<lambda>roles.
      andThen (normalizedList (dot inp ''excludedOrganizations'')) (\<lambda>xorgs.
      andThen (normalizedList (dot inp ''excludedWorkspaces'')) (\<lambda>xwss.
      andThen (normalizedList (dot inp ''excludedRoles'')) (\<lambda>xroles.
      Inr \<lparr>ep_defaultEnabled = (dot inp ''defaultEnabled'' \<noteq> JBool False),
           ep_organizations = orgs, ep_workspaces = wss, ep_roles = roles,
           ep_excludedOrganizations = xorgs, ep_excludedWorkspaces = xwss,
           ep_excludedRoles = xroles\<rparr>))))))))))"

record enablement =
  en_enabled :: bool
  en_policy :: enablement_policy
  en_reasons :: "jstring list"

definition hasAllowlist :: "enablement_policy \<Rightarrow> bool" where
  "hasAllowlist p \<longleftrightarrow> ep_organizations p \<noteq> [] \<or> ep_workspaces p \<noteq> [] \<or> ep_roles p \<noteq> []"

definition reason_if :: "bool \<Rightarrow> string \<Rightarrow> jstring list" where
  "reason_if b code = (if b then [lit code] else [])"

definition enablement_reasons :: "enablement_policy \<Rightarrow> jstring \<Rightarrow> jstring \<Rightarrow> jstring list \<Rightarrow> jstring list" where
  "enablement_reasons p org ws roles =
     reason_if (\<not> ep_defaultEnabled p \<and> \<not> hasAllowlist p) ''disabled_by_default''
     @ reason_if (ep_organizations p \<noteq> [] \<and> org \<notin> set (ep_organizations p)) ''organization_not_enabled''
     @ reason_if (ep_workspaces p \<noteq> [] \<and> ws \<notin> set (ep_workspaces p)) ''workspace_not_enabled''
     @ reason_if (ep_roles p \<noteq> [] \<and> \<not> list_ex (\<lambda>r. r \<in> set roles) (ep_roles p)) ''role_not_enabled''
     @ reason_if (org \<noteq> [] \<and> org \<in> set (ep_excludedOrganizations p)) ''organization_excluded''
     @ reason_if (ws \<noteq> [] \<and> ws \<in> set (ep_excludedWorkspaces p)) ''workspace_excluded''
     @ reason_if (list_ex (\<lambda>r. r \<in> set roles) (ep_excludedRoles p)) ''role_excluded''"

definition evaluatePluginEnablement :: "jsval \<Rightarrow> jsval \<Rightarrow> policy_error + enablement" where
  "evaluatePluginEnablement inp arg =
     andThen (definePluginEnablement inp) (\<lambda>policy.
     (let scope = (if arg = JUndef then jobj [] else arg) in
      andThen (check (scope \<noteq> JNull)
         (PolicyTypeError (lit ''Cannot read properties of null (reading 'organizationId')''))) (\<lambda>_.
      (let org = trimmed_text (dot scope ''organizationId'');
           ws = trimmed_text (dot scope ''workspaceId'') in
       andThen (normalizedList (dot scope ''roles'')) (\<lambda>roles.
       (let reasons = enablement_reasons policy org ws roles in
        Inr \<lparr>en_enabled = (reasons = []), en_policy = policy, en_reasons = reasons\<rparr>))))))"

section \<open>The permission service\<close>

definition permissionList :: "jsval \<Rightarrow> jstring list" where
  "permissionList v = (case v of
       JUndef \<Rightarrow> []
     | JNull \<Rightarrow> []
     | JArr xs \<Rightarrow> trimmed_strings xs
     | _ \<Rightarrow> trimmed_strings [v])"

definition createPermissionService :: "jsval \<Rightarrow> jstring list" where
  "createPermissionService options = permissionList (dot options ''grants'')"

definition permission_has :: "jstring list \<Rightarrow> jsval \<Rightarrow> bool" where
  "permission_has grants v = list_all (\<lambda>p. p \<in> set grants) (permissionList v)"

definition requirePermissions :: "jstring list \<Rightarrow> jsval \<Rightarrow> jstring list + bool" where
  "requirePermissions grants v =
     (let denied = filter (\<lambda>p. p \<notin> set grants) (permissionList v)
      in if denied \<noteq> [] then Inl denied else Inr True)"

section \<open>Lemmas\<close>

lemma trimmed_strings_elems:
  "distinct (trimmed_strings xs) \<and> (\<forall>s\<in>set (trimmed_strings xs). trim s = s \<and> s \<noteq> [])"
  by (auto simp: trimmed_strings_def)

lemma trimmed_strings_strings:
  assumes "distinct ss" and "\<And>s. s \<in> set ss \<Longrightarrow> trim s = s \<and> s \<noteq> []"
  shows "trimmed_strings (map JStr ss) = ss"
proof -
  have "map string_text (map JStr ss) = ss" using assms(2) by (simp add: map_idI)
  moreover have "filter (\<lambda>s. s \<noteq> []) ss = ss" using assms(2) by (auto simp: filter_id_conv)
  ultimately show ?thesis using assms(1) by (simp add: trimmed_strings_def uniq_distinct)
qed

lemma reason_if_Nil [simp]: "reason_if b code = [] \<longleftrightarrow> \<not> b"
  by (simp add: reason_if_def)

lemma enablement_reasons_Nil:
  "enablement_reasons p org ws roles = [] \<longleftrightarrow>
     (ep_defaultEnabled p \<or> hasAllowlist p)
     \<and> (ep_organizations p = [] \<or> org \<in> set (ep_organizations p))
     \<and> (ep_workspaces p = [] \<or> ws \<in> set (ep_workspaces p))
     \<and> (ep_roles p = [] \<or> set (ep_roles p) \<inter> set roles \<noteq> {})
     \<and> (org = [] \<or> org \<notin> set (ep_excludedOrganizations p))
     \<and> (ws = [] \<or> ws \<notin> set (ep_excludedWorkspaces p))
     \<and> set (ep_excludedRoles p) \<inter> set roles = {}"
  by (auto simp: enablement_reasons_def list_ex_iff)

lemma evaluatePluginEnablement_Inr:
  assumes "evaluatePluginEnablement inp scope = Inr e"
  obtains roles where "definePluginEnablement inp = Inr (en_policy e)"
    and "normalizedList (dot scope ''roles'') = Inr roles"
    and "en_reasons e = enablement_reasons (en_policy e) (trimmed_text (dot scope ''organizationId''))
           (trimmed_text (dot scope ''workspaceId'')) roles"
    and "en_enabled e \<longleftrightarrow> en_reasons e = []"
proof -
  have undef: "dot (if scope = JUndef then jobj [] else scope) k = dot scope k" for k
    by (simp add: dot_jobj)
  show ?thesis
    using assms that unfolding evaluatePluginEnablement_def
    by (auto simp: js_result Let_def undef)
qed

text \<open>The contract of a permission checker: \<open>require\<close> succeeds exactly when \<open>has\<close> answers yes.\<close>

locale permission_checker =
  fixes has :: "jsval \<Rightarrow> bool"
    and req :: "jsval \<Rightarrow> 'e + bool"
  assumes req_ok: "has v \<Longrightarrow> req v = Inr True"
    and req_denied: "\<not> has v \<Longrightarrow> \<exists>e. req v = Inl e"
begin

lemma req_iff: "req v = Inr b \<longleftrightarrow> has v \<and> b"
  using req_ok [of v] req_denied [of v] by (cases "has v") auto

lemma req_total: "is_ok (req v) \<longleftrightarrow> has v"
  by (auto simp: is_ok_iff req_iff)

end

interpretation grants: permission_checker "permission_has g" "requirePermissions g" for g
proof unfold_locales
  fix v
  show "permission_has g v \<Longrightarrow> requirePermissions g v = Inr True"
    by (auto simp: permission_has_def requirePermissions_def list_all_iff filter_empty_conv)
  show "\<not> permission_has g v \<Longrightarrow> \<exists>e. requirePermissions g v = Inl e"
    by (auto simp: permission_has_def requirePermissions_def list_all_iff filter_empty_conv)
qed

section \<open>Properties\<close>

text \<open>A plugin is enabled in a scope exactly when it is enabled by default or by an allow list,
  every non-empty allow list admits the scope, and no exclusion list names it; exclusion wins over
  every allow list.\<close>

theorem enablement_iff:
  assumes "evaluatePluginEnablement inp scope = Inr e"
    and "normalizedList (dot scope ''roles'') = Inr roles"
  shows "en_enabled e \<longleftrightarrow>
     (ep_defaultEnabled (en_policy e) \<or> hasAllowlist (en_policy e))
     \<and> (ep_organizations (en_policy e) = []
          \<or> trimmed_text (dot scope ''organizationId'') \<in> set (ep_organizations (en_policy e)))
     \<and> (ep_workspaces (en_policy e) = []
          \<or> trimmed_text (dot scope ''workspaceId'') \<in> set (ep_workspaces (en_policy e)))
     \<and> (ep_roles (en_policy e) = [] \<or> set (ep_roles (en_policy e)) \<inter> set roles \<noteq> {})
     \<and> (trimmed_text (dot scope ''organizationId'') = []
          \<or> trimmed_text (dot scope ''organizationId'') \<notin> set (ep_excludedOrganizations (en_policy e)))
     \<and> (trimmed_text (dot scope ''workspaceId'') = []
          \<or> trimmed_text (dot scope ''workspaceId'') \<notin> set (ep_excludedWorkspaces (en_policy e)))
     \<and> set (ep_excludedRoles (en_policy e)) \<inter> set roles = {}"
  using assms by (elim evaluatePluginEnablement_Inr) (simp add: enablement_reasons_Nil)

theorem enablement_iff_witness:
  "\<exists>e. evaluatePluginEnablement
         (jobj [(''roles'', JArr [jlit ''analyst'']), (''excludedRoles'', JArr [jlit ''guest''])])
         (jobj [(''workspaceId'', jlit ''w1''), (''roles'', JArr [jlit ''analyst'', jlit ''guest''])]) = Inr e
     \<and> \<not> en_enabled e"
proof -
  let ?i = "jobj [(''roles'', JArr [jlit ''analyst'']), (''excludedRoles'', JArr [jlit ''guest''])]"
  let ?s = "jobj [(''workspaceId'', jlit ''w1''), (''roles'', JArr [jlit ''analyst'', jlit ''guest''])]"
  have ok: "is_ok (evaluatePluginEnablement ?i ?s)" by code_simp
  have ex: "case evaluatePluginEnablement ?i ?s of Inl _ \<Rightarrow> False
      | Inr e \<Rightarrow> ep_excludedRoles (en_policy e) = [lit ''guest'']" by code_simp
  have roles: "normalizedList (dot ?s ''roles'') = Inr [lit ''analyst'', lit ''guest'']" by code_simp
  from ok obtain e where e: "evaluatePluginEnablement ?i ?s = Inr e" by (auto simp: is_ok_iff)
  with ex have "ep_excludedRoles (en_policy e) = [lit ''guest'']" by simp
  with e enablement_iff [OF e roles] show ?thesis by auto
qed

text \<open>the permission service is consistent: \<open>require\<close> succeeds exactly when \<open>has\<close> is true,
  and otherwise reports exactly the required permissions that are not granted.\<close>

theorem permission_service_consistent:
  "(requirePermissions grants v = Inr b \<longleftrightarrow> permission_has grants v \<and> b)
   \<and> (requirePermissions grants v = Inl denied \<longrightarrow>
        denied \<noteq> [] \<and> set denied = set (permissionList v) - set grants)"
proof -
  have "requirePermissions grants v = Inr b \<longleftrightarrow> permission_has grants v \<and> b"
    by (rule grants.req_iff)
  moreover have "denied \<noteq> [] \<and> set denied = set (permissionList v) - set grants"
    if "requirePermissions grants v = Inl denied"
    using that by (auto simp: requirePermissions_def Let_def split: if_splits)
  ultimately show ?thesis by blast
qed

theorem permission_service_consistent_witness:
  "requirePermissions [lit ''a.read''] (JArr [jlit '' a.read '', jlit ''a.write'']) = Inl [lit ''a.write'']
   \<and> set [lit ''a.write''] = set (permissionList (JArr [jlit '' a.read '', jlit ''a.write''])) - set [lit ''a.read'']"
proof -
  have "requirePermissions [lit ''a.read''] (JArr [jlit '' a.read '', jlit ''a.write'']) = Inl [lit ''a.write'']"
    by code_simp
  then show ?thesis using permission_service_consistent by blast
qed

end
