(* ===== verification/Extension_Registries.thy ===== *)
theory Extension_Registries
  imports Plugin_Manifest
begin

text \<open>
  The registries that hold what active plugins contribute
  (\<open>apps/workbench/src/workbench/extensionRegistries.js\<close>): navigation items, routes and commands.

  A registry is a record: its \<open>Map\<close> of entries, the disposers that have not been called yet
  (\<open>live\<close>: the closure's own flag \<open>registered\<close> is true for exactly these tokens), the subscribed
  listeners, and the snapshots delivered to them so far. A disposer is the token of its
  registration. The command registry adds the disposers of handlers. \<open>localeCompare\<close>, which orders
  navigation titles, belongs to the host and is the parameter \<open>lc\<close>.

  The locale \<open>reversible_registry\<close> is the contract the plugin runtime relies on: a registration
  takes a fresh key only, and its disposer gives the registry back as it was. Listeners are taken to
  return; what they were told is the field \<open>delivered\<close>.
\<close>

datatype registry_error =
    RegistryError string jstring
  | RegistryContract contract_error

record ('v, 's) registry =
  entries :: "(jstring, 'v) jmap"
  live :: "(nat, jstring) jmap"
  next_token :: nat
  listeners :: "nat list"
  delivered :: "(nat \<times> 's) list"

definition emit :: "((jstring, 'v) jmap \<Rightarrow> 's) \<Rightarrow> ('v, 's, 'z) registry_scheme \<Rightarrow> ('v, 's, 'z) registry_scheme" where
  "emit snapshot r = r\<lparr>delivered := delivered r @ map (\<lambda>l. (l, snapshot (entries r))) (listeners r)\<rparr>"

definition subscribe :: "((jstring, 'v) jmap \<Rightarrow> 's) \<Rightarrow> jsval \<Rightarrow> ('v, 's, 'z) registry_scheme
    \<Rightarrow> registry_error + ('v, 's, 'z) registry_scheme" where
  "subscribe snapshot listener r = (case listener of
       JFun l \<Rightarrow> Inr (r\<lparr>listeners := set_add (listeners r) l,
                         delivered := delivered r @ [(l, snapshot (entries r))]\<rparr>)
     | _ \<Rightarrow> Inl (RegistryError ''invalid_listener'' (lit ''Registry listener must be a function.'')))"

definition unsubscribe :: "nat \<Rightarrow> ('v, 's, 'z) registry_scheme \<Rightarrow> ('v, 's, 'z) registry_scheme" where
  "unsubscribe l r = r\<lparr>listeners := filter (\<lambda>l'. l' \<noteq> l) (listeners r)\<rparr>"

text \<open>The common end of the registering functions, and the closure they return.\<close>

definition store_entry :: "((jstring, 'v) jmap \<Rightarrow> 's) \<Rightarrow> jstring \<Rightarrow> 'v \<Rightarrow> ('v, 's, 'z) registry_scheme
    \<Rightarrow> nat \<times> ('v, 's, 'z) registry_scheme" where
  "store_entry snapshot key v r =
     (next_token r, emit snapshot (r\<lparr>entries := map_set (entries r) key v,
        live := map_set (live r) (next_token r) key, next_token := Suc (next_token r)\<rparr>))"

definition dispose_entry :: "((jstring, 'v) jmap \<Rightarrow> 's) \<Rightarrow> nat \<Rightarrow> ('v, 's, 'z) registry_scheme
    \<Rightarrow> bool \<times> ('v, 's, 'z) registry_scheme" where
  "dispose_entry snapshot t r = (case map_get (live r) t of
       None \<Rightarrow> (False, r)
     | Some key \<Rightarrow> (True, emit snapshot (r\<lparr>live := map_delete (live r) t,
                                            entries := map_delete (entries r) key\<rparr>)))"

definition pluginIDValue :: "jsval \<Rightarrow> registry_error + jstring" where
  "pluginIDValue v =
     (if string_text v = [] then Inl (RegistryError ''invalid_plugin'' (lit ''Plugin id is required.''))
      else Inr (string_text v))"

section \<open>Navigation\<close>

record nav_entry =
  ne_pluginID :: jstring
  ne_item :: navigation

type_synonym nav_registry = "(nav_entry, nav_entry list) registry"

text \<open>\<open>(left.order ?? 1000) - (right.order ?? 1000) || left.title.localeCompare(right.title)\<close>\<close>

definition nav_rank :: "nav_entry \<Rightarrow> int" where
  "nav_rank e = (case nav_order (ne_item e) of None \<Rightarrow> 1000 | Some n \<Rightarrow> n)"

definition nav_before :: "(jstring \<Rightarrow> jstring \<Rightarrow> int) \<Rightarrow> nav_entry \<Rightarrow> nav_entry \<Rightarrow> bool" where
  "nav_before lc a b =
     (let d = nav_rank a - nav_rank b
      in if d \<noteq> 0 then d \<le> 0 else lc (nav_title (ne_item a)) (nav_title (ne_item b)) \<le> 0)"

definition nav_snapshot :: "(jstring \<Rightarrow> jstring \<Rightarrow> int) \<Rightarrow> (jstring, nav_entry) jmap \<Rightarrow> nav_entry list" where
  "nav_snapshot lc m = sort_by (nav_before lc) (map_values m)"

definition nav_key :: "jstring \<Rightarrow> jstring \<Rightarrow> jstring" where
  "nav_key pluginID itemID = pluginID @ lit '':'' @ itemID"

text \<open>\<open>inp\<close> is \<open>None\<close> for a contribution that is not an object.\<close>

definition nav_register :: "(jstring \<Rightarrow> jstring \<Rightarrow> int) \<Rightarrow> jstring list \<Rightarrow> jsval \<Rightarrow> navigation option
    \<Rightarrow> nav_registry \<Rightarrow> registry_error + nat \<times> nav_registry" where
  "nav_register lc allowedGroups pluginIDInput inp r =
     andThen (pluginIDValue pluginIDInput) (\<lambda>pluginID.
     case inp of
       None \<Rightarrow> Inl (RegistryError ''invalid_navigation'' (lit ''Navigation contribution must be an object.''))
     | Some n \<Rightarrow>
         if nav_group n \<notin> set allowedGroups
         then Inl (RegistryError ''navigation_group_denied''
                (lit ''Navigation group '' @ nav_group n @ lit '' is not available.''))
         else if map_has (entries r) (nav_key pluginID (nav_id n))
         then Inl (RegistryError ''navigation_exists''
                (lit ''Navigation contribution '' @ nav_key pluginID (nav_id n) @ lit '' already exists.''))
         else Inr (store_entry (nav_snapshot lc) (nav_key pluginID (nav_id n))
                     \<lparr>ne_pluginID = pluginID, ne_item = n\<rparr> r))"

definition nav_list :: "(jstring \<Rightarrow> jstring \<Rightarrow> int) \<Rightarrow> jstring option \<Rightarrow> nav_registry \<Rightarrow> nav_entry list" where
  "nav_list lc grp r = (case grp of
       None \<Rightarrow> nav_snapshot lc (entries r)
     | Some g \<Rightarrow> if g = [] then nav_snapshot lc (entries r)
                 else filter (\<lambda>e. nav_group (ne_item e) = g) (nav_snapshot lc (entries r)))"

section \<open>Routes\<close>

record route_entry =
  re_pluginID :: jstring
  re_id :: jstring
  re_title :: jstring
  re_path :: jstring
  re_componentName :: jstring
  re_component :: nat
  re_context :: "plugin_context option"
  re_requiredPermissions :: "jstring list"

type_synonym route_registry = "(route_entry, route_entry list) registry"

definition route_register :: "jsval \<Rightarrow> route \<Rightarrow> jstring \<Rightarrow> jsval \<Rightarrow> plugin_context option
    \<Rightarrow> route_registry \<Rightarrow> registry_error + nat \<times> route_registry" where
  "route_register pluginIDInput inp title component context r =
     andThen (pluginIDValue pluginIDInput) (\<lambda>pluginID.
     case component of
       JFun f \<Rightarrow>
         if map_has (entries r) (rt_path inp)
         then Inl (RegistryError ''route_exists'' (lit ''Route '' @ rt_path inp @ lit '' already exists.''))
         else Inr (store_entry map_values (rt_path inp)
                \<lparr>re_pluginID = pluginID, re_id = rt_id inp,
                 re_title = (if title = [] then rt_id inp else title), re_path = rt_path inp,
                 re_componentName = rt_component inp, re_component = f, re_context = context,
                 re_requiredPermissions = rt_required_permissions inp\<rparr> r)
     | _ \<Rightarrow> Inl (RegistryError ''route_component_missing''
             (lit ''Route '' @ (if rt_path inp = [] then lit ''unknown'' else rt_path inp)
              @ lit '' requires a component export.'')))"

definition route_get :: "route_registry \<Rightarrow> jstring \<Rightarrow> route_entry option" where
  "route_get r path = map_get (entries r) path"

section \<open>Commands\<close>

record command_entry =
  ce_pluginID :: jstring
  ce_command :: command_def
  ce_handler :: "nat option"
  ce_identity :: nat

record public_command =
  pub_pluginID :: jstring
  pub_command :: command_def
  pub_available :: bool

record command_registry = "(command_entry, public_command list) registry" +
  handler_live :: "(nat, jstring \<times> nat) jmap"

definition public_of :: "command_entry \<Rightarrow> public_command" where
  "public_of e = \<lparr>pub_pluginID = ce_pluginID e, pub_command = ce_command e,
                  pub_available = (ce_handler e \<noteq> None)\<rparr>"

definition command_snapshot :: "(jstring, command_entry) jmap \<Rightarrow> public_command list" where
  "command_snapshot m = map public_of (map_values m)"

text \<open>The argument of the \<open>defineCommand\<close> call in \<open>declare\<close>.\<close>

definition declare_input :: "jsval \<Rightarrow> jsval" where
  "declare_input inp = jobj
     [(''id'', dot inp ''id''), (''title'', dot inp ''title''), (''risk'', dot inp ''risk''),
      (''requiredPermissions'', dot inp ''required_permissions''), (''contexts'', dot inp ''contexts''),
      (''inputSchema'', dot inp ''input_schema''), (''outputSchema'', dot inp ''output_schema'')]"

definition command_declare :: "jsval \<Rightarrow> jsval \<Rightarrow> command_registry \<Rightarrow> registry_error + nat \<times> command_registry" where
  "command_declare pluginIDInput inp r =
     andThen (pluginIDValue pluginIDInput) (\<lambda>pluginID.
     case defineCommand (declare_input inp) of
       Inl e \<Rightarrow> Inl (RegistryContract e)
     | Inr command \<Rightarrow>
         if \<not> starts_with (cd_id command) (pluginID @ lit ''.'')
         then Inl (RegistryError ''command_namespace_denied''
                (lit ''Command '' @ cd_id command @ lit '' does not belong to '' @ pluginID @ lit ''.''))
         else if map_has (entries r) (cd_id command)
         then Inl (RegistryError ''command_exists'' (lit ''Command '' @ cd_id command @ lit '' already exists.''))
         else Inr (store_entry command_snapshot (cd_id command)
                \<lparr>ce_pluginID = pluginID, ce_command = command, ce_handler = None,
                 ce_identity = next_token r\<rparr> r))"

definition registerHandler :: "jsval \<Rightarrow> jstring \<Rightarrow> jsval \<Rightarrow> command_registry
    \<Rightarrow> registry_error + nat \<times> command_registry" where
  "registerHandler pluginIDInput commandID handler r =
     andThen (pluginIDValue pluginIDInput) (\<lambda>pluginID.
     (let undeclared = RegistryError ''command_not_declared''
            (lit ''Command '' @ commandID @ lit '' is not declared by '' @ pluginID @ lit ''.'') in
      case map_get (entries r) commandID of
        None \<Rightarrow> Inl undeclared
      | Some entry \<Rightarrow>
          if ce_pluginID entry \<noteq> pluginID then Inl undeclared
          else (case handler of
              JFun h \<Rightarrow>
                if ce_handler entry \<noteq> None
                then Inl (RegistryError ''handler_exists''
                       (lit ''Command '' @ commandID @ lit '' already has a handler.''))
                else Inr (next_token r, emit command_snapshot (r
                       \<lparr>entries := map_set (entries r) commandID (entry\<lparr>ce_handler := Some h\<rparr>),
                        next_token := Suc (next_token r),
                        handler_live := map_set (handler_live r) (next_token r) (commandID, ce_identity entry)\<rparr>))
            | _ \<Rightarrow> Inl (RegistryError ''invalid_handler''
                     (lit ''Command '' @ commandID @ lit '' handler must be a function.'')))))"

text \<open>The closure returned by \<open>registerHandler\<close>: it clears the handler only if the entry in the map
  is still the same object.\<close>

definition dispose_handler :: "nat \<Rightarrow> command_registry \<Rightarrow> bool \<times> command_registry" where
  "dispose_handler t r = (case map_get (handler_live r) t of
       None \<Rightarrow> (False, r)
     | Some (commandID, identity) \<Rightarrow>
         (let r1 = r\<lparr>handler_live := map_delete (handler_live r) t\<rparr>;
              r2 = (case map_get (entries r) commandID of
                      Some entry \<Rightarrow> if ce_identity entry = identity
                        then r1\<lparr>entries := map_set (entries r1) commandID (entry\<lparr>ce_handler := None\<rparr>)\<rparr> else r1
                    | None \<Rightarrow> r1)
          in (True, emit command_snapshot r2)))"

definition command_get :: "command_registry \<Rightarrow> jstring \<Rightarrow> public_command option" where
  "command_get r commandID = List.find (\<lambda>c. cd_id (pub_command c) = commandID) (command_snapshot (entries r))"

definition hasHandler :: "command_registry \<Rightarrow> jstring \<Rightarrow> bool" where
  "hasHandler r commandID = (case map_get (entries r) commandID of None \<Rightarrow> False | Some e \<Rightarrow> ce_handler e \<noteq> None)"

subsection \<open>Executing a command\<close>

datatype 'e failure = RegistryFailure registry_error | HostFailure 'e | NotAFunction

datatype effect = Authorized | Before | Called nat | After bool

text \<open>What the host and the handler do is a parameter: the result of the authorisation, of the hooks
  before and after (\<open>After True\<close> reports success), and of the call of a handler. \<open>later\<close> is the
  handler field of the entry object at the moment it is called, after the awaited authorisation and
  hook: a disposer may have cleared it in between.\<close>

record ('e, 'r) host =
  authorize :: "public_command \<Rightarrow> 'e failure + unit"
  beforeExecute :: "public_command \<Rightarrow> 'e failure + unit"
  call_handler :: "nat \<Rightarrow> 'e failure + 'r"
  afterExecute :: "public_command \<Rightarrow> bool \<Rightarrow> 'e failure + unit"

definition execute_guarded :: "('e, 'r) host \<Rightarrow> nat option \<Rightarrow> public_command
    \<Rightarrow> effect list \<times> ('e failure + 'r)" where
  "execute_guarded h later cmd =
     (case authorize h cmd of Inl e \<Rightarrow> ([], Inl e) | Inr _ \<Rightarrow>
     (case beforeExecute h cmd of Inl e \<Rightarrow> ([Authorized], Inl e) | Inr _ \<Rightarrow>
     (case later of
        None \<Rightarrow> ([Authorized, Before], Inl NotAFunction)
      | Some f \<Rightarrow> (case call_handler h f of
            Inl e \<Rightarrow> ([Authorized, Before, Called f], Inl e)
          | Inr res \<Rightarrow> (case afterExecute h cmd True of
                Inl e \<Rightarrow> ([Authorized, Before, Called f, After True], Inl e)
              | Inr _ \<Rightarrow> ([Authorized, Before, Called f, After True], Inr res))))))"

definition command_execute :: "('e, 'r) host \<Rightarrow> command_registry \<Rightarrow> nat option \<Rightarrow> jstring
    \<Rightarrow> effect list \<times> ('e failure + 'r)" where
  "command_execute h r later commandID =
     (case map_get (entries r) commandID of
        None \<Rightarrow> ([], Inl (RegistryFailure (RegistryError ''command_not_found''
                  (lit ''Command '' @ commandID @ lit '' is not registered.''))))
      | Some entry \<Rightarrow>
          if ce_handler entry = None
          then ([], Inl (RegistryFailure (RegistryError ''command_unavailable''
                  (lit ''Command '' @ commandID @ lit '' is not active.''))))
          else (case execute_guarded h later (public_of entry) of
              (trace, Inr res) \<Rightarrow> (trace, Inr res)
            | (trace, Inl e) \<Rightarrow> (case afterExecute h (public_of entry) False of
                Inl e' \<Rightarrow> (trace @ [After False], Inl e')
              | Inr _ \<Rightarrow> (trace @ [After False], Inl e))))"

text \<open>The default \<open>authorize\<close>: \<open>req\<close> is \<open>context.permissions.require\<close>, if there is one.\<close>

definition default_authorize :: "(jstring list \<Rightarrow> 'e failure + unit) option \<Rightarrow> public_command \<Rightarrow> 'e failure + unit" where
  "default_authorize req cmd =
     (if cd_requiredPermissions (pub_command cmd) = [] then Inr ()
      else case req of
        None \<Rightarrow> Inl (RegistryFailure (RegistryError ''permission_service_missing''
                 (lit ''Command '' @ cd_id (pub_command cmd) @ lit '' requires a permission service.'')))
      | Some f \<Rightarrow> f (cd_requiredPermissions (pub_command cmd)))"

definition empty_registry :: "('v, 's) registry" where
  "empty_registry = \<lparr>entries = [], live = [], next_token = 0, listeners = [], delivered = []\<rparr>"

definition empty_commands :: command_registry where
  "empty_commands = \<lparr>entries = [], live = [], next_token = 0, listeners = [], delivered = [], handler_live = []\<rparr>"


section \<open>The contract of a registry\<close>

text \<open>\<open>core\<close> is what a registration adds to and its disposer takes back. A disposer that runs when
  the registry has the core it had right after the registration restores the core from before: the
  order in which the plugin runtime rolls back, newest registration first.\<close>

locale reversible_registry =
  fixes reg :: "'i \<Rightarrow> 's \<Rightarrow> 'e + 't \<times> 's"
    and dis :: "'i \<Rightarrow> 't \<Rightarrow> 's \<Rightarrow> bool \<times> 's"
    and core :: "'s \<Rightarrow> 'c"
    and ok :: "'s \<Rightarrow> bool"
  assumes ok_reg: "ok s \<Longrightarrow> reg i s = Inr (t, s') \<Longrightarrow> ok s'"
    and ok_dis: "ok s \<Longrightarrow> ok (snd (dis i t s))"
    and undo: "ok s \<Longrightarrow> reg i s = Inr (t, s') \<Longrightarrow> ok s'' \<Longrightarrow> core s'' = core s' \<Longrightarrow>
               fst (dis i t s'') \<and> core (snd (dis i t s'')) = core s"
begin

text \<open>A run of registrations that stops at the first error, newest disposer first.\<close>

fun reg_all :: "'i list \<Rightarrow> ('i \<times> 't) list \<Rightarrow> 's \<Rightarrow> ('i \<times> 't) list \<times> 's \<times> 'e option" where
  "reg_all [] ds s = (ds, s, None)"
| "reg_all (i # is) ds s = (case reg i s of
       Inl e \<Rightarrow> (ds, s, Some e)
     | Inr (t, s') \<Rightarrow> reg_all is ((i, t) # ds) s')"

fun dis_all :: "('i \<times> 't) list \<Rightarrow> 's \<Rightarrow> 's" where
  "dis_all [] s = s"
| "dis_all ((i, t) # ds) s = dis_all ds (snd (dis i t s))"

lemma ok_dis_all: "ok s \<Longrightarrow> ok (dis_all ds s)"
  by (induction ds s rule: dis_all.induct) (auto simp: ok_dis)

lemma ok_reg_all: "ok s \<Longrightarrow> reg_all is ds s = (ds', s', e) \<Longrightarrow> ok s'"
proof (induction "is" arbitrary: ds s)
  case Nil
  then show ?case by simp
next
  case (Cons i "is")
  then show ?case by (cases "reg i s") (auto dest: ok_reg)
qed

text \<open>Whether the run ends or throws half way, disposing what it registered restores the core.\<close>

lemma rollback:
  assumes "ok s" and "reg_all is ds s = (ds', s', e)" and "ok s''" and "core s'' = core s'"
    and "\<And>s0. ok s0 \<Longrightarrow> core s0 = core s \<Longrightarrow> core (dis_all ds s0) = c"
  shows "core (dis_all ds' s'') = c"
  using assms
proof (induction "is" arbitrary: ds s)
  case Nil
  then show ?case by simp
next
  case (Cons i "is")
  show ?case
  proof (cases "reg i s")
    case (Inl err)
    then show ?thesis using Cons.prems by auto
  next
    case (Inr p)
    obtain t s1 where p: "p = (t, s1)" by (cases p)
    have 1: "ok s1" using ok_reg Inr p Cons.prems(1) by blast
    have step: "core (dis_all ((i, t) # ds) s0) = c" if "ok s0" "core s0 = core s1" for s0
      using undo [OF Cons.prems(1) Inr [unfolded p] that] ok_dis [OF that(1)] Cons.prems(5) by simp
    have run: "reg_all is ((i, t) # ds) s1 = (ds', s', e)" using Cons.prems(2) Inr p by simp
    show ?thesis using Cons.IH [OF 1 run Cons.prems(3,4) step] .
  qed
qed

lemma rollback_all:
  assumes "ok s" and "reg_all is [] s = (ds, s', e)"
  shows "core (dis_all ds s') = core s"
  by (rule rollback [OF assms ok_reg_all [OF assms]]) simp_all

end

section \<open>Well-formed registries\<close>

text \<open>The entries are exactly the registrations whose disposer has not been called.\<close>

definition reg_ok :: "('v, 's, 'z) registry_scheme \<Rightarrow> bool" where
  "reg_ok r \<longleftrightarrow> map_ok (entries r) \<and> map_ok (live r) \<and> distinct (map snd (live r))
     \<and> set (map snd (live r)) = set (map fst (entries r))
     \<and> (\<forall>t \<in> set (map fst (live r)). t < next_token r)"

definition reg_core :: "('v, 's, 'z) registry_scheme \<Rightarrow> (jstring, 'v) jmap \<times> (nat, jstring) jmap" where
  "reg_core r = (entries r, live r)"

lemma emit_fields [simp]:
  "entries (emit f r) = entries r" "live (emit f r) = live r" "next_token (emit f r) = next_token r"
  "listeners (emit f r) = listeners r"
  by (simp_all add: emit_def)

lemma emit_handler_live [simp]: "handler_live (emit f c) = handler_live c"
  by (simp add: emit_def)

lemma reg_ok_cong:
  "entries r' = entries r \<Longrightarrow> live r' = live r \<Longrightarrow> next_token r' = next_token r \<Longrightarrow> reg_ok r' = reg_ok r"
  by (simp add: reg_ok_def)

lemma reg_ok_emit [simp]: "reg_ok (emit f r) = reg_ok r"
  by (rule reg_ok_cong) simp_all

lemma reg_ok_fresh_token: "reg_ok r \<Longrightarrow> map_get (live r) (next_token r) = None"
  by (auto simp: reg_ok_def jsmap.get_None)

lemma map_set_fresh: "map_get m k = None \<Longrightarrow> map_set m k v = m @ [(k, v)]"
  by (simp add: map_set_def map_has_iff)

lemma reg_ok_store:
  assumes "reg_ok r" and "map_get (entries r) key = None"
  shows "reg_ok (snd (store_entry f key v r))"
  using assms reg_ok_fresh_token [OF assms(1)]
  by (auto simp: store_entry_def reg_ok_def map_ok_def map_set_fresh jsmap.get_None)

lemma map_delete_fst: "set (map fst (map_delete m k)) = set (map fst m) - {k}"
  by (auto simp: keys_map_delete)

lemma map_delete_snd:
  assumes "distinct (map snd m)" and "map_get m t = Some k" and "map_ok m"
  shows "set (map snd (map_delete m t)) = set (map snd m) - {k}"
proof -
  have "(t', k) \<in> set m \<Longrightarrow> t' = t" for t'
    using assms(1) map_get_in_set [OF assms(2)] by (metis distinct_map inj_onD prod.inject snd_conv)
  moreover have "(t, k') \<in> set m \<Longrightarrow> k' = k" for k'
    using map_get_of_in_set [OF assms(3)] assms(2) by force
  ultimately have "x \<in> snd ` {p \<in> set m. fst p \<noteq> t} \<longleftrightarrow> x \<in> snd ` set m \<and> x \<noteq> k" for x
    by (auto simp: image_iff Bex_def)
  then show ?thesis by (auto simp: map_delete_def case_prod_beta)
qed

lemma distinct_snd_delete: "distinct (map snd m) \<Longrightarrow> distinct (map snd (map_delete m t))"
  by (simp add: map_delete_def distinct_map_filter)

lemma reg_ok_dispose:
  assumes "reg_ok r"
  shows "reg_ok (snd (dispose_entry f t r))"
proof (cases "map_get (live r) t")
  case None
  then show ?thesis using assms by (simp add: dispose_entry_def)
next
  case (Some key)
  have snds: "set (map snd (map_delete (live r) t)) = set (map snd (live r)) - {key}"
    using assms Some by (intro map_delete_snd) (auto simp: reg_ok_def)
  have fsts: "set (map fst (map_delete (entries r) key)) = set (map fst (entries r)) - {key}"
    by (rule map_delete_fst)
  have toks: "set (map fst (map_delete (live r) t)) \<subseteq> set (map fst (live r))"
    by (auto simp: keys_map_delete)
  have "reg_ok (r\<lparr>live := map_delete (live r) t, entries := map_delete (entries r) key\<rparr>)"
    using assms snds fsts toks distinct_snd_delete [of "live r" t]
    by (auto simp: reg_ok_def jsmap.ok_del simp del: set_map)
  then show ?thesis using Some by (simp add: dispose_entry_def)
qed

lemma store_dispose_core:
  assumes "reg_ok r" and "map_get (entries r) key = None"
    and "store_entry f key v r = (t, r')" and "reg_core r'' = reg_core r'"
  shows "fst (dispose_entry g t r'') \<and> reg_core (snd (dispose_entry g t r'')) = reg_core r"
  using assms reg_ok_fresh_token [OF assms(1)]
  by (auto simp: store_entry_def dispose_entry_def reg_core_def js_map split: option.splits)

section \<open>The three registries keep the contract\<close>

lemma nav_register_Inr:
  assumes "nav_register lc groups p inp r = Inr (t, r')"
  obtains pluginID n where "pluginIDValue p = Inr pluginID" and "inp = Some n" and "nav_group n \<in> set groups"
    and "map_get (entries r) (nav_key pluginID (nav_id n)) = None"
    and "store_entry (nav_snapshot lc) (nav_key pluginID (nav_id n))
           \<lparr>ne_pluginID = pluginID, ne_item = n\<rparr> r = (t, r')"
  using assms
  by (cases "pluginIDValue p"; cases inp) (auto simp: nav_register_def js_map split: if_splits)

lemma route_register_Inr:
  assumes "route_register p inp title component context r = Inr (t, r')"
  obtains e where "map_get (entries r) (rt_path inp) = None"
    and "store_entry map_values (rt_path inp) e r = (t, r')"
    and "re_path e = rt_path inp" and "pluginIDValue p = Inr (re_pluginID e)"
    and "component = JFun (re_component e)"
  using assms
  by (cases "pluginIDValue p"; cases component) (auto simp: route_register_def js_map split: if_splits)

lemma command_declare_Inr:
  assumes "command_declare p inp r = Inr (t, r')"
  obtains pluginID cmd where "pluginIDValue p = Inr pluginID" and "defineCommand (declare_input inp) = Inr cmd"
    and "starts_with (cd_id cmd) (pluginID @ lit ''.'')" and "map_get (entries r) (cd_id cmd) = None"
    and "store_entry command_snapshot (cd_id cmd)
           \<lparr>ce_pluginID = pluginID, ce_command = cmd, ce_handler = None, ce_identity = next_token r\<rparr> r = (t, r')"
  using assms
  by (cases "pluginIDValue p"; cases "defineCommand (declare_input inp)")
    (auto simp: command_declare_def js_map split: if_splits)

lemma registerHandler_Inr:
  assumes "registerHandler p commandID handler r = Inr (t, r')"
  obtains entry h where "map_get (entries r) commandID = Some entry" and "pluginIDValue p = Inr (ce_pluginID entry)"
    and "handler = JFun h" and "ce_handler entry = None" and "t = next_token r"
    and "r' = emit command_snapshot (r
           \<lparr>entries := map_set (entries r) commandID (entry\<lparr>ce_handler := Some h\<rparr>),
            next_token := Suc (next_token r),
            handler_live := map_set (handler_live r) (next_token r) (commandID, ce_identity entry)\<rparr>)"
  using assms
  by (cases "pluginIDValue p"; cases "map_get (entries r) commandID"; cases handler)
    (auto simp: registerHandler_def Let_def split: if_splits)

interpretation nav_contract: reversible_registry "\<lambda>i. nav_register lc groups (fst i) (snd i)"
  "\<lambda>_. dispose_entry (nav_snapshot lc)" reg_core reg_ok for lc groups
proof unfold_locales
  fix i t and r r' r'' :: nav_registry
  assume r: "reg_ok r"
  show "reg_ok (snd (dispose_entry (nav_snapshot lc) t r))" using r by (rule reg_ok_dispose)
  assume "nav_register lc groups (fst i) (snd i) r = Inr (t, r')"
  then obtain key e where new: "map_get (entries r) key = None" "store_entry (nav_snapshot lc) key e r = (t, r')"
    by (auto elim: nav_register_Inr)
  show "reg_ok r'" using reg_ok_store [OF r new(1)] new(2) by (metis snd_conv)
  assume "reg_core r'' = reg_core r'"
  then show "fst (dispose_entry (nav_snapshot lc) t r'')
      \<and> reg_core (snd (dispose_entry (nav_snapshot lc) t r'')) = reg_core r"
    using store_dispose_core [OF r new] by blast
qed

interpretation route_contract: reversible_registry
  "\<lambda>(p, inp, title, component, context). route_register p inp title component context"
  "\<lambda>_. dispose_entry map_values" reg_core reg_ok
proof unfold_locales
  fix i t and r r' r'' :: route_registry
  assume r: "reg_ok r"
  show "reg_ok (snd (dispose_entry map_values t r))" using r by (rule reg_ok_dispose)
  assume "(case i of (p, inp, title, component, context) \<Rightarrow> route_register p inp title component context) r
    = Inr (t, r')"
  then obtain key e where new: "map_get (entries r) key = None" "store_entry map_values key e r = (t, r')"
    by (auto elim!: route_register_Inr split: prod.splits)
  show "reg_ok r'" using reg_ok_store [OF r new(1)] new(2) by (metis snd_conv)
  assume "reg_core r'' = reg_core r'"
  then show "fst (dispose_entry map_values t r'')
      \<and> reg_core (snd (dispose_entry map_values t r'')) = reg_core r"
    using store_dispose_core [OF r new] by blast
qed

subsection \<open>The command registry\<close>

text \<open>Beyond \<open>reg_ok\<close>: a command is stored under its id, inside the namespace of the plugin that
  declared it, and it has a handler exactly if a registration of a handler for this very entry has
  not been disposed.\<close>

definition command_entry_ok :: "command_registry \<Rightarrow> jstring \<Rightarrow> command_entry \<Rightarrow> bool" where
  "command_entry_ok r k e \<longleftrightarrow> cd_id (ce_command e) = k \<and> starts_with k (ce_pluginID e @ lit ''.'')
     \<and> ce_identity e < next_token r
     \<and> (ce_handler e \<noteq> None \<longleftrightarrow> (k, ce_identity e) \<in> set (map snd (handler_live r)))"

definition commands_ok :: "command_registry \<Rightarrow> bool" where
  "commands_ok r \<longleftrightarrow> reg_ok r \<and> map_ok (handler_live r) \<and> distinct (map snd (handler_live r))
     \<and> (\<forall>(t, k, n) \<in> set (handler_live r). t < next_token r \<and> n < next_token r)
     \<and> (\<forall>(k, e) \<in> set (entries r). command_entry_ok r k e)"

definition command_core :: "command_registry \<Rightarrow>
    (jstring, command_entry) jmap \<times> (nat, jstring) jmap \<times> (nat, jstring \<times> nat) jmap" where
  "command_core r = (entries r, live r, handler_live r)"

lemma commands_ok_emit [simp]: "commands_ok (emit f r) = commands_ok r"
  by (simp add: commands_ok_def command_entry_ok_def)

lemma handler_live_store [simp]: "handler_live (snd (store_entry f k v r)) = handler_live r"
  by (simp add: store_entry_def)

lemma handler_live_dispose [simp]: "handler_live (snd (dispose_entry f t r)) = handler_live r"
  by (simp add: dispose_entry_def split: option.splits)

lemma command_entry_ok_cong:
  "next_token r' = next_token r \<Longrightarrow> handler_live r' = handler_live r \<Longrightarrow>
   command_entry_ok r' k e = command_entry_ok r k e"
  by (simp add: command_entry_ok_def)

lemma commands_ok_declare:
  assumes ok: "commands_ok r" and reg: "command_declare p inp r = Inr (t, r')"
  shows "commands_ok r'"
proof -
  obtain pluginID cmd where new: "starts_with (cd_id cmd) (pluginID @ lit ''.'')" "map_get (entries r) (cd_id cmd) = None"
      "store_entry command_snapshot (cd_id cmd)
         \<lparr>ce_pluginID = pluginID, ce_command = cmd, ce_handler = None, ce_identity = next_token r\<rparr> r = (t, r')"
    using reg by (rule command_declare_Inr)
  have "reg_ok r'" using reg_ok_store [OF _ new(2)] ok new(3) by (metis snd_conv commands_ok_def)
  moreover have "handler_live r' = handler_live r" using new(3) handler_live_store by (metis snd_conv)
  moreover have "next_token r' = Suc (next_token r)" using new(3) by (auto simp: store_entry_def)
  moreover have "entries r' = entries r @ [(cd_id cmd,
      \<lparr>ce_pluginID = pluginID, ce_command = cmd, ce_handler = None, ce_identity = next_token r\<rparr>)]"
    using new(2,3) by (auto simp: store_entry_def map_set_fresh)
  ultimately show ?thesis
    using ok new(1) by (fastforce simp: commands_ok_def command_entry_ok_def)
qed

lemma commands_ok_undeclare:
  assumes ok: "commands_ok r"
  shows "commands_ok (snd (dispose_entry command_snapshot t r))"
proof -
  have "reg_ok (snd (dispose_entry command_snapshot t r))" using ok by (simp add: commands_ok_def reg_ok_dispose)
  moreover have "next_token (snd (dispose_entry command_snapshot t r)) = next_token r"
    by (simp add: dispose_entry_def split: option.splits)
  moreover have "set (entries (snd (dispose_entry command_snapshot t r))) \<subseteq> set (entries r)"
    by (auto simp: dispose_entry_def map_delete_def split: option.splits)
  ultimately show ?thesis
    using ok command_entry_ok_cong [of "snd (dispose_entry command_snapshot t r)" r]
    by (auto simp: commands_ok_def)
qed

lemma set_map_set:
  "map_ok m \<Longrightarrow> (k', v') \<in> set (map_set m k v) \<longleftrightarrow> (k' = k \<and> v' = v) \<or> (k' \<noteq> k \<and> (k', v') \<in> set m)"
  by (metis jsmap.ok_put map_get_in_set map_get_of_in_set map_get_set option.inject)

lemma reg_ok_update:
  assumes "reg_ok r" and "map_get (entries r) k \<noteq> None" and "next_token r \<le> n"
  shows "reg_ok (r\<lparr>entries := map_set (entries r) k v, next_token := n\<rparr>)"
  using assms by (auto simp: reg_ok_def map_ok_def keys_map_set jsmap.get_None simp del: set_map)

lemma commands_ok_registerHandler:
  assumes ok: "commands_ok r" and reg: "registerHandler p c handler r = Inr (t, r')"
  shows "commands_ok r'"
proof -
  obtain e h where new: "map_get (entries r) c = Some e" "ce_handler e = None"
      and r': "r' = emit command_snapshot (r\<lparr>entries := map_set (entries r) c (e\<lparr>ce_handler := Some h\<rparr>),
        next_token := Suc (next_token r), handler_live := map_set (handler_live r) (next_token r) (c, ce_identity e)\<rparr>)"
    using reg by (rule registerHandler_Inr)
  have e: "command_entry_ok r c e" using ok map_get_in_set [OF new(1)] by (auto simp: commands_ok_def)
  have "next_token r \<notin> fst ` set (handler_live r)" using ok by (auto simp: commands_ok_def)
  then have hl: "handler_live r' = handler_live r @ [(next_token r, c, ce_identity e)]"
    by (simp add: r' map_set_fresh jsmap.get_None)
  have "reg_ok (r\<lparr>entries := map_set (entries r) c (e\<lparr>ce_handler := Some h\<rparr>), next_token := Suc (next_token r)\<rparr>)"
    using ok new by (intro reg_ok_update) (auto simp: commands_ok_def)
  then have "reg_ok r'" by (simp add: r' reg_ok_def)
  moreover have "command_entry_ok r' k e'" if "(k, e') \<in> set (entries r')" for k e'
  proof (cases "k = c")
    case True
    then show ?thesis using that e ok hl
      by (auto simp: r' set_map_set commands_ok_def reg_ok_def command_entry_ok_def)
  next
    case False
    then have "command_entry_ok r k e'" using that ok by (auto simp: r' set_map_set commands_ok_def reg_ok_def)
    then show ?thesis using hl False by (auto simp: command_entry_ok_def r')
  qed
  moreover have "(c, ce_identity e) \<notin> set (map snd (handler_live r))" using e new(2) by (simp add: command_entry_ok_def)
  moreover have "ce_identity e < next_token r" using e by (simp add: command_entry_ok_def)
  moreover have "next_token r' = Suc (next_token r)" by (simp add: r')
  ultimately show ?thesis
    using ok \<open>next_token r \<notin> fst ` set (handler_live r)\<close>
    by (fastforce simp: commands_ok_def hl map_ok_def)
qed

lemma commands_ok_dispose_handler:
  assumes ok: "commands_ok r"
  shows "commands_ok (snd (dispose_handler t r))"
proof (cases "map_get (handler_live r) t")
  case None
  then show ?thesis using ok by (simp add: dispose_handler_def)
next
  case (Some p)
  obtain c n where p: "p = (c, n)" by (cases p)
  let ?hl = "map_delete (handler_live r) t"
  have hl: "set (map snd ?hl) = set (map snd (handler_live r)) - {(c, n)}"
    using ok Some p by (intro map_delete_snd) (auto simp: commands_ok_def)
  have sub: "set ?hl \<subseteq> set (handler_live r)" by (auto simp: map_delete_def)
  define r1 where "r1 = r\<lparr>handler_live := ?hl\<rparr>"
  define m where "m = (case map_get (entries r) c of
       Some e \<Rightarrow> if ce_identity e = n then map_set (entries r) c (e\<lparr>ce_handler := None\<rparr>) else entries r
     | None \<Rightarrow> entries r)"
  have step: "snd (dispose_handler t r) = emit command_snapshot (r1\<lparr>entries := m\<rparr>)"
    using Some p by (simp add: dispose_handler_def Let_def r1_def m_def split: option.splits)
  have "reg_ok (r\<lparr>entries := m, next_token := next_token r\<rparr>)"
    using ok reg_ok_update [of r c "next_token r"]
    by (auto simp: m_def commands_ok_def split: option.splits)
  then have "reg_ok (r1\<lparr>entries := m\<rparr>)" by (simp add: reg_ok_def r1_def)
  moreover have "command_entry_ok (r1\<lparr>entries := m\<rparr>) k e" if e: "(k, e) \<in> set m" for k e
  proof -
    have ok': "map_ok (entries r)" and all: "\<And>k e. (k, e) \<in> set (entries r) \<Longrightarrow> command_entry_ok r k e"
      using ok by (auto simp: commands_ok_def reg_ok_def)
    consider (cleared) e0 where "k = c" "map_get (entries r) c = Some e0" "ce_identity e0 = n" "e = e0\<lparr>ce_handler := None\<rparr>"
      | (kept) "(k, e) \<in> set (entries r)" "(k, ce_identity e) \<noteq> (c, n)"
      using e ok' by (force simp: m_def set_map_set split: option.splits if_splits dest: map_get_of_in_set map_get_in_set)
    then show ?thesis
    proof cases
      case cleared
      then show ?thesis using all [OF map_get_in_set [OF cleared(2)]] hl by (simp add: command_entry_ok_def r1_def)
    next
      case kept
      then show ?thesis using all [OF kept(1)] hl by (auto simp: command_entry_ok_def r1_def simp del: set_map)
    qed
  qed
  moreover have "map_ok ?hl" "distinct (map snd ?hl)"
    using ok by (simp_all add: commands_ok_def jsmap.ok_del distinct_snd_delete)
  moreover have "\<forall>(t, k, n) \<in> set ?hl. t < next_token r \<and> n < next_token r"
    using ok sub unfolding commands_ok_def by blast
  ultimately have "commands_ok (r1\<lparr>entries := m\<rparr>)"
    unfolding commands_ok_def r1_def by (intro conjI ballI) (simp_all add: case_prod_beta)
  then show ?thesis by (simp add: step)
qed

datatype command_op = Declare jsval jsval | Handle jsval jstring jsval

fun command_reg :: "command_op \<Rightarrow> command_registry \<Rightarrow> registry_error + nat \<times> command_registry" where
  "command_reg (Declare p inp) r = command_declare p inp r"
| "command_reg (Handle p c h) r = registerHandler p c h r"

fun command_dis :: "command_op \<Rightarrow> nat \<Rightarrow> command_registry \<Rightarrow> bool \<times> command_registry" where
  "command_dis (Declare _ _) t r = dispose_entry command_snapshot t r"
| "command_dis (Handle _ _ _) t r = dispose_handler t r"

lemma commands_ok_reg: "commands_ok r \<Longrightarrow> command_reg i r = Inr (t, r') \<Longrightarrow> commands_ok r'"
  by (cases i) (auto intro: commands_ok_declare commands_ok_registerHandler)

lemma commands_ok_dis: "commands_ok r \<Longrightarrow> commands_ok (snd (command_dis i t r))"
  by (cases i) (auto intro: commands_ok_undeclare commands_ok_dispose_handler)

lemma undeclare_undo:
  assumes ok: "commands_ok r" and reg: "command_declare p inp r = Inr (t, r')"
    and core: "command_core r'' = command_core r'"
  shows "fst (dispose_entry command_snapshot t r'')
       \<and> command_core (snd (dispose_entry command_snapshot t r'')) = command_core r"
proof -
  obtain key e where new: "map_get (entries r) key = None" "store_entry command_snapshot key e r = (t, r')"
    using reg by (rule command_declare_Inr)
  have "reg_core r'' = reg_core r'" using core by (simp add: reg_core_def command_core_def)
  then have "fst (dispose_entry command_snapshot t r'')
      \<and> reg_core (snd (dispose_entry command_snapshot t r'')) = reg_core r"
    using store_dispose_core [OF _ new] ok by (auto simp: commands_ok_def)
  moreover have "handler_live r'' = handler_live r"
    using core new(2) handler_live_store by (metis command_core_def prod.inject snd_conv)
  ultimately show ?thesis by (simp add: command_core_def reg_core_def)
qed

lemma map_set_twice_back:
  assumes "map_ok m" and "map_get m k = Some v"
  shows "map_set (map_set m k w) k v = m"
proof -
  have "map (\<lambda>x. (fst x, if fst x = k then v else snd x)) m = m"
    using assms map_get_of_in_set [OF assms(1)] by (intro map_idI) fastforce
  then show ?thesis using assms(2)
    by (simp add: map_set_def map_has_iff map_get_def map_of_map_value comp_def case_prod_beta cong: if_cong)
qed

lemma unhandle_undo:
  assumes ok: "commands_ok r" and reg: "registerHandler p c handler r = Inr (t, r')"
    and core: "command_core r'' = command_core r'"
  shows "fst (dispose_handler t r'') \<and> command_core (snd (dispose_handler t r'')) = command_core r"
proof -
  obtain e h where new: "map_get (entries r) c = Some e" "ce_handler e = None" "t = next_token r"
      and r': "r' = emit command_snapshot (r\<lparr>entries := map_set (entries r) c (e\<lparr>ce_handler := Some h\<rparr>),
        next_token := Suc (next_token r), handler_live := map_set (handler_live r) (next_token r) (c, ce_identity e)\<rparr>)"
    using reg by (rule registerHandler_Inr)
  have e: "e\<lparr>ce_handler := None\<rparr> = e" using new(2) by simp
  have "map_get (handler_live r) (next_token r) = None"
    using ok by (auto simp: commands_ok_def jsmap.get_None)
  moreover have "map_set (map_set (entries r) c (e\<lparr>ce_handler := Some h\<rparr>)) c e = entries r"
    using ok new(1) by (intro map_set_twice_back) (auto simp: commands_ok_def reg_ok_def)
  moreover have "entries r'' = map_set (entries r) c (e\<lparr>ce_handler := Some h\<rparr>)" "live r'' = live r"
      "handler_live r'' = map_set (handler_live r) t (c, ce_identity e)"
    using core new(3) by (simp_all add: command_core_def r')
  ultimately show ?thesis
    using new by (simp add: dispose_handler_def command_core_def js_map Let_def e)
qed

interpretation command_contract_reg: reversible_registry command_reg command_dis command_core commands_ok
proof unfold_locales
  fix i t r r' r''
  assume ok: "commands_ok r"
  show "commands_ok (snd (command_dis i t r))" using ok by (rule commands_ok_dis)
  assume reg: "command_reg i r = Inr (t, r')"
  show "commands_ok r'" using ok reg by (rule commands_ok_reg)
  assume "command_core r'' = command_core r'"
  then show "fst (command_dis i t r'') \<and> command_core (snd (command_dis i t r'')) = command_core r"
    using reg by (cases i) (simp_all add: undeclare_undo [OF ok] unhandle_undo [OF ok])
qed

section \<open>Reachable command registries\<close>

inductive command_step :: "command_registry \<Rightarrow> command_registry \<Rightarrow> bool" where
  step_register: "command_reg i r = Inr (t, r') \<Longrightarrow> command_step r r'"
| step_dispose: "command_step r (snd (command_dis i t r))"
| step_subscribe: "subscribe command_snapshot l r = Inr r' \<Longrightarrow> command_step r r'"
| step_unsubscribe: "command_step r (unsubscribe l r)"

inductive_cases command_stepE: "command_step r r'"

inductive command_reachable :: "command_registry \<Rightarrow> bool" where
  reach_empty: "command_reachable empty_commands"
| reach_step: "command_reachable r \<Longrightarrow> command_step r r' \<Longrightarrow> command_reachable r'"

lemma commands_ok_empty: "commands_ok empty_commands"
  by (simp add: commands_ok_def reg_ok_def empty_commands_def)

lemma commands_ok_listeners:
  "commands_ok (r\<lparr>listeners := ls, delivered := ds\<rparr>) = commands_ok r"
  "commands_ok (r\<lparr>listeners := ls\<rparr>) = commands_ok r"
  by (simp_all add: commands_ok_def reg_ok_def command_entry_ok_def)

lemma subscribe_Inr:
  "subscribe f v r = Inr r' \<longleftrightarrow> (\<exists>l. v = JFun l \<and> r' = r\<lparr>listeners := set_add (listeners r) l,
      delivered := delivered r @ [(l, f (entries r))]\<rparr>)"
  by (cases v) (auto simp: subscribe_def)

lemma commands_ok_step: "command_step r r' \<Longrightarrow> commands_ok r \<Longrightarrow> commands_ok r'"
  by (erule command_stepE)
    (auto simp: subscribe_Inr unsubscribe_def commands_ok_listeners intro: commands_ok_reg commands_ok_dis)

lemma commands_ok_reachable: "command_reachable r \<Longrightarrow> commands_ok r"
  by (induction rule: command_reachable.induct) (auto intro: commands_ok_empty commands_ok_step)

text \<open>What a listener has been told last.\<close>

definition last_told :: "nat \<Rightarrow> ('v, 's, 'z) registry_scheme \<Rightarrow> 's option" where
  "last_told l r = (case rev (filter (\<lambda>d. fst d = l) (delivered r)) of [] \<Rightarrow> None | d # _ \<Rightarrow> Some (snd d))"

definition listeners_current :: "((jstring, 'v) jmap \<Rightarrow> 's) \<Rightarrow> ('v, 's, 'z) registry_scheme \<Rightarrow> bool" where
  "listeners_current f r \<longleftrightarrow> (\<forall>l \<in> set (listeners r). last_told l r = Some (f (entries r)))"

lemma rev_filter_told:
  assumes "l \<in> set ls"
  shows "\<exists>ds. rev (filter (\<lambda>d. fst d = l) (map (\<lambda>l. (l, s)) ls)) = (l, s) # ds"
proof -
  have "filter (\<lambda>d. fst d = l) (map (\<lambda>l. (l, s)) ls) = replicate (count_list ls l) (l, s)"
    by (induction ls) auto
  moreover have "count_list ls l \<noteq> 0" using assms by (simp add: count_list_0_iff)
  ultimately show ?thesis by (metis not0_implies_Suc replicate_Suc rev_replicate)
qed

lemma emit_current: "listeners_current f (emit f r)"
  unfolding listeners_current_def
proof
  fix l assume "l \<in> set (listeners (emit f r))"
  then have "l \<in> set (listeners r)" by simp
  then show "last_told l (emit f r) = Some (f (entries (emit f r)))"
    using rev_filter_told [of l "listeners r" "f (entries r)"] by (auto simp: last_told_def emit_def)
qed

lemma dispose_entry_current: "listeners_current f r \<Longrightarrow> listeners_current f (snd (dispose_entry f t r))"
  by (auto simp: dispose_entry_def emit_current split: option.splits)

lemma command_step_current:
  "command_step r r' \<Longrightarrow> listeners_current command_snapshot r \<Longrightarrow> listeners_current command_snapshot r'"
proof (erule command_stepE)
  fix i t assume reg: "command_reg i r = Inr (t, r')"
  show "listeners_current command_snapshot r'"
  proof (cases i)
    case (Declare p inp)
    then show ?thesis using reg by (auto simp: store_entry_def emit_current elim!: command_declare_Inr)
  next
    case (Handle p c h)
    then show ?thesis using reg by (auto simp: emit_current elim!: registerHandler_Inr)
  qed
next
  fix i t assume r': "r' = snd (command_dis i t r)" and "listeners_current command_snapshot r"
  then show "listeners_current command_snapshot r'"
    by (cases i) (auto simp: dispose_entry_current dispose_handler_def emit_current Let_def
        split: option.splits prod.splits)
qed (auto simp: subscribe_Inr unsubscribe_def listeners_current_def last_told_def)

text \<open>in every state the command registry can reach, each stored command is filed under its own
  id, lies inside the namespace of the plugin that declared it, is reported by \<open>get\<close>, and is
  reported available exactly if the registration of a handler for it has not been disposed; and
  every subscribed listener has been told the present snapshot.\<close>

theorem reachable_commands_ok:
  assumes "command_reachable r" and "map_get (entries r) commandID = Some entry"
  shows "cd_id (ce_command entry) = commandID \<and> starts_with commandID (ce_pluginID entry @ lit ''.'')
    \<and> command_get r commandID = Some (public_of entry)
    \<and> (hasHandler r commandID \<longleftrightarrow> (commandID, ce_identity entry) \<in> set (map snd (handler_live r)))
    \<and> listeners_current command_snapshot r"
proof -
  have ok: "commands_ok r" using assms(1) by (rule commands_ok_reachable)
  then have e: "command_entry_ok r commandID entry"
    using map_get_in_set [OF assms(2)] by (auto simp: commands_ok_def)
  have keys: "cd_id (ce_command (snd kv)) = fst kv" if "kv \<in> set (entries r)" for kv
    using ok that by (auto simp: commands_ok_def command_entry_ok_def)
  have "List.find (\<lambda>c. cd_id (pub_command c) = commandID) (map (public_of \<circ> snd) m)
      = map_option public_of (map_of m commandID)"
    if "\<forall>kv \<in> set m. cd_id (ce_command (snd kv)) = fst kv" for m
    using that by (induction m) (auto simp: public_of_def)
  then have "command_get r commandID = Some (public_of entry)"
    using keys assms(2) by (simp add: command_get_def command_snapshot_def map_values_def map_get_def)
  moreover have "listeners_current command_snapshot r" using assms(1)
    by (induction rule: command_reachable.induct)
      (simp add: empty_commands_def listeners_current_def, blast intro: command_step_current)
  ultimately show ?thesis using e assms(2) by (simp add: command_entry_ok_def hasHandler_def)
qed

definition sample_command_input :: jsval where
  "sample_command_input = jobj
     [(''id'', jlit ''acme.tools.run''), (''title'', jlit ''Run''), (''risk'', jlit ''write''),
      (''required_permissions'', JArr [jlit ''tasks.run'']), (''contexts'', JArr [])]"

definition sample_commands :: command_registry where
  "sample_commands = (case command_declare (jlit ''acme.tools'') sample_command_input empty_commands of
       Inl _ \<Rightarrow> empty_commands
     | Inr (_, r) \<Rightarrow> (case registerHandler (jlit ''acme.tools'') (lit ''acme.tools.run'') (JFun 7) r of
           Inl _ \<Rightarrow> empty_commands | Inr (_, r') \<Rightarrow> r'))"

lemma reachable_reg: "command_reachable r \<Longrightarrow> command_reg i r = Inr (t, r') \<Longrightarrow> command_reachable r'"
  by (blast intro: reach_step step_register)

lemma sample_commands_reachable: "command_reachable sample_commands"
proof (cases "command_declare (jlit ''acme.tools'') sample_command_input empty_commands")
  case (Inl e)
  then show ?thesis by (simp add: sample_commands_def reach_empty)
next
  case (Inr p)
  obtain t r where p: "p = (t, r)" by (cases p)
  have r: "command_reachable r" using reachable_reg [OF reach_empty, of "Declare _ _"] Inr p by simp
  show ?thesis
  proof (cases "registerHandler (jlit ''acme.tools'') (lit ''acme.tools.run'') (JFun 7) r")
    case (Inl e)
    then show ?thesis using Inr p by (simp add: sample_commands_def reach_empty)
  next
    case q: (Inr q)
    then show ?thesis using Inr p reachable_reg [OF r, of "Handle _ _ _"]
      by (cases q) (simp add: sample_commands_def)
  qed
qed

lemma sample_commands_entry:
  "case map_get (entries sample_commands) (lit ''acme.tools.run'') of
     None \<Rightarrow> False | Some e \<Rightarrow> ce_handler e = Some 7 \<and> ce_identity e = 0"
  by code_simp

theorem reachable_commands_ok_witness:
  "command_reachable sample_commands \<and> map_get (entries sample_commands) (lit ''acme.tools.run'') \<noteq> None
   \<and> (hasHandler sample_commands (lit ''acme.tools.run'')
       \<longleftrightarrow> (lit ''acme.tools.run'', 0) \<in> set (map snd (handler_live sample_commands)))
   \<and> listeners_current command_snapshot sample_commands"
proof -
  obtain e where e: "map_get (entries sample_commands) (lit ''acme.tools.run'') = Some e" "ce_identity e = 0"
    using sample_commands_entry by (auto split: option.splits)
  then show ?thesis
    using reachable_commands_ok [OF sample_commands_reachable e(1)] sample_commands_reachable by simp
qed

section \<open>Executing a command\<close>

text \<open>C6: a handler runs only for a declared command with a handler, only after the authorisation and
  then the hook before it have succeeded, and at most once; the hook after it reports success only
  if the handler returned, and a result of \<open>execute\<close> is the handler's result. If the authorisation
  refuses, the only effect is the failure report.\<close>

theorem execute_authorized:
  "case command_execute h r later commandID of (trace, res) \<Rightarrow>
     (\<forall>f. Called f \<in> set trace \<longrightarrow> hasHandler r commandID \<and> later = Some f
        \<and> (\<exists>trace'. trace = [Authorized, Before, Called f] @ trace' \<and> Called f \<notin> set trace'))
   \<and> (After True \<in> set trace \<longrightarrow> (\<exists>f v. later = Some f \<and> call_handler h f = Inr v))
   \<and> (\<forall>v. res = Inr v \<longrightarrow> (\<exists>f. later = Some f \<and> call_handler h f = Inr v \<and> After False \<notin> set trace))
   \<and> (\<forall>entry e. map_get (entries r) commandID = Some entry \<and> authorize h (public_of entry) = Inl e
        \<longrightarrow> set trace \<subseteq> {After False} \<and> (\<forall>v. res \<noteq> Inr v))"
proof (cases "map_get (entries r) commandID")
  case None
  then show ?thesis by (simp add: command_execute_def)
next
  case (Some entry)
  show ?thesis
  proof (cases "ce_handler entry")
    case None
    then show ?thesis using Some by (simp add: command_execute_def)
  next
    case (Some g)
    note entry = this \<open>map_get (entries r) commandID = Some entry\<close>
    show ?thesis
    proof (cases "authorize h (public_of entry)")
      case (Inl e)
      then show ?thesis using entry
        by (cases "afterExecute h (public_of entry) False")
          (simp_all add: command_execute_def execute_guarded_def)
    next
      case (Inr u)
      then show ?thesis using entry
        by (auto simp: command_execute_def execute_guarded_def hasHandler_def
            split: sum.splits option.splits)
    qed
  qed
qed

definition sample_host :: "(nat, nat) host" where
  "sample_host = \<lparr>authorize = (\<lambda>_. Inr ()), beforeExecute = (\<lambda>_. Inr ()),
     call_handler = (\<lambda>f. Inr (f + 1)), afterExecute = (\<lambda>_ _. Inr ())\<rparr>"

theorem execute_authorized_witness:
  "command_execute sample_host sample_commands (Some 7) (lit ''acme.tools.run'')
     = ([Authorized, Before, Called 7, After True], Inr 8)
   \<and> hasHandler sample_commands (lit ''acme.tools.run'')"
proof -
  have run: "command_execute sample_host sample_commands (Some 7) (lit ''acme.tools.run'')
      = ([Authorized, Before, Called 7, After True], Inr 8)"
    using sample_commands_entry
    by (auto simp: command_execute_def execute_guarded_def sample_host_def split: option.splits)
  show ?thesis
    using execute_authorized [where h = sample_host and r = sample_commands and later = "Some 7"
        and commandID = "lit ''acme.tools.run''"]
    unfolding run by simp
qed

text \<open>With no host hook of its own, the registry refuses a command that needs permissions and runs
  without a permission service.\<close>

lemma default_authorize_refuses:
  "cd_requiredPermissions (pub_command cmd) \<noteq> [] \<Longrightarrow> \<exists>e. default_authorize None cmd = Inl e"
  by (simp add: default_authorize_def)

section \<open>Listing navigation\<close>

lemma nav_before_total:
  assumes "\<And>a b. lc a b \<le> 0 \<or> lc b a \<le> 0"
  shows "nav_before lc a b \<or> nav_before lc b a"
  using assms [of "nav_title (ne_item a)" "nav_title (ne_item b)"] by (auto simp: nav_before_def Let_def)

lemma nav_before_trans:
  assumes "\<And>a b c. lc a b \<le> 0 \<Longrightarrow> lc b c \<le> 0 \<Longrightarrow> lc a c \<le> 0"
    and "nav_before lc a b" and "nav_before lc b c"
  shows "nav_before lc a c"
  using assms(2,3) assms(1) [of "nav_title (ne_item a)" "nav_title (ne_item b)" "nav_title (ne_item c)"]
  by (auto simp: nav_before_def Let_def split: if_splits)

lemma sorted_wrt_filter_by: "sorted_wrt P xs \<Longrightarrow> sorted_wrt P (filter Q xs)"
  by (induction xs) auto

text \<open>For a \<open>localeCompare\<close> that is total and transitive, the navigation list is ordered by
  \<open>order\<close> (1000 when absent) and then by title, and it holds exactly the entries of the asked
  group, each once.\<close>

theorem nav_list_sorted:
  assumes "\<And>a b. lc a b \<le> 0 \<or> lc b a \<le> 0"
    and "\<And>a b c. lc a b \<le> 0 \<Longrightarrow> lc b c \<le> 0 \<Longrightarrow> lc a c \<le> 0"
  shows "sorted_wrt (nav_before lc) (nav_list lc grp r)
    \<and> mset (nav_list lc grp r) = filter_mset
        (\<lambda>e. grp = None \<or> grp = Some [] \<or> grp = Some (nav_group (ne_item e))) (mset (map_values (entries r)))"
proof -
  have sorted: "sorted_wrt (nav_before lc) (nav_snapshot lc m)" for m
    unfolding nav_snapshot_def using nav_before_total nav_before_trans assms by (intro sorted_sort_by) blast+
  have perm: "mset (nav_snapshot lc m) = mset (map_values m)" for m
    by (simp add: nav_snapshot_def mset_sort_by)
  show ?thesis
  proof (cases grp)
    case None
    then show ?thesis using sorted perm by (simp add: nav_list_def)
  next
    case (Some g)
    then show ?thesis using sorted perm
      by (auto simp: nav_list_def sorted_wrt_filter_by perm [symmetric] eq_commute intro!: filter_mset_cong)
  qed
qed

definition by_length :: "jstring \<Rightarrow> jstring \<Rightarrow> int" where
  "by_length a b = int (length a) - int (length b)"

definition sample_item :: "string \<Rightarrow> int option \<Rightarrow> navigation" where
  "sample_item title order = \<lparr>nav_id = lit title, nav_group = lit ''workspace'', nav_title = lit title,
     nav_route = lit ''/x'', nav_order = order\<rparr>"

definition sample_nav :: nav_registry where
  "sample_nav = empty_registry\<lparr>entries := map (\<lambda>n. (nav_key (lit ''p'') (nav_id n), \<lparr>ne_pluginID = lit ''p'', ne_item = n\<rparr>))
     [sample_item ''late'' None, sample_item ''early'' (Some 5), sample_item ''on'' None]\<rparr>"

theorem nav_list_sorted_witness:
  "sorted_wrt (nav_before by_length) (nav_list by_length (Some (lit ''workspace'')) sample_nav)
   \<and> map (\<lambda>e. nav_title (ne_item e)) (nav_list by_length (Some (lit ''workspace'')) sample_nav)
       = [lit ''early'', lit ''on'', lit ''late'']"
proof
  show "sorted_wrt (nav_before by_length) (nav_list by_length (Some (lit ''workspace'')) sample_nav)"
    by (rule nav_list_sorted [THEN conjunct1]) (auto simp: by_length_def)
  show "map (\<lambda>e. nav_title (ne_item e)) (nav_list by_length (Some (lit ''workspace'')) sample_nav)
       = [lit ''early'', lit ''on'', lit ''late'']" by code_simp
qed

end
