(* ===== verification/Plugin_Runtime.thy ===== *)
theory Plugin_Runtime
  imports Extension_Registries Plugin_Policy
begin

text \<open>
  The static plugin registry (\<open>apps/workbench/src/workbench/pluginRuntime.js\<close>): packages are
  registered, activated, deactivated and unregistered, and an active plugin's contributions live in
  the three registries.

  \<open>activate\<close> and \<open>deactivate\<close> are asynchronous: each is split at its \<open>await\<close> of the plugin into a
  start and a finish, and any other operation may run in between. Record objects and disposer arrays
  have identity in the source (the context of an activation keeps pushing to the array that the
  record later holds), so both are cells of a store. What a plugin does while it activates
  (registering and disposing handlers, returning or throwing) is chosen freely by the step relation.
\<close>

section \<open>Data\<close>

datatype runtime_error =
    RuntimeError string jstring
  | RuntimeManifest manifest_error
  | RuntimePolicy policy_error
  | RuntimeRegistry registry_error
  | RuntimeContract contract_error
  | PluginThrew jstring

datatype plugin_status =
  Incompatible | Disabled | Registered | Activating | Active | Deactivating | Failed

datatype disposer = Undeclare nat | Unroute nat | Unnavigate nat | Unhandle nat

record hub =
  hub_navigation :: nav_registry
  hub_routes :: route_registry
  hub_commands :: command_registry

text \<open>\<open>opt_evaluateEnablement\<close> and \<open>opt_lc\<close> are functions of the host; \<open>None\<close> for the optional
  \<open>evaluateEnablement\<close> means that the policy of the package decides.\<close>

record runtime_options =
  opt_environment :: jsval
  opt_scope :: jsval
  opt_services :: jsval
  opt_groups :: "jstring list"
  opt_lc :: "jstring \<Rightarrow> jstring \<Rightarrow> int"
  opt_evaluateEnablement :: "(jsval \<Rightarrow> jsval \<Rightarrow> policy_error + enablement) option"

text \<open>\<open>pr_disposers\<close> is the number of a disposer array; \<open>None\<close> is a new empty array.\<close>

record plugin_record =
  pr_manifest :: manifest
  pr_compatibility :: compatibility
  pr_enablement :: enablement
  pr_plugin :: jsval
  pr_components :: jsval
  pr_status :: plugin_status
  pr_error :: jstring
  pr_disposers :: "nat option"

record public_record =
  pub_id :: jstring
  pub_name :: jstring
  pub_version :: jstring
  pub_status :: plugin_status
  pub_compatible :: bool
  pub_compatibilityReasons :: "(jstring \<times> jstring) list"
  pub_enabled :: bool
  pub_enablementReasons :: "jstring list"
  pub_error :: jstring
  pub_manifest :: manifest

record runtime =
  objects :: "(nat, plugin_record) jmap"
  next_object :: nat
  records :: "(jstring, nat) jmap"
  arrays :: "(nat, disposer list) jmap"
  next_call :: nat
  activations :: "(nat, nat \<times> jstring) jmap"
  deactivations :: "(nat, nat \<times> jstring \<times> bool) jmap"
  rt_hub :: hub
  rt_listeners :: "nat list"
  rt_told :: "(nat \<times> public_record list) list"

datatype outcome =
    Returned public_record
  | Removed bool
  | Thrown runtime_error
  | Suspended nat

section \<open>Records\<close>

definition publicRecord :: "plugin_record \<Rightarrow> public_record" where
  "publicRecord r = \<lparr>pub_id = mf_id (pr_manifest r), pub_name = mf_name (pr_manifest r),
     pub_version = mf_version (pr_manifest r), pub_status = pr_status r,
     pub_compatible = cp_compatible (pr_compatibility r),
     pub_compatibilityReasons = cp_reasons (pr_compatibility r),
     pub_enabled = en_enabled (pr_enablement r), pub_enablementReasons = en_reasons (pr_enablement r),
     pub_error = pr_error r, pub_manifest = pr_manifest r\<rparr>"

definition record_of :: "runtime \<Rightarrow> jstring \<Rightarrow> (nat \<times> plugin_record) option" where
  "record_of rt pluginID = (case map_get (records rt) pluginID of None \<Rightarrow> None
     | Some n \<Rightarrow> (case map_get (objects rt) n of None \<Rightarrow> None | Some r \<Rightarrow> Some (n, r)))"

definition list_records :: "runtime \<Rightarrow> public_record list" where
  "list_records rt = List.map_filter (\<lambda>n. map_option publicRecord (map_get (objects rt) n))
                       (map_values (records rt))"

definition notify :: "runtime \<Rightarrow> runtime" where
  "notify rt = rt\<lparr>rt_told := rt_told rt @ map (\<lambda>l. (l, list_records rt)) (rt_listeners rt)\<rparr>"

definition get_record :: "runtime \<Rightarrow> jstring \<Rightarrow> public_record option" where
  "get_record rt pluginID = map_option (publicRecord \<circ> snd) (record_of rt pluginID)"

definition update_object :: "nat \<Rightarrow> (plugin_record \<Rightarrow> plugin_record) \<Rightarrow> runtime \<Rightarrow> runtime" where
  "update_object n f rt = (case map_get (objects rt) n of None \<Rightarrow> rt
     | Some r \<Rightarrow> rt\<lparr>objects := map_set (objects rt) n (f r)\<rparr>)"

definition array_of :: "runtime \<Rightarrow> nat \<Rightarrow> disposer list" where
  "array_of rt a = (case map_get (arrays rt) a of None \<Rightarrow> [] | Some ds \<Rightarrow> ds)"

definition listen :: "jsval \<Rightarrow> runtime \<Rightarrow> runtime_error + runtime" where
  "listen listener rt = (case listener of
       JFun l \<Rightarrow> Inr (rt\<lparr>rt_listeners := set_add (rt_listeners rt) l,
                          rt_told := rt_told rt @ [(l, list_records rt)]\<rparr>)
     | _ \<Rightarrow> Inl (RuntimeError ''invalid_listener'' (lit ''Plugin listener must be a function.'')))"

section \<open>Registering a package\<close>

definition lift_manifest :: "manifest_error + 'a \<Rightarrow> runtime_error + 'a" where
  "lift_manifest m = (case m of Inl e \<Rightarrow> Inl (RuntimeManifest e) | Inr x \<Rightarrow> Inr x)"

definition lift_policy :: "policy_error + 'a \<Rightarrow> runtime_error + 'a" where
  "lift_policy m = (case m of Inl e \<Rightarrow> Inl (RuntimePolicy e) | Inr x \<Rightarrow> Inr x)"

definition enablement_of :: "runtime_options \<Rightarrow> jsval \<Rightarrow> policy_error + enablement" where
  "enablement_of opts pkg = (case opt_evaluateEnablement opts of
       Some f \<Rightarrow> f pkg (opt_scope opts)
     | None \<Rightarrow> evaluatePluginEnablement (dot pkg ''enablement'') (opt_scope opts))"

definition initial_status :: "compatibility \<Rightarrow> enablement \<Rightarrow> plugin_status" where
  "initial_status c e = (if \<not> cp_compatible c then Incompatible
     else if en_enabled e then Registered else Disabled)"

definition registerPackage :: "runtime_options \<Rightarrow> jsval \<Rightarrow> runtime \<Rightarrow> runtime_error + public_record \<times> runtime" where
  "registerPackage opts pkg rt =
     (if \<not> is_object pkg
      then Inl (RuntimeError ''invalid_package'' (lit ''Static plugin package must be an object.''))
      else
      andThen (lift_manifest (checkPluginCompatibility (dot pkg ''manifest'') (opt_environment opts))) (\<lambda>c.
      andThen (lift_policy (enablement_of opts pkg)) (\<lambda>e.
      (let m = cp_manifest c; plugin = dot pkg ''plugin'' in
       andThen (check (\<not> map_has (records rt) (mf_id m))
          (RuntimeError ''plugin_exists'' (lit ''Plugin '' @ mf_id m @ lit '' is already registered.''))) (\<lambda>_.
       andThen (check (is_function (dot plugin ''activate'') \<and> is_object plugin)
          (RuntimeError ''invalid_plugin'' (lit ''Plugin '' @ mf_id m @ lit '' must export activate().''))) (\<lambda>_.
       andThen (check (dot plugin ''id'' = JStr (mf_id m))
          (RuntimeError ''plugin_id_mismatch''
             (lit ''Plugin export id '' @ to_str (jor (dot plugin ''id'') (jlit ''missing''))
              @ lit '' does not match '' @ mf_id m @ lit ''.''))) (\<lambda>_.
       (let r = \<lparr>pr_manifest = m, pr_compatibility = c, pr_enablement = e, pr_plugin = plugin,
                 pr_components = jor (dot pkg ''components'') (jobj []),
                 pr_status = initial_status c e, pr_error = [], pr_disposers = None\<rparr>
        in Inr (publicRecord r, notify (rt
             \<lparr>objects := map_set (objects rt) (next_object rt) r,
              next_object := Suc (next_object rt),
              records := map_set (records rt) (mf_id m) (next_object rt)\<rparr>))))))))))"

section \<open>The permissions of a context\<close>

text \<open>The result of the host's own permission service is a parameter; \<open>None\<close> stands for a service
  without the method.\<close>

definition permission_items :: "jsval \<Rightarrow> jsval list" where
  "permission_items v = (case v of JArr xs \<Rightarrow> xs | JUndef \<Rightarrow> [] | JNull \<Rightarrow> [] | _ \<Rightarrow> [v])"

definition declared_permission :: "manifest \<Rightarrow> jsval \<Rightarrow> bool" where
  "declared_permission m v \<longleftrightarrow> v \<in> set (map JStr (mf_permissions m))"

definition context_has :: "manifest \<Rightarrow> (jsval list \<Rightarrow> jsval) option \<Rightarrow> jsval \<Rightarrow> bool" where
  "context_has m host v =
     (if list_ex (\<lambda>p. \<not> declared_permission m p) (permission_items v) then False
      else case host of None \<Rightarrow> permission_items v = [] | Some f \<Rightarrow> truthy (f (permission_items v)))"

definition context_require :: "manifest \<Rightarrow> (jsval list \<Rightarrow> runtime_error + jsval) option \<Rightarrow> jsval
    \<Rightarrow> runtime_error + jsval" where
  "context_require m host v =
     (let undeclared = (case List.find (\<lambda>p. \<not> declared_permission m p) (permission_items v) of
                          None \<Rightarrow> JUndef | Some p \<Rightarrow> p) in
      if truthy undeclared
      then Inl (RuntimeError ''permission_not_declared''
             (lit ''Plugin '' @ mf_id m @ lit '' did not declare '' @ to_str undeclared @ lit ''.''))
      else case host of
          None \<Rightarrow> if permission_items v \<noteq> []
                 then Inl (RuntimeError ''permission_service_missing''
                        (lit ''Host permission service is unavailable.''))
                 else Inr (JBool True)
        | Some f \<Rightarrow> f (permission_items v))"

section \<open>The context and the contributions of a plugin\<close>

text \<open>The two services the runtime itself provides are objects with their methods.\<close>

definition createContext :: "runtime_options \<Rightarrow> plugin_record \<Rightarrow> contract_error + plugin_context" where
  "createContext opts r = definePluginContext (jobj
     ([(''plugin'', jobj [(''id'', JStr (mf_id (pr_manifest r))), (''version'', JStr (mf_version (pr_manifest r)))]),
       (''scope'', opt_scope opts),
       (''permissions'', jobj [(''has'', JFun 0), (''require'', JFun 1)]),
       (''commands'', jobj [(''register'', JFun 2), (''execute'', JFun 3)])]
      @ map (\<lambda>name. (name, dot (opt_services opts) name))
          [''dialog'', ''notifications'', ''resources'', ''tasks'', ''artifacts'', ''http'']))"

text \<open>A command of the manifest, as the object that \<open>normalizeCommands\<close> built.\<close>

definition contributed_command :: "command_def \<Rightarrow> jsval" where
  "contributed_command c = jobj
     ([(''id'', JStr (cd_id c)), (''title'', JStr (cd_title c)), (''risk'', JStr (cd_risk c)),
       (''required_permissions'', JArr (map JStr (cd_requiredPermissions c))),
       (''contexts'', JArr (map JStr (cd_contexts c)))]
      @ opt_entry ''input_schema'' (cd_inputSchema c) @ opt_entry ''output_schema'' (cd_outputSchema c))"

datatype contribution =
    ContributeCommand command_def
  | ContributeRoute route jstring jsval plugin_context
  | ContributeNavigation navigation
  | ContributeHandler jstring jsval

fun contribute :: "runtime_options \<Rightarrow> jstring \<Rightarrow> contribution \<Rightarrow> hub \<Rightarrow> registry_error + disposer \<times> hub" where
  "contribute opts pluginID (ContributeCommand c) h =
     andThen (command_declare (JStr pluginID) (contributed_command c) (hub_commands h)) (\<lambda>(t, r).
     Inr (Undeclare t, h\<lparr>hub_commands := r\<rparr>))"
| "contribute opts pluginID (ContributeRoute route title component context) h =
     andThen (route_register (JStr pluginID) route title component (Some context) (hub_routes h)) (\<lambda>(t, r).
     Inr (Unroute t, h\<lparr>hub_routes := r\<rparr>))"
| "contribute opts pluginID (ContributeNavigation n) h =
     andThen (nav_register (opt_lc opts) (opt_groups opts) (JStr pluginID) (Some n) (hub_navigation h)) (\<lambda>(t, r).
     Inr (Unnavigate t, h\<lparr>hub_navigation := r\<rparr>))"
| "contribute opts pluginID (ContributeHandler commandID handler) h =
     andThen (registerHandler (JStr pluginID) commandID handler (hub_commands h)) (\<lambda>(t, r).
     Inr (Unhandle t, h\<lparr>hub_commands := r\<rparr>))"

text \<open>A \<open>for\<close> loop that pushes the disposer of each registration and stops when one throws.\<close>

fun contribute_all :: "runtime_options \<Rightarrow> jstring \<Rightarrow> contribution list \<Rightarrow> hub \<Rightarrow> disposer list
    \<Rightarrow> hub \<times> disposer list \<times> registry_error option" where
  "contribute_all opts pluginID [] h ds = (h, ds, None)"
| "contribute_all opts pluginID (c # cs) h ds = (case contribute opts pluginID c h of
       Inl e \<Rightarrow> (h, ds, Some e)
     | Inr (d, h') \<Rightarrow> contribute_all opts pluginID cs h' (ds @ [d]))"

definition route_title :: "manifest \<Rightarrow> route \<Rightarrow> jstring" where
  "route_title m r = (case List.find (\<lambda>n. nav_route n = rt_path r) (mf_navigation m) of
       None \<Rightarrow> rt_id r
     | Some n \<Rightarrow> if nav_title n = [] then rt_id r else nav_title n)"

definition view_contributions :: "plugin_record \<Rightarrow> plugin_context \<Rightarrow> contribution list" where
  "view_contributions r context =
     map (\<lambda>rt. ContributeRoute rt (route_title (pr_manifest r) rt)
                 (index (pr_components r) (rt_component rt)) context) (mf_routes (pr_manifest r))
     @ map ContributeNavigation (mf_navigation (pr_manifest r))"

definition contributeAll :: "runtime_options \<Rightarrow> jstring \<Rightarrow> plugin_record \<Rightarrow> hub
    \<Rightarrow> hub \<times> disposer list \<times> runtime_error option" where
  "contributeAll opts pluginID r h =
     (case contribute_all opts pluginID (map ContributeCommand (mf_commands (pr_manifest r))) h [] of
        (h1, ds1, Some e) \<Rightarrow> (h1, ds1, Some (RuntimeRegistry e))
      | (h1, ds1, None) \<Rightarrow> (case createContext opts r of
            Inl e \<Rightarrow> (h1, ds1, Some (RuntimeContract e))
          | Inr context \<Rightarrow>
              (case contribute_all opts pluginID (view_contributions r context) h1 ds1 of
                 (h2, ds2, e) \<Rightarrow> (h2, ds2, map_option RuntimeRegistry e))))"

fun run_disposer :: "runtime_options \<Rightarrow> disposer \<Rightarrow> hub \<Rightarrow> hub" where
  "run_disposer opts (Undeclare t) h =
     h\<lparr>hub_commands := snd (dispose_entry command_snapshot t (hub_commands h))\<rparr>"
| "run_disposer opts (Unroute t) h = h\<lparr>hub_routes := snd (dispose_entry map_values t (hub_routes h))\<rparr>"
| "run_disposer opts (Unnavigate t) h =
     h\<lparr>hub_navigation := snd (dispose_entry (nav_snapshot (opt_lc opts)) t (hub_navigation h))\<rparr>"
| "run_disposer opts (Unhandle t) h = h\<lparr>hub_commands := snd (dispose_handler t (hub_commands h))\<rparr>"

definition rollback :: "runtime_options \<Rightarrow> disposer list \<Rightarrow> hub \<Rightarrow> hub" where
  "rollback opts ds h = fold (run_disposer opts) (rev ds) h"

section \<open>Activation\<close>

definition contract_message :: "contract_error \<Rightarrow> jstring" where
  "contract_message e = (case e of ContractError field m \<Rightarrow> field @ lit '': '' @ m)"

fun error_message :: "runtime_error \<Rightarrow> jstring" where
  "error_message (RuntimeError code m) = m"
| "error_message (RuntimeRegistry (RegistryError code m)) = m"
| "error_message (RuntimeRegistry (RegistryContract e)) = contract_message e"
| "error_message (RuntimeContract e) = contract_message e"
| "error_message (PluginThrew m) = m"
| "error_message (RuntimeManifest (ManifestError field m code)) = field @ lit '': '' @ m"
| "error_message (RuntimeManifest (CommandContract e)) = contract_message e"
| "error_message (RuntimePolicy (PolicyTypeError m)) = m"

definition is_runtime_error :: "runtime_error \<Rightarrow> bool" where
  "is_runtime_error e \<longleftrightarrow> (case e of RuntimeError _ _ \<Rightarrow> True | _ \<Rightarrow> False)"

text \<open>The \<open>catch\<close> block of \<open>activate\<close> for the record object \<open>n\<close> and the disposers \<open>ds\<close>.\<close>

definition activation_failed :: "runtime_options \<Rightarrow> jstring \<Rightarrow> nat \<Rightarrow> disposer list \<Rightarrow> runtime_error \<Rightarrow> runtime
    \<Rightarrow> outcome \<times> runtime" where
  "activation_failed opts pluginID n ds e rt =
     (Thrown (if is_runtime_error e then e
              else RuntimeError ''activation_failed'' (lit ''Plugin '' @ pluginID @ lit '' failed to activate.'')),
      notify (update_object n (\<lambda>r. r\<lparr>pr_disposers := None, pr_status := Failed, pr_error := error_message e\<rparr>)
        (rt\<lparr>rt_hub := rollback opts ds (rt_hub rt)\<rparr>)))"

definition activate_start :: "runtime_options \<Rightarrow> jstring \<Rightarrow> runtime \<Rightarrow> outcome \<times> runtime" where
  "activate_start opts pluginID rt = (case record_of rt pluginID of
       None \<Rightarrow> (Thrown (RuntimeError ''plugin_not_found''
                 (lit ''Plugin '' @ pluginID @ lit '' is not registered.'')), rt)
     | Some (n, r) \<Rightarrow>
         if \<not> cp_compatible (pr_compatibility r)
         then (Thrown (RuntimeError ''plugin_incompatible'' (lit ''Plugin '' @ pluginID @ lit '' is incompatible.'')), rt)
         else if \<not> en_enabled (pr_enablement r)
         then (Thrown (RuntimeError ''plugin_disabled''
                (lit ''Plugin '' @ pluginID @ lit '' is disabled for the current scope.'')), rt)
         else if pr_status r = Active then (Returned (publicRecord r), rt)
         else if pr_status r \<in> {Activating, Deactivating}
         then (Thrown (RuntimeError ''plugin_busy'' (lit ''Plugin '' @ pluginID @ lit '' is currently ''
                @ (if pr_status r = Activating then lit ''activating'' else lit ''deactivating'') @ lit ''.'')), rt)
         else (let a = next_call rt;
                   rt1 = notify (update_object n (\<lambda>r. r\<lparr>pr_status := Activating, pr_error := []\<rparr>)
                                   (rt\<lparr>next_call := Suc a\<rparr>)) in
               (case contributeAll opts pluginID r (rt_hub rt1) of
                  (h, ds, Some e) \<Rightarrow> activation_failed opts pluginID n ds e (rt1\<lparr>rt_hub := h\<rparr>)
                | (h, ds, None) \<Rightarrow> (Suspended a, rt1\<lparr>rt_hub := h, arrays := map_set (arrays rt1) a ds,
                      activations := map_set (activations rt1) a (n, pluginID)\<rparr>))))"

text \<open>\<open>context.commands.register\<close> of the context of activation \<open>a\<close>, whose record is \<open>r\<close>.\<close>

definition context_register :: "runtime_options \<Rightarrow> plugin_record \<Rightarrow> nat \<Rightarrow> jstring \<Rightarrow> jsval \<Rightarrow> runtime
    \<Rightarrow> runtime_error + disposer \<times> runtime" where
  "context_register opts r a commandID handler rt =
     (if commandID \<notin> set (map cd_id (mf_commands (pr_manifest r)))
      then Inl (RuntimeError ''command_not_declared''
             (lit ''Plugin '' @ mf_id (pr_manifest r) @ lit '' did not declare '' @ commandID @ lit ''.''))
      else case contribute opts (mf_id (pr_manifest r)) (ContributeHandler commandID handler) (rt_hub rt) of
          Inl e \<Rightarrow> Inl (RuntimeRegistry e)
        | Inr (d, h) \<Rightarrow> Inr (d, rt\<lparr>rt_hub := h, arrays := map_set (arrays rt) a (array_of rt a @ [d])\<rparr>))"

text \<open>What follows the \<open>await\<close> of \<open>plugin.activate\<close>; \<open>res\<close> is how it ended.\<close>

definition activate_finish :: "runtime_options \<Rightarrow> nat \<Rightarrow> runtime_error + unit \<Rightarrow> runtime \<Rightarrow> outcome \<times> runtime" where
  "activate_finish opts a res rt = (case map_get (activations rt) a of
       None \<Rightarrow> (Suspended a, rt)
     | Some (n, pluginID) \<Rightarrow> (case map_get (objects rt) n of
           None \<Rightarrow> (Suspended a, rt)
         | Some r \<Rightarrow>
             (let rt1 = rt\<lparr>activations := map_delete (activations rt) a\<rparr>;
                  missing = List.find (\<lambda>c. \<not> hasHandler (hub_commands (rt_hub rt)) (cd_id c)) (mf_commands (pr_manifest r)) in
              (case res of
                 Inl e \<Rightarrow> activation_failed opts pluginID n (array_of rt a) e rt1
               | Inr _ \<Rightarrow> (case missing of
                     Some c \<Rightarrow> activation_failed opts pluginID n (array_of rt a)
                       (RuntimeError ''command_handler_missing''
                          (lit ''Command '' @ cd_id c @ lit '' has no active handler.'')) rt1
                   | None \<Rightarrow> (Returned (publicRecord (r\<lparr>pr_disposers := Some a, pr_status := Active\<rparr>)),
                       notify (update_object n (\<lambda>r. r\<lparr>pr_disposers := Some a, pr_status := Active\<rparr>) rt1)))))))"

section \<open>Deactivation and removal\<close>

definition deactivate_start :: "bool \<Rightarrow> jstring \<Rightarrow> runtime \<Rightarrow> outcome \<times> runtime" where
  "deactivate_start unregister pluginID rt = (case record_of rt pluginID of
       None \<Rightarrow> (Thrown (RuntimeError ''plugin_not_found''
                 (lit ''Plugin '' @ pluginID @ lit '' is not registered.'')), rt)
     | Some (n, r) \<Rightarrow>
         if pr_status r \<noteq> Active then (Returned (publicRecord r), rt)
         else (Suspended (next_call rt), notify (update_object n (\<lambda>r. r\<lparr>pr_status := Deactivating\<rparr>)
                (rt\<lparr>next_call := Suc (next_call rt),
                    deactivations := map_set (deactivations rt) (next_call rt) (n, pluginID, unregister)\<rparr>))))"

definition remove_record :: "jstring \<Rightarrow> runtime \<Rightarrow> runtime" where
  "remove_record pluginID rt = notify (rt\<lparr>records := map_delete (records rt) pluginID\<rparr>)"

text \<open>The end of \<open>deactivate\<close>, and of \<open>unregisterPackage\<close> if that is what called it.\<close>

definition deactivate_finish :: "runtime_options \<Rightarrow> nat \<Rightarrow> runtime_error + unit \<Rightarrow> runtime \<Rightarrow> outcome \<times> runtime" where
  "deactivate_finish opts d res rt = (case map_get (deactivations rt) d of
       None \<Rightarrow> (Suspended d, rt)
     | Some (n, pluginID, unregister) \<Rightarrow> (case map_get (objects rt) n of
           None \<Rightarrow> (Suspended d, rt)
         | Some r \<Rightarrow>
             (let ds = (case pr_disposers r of None \<Rightarrow> [] | Some a \<Rightarrow> array_of rt a);
                  (status, msg) = (case res of Inl e \<Rightarrow> (Failed, error_message e) | Inr _ \<Rightarrow> (Registered, []));
                  r' = r\<lparr>pr_disposers := None, pr_status := status, pr_error := msg\<rparr>;
                  rt1 = notify (update_object n (\<lambda>_. r')
                          (rt\<lparr>deactivations := map_delete (deactivations rt) d,
                              rt_hub := rollback opts ds (rt_hub rt)\<rparr>));
                  failed = Thrown (RuntimeError ''deactivation_failed''
                             (lit ''Plugin '' @ pluginID @ lit '' failed while deactivating.'')) in
              if unregister
              then ((case res of Inl _ \<Rightarrow> failed | Inr _ \<Rightarrow> Removed True), remove_record pluginID rt1)
              else ((case res of Inl _ \<Rightarrow> failed | Inr _ \<Rightarrow> Returned (publicRecord r')), rt1))))"

definition unregister_start :: "jstring \<Rightarrow> runtime \<Rightarrow> outcome \<times> runtime" where
  "unregister_start pluginID rt = (case record_of rt pluginID of
       None \<Rightarrow> (Removed False, rt)
     | Some (n, r) \<Rightarrow>
         if pr_status r = Active then deactivate_start True pluginID rt
         else (Removed True, remove_record pluginID rt))"

definition empty_hub :: hub where
  "empty_hub = \<lparr>hub_navigation = empty_registry, hub_routes = empty_registry, hub_commands = empty_commands\<rparr>"

definition empty_runtime :: runtime where
  "empty_runtime = \<lparr>objects = [], next_object = 0, records = [], arrays = [], next_call = 0,
     activations = [], deactivations = [], rt_hub = empty_hub, rt_listeners = [], rt_told = []\<rparr>"

section \<open>Loading packages\<close>

text \<open>A plugin whose \<open>activate\<close> registers handlers one after the other and then returns or throws; a
  registration that throws ends it. With such plugins, and nothing else running, \<open>activate\<close> and
  \<open>load\<close> are functions.\<close>

record plugin_script =
  sc_handlers :: "(jstring \<times> jsval) list"
  sc_result :: "runtime_error + unit"

fun run_script :: "runtime_options \<Rightarrow> plugin_record \<Rightarrow> nat \<Rightarrow> (jstring \<times> jsval) list \<Rightarrow> runtime_error + unit
    \<Rightarrow> runtime \<Rightarrow> (runtime_error + unit) \<times> runtime" where
  "run_script opts r a [] res rt = (res, rt)"
| "run_script opts r a ((c, f) # hs) res rt = (case context_register opts r a c f rt of
       Inl e \<Rightarrow> (Inl e, rt)
     | Inr (_, rt') \<Rightarrow> run_script opts r a hs res rt')"

definition activate :: "runtime_options \<Rightarrow> (jstring \<Rightarrow> plugin_script) \<Rightarrow> jstring \<Rightarrow> runtime \<Rightarrow> outcome \<times> runtime" where
  "activate opts scripts pluginID rt = (case activate_start opts pluginID rt of
       (Suspended a, rt1) \<Rightarrow> (case record_of rt1 pluginID of
           None \<Rightarrow> (Suspended a, rt1)
         | Some (_, r) \<Rightarrow>
             (case run_script opts r a (sc_handlers (scripts pluginID)) (sc_result (scripts pluginID)) rt1 of
                (res, rt2) \<Rightarrow> activate_finish opts a res rt2))
     | done \<Rightarrow> done)"

fun register_all :: "runtime_options \<Rightarrow> jsval list \<Rightarrow> runtime
    \<Rightarrow> runtime_error option \<times> public_record list \<times> runtime" where
  "register_all opts [] rt = (None, [], rt)"
| "register_all opts (p # ps) rt = (case registerPackage opts p rt of
       Inl e \<Rightarrow> (Some e, [], rt)
     | Inr (r, rt1) \<Rightarrow> (case register_all opts ps rt1 of (e, rs, rt2) \<Rightarrow> (e, r # rs, rt2)))"

fun activate_all :: "runtime_options \<Rightarrow> (jstring \<Rightarrow> plugin_script) \<Rightarrow> public_record list \<Rightarrow> runtime
    \<Rightarrow> public_record option list \<times> runtime" where
  "activate_all opts scripts [] rt = ([], rt)"
| "activate_all opts scripts (p # ps) rt =
     (if \<not> pub_compatible p \<or> \<not> pub_enabled p
      then (case activate_all opts scripts ps rt of (rs, rt1) \<Rightarrow> (Some p # rs, rt1))
      else (case activate opts scripts (pub_id p) rt of (out, rt1) \<Rightarrow>
        (case activate_all opts scripts ps rt1 of (rs, rt2) \<Rightarrow>
           ((case out of Returned r \<Rightarrow> Some r | _ \<Rightarrow> get_record rt1 (pub_id p)) # rs, rt2))))"

definition load :: "runtime_options \<Rightarrow> (jstring \<Rightarrow> plugin_script) \<Rightarrow> bool \<Rightarrow> jsval list \<Rightarrow> runtime
    \<Rightarrow> (runtime_error + public_record option list) \<times> runtime" where
  "load opts scripts act pkgs rt = (case register_all opts pkgs rt of
       (Some e, _, rt1) \<Rightarrow> (Inl e, rt1)
     | (None, rs, rt1) \<Rightarrow>
         if \<not> act then (Inr (map Some rs), rt1)
         else (case activate_all opts scripts rs rt1 of (res, rt2) \<Rightarrow> (Inr res, rt2)))"

section \<open>Rolling back\<close>

definition hub_core where
  "hub_core h = (reg_core (hub_navigation h), reg_core (hub_routes h), command_core (hub_commands h))"

definition hub_ok :: "hub \<Rightarrow> bool" where
  "hub_ok h \<longleftrightarrow> reg_ok (hub_navigation h) \<and> reg_ok (hub_routes h) \<and> commands_ok (hub_commands h)"

lemma hub_ok_disposer: "hub_ok h \<Longrightarrow> hub_ok (run_disposer opts d h)"
  by (cases d) (auto simp: hub_ok_def reg_ok_dispose commands_ok_undeclare commands_ok_dispose_handler)

lemma hub_ok_contribute: "hub_ok h \<Longrightarrow> contribute opts p c h = Inr (d, h') \<Longrightarrow> hub_ok h'"
  by (cases c) (auto simp: hub_ok_def js_result intro: commands_ok_declare commands_ok_registerHandler
      dest: nav_contract.ok_reg [where i = "(JStr p, Some n)" for n, simplified]
        route_contract.ok_reg [where i = "(JStr p, a, b, c', e)" for a b c' e, simplified])

text \<open>The whole host keeps the contract of a registry, for the contributions of one plugin.\<close>

interpretation host_contract: reversible_registry "contribute opts p"
  "\<lambda>_ d h. (True, run_disposer opts d h)" hub_core hub_ok for opts p
proof unfold_locales
  fix c d and h h' h'' :: hub
  assume ok: "hub_ok h"
  show "hub_ok (snd (True, run_disposer opts d h))" using ok by (simp add: hub_ok_disposer)
  assume reg: "contribute opts p c h = Inr (d, h')"
  show "hub_ok h'" using ok reg by (rule hub_ok_contribute)
  assume core: "hub_core h'' = hub_core h'"
  show "fst (True, run_disposer opts d h'') \<and> hub_core (snd (True, run_disposer opts d h'')) = hub_core h"
  proof (cases c)
    case (ContributeCommand x)
    then obtain t r where new: "command_declare (JStr p) (contributed_command x) (hub_commands h) = Inr (t, r)"
        "d = Undeclare t" "h' = h\<lparr>hub_commands := r\<rparr>"
      using reg by (auto simp: js_result)
    have "command_core (hub_commands h'') = command_core r" using core new(3) by (simp add: hub_core_def)
    then show ?thesis using undeclare_undo [OF _ new(1)] ok core new(2,3) by (simp add: hub_core_def hub_ok_def)
  next
    case (ContributeRoute x1 x2 x3 x4)
    then obtain t r where new: "route_register (JStr p) x1 x2 x3 (Some x4) (hub_routes h) = Inr (t, r)"
        "d = Unroute t" "h' = h\<lparr>hub_routes := r\<rparr>"
      using reg by (auto simp: js_result)
    obtain key e where st: "map_get (entries (hub_routes h)) key = None" "store_entry map_values key e (hub_routes h) = (t, r)"
      using new(1) by (rule route_register_Inr)
    have "reg_core (hub_routes h'') = reg_core r" using core new(3) by (simp add: hub_core_def)
    then have "reg_core (snd (dispose_entry map_values t (hub_routes h''))) = reg_core (hub_routes h)"
      using store_dispose_core [OF _ st] ok unfolding hub_ok_def by blast
    then show ?thesis using core new(2,3) by (simp add: hub_core_def)
  next
    case (ContributeNavigation n)
    then obtain t r where new: "nav_register (opt_lc opts) (opt_groups opts) (JStr p) (Some n) (hub_navigation h) = Inr (t, r)"
        "d = Unnavigate t" "h' = h\<lparr>hub_navigation := r\<rparr>"
      using reg by (auto simp: js_result)
    obtain key e where st: "map_get (entries (hub_navigation h)) key = None"
        "store_entry (nav_snapshot (opt_lc opts)) key e (hub_navigation h) = (t, r)"
      using new(1) by (rule nav_register_Inr)
    have "reg_core (hub_navigation h'') = reg_core r" using core new(3) by (simp add: hub_core_def)
    then have "reg_core (snd (dispose_entry (nav_snapshot (opt_lc opts)) t (hub_navigation h''))) = reg_core (hub_navigation h)"
      using store_dispose_core [OF _ st] ok unfolding hub_ok_def by blast
    then show ?thesis using core new(2,3) by (simp add: hub_core_def)
  next
    case (ContributeHandler x1 x2)
    then obtain t r where new: "registerHandler (JStr p) x1 x2 (hub_commands h) = Inr (t, r)"
        "d = Unhandle t" "h' = h\<lparr>hub_commands := r\<rparr>"
      using reg by (auto simp: js_result)
    have "command_core (hub_commands h'') = command_core r" using core new(3) by (simp add: hub_core_def)
    then show ?thesis using unhandle_undo [OF _ new(1)] ok core new(2,3) by (simp add: hub_core_def hub_ok_def)
  qed
qed

text \<open>The loops of \<open>activate\<close> are the run of registrations of the contract.\<close>

lemma contribute_all_reg_all:
  "contribute_all opts p cs h (rev (map snd ds)) =
     (case host_contract.reg_all opts p cs ds h of (ds', h', e) \<Rightarrow> (h', rev (map snd ds'), e))"
proof (induction cs arbitrary: ds h)
  case Nil
  then show ?case by (simp add: host_contract.reg_all.simps)
next
  case (Cons c cs)
  show ?case
  proof (cases "contribute opts p c h")
    case (Inl e)
    then show ?thesis by (simp add: host_contract.reg_all.simps)
  next
    case (Inr x)
    then show ?thesis using Cons.IH [of "snd x" "(c, fst x) # ds"]
      by (cases x) (simp add: host_contract.reg_all.simps)
  qed
qed

lemma rollback_dis_all: "rollback opts (rev (map snd ds)) h = host_contract.dis_all opts ds h"
  unfolding rollback_def
  by (induction ds arbitrary: h) (auto simp: host_contract.dis_all.simps)

lemma contribute_all_ok:
  "hub_ok h \<Longrightarrow> contribute_all opts p cs h ds = (h', ds', e) \<Longrightarrow> hub_ok h'"
proof (induction cs arbitrary: h ds)
  case Nil
  then show ?case by simp
next
  case (Cons c cs)
  then show ?case by (cases "contribute opts p c h") (auto dest: hub_ok_contribute)
qed

lemma rollback_contribute_all:
  assumes "hub_ok h" and "contribute_all opts p cs h [] = (h', ds, e)"
  shows "hub_core (rollback opts ds h') = hub_core h"
proof -
  obtain ds' h1 e' where run: "host_contract.reg_all opts p cs [] h = (ds', h1, e')"
    by (metis prod_cases3)
  then have "h' = h1" "ds = rev (map snd ds')"
    using assms(2) contribute_all_reg_all [of opts p cs h "[]"] by auto
  then show ?thesis using host_contract.rollback_all [OF assms(1) run] by (simp add: rollback_dis_all)
qed

lemma contribute_all_append:
  "contribute_all opts p (cs1 @ cs2) h ds = (case contribute_all opts p cs1 h ds of
     (h1, ds1, Some e) \<Rightarrow> (h1, ds1, Some e)
   | (h1, ds1, None) \<Rightarrow> contribute_all opts p cs2 h1 ds1)"
  by (induction cs1 arbitrary: h ds) (auto split: sum.splits)

lemma contributeAll_run:
  assumes "contributeAll opts p r h = (h', ds, e)"
  obtains cs e' where "contribute_all opts p cs h [] = (h', ds, e')"
    and "e = None \<Longrightarrow> e' = None \<and> (\<exists>context. createContext opts r = Inr context
          \<and> cs = map ContributeCommand (mf_commands (pr_manifest r)) @ view_contributions r context)"
proof -
  let ?c = "map ContributeCommand (mf_commands (pr_manifest r))"
  obtain h1 ds1 e1 where first: "contribute_all opts p ?c h [] = (h1, ds1, e1)" by (metis prod_cases3)
  show thesis
  proof (cases "e1 = None")
    case False
    then show ?thesis using first assms that [of ?c e1] by (auto simp: contributeAll_def)
  next
    case None: True
    show ?thesis
    proof (cases "createContext opts r")
      case (Inl x)
      then show ?thesis using first assms that [of ?c e1] None by (auto simp: contributeAll_def)
    next
      case (Inr ctx)
      then show ?thesis
        using first assms None that [of "?c @ view_contributions r ctx"]
        by (auto simp: contributeAll_def contribute_all_append split: prod.splits)
    qed
  qed
qed

section \<open>A failed activation leaves nothing behind\<close>

lemma update_object_simps [simp]:
  "rt_hub (update_object n f rt) = rt_hub rt" "arrays (update_object n f rt) = arrays rt"
  "records (update_object n f rt) = records rt" "activations (update_object n f rt) = activations rt"
  "deactivations (update_object n f rt) = deactivations rt" "next_call (update_object n f rt) = next_call rt"
  "next_object (update_object n f rt) = next_object rt"
  by (simp_all add: update_object_def split: option.splits)

lemma objects_update_object [simp]:
  "map_get (objects (update_object n f rt)) k
     = (if k = n then map_option f (map_get (objects rt) n) else map_get (objects rt) k)"
  by (simp add: update_object_def js_map split: option.splits)

lemma notify_simps [simp]:
  "rt_hub (notify rt) = rt_hub rt" "arrays (notify rt) = arrays rt" "records (notify rt) = records rt"
  "activations (notify rt) = activations rt" "deactivations (notify rt) = deactivations rt"
  "next_call (notify rt) = next_call rt" "next_object (notify rt) = next_object rt"
  "objects (notify rt) = objects rt"
  by (simp_all add: notify_def)

lemma activation_failed_simps [simp]:
  "rt_hub (snd (activation_failed opts p n ds e rt)) = rollback opts ds (rt_hub rt)"
  "arrays (snd (activation_failed opts p n ds e rt)) = arrays rt"
  "records (snd (activation_failed opts p n ds e rt)) = records rt"
  "activations (snd (activation_failed opts p n ds e rt)) = activations rt"
  "deactivations (snd (activation_failed opts p n ds e rt)) = deactivations rt"
  "next_call (snd (activation_failed opts p n ds e rt)) = next_call rt"
  "next_object (snd (activation_failed opts p n ds e rt)) = next_object rt"
  "map_get (objects (snd (activation_failed opts p n ds e rt))) k = (if k = n
     then map_option (\<lambda>r. r\<lparr>pr_disposers := None, pr_status := Failed, pr_error := error_message e\<rparr>) (map_get (objects rt) n)
     else map_get (objects rt) k)"
  by (simp_all add: activation_failed_def)

lemma fst_activation_failed: "\<exists>e'. fst (activation_failed opts p n ds e rt) = Thrown e'"
  by (simp add: activation_failed_def)

definition can_start :: "plugin_record \<Rightarrow> bool" where
  "can_start r \<longleftrightarrow> cp_compatible (pr_compatibility r) \<and> en_enabled (pr_enablement r)
     \<and> pr_status r \<notin> {Active, Activating, Deactivating}"

definition started :: "nat \<Rightarrow> runtime \<Rightarrow> runtime" where
  "started n rt = notify (update_object n (\<lambda>r. r\<lparr>pr_status := Activating, pr_error := []\<rparr>)
     (rt\<lparr>next_call := Suc (next_call rt)\<rparr>))"

text \<open>The three ways in which the synchronous part of \<open>activate\<close> ends.\<close>

lemma activate_start_cases:
  obtains (refused) "snd (activate_start opts p rt) = rt" and "\<And>a. fst (activate_start opts p rt) \<noteq> Suspended a"
  | (failed) n r h ds e where "record_of rt p = Some (n, r)" and "can_start r"
      and "contributeAll opts p r (rt_hub rt) = (h, ds, Some e)"
      and "activate_start opts p rt = activation_failed opts p n ds e ((started n rt)\<lparr>rt_hub := h\<rparr>)"
  | (suspended) n r h ds where "record_of rt p = Some (n, r)" and "can_start r"
      and "contributeAll opts p r (rt_hub rt) = (h, ds, None)"
      and "activate_start opts p rt = (Suspended (next_call rt), (started n rt)\<lparr>rt_hub := h,
             arrays := map_set (arrays rt) (next_call rt) ds,
             activations := map_set (activations rt) (next_call rt) (n, p)\<rparr>)"
proof (cases "record_of rt p")
  case None
  then show thesis using refused by (simp add: activate_start_def)
next
  case (Some x)
  obtain n r where x: "x = (n, r)" by (cases x)
  obtain h ds e where c: "contributeAll opts p r (rt_hub rt) = (h, ds, e)" by (metis prod_cases3)
  show thesis
  proof (cases "can_start r")
    case False
    then show thesis using refused Some x by (auto simp: activate_start_def can_start_def)
  next
    case True
    then show thesis using Some x c failed suspended
      by (cases e) (auto simp: activate_start_def can_start_def started_def Let_def)
  qed
qed

lemma started_hub [simp]: "rt_hub (started n rt) = rt_hub rt"
  by (simp add: started_def)

lemma failed_start_core:
  assumes "hub_ok (rt_hub rt)" and "activate_start opts p rt = (Thrown e, rt')"
  shows "hub_core (rt_hub rt') = hub_core (rt_hub rt)"
proof (cases rule: activate_start_cases [of opts p rt])
  case refused
  then show ?thesis using assms by simp
next
  case (failed n r h ds x)
  obtain cs e' where "contribute_all opts p cs (rt_hub rt) [] = (h, ds, e')"
    using failed(3) by (rule contributeAll_run)
  then have "hub_core (rollback opts ds h) = hub_core (rt_hub rt)"
    using assms(1) by (intro rollback_contribute_all)
  moreover have "rt' = snd (activate_start opts p rt)" using assms(2) by simp
  ultimately show ?thesis by (simp add: failed(4))
next
  case (suspended n r h ds)
  then show ?thesis using assms by simp
qed

section \<open>Whose contribution an entry is\<close>

text \<open>\<open>owns h d p\<close>: the disposer \<open>d\<close> has not run, and it would remove an entry of the plugin \<open>p\<close>.\<close>

definition reg_owns :: "('v \<Rightarrow> jstring) \<Rightarrow> ('v, 's, 'z) registry_scheme \<Rightarrow> nat \<Rightarrow> jstring \<Rightarrow> bool" where
  "reg_owns owner r t p = (case map_get (live r) t of None \<Rightarrow> False
     | Some k \<Rightarrow> map_option owner (map_get (entries r) k) = Some p)"

fun owns :: "hub \<Rightarrow> disposer \<Rightarrow> jstring \<Rightarrow> bool" where
  "owns h (Undeclare t) p = reg_owns ce_pluginID (hub_commands h) t p"
| "owns h (Unroute t) p = reg_owns re_pluginID (hub_routes h) t p"
| "owns h (Unnavigate t) p = reg_owns ne_pluginID (hub_navigation h) t p"
| "owns h (Unhandle t) p = False"

lemma live_key_present:
  assumes "reg_ok r" and "map_get (live r) t = Some k"
  shows "map_get (entries r) k \<noteq> None"
proof -
  have "k \<in> set (map snd (live r))" using map_get_in_set [OF assms(2)] by force
  then show ?thesis using assms(1) by (simp add: reg_ok_def jsmap.get_None)
qed

lemma reg_owns_store:
  assumes "reg_ok r" and "map_get (entries r) key = None" and "store_entry f key v r = (t, r')"
    and "reg_owns owner r' t' p"
  shows "reg_owns owner r t' p \<or> (t' = t \<and> p = owner v)"
proof -
  have r': "live r' = map_set (live r) t key" "entries r' = map_set (entries r) key v"
    using assms(3) by (auto simp: store_entry_def)
  show ?thesis
  proof (cases "t' = t")
    case True
    then show ?thesis using assms(4) by (simp add: reg_owns_def r' js_map)
  next
    case False
    then obtain k where k: "map_get (live r) t' = Some k"
      using assms(4) by (auto simp: reg_owns_def r' js_map split: option.splits)
    then have "k \<noteq> key" using live_key_present [OF assms(1) k] assms(2) by auto
    then show ?thesis using assms(4) False k by (simp add: reg_owns_def r' js_map)
  qed
qed

lemma live_key_unique:
  assumes "reg_ok r" and "map_get (live r) t = Some k" and "map_get (live r) t' = Some k"
  shows "t' = t"
  using assms map_get_in_set [OF assms(2)] map_get_in_set [OF assms(3)]
  by (metis distinct_map inj_onD prod.inject reg_ok_def snd_conv)

lemma reg_owns_dispose:
  assumes "reg_ok r" and "reg_owns owner (snd (dispose_entry f t r)) t' p"
  shows "reg_owns owner r t' p \<and> t' \<noteq> t"
  using assms by (auto simp: dispose_entry_def reg_owns_def js_map split: option.splits if_splits)

lemma reg_owns_cong:
  assumes "live r' = live r" and "\<And>k. map_option owner (map_get (entries r') k) = map_option owner (map_get (entries r) k)"
  shows "reg_owns owner r' t p = reg_owns owner r t p"
  by (simp add: reg_owns_def assms split: option.split)

lemma reg_owns_handler:
  assumes "registerHandler q c x r = Inr (t, r')"
  shows "reg_owns ce_pluginID r' t' p = reg_owns ce_pluginID r t' p"
  using assms by (rule registerHandler_Inr) (auto intro!: reg_owns_cong simp: js_map)

lemma reg_owns_dispose_handler:
  "reg_owns ce_pluginID (snd (dispose_handler t r)) t' p = reg_owns ce_pluginID r t' p"
  by (rule reg_owns_cong) (auto simp: dispose_handler_def js_map Let_def split: option.splits prod.splits)

lemma owns_core: "hub_core h = hub_core h' \<Longrightarrow> owns h d p = owns h' d p"
  by (cases d) (auto simp: hub_core_def reg_core_def command_core_def cong: reg_owns_cong)

lemma pluginIDValue_trimmed: "pluginIDValue (JStr p) = Inr q \<Longrightarrow> trim p = p \<Longrightarrow> q = p"
  by (auto simp: pluginIDValue_def split: if_splits)

lemma owns_contribute:
  assumes ok: "hub_ok h" and p: "trim p = p" and reg: "contribute opts p c h = Inr (d, h')" and o: "owns h' d' p'"
  shows "owns h d' p' \<or> (d' = d \<and> p' = p)"
proof (cases c)
  case (ContributeCommand x)
  then obtain t r where new: "command_declare (JStr p) (contributed_command x) (hub_commands h) = Inr (t, r)"
      "d = Undeclare t" "h' = h\<lparr>hub_commands := r\<rparr>"
    using reg by (auto simp: js_result)
  obtain pluginID cmd where "pluginIDValue (JStr p) = Inr pluginID" "map_get (entries (hub_commands h)) (cd_id cmd) = None"
      "store_entry command_snapshot (cd_id cmd) \<lparr>ce_pluginID = pluginID, ce_command = cmd, ce_handler = None,
         ce_identity = next_token (hub_commands h)\<rparr> (hub_commands h) = (t, r)"
    using new(1) by (rule command_declare_Inr)
  note st = this
  have "reg_ok (hub_commands h)" using ok by (simp add: hub_ok_def commands_ok_def)
  then show ?thesis using o new(2,3) pluginIDValue_trimmed [OF st(1) p] reg_owns_store [OF _ st(2,3), of ce_pluginID]
    by (cases d') auto
next
  case (ContributeRoute x1 x2 x3 x4)
  then obtain t r where new: "route_register (JStr p) x1 x2 x3 (Some x4) (hub_routes h) = Inr (t, r)"
      "d = Unroute t" "h' = h\<lparr>hub_routes := r\<rparr>"
    using reg by (auto simp: js_result)
  obtain e where "map_get (entries (hub_routes h)) (rt_path x1) = None"
      "store_entry map_values (rt_path x1) e (hub_routes h) = (t, r)" "pluginIDValue (JStr p) = Inr (re_pluginID e)"
    using new(1) by (rule route_register_Inr)
  note st = this
  have "reg_ok (hub_routes h)" using ok by (simp add: hub_ok_def)
  then show ?thesis using o new(2,3) pluginIDValue_trimmed [OF st(3) p] reg_owns_store [OF _ st(1,2), of re_pluginID]
    by (cases d') auto
next
  case (ContributeNavigation n)
  then obtain t r where new: "nav_register (opt_lc opts) (opt_groups opts) (JStr p) (Some n) (hub_navigation h) = Inr (t, r)"
      "d = Unnavigate t" "h' = h\<lparr>hub_navigation := r\<rparr>"
    using reg by (auto simp: js_result)
  obtain pluginID where "pluginIDValue (JStr p) = Inr pluginID"
      "map_get (entries (hub_navigation h)) (nav_key pluginID (nav_id n)) = None"
      "store_entry (nav_snapshot (opt_lc opts)) (nav_key pluginID (nav_id n))
         \<lparr>ne_pluginID = pluginID, ne_item = n\<rparr> (hub_navigation h) = (t, r)"
    using new(1) by (rule nav_register_Inr) auto
  note st = this
  have "reg_ok (hub_navigation h)" using ok by (simp add: hub_ok_def)
  then show ?thesis using o new(2,3) pluginIDValue_trimmed [OF st(1) p] reg_owns_store [OF _ st(2,3), of ne_pluginID]
    by (cases d') auto
next
  case (ContributeHandler x1 x2)
  then show ?thesis using reg o by (cases d') (auto simp: js_result reg_owns_handler)
qed

lemma contribute_all_mono: "contribute_all opts p cs h ds = (h', ds', e) \<Longrightarrow> set ds \<subseteq> set ds'"
proof (induction cs arbitrary: h ds)
  case Nil
  then show ?case by simp
next
  case (Cons c cs)
  then show ?case by (cases "contribute opts p c h") fastforce+
qed

lemma owns_contribute_all:
  assumes "hub_ok h" and "trim p = p" and "contribute_all opts p cs h ds = (h', ds', e)" and "owns h' d p'"
  shows "owns h d p' \<or> (d \<in> set ds' \<and> p' = p)"
  using assms(1,3,4)
proof (induction cs arbitrary: h ds)
  case Nil
  then show ?case by simp
next
  case (Cons c cs)
  show ?case
  proof (cases "contribute opts p c h")
    case (Inl e)
    then show ?thesis using Cons.prems by simp
  next
    case (Inr x)
    obtain d1 h1 where x: "x = (d1, h1)" by (cases x)
    have run: "contribute_all opts p cs h1 (ds @ [d1]) = (h', ds', e)" using Cons.prems(2) Inr x by simp
    have "set (ds @ [d1]) \<subseteq> set ds'" using contribute_all_mono [OF run] .
    then show ?thesis
      using Cons.IH [OF hub_ok_contribute [OF Cons.prems(1) Inr [unfolded x]] run Cons.prems(3)]
        owns_contribute [OF Cons.prems(1) assms(2) Inr [unfolded x]] by auto
  qed
qed

lemma owns_disposer:
  assumes "hub_ok h" and "owns (run_disposer opts d h) d' p"
  shows "owns h d' p \<and> d' \<noteq> d"
  using assms by (cases d; cases d')
    (auto simp: hub_ok_def commands_ok_def reg_owns_dispose_handler dest: reg_owns_dispose)

lemma owns_rollback:
  assumes "hub_ok h" and "owns (rollback opts ds h) d p"
  shows "owns h d p \<and> d \<notin> set ds"
proof -
  have "owns h d p \<and> d \<notin> set xs" if "hub_ok h" "owns (fold (run_disposer opts) xs h) d p" for xs h
    using that
  proof (induction xs arbitrary: h)
    case Nil
    then show ?case by simp
  next
    case (Cons x xs)
    then show ?case using hub_ok_disposer [of h opts x] owns_disposer [of h opts x d p] by auto
  qed
  then show ?thesis using assms unfolding rollback_def by fastforce
qed

lemma hub_ok_rollback: "hub_ok h \<Longrightarrow> hub_ok (rollback opts ds h)"
proof -
  have "hub_ok (fold (run_disposer opts) xs h)" if "hub_ok h" for xs
    using that by (induction xs arbitrary: h) (auto intro: hub_ok_disposer)
  then show "hub_ok h \<Longrightarrow> hub_ok (rollback opts ds h)" by (simp add: rollback_def)
qed

section \<open>The life cycle of plugins\<close>

definition status_of :: "runtime \<Rightarrow> nat \<Rightarrow> plugin_status option" where
  "status_of rt n = map_option pr_status (map_get (objects rt) n)"

text \<open>A call that is suspended in the plugin belongs to the registered record of its plugin, there is
  one at most per record, and the status says which; only a compatible and enabled plugin gets that
  far.\<close>

definition lifecycle_ok :: "runtime \<Rightarrow> bool" where
  "lifecycle_ok rt \<longleftrightarrow>
     (\<forall>p n. map_get (records rt) p = Some n \<longrightarrow>
        (\<exists>r. map_get (objects rt) n = Some r \<and> mf_id (pr_manifest r) = p \<and> trim p = p))
   \<and> (\<forall>n r. map_get (objects rt) n = Some r \<longrightarrow> n < next_object rt
        \<and> (\<forall>a. pr_disposers r = Some a \<longrightarrow> a < next_call rt)
        \<and> (pr_status r \<in> {Activating, Active, Deactivating} \<longrightarrow>
             cp_compatible (pr_compatibility r) \<and> en_enabled (pr_enablement r)))
   \<and> (\<forall>a n p. map_get (activations rt) a = Some (n, p) \<longrightarrow>
        a < next_call rt \<and> map_get (records rt) p = Some n \<and> status_of rt n = Some Activating)
   \<and> (\<forall>a a' n p p'. map_get (activations rt) a = Some (n, p) \<and> map_get (activations rt) a' = Some (n, p') \<longrightarrow> a = a')
   \<and> (\<forall>d n p u. map_get (deactivations rt) d = Some (n, p, u) \<longrightarrow>
        d < next_call rt \<and> map_get (records rt) p = Some n \<and> status_of rt n = Some Deactivating)
   \<and> (\<forall>d d' n p p' u u'. map_get (deactivations rt) d = Some (n, p, u)
        \<and> map_get (deactivations rt) d' = Some (n, p', u') \<longrightarrow> d = d')"

text \<open>\<open>holds rt a n p\<close>: the disposer array \<open>a\<close> will be run when the record \<open>n\<close> of \<open>p\<close> fails to activate
  or is deactivated.\<close>

definition holds :: "runtime \<Rightarrow> nat \<Rightarrow> nat \<Rightarrow> jstring \<Rightarrow> bool" where
  "holds rt a n p \<longleftrightarrow> map_get (records rt) p = Some n \<and>
     (map_get (activations rt) a = Some (n, p)
      \<or> (\<exists>r. map_get (objects rt) n = Some r \<and> pr_disposers r = Some a \<and> pr_status r \<in> {Active, Deactivating}))"

definition ownership_ok :: "runtime \<Rightarrow> bool" where
  "ownership_ok rt \<longleftrightarrow> hub_ok (rt_hub rt)
     \<and> (\<forall>d p. owns (rt_hub rt) d p \<longrightarrow> (\<exists>a n. d \<in> set (array_of rt a) \<and> holds rt a n p))"

definition runtime_ok :: "runtime \<Rightarrow> bool" where
  "runtime_ok rt \<longleftrightarrow> lifecycle_ok rt \<and> ownership_ok rt"

inductive rt_step :: "runtime_options \<Rightarrow> runtime \<Rightarrow> runtime \<Rightarrow> bool" for opts where
  rt_register: "registerPackage opts pkg rt = Inr (r, rt') \<Longrightarrow> rt_step opts rt rt'"
| rt_activate: "rt_step opts rt (snd (activate_start opts p rt))"
| rt_handler: "map_get (objects rt) n = Some r \<Longrightarrow> context_register opts r a c f rt = Inr (d, rt') \<Longrightarrow>
    rt_step opts rt rt'"
| rt_unhandle: "rt_step opts rt (rt\<lparr>rt_hub := run_disposer opts (Unhandle t) (rt_hub rt)\<rparr>)"
| rt_activated: "rt_step opts rt (snd (activate_finish opts a res rt))"
| rt_deactivate: "rt_step opts rt (snd (deactivate_start False p rt))"
| rt_deactivated: "rt_step opts rt (snd (deactivate_finish opts d res rt))"
| rt_unregister: "(\<forall>n r. record_of rt p = Some (n, r) \<longrightarrow> pr_status r \<notin> {Activating, Deactivating}) \<Longrightarrow>
    rt_step opts rt (snd (unregister_start p rt))"
| rt_listen: "listen l rt = Inr rt' \<Longrightarrow> rt_step opts rt rt'"

inductive_cases rt_stepE: "rt_step opts rt rt'"

inductive rt_reachable :: "runtime_options \<Rightarrow> runtime \<Rightarrow> bool" for opts where
  rt_start: "rt_reachable opts empty_runtime"
| rt_next: "rt_reachable opts rt \<Longrightarrow> rt_step opts rt rt' \<Longrightarrow> rt_reachable opts rt'"

lemma record_of_Some: "record_of rt p = Some (n, r) \<longleftrightarrow> map_get (records rt) p = Some n \<and> map_get (objects rt) n = Some r"
  by (auto simp: record_of_def split: option.splits)

lemma holds_cong:
  "records rt' = records rt \<Longrightarrow> activations rt' = activations rt \<Longrightarrow> objects rt' = objects rt \<Longrightarrow>
   holds rt' a n p = holds rt a n p"
  by (simp add: holds_def)

lemma lifecycle_ok_cong:
  assumes "records rt' = records rt" "activations rt' = activations rt" "objects rt' = objects rt"
    "deactivations rt' = deactivations rt" "next_call rt' = next_call rt" "next_object rt' = next_object rt"
  shows "lifecycle_ok rt' = lifecycle_ok rt"
  by (simp add: lifecycle_ok_def status_of_def assms)

lemma ownership_ok_cong:
  assumes "records rt' = records rt" "activations rt' = activations rt" "objects rt' = objects rt"
    "arrays rt' = arrays rt" "rt_hub rt' = rt_hub rt"
  shows "ownership_ok rt' = ownership_ok rt"
  by (simp add: ownership_ok_def holds_def array_of_def assms)

lemma manifest_id_trimmed: "checkPluginCompatibility v env = Inr c \<Longrightarrow> trim (mf_id (cp_manifest c)) = mf_id (cp_manifest c)"
  by (auto simp: checkPluginCompatibility_def definePluginManifest_def js_result Let_def)

lemma registerPackage_Inr:
  assumes "registerPackage opts pkg rt = Inr (pub, rt')"
  obtains c e r where "checkPluginCompatibility (dot pkg ''manifest'') (opt_environment opts) = Inr c"
    and "enablement_of opts pkg = Inr e" and "map_get (records rt) (mf_id (cp_manifest c)) = None"
    and "pr_manifest r = cp_manifest c" and "pr_compatibility r = c" and "pr_enablement r = e"
    and "pr_status r = initial_status c e" and "pr_disposers r = None" and "pub = publicRecord r"
    and "rt' = notify (rt\<lparr>objects := map_set (objects rt) (next_object rt) r,
              next_object := Suc (next_object rt),
              records := map_set (records rt) (mf_id (cp_manifest c)) (next_object rt)\<rparr>)"
proof -
  obtain c where c: "checkPluginCompatibility (dot pkg ''manifest'') (opt_environment opts) = Inr c"
    using assms by (auto simp: registerPackage_def js_result lift_manifest_def split: if_splits sum.splits)
  obtain e where e: "enablement_of opts pkg = Inr e"
    using assms by (auto simp: registerPackage_def js_result lift_policy_def split: if_splits sum.splits)
  show thesis
    using assms c e
    by (intro that [of c e "\<lparr>pr_manifest = cp_manifest c, pr_compatibility = c, pr_enablement = e,
        pr_plugin = dot pkg ''plugin'', pr_components = jor (dot pkg ''components'') (jobj []),
        pr_status = initial_status c e, pr_error = [], pr_disposers = None\<rparr>"])
      (auto simp: registerPackage_def js_result lift_manifest_def lift_policy_def Let_def js_map split: if_splits)
qed

subsection \<open>Every operation keeps the life cycle\<close>

lemma lifecycle_record:
  assumes "lifecycle_ok rt" and "map_get (records rt) p = Some n"
  obtains r where "map_get (objects rt) n = Some r" and "mf_id (pr_manifest r) = p" and "trim p = p"
  using assms by (auto simp: lifecycle_ok_def)

lemma lifecycle_object:
  assumes "lifecycle_ok rt" and "map_get (objects rt) n = Some r"
  shows "n < next_object rt" and "pr_disposers r = Some a \<Longrightarrow> a < next_call rt"
    and "pr_status r \<in> {Activating, Active, Deactivating} \<Longrightarrow> cp_compatible (pr_compatibility r) \<and> en_enabled (pr_enablement r)"
  using assms unfolding lifecycle_ok_def by auto

lemma lifecycle_activation:
  assumes "lifecycle_ok rt" and "map_get (activations rt) a = Some (n, p)"
  shows "a < next_call rt" and "map_get (records rt) p = Some n" and "status_of rt n = Some Activating"
  using assms unfolding lifecycle_ok_def by blast+

lemma lifecycle_activation_unique:
  assumes "lifecycle_ok rt" and "map_get (activations rt) a = Some (n, p)" and "map_get (activations rt) a' = Some (n, p')"
  shows "a = a'"
  using assms unfolding lifecycle_ok_def by blast

lemma lifecycle_deactivation:
  assumes "lifecycle_ok rt" and "map_get (deactivations rt) d = Some (n, p, u)"
  shows "d < next_call rt" and "map_get (records rt) p = Some n" and "status_of rt n = Some Deactivating"
  using assms unfolding lifecycle_ok_def by blast+

lemma lifecycle_deactivation_unique:
  assumes "lifecycle_ok rt" and "map_get (deactivations rt) d = Some (n, p, u)"
    and "map_get (deactivations rt) d' = Some (n, p', u')"
  shows "d = d'"
  using assms unfolding lifecycle_ok_def by blast

lemma lifecycle_okI:
  assumes "\<And>p n. map_get (records rt) p = Some n \<Longrightarrow>
      \<exists>r. map_get (objects rt) n = Some r \<and> mf_id (pr_manifest r) = p \<and> trim p = p"
    and "\<And>n r. map_get (objects rt) n = Some r \<Longrightarrow> n < next_object rt
        \<and> (\<forall>a. pr_disposers r = Some a \<longrightarrow> a < next_call rt)
        \<and> (pr_status r \<in> {Activating, Active, Deactivating} \<longrightarrow>
             cp_compatible (pr_compatibility r) \<and> en_enabled (pr_enablement r))"
    and "\<And>a n p. map_get (activations rt) a = Some (n, p) \<Longrightarrow>
        a < next_call rt \<and> map_get (records rt) p = Some n \<and> status_of rt n = Some Activating"
    and "\<And>a a' n p p'. map_get (activations rt) a = Some (n, p) \<Longrightarrow> map_get (activations rt) a' = Some (n, p') \<Longrightarrow> a = a'"
    and "\<And>d n p u. map_get (deactivations rt) d = Some (n, p, u) \<Longrightarrow>
        d < next_call rt \<and> map_get (records rt) p = Some n \<and> status_of rt n = Some Deactivating"
    and "\<And>d d' n p p' u u'. map_get (deactivations rt) d = Some (n, p, u) \<Longrightarrow>
        map_get (deactivations rt) d' = Some (n, p', u') \<Longrightarrow> d = d'"
  shows "lifecycle_ok rt"
  unfolding lifecycle_ok_def
  apply (intro conjI)
  subgoal using assms(1) by blast
  subgoal using assms(2) by blast
  subgoal using assms(3) by blast
  subgoal using assms(4) by blast
  subgoal using assms(5) by blast
  subgoal using assms(6) by blast
  done

lemma lifecycle_register:
  assumes ok: "lifecycle_ok rt" and reg: "registerPackage opts pkg rt = Inr (pub, rt')"
  shows "lifecycle_ok rt'"
proof -
  let ?n = "next_object rt"
  obtain c e r where c: "checkPluginCompatibility (dot pkg ''manifest'') (opt_environment opts) = Inr c"
    and fresh: "map_get (records rt) (mf_id (cp_manifest c)) = None"
    and r: "pr_manifest r = cp_manifest c" "pr_compatibility r = c" "pr_enablement r = e"
      "pr_status r = initial_status c e" "pr_disposers r = None"
    and rt': "rt' = notify (rt\<lparr>objects := map_set (objects rt) ?n r, next_object := Suc ?n,
        records := map_set (records rt) (mf_id (cp_manifest c)) ?n\<rparr>)"
    using reg by (rule registerPackage_Inr)
  have none: "map_get (objects rt) ?n = None" using lifecycle_object(1) [OF ok, of ?n] by (cases "map_get (objects rt) ?n") auto
  have st: "status_of rt' n = status_of rt n" if "n \<noteq> ?n" for n
    using that by (simp add: status_of_def rt' js_map)
  have live: "status_of rt n \<noteq> None \<Longrightarrow> n \<noteq> ?n" for n using none by (auto simp: status_of_def)
  show ?thesis
  proof (rule lifecycle_okI)
    fix p n assume "map_get (records rt') p = Some n"
    then show "\<exists>r. map_get (objects rt') n = Some r \<and> mf_id (pr_manifest r) = p \<and> trim p = p"
      using none r manifest_id_trimmed [OF c] lifecycle_record [OF ok, of p n]
      by (fastforce simp: rt' js_map split: if_splits)
  next
    fix n x assume "map_get (objects rt') n = Some x"
    then show "n < next_object rt' \<and> (\<forall>a. pr_disposers x = Some a \<longrightarrow> a < next_call rt')
        \<and> (pr_status x \<in> {Activating, Active, Deactivating} \<longrightarrow> cp_compatible (pr_compatibility x) \<and> en_enabled (pr_enablement x))"
      using r lifecycle_object [OF ok, of n x] by (auto simp: rt' js_map initial_status_def less_SucI split: if_splits)
  next
    fix a n p assume "map_get (activations rt') a = Some (n, p)"
    then show "a < next_call rt' \<and> map_get (records rt') p = Some n \<and> status_of rt' n = Some Activating"
      using lifecycle_activation [OF ok, of a n p] fresh st live by (auto simp: rt' js_map)
  next
    fix d n p u assume "map_get (deactivations rt') d = Some (n, p, u)"
    then show "d < next_call rt' \<and> map_get (records rt') p = Some n \<and> status_of rt' n = Some Deactivating"
      using lifecycle_deactivation [OF ok, of d n p u] fresh st live by (auto simp: rt' js_map)
  next
    fix a a' n p p' assume "map_get (activations rt') a = Some (n, p)" "map_get (activations rt') a' = Some (n, p')"
    then show "a = a'" using lifecycle_activation_unique [OF ok] by (simp add: rt')
  next
    fix d d' n p p' u u'
    assume "map_get (deactivations rt') d = Some (n, p, u)" "map_get (deactivations rt') d' = Some (n, p', u')"
    then show "d = d'" using lifecycle_deactivation_unique [OF ok] by (simp add: rt')
  qed
qed

text \<open>The other operations change the object of one registered record, its suspended calls, and the
  numbers already given out.\<close>

lemma lifecycle_update:
  assumes ok: "lifecycle_ok rt" and rec: "map_get (records rt) px = Some nx" "map_get (objects rt) nx = Some r0"
    and obj: "\<And>k. map_get (objects rt') k = (if k = nx then Some r' else map_get (objects rt) k)"
    and r': "pr_manifest r' = pr_manifest r0" "pr_compatibility r' = pr_compatibility r0"
      "pr_enablement r' = pr_enablement r0" "\<And>a. pr_disposers r' = Some a \<Longrightarrow> a < next_call rt'"
      "pr_status r' \<in> {Activating, Active, Deactivating} \<Longrightarrow> cp_compatible (pr_compatibility r0) \<and> en_enabled (pr_enablement r0)"
    and same: "records rt' = records rt" "next_object rt' = next_object rt" "next_call rt \<le> next_call rt'"
    and acts: "\<And>a n p. map_get (activations rt') a = Some (n, p) \<longleftrightarrow>
        (if n = nx then pr_status r' = Activating \<and> a = ax \<and> p = px else map_get (activations rt) a = Some (n, p))"
      "ax < next_call rt'"
    and deacts: "\<And>d n p u. map_get (deactivations rt') d = Some (n, p, u) \<longleftrightarrow>
        (if n = nx then pr_status r' = Deactivating \<and> d = dx \<and> p = px \<and> u = ux else map_get (deactivations rt) d = Some (n, p, u))"
      "dx < next_call rt'"
  shows "lifecycle_ok rt'"
proof (rule lifecycle_okI)
  have st: "status_of rt' n = (if n = nx then Some (pr_status r') else status_of rt n)" for n
    by (simp add: status_of_def obj)
  show "\<exists>r. map_get (objects rt') n = Some r \<and> mf_id (pr_manifest r) = p \<and> trim p = p"
    if listed: "map_get (records rt') p = Some n" for p n
  proof -
    obtain r where "map_get (objects rt) n = Some r" "mf_id (pr_manifest r) = p" "trim p = p"
      using lifecycle_record [OF ok listed [unfolded same(1)]] .
    then show ?thesis using rec(2) r'(1) by (cases "n = nx") (simp_all add: obj)
  qed
  show "n < next_object rt' \<and> (\<forall>a. pr_disposers x = Some a \<longrightarrow> a < next_call rt')
      \<and> (pr_status x \<in> {Activating, Active, Deactivating} \<longrightarrow> cp_compatible (pr_compatibility x) \<and> en_enabled (pr_enablement x))"
    if "map_get (objects rt') n = Some x" for n x
  proof (cases "n = nx")
    case True
    then show ?thesis using that r' lifecycle_object(1) [OF ok rec(2)] by (auto simp: obj same)
  next
    case False
    then have "map_get (objects rt) n = Some x" using that by (simp add: obj)
    then show ?thesis using lifecycle_object [OF ok, of n x] same by force
  qed
  show "a < next_call rt' \<and> map_get (records rt') p = Some n \<and> status_of rt' n = Some Activating"
    if "map_get (activations rt') a = Some (n, p)" for a n p
    using that lifecycle_activation [OF ok, of a n p] rec(1) same acts st
    by (cases "n = nx") auto
  show "d < next_call rt' \<and> map_get (records rt') p = Some n \<and> status_of rt' n = Some Deactivating"
    if "map_get (deactivations rt') d = Some (n, p, u)" for d n p u
    using that lifecycle_deactivation [OF ok, of d n p u] rec(1) same deacts st
    by (cases "n = nx") auto
  show "a = a'" if "map_get (activations rt') a = Some (n, p)" "map_get (activations rt') a' = Some (n, p')" for a a' n p p'
    using that lifecycle_activation_unique [OF ok, of a n p a' p'] by (cases "n = nx") (simp_all add: acts)
  show "d = d'" if "map_get (deactivations rt') d = Some (n, p, u)" "map_get (deactivations rt') d' = Some (n, p', u')"
    for d d' n p p' u u'
    using that lifecycle_deactivation_unique [OF ok, of d n p u d' p' u'] by (cases "n = nx") (simp_all add: deacts)
qed

lemma no_activation: "lifecycle_ok rt \<Longrightarrow> map_get (objects rt) n = Some r \<Longrightarrow> pr_status r \<noteq> Activating \<Longrightarrow>
    map_get (activations rt) a \<noteq> Some (n, p)"
  using lifecycle_activation(3) [of rt a n p] by (auto simp: status_of_def)

lemma no_deactivation: "lifecycle_ok rt \<Longrightarrow> map_get (objects rt) n = Some r \<Longrightarrow> pr_status r \<noteq> Deactivating \<Longrightarrow>
    map_get (deactivations rt) d \<noteq> Some (n, p, u)"
  using lifecycle_deactivation(3) [of rt d n p u] by (auto simp: status_of_def)

lemma fresh_call:
  assumes "lifecycle_ok rt"
  shows "map_get (activations rt) (next_call rt) = None" and "map_get (deactivations rt) (next_call rt) = None"
proof -
  show "map_get (activations rt) (next_call rt) = None"
    using lifecycle_activation(1) [OF assms, of "next_call rt"] by (cases "map_get (activations rt) (next_call rt)") auto
  show "map_get (deactivations rt) (next_call rt) = None"
    using lifecycle_deactivation(1) [OF assms, of "next_call rt"] by (cases "map_get (deactivations rt) (next_call rt)") auto
qed

lemma lifecycle_started:
  assumes ok: "lifecycle_ok rt" and rec: "record_of rt p = Some (n, r)" "can_start r"
  shows "lifecycle_ok (snd (activation_failed opts p n ds e ((started n rt)\<lparr>rt_hub := h\<rparr>)))"
    and "lifecycle_ok ((started n rt)\<lparr>rt_hub := h, arrays := m,
           activations := map_set (activations rt) (next_call rt) (n, p)\<rparr>)"
proof -
  have r: "map_get (records rt) p = Some n" "map_get (objects rt) n = Some r" using rec(1) by (auto simp: record_of_Some)
  show "lifecycle_ok (snd (activation_failed opts p n ds e ((started n rt)\<lparr>rt_hub := h\<rparr>)))"
    by (rule lifecycle_update [OF ok r, where ax = 0 and dx = 0
          and r' = "r\<lparr>pr_disposers := None, pr_status := Failed, pr_error := error_message e\<rparr>"])
      (use r rec(2) no_activation [OF ok r(2)] no_deactivation [OF ok r(2)] in
        \<open>auto simp: started_def can_start_def\<close>)
  show "lifecycle_ok ((started n rt)\<lparr>rt_hub := h, arrays := m,
           activations := map_set (activations rt) (next_call rt) (n, p)\<rparr>)"
    by (rule lifecycle_update [OF ok r, where ax = "next_call rt" and dx = 0 and r' = "r\<lparr>pr_status := Activating, pr_error := []\<rparr>"])
      (use r rec(2) no_activation [OF ok r(2)] no_deactivation [OF ok r(2)] fresh_call [OF ok]
         lifecycle_object [OF ok r(2)] in
        \<open>auto simp: started_def can_start_def js_map less_SucI split: if_splits\<close>)
qed

lemma lifecycle_activate: "lifecycle_ok rt \<Longrightarrow> lifecycle_ok (snd (activate_start opts p rt))"
  by (cases rule: activate_start_cases [of opts p rt]) (auto intro: lifecycle_started)

text \<open>How a suspended activation ends.\<close>

lemma activate_finish_cases:
  obtains (idle) "snd (activate_finish opts a res rt) = rt"
  | (failed) n p r e where "map_get (activations rt) a = Some (n, p)" and "map_get (objects rt) n = Some r"
      and "activate_finish opts a res rt = activation_failed opts p n (array_of rt a) e
             (rt\<lparr>activations := map_delete (activations rt) a\<rparr>)"
  | (active) n p r where "map_get (activations rt) a = Some (n, p)" and "map_get (objects rt) n = Some r"
      and "\<forall>c \<in> set (mf_commands (pr_manifest r)). hasHandler (hub_commands (rt_hub rt)) (cd_id c)"
      and "activate_finish opts a res rt = (Returned (publicRecord (r\<lparr>pr_disposers := Some a, pr_status := Active\<rparr>)),
             notify (update_object n (\<lambda>r. r\<lparr>pr_disposers := Some a, pr_status := Active\<rparr>)
               (rt\<lparr>activations := map_delete (activations rt) a\<rparr>)))"
proof (cases "map_get (activations rt) a")
  case None
  then show thesis using idle by (simp add: activate_finish_def)
next
  case (Some x)
  obtain n p where x: "x = (n, p)" by (cases x)
  show thesis
  proof (cases "map_get (objects rt) n")
    case None
    then show thesis using idle Some x by (simp add: activate_finish_def)
  next
    case r: (Some r)
    show thesis
    proof (cases res)
      case (Inl e)
      then show thesis using failed Some x r by (auto simp: activate_finish_def Let_def)
    next
      case (Inr u)
      then show thesis using failed [OF Some [unfolded x] r] active [OF Some [unfolded x] r] Some x r
        by (cases "List.find (\<lambda>c. \<not> hasHandler (hub_commands (rt_hub rt)) (cd_id c)) (mf_commands (pr_manifest r))")
          (auto simp: activate_finish_def Let_def find_None_iff)
    qed
  qed
qed

lemma map_get_delete_unique:
  assumes ok: "lifecycle_ok rt" and a: "map_get (activations rt) a = Some (n, p)"
  shows "map_get (map_delete (activations rt) a) a' = Some (m, q) \<longleftrightarrow> m \<noteq> n \<and> map_get (activations rt) a' = Some (m, q)"
  using lifecycle_activation_unique [OF ok a, of a' q] a by (auto simp: js_map)

lemma map_get_delete_unique_d:
  assumes ok: "lifecycle_ok rt" and d: "map_get (deactivations rt) d = Some (n, p, u)"
  shows "map_get (map_delete (deactivations rt) d) d' = Some (m, q, v) \<longleftrightarrow> m \<noteq> n \<and> map_get (deactivations rt) d' = Some (m, q, v)"
  using lifecycle_deactivation_unique [OF ok d, of d' q v] d by (auto simp: js_map)

lemma lifecycle_activated:
  assumes ok: "lifecycle_ok rt"
  shows "lifecycle_ok (snd (activate_finish opts a res rt))"
proof (cases rule: activate_finish_cases [of opts a res rt])
  case idle
  then show ?thesis using ok by simp
next
  case (failed n p r e)
  note act = lifecycle_activation [OF ok failed(1)]
  have st: "pr_status r = Activating" using act(3) failed(2) by (simp add: status_of_def)
  show ?thesis unfolding failed(3)
    by (rule lifecycle_update [OF ok act(2) failed(2), where ax = a and dx = a
          and r' = "r\<lparr>pr_disposers := None, pr_status := Failed, pr_error := error_message e\<rparr>"])
      (use act(1) st failed(2) no_deactivation [OF ok failed(2)] in
        \<open>auto simp: map_get_delete_unique [OF ok failed(1)]\<close>)
next
  case (active n p r)
  note act = lifecycle_activation [OF ok active(1)]
  have st: "pr_status r = Activating" using act(3) active(2) by (simp add: status_of_def)
  show ?thesis unfolding active(4) snd_conv
    by (rule lifecycle_update [OF ok act(2) active(2), where ax = a and dx = a
          and r' = "r\<lparr>pr_disposers := Some a, pr_status := Active\<rparr>"])
      (use act(1) st active(2) no_deactivation [OF ok active(2)] lifecycle_object(3) [OF ok active(2)] in
        \<open>auto simp: map_get_delete_unique [OF ok active(1)]\<close>)
qed

lemma deactivate_start_cases:
  obtains (idle) "snd (deactivate_start u p rt) = rt"
  | (suspended) n r where "record_of rt p = Some (n, r)" and "pr_status r = Active"
      and "deactivate_start u p rt = (Suspended (next_call rt), notify (update_object n (\<lambda>r. r\<lparr>pr_status := Deactivating\<rparr>)
                (rt\<lparr>next_call := Suc (next_call rt),
                    deactivations := map_set (deactivations rt) (next_call rt) (n, p, u)\<rparr>)))"
proof (cases "record_of rt p")
  case None
  then show thesis using idle by (simp add: deactivate_start_def)
next
  case (Some x)
  obtain n r where x: "x = (n, r)" by (cases x)
  show thesis
  proof (cases "pr_status r = Active")
    case True
    then show thesis using suspended [of n r] Some x by (simp add: deactivate_start_def)
  next
    case False
    then show thesis using idle Some x by (simp add: deactivate_start_def)
  qed
qed

lemma lifecycle_deactivate:
  assumes ok: "lifecycle_ok rt"
  shows "lifecycle_ok (snd (deactivate_start u p rt))"
proof (cases rule: deactivate_start_cases [of u p rt])
  case idle
  then show ?thesis using ok by simp
next
  case (suspended n r)
  then have r: "map_get (records rt) p = Some n" "map_get (objects rt) n = Some r" by (auto simp: record_of_Some)
  show ?thesis unfolding suspended(3) snd_conv
    by (rule lifecycle_update [OF ok r, where ax = "next_call rt" and dx = "next_call rt" and ux = u
          and r' = "r\<lparr>pr_status := Deactivating\<rparr>"])
      (use r suspended(2) no_activation [OF ok r(2)] no_deactivation [OF ok r(2)] fresh_call [OF ok]
         lifecycle_object [OF ok r(2)] in \<open>auto simp: js_map less_SucI split: if_splits\<close>)
qed

text \<open>The record object that \<open>deactivate\<close> leaves, and the state without the removal from the list.\<close>

definition deactivated :: "runtime_error + unit \<Rightarrow> plugin_record \<Rightarrow> plugin_record" where
  "deactivated res r = r\<lparr>pr_disposers := None,
     pr_status := (case res of Inl _ \<Rightarrow> Failed | Inr _ \<Rightarrow> Registered),
     pr_error := (case res of Inl e \<Rightarrow> error_message e | Inr _ \<Rightarrow> [])\<rparr>"

definition own_disposers :: "runtime \<Rightarrow> plugin_record \<Rightarrow> disposer list" where
  "own_disposers rt r = (case pr_disposers r of None \<Rightarrow> [] | Some a \<Rightarrow> array_of rt a)"

definition deactivated_state :: "runtime_options \<Rightarrow> nat \<Rightarrow> runtime_error + unit \<Rightarrow> nat \<Rightarrow> plugin_record \<Rightarrow> runtime \<Rightarrow> runtime" where
  "deactivated_state opts d res n r rt = notify (update_object n (\<lambda>_. deactivated res r)
     (rt\<lparr>deactivations := map_delete (deactivations rt) d,
         rt_hub := rollback opts (own_disposers rt r) (rt_hub rt)\<rparr>))"

lemma deactivate_finish_cases:
  obtains (idle) "snd (deactivate_finish opts d res rt) = rt"
  | (ended) n p u r where "map_get (deactivations rt) d = Some (n, p, u)" and "map_get (objects rt) n = Some r"
      and "snd (deactivate_finish opts d res rt) =
             (if u then remove_record p (deactivated_state opts d res n r rt) else deactivated_state opts d res n r rt)"
proof (cases "map_get (deactivations rt) d")
  case None
  then show thesis using idle by (simp add: deactivate_finish_def)
next
  case (Some x)
  obtain n p u where x: "x = (n, p, u)" by (cases x)
  show thesis
  proof (cases "map_get (objects rt) n")
    case None
    then show thesis using idle Some x by (simp add: deactivate_finish_def)
  next
    case r: (Some r)
    show thesis
      by (rule ended [OF Some [unfolded x] r])
        (cases res, simp_all add: deactivate_finish_def Some x r deactivated_state_def deactivated_def
           own_disposers_def Let_def)
  qed
qed

lemma lifecycle_deactivated_state:
  assumes ok: "lifecycle_ok rt" and d: "map_get (deactivations rt) d = Some (n, p, u)" "map_get (objects rt) n = Some r"
  shows "lifecycle_ok (deactivated_state opts d res n r rt)"
proof -
  note dea = lifecycle_deactivation [OF ok d(1)]
  have st: "pr_status r = Deactivating" using dea(3) d(2) by (simp add: status_of_def)
  show ?thesis unfolding deactivated_state_def
    by (rule lifecycle_update [OF ok dea(2) d(2), where ax = d and dx = d and r' = "deactivated res r"])
      (use dea(1) st d(2) no_activation [OF ok d(2)] in
        \<open>auto simp: map_get_delete_unique_d [OF ok d(1)] deactivated_def split: sum.splits\<close>)
qed

lemma lifecycle_remove:
  assumes ok: "lifecycle_ok rt"
    and idle: "\<And>n r. record_of rt p = Some (n, r) \<Longrightarrow> pr_status r \<notin> {Activating, Deactivating}"
  shows "lifecycle_ok (remove_record p rt)"
proof (rule lifecycle_okI)
  have st: "status_of (remove_record p rt) n = status_of rt n" for n
    by (simp add: status_of_def remove_record_def)
  have other: "q \<noteq> p" if "map_get (records rt) q = Some n" "status_of rt n \<in> {Some Activating, Some Deactivating}" for q n
    using that idle by (auto simp: status_of_def record_of_Some)
  show "\<exists>r. map_get (objects (remove_record p rt)) n = Some r \<and> mf_id (pr_manifest r) = q \<and> trim q = q"
    if listed: "map_get (records (remove_record p rt)) q = Some n" for q n
  proof -
    have "map_get (records rt) q = Some n" using listed by (simp add: remove_record_def js_map split: if_splits)
    then show ?thesis by (auto simp: remove_record_def elim: lifecycle_record [OF ok])
  qed
  show "n < next_object (remove_record p rt) \<and> (\<forall>a. pr_disposers x = Some a \<longrightarrow> a < next_call (remove_record p rt))
      \<and> (pr_status x \<in> {Activating, Active, Deactivating} \<longrightarrow> cp_compatible (pr_compatibility x) \<and> en_enabled (pr_enablement x))"
    if "map_get (objects (remove_record p rt)) n = Some x" for n x
    using that lifecycle_object [OF ok, of n x] by (simp add: remove_record_def)
  show "a < next_call (remove_record p rt) \<and> map_get (records (remove_record p rt)) q = Some n
      \<and> status_of (remove_record p rt) n = Some Activating"
    if "map_get (activations (remove_record p rt)) a = Some (n, q)" for a n q
    using that lifecycle_activation [OF ok, of a n q] other [of q n] by (simp add: st) (simp add: remove_record_def js_map)
  show "d < next_call (remove_record p rt) \<and> map_get (records (remove_record p rt)) q = Some n
      \<and> status_of (remove_record p rt) n = Some Deactivating"
    if "map_get (deactivations (remove_record p rt)) d = Some (n, q, u)" for d n q u
    using that lifecycle_deactivation [OF ok, of d n q u] other [of q n] by (simp add: st) (simp add: remove_record_def js_map)
  show "a = a'" if "map_get (activations (remove_record p rt)) a = Some (n, q)"
      "map_get (activations (remove_record p rt)) a' = Some (n, q')" for a a' n q q'
    using that lifecycle_activation_unique [OF ok] by (simp add: remove_record_def)
  show "d = d'" if "map_get (deactivations (remove_record p rt)) d = Some (n, q, u)"
      "map_get (deactivations (remove_record p rt)) d' = Some (n, q', u')" for d d' n q q' u u'
    using that lifecycle_deactivation_unique [OF ok] by (simp add: remove_record_def)
qed

lemma lifecycle_deactivated:
  assumes ok: "lifecycle_ok rt"
  shows "lifecycle_ok (snd (deactivate_finish opts d res rt))"
proof (cases rule: deactivate_finish_cases [of opts d res rt])
  case idle
  then show ?thesis using ok by simp
next
  case (ended n p u r)
  have "lifecycle_ok (deactivated_state opts d res n r rt)" using ok ended(1,2) by (rule lifecycle_deactivated_state)
  moreover have "pr_status r' \<notin> {Activating, Deactivating}"
    if "record_of (deactivated_state opts d res n r rt) p = Some (m, r')" for m r'
    using that lifecycle_deactivation(2) [OF ok ended(1)] ended(2)
    by (auto simp: record_of_Some deactivated_state_def deactivated_def split: sum.splits)
  ultimately show ?thesis by (simp add: ended(3) lifecycle_remove)
qed

lemma lifecycle_unregister:
  assumes "lifecycle_ok rt" and "\<forall>n r. record_of rt p = Some (n, r) \<longrightarrow> pr_status r \<notin> {Activating, Deactivating}"
  shows "lifecycle_ok (snd (unregister_start p rt))"
  using assms by (auto simp: unregister_start_def intro: lifecycle_deactivate lifecycle_remove split: option.splits)

subsection \<open>Every operation keeps the ownership\<close>

lemma holds_status:
  assumes "lifecycle_ok rt" and "holds rt a n p"
  shows "\<exists>r. map_get (objects rt) n = Some r \<and> pr_status r \<in> {Activating, Active, Deactivating}"
  using assms lifecycle_activation(3) [OF assms(1), of a n p] by (auto simp: holds_def status_of_def)

lemma holds_unique:
  assumes ok: "lifecycle_ok rt" and "holds rt a n p" and "holds rt a' n p'"
  shows "a = a'"
proof -
  obtain r where r: "map_get (objects rt) n = Some r" using holds_status assms by blast
  show ?thesis
  proof (cases "pr_status r = Activating")
    case True
    then have "map_get (activations rt) a = Some (n, p)" "map_get (activations rt) a' = Some (n, p')"
      using assms(2,3) r by (auto simp: holds_def)
    then show ?thesis by (rule lifecycle_activation_unique [OF ok])
  next
    case False
    then show ?thesis using assms(2,3) r no_activation [OF ok r] by (auto simp: holds_def)
  qed
qed

lemma holds_call: "lifecycle_ok rt \<Longrightarrow> holds rt a n p \<Longrightarrow> a < next_call rt"
  using lifecycle_activation(1) [of rt a n p] lifecycle_object(2) [of rt n _ a] by (auto simp: holds_def)

lemma holds_plugin: "lifecycle_ok rt \<Longrightarrow> holds rt a n p \<Longrightarrow> holds rt a' n p' \<Longrightarrow> p' = p"
  by (metis holds_def lifecycle_record option.inject)

lemma ownership_okE:
  assumes "ownership_ok rt" and "owns (rt_hub rt) d p"
  obtains a n where "d \<in> set (array_of rt a)" and "holds rt a n p"
  using assms unfolding ownership_ok_def by blast

text \<open>A step that touches the record \<open>nx\<close> only: what belongs to other records stays, and what is left
  in the registries of the plugin of \<open>nx\<close> has to be accounted for.\<close>

lemma ownership_update:
  assumes own: "ownership_ok rt" and hub: "hub_ok (rt_hub rt')"
    and kept: "\<And>a n p. holds rt a n p \<Longrightarrow> n \<noteq> nx \<Longrightarrow> holds rt' a n p \<and> set (array_of rt a) \<subseteq> set (array_of rt' a)"
    and old: "\<And>d p. owns (rt_hub rt') d p \<Longrightarrow> owns (rt_hub rt) d p \<or> (\<exists>a n. d \<in> set (array_of rt' a) \<and> holds rt' a n p)"
    and mine: "\<And>d a p. owns (rt_hub rt') d p \<Longrightarrow> d \<in> set (array_of rt a) \<Longrightarrow> holds rt a nx p \<Longrightarrow>
        \<exists>a n. d \<in> set (array_of rt' a) \<and> holds rt' a n p"
  shows "ownership_ok rt'"
  unfolding ownership_ok_def
proof (intro conjI allI impI hub)
  fix d p assume o: "owns (rt_hub rt') d p"
  show "\<exists>a n. d \<in> set (array_of rt' a) \<and> holds rt' a n p"
  proof (cases "owns (rt_hub rt) d p")
    case True
    then obtain a n where an: "d \<in> set (array_of rt a)" "holds rt a n p" using ownership_okE [OF own] by blast
    show ?thesis
    proof (cases "n = nx")
      case True
      then show ?thesis using mine [OF o] an by blast
    next
      case False
      then show ?thesis using kept [OF an(2)] an(1) by blast
    qed
  next
    case False
    then show ?thesis using old [OF o] by blast
  qed
qed

lemma ownership_register:
  assumes ok: "runtime_ok rt" and reg: "registerPackage opts pkg rt = Inr (pub, rt')"
  shows "ownership_ok rt'"
proof -
  have life: "lifecycle_ok rt" and own: "ownership_ok rt" using ok by (auto simp: runtime_ok_def)
  obtain c :: compatibility and r :: plugin_record where fresh: "map_get (records rt) (mf_id (cp_manifest c)) = None"
    and rt': "rt' = notify (rt\<lparr>objects := map_set (objects rt) (next_object rt) r, next_object := Suc (next_object rt),
        records := map_set (records rt) (mf_id (cp_manifest c)) (next_object rt)\<rparr>)"
    using reg by (rule registerPackage_Inr) (rule that)
  have kept: "holds rt' a n p" if h: "holds rt a n p" for a n p
  proof -
    have "n \<noteq> next_object rt" using holds_status [OF life h] lifecycle_object(1) [OF life, of n] by auto
    moreover have "p \<noteq> mf_id (cp_manifest c)" using h fresh by (auto simp: holds_def)
    ultimately show ?thesis using h by (simp add: holds_def rt' js_map)
  qed
  have "array_of rt' = array_of rt" "rt_hub rt' = rt_hub rt" by (auto simp: array_of_def rt')
  then show ?thesis using own kept unfolding ownership_ok_def by metis
qed

lemma ownership_activate:
  assumes ok: "runtime_ok rt"
  shows "ownership_ok (snd (activate_start opts p rt))"
proof -
  have life: "lifecycle_ok rt" and own: "ownership_ok rt" and hub: "hub_ok (rt_hub rt)"
    using ok by (auto simp: runtime_ok_def ownership_ok_def)
  show ?thesis
  proof (cases rule: activate_start_cases [of opts p rt])
    case refused
    then show ?thesis using own by simp
  next
    case (failed n r h ds e)
    then have r: "map_get (objects rt) n = Some r" by (simp add: record_of_Some)
    obtain cs e' where run: "contribute_all opts p cs (rt_hub rt) [] = (h, ds, e')"
      using failed(3) by (rule contributeAll_run)
    have none: "\<not> holds rt a n q" for a q
      using holds_status [OF life, of a n q] r failed(2) by (auto simp: can_start_def)
    have "hub_core (rollback opts ds h) = hub_core (rt_hub rt)" using hub run by (rule rollback_contribute_all)
    then have same: "owns (rollback opts ds h) d q = owns (rt_hub rt) d q" for d q by (rule owns_core)
    show ?thesis unfolding failed(4)
      by (rule ownership_update [OF own, where nx = n])
        (simp_all add: same none hub_ok_rollback contribute_all_ok [OF hub run],
         simp add: holds_def started_def array_of_def)
  next
    case (suspended n r h ds)
    then have r: "map_get (records rt) p = Some n" "map_get (objects rt) n = Some r" by (auto simp: record_of_Some)
    have trimmed: "trim p = p" using lifecycle_record [OF life r(1)] .
    obtain cs e' where run: "contribute_all opts p cs (rt_hub rt) [] = (h, ds, e')"
      using suspended(3) by (rule contributeAll_run)
    let ?rt = "(started n rt)\<lparr>rt_hub := h, arrays := map_set (arrays rt) (next_call rt) ds,
      activations := map_set (activations rt) (next_call rt) (n, p)\<rparr>"
    have none: "\<not> holds rt a n q" for a q
      using holds_status [OF life, of a n q] r suspended(2) by (auto simp: can_start_def)
    have new: "holds ?rt (next_call rt) n p" "array_of ?rt (next_call rt) = ds"
      using r by (auto simp: holds_def started_def js_map array_of_def)
    have kept: "holds ?rt a m q \<and> set (array_of rt a) \<subseteq> set (array_of ?rt a)" if "holds rt a m q" "m \<noteq> n" for a m q
      using that holds_call [OF life that(1)] by (auto simp: holds_def started_def js_map array_of_def)
    have old: "owns (rt_hub rt) d q \<or> (\<exists>a m. d \<in> set (array_of ?rt a) \<and> holds ?rt a m q)" if "owns (rt_hub ?rt) d q" for d q
      using owns_contribute_all [OF hub trimmed run, of d q] that new by auto
    show ?thesis unfolding suspended(4) snd_conv
    proof (rule ownership_update [OF own _ kept old])
      show "hub_ok (rt_hub ?rt)" using contribute_all_ok [OF hub run] by simp
      fix d b q assume "holds rt b n q"
      then show "\<exists>x m. d \<in> set (array_of ?rt x) \<and> holds ?rt x m q" using none by blast
    qed
  qed
qed

lemma ownership_handler:
  assumes ok: "runtime_ok rt" and n: "map_get (objects rt) n = Some r"
    and reg: "context_register opts r a c f rt = Inr (d, rt')"
  shows "ownership_ok rt'"
proof -
  have own: "ownership_ok rt" and hub: "hub_ok (rt_hub rt)" using ok by (auto simp: runtime_ok_def ownership_ok_def)
  obtain h where h: "contribute opts (mf_id (pr_manifest r)) (ContributeHandler c f) (rt_hub rt) = Inr (d, h)"
    and rt': "rt' = rt\<lparr>rt_hub := h, arrays := map_set (arrays rt) a (array_of rt a @ [d])\<rparr>"
    using reg by (auto simp: context_register_def simp del: contribute.simps split: if_splits sum.splits)
  have same: "owns h x p = owns (rt_hub rt) x p" for x p
    using h by (cases x) (auto simp: js_result reg_owns_handler)
  have "hub_ok h" using hub h by (rule hub_ok_contribute)
  moreover have "set (array_of rt b) \<subseteq> set (array_of rt' b)" for b by (auto simp: rt' array_of_def js_map)
  moreover have "holds rt' b m p = holds rt b m p" for b m p by (rule holds_cong) (simp_all add: rt')
  moreover have "rt_hub rt' = h" by (simp add: rt')
  ultimately show ?thesis using own same unfolding ownership_ok_def by (metis subsetD)
qed

lemma ownership_unhandle:
  assumes "ownership_ok rt"
  shows "ownership_ok (rt\<lparr>rt_hub := run_disposer opts (Unhandle t) (rt_hub rt)\<rparr>)"
proof -
  have "owns (run_disposer opts (Unhandle t) (rt_hub rt)) x p \<Longrightarrow> owns (rt_hub rt) x p" for x p
    using assms owns_disposer [of "rt_hub rt" opts "Unhandle t" x p] by (simp add: ownership_ok_def)
  moreover have "hub_ok (run_disposer opts (Unhandle t) (rt_hub rt))"
    using assms by (intro hub_ok_disposer) (simp add: ownership_ok_def)
  ultimately show ?thesis
    using assms unfolding ownership_ok_def by (simp add: holds_def array_of_def del: run_disposer.simps)
qed

text \<open>Running all the disposers of a record leaves nothing of its plugin.\<close>

lemma rollback_clears:
  assumes "lifecycle_ok rt" and "hub_ok (rt_hub rt)" and "holds rt a n p"
    and "owns (rollback opts (array_of rt a) (rt_hub rt)) d q" and "d \<in> set (array_of rt b)" and "holds rt b n q"
  shows False
  using holds_unique [OF assms(1,3,6)] owns_rollback [OF assms(2,4)] assms(5) by simp

lemma ownership_activated:
  assumes ok: "runtime_ok rt"
  shows "ownership_ok (snd (activate_finish opts a res rt))"
proof -
  have life: "lifecycle_ok rt" and own: "ownership_ok rt" and hub: "hub_ok (rt_hub rt)"
    using ok by (auto simp: runtime_ok_def ownership_ok_def)
  show ?thesis
  proof (cases rule: activate_finish_cases [of opts a res rt])
    case idle
    then show ?thesis using own by simp
  next
    case (failed n p r e)
    have h: "holds rt a n p" using failed(1) lifecycle_activation(2) [OF life failed(1)] by (simp add: holds_def)
    show ?thesis unfolding failed(3)
    proof (rule ownership_update [OF own, where nx = n])
      fix b m q assume "holds rt b m q" "m \<noteq> n"
      then show "holds (snd (activation_failed opts p n (array_of rt a) e (rt\<lparr>activations := map_delete (activations rt) a\<rparr>))) b m q
        \<and> set (array_of rt b) \<subseteq> set (array_of (snd (activation_failed opts p n (array_of rt a) e
             (rt\<lparr>activations := map_delete (activations rt) a\<rparr>))) b)"
        by (simp add: holds_def map_get_delete_unique [OF life failed(1)] array_of_def)
    next
      fix d b q assume "owns (rt_hub (snd (activation_failed opts p n (array_of rt a) e
           (rt\<lparr>activations := map_delete (activations rt) a\<rparr>)))) d q" "d \<in> set (array_of rt b)" "holds rt b n q"
      then have False using rollback_clears [OF life hub h] by simp
      then show "\<exists>x m. d \<in> set (array_of (snd (activation_failed opts p n (array_of rt a) e
           (rt\<lparr>activations := map_delete (activations rt) a\<rparr>))) x)
         \<and> holds (snd (activation_failed opts p n (array_of rt a) e (rt\<lparr>activations := map_delete (activations rt) a\<rparr>))) x m q" ..
    qed (use hub owns_rollback [OF hub] in \<open>auto simp: hub_ok_rollback\<close>)
  next
    case (active n p r)
    note listed = lifecycle_activation(2) [OF life active(1)]
    have h: "holds rt a n p" using active(1) listed by (simp add: holds_def)
    let ?rt = "notify (update_object n (\<lambda>r. r\<lparr>pr_disposers := Some a, pr_status := Active\<rparr>)
      (rt\<lparr>activations := map_delete (activations rt) a\<rparr>))"
    have arr: "array_of ?rt b = array_of rt b" for b by (simp add: array_of_def)
    have kept: "holds ?rt b m q" if "holds rt b m q" for b m q
    proof (cases "m = n")
      case True
      then have "b = a" "q = p" using holds_unique [OF life h] holds_plugin [OF life h] that by auto
      then show ?thesis using True active(2) listed by (simp add: holds_def)
    next
      case False
      then show ?thesis using that by (simp add: holds_def map_get_delete_unique [OF life active(1)])
    qed
    show ?thesis unfolding active(4) snd_conv ownership_ok_def arr
      using own kept unfolding ownership_ok_def by simp blast
  qed
qed

lemma ownership_deactivate:
  assumes ok: "runtime_ok rt"
  shows "ownership_ok (snd (deactivate_start u p rt))"
proof -
  have life: "lifecycle_ok rt" and own: "ownership_ok rt" using ok by (auto simp: runtime_ok_def)
  show ?thesis
  proof (cases rule: deactivate_start_cases [of u p rt])
    case idle
    then show ?thesis using own by simp
  next
    case (suspended n r)
    then have r: "map_get (objects rt) n = Some r" by (simp add: record_of_Some)
    let ?rt = "notify (update_object n (\<lambda>r. r\<lparr>pr_status := Deactivating\<rparr>) (rt\<lparr>next_call := Suc (next_call rt),
        deactivations := map_set (deactivations rt) (next_call rt) (n, p, u)\<rparr>))"
    have arr: "array_of ?rt b = array_of rt b" for b by (simp add: array_of_def)
    have "holds ?rt b m q" if "holds rt b m q" for b m q
      using that r suspended(2) by (auto simp: holds_def)
    then show ?thesis unfolding suspended(3) snd_conv ownership_ok_def arr
      using own unfolding ownership_ok_def by simp blast
  qed
qed

lemma ownership_remove:
  assumes own: "ownership_ok rt" and free: "\<And>a n. \<not> holds rt a n p"
  shows "ownership_ok (remove_record p rt)"
proof -
  have "holds (remove_record p rt) a n q" if "holds rt a n q" for a n q
    using that free [of a n] by (auto simp: holds_def remove_record_def js_map)
  moreover have "array_of (remove_record p rt) = array_of rt" "rt_hub (remove_record p rt) = rt_hub rt"
    by (auto simp: array_of_def remove_record_def)
  ultimately show ?thesis using own unfolding ownership_ok_def by metis
qed

lemma ownership_deactivated_state:
  assumes ok: "runtime_ok rt" and d: "map_get (deactivations rt) d = Some (n, p, u)" "map_get (objects rt) n = Some r"
  shows "ownership_ok (deactivated_state opts d res n r rt) \<and> \<not> holds (deactivated_state opts d res n r rt) a m p"
proof -
  have life: "lifecycle_ok rt" and own: "ownership_ok rt" and hub: "hub_ok (rt_hub rt)"
    using ok by (auto simp: runtime_ok_def ownership_ok_def)
  note listed = lifecycle_deactivation(2) [OF life d(1)]
  have st: "pr_status r = Deactivating" using lifecycle_deactivation(3) [OF life d(1)] d(2) by (simp add: status_of_def)
  let ?rt = "deactivated_state opts d res n r rt"
  have hub': "rt_hub ?rt = rollback opts (own_disposers rt r) (rt_hub rt)" by (simp add: deactivated_state_def)
  have mine: "b = c" if "pr_disposers r = Some c" "holds rt b n q" for b c q
    using that st d(2) no_activation [OF life d(2)] by (auto simp: holds_def)
  have "ownership_ok ?rt"
  proof (rule ownership_update [OF own, where nx = n])
    show "hub_ok (rt_hub ?rt)" using hub by (simp add: hub' hub_ok_rollback)
    show "holds ?rt b k q \<and> set (array_of rt b) \<subseteq> set (array_of ?rt b)" if "holds rt b k q" "k \<noteq> n" for b k q
      using that by (simp add: holds_def deactivated_state_def array_of_def)
    show "owns (rt_hub rt) x q \<or> (\<exists>b k. x \<in> set (array_of ?rt b) \<and> holds ?rt b k q)" if "owns (rt_hub ?rt) x q" for x q
      using owns_rollback [OF hub] that by (auto simp: hub')
    show "\<exists>b k. x \<in> set (array_of ?rt b) \<and> holds ?rt b k q"
      if o: "owns (rt_hub ?rt) x q" and x: "x \<in> set (array_of rt b)" and h: "holds rt b n q" for x b q
    proof -
      have "pr_disposers r = Some b" using h d(2) st no_activation [OF life d(2)] by (auto simp: holds_def)
      then have "own_disposers rt r = array_of rt b" by (simp add: own_disposers_def)
      then show ?thesis using owns_rollback [OF hub, of opts "array_of rt b" x q] o x by (simp add: hub')
    qed
  qed
  moreover have "\<not> holds ?rt a m p"
    using listed d(2) no_activation [OF life d(2)] st
    by (auto simp: holds_def deactivated_state_def deactivated_def split: sum.splits)
  ultimately show ?thesis ..
qed

lemma ownership_deactivated:
  assumes ok: "runtime_ok rt"
  shows "ownership_ok (snd (deactivate_finish opts d res rt))"
proof (cases rule: deactivate_finish_cases [of opts d res rt])
  case idle
  then show ?thesis using ok by (simp add: runtime_ok_def)
next
  case (ended n p u r)
  note state = ownership_deactivated_state [OF ok ended(1,2)]
  show ?thesis unfolding ended(3) using state by (simp add: ownership_remove)
qed

lemma ownership_unregister:
  assumes ok: "runtime_ok rt" and idle: "\<forall>n r. record_of rt p = Some (n, r) \<longrightarrow> pr_status r \<notin> {Activating, Deactivating}"
  shows "ownership_ok (snd (unregister_start p rt))"
proof (cases "record_of rt p")
  case None
  then show ?thesis using ok by (simp add: unregister_start_def runtime_ok_def)
next
  case (Some x)
  obtain n r where x: "x = (n, r)" by (cases x)
  have life: "lifecycle_ok rt" and own: "ownership_ok rt" using ok by (auto simp: runtime_ok_def)
  show ?thesis
  proof (cases "pr_status r = Active")
    case True
    then show ?thesis using Some x ownership_deactivate [OF ok] by (simp add: unregister_start_def)
  next
    case False
    then have "\<not> holds rt a m p" for a m
      using idle Some x holds_status [OF life, of a m p] by (auto simp: holds_def record_of_Some)
    then show ?thesis using own False Some x by (simp add: unregister_start_def ownership_remove)
  qed
qed

lemma listen_fields:
  assumes "listen l rt = Inr rt'"
  shows "objects rt' = objects rt" "records rt' = records rt" "activations rt' = activations rt"
    "deactivations rt' = deactivations rt" "next_call rt' = next_call rt" "next_object rt' = next_object rt"
    "arrays rt' = arrays rt" "rt_hub rt' = rt_hub rt"
  using assms by (auto simp: listen_def split: jsval.splits)

lemma lifecycle_handler:
  assumes "lifecycle_ok rt" and "context_register opts r a c f rt = Inr (d, rt')"
  shows "lifecycle_ok rt'"
proof -
  obtain h m where "rt' = rt\<lparr>rt_hub := h, arrays := m\<rparr>"
    using assms(2) by (auto simp: context_register_def simp del: contribute.simps split: if_splits sum.splits)
  then show ?thesis using assms(1) lifecycle_ok_cong [of rt' rt] by simp
qed

lemma runtime_ok_step: "rt_step opts rt rt' \<Longrightarrow> runtime_ok rt \<Longrightarrow> runtime_ok rt'"
proof (induction rule: rt_step.induct)
  case (rt_register pkg rt r rt')
  then show ?case using lifecycle_register ownership_register by (auto simp: runtime_ok_def)
next
  case (rt_activate rt p)
  then show ?case using ownership_activate by (simp add: runtime_ok_def lifecycle_activate)
next
  case (rt_handler rt n r a c f d rt')
  then show ?case using lifecycle_handler ownership_handler by (auto simp: runtime_ok_def)
next
  case (rt_unhandle rt t)
  then show ?case using ownership_unhandle lifecycle_ok_cong [of "rt\<lparr>rt_hub := run_disposer opts (Unhandle t) (rt_hub rt)\<rparr>" rt]
    by (simp add: runtime_ok_def del: run_disposer.simps)
next
  case (rt_activated rt a res)
  then show ?case using ownership_activated by (simp add: runtime_ok_def lifecycle_activated)
next
  case (rt_deactivate rt p)
  then show ?case using ownership_deactivate by (simp add: runtime_ok_def lifecycle_deactivate)
next
  case (rt_deactivated rt d res)
  then show ?case using ownership_deactivated by (simp add: runtime_ok_def lifecycle_deactivated)
next
  case (rt_unregister rt p)
  then show ?case using ownership_unregister lifecycle_unregister by (simp add: runtime_ok_def)
next
  case (rt_listen l rt rt')
  then show ?case using listen_fields [OF rt_listen(1)] lifecycle_ok_cong [of rt' rt] ownership_ok_cong [of rt' rt]
    by (simp add: runtime_ok_def)
qed

lemma runtime_ok_empty: "runtime_ok empty_runtime"
proof -
  have "\<not> owns empty_hub d p" for d p
    by (cases d) (simp_all add: reg_owns_def empty_hub_def empty_registry_def empty_commands_def)
  moreover have "hub_ok empty_hub"
    by (simp add: hub_ok_def empty_hub_def commands_ok_empty) (simp add: reg_ok_def empty_registry_def)
  moreover have "lifecycle_ok empty_runtime" by (rule lifecycle_okI) (simp_all add: empty_runtime_def)
  ultimately show ?thesis by (simp add: runtime_ok_def ownership_ok_def) (simp add: empty_runtime_def)
qed

lemma runtime_ok_reachable: "rt_reachable opts rt \<Longrightarrow> runtime_ok rt"
  by (induction rule: rt_reachable.induct) (auto intro: runtime_ok_empty runtime_ok_step)

section \<open>What the runtime guarantees\<close>

text \<open>The plugins with an entry in one of the registries.\<close>

definition contributors :: "hub \<Rightarrow> jstring list" where
  "contributors h = map ce_pluginID (map_values (entries (hub_commands h)))
     @ map re_pluginID (map_values (entries (hub_routes h)))
     @ map ne_pluginID (map_values (entries (hub_navigation h)))"

lemma reg_owner_exists:
  assumes ok: "reg_ok r" and v: "v \<in> set (map_values (entries r))"
  shows "\<exists>t. reg_owns owner r t (owner v)"
proof -
  obtain k where k: "map_get (entries r) k = Some v"
    using ok v map_values_set_iff [of "entries r" v] by (auto simp: reg_ok_def)
  then have "k \<in> set (map snd (live r))" using ok map_get_in_set [OF k] by (force simp: reg_ok_def)
  then obtain t where "(t, k) \<in> set (live r)" by auto
  then have "map_get (live r) t = Some k" using ok by (intro map_get_of_in_set) (auto simp: reg_ok_def)
  then have "reg_owns owner r t (owner v)" using k by (simp add: reg_owns_def)
  then show ?thesis ..
qed

lemma contributor_owns:
  assumes "hub_ok h" and "p \<in> set (contributors h)"
  shows "\<exists>d. owns h d p"
proof -
  have ok: "reg_ok (hub_commands h)" "reg_ok (hub_routes h)" "reg_ok (hub_navigation h)"
    using assms(1) by (auto simp: hub_ok_def commands_ok_def)
  consider v where "v \<in> set (map_values (entries (hub_commands h)))" "p = ce_pluginID v"
    | v where "v \<in> set (map_values (entries (hub_routes h)))" "p = re_pluginID v"
    | v where "v \<in> set (map_values (entries (hub_navigation h)))" "p = ne_pluginID v"
    using assms(2) by (auto simp: contributors_def)
  then show ?thesis
  proof cases
    case (1 v)
    then show ?thesis using reg_owner_exists [OF ok(1) 1(1), of ce_pluginID] owns.simps(1) by metis
  next
    case (2 v)
    then show ?thesis using reg_owner_exists [OF ok(2) 2(1), of re_pluginID] owns.simps(2) by metis
  next
    case (3 v)
    then show ?thesis using reg_owner_exists [OF ok(3) 3(1), of ne_pluginID] owns.simps(3) by metis
  qed
qed


subsection \<open>Failed activations\<close>

lemma run_script_state:
  assumes "run_script opts r a hs res rt = (res', rt')"
  shows "\<exists>cs. contribute_all opts (mf_id (pr_manifest r)) cs (rt_hub rt) (array_of rt a) = (rt_hub rt', array_of rt' a, None)
      \<and> activations rt' = activations rt \<and> objects rt' = objects rt"
  using assms
proof (induction hs arbitrary: rt)
  case Nil
  then show ?case by (auto intro: exI [of _ "[]"])
next
  case (Cons h hs)
  obtain c f where h: "h = (c, f)" by (cases h)
  show ?case
  proof (cases "context_register opts r a c f rt")
    case (Inl e)
    then show ?thesis using Cons.prems h by (auto intro: exI [of _ "[]"])
  next
    case (Inr x)
    obtain d rt1 where x: "x = (d, rt1)" by (cases x)
    obtain g where g: "contribute opts (mf_id (pr_manifest r)) (ContributeHandler c f) (rt_hub rt) = Inr (d, g)"
      "rt1 = rt\<lparr>rt_hub := g, arrays := map_set (arrays rt) a (array_of rt a @ [d])\<rparr>"
      using Inr x by (auto simp: context_register_def simp del: contribute.simps split: if_splits sum.splits)
    have "array_of rt1 a = array_of rt a @ [d]" "rt_hub rt1 = g" by (simp_all add: g(2) array_of_def js_map)
    moreover obtain cs where "contribute_all opts (mf_id (pr_manifest r)) cs (rt_hub rt1) (array_of rt1 a)
        = (rt_hub rt', array_of rt' a, None)" "activations rt' = activations rt1" "objects rt' = objects rt1"
      using Cons.IH [of rt1] Cons.prems h Inr x by auto
    ultimately show ?thesis using g by (intro exI [of _ "ContributeHandler c f # cs"]) (simp del: contribute.simps)
  qed
qed

lemma activate_not_suspended:
  assumes "\<And>a. fst (activate_start opts p rt) \<noteq> Suspended a"
  shows "activate opts scripts p rt = activate_start opts p rt"
proof -
  obtain out rt1 where o: "activate_start opts p rt = (out, rt1)" by (metis surj_pair)
  then show ?thesis using assms by (cases out) (auto simp: activate_def)
qed

lemma failed_activate_core:
  assumes ok: "runtime_ok rt" and run: "activate opts scripts p rt = (Thrown e, rt')"
  shows "hub_core (rt_hub rt') = hub_core (rt_hub rt)"
proof -
  have life: "lifecycle_ok rt" and hub: "hub_ok (rt_hub rt)" using ok by (auto simp: runtime_ok_def ownership_ok_def)
  show ?thesis
  proof (cases rule: activate_start_cases [of opts p rt])
    case refused
    then have "activate opts scripts p rt = activate_start opts p rt" by (intro activate_not_suspended)
    then show ?thesis using run refused(1) by (metis snd_conv)
  next
    case (failed n r h ds x)
    then have "activate opts scripts p rt = activate_start opts p rt"
      using fst_activation_failed [of opts p n ds x "(started n rt)\<lparr>rt_hub := h\<rparr>"]
      by (intro activate_not_suspended) auto
    then show ?thesis using run failed_start_core [OF hub, of opts p e rt'] by simp
  next
    case (suspended n r h ds)
    let ?a = "next_call rt"
    let ?rt = "(started n rt)\<lparr>rt_hub := h, arrays := map_set (arrays rt) ?a ds,
      activations := map_set (activations rt) ?a (n, p)\<rparr>"
    have r: "map_get (records rt) p = Some n" "map_get (objects rt) n = Some r" using suspended(1) by (auto simp: record_of_Some)
    have id: "mf_id (pr_manifest r) = p" using lifecycle_record [OF life r(1)] r(2) by (metis option.inject)
    obtain r1 where r1: "record_of ?rt p = Some (n, r1)" "pr_manifest r1 = pr_manifest r"
      using r by (auto simp: record_of_Some started_def)
    obtain res rt2 where script: "run_script opts r1 ?a (sc_handlers (scripts p)) (sc_result (scripts p)) ?rt = (res, rt2)"
      by (metis surj_pair)
    have fin: "activate_finish opts ?a res rt2 = (Thrown e, rt')"
      using run suspended(4) r1 script by (simp add: activate_def)
    have arr: "array_of ?rt ?a = ds" by (simp add: array_of_def js_map)
    obtain cs1 where c1: "contribute_all opts p cs1 h ds = (rt_hub rt2, array_of rt2 ?a, None)"
        "activations rt2 = activations ?rt" "objects rt2 = objects ?rt"
      using run_script_state [OF script] id r1 arr by auto
    obtain cs where "contribute_all opts p cs (rt_hub rt) [] = (h, ds, None)"
      using suspended(3) by (rule contributeAll_run) simp
    then have all: "contribute_all opts p (cs @ cs1) (rt_hub rt) [] = (rt_hub rt2, array_of rt2 ?a, None)"
      using c1(1) by (simp add: contribute_all_append)
    have "rt_hub rt' = rollback opts (array_of rt2 ?a) (rt_hub rt2)"
    proof (cases rule: activate_finish_cases [of opts ?a res rt2])
      case idle
      have "map_get (activations rt2) ?a = Some (n, p)" using c1(2) by (simp add: js_map)
      moreover have "map_get (objects rt2) n \<noteq> None" using c1(3) r by (simp add: started_def)
      ultimately show ?thesis using fin
        by (auto simp: activate_finish_def Let_def activation_failed_def split: sum.splits option.splits)
    next
      case (failed m q x y)
      then show ?thesis using fin activation_failed_simps(1) by (metis (no_types, lifting) runtime.ext_inject runtime.surjective runtime.update_convs(6) snd_conv)
    next
      case (active m q x)
      then show ?thesis using fin by simp
    qed
    then show ?thesis using rollback_contribute_all [OF hub all] by simp
  qed
qed

text \<open>C2: an activation that throws, at whatever point of declaring commands, building the context,
  registering routes and navigation, running the plugin or checking its handlers, leaves the
  entries of all three registries exactly as they were before it.\<close>

theorem failed_activation_restores:
  assumes "rt_reachable opts rt" and "activate opts scripts p rt = (Thrown e, rt')"
  shows "entries (hub_commands (rt_hub rt')) = entries (hub_commands (rt_hub rt))
    \<and> entries (hub_routes (rt_hub rt')) = entries (hub_routes (rt_hub rt))
    \<and> entries (hub_navigation (rt_hub rt')) = entries (hub_navigation (rt_hub rt))"
  using failed_activate_core [OF runtime_ok_reachable [OF assms(1)] assms(2)]
  by (simp add: hub_core_def reg_core_def command_core_def)

text \<open>C3: when the awaited activation of a plugin returns, it did not throw, the record is reported
  active, and every command of its manifest has a handler.\<close>

theorem activated_has_handlers:
  assumes "activate_finish opts a res rt = (Returned pub, rt')"
  shows "res = Inr () \<and> pub_status pub = Active
    \<and> (\<forall>c \<in> set (mf_commands (pub_manifest pub)). hasHandler (hub_commands (rt_hub rt')) (cd_id c))"
proof (cases rule: activate_finish_cases [of opts a res rt])
  case idle
  then show ?thesis using assms
    by (auto simp: activate_finish_def activation_failed_def publicRecord_def find_None_iff Let_def
        split: option.splits sum.splits)
next
  case (failed n p r e)
  then show ?thesis using assms fst_activation_failed by (metis fst_conv outcome.distinct(3))
next
  case (active n p r)
  moreover have "res = Inr ()"
    using assms active by (cases res) (auto simp: activate_finish_def activation_failed_def Let_def)
  ultimately show ?thesis using assms by (auto simp: publicRecord_def)
qed

section \<open>Permissions of a plugin\<close>

text \<open>With a host service whose \<open>require\<close> returns exactly if its \<open>has\<close> is true, and for permissions
  that are non-empty strings, a plugin's \<open>require\<close> returns exactly if its \<open>has\<close> is true, and both
  refuse every permission its manifest does not declare.\<close>

theorem context_permissions_agree:
  assumes host: "\<And>ps. is_ok (req ps) \<longleftrightarrow> truthy (has ps)"
    and items: "\<forall>p \<in> set (permission_items v). truthy p"
  shows "(is_ok (context_require m (Some req) v) \<longleftrightarrow> context_has m (Some has) v)
    \<and> ((\<exists>p \<in> set (permission_items v). \<not> declared_permission m p) \<longrightarrow> \<not> is_ok (context_require m (Some req) v))"
proof (cases "List.find (\<lambda>p. \<not> declared_permission m p) (permission_items v)")
  case None
  then have "\<forall>p \<in> set (permission_items v). declared_permission m p" by (simp add: find_None_iff)
  then show ?thesis using None by (auto simp: context_require_def context_has_def Let_def host list_ex_iff)
next
  case (Some p)
  then have "p \<in> set (permission_items v)" "\<not> declared_permission m p" by (auto simp: find_Some_iff)
  then show ?thesis using Some items by (auto simp: context_require_def context_has_def Let_def list_ex_iff)
qed

text \<open>the declared-permission check of \<open>require\<close> tests the first undeclared permission for truth, so
  an empty string in front switches it off: what follows goes to the host unchecked, although \<open>has\<close>
  refuses the same list.\<close>

theorem empty_permission_skips_check:
  assumes "\<not> declared_permission m (JStr [])"
  shows "context_require m (Some req) (JArr (JStr [] # ps)) = req (JStr [] # ps)
    \<and> \<not> context_has m (Some has) (JArr (JStr [] # ps))"
  using assms by (simp add: context_require_def context_has_def permission_items_def Let_def)

section \<open>A sample run\<close>

definition sample_services :: jsval where
  "sample_services = jobj (map (\<lambda>(name, methods). (name, jobj (map (\<lambda>m. (m, JFun 0)) methods)))
     PLUGIN_CONTEXT_SERVICE_METHODS)"

definition sample_options :: runtime_options where
  "sample_options = \<lparr>opt_environment = sample_environment,
     opt_scope = jobj [(''workspaceId'', jlit ''ws''), (''userId'', jlit ''u''), (''roles'', JArr [])],
     opt_services = sample_services, opt_groups = [lit ''workspace''], opt_lc = by_length,
     opt_evaluateEnablement = None\<rparr>"

definition sample_package :: jsval where
  "sample_package = jobj [(''manifest'', sample_manifest),
     (''plugin'', jobj [(''id'', jlit ''com.demo''), (''activate'', JFun 1)]),
     (''components'', jobj [(''Home'', JFun 5)])]"

definition sample_scripts :: "jstring \<Rightarrow> plugin_script" where
  "sample_scripts _ = \<lparr>sc_handlers = [(lit ''com.demo.open'', JFun 9)], sc_result = Inr ()\<rparr>"

definition loaded :: runtime where
  "loaded = snd (load sample_options sample_scripts True [sample_package] empty_runtime)"

lemma reachable_script:
  assumes "rt_reachable opts rt" and "map_get (objects rt) n = Some r" and "run_script opts r a hs res rt = (res', rt')"
  shows "rt_reachable opts rt'"
  using assms
proof (induction hs arbitrary: rt)
  case Nil
  then show ?case by simp
next
  case (Cons h hs)
  obtain c f where h: "h = (c, f)" by (cases h)
  show ?case
  proof (cases "context_register opts r a c f rt")
    case (Inl e)
    then show ?thesis using Cons.prems h by simp
  next
    case (Inr x)
    obtain d rt1 where x: "x = (d, rt1)" by (cases x)
    have step: "rt_reachable opts rt1" using rt_next [OF Cons.prems(1) rt_handler [OF Cons.prems(2) Inr [unfolded x]]] .
    have "objects rt1 = objects rt"
      using Inr x by (auto simp: context_register_def simp del: contribute.simps split: if_splits sum.splits)
    then show ?thesis using Cons.IH [OF step] Cons.prems(2,3) h Inr x by simp
  qed
qed

lemma reachable_activate: "rt_reachable opts rt \<Longrightarrow> rt_reachable opts (snd (activate opts scripts p rt))"
proof -
  assume "rt_reachable opts rt"
  then have start: "rt_reachable opts (snd (activate_start opts p rt))" by (blast intro: rt_next rt_activate)
  obtain out rt1 where o: "activate_start opts p rt = (out, rt1)" by (metis surj_pair)
  show ?thesis
  proof (cases "\<exists>a n r. out = Suspended a \<and> record_of rt1 p = Some (n, r)")
    case True
    then obtain a n r where a: "out = Suspended a" "record_of rt1 p = Some (n, r)" by blast
    obtain res rt2 where s: "run_script opts r a (sc_handlers (scripts p)) (sc_result (scripts p)) rt1 = (res, rt2)"
      by (metis surj_pair)
    have "rt_reachable opts rt2" using reachable_script [OF _ _ s] start o a(2) by (auto simp: record_of_Some)
    then show ?thesis using o a s by (simp add: activate_def) (blast intro: rt_next rt_activated)
  next
    case False
    then show ?thesis using start o by (cases out) (auto simp: activate_def split: option.splits)
  qed
qed

lemma reachable_register_all: "rt_reachable opts rt \<Longrightarrow> rt_reachable opts (snd (snd (register_all opts ps rt)))"
proof (induction ps arbitrary: rt)
  case Nil
  then show ?case by simp
next
  case (Cons p ps)
  show ?case
  proof (cases "registerPackage opts p rt")
    case (Inl e)
    then show ?thesis using Cons.prems by simp
  next
    case (Inr x)
    obtain r rt1 where x: "x = (r, rt1)" by (cases x)
    have "rt_reachable opts rt1" using Cons.prems Inr x by (blast intro: rt_next rt_register)
    then show ?thesis using Cons.IH Inr x by (simp split: prod.splits) (metis snd_conv)
  qed
qed

lemma reachable_activate_all: "rt_reachable opts rt \<Longrightarrow> rt_reachable opts (snd (activate_all opts scripts ps rt))"
proof (induction ps arbitrary: rt)
  case Nil
  then show ?case by simp
next
  case (Cons p ps)
  have "rt_reachable opts (snd (activate_all opts scripts ps rt))"
    "rt_reachable opts (snd (activate_all opts scripts ps (snd (activate opts scripts (pub_id p) rt))))"
    using Cons reachable_activate by auto
  then show ?case by (auto split: prod.splits)
qed

lemma reachable_load: "rt_reachable opts rt \<Longrightarrow> rt_reachable opts (snd (load opts scripts act ps rt))"
proof -
  assume start: "rt_reachable opts rt"
  obtain e rs rt1 where r: "register_all opts ps rt = (e, rs, rt1)" by (metis prod_cases3)
  have 1: "rt_reachable opts rt1" using reachable_register_all [OF start, of ps] r by simp
  have 2: "rt_reachable opts (snd (activate_all opts scripts rs rt1))" using 1 by (rule reachable_activate_all)
  show ?thesis using r 1 2 by (cases e) (auto simp: load_def split: prod.splits)
qed

lemma loaded_reachable: "rt_reachable sample_options loaded"
  unfolding loaded_def by (rule reachable_load) (rule rt_start)

lemma loaded_state: "contributors (rt_hub loaded) = [lit ''com.demo'', lit ''com.demo'', lit ''com.demo'']
    \<and> map pub_status (list_records loaded) = [Active]"
  by code_simp


definition registered :: runtime where
  "registered = snd (load sample_options sample_scripts False [sample_package] empty_runtime)"

lemma registered_reachable: "rt_reachable sample_options registered"
  unfolding registered_def by (rule reachable_load) (rule rt_start)

definition failing_scripts :: "jstring \<Rightarrow> plugin_script" where
  "failing_scripts _ = \<lparr>sc_handlers = [(lit ''com.demo.open'', JFun 9)], sc_result = Inl (PluginThrew (lit ''boom''))\<rparr>"

lemma failing_run: "case activate sample_options failing_scripts (lit ''com.demo'') registered of
    (Thrown e, rt) \<Rightarrow> map pub_error (list_records rt) = [lit ''boom''] \<and> length (rt_told rt) = 0 | _ \<Rightarrow> False"
  by code_simp

theorem failed_activation_restores_witness:
  "\<exists>e rt. rt_reachable sample_options registered
     \<and> activate sample_options failing_scripts (lit ''com.demo'') registered = (Thrown e, rt)
     \<and> entries (hub_commands (rt_hub rt)) = entries (hub_commands (rt_hub registered))"
proof -
  obtain e rt where run: "activate sample_options failing_scripts (lit ''com.demo'') registered = (Thrown e, rt)"
    using failing_run by (auto split: prod.splits outcome.splits)
  then show ?thesis using failed_activation_restores [OF registered_reachable run] registered_reachable by blast
qed

subsection \<open>Unregistering a plugin while it activates\<close>

definition orphaned :: runtime where
  "orphaned = (case activate_start sample_options (lit ''com.demo'') registered of (_, rt1) \<Rightarrow>
     (case unregister_start (lit ''com.demo'') rt1 of (_, rt2) \<Rightarrow>
     (case map_get (objects rt2) 0 of None \<Rightarrow> rt2 | Some r \<Rightarrow>
     (case context_register sample_options r 0 (lit ''com.demo.open'') (JFun 9) rt2 of Inl _ \<Rightarrow> rt2 | Inr (_, rt3) \<Rightarrow>
     snd (activate_finish sample_options 0 (Inr ()) rt3)))))"


section \<open>Witnesses\<close>

definition sample_record :: plugin_record where
  "sample_record = (let m = \<lparr>mf_protocol_version = WORKBENCH_PLUGIN_PROTOCOL, mf_id = lit ''acme.tools'', mf_name = lit ''Acme'',
       mf_version = lit ''1.0.0'', mf_entry = lit ''./a.js'', mf_surfaces = [], mf_workbench_api = lit ''*'',
       mf_design_system = lit ''*'', mf_permissions = [lit ''tasks.run''], mf_navigation = [], mf_routes = [],
       mf_commands = map (\<lambda>e. ce_command e) (map_values (entries sample_commands)),
       mf_description = None, mf_configuration = None\<rparr> in
     \<lparr>pr_manifest = m, pr_compatibility = \<lparr>cp_compatible = True, cp_manifest = m, cp_reasons = []\<rparr>,
      pr_enablement = \<lparr>en_enabled = True, en_policy = \<lparr>ep_defaultEnabled = True, ep_organizations = [],
        ep_workspaces = [], ep_roles = [], ep_excludedOrganizations = [], ep_excludedWorkspaces = [],
        ep_excludedRoles = []\<rparr>, en_reasons = []\<rparr>,
      pr_plugin = JUndef, pr_components = jobj [], pr_status = Activating, pr_error = [], pr_disposers = None\<rparr>)"

definition suspended_run :: runtime where
  "suspended_run = empty_runtime\<lparr>objects := [(0, sample_record)], next_object := 1, records := [(lit ''acme.tools'', 0)],
     next_call := 1, activations := [(0, 0, lit ''acme.tools'')],
     rt_hub := empty_hub\<lparr>hub_commands := sample_commands\<rparr>\<rparr>"

theorem activated_has_handlers_witness:
  "\<exists>pub rt. activate_finish sample_options 0 (Inr ()) suspended_run = (Returned pub, rt)
     \<and> mf_commands (pub_manifest pub) \<noteq> []
     \<and> (\<forall>c \<in> set (mf_commands (pub_manifest pub)). hasHandler (hub_commands (rt_hub rt)) (cd_id c))"
proof -
  have "case activate_finish sample_options 0 (Inr ()) suspended_run of
      (Returned pub, _) \<Rightarrow> length (mf_commands (pub_manifest pub)) = 1 | _ \<Rightarrow> False" by code_simp
  then obtain pub rt where run: "activate_finish sample_options 0 (Inr ()) suspended_run = (Returned pub, rt)"
      "length (mf_commands (pub_manifest pub)) = 1"
    by (auto split: prod.splits outcome.splits)
  have "mf_commands (pub_manifest pub) \<noteq> []" using run(2) by auto
  then show ?thesis using activated_has_handlers [OF run(1)] run(1) by blast
qed

definition only_read :: "jsval list \<Rightarrow> jsval" where
  "only_read ps = JBool (ps = [jlit ''tasks.run''])"

definition require_read :: "jsval list \<Rightarrow> runtime_error + jsval" where
  "require_read ps = (if ps = [jlit ''tasks.run''] then Inr (JBool True) else Inl (PluginThrew []))"

theorem context_permissions_agree_witness:
  "is_ok (context_require (pr_manifest sample_record) (Some require_read) (jlit ''tasks.run''))
   \<and> context_has (pr_manifest sample_record) (Some only_read) (jlit ''tasks.run'')"
proof -
  have "context_has (pr_manifest sample_record) (Some only_read) (jlit ''tasks.run'')"
    by (simp add: context_has_def permission_items_def declared_permission_def sample_record_def only_read_def Let_def)
  moreover have "is_ok (require_read ps) \<longleftrightarrow> truthy (only_read ps)" for ps
    by (simp add: require_read_def only_read_def)
  ultimately show ?thesis
    using context_permissions_agree [of require_read only_read "jlit ''tasks.run''" "pr_manifest sample_record"]
    by (simp add: permission_items_def lit_def)
qed

theorem empty_permission_skips_check_witness:
  "context_require (pr_manifest sample_record) (Some (\<lambda>ps. Inr (JArr ps))) (JArr [JStr [], jlit ''admin.all''])
     = Inr (JArr [JStr [], jlit ''admin.all''])
   \<and> \<not> context_has (pr_manifest sample_record) (Some only_read) (JArr [JStr [], jlit ''admin.all''])"
proof -
  have "\<not> declared_permission (pr_manifest sample_record) (JStr [])"
    by (simp add: declared_permission_def sample_record_def Let_def lit_def)
  then show ?thesis
    using empty_permission_skips_check [of "pr_manifest sample_record" "\<lambda>ps. Inr (JArr ps)" "[jlit ''admin.all'']" only_read]
    by simp
qed

end
