(* ===== verification/Dialog_Service.thy ===== *)
theory Dialog_Service
  imports Workbench_Contracts
begin

text \<open>
  The dialog service (\<open>apps/workbench/src/workbench/dialogService.js\<close>): requests for a confirmation, a
  form, a choice or a registered custom dialog are shown one at a time, in the order in which they
  were made.

  Each request is a promise; the field \<open>settled\<close> is the log of the promises that have been resolved
  or rejected, by request number. The locale \<open>fifo\<close> is the contract of the queue behind the
  service, with the numbers of the waiting requests as its abstraction.
\<close>

datatype dialog_error = DialogError string jstring

section \<open>Options\<close>

definition dialog_object :: "jsval \<Rightarrow> jstring \<Rightarrow> dialog_error + jsval" where
  "dialog_object v field = (if is_object v then Inr v
     else Inl (DialogError ''invalid_options'' (field @ lit '' must be an object'')))"

definition requiredText :: "jsval \<Rightarrow> jstring \<Rightarrow> dialog_error + jstring" where
  "requiredText v field = (if string_text v = []
     then Inl (DialogError ''invalid_options'' (field @ lit '' must be a non-empty string''))
     else Inr (string_text v))"

definition optionalText :: "jsval \<Rightarrow> jstring \<Rightarrow> dialog_error + jstring" where
  "optionalText v field = (if v = JUndef \<or> v = JNull \<or> v = JStr [] then Inr [] else requiredText v field)"

definition text_or :: "jstring \<Rightarrow> jstring \<Rightarrow> jstring" where
  "text_or s d = (if s = [] then d else s)"

definition dismissible :: "jsval \<Rightarrow> bool" where
  "dismissible v = (if v = JUndef then True else truthy v)"

definition confirmTones :: "jstring list" where
  "confirmTones = map lit [''default'', ''warning'', ''danger'']"

text \<open>The Chinese button labels, by their code units.\<close>

definition label_confirm :: jstring where "label_confirm = [30830, 35748]"

definition label_cancel :: jstring where "label_cancel = [21462, 28040]"

definition label_save :: jstring where "label_save = [20445, 23384]"

definition label_select :: jstring where "label_select = [36873, 25321]"

definition label_search :: jstring where "label_search = [25628, 32034, 46, 46, 46]"

definition label_no_match :: jstring where "label_no_match = [27809, 26377, 21305, 37197, 39033]"

record confirm_options =
  co_title :: jstring
  co_description :: jstring
  co_detail :: jstring
  co_confirmLabel :: jstring
  co_cancelLabel :: jstring
  co_tone :: jstring
  co_dismissible :: bool

definition confirmOptions :: "jsval \<Rightarrow> dialog_error + confirm_options" where
  "confirmOptions inp =
     andThen (dialog_object inp (lit ''confirm options'')) (\<lambda>v.
     andThen (optionalText (dot v ''tone'') (lit ''confirm options.tone'')) (\<lambda>tone0.
     (let tone = text_or tone0 (lit ''default'') in
      andThen (check (tone \<in> set confirmTones)
         (DialogError ''invalid_options'' (lit ''confirm options.tone must be default, warning, or danger''))) (\<lambda>_.
      andThen (requiredText (dot v ''title'') (lit ''confirm options.title'')) (\<lambda>title.
      andThen (optionalText (dot v ''description'') (lit ''confirm options.description'')) (\<lambda>description.
      andThen (optionalText (dot v ''detail'') (lit ''confirm options.detail'')) (\<lambda>detail.
      andThen (optionalText (dot v ''confirmLabel'') (lit ''confirm options.confirmLabel'')) (\<lambda>confirmLabel.
      andThen (optionalText (dot v ''cancelLabel'') (lit ''confirm options.cancelLabel'')) (\<lambda>cancelLabel.
      Inr \<lparr>co_title = title, co_description = description, co_detail = detail,
           co_confirmLabel = text_or confirmLabel label_confirm, co_cancelLabel = text_or cancelLabel label_cancel,
           co_tone = tone, co_dismissible = dismissible (dot v ''dismissible'')\<rparr>)))))))))"

record form_options =
  fo_title :: jstring
  fo_description :: jstring
  fo_schema :: jsval
  fo_initialValues :: jsval
  fo_submitLabel :: jstring
  fo_cancelLabel :: jstring
  fo_dismissible :: bool

definition formOptions :: "jsval \<Rightarrow> dialog_error + form_options" where
  "formOptions inp =
     andThen (dialog_object inp (lit ''form options'')) (\<lambda>v.
     andThen (dialog_object (dot v ''schema'') (lit ''form options.schema'')) (\<lambda>schema.
     andThen (if dot v ''initialValues'' = JUndef then Inr (jobj [])
              else dialog_object (dot v ''initialValues'') (lit ''form options.initialValues'')) (\<lambda>initialValues.
     andThen (requiredText (dot v ''title'') (lit ''form options.title'')) (\<lambda>title.
     andThen (optionalText (dot v ''description'') (lit ''form options.description'')) (\<lambda>description.
     andThen (optionalText (dot v ''submitLabel'') (lit ''form options.submitLabel'')) (\<lambda>submitLabel.
     andThen (optionalText (dot v ''cancelLabel'') (lit ''form options.cancelLabel'')) (\<lambda>cancelLabel.
     Inr \<lparr>fo_title = title, fo_description = description, fo_schema = schema, fo_initialValues = initialValues,
          fo_submitLabel = text_or submitLabel label_save, fo_cancelLabel = text_or cancelLabel label_cancel,
          fo_dismissible = dismissible (dot v ''dismissible'')\<rparr>)))))))"

record choice_item =
  ci_value :: jstring
  ci_label :: jstring
  ci_description :: jstring
  ci_keywords :: jstring
  ci_disabled :: bool

record choice_options =
  ch_title :: jstring
  ch_description :: jstring
  ch_items :: "choice_item list"
  ch_initialValue :: jstring
  ch_searchable :: bool
  ch_searchPlaceholder :: jstring
  ch_emptyMessage :: jstring
  ch_submitLabel :: jstring
  ch_cancelLabel :: jstring
  ch_dismissible :: bool

fun choice_items :: "jstring list \<Rightarrow> nat \<Rightarrow> jsval list \<Rightarrow> dialog_error + choice_item list" where
  "choice_items seen i [] = Inr []"
| "choice_items seen i (item # rest) =
     (let field = indexed (lit ''choice options.items'') i in
      andThen (dialog_object item field) (\<lambda>option.
      andThen (requiredText (dot option ''value'') (field @ lit ''.value'')) (\<lambda>v.
      andThen (check (v \<notin> set seen)
         (DialogError ''invalid_options'' (lit ''choice option value '' @ v @ lit '' is duplicated''))) (\<lambda>_.
      andThen (requiredText (dot option ''label'') (field @ lit ''.label'')) (\<lambda>label.
      andThen (optionalText (dot option ''description'') (field @ lit ''.description'')) (\<lambda>description.
      andThen (optionalText (dot option ''keywords'') (field @ lit ''.keywords'')) (\<lambda>keywords.
      andThen (choice_items (set_add seen v) (Suc i) rest) (\<lambda>items.
      Inr (\<lparr>ci_value = v, ci_label = label, ci_description = description, ci_keywords = keywords,
            ci_disabled = truthy (dot option ''disabled'')\<rparr> # items)))))))))"

definition choiceOptions :: "jsval \<Rightarrow> dialog_error + choice_options" where
  "choiceOptions inp =
     andThen (dialog_object inp (lit ''choice options'')) (\<lambda>v.
     andThen (check (array_items (dot v ''items'') \<noteq> [])
        (DialogError ''invalid_options'' (lit ''choice options.items must be a non-empty array''))) (\<lambda>_.
     andThen (choice_items [] 0 (array_items (dot v ''items''))) (\<lambda>items.
     (let enabled = filter (\<lambda>i. \<not> ci_disabled i) items in
      andThen (check (enabled \<noteq> [])
         (DialogError ''invalid_options'' (lit ''choice options.items must include an enabled item''))) (\<lambda>_.
      andThen (optionalText (dot v ''initialValue'') (lit ''choice options.initialValue'')) (\<lambda>requested.
      andThen (requiredText (dot v ''title'') (lit ''choice options.title'')) (\<lambda>title.
      andThen (optionalText (dot v ''description'') (lit ''choice options.description'')) (\<lambda>description.
      andThen (optionalText (dot v ''searchPlaceholder'') (lit ''choice options.searchPlaceholder'')) (\<lambda>placeholder.
      andThen (optionalText (dot v ''emptyMessage'') (lit ''choice options.emptyMessage'')) (\<lambda>emptyMessage.
      andThen (optionalText (dot v ''submitLabel'') (lit ''choice options.submitLabel'')) (\<lambda>submitLabel.
      andThen (optionalText (dot v ''cancelLabel'') (lit ''choice options.cancelLabel'')) (\<lambda>cancelLabel.
      Inr \<lparr>ch_title = title, ch_description = description, ch_items = items,
           ch_initialValue = (if list_ex (\<lambda>i. ci_value i = requested) enabled then requested
                              else ci_value (hd enabled)),
           ch_searchable = (if dot v ''searchable'' = JUndef then length items > 8 else truthy (dot v ''searchable'')),
           ch_searchPlaceholder = text_or placeholder label_search,
           ch_emptyMessage = text_or emptyMessage label_no_match,
           ch_submitLabel = text_or submitLabel label_select, ch_cancelLabel = text_or cancelLabel label_cancel,
           ch_dismissible = dismissible (dot v ''dismissible'')\<rparr>))))))))))))"

record custom_options =
  cu_dialogID :: jstring
  cu_renderer :: nat
  cu_input :: jsval
  cu_title :: jstring
  cu_description :: jstring
  cu_dismissible :: bool

definition customOptions :: "jstring \<Rightarrow> nat \<Rightarrow> jsval \<Rightarrow> jsval \<Rightarrow> dialog_error + custom_options" where
  "customOptions dialogID renderer inp options =
     andThen (if options = JUndef then Inr (jobj []) else dialog_object options (lit ''dialog options'')) (\<lambda>v.
     andThen (optionalText (dot v ''title'') (lit ''dialog options.title'')) (\<lambda>title.
     andThen (optionalText (dot v ''description'') (lit ''dialog options.description'')) (\<lambda>description.
     Inr \<lparr>cu_dialogID = dialogID, cu_renderer = renderer, cu_input = inp, cu_title = text_or title dialogID,
          cu_description = description, cu_dismissible = dismissible (dot v ''dismissible'')\<rparr>)))"

section \<open>The service\<close>

datatype request_kind =
    Confirm confirm_options
  | Form form_options
  | Choice choice_options
  | Custom custom_options

record request =
  rq_id :: jstring
  rq_number :: nat
  rq_kind :: request_kind

datatype settlement = Resolved jsval | Rejected dialog_error

record dialog_service =
  active :: "request option"
  counter :: nat
  listening :: "nat list"
  queue :: "request list"
  renderers :: "(jstring, nat) jmap"
  settled :: "(nat \<times> settlement) list"
  shown :: "(nat \<times> request option) list"

definition new_service :: dialog_service where
  "new_service = \<lparr>active = None, counter = 0, listening = [], queue = [], renderers = [], settled = [], shown = []\<rparr>"

definition notify_active :: "dialog_service \<Rightarrow> dialog_service" where
  "notify_active s = s\<lparr>shown := shown s @ map (\<lambda>l. (l, active s)) (listening s)\<rparr>"

definition advance :: "dialog_service \<Rightarrow> dialog_service" where
  "advance s = notify_active (if active s = None
     then s\<lparr>active := (case queue s of [] \<Rightarrow> None | r # _ \<Rightarrow> Some r), queue := tl (queue s)\<rparr> else s)"

definition request_id :: "nat \<Rightarrow> jstring" where
  "request_id n = lit ''dialog_'' @ nat_str n"

definition enqueue :: "request_kind \<Rightarrow> dialog_service \<Rightarrow> dialog_service" where
  "enqueue kind s = (let n = Suc (counter s) in
     advance (s\<lparr>counter := n, queue := queue s @ [\<lparr>rq_id = request_id n, rq_number = n, rq_kind = kind\<rparr>]\<rparr>))"

text \<open>\<open>confirm\<close>, \<open>form\<close> and \<open>choice\<close> validate before they enqueue; \<open>open\<close> rejects its own promise for
  an unknown dialog. The result carries the number of the request whose promise is returned.\<close>

definition confirm :: "jsval \<Rightarrow> dialog_service \<Rightarrow> dialog_error + nat \<times> dialog_service" where
  "confirm options s = andThen (confirmOptions options) (\<lambda>co. Inr (Suc (counter s), enqueue (Confirm co) s))"

definition form :: "jsval \<Rightarrow> dialog_service \<Rightarrow> dialog_error + nat \<times> dialog_service" where
  "form options s = andThen (formOptions options) (\<lambda>fo. Inr (Suc (counter s), enqueue (Form fo) s))"

definition choice :: "jsval \<Rightarrow> dialog_service \<Rightarrow> dialog_error + nat \<times> dialog_service" where
  "choice options s = andThen (choiceOptions options) (\<lambda>ch. Inr (Suc (counter s), enqueue (Choice ch) s))"

definition open_dialog :: "jsval \<Rightarrow> jsval \<Rightarrow> jsval \<Rightarrow> dialog_service \<Rightarrow> dialog_error + nat \<times> dialog_service" where
  "open_dialog dialogID inp options s =
     andThen (requiredText dialogID (lit ''dialog id'')) (\<lambda>name.
     case map_get (renderers s) name of
       None \<Rightarrow> Inl (DialogError ''unknown_dialog'' (lit ''dialog '' @ name @ lit '' is not registered''))
     | Some renderer \<Rightarrow> andThen (customOptions name renderer inp options) (\<lambda>cu.
         Inr (Suc (counter s), enqueue (Custom cu) s)))"

definition register_dialog :: "jsval \<Rightarrow> jsval \<Rightarrow> dialog_service \<Rightarrow> dialog_error + (jstring \<times> nat) \<times> dialog_service" where
  "register_dialog dialogID renderer s =
     andThen (requiredText dialogID (lit ''dialog id'')) (\<lambda>name.
     andThen (check (identifierPattern name)
        (DialogError ''invalid_dialog_id'' (lit ''dialog id must be a lowercase namespaced identifier''))) (\<lambda>_.
     case renderer of
       JFun f \<Rightarrow> andThen (check (\<not> map_has (renderers s) name)
            (DialogError ''duplicate_dialog'' (lit ''dialog '' @ name @ lit '' is already registered''))) (\<lambda>_.
          Inr ((name, f), s\<lparr>renderers := map_set (renderers s) name f\<rparr>))
     | _ \<Rightarrow> Inl (DialogError ''invalid_renderer'' (lit ''dialog renderer must be a function''))))"

definition unregister_dialog :: "jstring \<times> nat \<Rightarrow> dialog_service \<Rightarrow> dialog_service" where
  "unregister_dialog d s = (if map_get (renderers s) (fst d) = Some (snd d)
     then s\<lparr>renderers := map_delete (renderers s) (fst d)\<rparr> else s)"

definition resolve :: "jstring \<Rightarrow> jsval \<Rightarrow> dialog_service \<Rightarrow> bool \<times> dialog_service" where
  "resolve requestID result s = (case active s of
       None \<Rightarrow> (False, s)
     | Some r \<Rightarrow> if rq_id r \<noteq> requestID then (False, s)
         else (True, advance (s\<lparr>active := None, settled := settled s @ [(rq_number r, Resolved result)]\<rparr>)))"

definition cancel_result :: "request \<Rightarrow> jsval" where
  "cancel_result r = (case rq_kind r of Confirm _ \<Rightarrow> JBool False | _ \<Rightarrow> JUndef)"

definition cancel :: "jstring \<Rightarrow> dialog_service \<Rightarrow> bool \<times> dialog_service" where
  "cancel requestID s = (case active s of
       None \<Rightarrow> (False, s)
     | Some r \<Rightarrow> if rq_id r \<noteq> requestID then (False, s) else resolve requestID (cancel_result r) s)"

text \<open>The request on screen and the ones behind it.\<close>

definition pending :: "dialog_service \<Rightarrow> request list" where
  "pending s = (case active s of None \<Rightarrow> [] | Some r \<Rightarrow> [r]) @ queue s"

definition dispose :: "jstring \<Rightarrow> dialog_service \<Rightarrow> dialog_service" where
  "dispose reason s = notify_active (s\<lparr>active := None, queue := [],
     settled := settled s @ map (\<lambda>r. (rq_number r, Rejected (DialogError ''disposed'' reason))) (pending s)\<rparr>)"

definition subscribe_dialogs :: "jsval \<Rightarrow> dialog_service \<Rightarrow> dialog_error + dialog_service" where
  "subscribe_dialogs listener s = (case listener of
       JFun l \<Rightarrow> Inr (s\<lparr>listening := set_add (listening s) l, shown := shown s @ [(l, active s)]\<rparr>)
     | _ \<Rightarrow> Inl (DialogError ''invalid_listener'' (lit ''dialog listener must be a function'')))"

definition unsubscribe_dialogs :: "nat \<Rightarrow> dialog_service \<Rightarrow> dialog_service" where
  "unsubscribe_dialogs l s = s\<lparr>listening := filter (\<lambda>l'. l' \<noteq> l) (listening s)\<rparr>"

section \<open>The contract of the queue\<close>

text \<open>Tickets are numbered from 1; \<open>log\<close> are the tickets served, in order, \<open>waiting\<close> the ones that wait.
  \<open>pop\<close> serves the ticket at the front or refuses; \<open>flush\<close> serves all.\<close>

locale fifo =
  fixes waiting :: "'s \<Rightarrow> nat list"
    and log :: "'s \<Rightarrow> nat list"
    and issued :: "'s \<Rightarrow> nat"
    and ok :: "'s \<Rightarrow> bool"
    and push :: "'k \<Rightarrow> 's \<Rightarrow> 's"
    and pop :: "'i \<Rightarrow> 's \<Rightarrow> bool \<times> 's"
    and flush :: "'e \<Rightarrow> 's \<Rightarrow> 's"
  assumes push: "ok s \<Longrightarrow> ok (push k s) \<and> waiting (push k s) = waiting s @ [Suc (issued s)]
        \<and> issued (push k s) = Suc (issued s) \<and> log (push k s) = log s"
    and pop: "ok s \<Longrightarrow> pop i s = (True, s') \<Longrightarrow>
        ok s' \<and> issued s' = issued s \<and> (\<exists>n. waiting s = n # waiting s' \<and> log s' = log s @ [n])"
    and refuse: "pop i s = (False, s') \<Longrightarrow> s' = s"
    and flush: "ok s \<Longrightarrow> ok (flush e s) \<and> issued (flush e s) = issued s \<and> waiting (flush e s) = []
        \<and> log (flush e s) = log s @ waiting s"
begin

text \<open>Every ticket is served or waits, once, and in the order of issue.\<close>

definition accounted :: "'s \<Rightarrow> bool" where
  "accounted s \<longleftrightarrow> ok s \<and> log s @ waiting s = [1..<Suc (issued s)]"

lemma accounted_push: "accounted s \<Longrightarrow> accounted (push k s)"
  using push [of s k] by (simp add: accounted_def flip: append_assoc)

lemma accounted_pop: "accounted s \<Longrightarrow> accounted (snd (pop i s))"
proof (cases "fst (pop i s)")
  case True
  then have "pop i s = (True, snd (pop i s))" by (metis prod.collapse)
  moreover assume "accounted s"
  ultimately show ?thesis using pop [of s i "snd (pop i s)"] by (auto simp: accounted_def)
next
  case False
  then have "pop i s = (False, snd (pop i s))" by (metis prod.collapse)
  then have "snd (pop i s) = s" by (rule refuse)
  moreover assume "accounted s"
  ultimately show ?thesis by simp
qed

lemma accounted_flush: "accounted s \<Longrightarrow> accounted (flush e s)"
  using flush [of s e] by (simp add: accounted_def)

lemma accounted_distinct: "accounted s \<Longrightarrow> distinct (log s @ waiting s)"
  by (metis accounted_def distinct_upt)

end

definition waiting_numbers :: "dialog_service \<Rightarrow> nat list" where
  "waiting_numbers s = map rq_number (pending s)"

definition settled_numbers :: "dialog_service \<Rightarrow> nat list" where
  "settled_numbers s = map fst (settled s)"

definition dialog_ok :: "dialog_service \<Rightarrow> bool" where
  "dialog_ok s \<longleftrightarrow> (active s = None \<longrightarrow> queue s = []) \<and> (\<forall>r \<in> set (pending s). rq_id r = request_id (rq_number r))"

lemma notify_active_fields [simp]:
  "active (notify_active s) = active s" "queue (notify_active s) = queue s" "counter (notify_active s) = counter s"
  "settled (notify_active s) = settled s" "pending (notify_active s) = pending s" "dialog_ok (notify_active s) = dialog_ok s"
  by (simp_all add: notify_active_def pending_def dialog_ok_def)

lemma advance_fields [simp]:
  "counter (advance s) = counter s" "settled (advance s) = settled s" "pending (advance s) = pending s"
  by (auto simp: advance_def pending_def split: list.splits)

lemma advance_ok: "(\<forall>r \<in> set (pending s). rq_id r = request_id (rq_number r)) \<Longrightarrow> dialog_ok (advance s)"
  by (cases "active s"; cases "queue s") (simp_all add: dialog_ok_def, simp_all add: advance_def)

lemma resolve_True:
  assumes "resolve i v s = (True, s')" and "dialog_ok s"
  obtains r where "active s = Some r" and "rq_id r = i" and "pending s = r # pending s'"
    and "settled s' = settled s @ [(rq_number r, Resolved v)]" and "counter s' = counter s" and "dialog_ok s'"
proof -
  obtain r where r: "active s = Some r" "rq_id r = i"
      "s' = advance (s\<lparr>active := None, settled := settled s @ [(rq_number r, Resolved v)]\<rparr>)"
    using assms(1) by (auto simp: resolve_def split: option.splits if_splits)
  have "pending (s\<lparr>active := None, settled := settled s @ [(rq_number r, Resolved v)]\<rparr>) = queue s"
    by (simp add: pending_def)
  moreover have "pending s = r # queue s" using r(1) by (simp add: pending_def)
  moreover have "dialog_ok s'" using assms(2) calculation unfolding r(3) by (intro advance_ok) (auto simp: dialog_ok_def)
  ultimately show thesis using that [OF r(1,2)] r(3) by simp
qed

interpretation dialogs: fifo waiting_numbers settled_numbers counter dialog_ok enqueue
  "\<lambda>(i, v). resolve i v" dispose
proof unfold_locales
  fix s :: dialog_service and k and i :: "jstring \<times> jsval" and s' and e
  show "dialog_ok s \<Longrightarrow> dialog_ok (enqueue k s) \<and> waiting_numbers (enqueue k s) = waiting_numbers s @ [Suc (counter s)]
      \<and> counter (enqueue k s) = Suc (counter s) \<and> settled_numbers (enqueue k s) = settled_numbers s"
    by (auto simp: enqueue_def Let_def waiting_numbers_def settled_numbers_def intro!: advance_ok)
      (auto simp: pending_def dialog_ok_def)
  show "dialog_ok s \<Longrightarrow> (case i of (i, v) \<Rightarrow> resolve i v) s = (True, s') \<Longrightarrow>
      dialog_ok s' \<and> counter s' = counter s \<and> (\<exists>n. waiting_numbers s = n # waiting_numbers s' \<and> settled_numbers s' = settled_numbers s @ [n])"
    by (cases i) (auto simp: waiting_numbers_def settled_numbers_def elim!: resolve_True)
  show "(case i of (i, v) \<Rightarrow> resolve i v) s = (False, s') \<Longrightarrow> s' = s"
    by (cases i) (auto simp: resolve_def split: option.splits if_splits)
  show "dialog_ok s \<Longrightarrow> dialog_ok (dispose e s) \<and> counter (dispose e s) = counter s \<and> waiting_numbers (dispose e s) = []
      \<and> settled_numbers (dispose e s) = settled_numbers s @ waiting_numbers s"
    by (auto simp: dispose_def waiting_numbers_def settled_numbers_def) (auto simp: dialog_ok_def pending_def)
qed

section \<open>Reachable services\<close>

inductive dialog_step :: "dialog_service \<Rightarrow> dialog_service \<Rightarrow> bool" where
  ask_confirm: "confirm options s = Inr (n, s') \<Longrightarrow> dialog_step s s'"
| ask_form: "form options s = Inr (n, s') \<Longrightarrow> dialog_step s s'"
| ask_choice: "choice options s = Inr (n, s') \<Longrightarrow> dialog_step s s'"
| ask_custom: "open_dialog i inp options s = Inr (n, s') \<Longrightarrow> dialog_step s s'"
| answer: "dialog_step s (snd (resolve i v s))"
| dismiss_dialog: "dialog_step s (snd (cancel i s))"
| shut_down: "dialog_step s (dispose reason s)"
| add_renderer: "register_dialog i f s = Inr (d, s') \<Longrightarrow> dialog_step s s'"
| remove_renderer: "dialog_step s (unregister_dialog d s)"
| listen_in: "subscribe_dialogs l s = Inr s' \<Longrightarrow> dialog_step s s'"
| listen_out: "dialog_step s (unsubscribe_dialogs l' s)"

inductive dialog_reachable :: "dialog_service \<Rightarrow> bool" where
  fresh_service: "dialog_reachable new_service"
| dialog_next: "dialog_reachable s \<Longrightarrow> dialog_step s s' \<Longrightarrow> dialog_reachable s'"

lemma accounted_cong:
  assumes "active s' = active s" "queue s' = queue s" "counter s' = counter s" "settled s' = settled s"
  shows "dialogs.accounted s' = dialogs.accounted s"
  using assms by (simp add: dialogs.accounted_def waiting_numbers_def settled_numbers_def pending_def dialog_ok_def)

lemma cancel_resolve: "snd (cancel i s) = s \<or> (\<exists>v. snd (cancel i s) = snd (resolve i v s))"
  by (auto simp: cancel_def split: option.splits)

lemma accounted_step: "dialog_step s s' \<Longrightarrow> dialogs.accounted s \<Longrightarrow> dialogs.accounted s'"
proof (induction rule: dialog_step.induct)
  case (answer s i v)
  then show ?case using dialogs.accounted_pop [of s "(i, v)"] by simp
next
  case (dismiss_dialog s i)
  then show ?case using cancel_resolve [of i s] dialogs.accounted_pop [of s "(i, v)" for v] by auto
next
  case (add_renderer i f s d s')
  then show ?case using accounted_cong [of s' s]
    by (cases f) (auto simp: register_dialog_def js_result)
next
  case (remove_renderer s d)
  then show ?case using accounted_cong [of "unregister_dialog d s" s] by (simp add: unregister_dialog_def)
next
  case (listen_in l s s')
  then show ?case using accounted_cong [of s' s] by (auto simp: subscribe_dialogs_def split: jsval.splits)
next
  case (listen_out s l)
  then show ?case using accounted_cong [of "unsubscribe_dialogs l s" s] by (simp add: unsubscribe_dialogs_def)
qed (auto simp: confirm_def form_def choice_def open_dialog_def js_result dialogs.accounted_push dialogs.accounted_flush
      split: option.splits)

lemma accounted_reachable: "dialog_reachable s \<Longrightarrow> dialogs.accounted s"
proof (induction rule: dialog_reachable.induct)
  case fresh_service
  show ?case unfolding dialogs.accounted_def
    by (simp add: waiting_numbers_def settled_numbers_def new_service_def pending_def dialog_ok_def)
next
  case (dialog_next s s')
  then show ?case by (blast intro: accounted_step)
qed

text \<open>C35: in every reachable state of the dialog service the promises settled so far, followed by the
  requests still pending (the one on screen first), are exactly the requests made, in the order in
  which they were made: none is lost, none is settled twice, none overtakes another. And while
  something waits, something is on screen.\<close>

theorem dialogs_in_order:
  assumes "dialog_reachable s"
  shows "map fst (settled s) @ map rq_number (pending s) = [1..<Suc (counter s)]
    \<and> (active s = None \<longrightarrow> queue s = [])"
  using accounted_reachable [OF assms]
  by (simp add: dialogs.accounted_def waiting_numbers_def settled_numbers_def dialog_ok_def)

text \<open>A pending request can be answered or cancelled exactly while it is on screen: \<open>resolve\<close> with its
  id succeeds if and only if it is the active request.\<close>

theorem only_active_resolves:
  assumes "dialog_reachable s" and "r \<in> set (pending s)"
  shows "fst (resolve (rq_id r) v s) \<longleftrightarrow> active s = Some r"
proof -
  have acc: "dialogs.accounted s" using assms(1) by (rule accounted_reachable)
  then have ok: "\<forall>r \<in> set (pending s). rq_id r = request_id (rq_number r)"
    by (simp add: dialogs.accounted_def dialog_ok_def)
  have inj: "inj_on rq_number (set (pending s))"
    using dialogs.accounted_distinct [OF acc] by (simp add: waiting_numbers_def distinct_map)
  show ?thesis
  proof (cases "active s")
    case None
    then show ?thesis by (simp add: resolve_def)
  next
    case (Some a)
    have a: "a \<in> set (pending s)" using Some by (simp add: pending_def)
    have "rq_id r = rq_id a \<Longrightarrow> r = a"
      using ok a assms(2) inj by (auto simp: request_id_def inj_on_def)
    then show ?thesis using Some by (auto simp: resolve_def)
  qed
qed

definition sample_confirm :: jsval where
  "sample_confirm = jobj [(''title'', jlit ''Delete?''), (''tone'', jlit ''danger'')]"

definition two_dialogs :: dialog_service where
  "two_dialogs = (case confirm sample_confirm new_service of Inl _ \<Rightarrow> new_service | Inr (_, s) \<Rightarrow>
     (case confirm sample_confirm s of Inl _ \<Rightarrow> s | Inr (_, s') \<Rightarrow> s'))"

lemma two_dialogs_reachable: "dialog_reachable two_dialogs"
proof -
  have step: "dialog_reachable (case confirm sample_confirm s of Inl _ \<Rightarrow> s | Inr (_, s') \<Rightarrow> f s')"
    if "dialog_reachable s" "\<And>s'. dialog_reachable s' \<Longrightarrow> dialog_reachable (f s')" for s f
    using that dialog_next [OF that(1) ask_confirm] by (cases "confirm sample_confirm s") auto
  show ?thesis unfolding two_dialogs_def
    by (intro step [where f = "\<lambda>s. case confirm sample_confirm s of Inl _ \<Rightarrow> s | Inr (_, s') \<Rightarrow> s'"]
        step [where f = "\<lambda>s. s"] fresh_service)
qed

lemma two_dialogs_state: "map rq_number (pending two_dialogs) = [1, 2] \<and> map rq_number (queue two_dialogs) = [2] \<and> counter two_dialogs = 2"
  by code_simp

theorem dialogs_in_order_witness:
  "dialog_reachable two_dialogs \<and> map fst (settled two_dialogs) @ map rq_number (pending two_dialogs) = [1..<3]"
  using dialogs_in_order [OF two_dialogs_reachable] two_dialogs_reachable two_dialogs_state
  by (simp add: numeral_eq_Suc)

theorem only_active_resolves_witness:
  "\<exists>r. r \<in> set (queue two_dialogs) \<and> dialog_reachable two_dialogs
     \<and> (fst (resolve (rq_id r) JUndef two_dialogs) \<longleftrightarrow> active two_dialogs = Some r)"
proof -
  obtain r where r: "r \<in> set (queue two_dialogs)" using two_dialogs_state by (cases "queue two_dialogs") auto
  then have "r \<in> set (pending two_dialogs)" by (simp add: pending_def)
  then show ?thesis using only_active_resolves [OF two_dialogs_reachable] r two_dialogs_reachable by blast
qed

section \<open>Accepted options\<close>

lemma requiredText_Inr [js_result]: "requiredText v f = Inr t \<longleftrightarrow> t = string_text v \<and> string_text v \<noteq> []"
  by (auto simp: requiredText_def)

lemma dialog_object_Inr [js_result]: "dialog_object v f = Inr w \<longleftrightarrow> w = v \<and> is_object v"
  by (auto simp: dialog_object_def)

lemma choice_items_values:
  "choice_items seen i xs = Inr items \<Longrightarrow>
     distinct (map ci_value items) \<and> set (map ci_value items) \<inter> set seen = {} \<and> (\<forall>x \<in> set items. ci_value x \<noteq> [] \<and> ci_label x \<noteq> [])"
proof (induction xs arbitrary: seen i items)
  case Nil
  then show ?case by simp
next
  case (Cons x xs)
  obtain c items' where c: "items = c # items'" "ci_value c \<notin> set seen" "ci_value c \<noteq> []" "ci_label c \<noteq> []"
      "choice_items (set_add seen (ci_value c)) (Suc i) xs = Inr items'"
    using Cons.prems by (auto simp: js_result Let_def)
  then show ?case using Cons.IH [OF c(5)] by auto
qed

text \<open>Accepted choice options have a title, pairwise different non-empty values with labels, and
  preselect an item that is not disabled.\<close>

theorem choice_options_ok:
  assumes "choiceOptions v = Inr ch"
  shows "ch_title ch \<noteq> [] \<and> distinct (map ci_value (ch_items ch))
    \<and> (\<forall>x \<in> set (ch_items ch). ci_value x \<noteq> [] \<and> ci_label x \<noteq> [])
    \<and> (\<exists>x \<in> set (ch_items ch). \<not> ci_disabled x \<and> ci_value x = ch_initialValue ch)"
proof -
  obtain items title requested where items: "choice_items [] 0 (array_items (dot v ''items'')) = Inr items"
    "filter (\<lambda>i. \<not> ci_disabled i) items \<noteq> []" "ch_items ch = items" "ch_title ch = title" "title \<noteq> []"
    "ch_initialValue ch = (if list_ex (\<lambda>i. ci_value i = requested) (filter (\<lambda>i. \<not> ci_disabled i) items) then requested
       else ci_value (hd (filter (\<lambda>i. \<not> ci_disabled i) items)))"
    using assms by (clarsimp simp: choiceOptions_def js_result Let_def) (rule that; simp)
  have "hd (filter (\<lambda>i. \<not> ci_disabled i) items) \<in> set (filter (\<lambda>i. \<not> ci_disabled i) items)"
    using items(2) by (rule hd_in_set)
  then have "\<exists>x \<in> set items. \<not> ci_disabled x \<and> ci_value x = ch_initialValue ch"
    unfolding items(6) by (auto simp: list_ex_iff)
  then show ?thesis using choice_items_values [OF items(1)] items(3-5) by simp
qed

definition sample_choice :: jsval where
  "sample_choice = jobj [(''title'', jlit ''Pick''), (''initialValue'', jlit ''a''),
     (''items'', JArr [jobj [(''value'', jlit ''a''), (''label'', jlit ''A''), (''disabled'', JBool True)],
                       jobj [(''value'', jlit ''b''), (''label'', jlit ''B'')]])]"

theorem choice_options_ok_witness:
  "\<exists>ch. choiceOptions sample_choice = Inr ch \<and> ch_initialValue ch = lit ''b''
     \<and> (\<exists>x \<in> set (ch_items ch). \<not> ci_disabled x \<and> ci_value x = ch_initialValue ch)"
proof -
  have "case choiceOptions sample_choice of Inl _ \<Rightarrow> False | Inr ch \<Rightarrow> ch_initialValue ch = lit ''b''" by code_simp
  then obtain ch where ch: "choiceOptions sample_choice = Inr ch" "ch_initialValue ch = lit ''b''"
    by (auto split: sum.splits)
  then show ?thesis using choice_options_ok [OF ch(1)] by blast
qed

end
