(* ===== verification/Notification_Service.thy ===== *)
theory Notification_Service
  imports JS_Prelude
begin

text \<open>
  The notification service (\<open>apps/workbench/src/workbench/notificationService.js\<close>): a list of
  notifications in which a deduplication key occurs once. The clock is an argument of \<open>show\<close>.
\<close>

datatype notification_error = NotificationError jstring jstring

definition NOTIFICATION_LEVELS :: "jstring list" where
  "NOTIFICATION_LEVELS = map lit [''info'', ''success'', ''warning'', ''error'']"

definition defaultDurations :: "jstring \<Rightarrow> rat" where
  "defaultDurations level = (if level = lit ''info'' then 5000 else if level = lit ''success'' then 4000
     else if level = lit ''warning'' then 8000 else 0)"

definition note_object :: "jsval \<Rightarrow> jstring \<Rightarrow> notification_error + jsval" where
  "note_object v field = (if is_object v then Inr v else Inl (NotificationError field (lit ''must be an object'')))"

definition note_required :: "jsval \<Rightarrow> jstring \<Rightarrow> notification_error + jstring" where
  "note_required v field = (if string_text v = [] then Inl (NotificationError field (lit ''must be a non-empty string''))
     else Inr (string_text v))"

definition note_optional :: "jsval \<Rightarrow> jstring \<Rightarrow> notification_error + jstring" where
  "note_optional v field = (if v = JUndef \<or> v = JNull \<or> v = JStr [] then Inr [] else note_required v field)"

record notification =
  nt_id :: jstring
  nt_level :: jstring
  nt_title :: jstring
  nt_message :: jstring
  nt_dedupeKey :: jstring
  nt_durationMs :: rat
  nt_createdAt :: rat

definition note_duration :: "jsval \<Rightarrow> jstring \<Rightarrow> notification_error + rat" where
  "note_duration v level =
     (let d = (if v = JUndef then Fin (defaultDurations level) else to_num v) in
      case d of Fin r \<Rightarrow> if r < 0
          then Inl (NotificationError (lit ''notification.durationMs'') (lit ''must be a non-negative finite number''))
          else Inr r
      | _ \<Rightarrow> Inl (NotificationError (lit ''notification.durationMs'') (lit ''must be a non-negative finite number'')))"

definition normalizeNotification :: "jsval \<Rightarrow> jstring \<Rightarrow> rat \<Rightarrow> notification_error + notification" where
  "normalizeNotification inp nid now =
     andThen (note_object inp (lit ''notification'')) (\<lambda>v.
     andThen (note_optional (dot v ''level'') (lit ''notification.level'')) (\<lambda>level0.
     (let level = (if level0 = [] then lit ''info'' else level0) in
      andThen (check (level \<in> set NOTIFICATION_LEVELS)
         (NotificationError (lit ''notification.level'')
            (lit ''must be one of '' @ join (lit '', '') NOTIFICATION_LEVELS))) (\<lambda>_.
      andThen (note_duration (dot v ''durationMs'') level) (\<lambda>duration.
      andThen (note_required (dot v ''title'') (lit ''notification.title'')) (\<lambda>title.
      andThen (note_optional (dot v ''message'') (lit ''notification.message'')) (\<lambda>message.
      andThen (note_optional (dot v ''dedupeKey'') (lit ''notification.dedupeKey'')) (\<lambda>key.
      Inr \<lparr>nt_id = nid, nt_level = level, nt_title = title, nt_message = message, nt_dedupeKey = key,
           nt_durationMs = duration, nt_createdAt = now\<rparr>))))))))"

record notification_service =
  note_counter :: nat
  note_items :: "notification list"
  note_listeners :: "nat list"
  note_told :: "(nat \<times> notification list) list"

definition new_notifications :: notification_service where
  "new_notifications = \<lparr>note_counter = 0, note_items = [], note_listeners = [], note_told = []\<rparr>"

definition notify_notes :: "notification_service \<Rightarrow> notification_service" where
  "notify_notes s = s\<lparr>note_told := note_told s @ map (\<lambda>l. (l, note_items s)) (note_listeners s)\<rparr>"

definition note_id :: "nat \<Rightarrow> jstring" where
  "note_id n = lit ''notification_'' @ nat_str n"

text \<open>\<open>show\<close> counts before it validates: a rejected notification uses up a number.\<close>

definition existing_note :: "jsval \<Rightarrow> notification_service \<Rightarrow> notification option" where
  "existing_note inp s = (let key = string_text (dot inp ''dedupeKey'') in
     if key = [] then None else List.find (\<lambda>n. nt_dedupeKey n = key) (note_items s))"

definition show_note :: "rat \<Rightarrow> jsval \<Rightarrow> notification_service \<Rightarrow> (notification_error + jstring) \<times> notification_service" where
  "show_note now inp s =
     (let old = existing_note inp s;
          s1 = (if old = None then s\<lparr>note_counter := Suc (note_counter s)\<rparr> else s);
          nid = (case old of None \<Rightarrow> note_id (note_counter s1)
                 | Some n \<Rightarrow> if nt_id n = [] then note_id (note_counter s1) else nt_id n) in
      case normalizeNotification inp nid now of
        Inl e \<Rightarrow> (Inl e, s1)
      | Inr n \<Rightarrow> (Inr nid, notify_notes (s1\<lparr>note_items := (case old of
            None \<Rightarrow> note_items s1 @ [n]
          | Some x \<Rightarrow> map (\<lambda>item. if nt_id item = nt_id x then n else item) (note_items s1))\<rparr>)))"

definition dismiss_note :: "jsval \<Rightarrow> notification_service \<Rightarrow> bool \<times> notification_service" where
  "dismiss_note notificationID s =
     (let nid = trimmed_text notificationID in
      if nid = [] \<or> \<not> list_ex (\<lambda>n. nt_id n = nid) (note_items s) then (False, s)
      else (True, notify_notes (s\<lparr>note_items := filter (\<lambda>n. nt_id n \<noteq> nid) (note_items s)\<rparr>)))"

definition clear_notes :: "notification_service \<Rightarrow> bool \<times> notification_service" where
  "clear_notes s = (if note_items s = [] then (False, s) else (True, notify_notes (s\<lparr>note_items := []\<rparr>)))"

definition subscribe_notes :: "jsval \<Rightarrow> notification_service \<Rightarrow> notification_error + notification_service" where
  "subscribe_notes listener s = (case listener of
       JFun l \<Rightarrow> Inr (s\<lparr>note_listeners := set_add (note_listeners s) l, note_told := note_told s @ [(l, note_items s)]\<rparr>)
     | _ \<Rightarrow> Inl (NotificationError (lit ''listener'') (lit ''must be a function'')))"

section \<open>Invariant\<close>

text \<open>Ids are distinct and have been counted; a non-empty key belongs to one notification.\<close>

definition keys_of :: "notification list \<Rightarrow> jstring list" where
  "keys_of ns = filter (\<lambda>k. k \<noteq> []) (map nt_dedupeKey ns)"

definition notes_ok :: "notification_service \<Rightarrow> bool" where
  "notes_ok s \<longleftrightarrow> distinct (map nt_id (note_items s)) \<and> distinct (keys_of (note_items s))
     \<and> (\<forall>n \<in> set (note_items s). (\<exists>k \<le> note_counter s. nt_id n = note_id k) \<and> nt_durationMs n \<ge> 0
          \<and> nt_title n \<noteq> [] \<and> nt_level n \<in> set NOTIFICATION_LEVELS)"

inductive note_step :: "notification_service \<Rightarrow> notification_service \<Rightarrow> bool" where
  note_show: "note_step s (snd (show_note now inp s))"
| note_dismiss: "note_step s (snd (dismiss_note nid s))"
| note_clear: "note_step s (snd (clear_notes s))"
| note_subscribe: "subscribe_notes l s = Inr s' \<Longrightarrow> note_step s s'"
| note_unsubscribe: "note_step s (s\<lparr>note_listeners := filter (\<lambda>l'. l' \<noteq> l) (note_listeners s)\<rparr>)"

inductive note_reachable :: "notification_service \<Rightarrow> bool" where
  note_empty: "note_reachable new_notifications"
| note_next: "note_reachable s \<Longrightarrow> note_step s s' \<Longrightarrow> note_reachable s'"

lemma notify_notes_fields [simp]:
  "note_items (notify_notes s) = note_items s" "note_counter (notify_notes s) = note_counter s" "notes_ok (notify_notes s) = notes_ok s"
  by (simp_all add: notify_notes_def notes_ok_def)

lemma note_id_inject [simp]: "note_id m = note_id n \<longleftrightarrow> m = n"
  by (simp add: note_id_def)

lemma note_required_Inr [js_result]: "note_required v f = Inr t \<longleftrightarrow> t = string_text v \<and> string_text v \<noteq> []"
  by (auto simp: note_required_def)

lemma note_object_Inr [js_result]: "note_object v f = Inr w \<longleftrightarrow> w = v \<and> is_object v"
  by (auto simp: note_object_def)

lemma note_optional_text: "note_optional v f = Inr t \<Longrightarrow> t = string_text v"
  by (auto simp: note_optional_def js_result string_text_def trim_def split: if_splits)

lemma note_duration_nonneg: "note_duration v l = Inr d \<Longrightarrow> d \<ge> 0"
  by (auto simp: note_duration_def Let_def split: jsnum.splits if_splits)

lemma normalizeNotification_Inr:
  assumes "normalizeNotification inp nid now = Inr n"
  shows "nt_id n = nid" "nt_title n \<noteq> []" "nt_level n \<in> set NOTIFICATION_LEVELS" "nt_durationMs n \<ge> 0"
    "nt_dedupeKey n = string_text (dot inp ''dedupeKey'')" "nt_createdAt n = now"
  using assms by (auto simp: normalizeNotification_def js_result Let_def dest: note_duration_nonneg note_optional_text)

lemma keys_of_append [simp]: "keys_of (xs @ ys) = keys_of xs @ keys_of ys"
  by (simp add: keys_of_def)

lemma replace_same_keys:
  assumes "distinct (map nt_id ns)" and "x \<in> set ns" and "nt_dedupeKey n = nt_dedupeKey x" and "nt_id n = nt_id x"
  shows "map nt_dedupeKey (map (\<lambda>i. if nt_id i = nt_id x then n else i) ns) = map nt_dedupeKey ns"
    and "map nt_id (map (\<lambda>i. if nt_id i = nt_id x then n else i) ns) = map nt_id ns"
proof -
  have "i = x" if "i \<in> set ns" "nt_id i = nt_id x" for i
    using assms(1,2) that by (auto simp: distinct_map inj_on_def)
  then show "map nt_dedupeKey (map (\<lambda>i. if nt_id i = nt_id x then n else i) ns) = map nt_dedupeKey ns"
    using assms(3) by auto
  show "map nt_id (map (\<lambda>i. if nt_id i = nt_id x then n else i) ns) = map nt_id ns"
    using assms(4) by auto
qed

lemma existing_note_Some:
  assumes "existing_note inp s = Some x"
  shows "x \<in> set (note_items s)" "nt_dedupeKey x = string_text (dot inp ''dedupeKey'')"
  using assms by (auto simp: existing_note_def Let_def find_Some_iff split: if_splits)

lemma existing_note_None:
  assumes "existing_note inp s = None" and "string_text (dot inp ''dedupeKey'') \<noteq> []"
  shows "string_text (dot inp ''dedupeKey'') \<notin> nt_dedupeKey ` set (note_items s)"
  using assms by (auto simp: existing_note_def Let_def find_None_iff)

lemma notes_ok_show:
  assumes ok: "notes_ok s"
  shows "notes_ok (snd (show_note now inp s))"
proof (cases "existing_note inp s")
  case None
  let ?nid = "note_id (Suc (note_counter s))"
  show ?thesis
  proof (cases "normalizeNotification inp ?nid now")
    case (Inl e)
    then have "snd (show_note now inp s) = s\<lparr>note_counter := Suc (note_counter s)\<rparr>"
      using None by (simp add: show_note_def Let_def)
    then show ?thesis using ok by (auto simp: notes_ok_def intro: le_SucI)
  next
    case (Inr n)
    note n = normalizeNotification_Inr [OF Inr]
    have st: "snd (show_note now inp s) = notify_notes (s\<lparr>note_counter := Suc (note_counter s), note_items := note_items s @ [n]\<rparr>)"
      using None Inr by (simp add: show_note_def Let_def)
    have "?nid \<notin> nt_id ` set (note_items s)" using ok by (auto simp: notes_ok_def)
    moreover have "distinct (keys_of (note_items s @ [n]))"
      using ok existing_note_None [OF None] n(5) by (auto simp: notes_ok_def keys_of_def)
    ultimately show ?thesis unfolding st using ok n
      by (auto simp: notes_ok_def intro: le_SucI)
  qed
next
  case (Some x)
  note x = existing_note_Some [OF Some]
  have nonempty: "nt_id x \<noteq> []" using ok x(1) by (auto simp: notes_ok_def note_id_def)
  show ?thesis
  proof (cases "normalizeNotification inp (nt_id x) now")
    case (Inl e)
    then show ?thesis using Some nonempty ok by (simp add: show_note_def Let_def)
  next
    case (Inr n)
    note n = normalizeNotification_Inr [OF Inr]
    have st: "snd (show_note now inp s) = notify_notes (s\<lparr>note_items := map (\<lambda>i. if nt_id i = nt_id x then n else i) (note_items s)\<rparr>)"
      using Some Inr nonempty by (simp add: show_note_def Let_def)
    have "distinct (map nt_id (note_items s))" using ok by (simp add: notes_ok_def)
    note same = replace_same_keys [OF this x(1), of n]
    have "distinct (map nt_id (map (\<lambda>i. if nt_id i = nt_id x then n else i) (note_items s)))"
      "distinct (keys_of (map (\<lambda>i. if nt_id i = nt_id x then n else i) (note_items s)))"
      unfolding keys_of_def using ok n(1,5) x(2) by (simp_all only: same notes_ok_def keys_of_def)
    moreover have "\<exists>k \<le> note_counter s. nt_id x = note_id k" using ok x(1) by (simp add: notes_ok_def)
    ultimately show ?thesis unfolding st notify_notes_fields(3) notes_ok_def using ok n
      by (auto simp: notes_ok_def simp del: map_map)
  qed
qed

lemma distinct_keys_filter: "distinct (keys_of ns) \<Longrightarrow> distinct (keys_of (filter P ns))"
  by (induction ns) (auto simp: keys_of_def)

lemma notes_ok_filter: "notes_ok s \<Longrightarrow> notes_ok (s\<lparr>note_items := filter P (note_items s)\<rparr>)"
  by (simp add: notes_ok_def distinct_map_filter distinct_keys_filter)

lemma notes_ok_step: "note_step s s' \<Longrightarrow> notes_ok s \<Longrightarrow> notes_ok s'"
proof (induction rule: note_step.induct)
  case (note_show s now inp)
  then show ?case by (rule notes_ok_show)
next
  case (note_dismiss s nid)
  then show ?case by (simp add: dismiss_note_def Let_def notes_ok_filter)
next
  case (note_clear s)
  then show ?case by (simp add: clear_notes_def) (simp add: notes_ok_def keys_of_def)
next
  case (note_subscribe l s s')
  then show ?case by (cases l) (auto simp: subscribe_notes_def notes_ok_def)
next
  case (note_unsubscribe s l)
  then show ?case by (simp add: notes_ok_def)
qed

text \<open>in every reachable state of the notification service the ids are pairwise different, a
  deduplication key belongs to at most one notification, and every notification has a title, a known
  level and a duration that is not negative.\<close>

theorem notifications_deduplicated:
  assumes "note_reachable s"
  shows "distinct (map nt_id (note_items s)) \<and> distinct (keys_of (note_items s))
    \<and> (\<forall>n \<in> set (note_items s). nt_title n \<noteq> [] \<and> nt_level n \<in> set NOTIFICATION_LEVELS \<and> nt_durationMs n \<ge> 0)"
proof -
  have "notes_ok s" using assms
    by (induction rule: note_reachable.induct)
      (simp add: new_notifications_def notes_ok_def keys_of_def, blast intro: notes_ok_step)
  then show ?thesis by (simp add: notes_ok_def)
qed

text \<open>Showing a notification whose key is already on screen replaces that notification in place,
  under the same id; any other accepted notification is added at the end. A rejected one leaves the
  list as it is.\<close>

theorem show_replaces_in_place:
  assumes "note_reachable s"
  shows "case show_note now inp s of
      (Inl e, s') \<Rightarrow> note_items s' = note_items s
    | (Inr nid, s') \<Rightarrow> (\<exists>n. nt_id n = nid \<and> n \<in> set (note_items s')
         \<and> map nt_id (note_items s') = (if existing_note inp s = None then map nt_id (note_items s) @ [nid] else map nt_id (note_items s))
         \<and> (\<forall>m. m \<in> set (note_items s) \<and> nt_id m \<noteq> nid \<longrightarrow> m \<in> set (note_items s')))"
proof -
  have ok: "notes_ok s" using assms
    by (induction rule: note_reachable.induct)
      (simp add: new_notifications_def notes_ok_def keys_of_def, blast intro: notes_ok_step)
  show ?thesis
  proof (cases "existing_note inp s")
    case None
    show ?thesis
    proof (cases "normalizeNotification inp (note_id (Suc (note_counter s))) now")
      case (Inl e)
      then show ?thesis using None by (simp add: show_note_def Let_def)
    next
      case (Inr n)
      then show ?thesis using None normalizeNotification_Inr(1) [OF Inr] by (auto simp: show_note_def Let_def intro!: exI [of _ n])
    qed
  next
    case (Some x)
    note x = existing_note_Some [OF Some]
    have nonempty: "nt_id x \<noteq> []" using ok x(1) by (auto simp: notes_ok_def note_id_def)
    show ?thesis
    proof (cases "normalizeNotification inp (nt_id x) now")
      case (Inl e)
      then show ?thesis using Some nonempty by (simp add: show_note_def Let_def)
    next
      case (Inr n)
      let ?items = "map (\<lambda>i. if nt_id i = nt_id x then n else i) (note_items s)"
      have "n \<in> set ?items" using x(1) by (force simp: image_iff)
      moreover have "map nt_id ?items = map nt_id (note_items s)" using normalizeNotification_Inr(1) [OF Inr] by auto
      moreover have "m \<in> set ?items" if "m \<in> set (note_items s)" "nt_id m \<noteq> nt_id x" for m
        using that by (force simp: image_iff)
      moreover have "nt_id n = nt_id x" using normalizeNotification_Inr(1) [OF Inr] .
      ultimately show ?thesis using Some nonempty Inr
        by (simp only: show_note_def Let_def option.case option.distinct if_False sum.case prod.case notify_notes_fields) auto
    qed
  qed
qed

definition sample_note :: jsval where
  "sample_note = jobj [(''title'', jlit ''Saved''), (''level'', jlit ''success''), (''dedupeKey'', jlit ''save'')]"

definition one_note :: notification_service where
  "one_note = snd (show_note 1 sample_note new_notifications)"

lemma one_note_reachable: "note_reachable one_note"
  unfolding one_note_def by (blast intro: note_next note_show note_empty)

lemma one_note_again: "case show_note 2 sample_note one_note of (Inl _, _) \<Rightarrow> False | (Inr nid, s) \<Rightarrow>
    nid = lit ''notification_1'' \<and> map nt_createdAt (note_items s) = [2]"
  by code_simp

theorem notifications_deduplicated_witness:
  "note_reachable one_note \<and> distinct (keys_of (note_items one_note)) \<and> keys_of (note_items one_note) = [lit ''save'']"
proof -
  have "keys_of (note_items one_note) = [lit ''save'']" by code_simp
  then show ?thesis using notifications_deduplicated [OF one_note_reachable] one_note_reachable by simp
qed

theorem show_replaces_in_place_witness:
  "\<exists>s'. show_note 2 sample_note one_note = (Inr (lit ''notification_1''), s')
     \<and> map nt_id (note_items s') = (if existing_note sample_note one_note = None
          then map nt_id (note_items one_note) @ [lit ''notification_1''] else map nt_id (note_items one_note))"
proof -
  obtain s' where s': "show_note 2 sample_note one_note = (Inr (lit ''notification_1''), s')"
    using one_note_again by (auto split: prod.splits sum.splits)
  then show ?thesis using show_replaces_in_place [OF one_note_reachable, of sample_note 2] by auto
qed

end
