(* ===== verification/Related_Resources.thy ===== *)
theory Related_Resources
  imports Workbench_Contracts
begin

text \<open>
  The related-resource service (\<open>apps/workbench/src/workbench/relatedResourceService.js\<close>): providers
  list, preview and open resources; at most one preview is active at a time.

  What a provider does is code outside the service: its functions are fields of the record
  \<open>provider\<close>, a throw is \<open>None\<close> (for \<open>open\<close>, \<open>Inl\<close> with the error if it is one of this service). A preview is asynchronous: \<open>preview_start\<close> runs up to the \<open>await\<close> of the
  provider and \<open>preview_finish\<close> from there. A request is identified by its sequence number; its
  \<open>AbortController\<close> and its descriptor carry the same number. The fields \<open>produced\<close> and
  \<open>disposed\<close> log the descriptors that came into being and the ones whose \<open>dispose\<close> was called.
\<close>

datatype resource_error =
    ResourceError string jstring
  | ResourceContract contract_error

record provider =
  pv_id :: jstring
  pv_supports :: "(resource_ref \<Rightarrow> bool option) option"
  pv_sourcePrefix :: jstring
  pv_listRelated :: "(jsval \<Rightarrow> jsval option) option"
  pv_preview :: bool
  pv_open :: "(resource_ref \<Rightarrow> resource_error option + jsval) option"

text \<open>\<open>requireProvider\<close> on a provider object with the given \<open>id\<close>; an absent \<open>sourcePrefix\<close> is the empty
  string.\<close>

definition requireProvider :: "jsval \<Rightarrow> provider \<Rightarrow> resource_error + provider" where
  "requireProvider rawID p =
     (if string_text rawID = []
      then Inl (ResourceError ''invalid_provider'' (lit ''Resource provider id is required.''))
      else if pv_supports p = None \<and> pv_sourcePrefix p = []
      then Inl (ResourceError ''invalid_provider'' (lit ''Resource provider '' @ string_text rawID
             @ lit '' must define supports() or sourcePrefix.''))
      else Inr (p\<lparr>pv_id := string_text rawID\<rparr>))"

section \<open>Preview descriptors\<close>

record descriptor =
  ds_kind :: jstring
  ds_contentType :: jstring
  ds_text :: jstring
  ds_objectUrl :: jstring
  ds_sheets :: "jstring list"
  ds_activeSheet :: jstring
  ds_rows :: "jstring list list"
  ds_truncated :: bool
  ds_downloadUrl :: jstring
  ds_message :: jstring
  ds_dispose :: "nat option"

definition string_or_empty :: "jsval \<Rightarrow> jstring" where
  "string_or_empty v = (case v of JStr s \<Rightarrow> s | _ \<Rightarrow> [])"

definition preview_kinds :: "jsval list" where
  "preview_kinds = map jlit [''image'', ''pdf'', ''spreadsheet'', ''text'', ''download'']"

definition cell_text :: "jsval \<Rightarrow> jstring" where
  "cell_text v = to_str (nullish v (JStr []))"

definition row_cells :: "jsval \<Rightarrow> jstring list" where
  "row_cells v = map cell_text (array_items v)"

definition invalid_preview :: "string \<Rightarrow> resource_error" where
  "invalid_preview m = ResourceError ''invalid_preview'' (lit m)"

definition normalizePreviewDescriptor :: "jsval \<Rightarrow> resource_error + descriptor" where
  "normalizePreviewDescriptor v =
     andThen (check (is_object v) (invalid_preview ''Preview provider returned an invalid descriptor.'')) (\<lambda>_.
     (let kind = dot v ''kind'' in
      andThen (check (kind \<in> set preview_kinds)
         (invalid_preview ''Preview kind must be image, pdf, spreadsheet, text, or download.'')) (\<lambda>_.
      andThen (check (kind \<in> {jlit ''image'', jlit ''pdf''} \<longrightarrow> string_or_empty (dot v ''objectUrl'') \<noteq> [])
         (invalid_preview ''Image and PDF previews require objectUrl.'')) (\<lambda>_.
      andThen (check (kind = jlit ''spreadsheet'' \<longrightarrow> is_array (dot v ''rows''))
         (invalid_preview ''Spreadsheet previews require rows.'')) (\<lambda>_.
      andThen (check (kind = jlit ''text'' \<longrightarrow> is_string (dot v ''text''))
         (invalid_preview ''Text previews require text.'')) (\<lambda>_.
      andThen (check (dot v ''dispose'' = JUndef \<or> is_function (dot v ''dispose''))
         (invalid_preview ''Preview dispose must be a function.'')) (\<lambda>_.
      Inr \<lparr>ds_kind = string_or_empty kind, ds_contentType = string_or_empty (dot v ''contentType''),
           ds_text = string_or_empty (dot v ''text''), ds_objectUrl = string_or_empty (dot v ''objectUrl''),
           ds_sheets = map to_str (array_items (dot v ''sheets'')),
           ds_activeSheet = string_or_empty (dot v ''activeSheet''),
           ds_rows = map row_cells (array_items (dot v ''rows'')), ds_truncated = truthy (dot v ''truncated''),
           ds_downloadUrl = string_or_empty (dot v ''downloadUrl''), ds_message = string_or_empty (dot v ''message''),
           ds_dispose = (case dot v ''dispose'' of JFun f \<Rightarrow> Some f | _ \<Rightarrow> None)\<rparr>)))))))"

section \<open>The service\<close>

record resource_service =
  providers :: "(jstring, provider) jmap"
  provider_live :: "(nat, jstring) jmap"
  next_provider :: nat
  previewSequence :: nat
  pendingPreview :: "nat option"
  pendingProviderID :: jstring
  activePreview :: "nat option"
  activeProviderID :: jstring
  in_flight :: "(nat, jstring) jmap"
  aborted :: "nat list"
  produced :: "nat list"
  disposed :: "nat list"

definition new_resources :: resource_service where
  "new_resources = \<lparr>providers = [], provider_live = [], next_provider = 0, previewSequence = 0,
     pendingPreview = None, pendingProviderID = [], activePreview = None, activeProviderID = [],
     in_flight = [], aborted = [], produced = [], disposed = []\<rparr>"

definition provider_supports :: "provider \<Rightarrow> resource_ref \<Rightarrow> bool option" where
  "provider_supports p r = (case pv_supports p of Some f \<Rightarrow> f r
     | None \<Rightarrow> Some (starts_with (rr_source r) (pv_sourcePrefix p)))"

fun provider_for :: "provider list \<Rightarrow> resource_ref \<Rightarrow> resource_error + provider" where
  "provider_for [] r = Inl (ResourceError ''provider_not_found''
     (lit ''No resource provider supports '' @ rr_source r @ lit ''.''))"
| "provider_for (p # ps) r = (case provider_supports p r of
       None \<Rightarrow> Inl (ResourceError ''provider_failed''
                (lit ''Resource provider '' @ pv_id p @ lit '' failed while checking support.''))
     | Some True \<Rightarrow> Inr p
     | Some False \<Rightarrow> provider_for ps r)"

definition providerFor :: "resource_service \<Rightarrow> resource_ref \<Rightarrow> resource_error + provider" where
  "providerFor s r = provider_for (map_values (providers s)) r"

definition disposePreview :: "nat option \<Rightarrow> resource_service \<Rightarrow> resource_service" where
  "disposePreview d s = (case d of None \<Rightarrow> s | Some c \<Rightarrow> s\<lparr>disposed := disposed s @ [c]\<rparr>)"

definition abort_pending :: "resource_service \<Rightarrow> resource_service" where
  "abort_pending s = (case pendingPreview s of None \<Rightarrow> s
     | Some c \<Rightarrow> s\<lparr>aborted := set_add (aborted s) c, pendingPreview := None\<rparr>)"

definition releasePreview :: "resource_service \<Rightarrow> resource_service" where
  "releasePreview s =
     (let s1 = abort_pending (s\<lparr>previewSequence := Suc (previewSequence s)\<rparr>)
      in (disposePreview (activePreview s1) (s1\<lparr>pendingProviderID := []\<rparr>))
           \<lparr>activePreview := None, activeProviderID := []\<rparr>)"

definition registerProvider :: "jsval \<Rightarrow> provider \<Rightarrow> resource_service \<Rightarrow> resource_error + nat \<times> resource_service" where
  "registerProvider rawID inp s =
     andThen (requireProvider rawID inp) (\<lambda>p.
     if map_has (providers s) (pv_id p)
     then Inl (ResourceError ''provider_exists'' (lit ''Resource provider '' @ pv_id p @ lit '' is already registered.''))
     else Inr (next_provider s, s\<lparr>providers := map_set (providers s) (pv_id p) p,
            provider_live := map_set (provider_live s) (next_provider s) (pv_id p),
            next_provider := Suc (next_provider s)\<rparr>))"

definition unregisterProvider :: "nat \<Rightarrow> resource_service \<Rightarrow> bool \<times> resource_service" where
  "unregisterProvider t s = (case map_get (provider_live s) t of
       None \<Rightarrow> (False, s)
     | Some name \<Rightarrow>
         (let s1 = s\<lparr>provider_live := map_delete (provider_live s) t\<rparr>;
              s2 = (if pendingProviderID s = name \<or> activeProviderID s = name then releasePreview s1 else s1)
          in (True, s2\<lparr>providers := map_delete (providers s2) name\<rparr>)))"

definition dispose_resources :: "resource_service \<Rightarrow> resource_service" where
  "dispose_resources s = (releasePreview s)\<lparr>providers := []\<rparr>"

subsection \<open>Listing\<close>

definition resource_key :: "resource_ref \<Rightarrow> jstring" where
  "resource_key r = rr_source r @ [10] @ rr_id r"

fun add_listed :: "jstring list \<Rightarrow> resource_ref list \<Rightarrow> jsval list
    \<Rightarrow> resource_error + jstring list \<times> resource_ref list" where
  "add_listed seen rs [] = Inr (seen, rs)"
| "add_listed seen rs (x # xs) = (case defineResourceRef x of
       Inl e \<Rightarrow> Inl (ResourceContract e)
     | Inr r \<Rightarrow> if resource_key r \<in> set seen then add_listed seen rs xs
                else add_listed (seen @ [resource_key r]) (rs @ [r]) xs)"

fun list_related :: "jsval \<Rightarrow> jstring list \<Rightarrow> resource_ref list \<Rightarrow> provider list \<Rightarrow> resource_error + resource_ref list" where
  "list_related ctx seen rs [] = Inr rs"
| "list_related ctx seen rs (p # ps) = (case pv_listRelated p of
       None \<Rightarrow> list_related ctx seen rs ps
     | Some f \<Rightarrow> (case f ctx of
           None \<Rightarrow> Inl (ResourceError ''provider_failed''
                    (lit ''Resource provider '' @ pv_id p @ lit '' failed to list resources.''))
         | Some v \<Rightarrow>
             if \<not> is_array v
             then Inl (ResourceError ''invalid_resource_list''
                    (lit ''Resource provider '' @ pv_id p @ lit '' must return an array.''))
             else andThen (add_listed seen rs (array_items v)) (\<lambda>(seen', rs').
                  list_related ctx seen' rs' ps)))"

definition listRelated :: "jsval \<Rightarrow> resource_service \<Rightarrow> resource_error + resource_ref list" where
  "listRelated ctx s = list_related ctx [] [] (map_values (providers s))"

subsection \<open>Previewing\<close>

datatype preview_outcome = Previewed descriptor | PreviewFailed resource_error | Previewing nat

definition cancelledError :: resource_error where
  "cancelledError = ResourceError ''preview_cancelled'' (lit ''Resource preview was cancelled.'')"

definition isPreviewCancelledError :: "resource_error \<Rightarrow> bool" where
  "isPreviewCancelledError e = (case e of ResourceError code _ \<Rightarrow> code = ''preview_cancelled'' | _ \<Rightarrow> False)"

text \<open>\<open>external\<close>: the caller's own signal is already aborted.\<close>

definition preview_start :: "jsval \<Rightarrow> bool \<Rightarrow> resource_service \<Rightarrow> preview_outcome \<times> resource_service" where
  "preview_start inp external s = (case defineResourceRef inp of
       Inl e \<Rightarrow> (PreviewFailed (ResourceContract e), s)
     | Inr r \<Rightarrow> (case providerFor s r of
           Inl e \<Rightarrow> (PreviewFailed e, s)
         | Inr p \<Rightarrow>
             if \<not> pv_preview p
             then (PreviewFailed (ResourceError ''preview_unsupported''
                     (lit ''Resource provider '' @ pv_id p @ lit '' does not support preview.'')), s)
             else (let s1 = releasePreview s; c = previewSequence s1 in
                   (Previewing c, s1\<lparr>pendingPreview := Some c, pendingProviderID := pv_id p,
                      aborted := (if external then set_add (aborted s1) c else aborted s1),
                      in_flight := map_set (in_flight s1) c (pv_id p)\<rparr>))))"

text \<open>The caller's signal fires while the request is in flight.\<close>

definition abort_external :: "nat \<Rightarrow> resource_service \<Rightarrow> resource_service" where
  "abort_external c s = (if map_has (in_flight s) c then s\<lparr>aborted := set_add (aborted s) c\<rparr> else s)"

text \<open>How the provider ended: it threw an abort error, an error of this service, or something else, or it
  returned a value.\<close>

datatype provider_result = ThrewAbort | ThrewService resource_error | ThrewOther | Gave jsval

definition stale :: "nat \<Rightarrow> resource_service \<Rightarrow> bool" where
  "stale c s \<longleftrightarrow> c \<in> set (aborted s) \<or> c \<noteq> previewSequence s"

text \<open>The \<open>finally\<close> block.\<close>

definition preview_done :: "nat \<Rightarrow> resource_service \<Rightarrow> resource_service" where
  "preview_done c s = (if pendingPreview s = Some c
     then s\<lparr>in_flight := map_delete (in_flight s) c, pendingPreview := None, pendingProviderID := []\<rparr>
     else s\<lparr>in_flight := map_delete (in_flight s) c\<rparr>)"

definition preview_finish :: "nat \<Rightarrow> provider_result \<Rightarrow> resource_service \<Rightarrow> preview_outcome \<times> resource_service" where
  "preview_finish c res s = (case map_get (in_flight s) c of
       None \<Rightarrow> (Previewing c, s)
     | Some name \<Rightarrow>
         (let failed = (\<lambda>e. PreviewFailed (if stale c s then cancelledError else e));
              other = ResourceError ''provider_failed''
                        (lit ''Resource provider '' @ name @ lit '' failed to preview the resource.'') in
          case res of
            ThrewAbort \<Rightarrow> (PreviewFailed cancelledError, preview_done c s)
          | ThrewService e \<Rightarrow> (failed e, preview_done c s)
          | ThrewOther \<Rightarrow> (failed other, preview_done c s)
          | Gave v \<Rightarrow> (case normalizePreviewDescriptor v of
                Inl e \<Rightarrow> (failed e, preview_done c s)
              | Inr d \<Rightarrow>
                  if stale c s
                  then (PreviewFailed cancelledError,
                        preview_done c (s\<lparr>produced := produced s @ [c], disposed := disposed s @ [c]\<rparr>))
                  else (Previewed d, preview_done c (s\<lparr>produced := produced s @ [c],
                          activePreview := Some c, activeProviderID := name\<rparr>)))))"

definition open_resource :: "jsval \<Rightarrow> resource_service \<Rightarrow> resource_error + jsval" where
  "open_resource inp s = (case defineResourceRef inp of
       Inl e \<Rightarrow> Inl (ResourceContract e)
     | Inr r \<Rightarrow> andThen (providerFor s r) (\<lambda>p. case pv_open p of
           None \<Rightarrow> Inl (ResourceError ''open_unsupported''
                    (lit ''Resource provider '' @ pv_id p @ lit '' does not support open.''))
         | Some f \<Rightarrow> (case f r of
               Inl (Some e) \<Rightarrow> Inl e
             | Inl None \<Rightarrow> Inl (ResourceError ''provider_failed''
                        (lit ''Resource provider '' @ pv_id p @ lit '' failed to open the resource.''))
             | Inr v \<Rightarrow> Inr v)))"

section \<open>No descriptor is leaked\<close>

definition previews_ok :: "resource_service \<Rightarrow> bool" where
  "previews_ok s \<longleftrightarrow> distinct (produced s) \<and> distinct (disposed s)
     \<and> set (produced s) = set (disposed s) \<union> set_option (activePreview s)
     \<and> (\<forall>c. activePreview s = Some c \<longrightarrow> c = previewSequence s \<and> c \<notin> set (disposed s) \<and> map_get (in_flight s) c = None)
     \<and> (\<forall>c n. map_get (in_flight s) c = Some n \<longrightarrow> c \<le> previewSequence s \<and> c \<notin> set (produced s))
     \<and> (\<forall>c \<in> set (produced s). c \<le> previewSequence s)"

inductive resource_step :: "resource_service \<Rightarrow> resource_service \<Rightarrow> bool" where
  res_register: "registerProvider i p s = Inr (t, s') \<Longrightarrow> resource_step s s'"
| res_unregister: "resource_step s (snd (unregisterProvider t s))"
| res_preview: "resource_step s (snd (preview_start inp external s))"
| res_abort: "resource_step s (abort_external c s)"
| res_finish: "resource_step s (snd (preview_finish c res s))"
| res_release: "resource_step s (releasePreview s)"
| res_dispose: "resource_step s (dispose_resources s)"

inductive resource_reachable :: "resource_service \<Rightarrow> bool" where
  res_new: "resource_reachable new_resources"
| res_next: "resource_reachable s \<Longrightarrow> resource_step s s' \<Longrightarrow> resource_reachable s'"

lemma releasePreview_fields [simp]:
  "previewSequence (releasePreview s) = Suc (previewSequence s)" "activePreview (releasePreview s) = None"
  "activeProviderID (releasePreview s) = []" "pendingPreview (releasePreview s) = None"
  "in_flight (releasePreview s) = in_flight s" "produced (releasePreview s) = produced s"
  "disposed (releasePreview s) = disposed s @ (case activePreview s of None \<Rightarrow> [] | Some c \<Rightarrow> [c])"
  "providers (releasePreview s) = providers s"
  by (simp_all add: releasePreview_def Let_def disposePreview_def abort_pending_def split: option.splits)

lemma preview_done_fields [simp]:
  "previewSequence (preview_done c s) = previewSequence s" "activePreview (preview_done c s) = activePreview s"
  "in_flight (preview_done c s) = map_delete (in_flight s) c" "produced (preview_done c s) = produced s"
  "disposed (preview_done c s) = disposed s"
  by (simp_all add: preview_done_def)

lemma previews_ok_cong:
  assumes "produced s' = produced s" "disposed s' = disposed s" "activePreview s' = activePreview s"
    "previewSequence s' = previewSequence s" "in_flight s' = in_flight s"
  shows "previews_ok s' = previews_ok s"
  by (simp add: previews_ok_def assms)

lemma previews_ok_release: "previews_ok s \<Longrightarrow> previews_ok (releasePreview s)"
  by (cases "activePreview s") (auto simp: previews_ok_def le_SucI)

lemma previews_ok_start:
  assumes ok: "previews_ok s"
  shows "previews_ok (snd (preview_start inp external s))"
proof -
  have "previews_ok ((releasePreview s)\<lparr>pendingPreview := x, pendingProviderID := y, aborted := z,
      in_flight := map_set (in_flight s) (Suc (previewSequence s)) n\<rparr>)" for x y z n
    using previews_ok_release [OF ok] ok by (cases "activePreview s") (auto simp: previews_ok_def js_map)
  then show ?thesis using ok
    by (auto simp: preview_start_def Let_def split: sum.splits)
qed

lemma previews_ok_done: "previews_ok s \<Longrightarrow> previews_ok (preview_done c s)"
  by (auto simp: previews_ok_def js_map split: if_splits)

lemma previews_ok_finish:
  assumes ok: "previews_ok s"
  shows "previews_ok (snd (preview_finish c res s))"
proof (cases "map_get (in_flight s) c")
  case None
  then show ?thesis using ok by (simp add: preview_finish_def)
next
  case (Some n)
  have c: "c \<le> previewSequence s" "c \<notin> set (produced s)" "c \<notin> set (disposed s)" "activePreview s \<noteq> Some c"
    using ok Some by (auto simp: previews_ok_def)
  have 1: "previews_ok (preview_done c (s\<lparr>produced := produced s @ [c], disposed := disposed s @ [c]\<rparr>))"
    using ok c by (auto simp: previews_ok_def js_map split: if_splits)
  have 2: "previews_ok (preview_done c (s\<lparr>produced := produced s @ [c], activePreview := Some c, activeProviderID := n\<rparr>))"
    if "\<not> stale c s"
  proof -
    have "activePreview s = None" using that ok c(4) by (cases "activePreview s") (auto simp: stale_def previews_ok_def)
    then show ?thesis using that ok c by (auto simp: previews_ok_def js_map stale_def split: if_splits)
  qed
  show ?thesis
  proof (cases res)
    case (Gave v)
    then show ?thesis using Some 1 2 previews_ok_done [OF ok]
      by (cases "normalizePreviewDescriptor v") (simp_all add: preview_finish_def Let_def)
  qed (use Some previews_ok_done [OF ok] in \<open>simp_all add: preview_finish_def Let_def\<close>)
qed

lemma previews_ok_step: "resource_step s s' \<Longrightarrow> previews_ok s \<Longrightarrow> previews_ok s'"
proof (induction rule: resource_step.induct)
  case (res_register i p s t s')
  then show ?case using previews_ok_cong [of s' s] by (auto simp: registerProvider_def js_result split: if_splits)
next
  case (res_unregister s t)
  show ?case
  proof (cases "map_get (provider_live s) t")
    case None
    then show ?thesis using res_unregister by (simp add: unregisterProvider_def)
  next
    case (Some n)
    define s1 where "s1 = s\<lparr>provider_live := map_delete (provider_live s) t\<rparr>"
    define s2 where "s2 = (if pendingProviderID s = n \<or> activeProviderID s = n then releasePreview s1 else s1)"
    have "previews_ok s1" using res_unregister previews_ok_cong [of s1 s] by (simp add: s1_def)
    then have "previews_ok s2" by (simp add: s2_def previews_ok_release)
    moreover have "snd (unregisterProvider t s) = s2\<lparr>providers := map_delete (providers s2) n\<rparr>"
      using Some by (simp add: unregisterProvider_def s1_def s2_def Let_def)
    ultimately show ?thesis using previews_ok_cong [of "s2\<lparr>providers := map_delete (providers s2) n\<rparr>" s2] by simp
  qed
next
  case (res_abort s c)
  then show ?case using previews_ok_cong [of "abort_external c s" s] by (simp add: abort_external_def)
next
  case (res_dispose s)
  then show ?case using previews_ok_release [of s] previews_ok_cong [of "dispose_resources s" "releasePreview s"]
    by (simp add: dispose_resources_def)
qed (auto intro: previews_ok_start previews_ok_finish previews_ok_release)

lemma previews_ok_reachable: "resource_reachable s \<Longrightarrow> previews_ok s"
proof (induction rule: resource_reachable.induct)
  case res_new
  show ?case by (simp add: previews_ok_def new_resources_def)
next
  case (res_next s s')
  then show ?case by (blast intro: previews_ok_step)
qed

text \<open>C34: however previews are started, answered late, aborted, released and their providers removed:
  every descriptor that came into being is the active one or has been disposed, none is disposed
  twice, the active one has not been disposed, and it belongs to the latest request.\<close>

theorem previews_disposed_once:
  assumes "resource_reachable s"
  shows "set (produced s) = set (disposed s) \<union> set_option (activePreview s) \<and> distinct (disposed s)
    \<and> (\<forall>c. activePreview s = Some c \<longrightarrow> c = previewSequence s \<and> c \<notin> set (disposed s))"
  using previews_ok_reachable [OF assms] by (simp add: previews_ok_def)

text \<open>a preview is handed to the caller only if its request is still the latest and was not aborted;
  then it becomes the active preview and the one before it has been released. An answer to any other
  request is reported as cancelled, and its descriptor is disposed at once.\<close>

theorem late_preview_cancelled:
  assumes "resource_reachable s" and "map_get (in_flight s) c = Some name"
  shows "case preview_finish c (Gave v) s of (out, s') \<Rightarrow>
     (\<forall>d. out = Previewed d \<longrightarrow> \<not> stale c s \<and> activePreview s = None \<and> activePreview s' = Some c)
   \<and> (stale c s \<longrightarrow> out = PreviewFailed cancelledError \<and> activePreview s' = activePreview s
        \<and> (is_ok (normalizePreviewDescriptor v) \<longrightarrow> disposed s' = disposed s @ [c]))"
proof -
  have ok: "previews_ok s" using assms(1) by (rule previews_ok_reachable)
  have "activePreview s = None" if "\<not> stale c s"
    using that ok assms(2) by (cases "activePreview s") (auto simp: stale_def previews_ok_def)
  then show ?thesis using assms(2)
    by (cases "normalizePreviewDescriptor v") (auto simp: preview_finish_def Let_def)
qed

section \<open>Listing\<close>

lemma add_listed_ok:
  assumes "add_listed seen rs xs = Inr (seen', rs')" and "seen = map resource_key rs" and "distinct seen"
    and "\<forall>r \<in> set rs. \<exists>x. defineResourceRef x = Inr r"
  shows "seen' = map resource_key rs' \<and> distinct seen' \<and> (\<forall>r \<in> set rs'. \<exists>x. defineResourceRef x = Inr r)"
  using assms
proof (induction xs arbitrary: seen rs)
  case Nil
  then show ?case by auto
next
  case (Cons x xs)
  show ?case
  proof (cases "defineResourceRef x")
    case (Inl e)
    then show ?thesis using Cons.prems(1) by simp
  next
    case (Inr r)
    show ?thesis
    proof (cases "resource_key r \<in> set seen")
      case True
      then have "add_listed seen rs xs = Inr (seen', rs')" using Cons.prems(1) Inr by simp
      then show ?thesis by (rule Cons.IH [OF _ Cons.prems(2-4)])
    next
      case False
      have "add_listed (seen @ [resource_key r]) (rs @ [r]) xs = Inr (seen', rs')"
        using Cons.prems(1) Inr False by simp
      then show ?thesis by (rule Cons.IH) (use Cons.prems Inr False in auto)
    qed
  qed
qed

lemma list_related_ok:
  assumes "list_related ctx seen rs ps = Inr out" and "seen = map resource_key rs" and "distinct seen"
    and "\<forall>r \<in> set rs. \<exists>x. defineResourceRef x = Inr r"
  shows "distinct (map resource_key out) \<and> (\<forall>r \<in> set out. \<exists>x. defineResourceRef x = Inr r)"
  using assms
proof (induction ps arbitrary: seen rs)
  case Nil
  then show ?case by simp
next
  case (Cons p ps)
  show ?case
  proof (cases "pv_listRelated p")
    case None
    then have "list_related ctx seen rs ps = Inr out" using Cons.prems(1) by simp
    then show ?thesis by (rule Cons.IH [OF _ Cons.prems(2-4)])
  next
    case (Some f)
    then obtain v seen' rs' where v: "f ctx = Some v" "add_listed seen rs (array_items v) = Inr (seen', rs')"
        "list_related ctx seen' rs' ps = Inr out"
      using Cons.prems(1) by (auto simp: js_result split: option.splits if_splits)
    show ?thesis using add_listed_ok [OF v(2) Cons.prems(2-4)] Cons.IH [OF v(3)] by blast
  qed
qed

text \<open>The resources listed for a context are validated resource references, and no two of them have
  the same source and id.\<close>

theorem listed_once:
  assumes "listRelated ctx s = Inr rs"
  shows "distinct (map (\<lambda>r. (rr_source r, rr_id r)) rs) \<and> (\<forall>r \<in> set rs. \<exists>v. defineResourceRef v = Inr r)"
proof -
  have ok: "distinct (map resource_key rs)" "\<forall>r \<in> set rs. \<exists>x. defineResourceRef x = Inr r"
    using list_related_ok [OF assms [unfolded listRelated_def]] by simp_all
  have "resource_key = (\<lambda>p. fst p @ [10] @ snd p) \<circ> (\<lambda>r. (rr_source r, rr_id r))"
    by (rule ext) (simp add: resource_key_def)
  then have "distinct (map (\<lambda>p. fst p @ [10] @ snd p) (map (\<lambda>r. (rr_source r, rr_id r)) rs))"
    using ok(1) by (simp add: comp_def)
  then show ?thesis using ok(2) distinct_map by blast
qed

text \<open>The key joins source and id with a line feed, so two different resources share a key when the
  line feed is part of one of them, and the second is dropped.\<close>

lemma resource_keys_collide:
  "resource_key (r\<lparr>rr_source := [97, 10, 98], rr_id := [99]\<rparr>) = resource_key (r\<lparr>rr_source := [97], rr_id := [98, 10, 99]\<rparr>)"
  by (simp add: resource_key_def)

section \<open>A sample run\<close>

definition sample_provider :: provider where
  "sample_provider = \<lparr>pv_id = [], pv_supports = None, pv_sourcePrefix = lit ''tma'',
     pv_listRelated = Some (\<lambda>_. Some (JArr [sample_resource, sample_resource])), pv_preview = True, pv_open = None\<rparr>"

definition with_provider :: resource_service where
  "with_provider = (case registerProvider (jlit ''demo'') sample_provider new_resources of
     Inl _ \<Rightarrow> new_resources | Inr (_, s) \<Rightarrow> s)"

definition two_requests :: resource_service where
  "two_requests = snd (preview_start sample_resource False (snd (preview_start sample_resource False with_provider)))"

lemma two_requests_reachable: "resource_reachable two_requests"
proof -
  have "resource_reachable with_provider"
    using res_next [OF res_new res_register, of "jlit ''demo''" sample_provider] res_new
    by (auto simp: with_provider_def split: sum.splits)
  then show ?thesis unfolding two_requests_def by (blast intro: res_next res_preview)
qed

lemma two_requests_state: "map fst (in_flight two_requests) = [1, 2] \<and> map_get (in_flight two_requests) 1 = Some (lit ''demo'')
   \<and> previewSequence two_requests = 2"
  by code_simp

definition sample_descriptor :: jsval where
  "sample_descriptor = jobj [(''kind'', jlit ''text''), (''text'', jlit ''hello'')]"

definition answered :: resource_service where
  "answered = snd (preview_finish 2 (Gave sample_descriptor) two_requests)"

theorem previews_disposed_once_witness:
  "resource_reachable answered \<and> activePreview answered = Some 2 \<and> 2 \<notin> set (disposed answered)"
proof -
  have "resource_reachable answered"
    unfolding answered_def using two_requests_reachable by (blast intro: res_next res_finish)
  moreover have "activePreview answered = Some 2" by code_simp
  ultimately show ?thesis using previews_disposed_once by blast
qed

theorem late_preview_cancelled_witness:
  "stale 1 two_requests \<and> fst (preview_finish 1 (Gave sample_descriptor) two_requests) = PreviewFailed cancelledError"
proof -
  have "stale 1 two_requests" using two_requests_state by (simp add: stale_def)
  then show ?thesis
    using late_preview_cancelled [OF two_requests_reachable, of 1 "lit ''demo''" sample_descriptor] two_requests_state
    by (auto split: prod.splits)
qed

theorem listed_once_witness:
  "\<exists>rs. listRelated JUndef with_provider = Inr rs \<and> length rs = 1 \<and> distinct (map (\<lambda>r. (rr_source r, rr_id r)) rs)"
proof -
  have "case listRelated JUndef with_provider of Inl _ \<Rightarrow> False | Inr rs \<Rightarrow> length rs = 1" by code_simp
  then obtain rs where rs: "listRelated JUndef with_provider = Inr rs" "length rs = 1" by (auto split: sum.splits)
  then show ?thesis using listed_once [OF rs(1)] by blast
qed

end
