(* ===== verification/Session_Artifacts.thy ===== *)
theory Session_Artifacts
  imports Related_Resources
begin

text \<open>
  Artifacts of a session as resources (\<open>apps/workbench/src/workbench/sessionArtifactAdapter.js\<close>): which
  kind of preview a resource gets, which metadata crosses the boundary, and how a response becomes a
  preview descriptor.

  The response (headers and body), the spreadsheet reader of the \<open>xlsx\<close> package and the object-URL
  functions of the browser belong to others: the model takes the header values, the text, the rows
  the reader returns and the created URL as arguments. \<open>pretty\<close> is the result of
  \<open>JSON.stringify(JSON.parse(text), null, 2)\<close>, \<open>None\<close> if the text does not parse.
\<close>

definition SESSION_ARTIFACT_SOURCE_PREFIX :: jstring where
  "SESSION_ARTIFACT_SOURCE_PREFIX = lit ''tma.session-artifact:''"

definition MAX_ARTIFACT_PREVIEW_BYTES :: rat where "MAX_ARTIFACT_PREVIEW_BYTES = 512 * 1024"

definition MAX_ARTIFACT_PREVIEW_CHARACTERS :: nat where "MAX_ARTIFACT_PREVIEW_CHARACTERS = 64000"

definition MAX_SPREADSHEET_PREVIEW_BYTES :: rat where "MAX_SPREADSHEET_PREVIEW_BYTES = 5 * 1024 * 1024"

definition MAX_SPREADSHEET_PREVIEW_ROWS :: nat where "MAX_SPREADSHEET_PREVIEW_ROWS = 50"

definition MAX_SPREADSHEET_PREVIEW_COLUMNS :: nat where "MAX_SPREADSHEET_PREVIEW_COLUMNS = 20"

section \<open>Kinds of resources\<close>

definition imageExtensions :: "jstring list" where
  "imageExtensions = map lit [''png'', ''jpg'', ''jpeg'', ''gif'', ''webp'', ''svg'']"

definition pdfExtensions :: "jstring list" where
  "pdfExtensions = map lit [''pdf'']"

definition spreadsheetExtensions :: "jstring list" where
  "spreadsheetExtensions = map lit [''xlsx'', ''xls'', ''xlsm'', ''ods'']"

definition convertibleDocumentExtensions :: "jstring list" where
  "convertibleDocumentExtensions = map lit [''docx'']"

definition docxMimeType :: jstring where
  "docxMimeType = lit ''application/vnd.openxmlformats-officedocument.wordprocessingml.document''"

definition textExtensions :: "jstring list" where
  "textExtensions = map lit [''txt'', ''md'', ''markdown'', ''json'', ''jsonl'', ''csv'', ''tsv'', ''log'', ''xml'',
     ''html'', ''htm'', ''css'', ''js'', ''jsx'', ''ts'', ''tsx'', ''go'', ''py'', ''sh'', ''yaml'', ''yml'']"

definition plainMetadata :: "jsval \<Rightarrow> jsval" where
  "plainMetadata artifact = object_value (dot artifact ''metadata'')"

definition after_last_dot :: "jstring \<Rightarrow> jstring" where
  "after_last_dot s = (if 46 \<in> set s then rev (takeWhile (\<lambda>c. c \<noteq> 46) (rev s)) else [])"

definition resourceExtension :: "jsval \<Rightarrow> jstring" where
  "resourceExtension resource = after_last_dot (to_lower (text_of (dot resource ''title'')))"

text \<open>\<open>String(contentType || resource?.mimeType || "").toLowerCase()\<close>\<close>

definition resource_type :: "jsval \<Rightarrow> jstring \<Rightarrow> jstring" where
  "resource_type resource contentType =
     to_lower (if contentType = [] then text_of (dot resource ''mimeType'') else contentType)"

definition isConvertibleDocumentResource :: "jsval \<Rightarrow> jstring \<Rightarrow> bool" where
  "isConvertibleDocumentResource resource contentType \<longleftrightarrow> resource_type resource contentType = docxMimeType
     \<or> resourceExtension resource \<in> set convertibleDocumentExtensions"

datatype preview_kind = ImageKind | PdfKind | SpreadsheetKind | TextKind | DownloadKind

definition previewKindForResource :: "jsval \<Rightarrow> jstring \<Rightarrow> preview_kind" where
  "previewKindForResource resource contentType =
     (let ty = resource_type resource contentType; ext = resourceExtension resource in
      if starts_with ty (lit ''image/'') \<or> ext \<in> set imageExtensions then ImageKind
      else if str_includes ty (lit ''application/pdf'') \<or> ext \<in> set pdfExtensions then PdfKind
      else if str_includes ty (lit ''spreadsheet'') \<or> str_includes ty (lit ''ms-excel'')
            \<or> str_includes ty (lit ''opendocument.spreadsheet'') \<or> ext \<in> set spreadsheetExtensions then SpreadsheetKind
      else if isConvertibleDocumentResource resource ty then PdfKind
      else if starts_with ty (lit ''text/'') \<or> str_includes ty (lit ''json'') \<or> str_includes ty (lit ''xml'')
            \<or> ext \<in> set textExtensions then TextKind
      else DownloadKind)"

definition isPDFResource :: "jsval \<Rightarrow> jstring \<Rightarrow> bool" where
  "isPDFResource resource contentType \<longleftrightarrow> previewKindForResource resource contentType = PdfKind"

definition isSpreadsheetResource :: "jsval \<Rightarrow> jstring \<Rightarrow> bool" where
  "isSpreadsheetResource resource contentType \<longleftrightarrow> previewKindForResource resource contentType = SpreadsheetKind"

definition isMarkdownResource :: "jsval \<Rightarrow> jstring \<Rightarrow> bool" where
  "isMarkdownResource resource contentType \<longleftrightarrow> str_includes (resource_type resource contentType) (lit ''markdown'')
     \<or> resourceExtension resource \<in> set (map lit [''md'', ''markdown''])"

definition isHTMLResource :: "jsval \<Rightarrow> jstring \<Rightarrow> bool" where
  "isHTMLResource resource contentType \<longleftrightarrow> str_includes (resource_type resource contentType) (lit ''text/html'')
     \<or> resourceExtension resource \<in> set (map lit [''html'', ''htm''])"

section \<open>HTML previews\<close>

text \<open>The first match of \<open>/<head(\s[^>]*)?>/i\<close> (or of \<open>html\<close>): the text up to the end of the tag, and the
  rest.\<close>

definition tag_here :: "jstring \<Rightarrow> jstring \<Rightarrow> (jstring \<times> jstring) option" where
  "tag_here name s =
     (let n = Suc (length name) in
      if to_lower (take n s) \<noteq> 60 # name then None
      else case drop n s of
          [] \<Rightarrow> None
        | c # r \<Rightarrow> if c = 62 then Some (take (Suc n) s, r)
             else if js_space c \<and> 62 \<in> set r
             then Some (take (Suc n) s @ takeWhile (\<lambda>x. x \<noteq> 62) r @ [62], drop 1 (dropWhile (\<lambda>x. x \<noteq> 62) r))
             else None)"

fun find_tag :: "jstring \<Rightarrow> jstring \<Rightarrow> (jstring \<times> jstring) option" where
  "find_tag name [] = None"
| "find_tag name (c # s) = (case tag_here name (c # s) of
       Some m \<Rightarrow> Some m
     | None \<Rightarrow> map_option (\<lambda>(a, b). (c # a, b)) (find_tag name s))"

definition csp_policy :: jstring where
  "csp_policy = lit ''<meta http-equiv=\"Content-Security-Policy\" content=\"default-src 'none'; img-src data: blob:; media-src data: blob:; style-src 'unsafe-inline'; font-src data:;\">''"

definition htmlPreviewDocument :: "jsval \<Rightarrow> jstring" where
  "htmlPreviewDocument v =
     (let html = text_of v in
      case find_tag (lit ''head'') html of
        Some (a, b) \<Rightarrow> a @ csp_policy @ b
      | None \<Rightarrow> (case find_tag (lit ''html'') html of
            Some (a, b) \<Rightarrow> a @ lit ''<head>'' @ csp_policy @ lit ''</head>'' @ b
          | None \<Rightarrow> lit ''<!doctype html><html><head>'' @ csp_policy @ lit ''</head><body>'' @ html
              @ lit ''</body></html>''))"

section \<open>Metadata\<close>

definition allowed_scalar :: "jsval \<Rightarrow> bool" where
  "allowed_scalar v \<longleftrightarrow> (case v of JStr s \<Rightarrow> s \<noteq> [] | JNum n \<Rightarrow> is_finite n | JBool _ \<Rightarrow> True | _ \<Rightarrow> False)"

definition allowlistedMetadataObject :: "jsval \<Rightarrow> string list \<Rightarrow> (string \<times> jsval) list option" where
  "allowlistedMetadataObject v allowed =
     (if \<not> is_object v then None
      else (let out = filter (\<lambda>(k, x). allowed_scalar x) (map (\<lambda>k. (k, dot v k)) allowed)
            in if out = [] then None else Some out))"

definition metadata_field :: "jsval \<Rightarrow> string \<Rightarrow> (string \<times> jsval) list" where
  "metadata_field inp k = (case dot inp k of
       JStr s \<Rightarrow> if s \<noteq> [] then [(k, JStr s)] else []
     | JNum (Fin r) \<Rightarrow> if k = ''size_bytes'' \<and> r \<ge> 0 then [(k, JNum (Fin r))] else []
     | _ \<Rightarrow> [])"

definition metadata_group :: "string \<Rightarrow> (string \<times> jsval) list option \<Rightarrow> (string \<times> jsval) list" where
  "metadata_group k g = (case g of None \<Rightarrow> [] | Some kvs \<Rightarrow> [(k, jobj kvs)])"

definition validation_checks :: "jsval \<Rightarrow> (string \<times> jsval) list" where
  "validation_checks inp =
     (let checks = List.map_filter (\<lambda>c. allowlistedMetadataObject c [''name'', ''status'', ''message''])
                     (array_items (dot (dot inp ''validation'') ''checks''))
      in if checks = [] then [] else [(''checks'', JArr (map jobj checks))])"

definition id_field :: "string \<Rightarrow> jsval \<Rightarrow> (string \<times> jsval) list" where
  "id_field k v = (case v of JStr s \<Rightarrow> if s \<noteq> [] then [(k, JStr s)] else [] | _ \<Rightarrow> [])"

definition allowlistedMetadata :: "jsval \<Rightarrow> (string \<times> jsval) list" where
  "allowlistedMetadata artifact =
     (let inp = plainMetadata artifact in
      concat (map (metadata_field inp) [''size_bytes'', ''path'', ''file_path'', ''workspace_path'', ''protocol_version''])
      @ metadata_group ''lineage'' (allowlistedMetadataObject (dot inp ''lineage'')
          [''kind'', ''session_id'', ''turn_id'', ''tool_call_id'', ''tool'', ''source_path''])
      @ metadata_group ''template'' (allowlistedMetadataObject (dot inp ''template'')
          [''status'', ''template_id'', ''template_version''])
      @ metadata_group ''validation'' (map_option (\<lambda>kvs. kvs @ validation_checks inp)
          (allowlistedMetadataObject (dot inp ''validation'') [''status'', ''content_type'', ''size_bytes'', ''checksum_sha256'']))
      @ id_field ''turn_id'' (jor (dot artifact ''turn_id'') (dot inp ''turn_id''))
      @ id_field ''object_ref_id'' (jor (dot artifact ''object_ref_id'') (dot inp ''object_ref_id'')))"

section \<open>Artifacts as resources\<close>

datatype artifact_error = ArtifactTypeError jstring | ArtifactContract contract_error

definition artifact_resource :: "jsval \<Rightarrow> jstring \<Rightarrow> jsval" where
  "artifact_resource artifact session =
     (let metadata = plainMetadata artifact; title = jor (dot artifact ''name'') (dot artifact ''id'') in
      jobj ([(''id'', dot artifact ''id''),
             (''type'', if dot artifact ''artifact_type'' = jlit ''file'' then jlit ''file'' else jlit ''artifact''),
             (''title'', title),
             (''source'', JStr (SESSION_ARTIFACT_SOURCE_PREFIX @ session)),
             (''previewable'', JBool (previewKindForResource
                (jobj [(''title'', title), (''mimeType'', dot metadata ''content_type'')]) [] \<noteq> DownloadKind)),
             (''metadata'', jobj (allowlistedMetadata artifact))]
            @ (if string_text (dot metadata ''content_type'') \<noteq> []
               then [(''mimeType'', JStr (string_text (dot metadata ''content_type'')))] else [])))"

definition artifactToResourceRef :: "jsval \<Rightarrow> jsval \<Rightarrow> artifact_error + resource_ref" where
  "artifactToResourceRef artifact sessionID =
     (if \<not> is_object artifact then Inl (ArtifactTypeError (lit ''Artifact must be an object.''))
      else if string_text sessionID = [] then Inl (ArtifactTypeError (lit ''Session id is required.''))
      else case defineResourceRef (artifact_resource artifact (string_text sessionID)) of
          Inl e \<Rightarrow> Inl (ArtifactContract e) | Inr r \<Rightarrow> Inr r)"

definition sessionIDFromResource :: "resource_ref \<Rightarrow> artifact_error + jstring" where
  "sessionIDFromResource r =
     (if \<not> starts_with (rr_source r) SESSION_ARTIFACT_SOURCE_PREFIX
      then Inl (ArtifactTypeError (lit ''Resource is not a Session Artifact.''))
      else (let session = drop (length SESSION_ARTIFACT_SOURCE_PREFIX) (rr_source r) in
            if session = [] then Inl (ArtifactTypeError (lit ''Session Artifact source is missing a session id.''))
            else Inr session))"

definition list_artifacts :: "jsval \<Rightarrow> artifact_error + resource_ref list" where
  "list_artifacts ctx = mapE (\<lambda>a. artifactToResourceRef a (dot ctx ''sessionID'')) (array_items (dot ctx ''artifacts''))"

section \<open>Previews\<close>

definition message_large_sheet :: jstring where
  "message_large_sheet = [30005, 23376, 34920, 26684, 36807, 22823, 65292, 35831, 19979, 36733, 25991, 20214, 21518, 26597, 30475, 12290]"

definition message_large_text :: jstring where
  "message_large_text = [39044, 35272, 20869, 23481, 36807, 22823, 65292, 35831, 19979, 36733, 25991, 20214, 21518, 26597, 30475, 12290]"

definition message_unsupported :: jstring where
  "message_unsupported = [26242, 19981, 25903, 25345, 27492, 25991, 20214, 31867, 22411, 30340, 20869, 32852, 39044, 35272,
     65292, 35831, 19979, 36733, 21518, 26597, 30475, 12290]"

definition truncation_mark :: jstring where
  "truncation_mark = [10, 10, 91, 39044, 35272, 24050, 25130, 26029, 93]"

record preview_limits =
  lim_textBytes :: rat
  lim_textCharacters :: nat
  lim_sheetBytes :: rat
  lim_rows :: nat
  lim_columns :: nat

definition default_limits :: preview_limits where
  "default_limits = \<lparr>lim_textBytes = MAX_ARTIFACT_PREVIEW_BYTES, lim_textCharacters = MAX_ARTIFACT_PREVIEW_CHARACTERS,
     lim_sheetBytes = MAX_SPREADSHEET_PREVIEW_BYTES, lim_rows = MAX_SPREADSHEET_PREVIEW_ROWS,
     lim_columns = MAX_SPREADSHEET_PREVIEW_COLUMNS\<rparr>"

text \<open>The workbook as the reader returns it: the sheet names and the rows of the first sheet (a row that
  is not an array counts as empty).\<close>

definition spreadsheetPreview :: "preview_limits \<Rightarrow> jsnum \<Rightarrow> jstring list \<Rightarrow> jsval list \<Rightarrow> jsval" where
  "spreadsheetPreview lm contentLength sheets raw =
     (if num_less (Fin (lim_sheetBytes lm)) contentLength
      then jobj [(''kind'', jlit ''download''), (''message'', JStr message_large_sheet)]
      else (let name = (case sheets of [] \<Rightarrow> [] | n # _ \<Rightarrow> n); rows = map row_cells raw in
        if name = []
        then jobj [(''kind'', jlit ''spreadsheet''), (''sheets'', JArr []), (''activeSheet'', JStr []), (''rows'', JArr []),
                   (''truncated'', JBool False)]
        else jobj [(''kind'', jlit ''spreadsheet''), (''sheets'', JArr (map JStr sheets)), (''activeSheet'', JStr name),
                   (''rows'', JArr (map (\<lambda>row. JArr (map JStr (take (lim_columns lm) row))) (take (lim_rows lm) rows))),
                   (''truncated'', JBool (length rows > lim_rows lm
                      \<or> list_ex (\<lambda>row. length row > lim_columns lm) rows))]))"

definition text_preview :: "preview_limits \<Rightarrow> (jstring \<Rightarrow> jstring option) \<Rightarrow> jstring \<Rightarrow> jsnum \<Rightarrow> jstring \<Rightarrow> jsval" where
  "text_preview lm pretty contentType contentLength body =
     (if num_less (Fin (lim_textBytes lm)) contentLength
      then jobj [(''kind'', jlit ''download''), (''contentType'', JStr contentType), (''message'', JStr message_large_text)]
      else (let txt = (if str_includes (to_lower contentType) (lit ''json'')
                       then (case pretty body of Some t \<Rightarrow> t | None \<Rightarrow> body) else body) in
        jobj [(''kind'', jlit ''text''), (''contentType'', JStr contentType),
              (''text'', JStr (if length txt > lim_textCharacters lm
                              then take (lim_textCharacters lm) txt @ truncation_mark else txt))]))"

record artifact_response =
  rs_contentType :: jsval
  rs_contentLength :: jsval
  rs_objectUrl :: jstring
  rs_revoke :: nat
  rs_text :: jstring
  rs_sheets :: "jstring list"
  rs_rows :: "jsval list"

definition previewDescriptorFromResponse :: "preview_limits \<Rightarrow> (jstring \<Rightarrow> jstring option) \<Rightarrow> resource_ref
    \<Rightarrow> artifact_response \<Rightarrow> jsval" where
  "previewDescriptorFromResponse lm pretty r resp =
     (let resource = resource_ref_val r;
          contentType = text_of (jor (rs_contentType resp) (dot resource ''mimeType''));
          contentLength = to_num (jor (rs_contentLength resp) (jint 0)) in
      case previewKindForResource resource contentType of
        ImageKind \<Rightarrow> jobj [(''kind'', jlit ''image''), (''contentType'', JStr contentType),
            (''objectUrl'', JStr (rs_objectUrl resp)), (''dispose'', JFun (rs_revoke resp))]
      | PdfKind \<Rightarrow> jobj [(''kind'', jlit ''pdf''), (''contentType'', JStr contentType),
            (''objectUrl'', JStr (rs_objectUrl resp)), (''dispose'', JFun (rs_revoke resp))]
      | SpreadsheetKind \<Rightarrow> (case spreadsheetPreview lm contentLength (rs_sheets resp) (rs_rows resp) of
            JObj p kvs \<Rightarrow> JObj p ((lit ''contentType'', JStr contentType) # kvs) | v \<Rightarrow> v)
      | TextKind \<Rightarrow> text_preview lm pretty contentType contentLength (rs_text resp)
      | DownloadKind \<Rightarrow> jobj [(''kind'', jlit ''download''), (''contentType'', JStr contentType),
            (''message'', JStr message_unsupported)])"

section \<open>Properties\<close>

lemma string_text_source:
  assumes "string_text v = s" and "s \<noteq> []"
  shows "trim (SESSION_ARTIFACT_SOURCE_PREFIX @ s) = SESSION_ARTIFACT_SOURCE_PREFIX @ s"
proof -
  have t: "trim s = s" using assms(1) trim_string_text by metis
  have "dropWhile js_space (SESSION_ARTIFACT_SOURCE_PREFIX @ s) = SESSION_ARTIFACT_SOURCE_PREFIX @ s"
    by (simp add: SESSION_ARTIFACT_SOURCE_PREFIX_def lit_def js_space_def)
  moreover have "\<not> js_space (last s)" using trim_ends [of s] t assms(2) by simp
  then have "dropWhile js_space (rev (SESSION_ARTIFACT_SOURCE_PREFIX @ s)) = rev (SESSION_ARTIFACT_SOURCE_PREFIX @ s)"
    using assms(2) by (intro dropWhile_id) (simp add: hd_append hd_rev)
  ultimately show ?thesis by (simp add: trim_def)
qed

text \<open>an artifact converted to a resource reference is well formed and still names its session: the
  session id read back from the source is the (trimmed) id it was made with.\<close>

theorem artifact_session_roundtrip:
  assumes "artifactToResourceRef artifact session = Inr r"
  shows "sessionIDFromResource r = Inr (string_text session) \<and> rr_type r \<in> set (map lit [''file'', ''artifact''])"
proof -
  have s: "string_text session \<noteq> []" and r: "defineResourceRef (artifact_resource artifact (string_text session)) = Inr r"
    using assms by (auto simp: artifactToResourceRef_def split: if_splits sum.splits)
  have src: "dot (artifact_resource artifact (string_text session)) ''source'' = JStr (SESSION_ARTIFACT_SOURCE_PREFIX @ string_text session)"
    by (simp add: artifact_resource_def Let_def dot_jobj)
  have ty: "dot (artifact_resource artifact (string_text session)) ''type'' \<in> {jlit ''file'', jlit ''artifact''}"
    by (simp add: artifact_resource_def Let_def dot_jobj)
  have "rr_source r = SESSION_ARTIFACT_SOURCE_PREFIX @ string_text session" "rr_type r = string_text (dot (artifact_resource artifact (string_text session)) ''type'')"
    using r src string_text_source [OF refl s] by (auto simp: defineResourceRef_Inr requireString_def split: if_splits)
  moreover have "trim (lit ''file'') = lit ''file''" "trim (lit ''artifact'') = lit ''artifact''" by code_simp+
  ultimately show ?thesis using s ty by (auto simp: sessionIDFromResource_def Let_def)
qed

text \<open>the rows of a spreadsheet preview stay within the row and column limits, and the preview says
  it is truncated exactly if a row or a cell was left out.\<close>

theorem spreadsheet_preview_bounded:
  assumes "\<not> num_less (Fin (lim_sheetBytes lm)) contentLength" and "hd sheets \<noteq> []" and "sheets \<noteq> []"
  shows "\<exists>rows. dot (spreadsheetPreview lm contentLength sheets raw) ''rows'' = JArr (map (\<lambda>row. JArr (map JStr row)) rows)
     \<and> length rows \<le> lim_rows lm \<and> (\<forall>row \<in> set rows. length row \<le> lim_columns lm)
     \<and> (dot (spreadsheetPreview lm contentLength sheets raw) ''truncated'' = JBool True \<longleftrightarrow> rows \<noteq> map row_cells raw)"
proof -
  let ?all = "map row_cells raw"
  let ?rows = "map (take (lim_columns lm)) (take (lim_rows lm) ?all)"
  have cut: "map (take (lim_columns lm)) xs = xs \<longleftrightarrow> \<not> list_ex (\<lambda>row. length row > lim_columns lm) xs" for xs :: "jstring list list"
    by (induction xs) (auto simp: not_less)
  have "?rows = ?all \<longleftrightarrow> \<not> (length ?all > lim_rows lm \<or> list_ex (\<lambda>row. length row > lim_columns lm) ?all)"
  proof (cases "length ?all > lim_rows lm")
    case True
    then have "length ?rows \<noteq> length ?all" by simp
    then show ?thesis using True by metis
  next
    case False
    then have "take (lim_rows lm) ?all = ?all" by simp
    then show ?thesis using False cut [of ?all] by (simp only:) simp
  qed
  moreover have "dot (spreadsheetPreview lm contentLength sheets raw) ''truncated'' = JBool (length ?all > lim_rows lm
      \<or> list_ex (\<lambda>row. length row > lim_columns lm) ?all)"
    "dot (spreadsheetPreview lm contentLength sheets raw) ''rows'' = JArr (map (\<lambda>row. JArr (map JStr row)) ?rows)"
    using assms by (cases sheets; simp add: spreadsheetPreview_def Let_def dot_jobj comp_def)+
  ultimately show ?thesis by (intro exI [of _ ?rows]) (auto simp: min_def)
qed

text \<open>A text preview never holds more than the limit of characters and the truncation mark, and it
  begins with the text of the response when that is not JSON.\<close>

theorem text_preview_bounded:
  assumes "\<not> num_less (Fin (lim_textBytes lm)) contentLength"
  shows "\<exists>t. dot (text_preview lm pretty contentType contentLength body) ''text'' = JStr t
     \<and> length t \<le> lim_textCharacters lm + length truncation_mark
     \<and> (\<not> str_includes (to_lower contentType) (lit ''json'') \<longrightarrow> take (lim_textCharacters lm) t = take (lim_textCharacters lm) body)"
  using assms by (auto simp: text_preview_def Let_def dot_jobj split: option.splits)

lemma allowlisted_keys:
  "allowlistedMetadataObject v ks = Some kvs \<Longrightarrow> set (map fst kvs) \<subseteq> set ks \<and> (\<forall>(k, x) \<in> set kvs. allowed_scalar x)"
  by (auto simp: allowlistedMetadataObject_def Let_def split: if_splits)

lemma metadata_field_key: "(k, v) \<in> set (metadata_field inp f) \<Longrightarrow> k = f \<and> allowed_scalar v"
  by (auto simp: metadata_field_def allowed_scalar_def is_finite_def split: jsval.splits jsnum.splits if_splits)

lemma id_field_key: "(k, v) \<in> set (id_field f x) \<Longrightarrow> k = f \<and> allowed_scalar v"
  by (auto simp: id_field_def allowed_scalar_def split: jsval.splits if_splits)

lemma metadata_group_key: "(k, v) \<in> set (metadata_group f g) \<Longrightarrow> k = f"
  by (auto simp: metadata_group_def split: option.splits)

text \<open>the metadata that crosses to the plugins has only the listed keys, whatever the artifact carries,
  and outside the three nested groups every value is a non-empty string, a finite number or a
  boolean.\<close>

theorem metadata_allowlisted:
  assumes "(k, v) \<in> set (allowlistedMetadata artifact)"
  shows "k \<in> set [''size_bytes'', ''path'', ''file_path'', ''workspace_path'', ''protocol_version'', ''lineage'', ''template'',
      ''validation'', ''turn_id'', ''object_ref_id'']
    \<and> (k \<notin> set [''lineage'', ''template'', ''validation''] \<longrightarrow> allowed_scalar v)"
  using assms
  by (auto simp: allowlistedMetadata_def Let_def dest!: metadata_field_key id_field_key metadata_group_key)

definition sample_artifact :: jsval where
  "sample_artifact = jobj [(''id'', jlit ''art_1''), (''name'', jlit ''Plan.md''),
     (''metadata'', jobj [(''size_bytes'', jint 12), (''secret'', jlit ''x''), (''content_type'', jlit ''text/markdown'')])]"

theorem artifact_session_roundtrip_witness:
  "\<exists>r. artifactToResourceRef sample_artifact (jlit '' s1 '') = Inr r \<and> sessionIDFromResource r = Inr (lit ''s1'')"
proof -
  have "case artifactToResourceRef sample_artifact (jlit '' s1 '') of Inl _ \<Rightarrow> False | Inr r \<Rightarrow> rr_title r = lit ''Plan.md''"
    by code_simp
  then obtain r where r: "artifactToResourceRef sample_artifact (jlit '' s1 '') = Inr r" by (auto split: sum.splits)
  have "string_text (jlit '' s1 '') = lit ''s1''" by code_simp
  then show ?thesis using artifact_session_roundtrip [OF r] r by simp
qed

theorem spreadsheet_preview_bounded_witness:
  "\<exists>rows. dot (spreadsheetPreview default_limits (Fin 10) [lit ''S''] [JArr [jint 1]]) ''rows'' = JArr (map (\<lambda>row. JArr (map JStr row)) rows)
     \<and> length rows \<le> 50"
  using spreadsheet_preview_bounded [of default_limits "Fin 10" "[lit ''S'']" "[JArr [jint 1]]"]
  by (auto simp: default_limits_def MAX_SPREADSHEET_PREVIEW_BYTES_def MAX_SPREADSHEET_PREVIEW_ROWS_def lit_def)

theorem text_preview_bounded_witness:
  "\<exists>t. dot (text_preview default_limits (\<lambda>_. None) (lit ''text/plain'') (Fin 5) (lit ''hello'')) ''text'' = JStr t
     \<and> length t \<le> 64009"
  using text_preview_bounded [of default_limits "Fin 5" "\<lambda>_. None" "lit ''text/plain''" "lit ''hello''"]
  by (auto simp: default_limits_def MAX_ARTIFACT_PREVIEW_BYTES_def MAX_ARTIFACT_PREVIEW_CHARACTERS_def truncation_mark_def)

theorem metadata_allowlisted_witness:
  "(''size_bytes'', jint 12) \<in> set (allowlistedMetadata sample_artifact) \<and> allowed_scalar (jint 12)"
proof -
  have "(''size_bytes'', jint 12) \<in> set (allowlistedMetadata sample_artifact)" by code_simp
  then show ?thesis using metadata_allowlisted by fastforce
qed

end
