(* ===== verification/JS_URI.thy ===== *)
theory JS_URI
  imports JS_Prelude
begin

text \<open>
  \<open>encodeURIComponent\<close> and \<open>decodeURIComponent\<close> of the JavaScript library on lists of UTF-16 code units, and the
  round trip between them. The browser gateway decodes session ids in paths; the research projects encode the
  parts of their storage key.
\<close>

section \<open>Decoding\<close>

text \<open>\<open>decodeURIComponent\<close>: \<open>None\<close> is a \<open>URIError\<close>. Bytes are given by two hexadecimal digits after a percent
  sign and form UTF-8 sequences.\<close>

definition hex_value :: "int \<Rightarrow> int option" where
  "hex_value c = (if is_digit c then Some (c - 48) else if 97 \<le> c \<and> c \<le> 102 then Some (c - 87)
     else if 65 \<le> c \<and> c \<le> 70 then Some (c - 55) else None)"

fun percent_byte :: "jstring \<Rightarrow> (int \<times> jstring) option" where
  "percent_byte (p # a # b # s) = (if p = 37 then (case (hex_value a, hex_value b) of
       (Some x, Some y) \<Rightarrow> Some (16 * x + y, s) | _ \<Rightarrow> None) else None)"
| "percent_byte _ = None"

fun continuation :: "nat \<Rightarrow> int \<Rightarrow> jstring \<Rightarrow> (int \<times> jstring) option" where
  "continuation 0 v s = Some (v, s)"
| "continuation (Suc n) v s = (case percent_byte s of
       Some (b, s') \<Rightarrow> if 128 \<le> b \<and> b < 192 then continuation n (64 * v + (b - 128)) s' else None
     | None \<Rightarrow> None)"

definition code_point :: "int \<Rightarrow> int \<Rightarrow> jstring option" where
  "code_point least v =
     (if v < least \<or> 1114111 < v \<or> (55296 \<le> v \<and> v \<le> 57343) then None
      else if v < 65536 then Some [v]
      else Some [55296 + (v - 65536) div 1024, 56320 + (v - 65536) mod 1024])"

definition utf8_sequence :: "int \<Rightarrow> jstring \<Rightarrow> (jstring \<times> jstring) option" where
  "utf8_sequence b s =
     (if b < 128 then Some ([b], s)
      else if 192 \<le> b \<and> b < 224
      then (case continuation 1 (b - 192) s of Some (v, s') \<Rightarrow> map_option (\<lambda>u. (u, s')) (code_point 128 v) | None \<Rightarrow> None)
      else if 224 \<le> b \<and> b < 240
      then (case continuation 2 (b - 224) s of Some (v, s') \<Rightarrow> map_option (\<lambda>u. (u, s')) (code_point 2048 v) | None \<Rightarrow> None)
      else if 240 \<le> b \<and> b < 248
      then (case continuation 3 (b - 240) s of Some (v, s') \<Rightarrow> map_option (\<lambda>u. (u, s')) (code_point 65536 v) | None \<Rightarrow> None)
      else None)"

lemma percent_byte_shorter: "percent_byte s = Some (b, s') \<Longrightarrow> length s' < length s"
  by (induction s rule: percent_byte.induct) (auto split: if_splits option.splits)

lemma continuation_shorter: "continuation n v s = Some (w, s') \<Longrightarrow> length s' \<le> length s"
proof (induction n arbitrary: v s)
  case (Suc n)
  then obtain b r where r: "percent_byte s = Some (b, r)" "continuation n (64 * v + (b - 128)) r = Some (w, s')"
    by (auto split: option.splits if_splits)
  show ?case using Suc.IH [OF r(2)] percent_byte_shorter [OF r(1)] by simp
qed simp

lemma utf8_sequence_shorter: "utf8_sequence b s = Some (u, s') \<Longrightarrow> length s' \<le> length s"
  by (auto simp: utf8_sequence_def simp del: continuation.simps split: if_splits option.splits dest: continuation_shorter)

function decodeURIComponent :: "jstring \<Rightarrow> jstring option" where
  "decodeURIComponent [] = Some []"
| "decodeURIComponent (c # s) =
     (if c \<noteq> 37 then map_option (\<lambda>r. c # r) (decodeURIComponent s)
      else case percent_byte (c # s) of
          None \<Rightarrow> None
        | Some (b, s1) \<Rightarrow> (case utf8_sequence b s1 of
              None \<Rightarrow> None
            | Some (u, s2) \<Rightarrow> map_option (\<lambda>r. u @ r) (decodeURIComponent s2)))"
  by pat_completeness auto
termination
proof (relation "measure length", goal_cases)
  case (3 c s x b s1 y u s2)
  then show ?case using percent_byte_shorter [of "c # s" b s1] utf8_sequence_shorter [of b s1 u s2] by simp
qed simp_all

section \<open>Encoding\<close>

definition hex_digit :: "int \<Rightarrow> int" where
  "hex_digit n = (if n < 10 then 48 + n else 55 + n)"

definition percent :: "int \<Rightarrow> jstring" where
  "percent b = [37, hex_digit (b div 16), hex_digit (b mod 16)]"

text \<open>The UTF-8 sequence of a code point, each byte after a percent sign.\<close>

definition percent_utf8 :: "int \<Rightarrow> jstring" where
  "percent_utf8 v =
     (if v < 128 then percent v
      else if v < 2048 then percent (192 + v div 64) @ percent (128 + v mod 64)
      else if v < 65536 then percent (224 + v div 4096) @ percent (128 + v div 64 mod 64) @ percent (128 + v mod 64)
      else percent (240 + v div 262144) @ percent (128 + v div 4096 mod 64) @ percent (128 + v div 64 mod 64)
             @ percent (128 + v mod 64))"

definition uri_unreserved :: "int \<Rightarrow> bool" where
  "uri_unreserved c \<longleftrightarrow> is_digit c \<or> is_lower c \<or> is_upper c \<or> c \<in> set [45, 95, 46, 33, 126, 42, 39, 40, 41]"

definition high_surrogate :: "int \<Rightarrow> bool" where
  "high_surrogate c \<longleftrightarrow> 55296 \<le> c \<and> c \<le> 56319"

definition low_surrogate :: "int \<Rightarrow> bool" where
  "low_surrogate c \<longleftrightarrow> 56320 \<le> c \<and> c \<le> 57343"

text \<open>A lone surrogate is a \<open>URIError\<close>.\<close>

fun encodeURIComponent :: "jstring \<Rightarrow> jstring option" where
  "encodeURIComponent [] = Some []"
| "encodeURIComponent (c # s) =
     (if uri_unreserved c then map_option (\<lambda>r. c # r) (encodeURIComponent s)
      else if low_surrogate c then None
      else if high_surrogate c
      then (case s of
          [] \<Rightarrow> None
        | d # s' \<Rightarrow> if low_surrogate d
            then map_option (\<lambda>r. percent_utf8 (65536 + 1024 * (c - 55296) + (d - 56320)) @ r) (encodeURIComponent s')
            else None)
      else map_option (\<lambda>r. percent_utf8 c @ r) (encodeURIComponent s))"

definition code_units :: "jstring \<Rightarrow> bool" where
  "code_units s \<longleftrightarrow> list_all (\<lambda>c. 0 \<le> c \<and> c < 65536) s"

section \<open>Round trip\<close>

lemma hex_value_digit: "0 \<le> n \<Longrightarrow> n < 16 \<Longrightarrow> hex_value (hex_digit n) = Some n"
  by (auto simp: hex_value_def hex_digit_def is_digit_def)

lemma percent_byte_percent [simp]: "0 \<le> b \<Longrightarrow> b < 256 \<Longrightarrow> percent_byte (percent b @ r) = Some (b, r)"
  by (simp add: percent_def hex_value_digit)

lemma decode_percent:
  "0 \<le> b \<Longrightarrow> b < 256 \<Longrightarrow> decodeURIComponent (percent b @ r)
     = (case utf8_sequence b r of None \<Rightarrow> None | Some (u, s) \<Rightarrow> map_option (\<lambda>t. u @ t) (decodeURIComponent s))"
  using percent_byte_percent [of b r] by (simp add: percent_def del: percent_byte.simps)

lemma continuation_percent [simp]:
  "continuation (Suc n) v (percent (128 + x mod 64) @ r) = continuation n (64 * v + x mod 64) r"
  by simp

lemma utf8_sequence_percent:
  assumes "0 \<le> v" "v < 1114112" "\<not> (55296 \<le> v \<and> v \<le> 57343)"
  shows "decodeURIComponent (percent_utf8 v @ r) = map_option (\<lambda>t. the (code_point 0 v) @ t) (decodeURIComponent r)"
proof -
  have c: "code_point l v = Some (the (code_point 0 v))" if "l \<le> v" for l
    using assms that by (auto simp: code_point_def)
  have d: "v div 4096 = v div 64 div 64" "v div 262144 = v div 64 div 64 div 64"
    using zdiv_zmult2_eq [of 64 v 64] zdiv_zmult2_eq [of 64 "v div 64" 64] zdiv_zmult2_eq [of 4096 v 64] by simp_all
  have m: "64 * (x div 64) + x mod 64 = x" for x :: int by simp
  have q: "x < 64 * k \<Longrightarrow> x div 64 < k" for x k :: int by presburger
  consider "v < 128" | "128 \<le> v" "v < 2048" | "2048 \<le> v" "v < 65536" | "65536 \<le> v" by linarith
  then show ?thesis
  proof cases
    case 1
    then show ?thesis using assms
      by (cases "decodeURIComponent r") (simp_all add: percent_utf8_def decode_percent utf8_sequence_def code_point_def)
  next
    case 2
    then have "0 \<le> v div 64" "v div 64 < 32" using q [of v 32] by simp_all
    with 2 have "utf8_sequence (192 + v div 64) (percent (128 + v mod 64) @ r) = Some (the (code_point 0 v), r)"
      using m [of v] c [of 128] by (simp add: utf8_sequence_def del: continuation.simps(2))
    then show ?thesis using 2 assms by (simp add: percent_utf8_def decode_percent)
  next
    case 3
    then have "0 \<le> v div 64 div 64" "v div 64 div 64 < 16" using q [of v 1024] q [of "v div 64" 16] by simp_all
    with 3 have "utf8_sequence (224 + v div 4096) (percent (128 + v div 64 mod 64) @ percent (128 + v mod 64) @ r)
        = Some (the (code_point 0 v), r)"
      using m [of v] m [of "v div 64"] c [of 2048] d
      by (simp add: utf8_sequence_def numeral_2_eq_2 del: continuation.simps(2))
    then show ?thesis using 3 assms by (simp add: percent_utf8_def decode_percent)
  next
    case 4
    define a b c' d' where "a = v div 64 div 64 div 64" and "b = v div 64 div 64 mod 64" and "c' = v div 64 mod 64" and "d' = v mod 64"
    have r: "0 \<le> b" "b < 64" "0 \<le> c'" "c' < 64" "0 \<le> d'" "d' < 64" by (simp_all add: b_def c'_def d'_def)
    have a: "0 \<le> a" "a < 8"
      using 4 assms(2) q [of v 32768] q [of "v div 64" 512] q [of "v div 64 div 64" 8] by (simp_all add: a_def)
    have v: "64 * (64 * (64 * a + b) + c') + d' = v" unfolding a_def b_def c'_def d'_def m ..
    have "utf8_sequence (240 + a) (percent (128 + b) @ percent (128 + c') @ percent (128 + d') @ r) = Some (the (code_point 0 v), r)"
      using a r v c [OF 4] by (simp add: utf8_sequence_def numeral_3_eq_3)
    then have "utf8_sequence (240 + v div 262144)
        (percent (128 + v div 4096 mod 64) @ percent (128 + v div 64 mod 64) @ percent (128 + v mod 64) @ r)
        = Some (the (code_point 0 v), r)"
      unfolding d a_def b_def c'_def d'_def .
    then show ?thesis using 4 assms by (simp add: percent_utf8_def decode_percent)
  qed
qed

lemma surrogate_pair:
  assumes "high_surrogate c" "low_surrogate d"
  shows "code_point 0 (65536 + 1024 * (c - 55296) + (d - 56320)) = Some [c, d]"
proof -
  have split: "(1024 * k + l) div 1024 = k \<and> (1024 * k + l) mod 1024 = l" if "0 \<le> l" "l < 1024" for k l :: int
    using that by simp
  define k l where "k = c - 55296" and "l = d - 56320"
  have kl: "0 \<le> k" "k < 1024" "0 \<le> l" "l < 1024" "c = 55296 + k" "d = 56320 + l"
    using assms by (auto simp: k_def l_def high_surrogate_def low_surrogate_def)
  then show ?thesis using split [of l k] by (simp add: code_point_def)
qed

theorem uri_roundtrip:
  assumes "code_units s" "encodeURIComponent s = Some e"
  shows "decodeURIComponent e = Some s"
  using assms
proof (induction s arbitrary: e rule: encodeURIComponent.induct)
  case (2 c s)
  consider (plain) "uri_unreserved c" | (pair) d s' where "\<not> uri_unreserved c" "high_surrogate c" "s = d # s'" "low_surrogate d"
    | (other) "\<not> uri_unreserved c" "\<not> low_surrogate c" "\<not> high_surrogate c"
    using 2(5) by (auto split: if_splits list.splits)
  then show ?case
  proof cases
    case plain
    then obtain r where r: "encodeURIComponent s = Some r" "e = c # r" using 2(5) by auto
    moreover have "decodeURIComponent r = Some s" using 2(1) [OF plain _ r(1)] 2(4) by (simp add: code_units_def)
    moreover have "c \<noteq> 37" using plain by (auto simp: uri_unreserved_def is_digit_def is_lower_def is_upper_def)
    ultimately show ?thesis by simp
  next
    case pair
    let ?v = "65536 + 1024 * (c - 55296) + (d - 56320)"
    have low: "\<not> low_surrogate c" using pair(2) by (simp add: high_surrogate_def low_surrogate_def)
    obtain r where r: "encodeURIComponent s' = Some r" "e = percent_utf8 ?v @ r" using 2(5) pair low by auto
    have "decodeURIComponent r = Some s'" using 2(2) [OF pair(1) low pair(2,3,4) _ r(1)] 2(4) pair(3) by (simp add: code_units_def)
    moreover have "0 \<le> ?v" "?v < 1114112" "\<not> (55296 \<le> ?v \<and> ?v \<le> 57343)"
      using pair(2,4) by (simp_all add: high_surrogate_def low_surrogate_def)
    note utf8_sequence_percent [OF this]
    ultimately show ?thesis using r(2) pair(3) surrogate_pair [OF pair(2,4)] by simp
  next
    case other
    then obtain r where r: "encodeURIComponent s = Some r" "e = percent_utf8 c @ r" using 2(5) by auto
    have "decodeURIComponent r = Some s" using 2(3) [OF other(1,2,3) _ r(1)] 2(4) by (simp add: code_units_def)
    moreover have "0 \<le> c" "c < 1114112" "\<not> (55296 \<le> c \<and> c \<le> 57343)"
      using 2(4) other by (auto simp: code_units_def high_surrogate_def low_surrogate_def)
    note utf8_sequence_percent [OF this]
    moreover have "the (code_point 0 c) = [c]"
      using 2(4) other by (auto simp: code_units_def code_point_def high_surrogate_def low_surrogate_def)
    ultimately show ?thesis using r(2) by simp
  qed
qed simp

corollary encodeURIComponent_inject:
  "code_units s \<Longrightarrow> code_units t \<Longrightarrow> encodeURIComponent s = Some e \<Longrightarrow> encodeURIComponent t = Some e \<Longrightarrow> s = t"
  by (metis uri_roundtrip option.inject)

text \<open>The encoded text has no colon, whatever the input.\<close>

lemma percent_no_colon [simp]: "58 \<notin> set (percent b)"
proof -
  have "58 \<noteq> hex_digit n" for n unfolding hex_digit_def by (cases "n < 10") simp_all
  then show ?thesis by (simp add: percent_def)
qed

lemma encode_no_colon: "encodeURIComponent s = Some e \<Longrightarrow> 58 \<notin> set e"
proof (induction s arbitrary: e rule: encodeURIComponent.induct)
  case (2 c s)
  have "58 \<notin> set (percent_utf8 v)" for v by (simp add: percent_utf8_def)
  moreover have "uri_unreserved c \<Longrightarrow> 58 \<noteq> c"
    by (auto simp: uri_unreserved_def is_digit_def is_lower_def is_upper_def)
  ultimately show ?case using 2 by (fastforce split: if_splits list.splits)
qed simp

end
