(* ===== verification/Browser_Gateway.thy ===== *)
theory Browser_Gateway
  imports JS_URI
begin

text \<open>
  The browser gateway (\<open>extensions/browser-gateway/src\<close>): \<open>auth.mjs\<close> turns a request into a scope,
  \<open>session-manager.mjs\<close> keeps the browser sessions of the workspaces, \<open>server.mjs\<close> routes.

  Parameters of the model, because they are not code of the repository: the hash functions of
  \<open>node:crypto\<close> (\<open>sha\<close>, \<open>hmac\<close>), the answers of the TMA server to the two \<open>fetch\<close> calls (\<open>me\<close>,
  \<open>allowed\<close>), the random session id, the clock, and the browser itself (record \<open>browser\<close>: what a page
  shows and whether an operation on it succeeds). A thrown error is \<open>GatewayError\<close> with its status.

  Creating a session is asynchronous: \<open>create_start\<close> checks and \<open>create_launched\<close> registers the
  session after the browser has started; other requests may run in between.
\<close>

datatype gateway_error = GatewayError nat jstring

section \<open>Requests\<close>

text \<open>\<open>hr_path\<close> and \<open>hr_query\<close> are the path and the query parameters that \<open>new URL\<close> reads from the request line,
  \<open>hr_chunks\<close> the chunks (of bytes) in which the body arrives, and \<open>hr_json\<close> what \<open>JSON.parse\<close> makes of a body
  that is not empty (\<open>None\<close> when it throws).\<close>

record http_request =
  hr_method :: jstring
  hr_path :: jstring
  hr_headers :: "(jstring \<times> jsval) list"
  hr_query :: "(jstring \<times> jstring) list"
  hr_chunks :: "jstring list"
  hr_json :: "jsval option"

definition header :: "http_request \<Rightarrow> string \<Rightarrow> jstring" where
  "header req name = trimmed_text (case map_of (hr_headers req) (lit name) of Some v \<Rightarrow> v | None \<Rightarrow> JUndef)"

datatype scope_kind = ServiceScope | UserScope

record scope =
  sc_kind :: scope_kind
  sc_workspaceID :: jstring
  sc_ownerID :: jstring
  sc_tmaSessionID :: jstring
  sc_forwardedHeaders :: "(string \<times> jstring) list"

record auth_options =
  ao_disabled :: bool
  ao_serviceSecret :: jstring
  ao_tmaServerBaseURL :: jstring
  ao_trustedOrigins :: "jstring list"

section \<open>Authentication\<close>

text \<open>The fields that are signed, joined by line feeds.\<close>

definition canonical_request :: "jstring list \<Rightarrow> jstring" where
  "canonical_request parts = join [10] parts"

definition serviceSignature :: "(jstring \<Rightarrow> jstring) \<Rightarrow> (jstring \<Rightarrow> jstring \<Rightarrow> jstring) \<Rightarrow> jstring \<Rightarrow> jstring \<Rightarrow> jstring
    \<Rightarrow> jstring \<Rightarrow> jstring \<Rightarrow> jstring \<Rightarrow> jstring \<Rightarrow> jstring" where
  "serviceSignature sha hmac secret timestamp method pathname workspaceID sessionID body =
     hmac secret (canonical_request [timestamp, to_upper method, pathname, workspaceID, sessionID, sha body])"

definition fresh_timestamp :: "rat \<Rightarrow> jsnum \<Rightarrow> bool" where
  "fresh_timestamp now n \<longleftrightarrow> (case n of Fin s \<Rightarrow> \<bar>now - s\<bar> \<le> 60 | _ \<Rightarrow> False)"

definition serviceScope :: "(jstring \<Rightarrow> jstring) \<Rightarrow> (jstring \<Rightarrow> jstring \<Rightarrow> jstring) \<Rightarrow> rat \<Rightarrow> auth_options \<Rightarrow> http_request
    \<Rightarrow> jstring \<Rightarrow> gateway_error + scope option" where
  "serviceScope sha hmac now opts req body =
     (let signature = header req ''x-tma-browser-signature'' in
      if signature = [] then Inr None
      else if ao_serviceSecret opts = []
      then Inl (GatewayError 503 (lit ''browser gateway service authentication is not configured''))
      else (let timestamp = header req ''x-tma-browser-timestamp'';
                workspaceID = header req ''x-tma-workspace-id'';
                sessionID = header req ''x-tma-session-id'' in
        if workspaceID = [] \<or> sessionID = [] \<or> \<not> fresh_timestamp now (str_to_num timestamp)
        then Inl (GatewayError 401 (lit ''invalid browser gateway service authentication context''))
        else if signature \<noteq> serviceSignature sha hmac (ao_serviceSecret opts) timestamp (hr_method req) (hr_path req)
                              workspaceID sessionID body
        then Inl (GatewayError 401 (lit ''invalid browser gateway service signature''))
        else Inr (Some \<lparr>sc_kind = ServiceScope, sc_workspaceID = workspaceID, sc_ownerID = lit ''session:'' @ sessionID,
                        sc_tmaSessionID = sessionID, sc_forwardedHeaders = []\<rparr>)))"

definition forwardedAuthHeaders :: "http_request \<Rightarrow> (string \<times> jstring) list" where
  "forwardedAuthHeaders req = filter (\<lambda>(_, v). v \<noteq> [])
     (map (\<lambda>name. (name, header req name)) [''authorization'', ''cookie'', ''origin'', ''user-agent''])"

fun principalValue :: "jsval \<Rightarrow> string list \<Rightarrow> jstring" where
  "principalValue payload [] = []"
| "principalValue payload (name # names) =
     (let v = nullish (nullish (dot payload name) (dot (dot payload ''principal'') name)) (dot (dot payload ''data'') name) in
      if string_text v \<noteq> [] then string_text v else principalValue payload names)"

definition text_default :: "jstring \<Rightarrow> string \<Rightarrow> jstring" where
  "text_default s d = (if s = [] then lit d else s)"

definition origin_allowed :: "auth_options \<Rightarrow> http_request \<Rightarrow> bool" where
  "origin_allowed opts req =
     (let origin = header req ''origin'';
          host = (if header req ''x-forwarded-host'' = [] then header req ''host'' else header req ''x-forwarded-host'');
          prot = text_default (header req ''x-forwarded-proto'') ''https'';
          same = (if host = [] then [] else prot @ lit ''://'' @ host) in
      origin \<noteq> [] \<and> origin \<in> set (filter (\<lambda>s. s \<noteq> []) (same # ao_trustedOrigins opts)))"

definition safe_method :: "jstring \<Rightarrow> bool" where
  "safe_method m \<longleftrightarrow> to_upper (text_default m ''GET'') \<in> set (map lit [''GET'', ''HEAD'', ''OPTIONS''])"

definition userScope :: "((string \<times> jstring) list \<Rightarrow> jsval option) \<Rightarrow> auth_options \<Rightarrow> http_request \<Rightarrow> gateway_error + scope" where
  "userScope me opts req =
     (if ao_disabled opts
      then Inr \<lparr>sc_kind = UserScope,
             sc_workspaceID = text_default (header req ''x-tma-dev-workspace-id'') ''wksp_default'',
             sc_ownerID = text_default (header req ''x-tma-dev-owner-id'') ''browser-dev-user'',
             sc_tmaSessionID = [], sc_forwardedHeaders = forwardedAuthHeaders req\<rparr>
      else if ao_tmaServerBaseURL opts = []
      then Inl (GatewayError 503 (lit ''TMA server base URL is required for browser user authentication''))
      else if \<not> safe_method (hr_method req) \<and> \<not> origin_allowed opts req
      then Inl (GatewayError 403 (lit ''browser gateway origin check failed''))
      else case me (forwardedAuthHeaders req) of
          None \<Rightarrow> Inl (GatewayError 401 (lit ''browser gateway authentication failed''))
        | Some who \<Rightarrow>
            (let ws = principalValue who [''workspace_id'', ''workspaceId''];
                 owner = principalValue who [''owner_id'', ''ownerId'', ''subject'', ''sub''] in
             if ws = [] \<or> owner = []
             then Inl (GatewayError 403 (lit ''authenticated principal is missing workspace or owner scope''))
             else Inr \<lparr>sc_kind = UserScope, sc_workspaceID = ws, sc_ownerID = owner, sc_tmaSessionID = [],
                       sc_forwardedHeaders = forwardedAuthHeaders req\<rparr>))"

definition authenticate :: "(jstring \<Rightarrow> jstring) \<Rightarrow> (jstring \<Rightarrow> jstring \<Rightarrow> jstring) \<Rightarrow> rat
    \<Rightarrow> ((string \<times> jstring) list \<Rightarrow> jsval option) \<Rightarrow> auth_options \<Rightarrow> http_request \<Rightarrow> jstring
    \<Rightarrow> gateway_error + scope" where
  "authenticate sha hmac now me opts req body =
     andThen (serviceScope sha hmac now opts req body) (\<lambda>sc. case sc of
         Some s \<Rightarrow> Inr s
       | None \<Rightarrow> userScope me opts req)"

text \<open>\<open>allowed headers session\<close> is the status of the TMA server's answer for the session: \<open>None\<close> if it is ok,
  otherwise the status code.\<close>

definition authorizeTmaSession :: "((string \<times> jstring) list \<Rightarrow> jstring \<Rightarrow> nat option) \<Rightarrow> auth_options \<Rightarrow> scope \<Rightarrow> jstring
    \<Rightarrow> gateway_error + unit" where
  "authorizeTmaSession allowed opts sc session =
     (if session = [] \<or> sc_kind sc = ServiceScope \<or> ao_disabled opts then Inr ()
      else case allowed (sc_forwardedHeaders sc) session of
          None \<Rightarrow> Inr ()
        | Some status \<Rightarrow> Inl (GatewayError (if status = 404 then 404 else 403)
              (lit ''TMA session is not accessible to the current principal'')))"

section \<open>Sessions\<close>

definition positiveInteger :: "jsval \<Rightarrow> int \<Rightarrow> int \<Rightarrow> int" where
  "positiveInteger v fallback maximum =
     (let n = to_num v in
      if \<not> is_integer n \<or> num_val n \<le> 0 then fallback else min \<lfloor>num_val n\<rfloor> maximum)"

record viewport =
  vp_width :: int
  vp_height :: int

definition requestedViewport :: "jsval \<Rightarrow> viewport" where
  "requestedViewport inp = \<lparr>vp_width = positiveInteger (dot inp ''width'') 1280 2560,
                            vp_height = positiveInteger (dot inp ''height'') 720 1600\<rparr>"

definition session_char :: "int \<Rightarrow> bool" where
  "session_char c \<longleftrightarrow> is_digit c \<or> is_lower c \<or> is_upper c \<or> c \<in> set [46, 95, 58, 45]"

text \<open>\<open>rnd\<close> is \<open>randomUUID()\<close> without its dashes.\<close>

definition safeSessionID :: "jstring \<Rightarrow> jsval \<Rightarrow> gateway_error + jstring" where
  "safeSessionID rnd v =
     (let s = trimmed_text v in
      if s = [] then Inr (lit ''brs_'' @ rnd)
      else if \<not> (list_all session_char s \<and> int (length s) \<le> 160) then Inl (GatewayError 400 (lit ''invalid browser session id''))
      else Inr s)"

definition isolationDigest :: "(jstring \<Rightarrow> jstring) \<Rightarrow> jstring \<Rightarrow> jstring \<Rightarrow> jstring \<Rightarrow> jstring" where
  "isolationDigest sha workspaceID ownerID sessionID = take 32 (sha (join [0] [workspaceID, ownerID, sessionID]))"

definition sessionKey :: "jstring \<Rightarrow> jstring \<Rightarrow> jstring" where
  "sessionKey workspaceID sessionID = workspaceID @ [0] @ sessionID"

definition normalizeText :: "jsval \<Rightarrow> int \<Rightarrow> jstring" where
  "normalizeText v n = slice_to n (trim (collapse_spaces (text_of v)))"

text \<open>The operations the gateway performs on a page. The page of a session is represented by the operations
  performed on it so far; what they made of it is for the browser to say.\<close>

datatype page_op =
    Goto jstring
  | GoBack
  | GoForward
  | Reload
  | Click jstring
  | Fill jstring jstring
  | MouseClick jsnum jsnum
  | MouseWheel jsnum jsnum
  | PressKey jstring
  | InsertText jstring

record session =
  se_id :: jstring
  se_key :: jstring
  se_workspaceID :: jstring
  se_ownerID :: jstring
  se_tmaSessionID :: jstring
  se_context :: nat
  se_profile :: jstring
  se_viewport :: viewport
  se_refs :: "(jstring, jstring) jmap"
  se_page :: "page_op list"
  se_revision :: nat
  se_createdAt :: rat
  se_lastUsedAt :: rat

record manager =
  mg_max :: nat
  mg_idleTTL :: rat
  mg_sessions :: "(jstring, session) jmap"
  mg_launching :: "(nat, scope \<times> jstring \<times> jsval) jmap"
  mg_next :: nat
  mg_closed :: "nat list"

definition new_manager :: "jsval \<Rightarrow> jsval \<Rightarrow> manager" where
  "new_manager maxSessions idle = \<lparr>mg_max = nat (positiveInteger maxSessions 4 1000),
     mg_idleTTL = of_int (positiveInteger idle 300000 86400000), mg_sessions = [], mg_launching = [], mg_next = 0, mg_closed = []\<rparr>"

definition countForWorkspace :: "jstring \<Rightarrow> manager \<Rightarrow> nat" where
  "countForWorkspace ws m = length (filter (\<lambda>s. se_workspaceID s = ws) (map_values (mg_sessions m)))"

definition assertAccess :: "scope \<Rightarrow> session \<Rightarrow> gateway_error + unit" where
  "assertAccess sc s =
     (if sc_workspaceID sc \<noteq> se_workspaceID s then Inl (GatewayError 404 (lit ''browser session not found''))
      else if sc_kind sc = ServiceScope
      then (if se_tmaSessionID s = [] \<or> se_tmaSessionID s \<noteq> sc_tmaSessionID sc
            then Inl (GatewayError 403 (lit ''browser session is owned by another TMA session'')) else Inr ())
      else if se_ownerID s \<noteq> sc_ownerID sc \<and> se_tmaSessionID s = []
      then Inl (GatewayError 403 (lit ''browser session is owned by another user''))
      else Inr ())"

definition get_session :: "scope \<Rightarrow> jstring \<Rightarrow> manager \<Rightarrow> gateway_error + session" where
  "get_session sc sid m = (case map_get (mg_sessions m) (sessionKey (sc_workspaceID sc) sid) of
       None \<Rightarrow> Inl (GatewayError 404 (lit ''browser session not found''))
     | Some s \<Rightarrow> andThen (assertAccess sc s) (\<lambda>_. Inr s))"

subsection \<open>Observing a page\<close>

record element =
  el_ref :: jstring
  el_role :: jstring
  el_text :: jsval
  el_selector :: jstring

record browser =
  br_text :: "session \<Rightarrow> jsval"
  br_elements :: "session \<Rightarrow> element list"
  br_url :: "session \<Rightarrow> jstring"
  br_title :: "session \<Rightarrow> jstring"
  br_launch :: "jstring \<Rightarrow> viewport \<Rightarrow> bool"
  br_perform :: "session \<Rightarrow> page_op \<Rightarrow> bool"

record observation =
  ob_session :: jstring
  ob_tmaSession :: jstring
  ob_url :: jstring
  ob_title :: jstring
  ob_text :: jstring
  ob_elements :: "(jstring \<times> jstring \<times> jstring) list"
  ob_viewport :: viewport
  ob_revision :: nat
  ob_createdAt :: rat
  ob_lastUsedAt :: rat

definition observe :: "browser \<Rightarrow> session \<Rightarrow> observation \<times> session" where
  "observe br s =
     (\<lparr>ob_session = se_id s, ob_tmaSession = se_tmaSessionID s, ob_url = br_url br s, ob_title = br_title br s,
       ob_text = normalizeText (br_text br s) 6000,
       ob_elements = map (\<lambda>e. (el_ref e, el_role e, normalizeText (el_text e) 160)) (br_elements br s),
       ob_viewport = se_viewport s, ob_revision = se_revision s,
       ob_createdAt = se_createdAt s, ob_lastUsedAt = se_lastUsedAt s\<rparr>,
      s\<lparr>se_refs := foldl (\<lambda>m e. map_set m (el_ref e) (el_selector e)) [] (br_elements br s)\<rparr>)"

definition put_session :: "session \<Rightarrow> manager \<Rightarrow> manager" where
  "put_session s m = m\<lparr>mg_sessions := map_set (mg_sessions m) (se_key s) s\<rparr>"

subsection \<open>Creating and closing\<close>

datatype create_outcome = Observed observation | Launching nat | Refused gateway_error

definition create_start :: "browser \<Rightarrow> rat \<Rightarrow> jstring \<Rightarrow> scope \<Rightarrow> jsval \<Rightarrow> manager \<Rightarrow> create_outcome \<times> manager" where
  "create_start br now rnd sc inp m = (case safeSessionID rnd (dot inp ''browser_session_id'') of
       Inl e \<Rightarrow> (Refused e, m)
     | Inr sid \<Rightarrow> (case map_get (mg_sessions m) (sessionKey (sc_workspaceID sc) sid) of
           Some s \<Rightarrow> (case assertAccess sc s of
               Inl e \<Rightarrow> (Refused e, m)
             | Inr _ \<Rightarrow> (case observe br (s\<lparr>se_lastUsedAt := now\<rparr>) of (ob, s') \<Rightarrow> (Observed ob, put_session s' m)))
         | None \<Rightarrow>
             if countForWorkspace (sc_workspaceID sc) m \<ge> mg_max m
             then (Refused (GatewayError 429 (lit ''workspace browser session quota exceeded'')), m)
             else if dot inp ''viewport'' = JNull then (Refused (GatewayError 500 []), m)
             else (Launching (mg_next m), m\<lparr>mg_next := Suc (mg_next m),
                    mg_launching := map_set (mg_launching m) (mg_next m) (sc, sid, inp)\<rparr>)))"

text \<open>Performing an operation extends the history of the page, also when the operation fails on the way.\<close>

definition perform :: "browser \<Rightarrow> page_op \<Rightarrow> session \<Rightarrow> bool \<times> session" where
  "perform br op s = (br_perform br s op, s\<lparr>se_page := se_page s @ [op]\<rparr>)"

definition new_session :: "(jstring \<Rightarrow> jstring) \<Rightarrow> rat \<Rightarrow> nat \<Rightarrow> scope \<Rightarrow> jstring \<Rightarrow> jsval \<Rightarrow> session" where
  "new_session sha now c sc sid inp =
     (let tma = trimmed_text (jor (dot inp ''tma_session_id'') (JStr (sc_tmaSessionID sc)));
          owner = (if tma = [] then sc_ownerID sc else lit ''session:'' @ tma) in
      \<lparr>se_id = sid, se_key = sessionKey (sc_workspaceID sc) sid, se_workspaceID = sc_workspaceID sc,
       se_ownerID = sc_ownerID sc, se_tmaSessionID = tma, se_context = c,
       se_profile = isolationDigest sha (sc_workspaceID sc) owner sid,
       se_viewport = requestedViewport (dot inp ''viewport''), se_refs = [], se_page = [], se_revision = 0,
       se_createdAt = now, se_lastUsedAt = now\<rparr>)"

definition open_first :: "browser \<Rightarrow> jsval \<Rightarrow> session \<Rightarrow> bool \<times> session" where
  "open_first br inp s =
     (if truthy (dot inp ''url'') then perform br (Goto (to_str (dot inp ''url''))) s else (True, s))"

text \<open>After the browser has started (or failed to start): register the session, go to the requested page,
  observe. A failing page removes the session again and closes its browser.\<close>

definition create_launched :: "(jstring \<Rightarrow> jstring) \<Rightarrow> browser \<Rightarrow> rat \<Rightarrow> nat \<Rightarrow> manager \<Rightarrow> create_outcome \<times> manager" where
  "create_launched sha br now c m = (case map_get (mg_launching m) c of
       None \<Rightarrow> (Launching c, m)
     | Some (sc, sid, inp) \<Rightarrow>
         (let s = new_session sha now c sc sid inp;
              m0 = m\<lparr>mg_launching := map_delete (mg_launching m) c\<rparr>;
              m1 = put_session s m0 in
          if \<not> br_launch br (se_profile s) (se_viewport s) then (Refused (GatewayError 500 []), m0)
          else if \<not> fst (open_first br inp s)
          then (Refused (GatewayError 500 []), m1\<lparr>mg_sessions := map_delete (mg_sessions m1) (se_key s), mg_closed := mg_closed m1 @ [c]\<rparr>)
          else (case observe br (snd (open_first br inp s)) of (ob, s') \<Rightarrow> (Observed ob, put_session s' m1))))"

text \<open>The whole of \<open>create\<close> when nothing else runs while the browser starts.\<close>

definition create :: "(jstring \<Rightarrow> jstring) \<Rightarrow> browser \<Rightarrow> rat \<Rightarrow> jstring \<Rightarrow> scope \<Rightarrow> jsval \<Rightarrow> manager \<Rightarrow> create_outcome \<times> manager" where
  "create sha br now rnd sc inp m = (case create_start br now rnd sc inp m of
       (Launching c, m1) \<Rightarrow> create_launched sha br now c m1
     | (r, m1) \<Rightarrow> (r, m1))"

definition close_session :: "scope \<Rightarrow> jstring \<Rightarrow> manager \<Rightarrow> (gateway_error + jstring) \<times> manager" where
  "close_session sc sid m = (case get_session sc sid m of
       Inl e \<Rightarrow> (Inl e, m)
     | Inr s \<Rightarrow> (Inr sid, m\<lparr>mg_sessions := map_delete (mg_sessions m) (se_key s), mg_closed := mg_closed m @ [se_context s]\<rparr>))"

definition cleanup_scope :: "session \<Rightarrow> scope" where
  "cleanup_scope s = \<lparr>sc_kind = UserScope, sc_workspaceID = se_workspaceID s, sc_ownerID = se_ownerID s,
     sc_tmaSessionID = [], sc_forwardedHeaders = []\<rparr>"

definition cleanupExpired :: "rat \<Rightarrow> manager \<Rightarrow> manager" where
  "cleanupExpired now m =
     fold (\<lambda>s m'. snd (close_session (cleanup_scope s) (se_id s) m'))
       (filter (\<lambda>s. se_lastUsedAt s < now - mg_idleTTL m) (map_values (mg_sessions m))) m"

definition shutdown :: "manager \<Rightarrow> manager" where
  "shutdown m = m\<lparr>mg_closed := mg_closed m @ map se_context (map_values (mg_sessions m)), mg_sessions := []\<rparr>"

subsection \<open>Actions\<close>

text \<open>\<open>run\<close>: the operations on one session are queued, so each is one step here. The revision counts the
  operations that succeeded.\<close>

definition run_on :: "rat \<Rightarrow> scope \<Rightarrow> jstring \<Rightarrow> (session \<Rightarrow> (gateway_error + 'a) \<times> session) \<Rightarrow> manager
    \<Rightarrow> (gateway_error + 'a) \<times> manager" where
  "run_on now sc sid operation m = (case get_session sc sid m of
       Inl e \<Rightarrow> (Inl e, m)
     | Inr s \<Rightarrow> (case operation (s\<lparr>se_lastUsedAt := now\<rparr>) of
           (Inl e, s') \<Rightarrow> (Inl e, put_session s' m)
         | (Inr x, s') \<Rightarrow> (Inr x, put_session (s'\<lparr>se_revision := Suc (se_revision s')\<rparr>) m)))"

definition selector :: "session \<Rightarrow> jsval \<Rightarrow> gateway_error + jstring" where
  "selector s inp =
     (let sel = trim (text_of (jor (dot inp ''selector'')
                 (case map_get (se_refs s) (text_of (dot inp ''ref'')) of Some x \<Rightarrow> JStr x | None \<Rightarrow> JUndef))) in
      if sel = [] then Inl (GatewayError 400 (lit ''selector or valid ref is required'')) else Inr sel)"

text \<open>The operations of an action, with a flag for the ones whose failure is ignored. Reading a field of a
  \<open>null\<close> body is a \<open>TypeError\<close>.\<close>

definition number_or_zero :: "jsval \<Rightarrow> jsnum" where
  "number_or_zero v = to_num (jor v (jint 0))"

definition action_ops :: "session \<Rightarrow> jstring \<Rightarrow> jsval \<Rightarrow> gateway_error + (page_op \<times> bool) list" where
  "action_ops s act inp =
     (if inp = JNull \<and> act \<in> set (map lit [''open'', ''click'', ''type'', ''mouse'', ''wheel'', ''key'', ''insert_text''])
      then Inl (GatewayError 500 [])
      else if act = lit ''read'' then Inr []
      else if act = lit ''open'' then Inr [(Goto (to_str (jor (dot inp ''url'') (jlit ''about:blank''))), False)]
      else if act = lit ''back'' then Inr [(GoBack, True)]
      else if act = lit ''forward'' then Inr [(GoForward, True)]
      else if act = lit ''reload'' then Inr [(Reload, False)]
      else if act = lit ''click'' then andThen (selector s inp) (\<lambda>sel. Inr [(Click sel, False)])
      else if act = lit ''type''
      then andThen (selector s inp) (\<lambda>sel.
             Inr ((if dot inp ''clear'' \<noteq> JBool False then [(Fill sel [], False)] else [])
                  @ [(Fill sel (text_of (dot inp ''text'')), False)]))
      else if act = lit ''mouse'' then Inr [(MouseClick (to_num (dot inp ''x'')) (to_num (dot inp ''y'')), False)]
      else if act = lit ''wheel''
      then Inr [(MouseWheel (number_or_zero (dot inp ''delta_x'')) (number_or_zero (dot inp ''delta_y'')), False)]
      else if act = lit ''key'' then Inr [(PressKey (text_of (dot inp ''key'')), False)]
      else if act = lit ''insert_text'' then Inr [(InsertText (text_of (dot inp ''text'')), False)]
      else Inl (GatewayError 404 (lit ''unsupported browser action '' @ act)))"

fun perform_all :: "browser \<Rightarrow> (page_op \<times> bool) list \<Rightarrow> session \<Rightarrow> bool \<times> session" where
  "perform_all br [] s = (True, s)"
| "perform_all br ((op, ignored) # ops) s = (case perform br op s of (ok, s') \<Rightarrow>
     if ok \<or> ignored then perform_all br ops s' else (False, s'))"

definition act_on :: "browser \<Rightarrow> jstring \<Rightarrow> jsval \<Rightarrow> session \<Rightarrow> (gateway_error + observation) \<times> session" where
  "act_on br act inp s = (case action_ops s act inp of
       Inl e \<Rightarrow> (Inl e, s)
     | Inr ops \<Rightarrow> (case perform_all br ops s of (ok, s') \<Rightarrow>
         if ok then (case observe br s' of (ob, s2) \<Rightarrow> (Inr ob, s2)) else (Inl (GatewayError 500 []), s')))"

definition action :: "browser \<Rightarrow> rat \<Rightarrow> scope \<Rightarrow> jstring \<Rightarrow> jstring \<Rightarrow> jsval \<Rightarrow> manager
    \<Rightarrow> (gateway_error + observation) \<times> manager" where
  "action br now sc sid act inp m = run_on now sc sid (act_on br act inp) m"

text \<open>A screenshot, given by its session, its quality and whether it shows the full page.\<close>

definition screenshot :: "rat \<Rightarrow> scope \<Rightarrow> jstring \<Rightarrow> jsval \<Rightarrow> bool \<Rightarrow> manager
    \<Rightarrow> (gateway_error + (session \<times> int \<times> bool)) \<times> manager" where
  "screenshot now sc sid quality full m =
     run_on now sc sid (\<lambda>s. (Inr (s, positiveInteger quality 72 90, full), s)) m"

section \<open>The server\<close>

definition gateway_prefix :: jstring where
  "gateway_prefix = lit ''/v2/extensions/browser''"

datatype matched_route = HealthRoute | SessionsRoute | SessionRoute jstring jstring

text \<open>\<open>Inl\<close> is the error of a malformed percent encoding, \<open>None\<close> no route.\<close>

definition route :: "jstring \<Rightarrow> gateway_error + matched_route option" where
  "route pathname =
     (if pathname = gateway_prefix @ lit ''/health'' then Inr (Some HealthRoute)
      else if pathname = gateway_prefix @ lit ''/sessions'' then Inr (Some SessionsRoute)
      else if \<not> starts_with pathname (gateway_prefix @ lit ''/sessions/'') then Inr None
      else (let found = (\<lambda>sid act. case decodeURIComponent sid of
                  None \<Rightarrow> Inl (GatewayError 500 [])
                | Some d \<Rightarrow> Inr (Some (SessionRoute d act))) in
        case split_on 47 (drop (length (gateway_prefix @ lit ''/sessions/'')) pathname) of
          [sid] \<Rightarrow> if sid = [] then Inr None else found sid (lit ''read'')
        | [sid, act] \<Rightarrow> if sid = [] \<or> act = [] then Inr None else found sid act
        | _ \<Rightarrow> Inr None))"

definition body_limit :: int where
  "body_limit = 1024 * 1024"

fun read_chunks :: "int \<Rightarrow> int \<Rightarrow> jstring list \<Rightarrow> gateway_error + jstring list" where
  "read_chunks bound used [] = Inr []"
| "read_chunks bound used (chunk # rest) =
     (if used + int (length chunk) > bound then Inl (GatewayError 413 (lit ''request body is too large''))
      else andThen (read_chunks bound (used + int (length chunk)) rest) (\<lambda>cs. Inr (chunk # cs)))"

definition readBody :: "http_request \<Rightarrow> gateway_error + jstring" where
  "readBody req = andThen (read_chunks body_limit 0 (hr_chunks req)) (\<lambda>cs. Inr (concat cs))"

definition parseJSON :: "http_request \<Rightarrow> jstring \<Rightarrow> gateway_error + jsval" where
  "parseJSON req body = (if body = [] then Inr (JObj ObjectProto [])
     else case hr_json req of Some v \<Rightarrow> Inr v | None \<Rightarrow> Inl (GatewayError 400 (lit ''request body must be valid JSON'')))"

datatype reply =
    Health nat
  | State observation
  | ClosedReply jstring
  | Frame session int bool
  | Failure jstring jstring

definition errorResponse :: "gateway_error \<Rightarrow> nat \<times> reply" where
  "errorResponse err = (case err of GatewayError status message \<Rightarrow>
     (status, Failure (if status \<ge> 500 then lit ''browser gateway request failed''
                       else if message = [] then lit ''request failed'' else message)
                      (if status = 404 then lit ''not_found'' else if status = 403 then lit ''forbidden''
                       else lit ''browser_gateway_error'')))"

text \<open>\<open>{ ...input, tma_session_id }\<close>. Spreading a string or an array adds only index names, which nobody reads.\<close>

definition with_tma_session :: "jsval \<Rightarrow> jstring \<Rightarrow> jsval" where
  "with_tma_session inp tma = JObj ObjectProto
     (map_set (case inp of JObj _ kvs \<Rightarrow> kvs | _ \<Rightarrow> []) (lit ''tma_session_id'') (JStr tma))"

text \<open>The surroundings of a request: the configuration, the clock, the random id, the TMA server, the browser.\<close>

record gateway_env =
  ge_sha :: "jstring \<Rightarrow> jstring"
  ge_hmac :: "jstring \<Rightarrow> jstring \<Rightarrow> jstring"
  ge_now :: rat
  ge_random :: jstring
  ge_me :: "(string \<times> jstring) list \<Rightarrow> jsval option"
  ge_allowed :: "(string \<times> jstring) list \<Rightarrow> jstring \<Rightarrow> nat option"
  ge_auth :: auth_options
  ge_workspace :: jstring
  ge_browser :: browser

definition request_scope :: "gateway_env \<Rightarrow> http_request \<Rightarrow> gateway_error + scope \<times> jsval" where
  "request_scope env req =
     andThen (readBody req) (\<lambda>body.
     andThen (authenticate (ge_sha env) (ge_hmac env) (ge_now env / 1000) (ge_me env) (ge_auth env) req body) (\<lambda>sc.
     andThen (check (ge_workspace env = [] \<or> sc_workspaceID sc = ge_workspace env)
       (GatewayError 403 (lit ''browser gateway is not assigned to this workspace''))) (\<lambda>_.
     andThen (parseJSON req body) (\<lambda>inp. Inr (sc, inp)))))"

definition outcome_reply :: "create_outcome \<Rightarrow> nat \<times> reply" where
  "outcome_reply r = (case r of Observed ob \<Rightarrow> (201, State ob) | Refused e \<Rightarrow> errorResponse e
     | Launching _ \<Rightarrow> errorResponse (GatewayError 500 []))"

definition handle_sessions :: "gateway_env \<Rightarrow> http_request \<Rightarrow> scope \<Rightarrow> jsval \<Rightarrow> manager \<Rightarrow> (nat \<times> reply) \<times> manager" where
  "handle_sessions env req sc inp m =
     (let tma = trimmed_text (jor (dot inp ''tma_session_id'') (JStr (sc_tmaSessionID sc))) in
      if hr_method req \<noteq> lit ''POST'' then (errorResponse (GatewayError 405 (lit ''method not allowed'')), m)
      else if inp = JNull then (errorResponse (GatewayError 500 []), m)
      else case authorizeTmaSession (ge_allowed env) (ge_auth env) sc tma of
          Inl e \<Rightarrow> (errorResponse e, m)
        | Inr _ \<Rightarrow> (case create (ge_sha env) (ge_browser env) (ge_now env) (ge_random env) sc (with_tma_session inp tma) m of
              (r, m') \<Rightarrow> (outcome_reply r, m')))"

definition query_get :: "http_request \<Rightarrow> string \<Rightarrow> jsval" where
  "query_get req name = (case map_of (hr_query req) (lit name) of Some v \<Rightarrow> JStr v | None \<Rightarrow> JNull)"

definition respond :: "('a \<Rightarrow> reply) \<Rightarrow> (gateway_error + 'a) \<times> manager \<Rightarrow> (nat \<times> reply) \<times> manager" where
  "respond f r = (case r of (Inl e, m) \<Rightarrow> (errorResponse e, m) | (Inr x, m) \<Rightarrow> ((200, f x), m))"

definition handle_session :: "gateway_env \<Rightarrow> http_request \<Rightarrow> scope \<Rightarrow> jsval \<Rightarrow> jstring \<Rightarrow> jstring \<Rightarrow> manager
    \<Rightarrow> (nat \<times> reply) \<times> manager" where
  "handle_session env req sc inp sid act m = (case get_session sc sid m of
       Inl e \<Rightarrow> (errorResponse e, m)
     | Inr s \<Rightarrow> (case authorizeTmaSession (ge_allowed env) (ge_auth env) sc (se_tmaSessionID s) of
           Inl e \<Rightarrow> (errorResponse e, m)
         | Inr _ \<Rightarrow>
             if hr_method req = lit ''DELETE'' \<and> act = lit ''read'' then respond ClosedReply (close_session sc sid m)
             else if act = lit ''frame''
             then (if hr_method req \<noteq> lit ''GET'' then (errorResponse (GatewayError 405 (lit ''method not allowed'')), m)
                   else respond (\<lambda>(shot, quality, full). Frame shot quality full)
                          (screenshot (ge_now env) sc sid (query_get req ''quality'')
                             (query_get req ''full_page'' = jlit ''true'') m))
             else if act = lit ''read'' \<and> hr_method req = lit ''GET''
             then (case observe (ge_browser env) s of (ob, s') \<Rightarrow> ((200, State ob), put_session s' m))
             else if hr_method req \<noteq> lit ''POST'' then (errorResponse (GatewayError 405 (lit ''method not allowed'')), m)
             else respond State (action (ge_browser env) (ge_now env) sc sid act inp m)))"

definition requestHandler :: "gateway_env \<Rightarrow> http_request \<Rightarrow> manager \<Rightarrow> (nat \<times> reply) \<times> manager" where
  "requestHandler env req m = (case route (hr_path req) of
       Inl e \<Rightarrow> (errorResponse e, m)
     | Inr None \<Rightarrow> (errorResponse (GatewayError 404 (lit ''browser gateway route not found'')), m)
     | Inr (Some HealthRoute) \<Rightarrow> ((200, Health (length (mg_sessions m))), m)
     | Inr (Some SessionsRoute) \<Rightarrow> (case request_scope env req of
           Inl e \<Rightarrow> (errorResponse e, m)
         | Inr (sc, inp) \<Rightarrow> handle_sessions env req sc inp m)
     | Inr (Some (SessionRoute sid act)) \<Rightarrow> (case request_scope env req of
           Inl e \<Rightarrow> (errorResponse e, m)
         | Inr (sc, inp) \<Rightarrow> handle_session env req sc inp sid act m))"

section \<open>Lemmas\<close>

lemma positiveInteger_bounds: "0 < fallback \<Longrightarrow> fallback \<le> maximum \<Longrightarrow>
    0 < positiveInteger v fallback maximum \<and> positiveInteger v fallback maximum \<le> maximum"
  by (auto simp: positiveInteger_def is_integer_def num_val_def Let_def split: jsnum.splits)

lemma requestedViewport_bounds:
  "0 < vp_width (requestedViewport v) \<and> vp_width (requestedViewport v) \<le> 2560"
  "0 < vp_height (requestedViewport v) \<and> vp_height (requestedViewport v) \<le> 1600"
  by (simp_all add: requestedViewport_def positiveInteger_bounds)

lemma assertAccess_iff:
  "assertAccess sc s = Inr u \<longleftrightarrow> sc_workspaceID sc = se_workspaceID s \<and>
     (case sc_kind sc of
        ServiceScope \<Rightarrow> se_tmaSessionID s \<noteq> [] \<and> se_tmaSessionID s = sc_tmaSessionID sc
      | UserScope \<Rightarrow> se_ownerID s = sc_ownerID sc \<or> se_tmaSessionID s \<noteq> [])"
  by (cases "sc_kind sc") (auto simp: assertAccess_def)

lemma get_session_iff:
  "get_session sc sid m = Inr s \<longleftrightarrow>
     map_get (mg_sessions m) (sessionKey (sc_workspaceID sc) sid) = Some s \<and> assertAccess sc s = Inr ()"
  by (auto simp: get_session_def js_result split: option.splits)

lemma authorizeTmaSession_iff:
  "authorizeTmaSession allowed opts sc tma = Inr u \<longleftrightarrow>
     tma = [] \<or> sc_kind sc = ServiceScope \<or> ao_disabled opts \<or> allowed (sc_forwardedHeaders sc) tma = None"
  by (auto simp: authorizeTmaSession_def split: option.splits)

subsection \<open>The invariant of the manager\<close>

text \<open>Keys are unique, a session is filed under its own key, nobody waits for a
  browser to start, a browser belongs to one session or has been closed once, and no workspace exceeds its quota.\<close>

definition manager_ok :: "manager \<Rightarrow> bool" where
  "manager_ok m \<longleftrightarrow> map_ok (mg_sessions m)
     \<and> list_all (\<lambda>(k, s). se_key s = k \<and> k = sessionKey (se_workspaceID s) (se_id s)) (mg_sessions m)
     \<and> mg_launching m = []
     \<and> distinct (mg_closed m @ map se_context (map_values (mg_sessions m)))
     \<and> list_all (\<lambda>c. c < mg_next m) (mg_closed m @ map se_context (map_values (mg_sessions m)))
     \<and> (\<forall>ws. countForWorkspace ws m \<le> mg_max m)"

text \<open>The sessions of the workspaces other than \<open>ws\<close>.\<close>

definition foreign :: "jstring \<Rightarrow> manager \<Rightarrow> session list" where
  "foreign ws m = filter (\<lambda>s. se_workspaceID s \<noteq> ws) (map_values (mg_sessions m))"

lemma manager_ok_keys: "manager_ok m \<Longrightarrow> map_ok (mg_sessions m)"
  by (simp add: manager_ok_def)

lemma manager_okD:
  assumes "manager_ok m" "map_get (mg_sessions m) k = Some s"
  shows "se_key s = k" "k = sessionKey (se_workspaceID s) (se_id s)"
  using assms by (auto simp: manager_ok_def list_all_iff dest!: map_get_in_set)

text \<open>Every operation is one of three changes: a session is updated in place, added, or removed.\<close>

lemma manager_ok_update:
  assumes ok: "manager_ok m" and s: "map_get (mg_sessions m) k = Some s"
    and same: "se_key s' = se_key s" "se_id s' = se_id s" "se_workspaceID s' = se_workspaceID s"
      "se_context s' = se_context s"
  shows "manager_ok (put_session s' m)"
    "se_workspaceID s = ws \<Longrightarrow> foreign ws (put_session s' m) = foreign ws m"
proof -
  obtain l r where m: "mg_sessions m = l @ (k, s) # r" "\<And>v'. map_set (mg_sessions m) k v' = l @ (k, v') # r"
    using map_split [OF manager_ok_keys [OF ok] s] by blast
  have "se_key s' = k" using manager_okD [OF ok s] same by simp
  then have p: "put_session s' m = m\<lparr>mg_sessions := l @ (k, s') # r\<rparr>" by (simp add: put_session_def m(2))
  have "map fst (mg_sessions (put_session s' m)) = map fst (mg_sessions m)"
    "map se_context (map_values (mg_sessions (put_session s' m))) = map se_context (map_values (mg_sessions m))"
    "countForWorkspace w (put_session s' m) = countForWorkspace w m" for w
    by (simp_all add: p m(1) same map_values_def countForWorkspace_def)
  moreover have "list_all (\<lambda>(k, s). se_key s = k \<and> k = sessionKey (se_workspaceID s) (se_id s))
      (mg_sessions (put_session s' m))"
    using ok by (simp add: p m(1) same manager_ok_def)
  ultimately show "manager_ok (put_session s' m)"
    using ok by (simp add: manager_ok_def map_ok_def) (simp add: put_session_def)
  show "se_workspaceID s = ws \<Longrightarrow> foreign ws (put_session s' m) = foreign ws m"
    using m(1) same by (simp add: p foreign_def map_values_def)
qed

lemma manager_ok_remove:
  assumes ok: "manager_ok m" and s: "map_get (mg_sessions m) k = Some s"
  defines "m' \<equiv> m\<lparr>mg_sessions := map_delete (mg_sessions m) k, mg_closed := mg_closed m @ [se_context s]\<rparr>"
  shows "manager_ok m'" "se_workspaceID s = ws \<Longrightarrow> foreign ws m' = foreign ws m"
proof -
  obtain l r where m: "mg_sessions m = l @ (k, s) # r" "map_delete (mg_sessions m) k = l @ r"
    using map_split [OF manager_ok_keys [OF ok] s] by blast
  have m': "mg_sessions m' = l @ r" "mg_closed m' = mg_closed m @ [se_context s]" "mg_next m' = mg_next m"
    "mg_launching m' = mg_launching m" by (simp_all add: m'_def m(2))
  have count: "countForWorkspace ws m' \<le> countForWorkspace ws m" for ws
    by (simp add: m' m(1) countForWorkspace_def map_values_def)
  have "countForWorkspace ws m' \<le> mg_max m'" for ws
    using count [of ws] ok by (auto simp: manager_ok_def m'_def intro: order_trans)
  then show "manager_ok m'"
    using ok by (auto simp: manager_ok_def map_ok_def map_values_def m' m(1))
  show "se_workspaceID s = ws \<Longrightarrow> foreign ws m' = foreign ws m"
    by (simp add: m' m(1) foreign_def map_values_def)
qed

lemma manager_ok_add:
  assumes ok: "manager_ok m" and fresh: "map_get (mg_sessions m) (se_key s) = None"
    and s: "se_key s = sessionKey (se_workspaceID s) (se_id s)" "se_context s = mg_next m"
    and quota: "countForWorkspace (se_workspaceID s) m < mg_max m"
  defines "m' \<equiv> m\<lparr>mg_sessions := map_set (mg_sessions m) (se_key s) s, mg_next := Suc (mg_next m)\<rparr>"
  shows "manager_ok m'" "se_workspaceID s = ws \<Longrightarrow> foreign ws m' = foreign ws m"
proof -
  have set: "map_set (mg_sessions m) (se_key s) s = mg_sessions m @ [(se_key s, s)]"
    and notin: "se_key s \<notin> fst ` set (mg_sessions m)"
    using fresh by (auto simp: map_set_def map_has_iff) (metis map_has_def map_has_iff image_eqI fst_conv)
  have count: "countForWorkspace w m' = countForWorkspace w m + (if w = se_workspaceID s then 1 else 0)" for w
    by (simp add: m'_def set countForWorkspace_def map_values_def)
  have "countForWorkspace w m' \<le> mg_max m'" for w
    using quota ok unfolding count by (auto simp: manager_ok_def m'_def)
  moreover have "map_ok (mg_sessions m')"
    using ok notin by (simp add: manager_ok_def map_ok_def m'_def set)
  moreover have "list_all (\<lambda>(k, s). se_key s = k \<and> k = sessionKey (se_workspaceID s) (se_id s)) (mg_sessions m')"
    using ok by (simp add: manager_ok_def m'_def set) (metis s(1))
  moreover have "distinct (mg_closed m' @ map se_context (map_values (mg_sessions m')))"
    using ok s(2) by (auto simp: manager_ok_def m'_def set map_values_def list_all_iff)
  moreover have "list_all (\<lambda>c. c < mg_next m') (mg_closed m' @ map se_context (map_values (mg_sessions m')))"
    using ok s(2) by (auto simp: manager_ok_def m'_def set map_values_def list_all_iff less_SucI)
  moreover have "mg_launching m' = []" using ok by (simp add: manager_ok_def m'_def)
  ultimately show "manager_ok m'" unfolding manager_ok_def by blast
  show "se_workspaceID s = ws \<Longrightarrow> foreign ws m' = foreign ws m"
    by (simp add: m'_def set foreign_def map_values_def)
qed

text \<open>The same session, whatever happened on its page.\<close>

definition same_session :: "session \<Rightarrow> session \<Rightarrow> bool" where
  "same_session s s' \<longleftrightarrow> se_key s' = se_key s \<and> se_id s' = se_id s \<and> se_workspaceID s' = se_workspaceID s
     \<and> se_context s' = se_context s \<and> se_ownerID s' = se_ownerID s \<and> se_tmaSessionID s' = se_tmaSessionID s"

lemma same_session_trans: "same_session s s' \<Longrightarrow> same_session s' s'' \<Longrightarrow> same_session s s''"
  by (simp add: same_session_def)

lemma same_session_fields [simp]:
  "same_session s (s\<lparr>se_lastUsedAt := t\<rparr>)" "same_session s s"
  "same_session s (s'\<lparr>se_revision := n\<rparr>) = same_session s s'"
  by (simp_all add: same_session_def)

lemma observe_same: "same_session s (snd (observe br s))"
  by (simp add: observe_def same_session_def)

lemma perform_same: "same_session s (snd (perform br op s))"
  by (simp add: perform_def same_session_def)

lemma open_first_same: "same_session s (snd (open_first br inp s))"
  by (simp add: open_first_def perform_same)

lemma perform_all_same: "same_session s (snd (perform_all br ops s))"
proof (induction ops arbitrary: s)
  case (Cons x ops)
  obtain op ignored where x: "x = (op, ignored)" by fastforce
  have "same_session s (snd (perform br op s))" by (rule perform_same)
  moreover note Cons.IH [of "snd (perform br op s)"]
  ultimately show ?case by (auto simp: x split: prod.splits intro: same_session_trans)
qed simp

lemma act_on_same: "same_session s (snd (act_on br act inp s))"
proof (cases "action_ops s act inp")
  case (Inr ops)
  have "same_session s (snd (perform_all br ops s))" by (rule perform_all_same)
  then show ?thesis
    using Inr observe_same [of "snd (perform_all br ops s)" br]
    by (auto simp: act_on_def split: prod.splits intro: same_session_trans)
qed (simp add: act_on_def)

text \<open>An operation of the workspace \<open>ws\<close> keeps the invariant, the configuration, and the sessions of the
  other workspaces.\<close>

definition keeps :: "jstring \<Rightarrow> manager \<Rightarrow> manager \<Rightarrow> bool" where
  "keeps ws m m' \<longleftrightarrow> manager_ok m' \<and> foreign ws m' = foreign ws m \<and> mg_max m' = mg_max m"

lemma keeps_refl: "manager_ok m \<Longrightarrow> keeps ws m m"
  by (simp add: keeps_def)

lemma keeps_update:
  assumes "manager_ok m" "map_get (mg_sessions m) k = Some s" "same_session s s'" "se_workspaceID s = ws"
  shows "keeps ws m (put_session s' m)"
  using manager_ok_update [OF assms(1,2)] assms(3,4) by (simp add: keeps_def same_session_def put_session_def)

lemma keeps_run_on:
  assumes ok: "manager_ok m" and same: "\<And>s. same_session s (snd (operation s))"
  shows "keeps (sc_workspaceID sc) m (snd (run_on now sc sid operation m))"
proof (cases "get_session sc sid m")
  case (Inr s)
  then have s: "map_get (mg_sessions m) (sessionKey (sc_workspaceID sc) sid) = Some s" "se_workspaceID s = sc_workspaceID sc"
    by (auto simp: get_session_iff assertAccess_iff)
  have "same_session s (snd (operation (s\<lparr>se_lastUsedAt := now\<rparr>)))"
    using same [of "s\<lparr>se_lastUsedAt := now\<rparr>"] by (auto intro: same_session_trans [rotated])
  then show ?thesis
    using Inr keeps_update [OF ok s(1) _ s(2)] by (auto simp: run_on_def split: prod.splits sum.splits)
qed (simp add: run_on_def keeps_refl ok)

lemma keeps_close:
  assumes ok: "manager_ok m"
  shows "keeps (sc_workspaceID sc) m (snd (close_session sc sid m))"
proof (cases "get_session sc sid m")
  case (Inr s)
  then have s: "map_get (mg_sessions m) (sessionKey (sc_workspaceID sc) sid) = Some s" "se_workspaceID s = sc_workspaceID sc"
    by (auto simp: get_session_iff assertAccess_iff)
  then show ?thesis
    using Inr manager_ok_remove [OF ok s(1)] manager_okD(1) [OF ok s(1)] by (simp add: close_session_def keeps_def)
qed (simp add: close_session_def keeps_refl ok)

lemma new_session_fields [simp]:
  "se_key (new_session sha now c sc sid inp) = sessionKey (sc_workspaceID sc) sid"
  "se_id (new_session sha now c sc sid inp) = sid"
  "se_workspaceID (new_session sha now c sc sid inp) = sc_workspaceID sc"
  "se_context (new_session sha now c sc sid inp) = c"
  by (simp_all add: new_session_def Let_def)

text \<open>What a creation does to the manager when nothing else runs in between.\<close>

lemma create_launched_manager:
  fixes m sha br now sc sid inp
  defines "s \<equiv> new_session sha now (mg_next m) sc sid inp" and "started \<equiv> m\<lparr>mg_next := Suc (mg_next m)\<rparr>"
  assumes idle: "mg_launching m = []" and fresh: "map_get (mg_sessions m) (se_key s) = None"
  shows "snd (create_launched sha br now (mg_next m)
           (m\<lparr>mg_next := Suc (mg_next m), mg_launching := map_set (mg_launching m) (mg_next m) (sc, sid, inp)\<rparr>))
       = (if \<not> br_launch br (se_profile s) (se_viewport s) then started
          else if \<not> fst (open_first br inp s) then started\<lparr>mg_closed := mg_closed m @ [mg_next m]\<rparr>
          else started\<lparr>mg_sessions := map_set (mg_sessions m) (se_key s) (snd (observe br (snd (open_first br inp s))))\<rparr>)"
proof -
  have restart: "m\<lparr>mg_next := Suc (mg_next m), mg_launching := []\<rparr> = started"
    using idle by (cases m) (simp add: started_def)
  have key: "se_key (snd (observe br (snd (open_first br inp s)))) = se_key s"
    using observe_same [of "snd (open_first br inp s)" br] open_first_same [of s br inp] by (simp add: same_session_def)
  have undo: "map_delete (map_set (mg_sessions m) (se_key s) s) (se_key s) = mg_sessions m"
    using fresh by (rule map_delete_set_fresh)
  have lg: "map_get (map_set (mg_launching m) (mg_next m) x) (mg_next m) = Some x"
    "map_delete (map_set (mg_launching m) (mg_next m) x) (mg_next m) = []" for x :: "scope \<times> jstring \<times> jsval"
    by (simp_all add: idle js_map)
  have same: "started\<lparr>mg_sessions := mg_sessions m, mg_closed := cs\<rparr> = started\<lparr>mg_closed := cs\<rparr>" for cs
    by (cases m) (simp add: started_def)
  have max: "mg_sessions started = mg_sessions m" "mg_closed started = mg_closed m" by (simp_all add: started_def)
  show ?thesis
    by (simp add: create_launched_def lg restart Let_def put_session_def key undo same max map_set_set
        case_prod_beta flip: s_def)
qed

lemma keeps_create:
  assumes ok: "manager_ok m"
  shows "keeps (sc_workspaceID sc) m (snd (create sha br now rnd sc inp m))"
proof (cases "safeSessionID rnd (dot inp ''browser_session_id'')")
  case (Inl e)
  then show ?thesis by (simp add: create_def create_start_def keeps_refl ok)
next
  case sid: (Inr sid)
  let ?key = "sessionKey (sc_workspaceID sc) sid" and ?s = "new_session sha now (mg_next m) sc sid inp"
  show ?thesis
  proof (cases "map_get (mg_sessions m) ?key")
    case (Some s)
    have "same_session s (snd (observe br (s\<lparr>se_lastUsedAt := now\<rparr>)))"
      using observe_same [of "s\<lparr>se_lastUsedAt := now\<rparr>" br] by (auto intro: same_session_trans [rotated])
    then show ?thesis
      using keeps_update [OF ok Some] keeps_refl [OF ok] sid Some
      by (auto simp: create_def create_start_def assertAccess_iff split: sum.splits prod.splits)
  next
    case None
    define started where "started = m\<lparr>mg_next := Suc (mg_next m)\<rparr>"
    have started: "keeps (sc_workspaceID sc) m started"
      using ok by (auto simp: started_def keeps_def manager_ok_def foreign_def countForWorkspace_def list_all_iff less_SucI)
    have failed: "keeps (sc_workspaceID sc) m (started\<lparr>mg_closed := mg_closed m @ [mg_next m]\<rparr>)"
      using ok by (auto simp: started_def keeps_def manager_ok_def foreign_def countForWorkspace_def list_all_iff less_SucI)
    have added: "keeps (sc_workspaceID sc) m (started\<lparr>mg_sessions := map_set (mg_sessions m) ?key s\<rparr>)"
      if "same_session ?s s" "countForWorkspace (sc_workspaceID sc) m < mg_max m" for s
    proof -
      have "started\<lparr>mg_sessions := map_set (mg_sessions m) ?key s\<rparr>
          = m\<lparr>mg_sessions := map_set (mg_sessions m) ?key s, mg_next := Suc (mg_next m)\<rparr>" by (simp add: started_def)
      then show ?thesis using manager_ok_add [OF ok, of s] that None by (simp add: keeps_def same_session_def)
    qed
    have same: "same_session ?s (snd (observe br (snd (open_first br inp ?s))))"
      using open_first_same observe_same by (rule same_session_trans)
    have idle: "mg_launching m = []" using ok by (simp add: manager_ok_def)
    show ?thesis
      using create_launched_manager [OF idle, of sha now sc sid inp br] None sid started failed added [OF same]
        keeps_refl [OF ok, of "sc_workspaceID sc"]
      by (auto simp: create_def create_start_def simp flip: started_def)
  qed
qed

lemma keeps_respond [simp]: "snd (respond f r) = snd r"
  by (auto simp: respond_def split: prod.splits sum.splits)

lemma keeps_handle_sessions:
  assumes ok: "manager_ok m"
  shows "keeps (sc_workspaceID sc) m (snd (handle_sessions env req sc inp m))"
  using keeps_create [OF ok] keeps_refl [OF ok]
  by (auto simp: handle_sessions_def Let_def case_prod_beta split: sum.splits)

lemma keeps_handle_session:
  assumes ok: "manager_ok m"
  shows "keeps (sc_workspaceID sc) m (snd (handle_session env req sc inp sid act m))"
proof (cases "get_session sc sid m")
  case (Inr s)
  then have s: "map_get (mg_sessions m) (sessionKey (sc_workspaceID sc) sid) = Some s" "se_workspaceID s = sc_workspaceID sc"
    by (auto simp: get_session_iff assertAccess_iff)
  have shot: "keeps (sc_workspaceID sc) m (snd (screenshot now sc sid q full m))" for now q full
    unfolding screenshot_def by (rule keeps_run_on [OF ok]) simp
  have act: "keeps (sc_workspaceID sc) m (snd (action br now sc sid act inp m))" for br now
    unfolding action_def by (rule keeps_run_on [OF ok act_on_same])
  show ?thesis
    using Inr shot act keeps_close [OF ok] keeps_refl [OF ok] keeps_update [OF ok s(1) observe_same s(2)]
    by (auto simp: handle_session_def case_prod_beta split: sum.splits)
qed (simp add: handle_session_def keeps_refl ok)

lemma requestHandler_refused: "request_scope env req = Inl e \<Longrightarrow> snd (requestHandler env req m) = m"
  by (auto simp: requestHandler_def split: sum.splits option.splits matched_route.splits)

lemma requestHandler_keeps:
  assumes "manager_ok m" "request_scope env req = Inr (sc, inp)"
  shows "keeps (sc_workspaceID sc) m (snd (requestHandler env req m))"
  using assms keeps_handle_sessions keeps_handle_session keeps_refl
  by (auto simp: requestHandler_def split: sum.splits option.splits matched_route.splits)

text \<open>What holds of the manager at every moment, for a given configuration.\<close>

definition manager_inv :: "nat \<Rightarrow> manager \<Rightarrow> bool" where
  "manager_inv n m \<longleftrightarrow> manager_ok m \<and> mg_max m = n"

lemma keeps_inv: "manager_inv n m \<Longrightarrow> keeps ws m m' \<Longrightarrow> manager_inv n m'"
  by (simp add: manager_inv_def keeps_def)

lemma requestHandler_inv: "manager_inv n m \<Longrightarrow> manager_inv n (snd (requestHandler env req m))"
  by (cases "request_scope env req")
    (auto simp: requestHandler_refused manager_inv_def dest: requestHandler_keeps simp: keeps_def)

lemma close_inv: "manager_inv n m \<Longrightarrow> manager_inv n (snd (close_session sc sid m))"
  by (rule keeps_inv [OF _ keeps_close]) (simp_all add: manager_inv_def)

lemma cleanupExpired_inv:
  assumes "manager_inv n m" shows "manager_inv n (cleanupExpired now m)"
proof -
  have "manager_inv n (fold (\<lambda>s m'. snd (close_session (cleanup_scope s) (se_id s) m')) ss m)" for ss
    using assms by (induction ss arbitrary: m) (simp_all add: close_inv)
  then show ?thesis by (simp add: cleanupExpired_def)
qed

text \<open>The gateway at work: requests and runs of the cleanup timer, one after the other.\<close>

datatype gateway_event = Request gateway_env http_request | Cleanup rat

fun gateway_step :: "gateway_event \<Rightarrow> manager \<Rightarrow> manager" where
  "gateway_step (Request env req) m = snd (requestHandler env req m)"
| "gateway_step (Cleanup now) m = cleanupExpired now m"

lemma gateway_inv: "manager_inv n m \<Longrightarrow> manager_inv n (fold gateway_step es m)"
proof (induction es arbitrary: m)
  case (Cons e es)
  then show ?case by (cases e) (simp_all add: requestHandler_inv cleanupExpired_inv)
qed simp

lemma new_manager_inv: "manager_inv (nat (positiveInteger a 4 1000)) (new_manager a b)"
  by (simp add: manager_inv_def manager_ok_def new_manager_def countForWorkspace_def map_values_def)

section \<open>Properties\<close>

text \<open>C9: However many requests and cleanups the gateway has processed one after the other, no workspace
  holds more browser sessions than the configured quota (which lies between 1 and 1000), every session has a
  browser of its own, and no browser is closed twice or still in use after it was closed.\<close>

theorem workspace_quota:
  "countForWorkspace ws (fold gateway_step es (new_manager a b)) \<le> nat (positiveInteger a 4 1000)
   \<and> nat (positiveInteger a 4 1000) \<in> {1..1000}
   \<and> distinct (mg_closed (fold gateway_step es (new_manager a b))
               @ map se_context (map_values (mg_sessions (fold gateway_step es (new_manager a b)))))"
proof -
  have "manager_inv (nat (positiveInteger a 4 1000)) (fold gateway_step es (new_manager a b))"
    by (rule gateway_inv [OF new_manager_inv])
  moreover have "nat (positiveInteger a 4 1000) \<in> {1..1000}"
    using positiveInteger_bounds [of 4 1000 a] by auto
  ultimately show ?thesis unfolding manager_inv_def manager_ok_def by metis
qed

text \<open>C8: A request changes nothing when it is not authenticated, and it never changes, adds or removes a
  browser session of a workspace other than the one it is authenticated for.\<close>

theorem workspace_isolation:
  assumes "manager_ok m"
  shows "case request_scope env req of
      Inl _ \<Rightarrow> snd (requestHandler env req m) = m
    | Inr (sc, _) \<Rightarrow> foreign (sc_workspaceID sc) (snd (requestHandler env req m)) = foreign (sc_workspaceID sc) m"
  using requestHandler_keeps [OF assms] requestHandler_refused
  by (auto simp: keeps_def split: sum.splits)


subsection \<open>Signed service requests\<close>

lemma join_line_inject:
  "10 \<notin> set x \<Longrightarrow> 10 \<notin> set y \<Longrightarrow> xs \<noteq> [] \<Longrightarrow> ys \<noteq> [] \<Longrightarrow>
   join [10] (x # xs) = join [10] (y # ys) \<longleftrightarrow> x = y \<and> join [10] xs = join [10] ys"
proof (induction x arbitrary: y)
  case Nil
  then show ?case by (cases y; cases xs; cases ys) auto
next
  case (Cons c x)
  then show ?case by (cases y; cases xs; cases ys) auto
qed

lemma canonical_request_inject:
  assumes "list_all (\<lambda>x. 10 \<notin> set x) [a, b, c, d, e]" "list_all (\<lambda>x. 10 \<notin> set x) [a', b', c', d', e']"
  shows "canonical_request [a, b, c, d, e, f] = canonical_request [a', b', c', d', e', f']
     \<longleftrightarrow> [a, b, c, d, e, f] = [a', b', c', d', e', f']"
  using assms unfolding canonical_request_def by (auto simp: join_line_inject simp del: join.simps(3))

definition signed_fields :: "http_request \<Rightarrow> jstring list" where
  "signed_fields req = [header req ''x-tma-browser-timestamp'', to_upper (hr_method req), hr_path req,
     header req ''x-tma-workspace-id'', header req ''x-tma-session-id'']"

lemma serviceScope_accepts:
  assumes "authenticate sha hmac now me opts req body = Inr sc" "sc_kind sc = ServiceScope"
  shows "header req ''x-tma-browser-signature'' = hmac (ao_serviceSecret opts) (canonical_request (signed_fields req @ [sha body]))"
    "fresh_timestamp now (str_to_num (header req ''x-tma-browser-timestamp''))"
    "sc_workspaceID sc = header req ''x-tma-workspace-id''" "sc_tmaSessionID sc = header req ''x-tma-session-id''"
proof -
  have user: "userScope me opts req = Inr x \<Longrightarrow> sc_kind x = UserScope" for x
    by (auto simp: userScope_def Let_def split: if_splits option.splits)
  have "serviceScope sha hmac now opts req body = Inr (Some sc)"
    using assms user [of sc] by (auto simp: authenticate_def js_result split: option.splits)
  then show "header req ''x-tma-browser-signature'' = hmac (ao_serviceSecret opts) (canonical_request (signed_fields req @ [sha body]))"
    "fresh_timestamp now (str_to_num (header req ''x-tma-browser-timestamp''))"
    "sc_workspaceID sc = header req ''x-tma-workspace-id''" "sc_tmaSessionID sc = header req ''x-tma-session-id''"
    by (auto simp: serviceScope_def Let_def serviceSignature_def signed_fields_def split: if_splits)
qed


section \<open>Examples\<close>

definition page_browser :: browser where
  "page_browser = \<lparr>br_text = (\<lambda>_. jlit ''secret''), br_elements = (\<lambda>_. [\<lparr>el_ref = lit ''e1'', el_role = lit ''a'',
     el_text = jlit ''next'', el_selector = lit ''#next''\<rparr>]), br_url = (\<lambda>_. lit ''https://a''), br_title = (\<lambda>_. lit ''A''),
     br_launch = (\<lambda>_ _. True), br_perform = (\<lambda>_ _. True)\<rparr>"

text \<open>Two users of one workspace; only \<open>u1\<close> may access the TMA session \<open>t1\<close>.\<close>

definition demo_env :: gateway_env where
  "demo_env = \<lparr>ge_sha = (\<lambda>s. s), ge_hmac = (\<lambda>k s. k @ s), ge_now = 0, ge_random = lit ''r'',
     ge_me = (\<lambda>hs. Some (jobj [(''workspace_id'', jlit ''w''),
        (''owner_id'', JStr (case map_of hs ''cookie'' of Some c \<Rightarrow> c | None \<Rightarrow> []))])),
     ge_allowed = (\<lambda>hs t. if map_of hs ''cookie'' = Some (lit ''u1'') then None else Some 403),
     ge_auth = \<lparr>ao_disabled = False, ao_serviceSecret = lit ''k'', ao_tmaServerBaseURL = lit ''http://tma'',
       ao_trustedOrigins = [lit ''o'']\<rparr>,
     ge_workspace = [], ge_browser = page_browser\<rparr>"

definition demo_request :: "string \<Rightarrow> string \<Rightarrow> string \<Rightarrow> jsval option \<Rightarrow> http_request" where
  "demo_request user meth path inp = \<lparr>hr_method = lit meth, hr_path = gateway_prefix @ lit path,
     hr_headers = [(lit ''cookie'', jlit user), (lit ''origin'', jlit ''o'')], hr_query = [],
     hr_chunks = (case inp of None \<Rightarrow> [] | Some _ \<Rightarrow> [[123, 125]]), hr_json = inp\<rparr>"

definition u1_creates :: http_request where
  "u1_creates = demo_request ''u1'' ''POST'' ''/sessions''
     (Some (jobj [(''browser_session_id'', jlit ''s''), (''tma_session_id'', jlit ''t1'')]))"

definition demo_manager :: manager where
  "demo_manager = snd (requestHandler demo_env u1_creates (new_manager (jint 2) JUndef))"

definition u2_reads :: http_request where
  "u2_reads = demo_request ''u2'' ''GET'' ''/sessions/s'' None"

definition u2_creates :: http_request where
  "u2_creates = demo_request ''u2'' ''POST'' ''/sessions'' (Some (jobj [(''browser_session_id'', jlit ''s'')]))"


definition demo_scope :: scope where
  "demo_scope = \<lparr>sc_kind = UserScope, sc_workspaceID = lit ''w'', sc_ownerID = lit ''u1'', sc_tmaSessionID = [], sc_forwardedHeaders = []\<rparr>"

text \<open>Two creations that overlap while their browsers start.\<close>

definition overlapping :: "string \<Rightarrow> string \<Rightarrow> manager" where
  "overlapping a b =
     (let start = (\<lambda>sid m. snd (create_start page_browser 0 [] demo_scope (jobj [(''browser_session_id'', jlit sid)]) m));
          launched = (\<lambda>c m. snd (create_launched (\<lambda>s. s) page_browser 0 c m)) in
      launched 1 (launched 0 (start b (start a (new_manager (jint 1) JUndef)))))"


theorem workspace_isolation_witness:
  "manager_ok demo_manager \<and> foreign (lit ''w'') (snd (requestHandler demo_env u2_creates demo_manager)) = foreign (lit ''w'') demo_manager"
proof -
  have ok: "manager_ok demo_manager"
    using requestHandler_inv [OF new_manager_inv] unfolding demo_manager_def manager_inv_def by blast
  have "case request_scope demo_env u2_creates of Inl _ \<Rightarrow> False | Inr (sc, _) \<Rightarrow> sc_workspaceID sc = lit ''w''"
    by code_simp
  then show ?thesis using workspace_isolation [OF ok, of demo_env u2_creates] ok by (auto split: sum.splits)
qed

definition u1_reads :: http_request where
  "u1_reads = demo_request ''u1'' ''GET'' ''/sessions/s'' None"


definition service_request :: http_request where
  "service_request = \<lparr>hr_method = lit ''get'', hr_path = lit ''/p'',
     hr_headers = [(lit ''x-tma-browser-timestamp'', jlit ''7''), (lit ''x-tma-workspace-id'', jlit ''w''),
       (lit ''x-tma-session-id'', jlit ''t''),
       (lit ''x-tma-browser-signature'', JStr (lit ''k7'' @ [10] @ lit ''GET'' @ [10] @ lit ''/p'' @ [10] @ lit ''w'' @ [10] @ lit ''t'' @ [10, 66]))],
     hr_query = [], hr_chunks = [[66]], hr_json = None\<rparr>"

lemma service_request_fields:
  "header service_request ''x-tma-browser-timestamp'' = lit ''7''" "header service_request ''x-tma-workspace-id'' = lit ''w''"
  "header service_request ''x-tma-session-id'' = lit ''t''"
  "header service_request ''x-tma-browser-signature'' = serviceSignature (\<lambda>s. s) (\<lambda>k s. k @ s) (ao_serviceSecret (ge_auth demo_env))
      (lit ''7'') (hr_method service_request) (hr_path service_request) (lit ''w'') (lit ''t'') [66]"
  "header service_request ''x-tma-browser-signature'' \<noteq> []" "ao_serviceSecret (ge_auth demo_env) \<noteq> []"
  by code_simp+

lemma seven: "str_to_num (lit ''7'') = Fin 7"
  by (simp add: str_to_num_def js_eval Let_def parse_decimal_def digits_val_def num_of_option_def fin_or_inf_def
      to_lower_def lower_char_def)

lemma service_request_accepted:
  assumes "\<bar>t - 7\<bar> \<le> 60"
  shows "\<exists>sc. authenticate (\<lambda>s. s) (\<lambda>k s. k @ s) t (\<lambda>_. None) (ge_auth demo_env) service_request [66] = Inr sc \<and> sc_kind sc = ServiceScope"
  using assms service_request_fields by (simp add: authenticate_def serviceScope_def Let_def seven fresh_timestamp_def)


end
