(* ===== verification/Research_Projects.thy ===== *)
theory Research_Projects
  imports JS_URI
begin

text \<open>
  The research projects plugin (\<open>apps/workbench/src/plugins/researchProjects\<close>): \<open>repository.js\<close> keeps projects
  in the local storage of the browser, one JSON text per workspace and user; \<open>selectors.js\<close> builds the options of
  the session chooser.

  A stored text is represented by the value it parses to (\<open>StoredJSON\<close>), or by \<open>StoredText\<close> when it is not JSON;
  \<open>json_clone\<close> is \<open>JSON.parse(JSON.stringify(v))\<close>. The time stamps and the random parts of ids are arguments of the
  operations, and \<open>lc\<close> is \<open>localeCompare\<close>.
\<close>

section \<open>Projects\<close>

datatype project_error = ProjectError string jstring | BadURI

definition PROJECT_STATUSES :: "jstring list" where
  "PROJECT_STATUSES = map lit [''active'', ''archived'']"

definition PROJECT_STAGES :: "jstring list" where
  "PROJECT_STAGES = map lit [''planning'', ''collecting'', ''analyzing'', ''drafting'', ''completed'']"

definition FINDING_TYPES :: "jstring list" where
  "FINDING_TYPES = map lit [''finding'', ''hypothesis'', ''question'']"

definition too_long :: "string \<Rightarrow> int \<Rightarrow> project_error" where
  "too_long field n = ProjectError ''invalid_project'' (lit field @ lit '' exceeds '' @ int_str n @ lit '' characters'')"

definition project_required :: "jsval \<Rightarrow> string \<Rightarrow> int \<Rightarrow> project_error + jstring" where
  "project_required v field n =
     (let s = string_text v in
      if s = [] then Inl (ProjectError ''invalid_project'' (lit field @ lit '' is required''))
      else if int (length s) > n then Inl (too_long field n) else Inr s)"

definition project_optional :: "jsval \<Rightarrow> string \<Rightarrow> int \<Rightarrow> project_error + jstring" where
  "project_optional v field n = (let s = string_text v in if int (length s) > n then Inl (too_long field n) else Inr s)"

text \<open>\<open>set.has(v)\<close> for a set of strings.\<close>

definition member :: "jsval \<Rightarrow> jstring list \<Rightarrow> bool" where
  "member v xs = (case v of JStr s \<Rightarrow> s \<in> set xs | _ \<Rightarrow> False)"

definition member_or :: "jsval \<Rightarrow> jstring list \<Rightarrow> string \<Rightarrow> jstring" where
  "member_or v xs d = (if member v xs then to_str v else lit d)"

definition requiredStage :: "jsval \<Rightarrow> project_error + jstring" where
  "requiredStage v = (if member v PROJECT_STAGES then Inr (to_str v)
     else Inl (ProjectError ''invalid_project'' (lit ''project.stage is invalid'')))"

text \<open>\<open>JSON.parse(JSON.stringify(v))\<close>; \<open>None\<close> is \<open>undefined\<close>. Values with a \<open>toJSON\<close> method do not occur.\<close>

fun json_clone :: "jsval \<Rightarrow> jsval option" where
  "json_clone JUndef = None"
| "json_clone (JFun _) = None"
| "json_clone JNull = Some JNull"
| "json_clone (JBool b) = Some (JBool b)"
| "json_clone (JNum n) = Some (if is_finite n then JNum n else JNull)"
| "json_clone (JStr s) = Some (JStr s)"
| "json_clone (JArr xs) = Some (JArr (map (\<lambda>x. case json_clone x of Some y \<Rightarrow> y | None \<Rightarrow> JNull) xs))"
| "json_clone (JObj p kvs) = Some (JObj ObjectProto
     (map (\<lambda>(k, v). (k, the v)) (filter (\<lambda>(k, v). v \<noteq> None) (map (\<lambda>(k, v). (k, json_clone v)) kvs))))"

record research_resource =
  rs_id :: jstring
  rs_type :: jstring
  rs_title :: jstring
  rs_source :: jstring
  rs_linkedAt :: jstring
  rs_mimeType :: "jstring option"
  rs_previewable :: "bool option"
  rs_metadata :: jsval

record research_finding =
  fi_id :: jstring
  fi_type :: jstring
  fi_title :: jstring
  fi_content :: jstring
  fi_createdAt :: jstring
  fi_updatedAt :: jstring

record project =
  pj_id :: jstring
  pj_name :: jstring
  pj_objective :: jstring
  pj_description :: jstring
  pj_nextStep :: jstring
  pj_status :: jstring
  pj_stage :: jstring
  pj_resources :: "research_resource list"
  pj_findings :: "research_finding list"
  pj_createdAt :: jstring
  pj_updatedAt :: jstring

definition normalizeResource :: "jsval \<Rightarrow> jstring \<Rightarrow> project_error + research_resource" where
  "normalizeResource inp defaultLinkedAt =
     (if \<not> is_object inp then Inl (ProjectError ''invalid_resource'' (lit ''resource must be an object''))
      else
        andThen (project_required (dot inp ''id'') ''resource.id'' 240) (\<lambda>rid.
        andThen (project_required (dot inp ''type'') ''resource.type'' 64) (\<lambda>ty.
        andThen (project_required (dot inp ''title'') ''resource.title'' 500) (\<lambda>title.
        andThen (project_required (dot inp ''source'') ''resource.source'' 500) (\<lambda>source.
        andThen (project_optional (jor (dot inp ''linkedAt'') (JStr defaultLinkedAt)) ''resource.linkedAt'' 80) (\<lambda>linkedAt.
        Inr \<lparr>rs_id = rid, rs_type = ty, rs_title = title, rs_source = source, rs_linkedAt = linkedAt,
             rs_mimeType = (if string_text (dot inp ''mimeType'') = [] then None else Some (string_text (dot inp ''mimeType''))),
             rs_previewable = (case dot inp ''previewable'' of JBool b \<Rightarrow> Some b | _ \<Rightarrow> None),
             rs_metadata = (if is_object (dot inp ''metadata'') then the (json_clone (dot inp ''metadata'')) else JObj ObjectProto [])\<rparr>))))))"

definition normalizeFinding :: "jsval \<Rightarrow> project_error + research_finding" where
  "normalizeFinding inp =
     (if \<not> is_object inp then Inl (ProjectError ''invalid_finding'' (lit ''finding must be an object''))
      else
        andThen (project_required (dot inp ''id'') ''finding.id'' 240) (\<lambda>fid.
        andThen (project_required (dot inp ''title'') ''finding.title'' 180) (\<lambda>title.
        andThen (project_optional (dot inp ''content'') ''finding.content'' 4000) (\<lambda>content.
        andThen (project_required (dot inp ''createdAt'') ''finding.createdAt'' 80) (\<lambda>createdAt.
        andThen (project_required (dot inp ''updatedAt'') ''finding.updatedAt'' 80) (\<lambda>updatedAt.
        Inr \<lparr>fi_id = fid, fi_type = member_or (dot inp ''type'') FINDING_TYPES ''finding'', fi_title = title, fi_content = content,
             fi_createdAt = createdAt, fi_updatedAt = updatedAt\<rparr>))))))"

text \<open>Any error of a field makes the stored project unreadable.\<close>

definition stored_project :: "jsval \<Rightarrow> project_error + project" where
  "stored_project v =
     andThen (project_required (dot v ''updatedAt'') ''project.updatedAt'' 80) (\<lambda>updatedAt.
     andThen (project_required (dot v ''id'') ''project.id'' 240) (\<lambda>pid.
     andThen (project_required (dot v ''name'') ''project.name'' 120) (\<lambda>name.
     andThen (project_optional (dot v ''objective'') ''project.objective'' 1200) (\<lambda>objective.
     andThen (project_optional (dot v ''description'') ''project.description'' 4000) (\<lambda>description.
     andThen (project_optional (dot v ''nextStep'') ''project.nextStep'' 1200) (\<lambda>nextStep.
     andThen (mapE (\<lambda>r. normalizeResource r updatedAt) (array_items (dot v ''resources''))) (\<lambda>resources.
     andThen (mapE normalizeFinding (array_items (dot v ''findings''))) (\<lambda>findings.
     andThen (project_required (dot v ''createdAt'') ''project.createdAt'' 80) (\<lambda>createdAt.
     Inr \<lparr>pj_id = pid, pj_name = name, pj_objective = objective, pj_description = description, pj_nextStep = nextStep,
          pj_status = member_or (dot v ''status'') PROJECT_STATUSES ''active'',
          pj_stage = member_or (dot v ''stage'') PROJECT_STAGES ''planning'',
          pj_resources = resources, pj_findings = findings, pj_createdAt = createdAt, pj_updatedAt = updatedAt\<rparr>)))))))))"

definition normalizeStoredProject :: "jsval \<Rightarrow> project option" where
  "normalizeStoredProject v = (if \<not> is_object v then None else case stored_project v of Inr p \<Rightarrow> Some p | Inl _ \<Rightarrow> None)"

section \<open>Storage\<close>

datatype stored = StoredJSON jsval | StoredText

type_synonym storage = "jstring \<Rightarrow> stored option"

definition normalizedScope :: "jsval \<Rightarrow> project_error + jstring \<times> jstring" where
  "normalizedScope scope =
     andThen (project_required (dot scope ''workspaceId'') ''scope.workspaceId'' 240) (\<lambda>workspaceId.
     andThen (project_required (dot scope ''userId'') ''scope.userId'' 240) (\<lambda>userId. Inr (workspaceId, userId)))"

definition STORAGE_PREFIX :: jstring where
  "STORAGE_PREFIX = lit ''tma.plugin.com.tma.research-projects.projects.v1''"

definition storageKeyForScope :: "jsval \<Rightarrow> project_error + jstring" where
  "storageKeyForScope scope = andThen (normalizedScope scope) (\<lambda>(workspaceId, userId).
     case (encodeURIComponent workspaceId, encodeURIComponent userId) of
       (Some w, Some u) \<Rightarrow> Inr (STORAGE_PREFIX @ [58] @ w @ [58] @ u)
     | _ \<Rightarrow> Inl BadURI)"

definition resource_json :: "research_resource \<Rightarrow> jsval" where
  "resource_json r = jobj ([(''id'', JStr (rs_id r)), (''type'', JStr (rs_type r)), (''title'', JStr (rs_title r)),
      (''source'', JStr (rs_source r)), (''linkedAt'', JStr (rs_linkedAt r))]
      @ (case rs_mimeType r of Some m \<Rightarrow> [(''mimeType'', JStr m)] | None \<Rightarrow> [])
      @ (case rs_previewable r of Some b \<Rightarrow> [(''previewable'', JBool b)] | None \<Rightarrow> [])
      @ [(''metadata'', rs_metadata r)])"

definition finding_json :: "research_finding \<Rightarrow> jsval" where
  "finding_json f = jobj [(''id'', JStr (fi_id f)), (''type'', JStr (fi_type f)), (''title'', JStr (fi_title f)),
      (''content'', JStr (fi_content f)), (''createdAt'', JStr (fi_createdAt f)), (''updatedAt'', JStr (fi_updatedAt f))]"

definition project_json :: "project \<Rightarrow> jsval" where
  "project_json p = jobj [(''id'', JStr (pj_id p)), (''name'', JStr (pj_name p)), (''objective'', JStr (pj_objective p)),
      (''description'', JStr (pj_description p)), (''nextStep'', JStr (pj_nextStep p)), (''status'', JStr (pj_status p)),
      (''stage'', JStr (pj_stage p)), (''resources'', JArr (map resource_json (pj_resources p))),
      (''findings'', JArr (map finding_json (pj_findings p))), (''createdAt'', JStr (pj_createdAt p)),
      (''updatedAt'', JStr (pj_updatedAt p))]"

definition read_projects :: "jstring \<Rightarrow> storage \<Rightarrow> project list" where
  "read_projects key st = (case st key of
       Some (StoredJSON (JArr vs)) \<Rightarrow> List.map_filter normalizeStoredProject vs
     | _ \<Rightarrow> [])"

definition write_projects :: "jstring \<Rightarrow> project list \<Rightarrow> storage \<Rightarrow> storage" where
  "write_projects key ps st = st(key \<mapsto> StoredJSON (the (json_clone (JArr (map project_json ps)))))"

section \<open>Operations\<close>

definition list_projects :: "(jstring \<Rightarrow> jstring \<Rightarrow> int) \<Rightarrow> bool \<Rightarrow> jstring \<Rightarrow> storage \<Rightarrow> project list" where
  "list_projects lc includeArchived key st =
     sort_by (\<lambda>a b. lc (pj_updatedAt b) (pj_updatedAt a) \<le> 0)
       (filter (\<lambda>p. includeArchived \<or> pj_status p \<noteq> lit ''archived'') (read_projects key st))"

definition project_not_found :: "jstring \<Rightarrow> project_error" where
  "project_not_found pid = ProjectError ''project_not_found'' (lit ''project '' @ pid @ lit '' was not found'')"

definition finding_not_found :: "jstring \<Rightarrow> project_error" where
  "finding_not_found fid = ProjectError ''finding_not_found'' (lit ''finding '' @ fid @ lit '' was not found'')"

definition get_project :: "jstring \<Rightarrow> jstring \<Rightarrow> storage \<Rightarrow> project_error + project" where
  "get_project pid key st = (case List.find (\<lambda>p. pj_id p = pid) (read_projects key st) of
     Some p \<Rightarrow> Inr p | None \<Rightarrow> Inl (project_not_found pid))"

text \<open>\<open>generated\<close> is the result of \<open>randomID\<close> (empty when there is none), \<open>fallback\<close> the time and random text used
  instead.\<close>

definition projectID :: "jsval \<Rightarrow> jstring \<Rightarrow> jstring" where
  "projectID generated fallback =
     lit ''research_'' @ (if trim (to_str generated) \<noteq> [] then trim (to_str generated) else fallback)"

definition findingID :: "jsval \<Rightarrow> jstring \<Rightarrow> jstring" where
  "findingID generated fallback =
     lit ''finding_'' @ (if trim (to_str generated) \<noteq> [] then trim (to_str generated) else fallback)"

definition new_project :: "jstring \<Rightarrow> jstring \<Rightarrow> jsval \<Rightarrow> project_error + project" where
  "new_project stamp pid inp =
     andThen (project_required (dot inp ''name'') ''project.name'' 120) (\<lambda>name.
     andThen (project_optional (dot inp ''objective'') ''project.objective'' 1200) (\<lambda>objective.
     andThen (project_optional (dot inp ''description'') ''project.description'' 4000) (\<lambda>description.
     andThen (project_optional (dot inp ''nextStep'') ''project.nextStep'' 1200) (\<lambda>nextStep.
     Inr \<lparr>pj_id = pid, pj_name = name, pj_objective = objective, pj_description = description, pj_nextStep = nextStep,
          pj_status = lit ''active'', pj_stage = member_or (dot inp ''stage'') PROJECT_STAGES ''planning'',
          pj_resources = [], pj_findings = [], pj_createdAt = stamp, pj_updatedAt = stamp\<rparr>))))"

definition create_project :: "jstring \<Rightarrow> jstring \<Rightarrow> jsval \<Rightarrow> jstring \<Rightarrow> storage \<Rightarrow> (project_error + project) \<times> storage" where
  "create_project stamp pid inp key st = (case new_project stamp pid inp of
       Inl e \<Rightarrow> (Inl e, st)
     | Inr p \<Rightarrow> (Inr p, write_projects key (read_projects key st @ [p]) st))"

text \<open>What the other operations share: find the project, change it (with a result of type \<open>'r\<close>), write all projects
  back. An error leaves the storage as it is.\<close>

fun change_first :: "jstring \<Rightarrow> (project \<Rightarrow> project_error + 'r \<times> project) \<Rightarrow> project list \<Rightarrow> project_error + 'r \<times> project list" where
  "change_first pid f [] = Inl (project_not_found pid)"
| "change_first pid f (p # ps) = (if pj_id p = pid then andThen (f p) (\<lambda>(r, p'). Inr (r, p' # ps))
     else andThen (change_first pid f ps) (\<lambda>(r, ps'). Inr (r, p # ps')))"

definition change_project :: "jstring \<Rightarrow> (project \<Rightarrow> project_error + 'r \<times> project) \<Rightarrow> jstring \<Rightarrow> storage
    \<Rightarrow> (project_error + 'r) \<times> storage" where
  "change_project pid f key st = (case change_first pid f (read_projects key st) of
       Inl e \<Rightarrow> (Inl e, st)
     | Inr (r, ps) \<Rightarrow> (Inr r, write_projects key ps st))"

definition field_or :: "jsval \<Rightarrow> string \<Rightarrow> jstring \<Rightarrow> (jsval \<Rightarrow> project_error + jstring) \<Rightarrow> project_error + jstring" where
  "field_or inp name current read = (if dot inp name = JUndef then Inr current else read (dot inp name))"

definition updated :: "jstring \<Rightarrow> jsval \<Rightarrow> project \<Rightarrow> project_error + project \<times> project" where
  "updated stamp inp p =
     andThen (field_or inp ''name'' (pj_name p) (\<lambda>v. project_required v ''project.name'' 120)) (\<lambda>name.
     andThen (field_or inp ''objective'' (pj_objective p) (\<lambda>v. project_optional v ''project.objective'' 1200)) (\<lambda>objective.
     andThen (field_or inp ''description'' (pj_description p) (\<lambda>v. project_optional v ''project.description'' 4000)) (\<lambda>description.
     andThen (field_or inp ''nextStep'' (pj_nextStep p) (\<lambda>v. project_optional v ''project.nextStep'' 1200)) (\<lambda>nextStep.
     andThen (field_or inp ''stage'' (pj_stage p) requiredStage) (\<lambda>stage.
     let p' = p\<lparr>pj_name := name, pj_objective := objective, pj_description := description, pj_nextStep := nextStep,
                pj_stage := stage, pj_updatedAt := stamp\<rparr> in Inr (p', p'))))))"

definition update_project :: "jstring \<Rightarrow> jstring \<Rightarrow> jsval \<Rightarrow> jstring \<Rightarrow> storage \<Rightarrow> (project_error + project) \<times> storage" where
  "update_project stamp pid inp = change_project pid (updated stamp inp)"

definition with_status :: "string \<Rightarrow> jstring \<Rightarrow> project \<Rightarrow> project_error + project \<times> project" where
  "with_status status stamp p = (let p' = p\<lparr>pj_status := lit status, pj_updatedAt := stamp\<rparr> in Inr (p', p'))"

definition archive :: "jstring \<Rightarrow> jstring \<Rightarrow> jstring \<Rightarrow> storage \<Rightarrow> (project_error + project) \<times> storage" where
  "archive stamp pid = change_project pid (with_status ''archived'' stamp)"

definition restore :: "jstring \<Rightarrow> jstring \<Rightarrow> jstring \<Rightarrow> storage \<Rightarrow> (project_error + project) \<times> storage" where
  "restore stamp pid = change_project pid (with_status ''active'' stamp)"

text \<open>\<open>{ ...input, linkedAt: input?.linkedAt || timestamp }\<close>.\<close>

definition with_linkedAt :: "jsval \<Rightarrow> jstring \<Rightarrow> jsval" where
  "with_linkedAt inp stamp = JObj ObjectProto
     (map_set (case inp of JObj _ kvs \<Rightarrow> kvs | _ \<Rightarrow> []) (lit ''linkedAt'') (jor (dot inp ''linkedAt'') (JStr stamp)))"

definition attached :: "jstring \<Rightarrow> research_resource \<Rightarrow> project \<Rightarrow> project_error + project \<times> project" where
  "attached stamp r p =
     (let p' = p\<lparr>pj_resources := filter (\<lambda>x. \<not> (rs_id x = rs_id r \<and> rs_source x = rs_source r)) (pj_resources p) @ [r],
                pj_updatedAt := stamp\<rparr> in Inr (p', p'))"

definition attachResource :: "jstring \<Rightarrow> jstring \<Rightarrow> jsval \<Rightarrow> jstring \<Rightarrow> storage \<Rightarrow> (project_error + project) \<times> storage" where
  "attachResource stamp pid inp key st = (case normalizeResource (with_linkedAt inp stamp) stamp of
       Inl e \<Rightarrow> (Inl e, st)
     | Inr r \<Rightarrow> change_project pid (attached stamp r) key st)"

definition detached :: "jstring \<Rightarrow> jstring \<Rightarrow> jstring \<Rightarrow> project \<Rightarrow> project_error + project \<times> project" where
  "detached stamp rid source p =
     (let p' = p\<lparr>pj_resources := filter (\<lambda>x. \<not> (rs_id x = rid \<and> rs_source x = source)) (pj_resources p),
                pj_updatedAt := stamp\<rparr> in Inr (p', p'))"

definition detachResource :: "jstring \<Rightarrow> jstring \<Rightarrow> jstring \<Rightarrow> jstring \<Rightarrow> jstring \<Rightarrow> storage
    \<Rightarrow> (project_error + project) \<times> storage" where
  "detachResource stamp pid rid source = change_project pid (detached stamp rid source)"

definition added :: "jstring \<Rightarrow> jstring \<Rightarrow> jsval \<Rightarrow> project \<Rightarrow> project_error + research_finding \<times> project" where
  "added stamp fid inp p =
     andThen (normalizeFinding (jobj [(''id'', JStr fid), (''type'', dot inp ''type''), (''title'', dot inp ''title''),
        (''content'', dot inp ''content''), (''createdAt'', JStr stamp), (''updatedAt'', JStr stamp)])) (\<lambda>f.
     Inr (f, p\<lparr>pj_findings := pj_findings p @ [f], pj_updatedAt := stamp\<rparr>))"

definition addFinding :: "jstring \<Rightarrow> jstring \<Rightarrow> jstring \<Rightarrow> jsval \<Rightarrow> jstring \<Rightarrow> storage
    \<Rightarrow> (project_error + research_finding) \<times> storage" where
  "addFinding stamp fid pid inp = change_project pid (added stamp fid inp)"

definition given :: "jsval \<Rightarrow> string \<Rightarrow> jstring \<Rightarrow> jsval" where
  "given inp name current = (if dot inp name = JUndef then JStr current else dot inp name)"

fun change_finding :: "jstring \<Rightarrow> jstring \<Rightarrow> jsval \<Rightarrow> research_finding list \<Rightarrow> project_error + research_finding \<times> research_finding list" where
  "change_finding stamp fid inp [] = Inl (finding_not_found fid)"
| "change_finding stamp fid inp (f # fs) =
     (if fi_id f = fid
      then andThen (normalizeFinding (jobj [(''id'', JStr (fi_id f)), (''type'', given inp ''type'' (fi_type f)),
             (''title'', given inp ''title'' (fi_title f)), (''content'', given inp ''content'' (fi_content f)),
             (''createdAt'', JStr (fi_createdAt f)), (''updatedAt'', JStr stamp)])) (\<lambda>f'. Inr (f', f' # fs))
      else andThen (change_finding stamp fid inp fs) (\<lambda>(f', fs'). Inr (f', f # fs')))"

definition finding_updated :: "jstring \<Rightarrow> jstring \<Rightarrow> jsval \<Rightarrow> project \<Rightarrow> project_error + research_finding \<times> project" where
  "finding_updated stamp fid inp p =
     andThen (change_finding stamp fid inp (pj_findings p)) (\<lambda>(f, fs). Inr (f, p\<lparr>pj_findings := fs, pj_updatedAt := stamp\<rparr>))"

definition updateFinding :: "jstring \<Rightarrow> jstring \<Rightarrow> jstring \<Rightarrow> jsval \<Rightarrow> jstring \<Rightarrow> storage
    \<Rightarrow> (project_error + research_finding) \<times> storage" where
  "updateFinding stamp pid fid inp = change_project pid (finding_updated stamp fid inp)"

definition finding_removed :: "jstring \<Rightarrow> jstring \<Rightarrow> project \<Rightarrow> project_error + bool \<times> project" where
  "finding_removed stamp fid p =
     (if \<not> list_ex (\<lambda>f. fi_id f = fid) (pj_findings p) then Inl (finding_not_found fid)
      else Inr (True, p\<lparr>pj_findings := filter (\<lambda>f. fi_id f \<noteq> fid) (pj_findings p), pj_updatedAt := stamp\<rparr>))"

definition removeFinding :: "jstring \<Rightarrow> jstring \<Rightarrow> jstring \<Rightarrow> jstring \<Rightarrow> storage \<Rightarrow> (project_error + bool) \<times> storage" where
  "removeFinding stamp pid fid = change_project pid (finding_removed stamp fid)"

section \<open>The brief\<close>

text \<open>Chinese texts are given by their code units.\<close>

definition RESEARCH_STAGE_OPTIONS :: "(jstring \<times> jstring) list" where
  "RESEARCH_STAGE_OPTIONS = [(lit ''planning'', [30740, 31350, 35268, 21010]), (lit ''collecting'', [36164, 26009, 25910, 38598]),
     (lit ''analyzing'', [20998, 26512, 24402, 32435]), (lit ''drafting'', [25253, 21578, 25776, 20889]), (lit ''completed'', [24050, 23436, 25104])]"

definition RESEARCH_FINDING_TYPE_OPTIONS :: "(jstring \<times> jstring) list" where
  "RESEARCH_FINDING_TYPE_OPTIONS = [(lit ''finding'', [30740, 31350, 32467, 35770]), (lit ''hypothesis'', [30740, 31350, 20551, 35774]),
     (lit ''question'', [24453, 39564, 35777, 38382, 39064])]"

definition label_or :: "(jstring \<times> jstring) list \<Rightarrow> jstring \<Rightarrow> jstring \<Rightarrow> jstring" where
  "label_or options v d = (case map_of options v of Some l \<Rightarrow> l | None \<Rightarrow> if v = [] then d else v)"

definition stageLabel :: "jstring \<Rightarrow> jstring" where
  "stageLabel stage = label_or RESEARCH_STAGE_OPTIONS stage [30740, 31350, 35268, 21010]"

definition findingTypeLabel :: "jstring \<Rightarrow> jstring" where
  "findingTypeLabel ty = label_or RESEARCH_FINDING_TYPE_OPTIONS ty [30740, 31350, 32467, 35770]"

definition filled :: "jstring \<Rightarrow> jstring" where
  "filled s = (if s = [] then [26410, 22635, 20889] else s)"

definition finding_lines :: "research_finding \<Rightarrow> jstring list" where
  "finding_lines f = [lit ''### '' @ fi_title f, [], [31867, 22411, 65306] @ findingTypeLabel (fi_type f), [], filled (fi_content f), []]"

definition projectBriefMarkdown :: "project \<Rightarrow> jstring" where
  "projectBriefMarkdown p = join [10]
     ([lit ''# '' @ pj_name p, [], [38454, 27573, 65306] @ stageLabel (pj_stage p), [],
       lit ''## '' @ [30740, 31350, 30446, 26631], [], filled (pj_objective p), [],
       lit ''## '' @ [39033, 30446, 35828, 26126], [], filled (pj_description p), [],
       lit ''## '' @ [19979, 19968, 27493], [], filled (pj_nextStep p), [],
       lit ''## '' @ [30740, 31350, 21457, 29616], []]
      @ (if pj_findings p = [] then [[26242, 26080, 30740, 31350, 21457, 29616]] else concat (map finding_lines (pj_findings p)))
      @ [lit ''## '' @ [20851, 32852, 25104, 26524], []]
      @ (if pj_resources p = [] then [[26242, 26080, 20851, 32852, 25104, 26524]]
         else map (\<lambda>r. lit ''- '' @ rs_title r @ lit '' ('' @ rs_type r @ lit '')'') (pj_resources p))
      @ [[], [26356, 26032, 26102, 38388, 65306] @ pj_updatedAt p, []])"

section \<open>The session chooser\<close>

record session_option =
  so_id :: jstring
  so_label :: jstring
  so_description :: jstring
  so_keywords :: jstring

fun session_options :: "jstring list \<Rightarrow> jsval list \<Rightarrow> session_option list" where
  "session_options seen [] = []"
| "session_options seen (v # vs) =
     (let sid = string_text (dot v ''id''); title = string_text (dot v ''title''); status = string_text (dot v ''status'');
          texts = filter (\<lambda>s. s \<noteq> []) in
      if \<not> is_object v \<or> sid = [] \<or> sid \<in> set seen then session_options seen vs
      else \<lparr>so_id = sid, so_label = (if title = [] then sid else title),
            so_description = join [32, 183, 32] (texts [if title \<noteq> [] \<and> title \<noteq> sid then sid else [], status]),
            so_keywords = join [32] (texts [title, sid, status])\<rparr> # session_options (sid # seen) vs)"

definition sessionSelectionOptions :: "jsval \<Rightarrow> session_option list" where
  "sessionSelectionOptions inp = session_options [] (array_items inp)"

section \<open>Well-formed projects\<close>

definition text_ok :: "int \<Rightarrow> jstring \<Rightarrow> bool" where
  "text_ok n s \<longleftrightarrow> s \<noteq> [] \<and> trim s = s \<and> int (length s) \<le> n"

definition optional_ok :: "int \<Rightarrow> jstring \<Rightarrow> bool" where
  "optional_ok n s \<longleftrightarrow> trim s = s \<and> int (length s) \<le> n"

definition resource_ok :: "research_resource \<Rightarrow> bool" where
  "resource_ok r \<longleftrightarrow> text_ok 240 (rs_id r) \<and> text_ok 64 (rs_type r) \<and> text_ok 500 (rs_title r) \<and> text_ok 500 (rs_source r)
     \<and> text_ok 80 (rs_linkedAt r) \<and> (case rs_mimeType r of None \<Rightarrow> True | Some m \<Rightarrow> m \<noteq> [] \<and> trim m = m)
     \<and> is_object (rs_metadata r) \<and> json_clone (rs_metadata r) = Some (rs_metadata r)"

definition finding_ok :: "research_finding \<Rightarrow> bool" where
  "finding_ok f \<longleftrightarrow> text_ok 240 (fi_id f) \<and> fi_type f \<in> set FINDING_TYPES \<and> text_ok 180 (fi_title f)
     \<and> optional_ok 4000 (fi_content f) \<and> text_ok 80 (fi_createdAt f) \<and> text_ok 80 (fi_updatedAt f)"

definition project_ok :: "project \<Rightarrow> bool" where
  "project_ok p \<longleftrightarrow> text_ok 240 (pj_id p) \<and> text_ok 120 (pj_name p) \<and> optional_ok 1200 (pj_objective p)
     \<and> optional_ok 4000 (pj_description p) \<and> optional_ok 1200 (pj_nextStep p) \<and> pj_status p \<in> set PROJECT_STATUSES
     \<and> pj_stage p \<in> set PROJECT_STAGES \<and> list_all resource_ok (pj_resources p) \<and> list_all finding_ok (pj_findings p)
     \<and> text_ok 80 (pj_createdAt p) \<and> text_ok 80 (pj_updatedAt p)"

lemma project_required_iff: "project_required v f n = Inr s \<longleftrightarrow> string_text v = s \<and> text_ok n s"
  by (auto simp: project_required_def text_ok_def Let_def)

lemma project_optional_iff: "project_optional v f n = Inr s \<longleftrightarrow> string_text v = s \<and> optional_ok n s"
  by (auto simp: project_optional_def optional_ok_def Let_def)

lemma project_required_JStr [simp]: "text_ok n s \<Longrightarrow> project_required (JStr s) f n = Inr s"
  by (simp add: project_required_iff text_ok_def)

lemma project_optional_JStr [simp]: "optional_ok n s \<Longrightarrow> project_optional (JStr s) f n = Inr s"
  by (simp add: project_optional_iff optional_ok_def)

lemma string_text_JUndef [simp]: "string_text JUndef = []"
  by (simp add: string_text_def)

lemma text_ok_optional: "text_ok n s \<Longrightarrow> optional_ok n s"
  by (simp add: text_ok_def optional_ok_def)

lemma member_or_in: "lit d \<in> set xs \<Longrightarrow> member_or v xs d \<in> set xs"
  by (auto simp: member_or_def member_def split: jsval.splits)

lemma member_or_JStr [simp]: "s \<in> set xs \<Longrightarrow> member_or (JStr s) xs d = s"
  by (simp add: member_or_def member_def)

lemma json_clone_stable: "json_clone v = Some w \<Longrightarrow> json_clone w = Some w \<and> (is_object v \<longrightarrow> is_object w)"
proof (induction v arbitrary: w rule: json_clone.induct)
  case (7 xs)
  have "(case json_clone y of Some z \<Rightarrow> z | None \<Rightarrow> JNull) = y"
    if "x \<in> set xs" "y = (case json_clone x of Some z \<Rightarrow> z | None \<Rightarrow> JNull)" for x y
    using 7(1) [OF that(1)] that(2) by (auto split: option.splits)
  then show ?case using 7(2) by (auto intro!: map_cong)
next
  case (8 p kvs)
  define ws where "ws = map (\<lambda>(k, v). (k, the v)) (filter (\<lambda>(k, v). v \<noteq> None) (map (\<lambda>(k, v). (k, json_clone v)) kvs))"
  have w: "w = JObj ObjectProto ws" using 8(2) by (simp add: ws_def)
  have "json_clone v = Some v" if kv: "(k, v) \<in> set ws" for k v
  proof -
    obtain u where "(k, u) \<in> set kvs" "json_clone u = Some v" using kv by (auto simp: ws_def) (metis option.sel)
    then show ?thesis using 8(1) by blast
  qed
  then have "map (\<lambda>(k, v). (k, json_clone v)) ws = map (\<lambda>(k, v). (k, Some v)) ws" by auto
  then have "json_clone (JObj ObjectProto ws) = Some (JObj ObjectProto ws)"
    unfolding json_clone.simps by (simp add: filter_map o_def case_prod_beta) (rule map_idI, simp)
  then show ?case unfolding w by simp
qed auto

section \<open>Writing and reading back\<close>

lemma json_clone_jobj:
  "(\<And>k v. (k, v) \<in> set kvs \<Longrightarrow> json_clone v = Some v) \<Longrightarrow> json_clone (jobj kvs) = Some (jobj kvs)"
proof -
  assume "\<And>k v. (k, v) \<in> set kvs \<Longrightarrow> json_clone v = Some v"
  then have "map (\<lambda>(k, v). (k, json_clone v)) (map (\<lambda>(k, v). (lit k, v)) kvs) = map (\<lambda>(k, v). (lit k, Some v)) kvs"
    by (auto simp: case_prod_beta)
  then show ?thesis by (simp add: jobj_def filter_map o_def case_prod_beta)
qed

lemma json_clone_JArr: "(\<And>v. v \<in> set vs \<Longrightarrow> json_clone v = Some v) \<Longrightarrow> json_clone (JArr vs) = Some (JArr vs)"
  by (simp add: map_idI)

lemma resource_json_stable: "resource_ok r \<Longrightarrow> json_clone (resource_json r) = Some (resource_json r)"
  unfolding resource_json_def
  by (rule json_clone_jobj) (auto simp: resource_ok_def split: option.splits)

lemma finding_json_stable: "json_clone (finding_json f) = Some (finding_json f)"
  unfolding finding_json_def by (rule json_clone_jobj) auto

lemma project_json_stable: "project_ok p \<Longrightarrow> json_clone (project_json p) = Some (project_json p)"
proof -
  assume "project_ok p"
  then have "json_clone (JArr (map resource_json (pj_resources p))) = Some (JArr (map resource_json (pj_resources p)))"
    by (intro json_clone_JArr) (auto simp: project_ok_def list_all_iff resource_json_stable)
  moreover have "json_clone (JArr (map finding_json (pj_findings p))) = Some (JArr (map finding_json (pj_findings p)))"
    by (intro json_clone_JArr) (auto simp: finding_json_stable)
  ultimately show ?thesis unfolding project_json_def by (intro json_clone_jobj) auto
qed

lemma normalizeResource_json: "resource_ok r \<Longrightarrow> normalizeResource (resource_json r) d = Inr r"
  by (cases r) (auto simp: normalizeResource_def resource_json_def resource_ok_def dot_jobj jor_def text_ok_optional text_ok_def [of 80]
      split: option.splits)

lemma normalizeFinding_json: "finding_ok f \<Longrightarrow> normalizeFinding (finding_json f) = Inr f"
  by (cases f) (simp add: normalizeFinding_def finding_json_def finding_ok_def dot_jobj)

lemma mapE_map: "(\<And>x. x \<in> set xs \<Longrightarrow> f (g x) = Inr x) \<Longrightarrow> mapE f (map g xs) = Inr xs"
  by (induction xs) auto

lemma stored_project_json: "project_ok p \<Longrightarrow> stored_project (project_json p) = Inr p"
proof -
  assume p: "project_ok p"
  then have "mapE (\<lambda>r. normalizeResource r d) (map resource_json (pj_resources p)) = Inr (pj_resources p)"
    "mapE normalizeFinding (map finding_json (pj_findings p)) = Inr (pj_findings p)" for d
    by (auto simp: project_ok_def list_all_iff normalizeResource_json normalizeFinding_json intro!: mapE_map)
  with p show ?thesis by (cases p) (simp add: stored_project_def project_json_def dot_jobj array_items_def project_ok_def)
qed

lemma read_write:
  assumes "list_all project_ok ps"
  shows "read_projects key (write_projects key ps st) = ps"
proof -
  have c: "json_clone (JArr (map project_json ps)) = Some (JArr (map project_json ps))"
    using assms by (intro json_clone_JArr) (auto simp: list_all_iff project_json_stable)
  have "normalizeStoredProject (project_json p) = Some p" if "p \<in> set ps" for p
    using that assms stored_project_json [of p] by (simp add: normalizeStoredProject_def list_all_iff project_json_def)
  then have "List.map_filter normalizeStoredProject (map project_json ps) = ps"
    by (induction ps) (auto simp: List.map_filter_def)
  then show ?thesis unfolding read_projects_def write_projects_def c by simp
qed

section \<open>The repository as a list of projects\<close>

datatype repo_op =
    CreateProject jstring jsval
  | UpdateProject jstring jsval
  | ArchiveProject jstring
  | RestoreProject jstring
  | AttachResource jstring jsval
  | DetachResource jstring jstring jstring
  | AddFinding jstring jstring jsval
  | UpdateFinding jstring jstring jsval
  | RemoveFinding jstring jstring

definition outcome_of :: "('e + 'a) \<times> storage \<Rightarrow> 'e option \<times> storage" where
  "outcome_of r = (case r of (Inl e, st) \<Rightarrow> (Some e, st) | (Inr _, st) \<Rightarrow> (None, st))"

text \<open>The operations of the code, on the storage.\<close>

fun run_op :: "jstring \<Rightarrow> repo_op \<Rightarrow> jstring \<Rightarrow> storage \<Rightarrow> project_error option \<times> storage" where
  "run_op stamp (CreateProject pid inp) key st = outcome_of (create_project stamp pid inp key st)"
| "run_op stamp (UpdateProject pid inp) key st = outcome_of (update_project stamp pid inp key st)"
| "run_op stamp (ArchiveProject pid) key st = outcome_of (archive stamp pid key st)"
| "run_op stamp (RestoreProject pid) key st = outcome_of (restore stamp pid key st)"
| "run_op stamp (AttachResource pid inp) key st = outcome_of (attachResource stamp pid inp key st)"
| "run_op stamp (DetachResource pid rid source) key st = outcome_of (detachResource stamp pid rid source key st)"
| "run_op stamp (AddFinding fid pid inp) key st = outcome_of (addFinding stamp fid pid inp key st)"
| "run_op stamp (UpdateFinding pid fid inp) key st = outcome_of (updateFinding stamp pid fid inp key st)"
| "run_op stamp (RemoveFinding pid fid) key st = outcome_of (removeFinding stamp pid fid key st)"

text \<open>The specification: the same operations on a list of projects in memory.\<close>

definition in_list :: "jstring \<Rightarrow> (project \<Rightarrow> project_error + 'r \<times> project) \<Rightarrow> project list \<Rightarrow> project_error + project list" where
  "in_list pid f ps = andThen (change_first pid f ps) (\<lambda>(_, ps'). Inr ps')"

fun spec_op :: "jstring \<Rightarrow> repo_op \<Rightarrow> project list \<Rightarrow> project_error + project list" where
  "spec_op stamp (CreateProject pid inp) ps = andThen (new_project stamp pid inp) (\<lambda>p. Inr (ps @ [p]))"
| "spec_op stamp (UpdateProject pid inp) ps = in_list pid (updated stamp inp) ps"
| "spec_op stamp (ArchiveProject pid) ps = in_list pid (with_status ''archived'' stamp) ps"
| "spec_op stamp (RestoreProject pid) ps = in_list pid (with_status ''active'' stamp) ps"
| "spec_op stamp (AttachResource pid inp) ps =
     andThen (normalizeResource (with_linkedAt inp stamp) stamp) (\<lambda>r. in_list pid (attached stamp r) ps)"
| "spec_op stamp (DetachResource pid rid source) ps = in_list pid (detached stamp rid source) ps"
| "spec_op stamp (AddFinding fid pid inp) ps = in_list pid (added stamp fid inp) ps"
| "spec_op stamp (UpdateFinding pid fid inp) ps = in_list pid (finding_updated stamp fid inp) ps"
| "spec_op stamp (RemoveFinding pid fid) ps = in_list pid (finding_removed stamp fid) ps"

text \<open>The time stamp and a new id fit their fields; a given link time is a text that is not blank.\<close>

fun op_ok :: "jstring \<Rightarrow> repo_op \<Rightarrow> bool" where
  "op_ok stamp (CreateProject pid inp) \<longleftrightarrow> text_ok 80 stamp \<and> text_ok 240 pid"
| "op_ok stamp (AttachResource pid inp) \<longleftrightarrow> text_ok 80 stamp \<and> string_text (jor (dot inp ''linkedAt'') (JStr stamp)) \<noteq> []"
| "op_ok stamp _ \<longleftrightarrow> text_ok 80 stamp"

text \<open>A change that keeps projects well formed.\<close>

definition keeps_ok :: "(project \<Rightarrow> project_error + 'r \<times> project) \<Rightarrow> bool" where
  "keeps_ok f \<longleftrightarrow> (\<forall>p r p'. project_ok p \<longrightarrow> f p = Inr (r, p') \<longrightarrow> project_ok p')"

lemma change_first_ok:
  "keeps_ok f \<Longrightarrow> list_all project_ok ps \<Longrightarrow> change_first pid f ps = Inr (r, ps') \<Longrightarrow> list_all project_ok ps'"
proof (induction ps arbitrary: ps')
  case (Cons p ps)
  then show ?case by (auto simp: keeps_ok_def js_result split: if_splits)
qed simp

lemma PROJECT_STATUSES_mem [simp]: "lit ''active'' \<in> set PROJECT_STATUSES" "lit ''archived'' \<in> set PROJECT_STATUSES"
  and PROJECT_STAGES_mem [simp]: "lit ''planning'' \<in> set PROJECT_STAGES"
  and FINDING_TYPES_mem [simp]: "lit ''finding'' \<in> set FINDING_TYPES"
  by (simp_all add: PROJECT_STATUSES_def PROJECT_STAGES_def FINDING_TYPES_def)

lemma normalizeFinding_ok: "normalizeFinding v = Inr f \<Longrightarrow> finding_ok f"
  by (auto simp: normalizeFinding_def finding_ok_def js_result project_required_iff project_optional_iff member_or_in split: if_splits)

lemma clone_object_ok:
  assumes "is_object w"
  shows "json_clone (the (json_clone w)) = Some (the (json_clone w))" "is_object (the (json_clone w))"
proof -
  obtain x where "json_clone w = Some x" using assms by (cases w) auto
  then show "json_clone (the (json_clone w)) = Some (the (json_clone w))" "is_object (the (json_clone w))"
    using json_clone_stable [of w x] assms by simp_all
qed

lemma normalizeResource_ok:
  assumes "normalizeResource v d = Inr r" "string_text (jor (dot v ''linkedAt'') (JStr d)) \<noteq> []"
  shows "resource_ok r"
proof -
  have "text_ok 240 (rs_id r)" "text_ok 64 (rs_type r)" "text_ok 500 (rs_title r)" "text_ok 500 (rs_source r)"
    "optional_ok 80 (rs_linkedAt r)" "rs_linkedAt r = string_text (jor (dot v ''linkedAt'') (JStr d))"
    "case rs_mimeType r of None \<Rightarrow> True | Some m \<Rightarrow> m \<noteq> [] \<and> trim m = m"
    "rs_metadata r = (if is_object (dot v ''metadata'') then the (json_clone (dot v ''metadata'')) else JObj ObjectProto [])"
    using assms(1) unfolding normalizeResource_def
    by (clarsimp simp: js_result project_required_iff project_optional_iff split: if_split_asm)+
  then show ?thesis
    using assms(2) clone_object_ok [of "dot v ''metadata''"] by (simp add: resource_ok_def optional_ok_def text_ok_def [of 80])
qed

lemma field_or_ok: "field_or inp name c f = Inr s \<Longrightarrow> P c \<Longrightarrow> (\<And>v. f v = Inr s \<Longrightarrow> P s) \<Longrightarrow> P s"
  by (auto simp: field_or_def split: if_splits)

lemma keeps_updated: "text_ok 80 stamp \<Longrightarrow> keeps_ok (updated stamp inp)"
  unfolding keeps_ok_def
proof (intro allI impI)
  fix p r p'
  assume stamp: "text_ok 80 stamp" and p: "project_ok p" and u: "updated stamp inp p = Inr (r, p')"
  obtain a b c d e where f: "field_or inp ''name'' (pj_name p) (\<lambda>v. project_required v ''project.name'' 120) = Inr a"
    "field_or inp ''objective'' (pj_objective p) (\<lambda>v. project_optional v ''project.objective'' 1200) = Inr b"
    "field_or inp ''description'' (pj_description p) (\<lambda>v. project_optional v ''project.description'' 4000) = Inr c"
    "field_or inp ''nextStep'' (pj_nextStep p) (\<lambda>v. project_optional v ''project.nextStep'' 1200) = Inr d"
    "field_or inp ''stage'' (pj_stage p) requiredStage = Inr e"
    and p': "p' = p\<lparr>pj_name := a, pj_objective := b, pj_description := c, pj_nextStep := d, pj_stage := e, pj_updatedAt := stamp\<rparr>"
    using u by (auto simp: updated_def js_result Let_def)
  have "text_ok 120 a" by (rule field_or_ok [OF f(1)]) (use p in \<open>auto simp: project_ok_def project_required_iff\<close>)
  moreover have "optional_ok 1200 b" by (rule field_or_ok [OF f(2)]) (use p in \<open>auto simp: project_ok_def project_optional_iff\<close>)
  moreover have "optional_ok 4000 c" by (rule field_or_ok [OF f(3)]) (use p in \<open>auto simp: project_ok_def project_optional_iff\<close>)
  moreover have "optional_ok 1200 d" by (rule field_or_ok [OF f(4)]) (use p in \<open>auto simp: project_ok_def project_optional_iff\<close>)
  moreover have "e \<in> set PROJECT_STAGES"
    by (rule field_or_ok [OF f(5)]) (use p in \<open>auto simp: project_ok_def requiredStage_def member_def split: if_splits jsval.splits\<close>)
  ultimately show "project_ok p'" using p stamp by (simp add: p' project_ok_def)
qed

lemma keeps_with_status: "text_ok 80 stamp \<Longrightarrow> lit status \<in> set PROJECT_STATUSES \<Longrightarrow> keeps_ok (with_status status stamp)"
  by (auto simp: keeps_ok_def with_status_def project_ok_def Let_def)

lemma keeps_attached: "text_ok 80 stamp \<Longrightarrow> resource_ok r \<Longrightarrow> keeps_ok (attached stamp r)"
  by (auto simp: keeps_ok_def attached_def project_ok_def Let_def list_all_iff)

lemma keeps_detached: "text_ok 80 stamp \<Longrightarrow> keeps_ok (detached stamp rid source)"
  by (auto simp: keeps_ok_def detached_def project_ok_def Let_def list_all_iff)

lemma keeps_added: "text_ok 80 stamp \<Longrightarrow> keeps_ok (added stamp fid inp)"
  by (auto simp: keeps_ok_def added_def project_ok_def js_result dest: normalizeFinding_ok)

lemma change_finding_ok:
  "change_finding stamp fid inp fs = Inr (f, fs') \<Longrightarrow> list_all finding_ok fs \<Longrightarrow> list_all finding_ok fs'"
proof (induction fs arbitrary: fs')
  case (Cons g fs)
  then show ?case by (auto simp: js_result split: if_splits dest: normalizeFinding_ok)
qed simp

lemma keeps_finding_updated: "text_ok 80 stamp \<Longrightarrow> keeps_ok (finding_updated stamp fid inp)"
  by (auto simp: keeps_ok_def finding_updated_def project_ok_def js_result dest: change_finding_ok)

lemma keeps_finding_removed: "text_ok 80 stamp \<Longrightarrow> keeps_ok (finding_removed stamp fid)"
  by (auto simp: keeps_ok_def finding_removed_def project_ok_def list_all_iff split: if_splits)

lemma new_project_ok: "new_project stamp pid inp = Inr p \<Longrightarrow> text_ok 80 stamp \<Longrightarrow> text_ok 240 pid \<Longrightarrow> project_ok p"
  by (auto simp: new_project_def project_ok_def js_result project_required_iff project_optional_iff member_or_in)

text \<open>One operation on the storage does what the specification does in memory.\<close>

definition simulates :: "project_error + project list \<Rightarrow> jstring \<Rightarrow> storage \<Rightarrow> project_error option \<times> storage \<Rightarrow> bool" where
  "simulates spec key st run \<longleftrightarrow> (case spec of
       Inl e \<Rightarrow> run = (Some e, st)
     | Inr ps \<Rightarrow> run = (None, write_projects key ps st) \<and> list_all project_ok ps)"

lemma change_project_simulates:
  assumes "keeps_ok f" "list_all project_ok (read_projects key st)"
  shows "simulates (in_list pid f (read_projects key st)) key st (outcome_of (change_project pid f key st))"
  using change_first_ok [OF assms]
  by (cases "change_first pid f (read_projects key st)") (auto simp: simulates_def in_list_def outcome_of_def change_project_def)

lemma linked_dot: "dot (with_linkedAt inp stamp) ''linkedAt'' = jor (dot inp ''linkedAt'') (JStr stamp)"
  using map_get_set [of "case inp of JObj _ kvs \<Rightarrow> kvs | _ \<Rightarrow> []" "lit ''linkedAt''"]
  by (simp add: with_linkedAt_def dot_def own_prop_def map_get_def)

lemma attach_simulates:
  assumes "list_all project_ok (read_projects key st)" "op_ok stamp (AttachResource pid inp)"
  shows "simulates (spec_op stamp (AttachResource pid inp) (read_projects key st)) key st (run_op stamp (AttachResource pid inp) key st)"
proof (cases "normalizeResource (with_linkedAt inp stamp) stamp")
  case (Inl e)
  then show ?thesis by (simp add: simulates_def attachResource_def outcome_of_def)
next
  case (Inr r)
  have "string_text (jor (dot (with_linkedAt inp stamp) ''linkedAt'') (JStr stamp)) \<noteq> []"
    using assms(2) by (auto simp: linked_dot jor_def split: if_splits)
  then have "resource_ok r" by (rule normalizeResource_ok [OF Inr])
  then show ?thesis
    using Inr change_project_simulates [OF keeps_attached assms(1)] assms(2) by (simp add: attachResource_def)
qed

lemma run_op_simulates:
  assumes ok: "list_all project_ok (read_projects key st)" and op: "op_ok stamp op"
  shows "simulates (spec_op stamp op (read_projects key st)) key st (run_op stamp op key st)"
proof (cases op)
  case (CreateProject pid inp)
  then show ?thesis using ok op new_project_ok [of stamp pid inp]
    by (cases "new_project stamp pid inp") (auto simp: simulates_def create_project_def outcome_of_def)
next
  case (AttachResource pid inp)
  then show ?thesis using attach_simulates ok op by simp
qed (use op ok in \<open>simp_all add: change_project_simulates update_project_def archive_def restore_def detachResource_def addFinding_def
      updateFinding_def removeFinding_def keeps_updated keeps_with_status keeps_detached keeps_added keeps_finding_updated
      keeps_finding_removed\<close>)

definition run_ops :: "(jstring \<times> repo_op) list \<Rightarrow> jstring \<Rightarrow> storage \<Rightarrow> storage" where
  "run_ops ops key st = fold (\<lambda>(stamp, op) st'. snd (run_op stamp op key st')) ops st"

definition spec_ops :: "(jstring \<times> repo_op) list \<Rightarrow> project list \<Rightarrow> project list" where
  "spec_ops ops ps = fold (\<lambda>(stamp, op) ps'. case spec_op stamp op ps' of Inl _ \<Rightarrow> ps' | Inr ps'' \<Rightarrow> ps'') ops ps"

lemma run_ops_refine:
  "list_all (\<lambda>(stamp, op). op_ok stamp op) ops \<Longrightarrow> list_all project_ok (read_projects key st) \<Longrightarrow>
   read_projects key (run_ops ops key st) = spec_ops ops (read_projects key st)
   \<and> list_all project_ok (spec_ops ops (read_projects key st))"
proof (induction ops arbitrary: st)
  case (Cons x ops)
  obtain stamp op where x: "x = (stamp, op)" by fastforce
  have sim: "simulates (spec_op stamp op (read_projects key st)) key st (run_op stamp op key st)"
    using Cons.prems x by (intro run_op_simulates) auto
  define st' where "st' = snd (run_op stamp op key st)"
  have st': "read_projects key st' = (case spec_op stamp op (read_projects key st) of Inl _ \<Rightarrow> read_projects key st | Inr ps \<Rightarrow> ps)"
    "list_all project_ok (read_projects key st')"
    using sim Cons.prems(2) read_write by (auto simp: simulates_def st'_def split: sum.splits)
  have "run_ops (x # ops) key st = run_ops ops key st'"
    "spec_ops (x # ops) (read_projects key st) = spec_ops ops (read_projects key st')"
    by (simp_all add: run_ops_def spec_ops_def x st'_def [symmetric] st'(1))
  then show ?case using Cons.IH [OF _ st'(2)] Cons.prems(1) by simp
qed (simp add: run_ops_def spec_ops_def)


lemma outcome_of_Inl: "outcome_of (Inl e, st) = (Some e, st)"
  by (simp add: outcome_of_def)

lemma change_project_other_keys: "k \<noteq> key \<Longrightarrow> snd (outcome_of (change_project pid f key st)) k = st k"
  by (auto simp: outcome_of_def change_project_def write_projects_def split: sum.splits prod.splits)

lemma run_op_other_keys:
  assumes "k \<noteq> key"
  shows "snd (run_op stamp op key st) k = st k"
proof (cases op)
  case (CreateProject pid inp)
  then show ?thesis using assms by (auto simp: create_project_def outcome_of_def write_projects_def split: sum.splits)
next
  case (AttachResource pid inp)
  then show ?thesis using assms
    by (cases "normalizeResource (with_linkedAt inp stamp) stamp")
      (simp_all add: attachResource_def change_project_other_keys outcome_of_Inl)
qed (use assms in \<open>simp_all add: change_project_other_keys update_project_def archive_def restore_def detachResource_def addFinding_def
      updateFinding_def removeFinding_def\<close>)

lemma colon_split:
  "58 \<notin> set a \<Longrightarrow> 58 \<notin> set b \<Longrightarrow> a @ (58::int) # x = b @ 58 # y \<Longrightarrow> a = b \<and> x = y"
proof (induction a arbitrary: b)
  case Nil
  then show ?case by (cases b) auto
next
  case (Cons c a)
  then show ?case by (cases b) auto
qed

text \<open>C30: Two scopes never share their projects. Scopes that differ in workspace or user have different storage keys
  (whatever colons, percent signs or characters outside ASCII the names contain), and no operation under the key of
  one scope changes what is stored for the other.\<close>

theorem scopes_separate:
  assumes a: "storageKeyForScope a = Inr key" "normalizedScope a = Inr (w, u)"
    and b: "storageKeyForScope b = Inr key'" "normalizedScope b = Inr (w', u')"
    and units: "code_units w" "code_units u" "code_units w'" "code_units u'"
    and differ: "(w, u) \<noteq> (w', u')"
  shows "key \<noteq> key' \<and> read_projects key' (snd (run_op stamp op key st)) = read_projects key' st"
proof -
  obtain ew eu ew' eu' where e: "encodeURIComponent w = Some ew" "encodeURIComponent u = Some eu"
    "encodeURIComponent w' = Some ew'" "encodeURIComponent u' = Some eu'"
    "key = STORAGE_PREFIX @ 58 # ew @ 58 # eu" "key' = STORAGE_PREFIX @ 58 # ew' @ 58 # eu'"
    using a b by (auto simp: storageKeyForScope_def split: option.splits)
  have "key \<noteq> key'"
  proof
    assume "key = key'"
    then have "ew @ 58 # eu = ew' @ 58 # eu'" using e(5,6) by simp
    then have "ew = ew'" "eu = eu'" using colon_split [OF encode_no_colon [OF e(1)] encode_no_colon [OF e(3)]] by blast+
    then have "w = w'" "u = u'"
      using encodeURIComponent_inject [OF units(1,3) e(1)] encodeURIComponent_inject [OF units(2,4) e(2)] e(3,4) by simp_all
    then show False using differ by simp
  qed
  moreover from this have "snd (run_op stamp op key st) key' = st key'" by (intro run_op_other_keys) auto
  ultimately show ?thesis by (simp add: read_projects_def)
qed

section \<open>Examples\<close>

definition demo_ops :: "(jstring \<times> repo_op) list" where
  "demo_ops = [(lit ''2026-01-01'', CreateProject (lit ''research_1'') (jobj [(''name'', jlit '' Tea '')])),
     (lit ''2026-01-02'', AddFinding (lit ''finding_1'') (lit ''research_1'') (jobj [(''title'', jlit ''T'')])),
     (lit ''2026-01-03'', AttachResource (lit ''research_1'') (jobj [(''id'', jlit ''r''), (''type'', jlit ''file''), (''title'', jlit ''R''), (''source'', jlit ''s'')])),
     (lit ''2026-01-04'', ArchiveProject (lit ''research_2''))]"


definition demo_scope_of :: "string \<Rightarrow> string \<Rightarrow> jsval" where
  "demo_scope_of w u = jobj [(''workspaceId'', jlit w), (''userId'', jlit u)]"

theorem scopes_separate_witness:
  "storageKeyForScope (demo_scope_of ''a:b'' ''c'') \<noteq> storageKeyForScope (demo_scope_of ''a'' ''b:c'')"
proof -
  have "storageKeyForScope (demo_scope_of ''a:b'' ''c'') = Inr (STORAGE_PREFIX @ lit '':a%3Ab:c'')"
    "normalizedScope (demo_scope_of ''a:b'' ''c'') = Inr (lit ''a:b'', lit ''c'')"
    "storageKeyForScope (demo_scope_of ''a'' ''b:c'') = Inr (STORAGE_PREFIX @ lit '':a:b%3Ac'')"
    "normalizedScope (demo_scope_of ''a'' ''b:c'') = Inr (lit ''a'', lit ''b:c'')"
    "code_units (lit ''a:b'')" "code_units (lit ''c'')" "code_units (lit ''a'')" "code_units (lit ''b:c'')"
    by code_simp+
  note scopes_separate [OF this]
  then show ?thesis by (simp add: \<open>storageKeyForScope (demo_scope_of ''a:b'' ''c'') = _\<close> \<open>storageKeyForScope (demo_scope_of ''a'' ''b:c'') = _\<close>)
qed

text \<open>A blank link time is stored as an empty text, which the next read replaces by the time of the last update.\<close>

lemma blank_link_time_changes:
  "(case attachResource (lit ''t2'') (lit ''p'') (jobj [(''id'', jlit ''r''), (''type'', jlit ''file''), (''title'', jlit ''R''), (''source'', jlit ''s''), (''linkedAt'', jlit '' '')])
        (lit ''k'') (snd (create_project (lit ''t1'') (lit ''p'') (jobj [(''name'', jlit ''N'')]) (lit ''k'') (\<lambda>_. None))) of
     (Inr p, st) \<Rightarrow> map rs_linkedAt (pj_resources p) = [[]]
        \<and> map (map rs_linkedAt \<circ> pj_resources) (read_projects (lit ''k'') st) = [[lit ''t2'']]
   | _ \<Rightarrow> False)"
  by code_simp

end
