(* ===== verification/Tool_Lifecycle.thy ===== *)
theory Tool_Lifecycle
  imports JS_Prelude "HOL-Library.Sublist"
begin

text \<open>
  How the workbench reads the calls of tools and their approval from the event log of a session
  (\<open>apps/workbench/src/toolLifecycle.js\<close>).

  Events are JavaScript values. \<open>get_time\<close> stands for \<open>new Date(v).getTime()\<close>, whose reading of texts depends on
  the engine, and \<open>parse\<close> for \<open>JSON.parse\<close> (\<open>None\<close> when it throws); nothing is assumed about either.
\<close>

section \<open>Values of events\<close>

definition event_is :: "jsval \<Rightarrow> string \<Rightarrow> bool" where
  "event_is e ty \<longleftrightarrow> dot e ''type'' = jlit ty"

definition event_data :: "jsval \<Rightarrow> jsval" where
  "event_data e = dot (dot e ''payload'') ''data''"

definition toolCallID :: "jsval \<Rightarrow> jstring" where
  "toolCallID e = (if \<not> is_object (event_data e) then []
     else trimmed_text (jor (dot (event_data e) ''id'') (dot (event_data e) ''call_id'')))"

definition event_seq :: "jsval \<Rightarrow> jsnum" where
  "event_seq e = to_num (jor (dot e ''seq'') (jint 0))"

text \<open>\<open>{ ...v, name: value, ... }\<close>.\<close>

definition spread :: "jsval \<Rightarrow> (string \<times> jsval) list \<Rightarrow> jsval" where
  "spread v kvs = JObj ObjectProto
     (foldl (\<lambda>m (k, x). map_set m (lit k) x) (case v of JObj _ m \<Rightarrow> m | _ \<Rightarrow> []) kvs)"

definition failed_words :: "jstring list" where
  "failed_words = map lit [''failed'', ''error'', ''rejected'', ''canceled'', ''cancelled'']"

definition toolResultSucceeded :: "jsval \<Rightarrow> jsval \<Rightarrow> bool" where
  "toolResultSucceeded status result \<longleftrightarrow> to_lower (trimmed_text status) \<notin> set failed_words
     \<and> obj_keys (object_value (dot result ''error'')) = []"

definition toolResultContent :: "jsval \<Rightarrow> jstring" where
  "toolResultContent content = (case content of
       JStr s \<Rightarrow> s
     | _ \<Rightarrow> join [10] (filter (\<lambda>s. s \<noteq> []) (map (\<lambda>item. case item of
           JStr s \<Rightarrow> s
         | _ \<Rightarrow> text_of (jor (dot item ''text'') (dot item ''content''))) (array_items content))))"

definition durationMillis :: "(jsval \<Rightarrow> jsnum) \<Rightarrow> jsval \<Rightarrow> jsval \<Rightarrow> jsval" where
  "durationMillis get_time startedAt completedAt =
     (case (get_time (jor startedAt (JStr [])), get_time (jor completedAt (JStr []))) of
        (Fin a, Fin b) \<Rightarrow> if a < b then JNum (Fin (b - a)) else jint 0
      | _ \<Rightarrow> jint 0)"

section \<open>The normalized timeline\<close>

definition num_plus :: "jsnum \<Rightarrow> rat \<Rightarrow> jsnum" where
  "num_plus n x = (case n of Fin a \<Rightarrow> Fin (a + x) | _ \<Rightarrow> n)"

definition runtimeToolEvent :: "jsval \<Rightarrow> string \<Rightarrow> jstring \<Rightarrow> (string \<times> jsval) list \<Rightarrow> nat \<Rightarrow> nat \<Rightarrow> jsval" where
  "runtimeToolEvent source ty callID data i ncalls =
     spread source [(''type'', jlit ty),
       (''seq'', JNum (num_plus (event_seq source) (of_nat (Suc i) / of_nat (Suc (max ncalls 1))))),
       (''payload'', spread (object_value (dot source ''payload''))
          [(''data'', jobj ([(''id'', JStr callID), (''call_id'', JStr callID)] @ data))])]"

record timeline =
  tl_nativeCalls :: "jstring list"
  tl_nativeResults :: "jstring list"
  tl_planned :: "(jstring, jsval) jmap"

definition planned_calls :: "jsval \<Rightarrow> jsval list" where
  "planned_calls e = (if event_is e ''tool.batch_planned'' then array_items (dot (event_data e) ''calls'') else [])"

definition item_call :: "jsval \<Rightarrow> jsval" where
  "item_call item = object_value (dot item ''call'')"

definition item_id :: "jsval \<Rightarrow> jstring" where
  "item_id item = trimmed_text (dot (item_call item) ''id'')"

definition native_ids :: "string \<Rightarrow> jsval list \<Rightarrow> jstring list" where
  "native_ids ty source = filter (\<lambda>s. s \<noteq> []) (map toolCallID (filter (\<lambda>e. event_is e ty) source))"

definition timeline_of :: "jsval list \<Rightarrow> timeline" where
  "timeline_of source =
     \<lparr>tl_nativeCalls = native_ids ''runtime.tool_call'' source,
      tl_nativeResults = native_ids ''runtime.tool_result'' source,
      tl_planned = foldl (\<lambda>m item. if item_id item = [] then m else map_set m (item_id item) (item_call item)) []
                     (concat (map planned_calls source))\<rparr>"

definition planned_event :: "jsval \<Rightarrow> jsval \<Rightarrow> nat \<Rightarrow> nat \<Rightarrow> jsval" where
  "planned_event e item i ncalls =
     runtimeToolEvent e ''runtime.tool_call'' (item_id item)
       [(''identifier'', dot (item_call item) ''name''), (''arguments'', object_value (dot (item_call item) ''arguments'')),
        (''approval_state'', dot item ''approval_state''), (''approval_source'', dot item ''approval_source''),
        (''disposition'', dot item ''disposition''), (''execution_mode'', dot item ''execution_mode''),
        (''permission'', object_value (dot item ''permission'')), (''side_effect'', dot item ''side_effect'')] i ncalls"

definition result_id :: "jsval \<Rightarrow> jstring" where
  "result_id data = trimmed_text (jor (dot data ''call_id'') (dot (object_value (dot data ''result'')) ''call_id''))"

text \<open>The events that are added after an event of the source.\<close>

definition added_events :: "(jsval \<Rightarrow> jsnum) \<Rightarrow> timeline \<Rightarrow> jsval \<Rightarrow> jsval list" where
  "added_events get_time tm e =
     (let data = object_value (event_data e) in
      if event_is e ''tool.batch_planned''
      then (let calls = planned_calls e in
        map (\<lambda>(i, item). planned_event e item i (length calls))
          (filter (\<lambda>(i, item). item_id item \<noteq> [] \<and> item_id item \<notin> set (tl_nativeCalls tm)) (enumerate 0 calls)))
      else if event_is e ''tool.call_started''
      then (let callID = trimmed_text (dot data ''call_id'') in
        if callID = [] \<or> callID \<in> set (tl_nativeCalls tm) \<or> map_has (tl_planned tm) callID then []
        else [runtimeToolEvent e ''runtime.tool_call'' callID
               [(''identifier'', dot data ''name''), (''arguments'', JObj ObjectProto []), (''attempt'', dot data ''attempt'')] 0 1])
      else if event_is e ''tool.call_result''
      then (let result = object_value (dot data ''result''); callID = result_id data;
                planned = (case map_get (tl_planned tm) callID of Some c \<Rightarrow> c | None \<Rightarrow> JObj ObjectProto []) in
        if callID = [] \<or> callID \<in> set (tl_nativeResults tm) then []
        else [runtimeToolEvent e ''runtime.tool_result'' callID
               [(''identifier'', jor (jor (dot data ''name'') (dot result ''name'')) (dot planned ''name'')),
                (''arguments'', object_value (dot planned ''arguments'')),
                (''success'', JBool (toolResultSucceeded (dot data ''status'') result)),
                (''content'', JStr (toolResultContent (dot result ''content''))),
                (''state'', object_value (dot result ''state'')),
                (''artifacts'', JArr (array_items (dot result ''artifacts''))),
                (''error'', object_value (dot result ''error'')),
                (''duration_ms'', durationMillis get_time (dot data ''started_at'') (dot data ''completed_at''))] 0 1])
      else [])"

definition normalizeToolTimelineEvents :: "(jsval \<Rightarrow> jsnum) \<Rightarrow> jsval \<Rightarrow> jsval list" where
  "normalizeToolTimelineEvents get_time events =
     (let source = array_items events; tm = timeline_of source in
      concat (map (\<lambda>e. e # added_events get_time tm e) source))"

section \<open>Lifecycles\<close>

record lifecycle =
  lc_call :: "jsval option"
  lc_started :: "jsval option"
  lc_required :: "jsval option"
  lc_approved :: "jsval option"
  lc_rejected :: "jsval option"
  lc_decision :: "jsval option"
  lc_result :: "jsval option"

definition empty_lifecycle :: lifecycle where
  "empty_lifecycle = \<lparr>lc_call = None, lc_started = None, lc_required = None, lc_approved = None, lc_rejected = None,
     lc_decision = None, lc_result = None\<rparr>"

text \<open>\<open>latestEvent(left, right)\<close> for an event on the right.\<close>

definition latestEvent :: "jsval option \<Rightarrow> jsval \<Rightarrow> jsval option" where
  "latestEvent left right = (case left of
       None \<Rightarrow> Some right
     | Some l \<Rightarrow> if num_less (event_seq l) (event_seq right) then Some right else Some l)"

definition type_in :: "jsval \<Rightarrow> string list \<Rightarrow> bool" where
  "type_in e tys \<longleftrightarrow> list_ex (event_is e) tys"

definition call_types :: "string list" where "call_types = [''runtime.tool_call'']"

definition started_types :: "string list" where "started_types = [''tool.call_started'']"

definition required_types :: "string list" where
  "required_types = [''runtime.tool_intervention_required'', ''runtime.human_input_required'']"

definition approved_types :: "string list" where
  "approved_types = [''runtime.tool_intervention_approved'', ''runtime.human_input_submitted'']"

definition rejected_types :: "string list" where
  "rejected_types = [''runtime.tool_intervention_rejected'', ''runtime.human_input_skipped'', ''runtime.human_input_canceled'']"

definition result_types :: "string list" where "result_types = [''runtime.tool_result'']"

text \<open>The \<open>switch\<close> on the type of an event; \<open>None\<close> is its default branch.\<close>

definition lifecycle_step :: "jsval \<Rightarrow> lifecycle \<Rightarrow> lifecycle option" where
  "lifecycle_step e lc =
     (if type_in e call_types then Some (lc\<lparr>lc_call := latestEvent (lc_call lc) e\<rparr>)
      else if type_in e started_types then Some (lc\<lparr>lc_started := latestEvent (lc_started lc) e\<rparr>)
      else if type_in e required_types then Some (lc\<lparr>lc_required := latestEvent (lc_required lc) e\<rparr>)
      else if type_in e approved_types
      then Some (lc\<lparr>lc_approved := latestEvent (lc_approved lc) e, lc_decision := latestEvent (lc_decision lc) e\<rparr>)
      else if type_in e rejected_types
      then Some (lc\<lparr>lc_rejected := latestEvent (lc_rejected lc) e, lc_decision := latestEvent (lc_decision lc) e\<rparr>)
      else if type_in e result_types then Some (lc\<lparr>lc_result := latestEvent (lc_result lc) e\<rparr>)
      else None)"

definition add_event :: "(jstring, lifecycle) jmap \<Rightarrow> jsval \<Rightarrow> (jstring, lifecycle) jmap" where
  "add_event m e =
     (let callID = toolCallID e in
      if callID = [] then m
      else case lifecycle_step e (case map_get m callID of Some lc \<Rightarrow> lc | None \<Rightarrow> empty_lifecycle) of
          None \<Rightarrow> m
        | Some lc \<Rightarrow> map_set m callID lc)"

definition buildToolCallLifecycles :: "jsval list \<Rightarrow> (jstring, lifecycle) jmap" where
  "buildToolCallLifecycles events = foldl add_event [] events"

text \<open>\<open>latestEvent(decision, result) || null\<close>: a missing event counts with the sequence number 0.\<close>

definition terminalToolLifecycleEvent :: "lifecycle \<Rightarrow> jsval option" where
  "terminalToolLifecycleEvent lc = (case lc_decision lc of
       None \<Rightarrow> lc_result lc
     | Some d \<Rightarrow> (case lc_result lc of
           Some r \<Rightarrow> latestEvent (Some d) r
         | None \<Rightarrow> if num_less (event_seq d) (Fin 0) then None else Some d))"

definition toolLifecycleIsRunning :: "lifecycle option \<Rightarrow> bool \<Rightarrow> bool" where
  "toolLifecycleIsRunning lc executionActive = (case lc of
       None \<Rightarrow> False
     | Some l \<Rightarrow> executionActive \<and> lc_started l \<noteq> None \<and> lc_result l = None
         \<and> (case lc_decision l of Some d \<Rightarrow> \<not> event_is d ''runtime.tool_intervention_rejected'' | None \<Rightarrow> True))"

definition shouldSynthesizeThinking :: "jsval \<Rightarrow> bool" where
  "shouldSynthesizeThinking internalEvents =
     (let events = array_items internalEvents in
      events \<noteq> [] \<and> \<not> list_all (\<lambda>e. starts_with (text_of (dot e ''type'')) (lit ''tool.'')) events)"

text \<open>\<open>current\<close> is the progress that is shown, with the id of its call.\<close>

definition liveToolProgressAfterEvent :: "jsval option \<Rightarrow> jsval \<Rightarrow> jsval option" where
  "liveToolProgressAfterEvent current e = (case current of
       None \<Rightarrow> None
     | Some c \<Rightarrow>
         if event_is e ''runtime.failed'' \<or> event_is e ''runtime.completed'' then None
         else if \<not> event_is e ''tool.call_result'' then Some c
         else if toolCallID e = [] \<or> JStr (toolCallID e) = dot c ''callID'' then None else Some c)"

section \<open>Presentation\<close>

definition approvalSourceLabel :: "jsval \<Rightarrow> jstring" where
  "approvalSourceLabel v =
     (let source = to_lower (trimmed_text v) in
      if source = lit ''user'' then [29992, 25143]
      else if source = lit ''human'' then [20154, 24037]
      else if source = lit ''policy'' then [31574, 30053]
      else if source = lit ''system'' then [31995, 32479]
      else source)"

definition approvalReason :: "jsval \<Rightarrow> jstring" where
  "approvalReason v =
     (let reason = trimmed_text v in
      if to_lower reason \<in> set [lit ''approved from app'', lit ''approved from inspector''] then [] else reason)"

record approval =
  ap_status :: string
  ap_label :: jstring
  ap_kind :: string
  ap_source :: jstring
  ap_reason :: jstring
  ap_risk :: jsval
  ap_policy_mode :: jsval
  ap_approval_policy :: jsval

definition data_of :: "jsval option \<Rightarrow> jsval" where
  "data_of e = (case e of Some x \<Rightarrow> object_value (event_data x) | None \<Rightarrow> JObj ObjectProto [])"

definition sourced :: "jstring \<Rightarrow> jstring \<Rightarrow> jstring" where
  "sourced label source = (if source = [] then label else label @ [65288] @ source @ [65289])"

definition approval_verdict :: "jsval \<Rightarrow> lifecycle option \<Rightarrow> jstring \<Rightarrow> string \<times> jstring \<times> string" where
  "approval_verdict data lc source =
     (let decision = Option.bind lc lc_decision; state = to_lower (trimmed_text (dot data ''approval_state''));
          rejected = (''rejected'', sourced [24050, 25298, 32477] source, ''error'');
          approved = (''approved'', sourced [24050, 25209, 20934] source, ''approved'');
          decided = (\<lambda>ty. case decision of Some d \<Rightarrow> event_is d ty | None \<Rightarrow> False) in
      if decided ''runtime.tool_intervention_rejected'' then rejected
      else if decided ''runtime.tool_intervention_approved'' then approved
      else if Option.bind lc lc_required \<noteq> None \<or> state = lit ''pending'' \<or> dot data ''pending_intervention'' = JBool True
      then (''pending'', (if source = [] then [24453, 23457, 25209] else [24453] @ source @ [23457, 25209]), ''pending'')
      else if state \<in> set (map lit [''approved'', ''approve'']) then approved
      else if state \<in> set (map lit [''rejected'', ''reject'', ''denied'']) then rejected
      else if state \<in> set (map lit [''not_required'', ''not-required'', ''none'']) \<or> dot (object_value (dot data ''permission'')) ''required'' = JBool False
      then (''not_required'', [26080, 38656, 23457, 25209], ''none'')
      else (''not_triggered'', [26410, 35302, 21457, 23457, 25209], ''none''))"

definition toolApprovalPresentation :: "jsval \<Rightarrow> lifecycle option \<Rightarrow> approval" where
  "toolApprovalPresentation e lc =
     (let data = object_value (event_data e);
          decisionData = data_of (Option.bind lc lc_decision);
          requiredData = data_of (Option.bind lc lc_required);
          permission = object_value (dot data ''permission'');
          source = approvalSourceLabel (jor (dot decisionData ''approval_source'') (dot data ''approval_source''));
          reason = approvalReason (jor (jor (dot decisionData ''decision_reason'') (dot requiredData ''reason'')) (dot permission ''reason'')) in
      case approval_verdict data lc source of (status, label, kind) \<Rightarrow>
        \<lparr>ap_status = status, ap_label = label, ap_kind = kind, ap_source = source, ap_reason = reason,
         ap_risk = jor (dot permission ''risk'') JUndef, ap_policy_mode = jor (dot permission ''mode'') JUndef,
         ap_approval_policy = jor (dot permission ''approval_policy'') JUndef\<rparr>)"

definition parseToolResultContent :: "(jstring \<Rightarrow> jsval option) \<Rightarrow> jsval \<Rightarrow> jsval" where
  "parseToolResultContent parse content = (case content of
       JStr s \<Rightarrow> if starts_with (trim s) (lit ''{'')
                then (case parse s of Some v \<Rightarrow> object_value v | None \<Rightarrow> JObj ObjectProto []) else JObj ObjectProto []
     | _ \<Rightarrow> JObj ObjectProto [])"

fun firstText :: "jsval list \<Rightarrow> jstring" where
  "firstText [] = []"
| "firstText (v # vs) = (if string_text v \<noteq> [] then string_text v else firstText vs)"

record tool_failure =
  tf_message :: jstring
  tf_type :: jstring
  tf_retryable :: "bool option"

definition tool_failed :: "jsval \<Rightarrow> bool" where
  "tool_failed data \<longleftrightarrow> dot data ''success'' = JBool False \<or> obj_keys (object_value (dot data ''error'')) \<noteq> []
     \<or> to_lower (trimmed_text (dot data ''status'')) \<in> set failed_words"

definition toolResultFailurePresentation :: "(jstring \<Rightarrow> jsval option) \<Rightarrow> jsval \<Rightarrow> tool_failure option" where
  "toolResultFailurePresentation parse e =
     (let data = object_value (event_data e); error = object_value (dot data ''error'');
          contentResult = parseToolResultContent parse (dot data ''content'');
          contentError = object_value (dot contentResult ''error'') in
      if \<not> tool_failed data then None
      else Some \<lparr>
        tf_message = firstText [dot error ''message'', dot contentError ''message'',
          (if is_string (dot data ''error'') then dot data ''error'' else JStr []), dot data ''message'', dot contentResult ''message'',
          dot data ''content'', dot (dot e ''payload'') ''message'', JStr [24037, 20855, 25191, 34892, 22833, 36133, 12290]],
        tf_type = firstText [dot error ''type'', dot error ''code'', dot contentError ''type'', dot contentError ''code'',
          dot data ''error_type'', dot data ''reason''],
        tf_retryable = (case dot data ''retryable'' of JBool b \<Rightarrow> Some b | _ \<Rightarrow> None)\<rparr>)"

section \<open>The newest event of a kind\<close>

definition newest :: "jsval list \<Rightarrow> jsval option" where
  "newest es = foldl latestEvent None es"

definition events_of :: "jstring \<Rightarrow> string list \<Rightarrow> jsval list \<Rightarrow> jsval list" where
  "events_of c tys es = filter (\<lambda>e. toolCallID e = c \<and> type_in e tys) es"

lemma newest_snoc: "newest (es @ [e]) = latestEvent (newest es) e"
  by (simp add: newest_def)

lemma events_of_snoc: "events_of c tys (es @ [e]) = events_of c tys es @ (if toolCallID e = c \<and> type_in e tys then [e] else [])"
  by (simp add: events_of_def)

lemma newest_in: "newest es = Some e \<Longrightarrow> e \<in> set es"
proof (induction es arbitrary: e rule: rev_induct)
  case (snoc x es)
  then show ?case by (auto simp: newest_snoc latestEvent_def split: option.splits if_splits)
qed (simp add: newest_def)

lemma newest_None: "newest es = None \<longleftrightarrow> es = []"
proof (induction es rule: rev_induct)
  case (snoc x es)
  then show ?case by (simp add: newest_snoc latestEvent_def split: option.splits)
qed (simp add: newest_def)

lemma newest_max:
  assumes "\<And>e. e \<in> set es \<Longrightarrow> is_finite (event_seq e)" "newest es = Some e" "x \<in> set es"
  shows "num_val (event_seq x) \<le> num_val (event_seq e)"
  using assms
proof (induction es arbitrary: e x rule: rev_induct)
  case (snoc y es)
  have fin: "\<exists>a. event_seq z = Fin a" if "z \<in> set (es @ [y])" for z
    using snoc.prems(1) [OF that] by (auto simp: is_finite_def split: jsnum.splits)
  show ?case
  proof (cases "newest es")
    case None
    then have "es = []" by (simp add: newest_None)
    then show ?thesis using snoc.prems by (simp add: newest_def latestEvent_def)
  next
    case (Some l)
    obtain a b where ab: "event_seq l = Fin a" "event_seq y = Fin b" using fin newest_in [OF Some] by fastforce
    have "num_val (event_seq z) \<le> a" if "z \<in> set es" for z
      using snoc.IH [of l] snoc.prems(1) Some that ab by (auto simp: num_val_def)
    then show ?thesis using snoc.prems(2,3) Some ab
      by (fastforce simp: newest_snoc latestEvent_def num_val_def split: if_splits)
  qed
qed (simp add: newest_def)

text \<open>The kinds of events are disjoint.\<close>

lemma type_disjoint:
  "type_in e call_types \<Longrightarrow> \<not> type_in e started_types \<and> \<not> type_in e required_types \<and> \<not> type_in e approved_types \<and> \<not> type_in e rejected_types \<and> \<not> type_in e result_types"
  "type_in e started_types \<Longrightarrow> \<not> type_in e required_types \<and> \<not> type_in e approved_types \<and> \<not> type_in e rejected_types \<and> \<not> type_in e result_types"
  "type_in e required_types \<Longrightarrow> \<not> type_in e approved_types \<and> \<not> type_in e rejected_types \<and> \<not> type_in e result_types"
  "type_in e approved_types \<Longrightarrow> \<not> type_in e rejected_types \<and> \<not> type_in e result_types"
  "type_in e rejected_types \<Longrightarrow> \<not> type_in e result_types"
  by (auto simp: type_in_def event_is_def call_types_def started_types_def required_types_def approved_types_def rejected_types_def result_types_def)

lemma type_in_append: "type_in e (a @ b) \<longleftrightarrow> type_in e a \<or> type_in e b"
  by (simp add: type_in_def)

definition all_types :: "string list" where
  "all_types = call_types @ started_types @ required_types @ approved_types @ rejected_types @ result_types"

text \<open>The reference: each part of a lifecycle is the newest event of its kinds, whatever came in between.\<close>

definition lifecycle_of :: "jstring \<Rightarrow> jsval list \<Rightarrow> lifecycle" where
  "lifecycle_of c es =
     \<lparr>lc_call = newest (events_of c call_types es), lc_started = newest (events_of c started_types es),
      lc_required = newest (events_of c required_types es), lc_approved = newest (events_of c approved_types es),
      lc_rejected = newest (events_of c rejected_types es),
      lc_decision = newest (events_of c (approved_types @ rejected_types) es),
      lc_result = newest (events_of c result_types es)\<rparr>"

lemma lifecycle_of_Nil: "lifecycle_of c [] = empty_lifecycle"
  by (simp add: lifecycle_of_def empty_lifecycle_def events_of_def newest_def)

lemma lifecycle_of_other: "toolCallID e \<noteq> c \<Longrightarrow> lifecycle_of c (es @ [e]) = lifecycle_of c es"
  by (simp add: lifecycle_of_def events_of_snoc)

lemma lifecycle_of_untyped: "\<not> type_in e all_types \<Longrightarrow> lifecycle_of c (es @ [e]) = lifecycle_of c es"
  by (simp add: lifecycle_of_def events_of_snoc all_types_def type_in_append)

lemma lifecycle_step_of:
  "toolCallID e = c \<Longrightarrow> lifecycle_step e (lifecycle_of c es) = (if type_in e all_types then Some (lifecycle_of c (es @ [e])) else None)"
  using type_disjoint [of e]
  by (auto simp: lifecycle_step_def lifecycle_of_def events_of_snoc newest_snoc all_types_def type_in_append)

lemma lifecycle_of_none: "events_of c all_types es = [] \<Longrightarrow> empty_lifecycle = lifecycle_of c es"
proof (induction es rule: rev_induct)
  case (snoc e es)
  then have "\<not> (toolCallID e = c \<and> type_in e all_types)" "events_of c all_types es = []"
    by (auto simp: events_of_snoc split: if_splits)
  then show ?case using snoc.IH lifecycle_of_other [of e c es] lifecycle_of_untyped [of e c es] by auto
qed (simp add: lifecycle_of_Nil)

lemma lifecycles_get:
  "c \<noteq> [] \<Longrightarrow> map_get (buildToolCallLifecycles es) c
     = (if events_of c all_types es = [] then None else Some (lifecycle_of c es))"
proof (induction es rule: rev_induct)
  case Nil
  then show ?case by (simp add: buildToolCallLifecycles_def events_of_def)
next
  case (snoc e es)
  let ?m = "buildToolCallLifecycles es"
  have b: "buildToolCallLifecycles (es @ [e]) = add_event ?m e" by (simp add: buildToolCallLifecycles_def)
  show ?case
  proof (cases "toolCallID e = c")
    case False
    then have "map_get (add_event ?m e) c = map_get ?m c"
      by (auto simp: add_event_def Let_def js_map split: option.splits)
    then show ?thesis using snoc False by (simp add: b events_of_snoc lifecycle_of_other)
  next
    case True
    have "(case map_get ?m c of Some lc \<Rightarrow> lc | None \<Rightarrow> empty_lifecycle) = lifecycle_of c es"
      using snoc by (simp add: lifecycle_of_none)
    then have "map_get (add_event ?m e) c = (if type_in e all_types then Some (lifecycle_of c (es @ [e])) else map_get ?m c)"
      using lifecycle_step_of [OF True, of es] snoc.prems True by (simp add: add_event_def Let_def js_map)
    then show ?thesis using snoc True by (auto simp: b events_of_snoc lifecycle_of_untyped)
  qed
qed

text \<open>The lifecycle of a tool call does not depend on how the events of different calls and kinds are interleaved:
  each of its parts is the newest event of that kind for that call, and there is a lifecycle exactly if there is such
  an event. If the sequence numbers are finite, the newest event has the largest one.\<close>

theorem lifecycles_newest:
  assumes "c \<noteq> []"
  shows "map_get (buildToolCallLifecycles es) c = (if events_of c all_types es = [] then None else Some (lifecycle_of c es))
     \<and> (\<forall>tys e. newest (events_of c tys es) = Some e \<longrightarrow> e \<in> set (events_of c tys es)
          \<and> ((\<forall>x \<in> set (events_of c tys es). is_finite (event_seq x))
             \<longrightarrow> (\<forall>x \<in> set (events_of c tys es). num_val (event_seq x) \<le> num_val (event_seq e))))"
  using lifecycles_get [OF assms, of es] newest_in newest_max by blast

section \<open>The normalized timeline is stable\<close>

lemma dot_spread: "dot (spread v kvs) k = (case map_of (rev kvs) k of Some x \<Rightarrow> x | None \<Rightarrow> dot v k)"
proof -
  define m where "m = (case v of JObj _ m \<Rightarrow> m | _ \<Rightarrow> [])"
  have "map_get (foldl (\<lambda>m (k, x). map_set m (lit k) x) m kvs) (lit k)
      = (case map_of (rev kvs) k of Some x \<Rightarrow> Some x | None \<Rightarrow> map_get m (lit k))"
    by (induction kvs rule: rev_induct) (auto simp: js_map split: option.splits)
  moreover have "dot v k = (case map_get m (lit k) of Some x \<Rightarrow> x | None \<Rightarrow> JUndef)"
    by (cases v) (simp_all add: dot_def own_prop_def m_def map_get_def)
  ultimately show ?thesis
    by (auto simp: spread_def dot_def own_prop_def map_get_def m_def split: option.splits)
qed

lemma is_object_spread [simp]: "is_object (spread v kvs)"
  by (simp add: spread_def)

lemma runtimeToolEvent_type: "event_is (runtimeToolEvent e ty c d i n) ty' \<longleftrightarrow> ty' = ty"
  by (auto simp: event_is_def runtimeToolEvent_def dot_spread)

lemma runtimeToolEvent_id:
  assumes "c \<noteq> []" "trim c = c"
  shows "toolCallID (runtimeToolEvent e ty c d i n) = c"
proof -
  have "event_data (runtimeToolEvent e ty c d i n) = jobj ([(''id'', JStr c), (''call_id'', JStr c)] @ d)"
    by (simp add: event_data_def runtimeToolEvent_def dot_spread)
  then show ?thesis using assms by (simp add: toolCallID_def dot_jobj jor_def trimmed_text_def)
qed

text \<open>The added events sort between their source and the next whole number.\<close>

lemma runtimeToolEvent_seq:
  assumes "event_seq e = Fin a" "i < n"
  shows "event_seq (runtimeToolEvent e ty c d i n) = Fin (a + of_nat (Suc i) / of_nat (Suc n))"
    "a < a + of_nat (Suc i) / of_nat (Suc n)" "a + of_nat (Suc i) / of_nat (Suc n) < a + (1::rat)"
proof -
  have "max n 1 = n" using assms(2) by simp
  then have "dot (runtimeToolEvent e ty c d i n) ''seq'' = JNum (Fin (a + of_nat (Suc i) / of_nat (Suc n)))"
    using assms(1) by (simp add: runtimeToolEvent_def dot_spread num_plus_def)
  then show "event_seq (runtimeToolEvent e ty c d i n) = Fin (a + of_nat (Suc i) / of_nat (Suc n))"
    by (auto simp: event_seq_def [of "runtimeToolEvent e ty c d i n"] jor_def)
  show "a < a + of_nat (Suc i) / of_nat (Suc n)" by (simp add: zero_less_divide_iff)
  have "(of_nat (Suc i) :: rat) < of_nat (Suc n)" using assms(2) by (simp only: of_nat_less_iff)
  then show "a + of_nat (Suc i) / of_nat (Suc n) < a + (1::rat)" by simp
qed

text \<open>An event that was added by an earlier pass adds nothing itself.\<close>

lemma added_again:
  "ty = ''runtime.tool_call'' \<or> ty = ''runtime.tool_result'' \<Longrightarrow> added_events g tm (runtimeToolEvent e ty c d i n) = []"
  by (auto simp: added_events_def runtimeToolEvent_type Let_def)

lemma added_adds_nothing: "x \<in> set (added_events g tm e) \<Longrightarrow> added_events g tm' x = []"
  by (auto simp: added_events_def [of g tm e] Let_def planned_event_def added_again split: if_split_asm)

definition normalized :: "(jsval \<Rightarrow> jsnum) \<Rightarrow> jsval list \<Rightarrow> jsval list" where
  "normalized g source = concat (map (\<lambda>e. e # added_events g (timeline_of source) e) source)"

lemma normalize_JArr: "normalizeToolTimelineEvents g (JArr source) = normalized g source"
  by (simp add: normalizeToolTimelineEvents_def normalized_def array_items_def Let_def)

lemma native_ids_iff: "c \<in> set (native_ids ty es) \<longleftrightarrow> c \<noteq> [] \<and> (\<exists>x \<in> set es. event_is x ty \<and> toolCallID x = c)"
  by (auto simp: native_ids_def)

lemma native_kept: "c \<in> set (native_ids ty source) \<Longrightarrow> c \<in> set (native_ids ty (normalized g source))"
  by (auto simp: native_ids_iff normalized_def)

lemma native_added:
  assumes "e \<in> set source" "runtimeToolEvent e ty c d i n \<in> set (added_events g (timeline_of source) e)" "c \<noteq> []" "trim c = c"
  shows "c \<in> set (native_ids ty (normalized g source))"
proof -
  have "runtimeToolEvent e ty c d i n \<in> set (normalized g source)" using assms(1,2) by (auto simp: normalized_def)
  then show ?thesis using runtimeToolEvent_id [OF assms(3,4), of e ty d i n] assms(3)
    unfolding native_ids_iff by (intro conjI bexI [of _ "runtimeToolEvent e ty c d i n"]) (simp_all add: runtimeToolEvent_type)
qed

lemma planned_native:
  assumes "e \<in> set source" "item \<in> set (planned_calls e)" "item_id item \<noteq> []"
  shows "item_id item \<in> set (native_ids ''runtime.tool_call'' (normalized g source))"
proof (cases "item_id item \<in> set (native_ids ''runtime.tool_call'' source)")
  case False
  obtain i where "i < length (planned_calls e)" "item = planned_calls e ! i"
    using assms(2) by (auto simp: in_set_conv_nth)
  then have i: "(i, item) \<in> set (enumerate 0 (planned_calls e))" by (simp add: in_set_enumerate_eq)
  have "event_is e ''tool.batch_planned''" using assms(2) by (auto simp: planned_calls_def split: if_splits)
  then have "planned_event e item i (length (planned_calls e)) \<in> set (added_events g (timeline_of source) e)"
    using i assms(3) False by (force simp: added_events_def timeline_of_def Let_def)
  then show ?thesis
    using native_added [OF assms(1), of "''runtime.tool_call''" "item_id item"] assms(3) by (simp add: planned_event_def item_id_def)
qed (rule native_kept)

lemma planned_keys:
  assumes "map_has (tl_planned (timeline_of source)) c"
  shows "\<exists>e \<in> set source. \<exists>item \<in> set (planned_calls e). item_id item = c \<and> c \<noteq> []"
proof -
  have "map_has (foldl (\<lambda>m item. if item_id item = [] then m else map_set m (item_id item) (item_call item)) [] xs) c
      \<Longrightarrow> \<exists>item \<in> set xs. item_id item = c \<and> c \<noteq> []" for xs
    by (induction xs rule: rev_induct) (auto simp: js_map split: if_splits)
  from this [of "concat (map planned_calls source)"] assms show ?thesis by (auto simp: timeline_of_def)
qed

lemma event_is_unique: "event_is e a \<Longrightarrow> event_is e b \<longleftrightarrow> b = a"
  by (auto simp: event_is_def)

lemma added_started:
  assumes "event_is e ''tool.call_started''"
  defines "callID \<equiv> trimmed_text (dot (object_value (event_data e)) ''call_id'')"
  shows "\<exists>d. added_events g tm e = (if callID = [] \<or> callID \<in> set (tl_nativeCalls tm) \<or> map_has (tl_planned tm) callID then []
           else [runtimeToolEvent e ''runtime.tool_call'' callID d 0 1])"
  unfolding added_events_def Let_def callID_def using event_is_unique [OF assms(1)] assms(1) by simp blast

lemma added_result:
  assumes "event_is e ''tool.call_result''"
  defines "callID \<equiv> result_id (object_value (event_data e))"
  shows "\<exists>d. added_events g tm e = (if callID = [] \<or> callID \<in> set (tl_nativeResults tm) then []
           else [runtimeToolEvent e ''runtime.tool_result'' callID d 0 1])"
  unfolding added_events_def Let_def callID_def using event_is_unique [OF assms(1)] assms(1) by simp blast

lemma timeline_of_fields [simp]:
  "tl_nativeCalls (timeline_of es) = native_ids ''runtime.tool_call'' es"
  "tl_nativeResults (timeline_of es) = native_ids ''runtime.tool_result'' es"
  by (simp_all add: timeline_of_def)

lemma source_adds_nothing:
  assumes e: "e \<in> set source"
  shows "added_events g (timeline_of (normalized g source)) e = []"
proof -
  define N where "N = normalized g source"
  let ?data = "object_value (event_data e)"
  let ?c = "trimmed_text (dot ?data ''call_id'')" and ?r = "result_id ?data"
  consider (planned) "event_is e ''tool.batch_planned''" | (started) "event_is e ''tool.call_started''"
    | (result) "event_is e ''tool.call_result''"
    | (other) "\<not> event_is e ''tool.batch_planned''" "\<not> event_is e ''tool.call_started''" "\<not> event_is e ''tool.call_result''"
    by blast
  then have "added_events g (timeline_of N) e = []"
  proof cases
    case planned
    have "item_id item \<in> set (native_ids ''runtime.tool_call'' N)"
      if "(i, item) \<in> set (enumerate 0 (planned_calls e))" "item_id item \<noteq> []" for i item
      using planned_native [OF e _ that(2)] that(1) by (auto simp: N_def in_set_enumerate_eq)
    then show ?thesis using planned by (auto simp: added_events_def Let_def filter_empty_conv)
  next
    case started
    obtain d where d: "added_events g (timeline_of source) e = (if ?c = [] \<or> ?c \<in> set (native_ids ''runtime.tool_call'' source)
        \<or> map_has (tl_planned (timeline_of source)) ?c then [] else [runtimeToolEvent e ''runtime.tool_call'' ?c d 0 1])"
      using added_started [OF started, of g "timeline_of source"] by auto
    have "?c \<in> set (native_ids ''runtime.tool_call'' N)" if "?c \<noteq> []"
    proof -
      consider "?c \<in> set (native_ids ''runtime.tool_call'' source)" | "map_has (tl_planned (timeline_of source)) ?c"
        | "added_events g (timeline_of source) e = [runtimeToolEvent e ''runtime.tool_call'' ?c d 0 1]" using d \<open>?c \<noteq> []\<close> by argo
      then show ?thesis
      proof cases
        case 2
        then show ?thesis using planned_keys planned_native unfolding N_def by metis
      next
        case 3
        then show ?thesis using native_added [OF e, of "''runtime.tool_call''" ?c d 0 1 g] \<open>?c \<noteq> []\<close> by (simp add: N_def)
      qed (simp add: N_def native_kept)
    qed
    then show ?thesis using added_started [OF started, of g "timeline_of N"] by auto
  next
    case result
    obtain d where d: "added_events g (timeline_of source) e = (if ?r = [] \<or> ?r \<in> set (native_ids ''runtime.tool_result'' source)
        then [] else [runtimeToolEvent e ''runtime.tool_result'' ?r d 0 1])"
      using added_result [OF result, of g "timeline_of source"] by auto
    have "?r \<in> set (native_ids ''runtime.tool_result'' N)" if "?r \<noteq> []"
      using native_kept [of ?r "''runtime.tool_result''" source g] native_added [OF e, of "''runtime.tool_result''" ?r d 0 1 g] d that
      by (cases "?r \<in> set (native_ids ''runtime.tool_result'' source)") (simp_all add: N_def result_id_def)
    then show ?thesis using added_result [OF result, of g "timeline_of N"] by (cases "?r = []") auto
  next
    case other
    then show ?thesis by (simp add: added_events_def Let_def)
  qed
  then show ?thesis by (simp add: N_def)
qed

lemma concat_nothing: "(\<And>x. x \<in> set xs \<Longrightarrow> f x = []) \<Longrightarrow> concat (map (\<lambda>x. x # f x) xs) = xs"
  by (induction xs) auto

lemma normalized_stable: "normalized g (normalized g source) = normalized g source"
proof -
  have "added_events g (timeline_of (normalized g source)) x = []" if "x \<in> set (normalized g source)" for x
  proof -
    from that obtain e where "e \<in> set source" "x = e \<or> x \<in> set (added_events g (timeline_of source) e)"
      by (auto simp: normalized_def)
    then show ?thesis using source_adds_nothing added_adds_nothing by blast
  qed
  then have "concat (map (\<lambda>e. e # added_events g (timeline_of (normalized g source)) e) (normalized g source)) = normalized g source"
    by (rule concat_nothing)
  then show ?thesis unfolding normalized_def [of g "normalized g source"] .
qed

lemma subseq_concat: "subseq xs (concat (map (\<lambda>x. x # f x) xs))"
proof (induction xs)
  case (Cons x xs)
  have "subseq ([x] @ xs) ((x # f x) @ concat (map (\<lambda>x. x # f x) xs))"
    by (rule list_emb_append_mono) (simp_all add: Cons)
  then show ?case by simp
qed simp

text \<open>Normalizing the timeline only adds events: all events stay, in their order, every planned call with an id has an
  event of its own afterwards, and a timeline that was normalized before is not changed by normalizing it again.\<close>

theorem normalize_timeline:
  "subseq source (normalizeToolTimelineEvents g (JArr source))
   \<and> (\<forall>e \<in> set source. \<forall>item \<in> set (planned_calls e). item_id item \<noteq> [] \<longrightarrow>
        (\<exists>x \<in> set (normalizeToolTimelineEvents g (JArr source)). event_is x ''runtime.tool_call'' \<and> toolCallID x = item_id item))
   \<and> normalizeToolTimelineEvents g (JArr (normalizeToolTimelineEvents g (JArr source))) = normalizeToolTimelineEvents g (JArr source)"
proof -
  have "subseq source (normalized g source)" unfolding normalized_def by (rule subseq_concat)
  then show ?thesis using planned_native [of _ source _ g] unfolding normalize_JArr normalized_stable native_ids_iff by blast
qed

section \<open>Examples\<close>

definition demo_event :: "string \<Rightarrow> int \<Rightarrow> (string \<times> jsval) list \<Rightarrow> jsval" where
  "demo_event ty n data = jobj [(''type'', jlit ty), (''seq'', jint n), (''payload'', jobj [(''data'', jobj data)])]"

definition demo_events :: "jsval list" where
  "demo_events = [demo_event ''tool.batch_planned'' 1 [(''calls'', JArr [jobj [(''call'', jobj [(''id'', jlit ''c''), (''name'', jlit ''f'')])]])],
     demo_event ''tool.call_started'' 2 [(''call_id'', jlit ''c'')],
     demo_event ''tool.call_result'' 4 [(''call_id'', jlit ''c''), (''status'', jlit ''failed'')],
     demo_event ''tool.call_started'' 3 [(''call_id'', jlit ''c'')]]"

theorem normalize_timeline_witness:
  "map (\<lambda>e. dot e ''type'') (normalizeToolTimelineEvents (\<lambda>_. NaN) (JArr demo_events))
     = map jlit [''tool.batch_planned'', ''runtime.tool_call'', ''tool.call_started'', ''tool.call_result'', ''runtime.tool_result'', ''tool.call_started'']
   \<and> normalizeToolTimelineEvents (\<lambda>_. NaN) (JArr (normalizeToolTimelineEvents (\<lambda>_. NaN) (JArr demo_events)))
     = normalizeToolTimelineEvents (\<lambda>_. NaN) (JArr demo_events)"
proof -
  have "map (\<lambda>e. dot e ''type'') (normalizeToolTimelineEvents (\<lambda>_. NaN) (JArr demo_events))
     = map jlit [''tool.batch_planned'', ''runtime.tool_call'', ''tool.call_started'', ''tool.call_result'', ''runtime.tool_result'', ''tool.call_started'']"
    by code_simp
  then show ?thesis using normalize_timeline [of demo_events "\<lambda>_. NaN"] by simp
qed

theorem lifecycles_newest_witness:
  "map_get (buildToolCallLifecycles demo_events) (lit ''c'') = Some (lifecycle_of (lit ''c'') demo_events)
   \<and> map_option event_seq (lc_started (lifecycle_of (lit ''c'') demo_events)) = Some (Fin 3)"
proof -
  have "events_of (lit ''c'') all_types demo_events \<noteq> []"
    "map_option event_seq (lc_started (lifecycle_of (lit ''c'') demo_events)) = Some (Fin 3)" by code_simp+
  then show ?thesis using lifecycles_newest [of "lit ''c''" demo_events] by simp
qed

end
