(* ===== verification/Session_Events.thy ===== *)
theory Session_Events
  imports Tool_Lifecycle
begin

text \<open>
  Small readers of the session state in \<open>apps/workbench/src\<close>: the queue of messages that wait for a session
  (\<open>sessionQueue.js\<close>), the events that make the workbench reload a session (\<open>sessionSyncEvents.js\<close>), the current
  task plan (\<open>taskPlanEvents.js\<close>), the live reply and the text kept from finished steps (\<open>chatLiveReply.js\<close>,
  \<open>chatTimelineRetention.js\<close>).

  \<open>lc\<close> is \<open>localeCompare\<close> and \<open>date\<close> is \<open>Date.parse\<close> (\<open>NaN\<close> for an unreadable text); what the theorems need
  of \<open>lc\<close> are assumptions.
\<close>

section \<open>The message queue\<close>

record queued_message =
  qm_id :: jstring
  qm_session :: jstring
  qm_text :: jstring
  qm_display :: jstring
  qm_attachments :: "jsval list"
  qm_created :: jstring

definition queue_item :: "jsval \<Rightarrow> queued_message list" where
  "queue_item item =
     (let mid = trimmed_text (dot item ''id''); sid = trimmed_text (dot item ''session_id''); txt = trimmed_text (dot item ''text'');
          shown = trim (to_str (jor (dot item ''display_text'') (JStr txt))) in
      if \<not> is_object item \<or> mid = [] \<or> sid = [] \<or> txt = [] then []
      else [\<lparr>qm_id = mid, qm_session = sid, qm_text = txt, qm_display = (if shown = [] then txt else shown),
             qm_attachments = array_items (dot item ''attachments''), qm_created = text_of (dot item ''created_at'')\<rparr>])"

definition queue_before :: "(jstring \<Rightarrow> jstring \<Rightarrow> int) \<Rightarrow> queued_message \<Rightarrow> queued_message \<Rightarrow> bool" where
  "queue_before lc a b \<longleftrightarrow> (let c = lc (qm_created a) (qm_created b) in (if c \<noteq> 0 then c else lc (qm_id a) (qm_id b)) \<le> 0)"

definition normalizeSessionMessageQueue :: "(jstring \<Rightarrow> jstring \<Rightarrow> int) \<Rightarrow> jsval \<Rightarrow> queued_message list" where
  "normalizeSessionMessageQueue lc v = sort_by (queue_before lc) (concat (map queue_item (array_items v)))"

definition message_json :: "queued_message \<Rightarrow> jsval" where
  "message_json q = jobj [(''id'', JStr (qm_id q)), (''session_id'', JStr (qm_session q)), (''text'', JStr (qm_text q)),
     (''display_text'', JStr (qm_display q)), (''attachments'', JArr (qm_attachments q)), (''created_at'', JStr (qm_created q))]"

definition appendSessionMessageQueue :: "(jstring \<Rightarrow> jstring \<Rightarrow> int) \<Rightarrow> queued_message list \<Rightarrow> jsval \<Rightarrow> queued_message list" where
  "appendSessionMessageQueue lc items item = normalizeSessionMessageQueue lc (JArr (map message_json items @ [item]))"

definition removeSessionMessageQueueItem :: "(jstring \<Rightarrow> jstring \<Rightarrow> int) \<Rightarrow> queued_message list \<Rightarrow> jstring \<Rightarrow> queued_message list" where
  "removeSessionMessageQueueItem lc items mid =
     filter (\<lambda>q. qm_id q \<noteq> mid) (normalizeSessionMessageQueue lc (JArr (map message_json items)))"

definition sessionMessageQueueItems :: "(jstring \<Rightarrow> jstring \<Rightarrow> int) \<Rightarrow> queued_message list \<Rightarrow> jstring \<Rightarrow> queued_message list" where
  "sessionMessageQueueItems lc items sid =
     filter (\<lambda>q. qm_session q = sid) (normalizeSessionMessageQueue lc (JArr (map message_json items)))"

section \<open>Events that reload a session\<close>

definition sessionSyncEventTypes :: "jstring list" where
  "sessionSyncEventTypes = map lit
     [''agent.message'', ''runtime.tool_intervention_required'', ''runtime.tool_intervention_approved'',
      ''runtime.tool_intervention_rejected'', ''runtime.human_input_required'', ''runtime.human_input_submitted'',
      ''runtime.human_input_skipped'', ''runtime.human_input_canceled'', ''runtime.plan_approval_required'',
      ''runtime.plan_approval_approved'', ''runtime.plan_approval_rejected'', ''runtime.turn_completing'',
      ''runtime.completion_validated'', ''runtime.completion_blocked'', ''runtime.completion_validation_failed'',
      ''runtime.failed'', ''runtime.completed'', ''session.status_idle'', ''session.status_failed'',
      ''session.status_terminated'', ''session.config_updated'', ''intervention.required'', ''intervention.resolved'']"

definition shouldSyncSessionForEvent :: "jsval \<Rightarrow> bool" where
  "shouldSyncSessionForEvent event \<longleftrightarrow>
     text_of (if is_string event then event else dot event ''type'') \<in> set sessionSyncEventTypes"

section \<open>The current task plan\<close>

definition taskPlanEventTypes :: "string list" where
  "taskPlanEventTypes = [''runtime.task_plan_created'', ''runtime.task_items_updated'', ''runtime.task_plan_completed'',
     ''runtime.task_plan_canceled'', ''runtime.task_plan_superseded'']"

definition trimmed_or :: "jsval \<Rightarrow> jstring \<Rightarrow> jstring" where
  "trimmed_or v d = trim (to_str (jor v (JStr d)))"

definition plan_item :: "nat \<Rightarrow> jsval \<Rightarrow> jsval" where
  "plan_item i item = spread (object_value item)
     [(''id'', JStr (trimmed_or (dot item ''id'') (lit ''item-'' @ nat_str (Suc i)))),
      (''description'', JStr (trimmed_or (dot item ''description'') [])),
      (''status'', JStr (trimmed_or (dot item ''status'') (lit ''pending''))),
      (''evidence'', JStr (trimmed_or (dot item ''evidence'') []))]"

definition normalizePlan :: "jsval \<Rightarrow> jsval option" where
  "normalizePlan v =
     (let plan = object_value v; pid = trimmed_text (dot plan ''id'') in
      if pid = [] \<or> \<not> is_array (dot plan ''items'') then None
      else Some (spread plan
        [(''id'', JStr pid), (''goal'', JStr (trimmed_or (dot plan ''goal'') [])),
         (''handling_mode'', JStr (trimmed_or (dot plan ''handling_mode'') (lit ''tracked''))),
         (''status'', JStr (trimmed_or (dot plan ''status'') (lit ''active''))),
         (''items'', JArr (map (\<lambda>(i, item). plan_item i item) (enumerate 0 (array_items (dot plan ''items'')))))]))"

definition dateMillis :: "(jstring \<Rightarrow> jsnum) \<Rightarrow> jsval \<Rightarrow> rat option" where
  "dateMillis date v = (case date (text_of v) of Fin r \<Rightarrow> Some r | _ \<Rightarrow> None)"

definition plan_step :: "(jstring \<Rightarrow> jsnum) \<Rightarrow> rat option \<Rightarrow> jsval option \<Rightarrow> jsval \<Rightarrow> jsval option" where
  "plan_step date snapshotUpdatedAt current e =
     (let payload = object_value (dot e ''payload'') in
      if \<not> type_in e taskPlanEventTypes then current
      else if (case (snapshotUpdatedAt, dateMillis date (dot e ''created_at'')) of (Some s, Some t) \<Rightarrow> t \<le> s | _ \<Rightarrow> False) then current
      else case normalizePlan (dot payload ''plan'') of
          Some plan \<Rightarrow> Some plan
        | None \<Rightarrow> (case current of
              None \<Rightarrow> None
            | Some p \<Rightarrow> if JStr (trimmed_text (dot payload ''plan_id'')) = dot p ''id''
                then Some (spread p [(''status'', JStr (to_str (jor (dot payload ''status'') (dot p ''status''))))])
                else Some p))"

text \<open>The comparator subtracts the sequence numbers; a \<open>NaN\<close> counts as equal.\<close>

definition seq_before :: "jsval \<Rightarrow> jsval \<Rightarrow> bool" where
  "seq_before a b \<longleftrightarrow> \<not> num_less (event_seq b) (event_seq a)"

definition latestTaskPlan :: "(jstring \<Rightarrow> jsnum) \<Rightarrow> jsval list \<Rightarrow> jsval \<Rightarrow> jsval option" where
  "latestTaskPlan date events snapshot =
     (let start = normalizePlan snapshot;
          snapshotUpdatedAt = (case start of Some p \<Rightarrow> dateMillis date (dot p ''updated_at'') | None \<Rightarrow> dateMillis date JUndef);
          final = foldl (plan_step date snapshotUpdatedAt) start (sort_by seq_before events) in
      case final of
          None \<Rightarrow> None
        | Some p \<Rightarrow> if dot p ''status'' \<in> set [jlit ''canceled'', jlit ''superseded''] then None else Some p)"

section \<open>The live reply\<close>

definition live_payload :: "jsval \<Rightarrow> jsval" where
  "live_payload e = object_value (dot e ''payload'')"

definition live_data :: "jsval \<Rightarrow> jsval" where
  "live_data e = object_value (dot (live_payload e) ''data'')"

text \<open>A part that is \<open>null\<close> or \<open>undefined\<close> joins as the empty text.\<close>

definition agentMessageText :: "jsval \<Rightarrow> jstring" where
  "agentMessageText e =
     (let payload = live_payload e in
      case dot payload ''content'' of
        JArr items \<Rightarrow> trim (join [10] (map (\<lambda>item. text_of (jor (dot item ''text'') (dot item ''content''))) items))
      | content \<Rightarrow> trimmed_text (jor (jor (jor content (dot payload ''message'')) (dot payload ''summary'')) (dot payload ''text'')))"

definition durableEventReplacesLiveReply :: "jsval \<Rightarrow> jsval \<Rightarrow> bool" where
  "durableEventReplacesLiveReply event liveReply =
     (let eventTurnID = text_of (jor (dot event ''turn_id'') (dot (live_payload event) ''turn_id''));
          liveTurnID = text_of (dot liveReply ''turnID'') in
      if \<not> truthy event \<or> \<not> truthy liveReply then False
      else if eventTurnID \<noteq> [] \<and> liveTurnID \<noteq> [] \<and> eventTurnID \<noteq> liveTurnID then False
      else if event_is event ''runtime.failed'' then True
      else if eventTurnID = [] \<or> liveTurnID = [] then False
      else if event_is event ''agent.message'' then agentMessageText event \<noteq> []
      else if \<not> event_is event ''runtime.progress_message'' then False
      else (let a = to_num (jor (dot (live_data event) ''tool_round'') (jint 0)); b = to_num (jor (dot liveReply ''toolRound'') (jint 0)) in
            a \<noteq> NaN \<and> a = b \<and> trimmed_text (dot (live_data event) ''text'') \<noteq> []))"

definition retainedProcessText :: "jsval \<Rightarrow> jstring" where
  "retainedProcessText event =
     (let payload = live_payload event; data = live_data event in
      if event_is event ''runtime.progress_message'' then trimmed_text (dot data ''text'')
      else if event_is event ''runtime.thinking''
      then trimmed_text (jor (jor (jor (dot data ''text'') (dot payload ''message'')) (dot payload ''summary'')) (dot payload ''text''))
      else [])"

section \<open>Lemmas\<close>

definition message_ok :: "queued_message \<Rightarrow> bool" where
  "message_ok q \<longleftrightarrow> qm_id q \<noteq> [] \<and> trim (qm_id q) = qm_id q \<and> qm_session q \<noteq> [] \<and> trim (qm_session q) = qm_session q
     \<and> qm_text q \<noteq> [] \<and> trim (qm_text q) = qm_text q \<and> qm_display q \<noteq> [] \<and> trim (qm_display q) = qm_display q"

lemma queue_item_ok: "q \<in> set (queue_item v) \<Longrightarrow> message_ok q"
  by (auto simp: queue_item_def message_ok_def Let_def split: if_splits)

lemma queue_item_message: "message_ok q \<Longrightarrow> queue_item (message_json q) = [q]"
  by (cases q) (simp add: queue_item_def message_json_def message_ok_def dot_jobj trimmed_text_def Let_def jor_def array_items_def)

lemma queue_items_messages: "list_all message_ok qs \<Longrightarrow> concat (map queue_item (map message_json qs)) = qs"
  by (induction qs) (auto simp: queue_item_message)

lemma queue_ok: "list_all message_ok (normalizeSessionMessageQueue lc v)"
  by (auto simp: normalizeSessionMessageQueue_def list_all_iff dest: queue_item_ok)

text \<open>Appending loses no waiting message and adds at most the new one; removing and selecting only filter.\<close>

lemma append_queue_mset:
  "list_all message_ok qs \<Longrightarrow> mset (appendSessionMessageQueue lc qs item) = mset qs + mset (queue_item item)"
  using queue_items_messages [of qs]
  by (simp add: appendSessionMessageQueue_def normalizeSessionMessageQueue_def array_items_def mset_sort_by)

lemma remove_queue_mset:
  "list_all message_ok qs \<Longrightarrow> mset (removeSessionMessageQueueItem lc qs mid) = filter_mset (\<lambda>q. qm_id q \<noteq> mid) (mset qs)"
  using queue_items_messages [of qs]
  by (simp add: removeSessionMessageQueueItem_def normalizeSessionMessageQueue_def array_items_def mset_sort_by mset_filter)

lemma select_queue_mset:
  "list_all message_ok qs \<Longrightarrow> mset (sessionMessageQueueItems lc qs sid) = filter_mset (\<lambda>q. qm_session q = sid) (mset qs)"
  using queue_items_messages [of qs]
  by (simp add: sessionMessageQueueItems_def normalizeSessionMessageQueue_def array_items_def mset_sort_by mset_filter)

text \<open>A plan that is canceled or superseded is never shown; without events the snapshot is.\<close>

lemma latestTaskPlan_shown:
  "latestTaskPlan date es snapshot = Some p \<Longrightarrow> dot p ''status'' \<noteq> jlit ''canceled'' \<and> dot p ''status'' \<noteq> jlit ''superseded''"
  by (auto simp: latestTaskPlan_def Let_def split: option.splits if_splits)

lemma live_reply_same_turn:
  assumes "durableEventReplacesLiveReply e reply" "\<not> event_is e ''runtime.failed''"
  shows "text_of (jor (dot e ''turn_id'') (dot (live_payload e) ''turn_id'')) = text_of (dot reply ''turnID'')"
  using assms by (auto simp: durableEventReplacesLiveReply_def Let_def split: if_splits)

end
