(* ===== verification/JS_JSON.thy ===== *)
theory JS_JSON
  imports JS_Prelude
begin

text \<open>
  \<open>JSON.stringify\<close> (compact, and with an indentation of two) and \<open>JSON.parse\<close> of the JavaScript library. The parser
  is a recursive descent with fuel; the length of the text is enough fuel, since every call consumes a character.
\<close>

section \<open>Printing\<close>

definition hex_lower :: "int \<Rightarrow> int" where
  "hex_lower n = (if n < 10 then 48 + n else 87 + n)"

definition unicode_escape :: "int \<Rightarrow> jstring" where
  "unicode_escape c = [92, 117] @ [hex_lower (c div 4096), hex_lower (c div 256 mod 16), hex_lower (c div 16 mod 16), hex_lower (c mod 16)]"

definition escape_unit :: "int \<Rightarrow> jstring" where
  "escape_unit c =
     (if c = 34 then [92, 34] else if c = 92 then [92, 92] else if c = 8 then [92, 98] else if c = 12 then [92, 102]
      else if c = 10 then [92, 110] else if c = 13 then [92, 114] else if c = 9 then [92, 116]
      else if c < 32 then unicode_escape c else [c])"

text \<open>Surrogates are printed as they are in pairs and escaped when they are alone.\<close>

fun quote_units :: "jstring \<Rightarrow> jstring" where
  "quote_units [] = []"
| "quote_units (c # s) =
     (if 55296 \<le> c \<and> c \<le> 56319
      then (case s of
          d # s' \<Rightarrow> if 56320 \<le> d \<and> d \<le> 57343 then c # d # quote_units s' else unicode_escape c @ quote_units s
        | [] \<Rightarrow> unicode_escape c)
      else if 56320 \<le> c \<and> c \<le> 57343 then unicode_escape c @ quote_units s
      else escape_unit c @ quote_units s)"

definition json_quote :: "jstring \<Rightarrow> jstring" where
  "json_quote s = [34] @ quote_units s @ [34]"

text \<open>\<open>None\<close> is the result \<open>undefined\<close>.\<close>

fun stringify :: "jsval \<Rightarrow> jstring option" where
  "stringify JUndef = None"
| "stringify (JFun _) = None"
| "stringify JNull = Some (lit ''null'')"
| "stringify (JBool b) = Some (if b then lit ''true'' else lit ''false'')"
| "stringify (JNum n) = Some (if is_finite n then num_str n else lit ''null'')"
| "stringify (JStr s) = Some (json_quote s)"
| "stringify (JArr xs) = Some ([91] @ join [44] (map (\<lambda>x. case stringify x of Some s \<Rightarrow> s | None \<Rightarrow> lit ''null'') xs) @ [93])"
| "stringify (JObj _ kvs) = Some ([123] @ join [44]
     (concat (map (\<lambda>(k, v). case stringify v of Some s \<Rightarrow> [json_quote k @ [58] @ s] | None \<Rightarrow> []) kvs)) @ [125])"

definition new_line :: "nat \<Rightarrow> jstring" where
  "new_line ind = 10 # replicate ind 32"

fun pretty :: "nat \<Rightarrow> jsval \<Rightarrow> jstring option" where
  "pretty ind (JArr xs) = (if xs = [] then Some (lit ''[]'') else Some ([91] @ new_line (ind + 2)
     @ join (44 # new_line (ind + 2)) (map (\<lambda>x. case pretty (ind + 2) x of Some s \<Rightarrow> s | None \<Rightarrow> lit ''null'') xs) @ new_line ind @ [93]))"
| "pretty ind (JObj _ kvs) =
     (let parts = concat (map (\<lambda>(k, v). case pretty (ind + 2) v of Some s \<Rightarrow> [json_quote k @ [58, 32] @ s] | None \<Rightarrow> []) kvs) in
      if parts = [] then Some (lit ''{}'')
      else Some ([123] @ new_line (ind + 2) @ join (44 # new_line (ind + 2)) parts @ new_line ind @ [125]))"
| "pretty ind v = stringify v"

section \<open>Parsing\<close>

definition json_space :: "int \<Rightarrow> bool" where
  "json_space c \<longleftrightarrow> c \<in> set [9, 10, 13, 32]"

definition hex4 :: "int \<Rightarrow> int \<Rightarrow> int \<Rightarrow> int \<Rightarrow> int option" where
  "hex4 a b c d = (if list_all (\<lambda>x. digit_value x < 16) [a, b, c, d]
     then Some (4096 * digit_value a + 256 * digit_value b + 16 * digit_value c + digit_value d) else None)"

definition simple_escape :: "int \<Rightarrow> int option" where
  "simple_escape c = map_of [(34, 34), (92, 92), (47, 47), (98, 8), (102, 12), (110, 10), (114, 13), (116, 9)] c"

text \<open>The rest of a string literal after its opening quote.\<close>

fun parse_chars :: "jstring \<Rightarrow> (jstring \<times> jstring) option" where
  "parse_chars [] = None"
| "parse_chars (c # s) =
     (if c = 34 then Some ([], s)
      else if c < 32 then None
      else if c \<noteq> 92 then map_option (\<lambda>(t, r). (c # t, r)) (parse_chars s)
      else (case s of
          [] \<Rightarrow> None
        | e # s1 \<Rightarrow>
            if e = 117
            then (case s1 of
                h1 # h2 # h3 # h4 # s2 \<Rightarrow> (case hex4 h1 h2 h3 h4 of
                    Some u \<Rightarrow> map_option (\<lambda>(t, r). (u # t, r)) (parse_chars s2)
                  | None \<Rightarrow> None)
              | _ \<Rightarrow> None)
            else (case simple_escape e of
                Some u \<Rightarrow> map_option (\<lambda>(t, r). (u # t, r)) (parse_chars s1)
              | None \<Rightarrow> None)))"

definition take_digits :: "jstring \<Rightarrow> jstring \<times> jstring" where
  "take_digits s = (takeWhile is_digit s, dropWhile is_digit s)"

text \<open>A number: an optional minus, an integer without a leading zero, a fraction, an exponent.\<close>

definition parse_number :: "jstring \<Rightarrow> (jsval \<times> jstring) option" where
  "parse_number s =
     (let (sgn, s1) = (case s of c # r \<Rightarrow> if c = 45 then ([45], r) else ([], s) | [] \<Rightarrow> ([], s));
          (ip, s2) = take_digits s1;
          (fp, s3) = (case s2 of c # r \<Rightarrow> if c = 46 then (46 # fst (take_digits r), snd (take_digits r)) else ([], s2) | [] \<Rightarrow> ([], s2));
          (ex, s4) = (case s3 of
               c # r \<Rightarrow> if c = 101 \<or> c = 69
                  then (case r of
                      d # r' \<Rightarrow> if d = 43 \<or> d = 45 then (c # d # fst (take_digits r'), snd (take_digits r'))
                               else (c # fst (take_digits r), snd (take_digits r))
                    | [] \<Rightarrow> ([c], []))
                  else ([], s3)
             | [] \<Rightarrow> ([], s3)) in
      if ip = [] \<or> (hd ip = 48 \<and> length ip > 1) \<or> fp = [46] \<or> (ex \<noteq> [] \<and> \<not> is_digit (last ex)) then None
      else Some (JNum (str_to_num (sgn @ ip @ fp @ ex)), s4))"

definition skip :: "jstring \<Rightarrow> jstring" where
  "skip s = dropWhile json_space s"

definition literal :: "string \<Rightarrow> jsval \<Rightarrow> jstring \<Rightarrow> (jsval \<times> jstring) option" where
  "literal word v s = (if starts_with s (lit word) then Some (v, drop (length word) s) else None)"

fun parse_value :: "nat \<Rightarrow> jstring \<Rightarrow> (jsval \<times> jstring) option"
and parse_items :: "nat \<Rightarrow> jstring \<Rightarrow> (jsval list \<times> jstring) option"
and parse_members :: "nat \<Rightarrow> jstring \<Rightarrow> ((jstring \<times> jsval) list \<times> jstring) option" where
  "parse_value 0 s = None"
| "parse_value (Suc n) s = (case skip s of
     [] \<Rightarrow> None
   | c # r \<Rightarrow>
       if c = 34 then map_option (\<lambda>(t, q). (JStr t, q)) (parse_chars r)
       else if c = 91
       then (case skip r of
           d # q \<Rightarrow> if d = 93 then Some (JArr [], q) else map_option (\<lambda>(xs, q'). (JArr xs, q')) (parse_items n r)
         | [] \<Rightarrow> None)
       else if c = 123
       then (case skip r of
           d # q \<Rightarrow> if d = 125 then Some (JObj ObjectProto [], q)
                   else map_option (\<lambda>(kvs, q'). (JObj ObjectProto (foldl (\<lambda>m (k, v). map_set m k v) [] kvs), q')) (parse_members n r)
         | [] \<Rightarrow> None)
       else if c = 110 then literal ''null'' JNull (c # r)
       else if c = 116 then literal ''true'' (JBool True) (c # r)
       else if c = 102 then literal ''false'' (JBool False) (c # r)
       else parse_number (c # r))"
| "parse_items 0 s = None"
| "parse_items (Suc n) s = (case parse_value n s of
     None \<Rightarrow> None
   | Some (v, r) \<Rightarrow> (case skip r of
         d # q \<Rightarrow> if d = 93 then Some ([v], q)
                 else if d = 44 then map_option (\<lambda>(vs, q'). (v # vs, q')) (parse_items n q) else None
       | [] \<Rightarrow> None))"
| "parse_members 0 s = None"
| "parse_members (Suc n) s = (case skip s of
     c # r \<Rightarrow>
       if c \<noteq> 34 then None
       else (case parse_chars r of
           None \<Rightarrow> None
         | Some (k, r1) \<Rightarrow> (case skip r1 of
               d # r2 \<Rightarrow>
                 if d \<noteq> 58 then None
                 else (case parse_value n r2 of
                     None \<Rightarrow> None
                   | Some (v, r3) \<Rightarrow> (case skip r3 of
                         e # q \<Rightarrow> if e = 125 then Some ([(k, v)], q)
                                 else if e = 44 then map_option (\<lambda>(kvs, q'). ((k, v) # kvs, q')) (parse_members n q) else None
                       | [] \<Rightarrow> None))
             | [] \<Rightarrow> None))
   | [] \<Rightarrow> None)"

text \<open>\<open>JSON.parse\<close>; \<open>None\<close> is a \<open>SyntaxError\<close>.\<close>

definition json_parse :: "jstring \<Rightarrow> jsval option" where
  "json_parse s = (case parse_value (2 * length s + 2) s of
     Some (v, r) \<Rightarrow> if skip r = [] then Some v else None
   | None \<Rightarrow> None)"

section \<open>Lemmas\<close>

lemma parse_chars_cases:
  assumes "parse_chars s = Some (t, r)"
  obtains "s = 34 # r" "t = []"
    | u s' t' where "t = u # t'" "parse_chars s' = Some (t', r)" "length s' < length s"
proof (cases s)
  case (Cons c s1)
  show ?thesis
  proof (cases "c = 34 \<or> c < 32 \<or> c \<noteq> 92")
    case True
    then show ?thesis using assms that Cons by (auto split: if_splits)
  next
    case False
    then obtain e s2 where s1: "s1 = e # s2" using assms Cons by (auto split: list.splits)
    show ?thesis
    proof (cases "e = 117")
      case True
      then have "\<exists>a b c d s3. s2 = a # b # c # d # s3" using assms Cons s1 False by (auto split: list.splits)
      then obtain x1 x2 x3 x4 s3 where s2: "s2 = x1 # x2 # x3 # x4 # s3" by blast
      then obtain u where "hex4 x1 x2 x3 x4 = Some u" "map_option (\<lambda>(t, r). (u # t, r)) (parse_chars s3) = Some (t, r)"
        using assms Cons s1 False True by (auto split: option.splits)
      then show ?thesis using that(2) [of u _ s3] Cons s1 s2 by auto
    next
      case e: False
      then obtain u where "map_option (\<lambda>(t, r). (u # t, r)) (parse_chars s2) = Some (t, r)"
        using assms Cons s1 False by (auto split: option.splits)
      then show ?thesis using that(2) [of u _ s2] Cons s1 by auto
    qed
  qed
qed (use assms in simp)

lemma parse_chars_shorter: "parse_chars s = Some (t, r) \<Longrightarrow> length t + length r < length s"
proof (induction "length s" arbitrary: s t r rule: less_induct)
  case less
  from less.prems show ?case by (cases rule: parse_chars_cases) (use less.hyps in fastforce)+
qed

lemma skip_shorter: "length (skip s) \<le> length s"
  by (simp add: skip_def length_dropWhile_le)

text \<open>A text that parses to a string is longer than the string, because of the quotes.\<close>

lemma json_parse_string_shorter:
  assumes "json_parse s = Some (JStr t)"
  shows "length t < length s"
proof -
  obtain r where r: "parse_value (2 * length s + 2) s = Some (JStr t, r)"
    using assms by (auto simp: json_parse_def split: option.splits prod.splits if_splits)
  obtain c q where q: "skip s = c # q" using r by (cases "skip s") auto
  have num: "parse_number x \<noteq> Some (JStr t, r)" for x by (auto simp: parse_number_def Let_def split: prod.splits if_splits)
  have "parse_chars q = Some (t, r)"
    using r q num by (auto simp: literal_def split: if_splits list.splits)
  from parse_chars_shorter [OF this] have "length t < length (skip s)" using q by simp
  then show ?thesis using skip_shorter [of s] by simp
qed

text \<open>\<open>{"a": [1, true, null]}\<close> and \<open>[1,]\<close>; \<open>{"a":["\"",false]}\<close>.\<close>

lemma json_parse_array: "json_parse [123, 34, 97, 34, 58, 32, 91, 116, 114, 117, 101, 44, 32, 110, 117, 108, 108, 93, 125] = Some (jobj [(''a'', JArr [JBool True, JNull])])"
  by code_simp

lemma json_parse_comma: "json_parse [91, 116, 114, 117, 101, 44, 93] = None"
  by code_simp

lemma stringify_example: "stringify (jobj [(''a'', JArr [JStr [34], JBool False])]) = Some [123, 34, 97, 34, 58, 91, 34, 92, 34, 34, 44, 102, 97, 108, 115, 101, 93, 125]"
  by code_simp

end
