(* ===== verification/Skill_Inputs.thy ===== *)
theory Skill_Inputs
  imports JS_JSON
begin

text \<open>
  The inputs of skills (\<open>apps/workbench/src/skillInputs.js\<close>): the form fields of a JSON schema with local
  references, their initial values, the validation of what the user entered, and the comparison of the skills that
  an agent and a session have enabled.

  Members of functions (such as \<open>constructor.prototype\<close> in a reference) are not modelled; a reference through them
  is left unresolved.
\<close>

section \<open>Parsing\<close>

text \<open>A text is parsed, and parsed again if it contains a text; this ends because the inner text is shorter.\<close>

function parseObject :: "jsval \<Rightarrow> jsval option" where
  "parseObject v =
     (if \<not> truthy v then None
      else case v of
          JStr s \<Rightarrow> (case json_parse s of
              None \<Rightarrow> None
            | Some w \<Rightarrow> (case w of JStr t \<Rightarrow> parseObject (JStr t) | _ \<Rightarrow> if is_object w then Some w else None))
        | _ \<Rightarrow> if is_object v then Some v else None)"
  by pat_completeness auto
termination
  by (relation "measure (\<lambda>v. case v of JStr s \<Rightarrow> length s | _ \<Rightarrow> 0)") (auto dest: json_parse_string_shorter)

declare parseObject.simps [simp del]

definition object_or_empty :: "jsval \<Rightarrow> jsval" where
  "object_or_empty v = (case parseObject v of Some o' \<Rightarrow> o' | None \<Rightarrow> JObj ObjectProto [])"

definition inputSchemaFromVersion :: "jsval \<Rightarrow> jsval option" where
  "inputSchemaFromVersion version =
     (case parseObject (dot version ''manifest'') of
        Some m \<Rightarrow> parseObject (dot m ''inputs_schema'')
      | None \<Rightarrow> parseObject JUndef)"

section \<open>Bindings\<close>

record skill_binding =
  sb_skill :: jstring
  sb_version :: int
  sb_mode :: jstring
  sb_priority :: int
  sb_inputs :: jsval

definition binding_of :: "jsval \<Rightarrow> skill_binding list" where
  "binding_of item =
     (let skill = trimmed_text (dot item ''skill''); version = to_num (jor (dot item ''version'') (jint 0));
          priority = to_num (dot item ''priority''); mode = trim (to_str (jor (dot item ''mode'') (jlit ''summary''))) in
      if \<not> is_object item \<or> skill = [] \<or> \<not> is_integer version \<or> num_val version \<le> 0 then []
      else [\<lparr>sb_skill = skill, sb_version = \<lfloor>num_val version\<rfloor>, sb_mode = (if mode = [] then lit ''summary'' else mode),
             sb_priority = (if is_integer priority \<and> num_val priority \<noteq> 0 then \<lfloor>num_val priority\<rfloor> else 100),
             sb_inputs = object_or_empty (dot item ''inputs'')\<rparr>])"

definition skillBindingsFromConfig :: "jsval \<Rightarrow> skill_binding list" where
  "skillBindingsFromConfig raw =
     (let source = (case raw of JStr s \<Rightarrow> (case json_parse s of Some v \<Rightarrow> v | None \<Rightarrow> JUndef) | _ \<Rightarrow> raw) in
      if \<not> is_object source then [] else concat (map binding_of (array_items (dot source ''enabled''))))"

text \<open>The default order of \<open>Array.prototype.sort\<close> on texts: by code units.\<close>

fun units_le :: "jstring \<Rightarrow> jstring \<Rightarrow> bool" where
  "units_le [] t = True"
| "units_le (a # s) [] = False"
| "units_le (a # s) (b # t) = (a < b \<or> (a = b \<and> units_le s t))"

text \<open>\<open>canonicalJSON\<close> prints the members of an object in the order of their names. A member that has no JSON text
  prints as \<open>undefined\<close>, as the template literal does; in an array it joins as the empty text.\<close>

fun canonicalJSON :: "jsval \<Rightarrow> jstring option" where
  "canonicalJSON (JArr xs) = Some ([91] @ join [44] (map (\<lambda>x. case canonicalJSON x of Some s \<Rightarrow> s | None \<Rightarrow> []) xs) @ [93])"
| "canonicalJSON (JObj _ kvs) = Some ([123] @ join [44]
     (map (\<lambda>(k, v). json_quote k @ [58] @ (case v of Some s \<Rightarrow> s | None \<Rightarrow> lit ''undefined''))
       (sort_by (\<lambda>a b. units_le (fst a) (fst b)) (map (\<lambda>(k, v). (k, canonicalJSON v)) kvs))) @ [125])"
| "canonicalJSON v = stringify v"

definition skillBindingsMatch :: "skill_binding option \<Rightarrow> skill_binding option \<Rightarrow> bool" where
  "skillBindingsMatch left right = (case (left, right) of
       (Some a, Some b) \<Rightarrow> sb_skill a = sb_skill b \<and> sb_version a = sb_version b \<and> sb_mode a = sb_mode b
          \<and> sb_priority a = sb_priority b \<and> canonicalJSON (sb_inputs a) = canonicalJSON (sb_inputs b)
     | (None, None) \<Rightarrow> True
     | _ \<Rightarrow> False)"

record binding_state =
  bs_synced :: bool
  bs_pendingApply :: bool
  bs_sessionStillEnabled :: bool

definition skillBindingState :: "skill_binding option \<Rightarrow> skill_binding option \<Rightarrow> binding_state" where
  "skillBindingState agentBinding sessionBinding =
     (let synced = skillBindingsMatch agentBinding sessionBinding in
      \<lparr>bs_synced = synced, bs_pendingApply = (agentBinding \<noteq> None \<and> \<not> synced),
       bs_sessionStillEnabled = (agentBinding = None \<and> sessionBinding \<noteq> None)\<rparr>)"

record config_sync =
  cs_agentVersion :: jsnum
  cs_sessionVersion :: jsnum
  cs_needsApply :: bool
  cs_targetVersion :: jsnum

definition skillConfigSyncState :: "jsval \<Rightarrow> jsval \<Rightarrow> bool \<Rightarrow> config_sync" where
  "skillConfigSyncState agentConfigVersion sessionConfigVersion hasSession =
     (let a = to_num (jor agentConfigVersion (jint 0)); s = to_num (jor sessionConfigVersion (jint 0));
          needsApply = (hasSession \<and> num_less s a) in
      \<lparr>cs_agentVersion = a, cs_sessionVersion = s, cs_needsApply = needsApply, cs_targetVersion = (if needsApply then a else Fin 0)\<rparr>)"

section \<open>References in a schema\<close>

fun replace_pair :: "int \<Rightarrow> int \<Rightarrow> int \<Rightarrow> jstring \<Rightarrow> jstring" where
  "replace_pair a b c (x # y # s) = (if x = a \<and> y = b then c # replace_pair a b c s else x # replace_pair a b c (y # s))"
| "replace_pair a b c s = s"

definition pointer_key :: "jstring \<Rightarrow> jstring" where
  "pointer_key token = replace_pair 126 48 126 (replace_pair 126 49 47 token)"

definition member_of :: "jsval \<Rightarrow> jstring \<Rightarrow> jsval" where
  "member_of v k = (case v of
       JArr xs \<Rightarrow> (case map_of (zip (map nat_str [0..<length xs]) xs) k of Some x \<Rightarrow> x | None \<Rightarrow> JUndef)
     | _ \<Rightarrow> index v k)"

definition schema_ref :: "jsval \<Rightarrow> jstring option" where
  "schema_ref schema = (case dot schema ''$ref'' of JStr s \<Rightarrow> Some s | _ \<Rightarrow> None)"

definition lookup_ref :: "jsval \<Rightarrow> jstring \<Rightarrow> jsval" where
  "lookup_ref base ref = foldl member_of base (map pointer_key (split_on 47 (drop 2 ref)))"

text \<open>\<open>{ ...a, ...b, $ref: undefined }\<close>.\<close>

definition overlay :: "jsval \<Rightarrow> jsval \<Rightarrow> jsval" where
  "overlay a b = JObj ObjectProto
     (map_set (foldl (\<lambda>m (k, v). map_set m k v) (case a of JObj _ m \<Rightarrow> m | _ \<Rightarrow> []) (case b of JObj _ kvs \<Rightarrow> kvs | _ \<Rightarrow> []))
       (lit ''$ref'') JUndef)"

text \<open>With fuel for the depth of the recursion; \<open>None\<close> means that the fuel is used up.\<close>

fun resolveLocalSchema :: "nat \<Rightarrow> jsval \<Rightarrow> jsval \<Rightarrow> jstring list \<Rightarrow> jsval option" where
  "resolveLocalSchema 0 base schema seen = None"
| "resolveLocalSchema (Suc n) base schema seen = (case schema_ref schema of
       None \<Rightarrow> Some schema
     | Some ref \<Rightarrow>
         if \<not> starts_with ref (lit ''#/'') \<or> ref \<in> set seen then Some schema
         else if \<not> is_object (lookup_ref base ref) then Some schema
         else map_option (\<lambda>r. overlay r schema) (resolveLocalSchema n base (lookup_ref base ref) (ref # seen)))"

text \<open>The references that occur anywhere in a value.\<close>

fun refs_in :: "jsval \<Rightarrow> jstring list" where
  "refs_in (JArr xs) = concat (map refs_in xs)"
| "refs_in (JObj p kvs) = (case schema_ref (JObj p kvs) of Some r \<Rightarrow> [r] | None \<Rightarrow> []) @ concat (map (\<lambda>(_, v). refs_in v) kvs)"
| "refs_in v = []"

definition schema_fuel :: "jsval \<Rightarrow> nat" where
  "schema_fuel base = length (refs_in base) + 3"

definition resolved_schema :: "jsval \<Rightarrow> jsval \<Rightarrow> jsval" where
  "resolved_schema base schema = (case resolveLocalSchema (schema_fuel base) base schema [] of Some r \<Rightarrow> r | None \<Rightarrow> schema)"

section \<open>Fields\<close>

definition typeof_name :: "jsval \<Rightarrow> string" where
  "typeof_name v = (case v of JUndef \<Rightarrow> ''undefined'' | JNull \<Rightarrow> ''object'' | JBool _ \<Rightarrow> ''boolean'' | JNum _ \<Rightarrow> ''number''
     | JStr _ \<Rightarrow> ''string'' | JFun _ \<Rightarrow> ''function'' | JArr _ \<Rightarrow> ''object'' | JObj _ _ \<Rightarrow> ''object'')"

definition first_other :: "jsval \<Rightarrow> jsval list \<Rightarrow> jsval" where
  "first_other x vs = (case List.find (\<lambda>v. v \<noteq> x) vs of Some v \<Rightarrow> v | None \<Rightarrow> JUndef)"

definition schemaType :: "jsval \<Rightarrow> jsval" where
  "schemaType schema = (case dot schema ''type'' of
       JStr s \<Rightarrow> JStr s
     | JArr ts \<Rightarrow> jor (first_other (jlit ''null'') ts) (jlit ''json'')
     | _ \<Rightarrow> (case dot schema ''enum'' of
           JArr vs \<Rightarrow> if vs = [] then jlit ''json''
             else (case first_other JNull vs of JArr _ \<Rightarrow> jlit ''array'' | v \<Rightarrow> jlit (typeof_name v))
         | _ \<Rightarrow> jlit ''json''))"

definition enumToken :: "jsval \<Rightarrow> jstring option" where
  "enumToken v = stringify v"

definition enumLabel :: "jsval \<Rightarrow> jstring option" where
  "enumLabel v = (case v of JStr s \<Rightarrow> Some s | JNull \<Rightarrow> Some (lit ''null'') | _ \<Rightarrow> stringify v)"

datatype control = EnumControl | BooleanControl | NumberControl | JsonControl | TextareaControl | TextControl

definition fieldControl :: "jsval \<Rightarrow> jsval \<Rightarrow> control" where
  "fieldControl schema ty =
     (if is_array (dot schema ''enum'') then EnumControl
      else if ty = jlit ''boolean'' then BooleanControl
      else if ty = jlit ''integer'' \<or> ty = jlit ''number'' then NumberControl
      else if ty = jlit ''object'' \<or> ty = jlit ''array'' \<or> ty = jlit ''json'' then JsonControl
      else if dot schema ''x-tma-control'' = jlit ''textarea'' then TextareaControl
      else TextControl)"

record field =
  fd_name :: jstring
  fd_title :: jstring
  fd_description :: jstring
  fd_required :: bool
  fd_type :: jsval
  fd_control :: control
  fd_default :: jsval
  fd_options :: "(jsval \<times> jstring option \<times> jstring option) list"
  fd_minimum :: "jsnum option"
  fd_maximum :: "jsnum option"
  fd_minLength :: "int option"
  fd_maxLength :: "int option"

definition number_field :: "jsval \<Rightarrow> jsnum option" where
  "number_field v = (case v of JNum n \<Rightarrow> Some n | _ \<Rightarrow> None)"

definition integer_field :: "jsval \<Rightarrow> int option" where
  "integer_field v = (case v of JNum n \<Rightarrow> if is_integer n then Some \<lfloor>num_val n\<rfloor> else None | _ \<Rightarrow> None)"

definition schema_field :: "jsval \<Rightarrow> jstring \<Rightarrow> jsval \<Rightarrow> field" where
  "schema_field base name unresolved =
     (let property = resolved_schema base (object_or_empty unresolved); ty = schemaType property in
      \<lparr>fd_name = name,
       fd_title = (if string_text (dot property ''title'') \<noteq> [] then to_str (dot property ''title'') else name),
       fd_description = (case dot property ''description'' of JStr s \<Rightarrow> s | _ \<Rightarrow> []),
       fd_required = (JStr name \<in> set (array_items (dot base ''required''))),
       fd_type = ty, fd_control = fieldControl property ty, fd_default = dot property ''default'',
       fd_options = map (\<lambda>v. (v, enumToken v, enumLabel v)) (array_items (dot property ''enum'')),
       fd_minimum = number_field (dot property ''minimum''), fd_maximum = number_field (dot property ''maximum''),
       fd_minLength = integer_field (dot property ''minLength''), fd_maxLength = integer_field (dot property ''maxLength'')\<rparr>)"

definition schemaFields :: "jsval \<Rightarrow> field list" where
  "schemaFields schema = (case parseObject schema of
       None \<Rightarrow> []
     | Some base \<Rightarrow> (case object_or_empty (dot base ''properties'') of
           JObj _ kvs \<Rightarrow> map (\<lambda>(name, v). schema_field base name v) kvs
         | _ \<Rightarrow> []))"

definition option_text :: "jstring option \<Rightarrow> jsval" where
  "option_text s = (case s of Some t \<Rightarrow> JStr t | None \<Rightarrow> JUndef)"

definition valueForControl :: "field \<Rightarrow> jsval \<Rightarrow> jsval" where
  "valueForControl f v = (case fd_control f of
       EnumControl \<Rightarrow> if list_ex (\<lambda>(_, token, _). token = enumToken v) (fd_options f) then option_text (enumToken v) else JUndef
     | BooleanControl \<Rightarrow> if is_boolean v then v else JUndef
     | JsonControl \<Rightarrow> option_text (pretty 0 v)
     | _ \<Rightarrow> if v = JNull \<or> v = JUndef then JUndef else JStr (to_str v))"

definition initial_value :: "jsval option \<Rightarrow> field \<Rightarrow> jsval" where
  "initial_value inputs f = (case Option.bind inputs (\<lambda>o'. own_prop o' (fd_name f)) of
       Some v \<Rightarrow> valueForControl f v
     | None \<Rightarrow> if fd_default f \<noteq> JUndef then valueForControl f (fd_default f)
              else if fd_required f \<and> fd_control f = BooleanControl then JBool False else JUndef)"

definition initialSkillInputValues :: "jsval \<Rightarrow> jsval \<Rightarrow> (jstring \<times> jsval) list" where
  "initialSkillInputValues schema inputs =
     filter (\<lambda>(_, v). v \<noteq> JUndef) (map (\<lambda>f. (fd_name f, initial_value (parseObject inputs) f)) (schemaFields schema))"

section \<open>Validation\<close>

definition isBlank :: "jsval \<Rightarrow> bool" where
  "isBlank v \<longleftrightarrow> v = JUndef \<or> v = JNull \<or> (case v of JStr s \<Rightarrow> trim s = [] | _ \<Rightarrow> False)"

definition validateJSONType :: "field \<Rightarrow> jsval \<Rightarrow> jstring" where
  "validateJSONType f v =
     (if fd_type f = jlit ''array'' \<and> \<not> is_array v then [24517, 39035, 26159, 32, 74, 83, 79, 78, 32, 25968, 32452]
      else if fd_type f = jlit ''object'' \<and> \<not> is_object v then [24517, 39035, 26159, 32, 74, 83, 79, 78, 32, 23545, 35937]
      else [])"

text \<open>The value of a field from what the user entered: \<open>Inl\<close> is the message.\<close>

definition number_input :: "field \<Rightarrow> jsval \<Rightarrow> jstring + jsval" where
  "number_input f raw =
     (let n = to_num raw; less = (\<lambda>a b. num_less a b) in
      if \<not> is_finite n \<or> (fd_type f = jlit ''integer'' \<and> \<not> is_integer n)
      then Inl (if fd_type f = jlit ''integer'' then [24517, 39035, 26159, 25972, 25968] else [24517, 39035, 26159, 25968, 23383])
      else case fd_minimum f of
          Some m \<Rightarrow> if less n m then Inl ([19981, 33021, 23567, 20110, 32] @ num_str m)
                   else (case fd_maximum f of Some k \<Rightarrow> if less k n then Inl ([19981, 33021, 22823, 20110, 32] @ num_str k) else Inr (JNum n) | None \<Rightarrow> Inr (JNum n))
        | None \<Rightarrow> (case fd_maximum f of Some k \<Rightarrow> if less k n then Inl ([19981, 33021, 22823, 20110, 32] @ num_str k) else Inr (JNum n) | None \<Rightarrow> Inr (JNum n)))"

definition json_input :: "field \<Rightarrow> jsval \<Rightarrow> jstring + jsval" where
  "json_input f raw =
     (case (case raw of JStr s \<Rightarrow> json_parse s | _ \<Rightarrow> Some raw) of
        None \<Rightarrow> Inl [35831, 36755, 20837, 26377, 25928, 32, 74, 83, 79, 78]
      | Some v \<Rightarrow> if validateJSONType f v \<noteq> [] then Inl (validateJSONType f v) else Inr v)"

definition text_input :: "field \<Rightarrow> jsval \<Rightarrow> jstring + jsval" where
  "text_input f raw =
     (let s = to_str raw; n = int (length s) in
      if (case fd_minLength f of Some k \<Rightarrow> n < k | None \<Rightarrow> False) then Inl ([33267, 23569, 38656, 35201, 32] @ int_str (the (fd_minLength f)) @ [32, 20010, 23383, 31526])
      else if (case fd_maxLength f of Some k \<Rightarrow> k < n | None \<Rightarrow> False) then Inl ([26368, 22810, 20801, 35768, 32] @ int_str (the (fd_maxLength f)) @ [32, 20010, 23383, 31526])
      else Inr (JStr s))"

definition field_input :: "field \<Rightarrow> jsval \<Rightarrow> jstring + jsval" where
  "field_input f raw = (case fd_control f of
       EnumControl \<Rightarrow> (case List.find (\<lambda>(_, token, _). option_text token = raw) (fd_options f) of
           Some (v, _) \<Rightarrow> Inr v
         | None \<Rightarrow> Inl [35831, 36873, 25321, 26377, 25928, 36873, 39033])
     | BooleanControl \<Rightarrow> if is_boolean raw then Inr raw else Inl [24517, 39035, 26159, 24067, 23572, 20540]
     | NumberControl \<Rightarrow> number_input f raw
     | JsonControl \<Rightarrow> json_input f raw
     | _ \<Rightarrow> text_input f raw)"

text \<open>\<open>errors\<close> is an ordinary object, so that assigning to \<open>__proto__\<close> adds nothing to it; \<open>inputs\<close> has no prototype.\<close>

definition set_error :: "(jstring, jstring) jmap \<Rightarrow> jstring \<Rightarrow> jstring \<Rightarrow> (jstring, jstring) jmap" where
  "set_error errors name message = (if name = lit ''__proto__'' then errors else map_set errors name message)"

definition check_field :: "jsval \<Rightarrow> field \<Rightarrow> (jstring, jsval) jmap \<times> (jstring, jstring) jmap \<Rightarrow> (jstring, jsval) jmap \<times> (jstring, jstring) jmap" where
  "check_field values f st = (case st of (inputs, errors) \<Rightarrow>
     (case own_prop values (fd_name f) of
        Some raw \<Rightarrow>
          if isBlank raw then (inputs, if fd_required f then set_error errors (fd_name f) [27492, 21442, 25968, 20026, 24517, 22635, 39033] else errors)
          else (case field_input f raw of
              Inl message \<Rightarrow> (inputs, set_error errors (fd_name f) message)
            | Inr v \<Rightarrow> (map_set inputs (fd_name f) v, errors))
      | None \<Rightarrow> (inputs, if fd_required f then set_error errors (fd_name f) [27492, 21442, 25968, 20026, 24517, 22635, 39033] else errors)))"

definition buildSkillInputs :: "jsval \<Rightarrow> jsval \<Rightarrow> (jstring, jstring) jmap + (jstring, jsval) jmap" where
  "buildSkillInputs schema values =
     (case fold (check_field values) (schemaFields schema) ([], []) of
        (inputs, errors) \<Rightarrow> if errors \<noteq> [] then Inl errors else Inr inputs)"

section \<open>References are resolved in finitely many steps\<close>

lemma schema_ref_in: "schema_ref v = Some r \<Longrightarrow> r \<in> set (refs_in v)"
  by (cases v) (auto simp: schema_ref_def)

lemma refs_in_member: "set (refs_in (member_of v k)) \<subseteq> set (refs_in v)"
proof (cases v)
  case (JArr xs)
  show ?thesis
  proof (cases "map_of (zip (map nat_str [0..<length xs]) xs) k")
    case (Some x)
    then have "x \<in> set xs" by (auto dest!: map_of_SomeD set_zip_rightD)
    then show ?thesis using JArr Some by (auto simp: member_of_def)
  next
    case None
    then have "member_of v k = JUndef" by (simp only: member_of_def JArr jsval.case option.case)
    then show ?thesis by simp
  qed
next
  case (JObj p kvs)
  then show ?thesis
    by (auto simp: member_of_def index_def own_prop_def schema_ref_def dot_def split: option.splits if_splits dest!: map_of_SomeD)
qed (simp_all add: member_of_def index_def own_prop_def)

lemma refs_in_lookup: "set (refs_in (lookup_ref base ref)) \<subseteq> set (refs_in base)"
proof -
  have "set (refs_in (foldl member_of v ks)) \<subseteq> set (refs_in v)" for v ks
    by (induction ks arbitrary: v) (use refs_in_member in fastforce)+
  then show ?thesis by (simp add: lookup_ref_def)
qed

lemma resolve_known:
  assumes "case schema_ref schema of None \<Rightarrow> True | Some r \<Rightarrow> r \<in> set (refs_in base)" "card (set (refs_in base) - set seen) < n"
  shows "\<exists>r. resolveLocalSchema n base schema seen = Some r"
  using assms
proof (induction n arbitrary: schema seen)
  case (Suc n)
  show ?case
  proof (cases "schema_ref schema")
    case (Some ref)
    show ?thesis
    proof (cases "ref \<in> set seen")
      case False
      have "set (refs_in base) - set (ref # seen) = (set (refs_in base) - set seen) - {ref}" by auto
      then have "card (set (refs_in base) - set (ref # seen)) < n"
        using card_Diff1_less [of "set (refs_in base) - set seen" ref] Suc.prems Some False by simp
      moreover have "case schema_ref (lookup_ref base ref) of None \<Rightarrow> True | Some r \<Rightarrow> r \<in> set (refs_in base)"
        using refs_in_lookup schema_ref_in by (fastforce split: option.splits)
      ultimately show ?thesis using Suc.IH [of "lookup_ref base ref" "ref # seen"] Some by auto
    qed (simp add: Some)
  qed simp
qed simp

lemma resolve_returns: "\<exists>r. resolveLocalSchema (schema_fuel base) base schema [] = Some r"
proof (cases "schema_ref schema")
  case (Some ref)
  have "card (set (refs_in base) - set [ref]) \<le> length (refs_in base)"
    by (rule order_trans [OF card_mono card_length]) auto
  then have "\<exists>r. resolveLocalSchema (length (refs_in base) + 2) base (lookup_ref base ref) [ref] = Some r"
    using refs_in_lookup schema_ref_in by (intro resolve_known) (fastforce split: option.splits)+
  then show ?thesis using Some by (auto simp: schema_fuel_def numeral_3_eq_3)
qed (simp add: schema_fuel_def numeral_3_eq_3)

lemma resolve_more_fuel: "resolveLocalSchema n base schema seen = Some r \<Longrightarrow> n \<le> m \<Longrightarrow> resolveLocalSchema m base schema seen = Some r"
proof (induction n arbitrary: m schema seen r)
  case (Suc n)
  then obtain k where m: "m = Suc k" "n \<le> k" by (cases m) auto
  show ?case using Suc.prems(1) Suc.IH [OF _ m(2)] unfolding m(1)
    by (auto split: option.splits if_splits)
qed simp

text \<open>C32: Resolving the references of a schema always ends, also when they are cyclic: at most as many steps are needed as
  there are references in the schema, plus two, and with more room for the recursion the result is the same.\<close>

theorem schema_resolution_ends:
  "\<exists>r. \<forall>m \<ge> length (refs_in base) + 3. resolveLocalSchema m base schema [] = Some r"
  using resolve_returns [of base schema] resolve_more_fuel unfolding schema_fuel_def by blast

section \<open>Accepted inputs\<close>

definition field_accepts :: "field \<Rightarrow> jsval \<Rightarrow> bool" where
  "field_accepts f v = (case fd_control f of
       EnumControl \<Rightarrow> v \<in> fst ` set (fd_options f)
     | BooleanControl \<Rightarrow> is_boolean v
     | NumberControl \<Rightarrow> (case v of
           JNum n \<Rightarrow> is_finite n \<and> (fd_type f = jlit ''integer'' \<longrightarrow> is_integer n)
             \<and> (case fd_minimum f of Some m \<Rightarrow> \<not> num_less n m | None \<Rightarrow> True)
             \<and> (case fd_maximum f of Some k \<Rightarrow> \<not> num_less k n | None \<Rightarrow> True)
         | _ \<Rightarrow> False)
     | JsonControl \<Rightarrow> (fd_type f = jlit ''array'' \<longrightarrow> is_array v) \<and> (fd_type f = jlit ''object'' \<longrightarrow> is_object v)
     | _ \<Rightarrow> (case v of
           JStr s \<Rightarrow> (case fd_minLength f of Some k \<Rightarrow> k \<le> int (length s) | None \<Rightarrow> True)
             \<and> (case fd_maxLength f of Some k \<Rightarrow> int (length s) \<le> k | None \<Rightarrow> True)
         | _ \<Rightarrow> False))"

lemma field_input_accepts: "field_input f raw = Inr v \<Longrightarrow> field_accepts f v"
proof (cases "fd_control f")
  case EnumControl
  then show "field_input f raw = Inr v \<Longrightarrow> ?thesis"
    by (auto simp: field_input_def field_accepts_def find_Some_iff image_iff split: option.splits) (metis fst_conv nth_mem)
qed (auto simp: field_input_def field_accepts_def number_input_def json_input_def text_input_def validateJSONType_def Let_def
     split: option.splits if_splits)

text \<open>What a field makes of the values: \<open>None\<close> when it is absent or blank.\<close>

definition entered :: "jsval \<Rightarrow> field \<Rightarrow> (jstring + jsval) option" where
  "entered values f = (case own_prop values (fd_name f) of
       Some raw \<Rightarrow> if isBlank raw then None else Some (field_input f raw)
     | None \<Rightarrow> None)"

lemma check_field_entered:
  "check_field values f (inputs, errors) = (case entered values f of
       None \<Rightarrow> (inputs, if fd_required f then set_error errors (fd_name f) [27492, 21442, 25968, 20026, 24517, 22635, 39033] else errors)
     | Some (Inl message) \<Rightarrow> (inputs, set_error errors (fd_name f) message)
     | Some (Inr v) \<Rightarrow> (map_set inputs (fd_name f) v, errors))"
  by (auto simp: check_field_def entered_def split: option.splits sum.splits)

lemma set_error_empty: "set_error errors name m = [] \<longleftrightarrow> errors = [] \<and> name = lit ''__proto__''"
  by (auto simp: set_error_def map_set_def map_has_def split: if_splits)

lemma check_fields_errors:
  "snd (fold (check_field values) fs st) = [] \<Longrightarrow> snd st = []
     \<and> (\<forall>f \<in> set fs. fd_name f \<noteq> lit ''__proto__'' \<longrightarrow>
          (case entered values f of None \<Rightarrow> \<not> fd_required f | Some (Inl _) \<Rightarrow> False | Some (Inr _) \<Rightarrow> True))"
proof (induction fs arbitrary: st)
  case (Cons f fs)
  obtain inputs errors where st: "st = (inputs, errors)" by fastforce
  have IH: "snd (check_field values f st) = []" "\<forall>f \<in> set fs. fd_name f \<noteq> lit ''__proto__'' \<longrightarrow>
          (case entered values f of None \<Rightarrow> \<not> fd_required f | Some (Inl _) \<Rightarrow> False | Some (Inr _) \<Rightarrow> True)"
    using Cons.IH [of "check_field values f st"] Cons.prems by simp_all
  then show ?case by (auto simp: st check_field_entered set_error_empty split: option.splits sum.splits if_splits)
qed simp

definition accepted :: "jsval \<Rightarrow> field \<Rightarrow> jsval option" where
  "accepted values f = (case entered values f of Some (Inr v) \<Rightarrow> Some v | _ \<Rightarrow> None)"

lemma check_field_get:
  "map_get (fst (check_field values f st)) n
     = (if n = fd_name f \<and> accepted values f \<noteq> None then accepted values f else map_get (fst st) n)"
  by (cases st) (auto simp: check_field_entered accepted_def js_map split: option.splits sum.splits)

lemma check_fields_other:
  "n \<notin> fd_name ` set fs \<Longrightarrow> map_get (fst (fold (check_field values) fs st)) n = map_get (fst st) n"
  by (induction fs arbitrary: st) (auto simp: check_field_get)

lemma check_fields_inputs:
  "distinct (map fd_name fs) \<Longrightarrow> f \<in> set fs \<Longrightarrow> map_get (fst (fold (check_field values) fs st)) (fd_name f)
      = (if accepted values f \<noteq> None then accepted values f else map_get (fst st) (fd_name f))"
proof (induction fs arbitrary: st)
  case (Cons g fs)
  show ?case
  proof (cases "f = g")
    case True
    then have "fd_name f \<notin> fd_name ` set fs" using Cons.prems by simp
    then show ?thesis using True by (simp add: check_fields_other check_field_get)
  next
    case False
    then have "f \<in> set fs" using Cons.prems(2) by simp
    moreover from this have "fd_name f \<in> fd_name ` set fs" by (rule imageI)
    then have "fd_name f \<noteq> fd_name g" using Cons.prems(1) by auto
    ultimately show ?thesis using Cons.IH [of "check_field values g st"] Cons.prems(1) by (simp add: check_field_get)
  qed
qed simp


section \<open>Examples\<close>

definition demo_schema :: jsval where
  "demo_schema = jobj [(''required'', JArr [jlit ''n'']),
     (''properties'', jobj [(''n'', jobj [(''$ref'', jlit ''#/defs/a'')]), (''t'', jobj [(''type'', jlit ''string'')])]),
     (''defs'', jobj [(''a'', jobj [(''$ref'', jlit ''#/defs/b''), (''minimum'', jint 1)]),
                     (''b'', jobj [(''$ref'', jlit ''#/defs/a''), (''type'', jlit ''integer'')])])]"

definition demo_values :: jsval where
  "demo_values = jobj [(''n'', jint 3), (''t'', jlit '' '')]"

theorem schema_resolution_ends_witness:
  "\<exists>r. resolveLocalSchema 5 demo_schema (jobj [(''$ref'', jlit ''#/defs/a'')]) [] = Some r \<and> dot r ''minimum'' = jint 1
     \<and> dot r ''type'' = jlit ''integer''"
proof -
  have n: "length (refs_in demo_schema) = 3" by code_simp
  obtain r where r: "\<forall>m \<ge> length (refs_in demo_schema) + 3. resolveLocalSchema m demo_schema (jobj [(''$ref'', jlit ''#/defs/a'')]) [] = Some r"
    using schema_resolution_ends by blast
  have "case resolveLocalSchema 5 demo_schema (jobj [(''$ref'', jlit ''#/defs/a'')]) [] of
      Some r \<Rightarrow> dot r ''minimum'' = jint 1 \<and> dot r ''type'' = jlit ''integer'' | None \<Rightarrow> False" by code_simp
  then show ?thesis using r by (auto split: option.splits)
qed


text \<open>A required field named \<open>__proto__\<close> is not missed.\<close>

lemma proto_field_not_missed:
  "map fd_required (schemaFields (jobj [(''required'', JArr [jlit ''__proto__'']), (''properties'', jobj [(''__proto__'', jobj [])])])) = [True]"
  "buildSkillInputs (jobj [(''required'', JArr [jlit ''__proto__'']), (''properties'', jobj [(''__proto__'', jobj [])])]) (jobj []) = Inr []"
  by code_simp+

end
