(* ===== verification/Space_Evaluation.thy ===== *)
theory Space_Evaluation
  imports JS_JSON JS_URI
begin

text \<open>
  The evaluation space (\<open>apps/space/src\<close>): \<open>datasetFiles.js\<close> reads and writes data sets and experiment results,
  \<open>analysis.js\<close> keeps the scores of a comparison of two sessions and summarises their evidence.

  \<open>papa\<close> and \<open>unparse\<close> stand for \<open>Papa.parse\<close> and \<open>Papa.unparse\<close> (third-party code) and \<open>lower\<close> for
  \<open>toLocaleLowerCase\<close>; nothing is assumed about them. Formatting of times and numbers for a locale is not modelled.
\<close>

section \<open>Data sets\<close>

text \<open>\<open>JSONSyntax\<close> is the error whose message ends with the text of the engine's \<open>SyntaxError\<close>.\<close>

datatype dataset_error = DatasetError jstring | JSONSyntax | TypeError | URIError

definition DATASET_MAX_ITEMS :: nat where
  "DATASET_MAX_ITEMS = 20"

definition promptKeys :: "jstring list" where
  "promptKeys = [lit ''prompt'', [25552, 31034, 35789]]"

definition expectedOutputKeys :: "jstring list" where
  "expectedOutputKeys = [lit ''expected_output'', lit ''expectedOutput'', [26399, 26395, 32467, 26524]]"

definition tagsKeys :: "jstring list" where
  "tagsKeys = [lit ''tags'', [26631, 31614]]"

fun record_field :: "jsval \<Rightarrow> jstring list \<Rightarrow> jsval" where
  "record_field r [] = JStr []"
| "record_field r (key # keys) = (case own_prop r key of
       Some v \<Rightarrow> if v = JUndef \<or> v = JNull then record_field r keys else v
     | None \<Rightarrow> record_field r keys)"

definition line_end :: "int \<Rightarrow> bool" where
  "line_end c \<longleftrightarrow> c \<in> set [10, 13, 8232, 8233]"

definition slash :: "int \<Rightarrow> bool" where
  "slash c \<longleftrightarrow> c = 47 \<or> c = 92"

text \<open>\<open>s.replace(/^.*[\\/]/, "")\<close>: the dot does not match the end of a line.\<close>

definition strip_directory :: "jstring \<Rightarrow> jstring" where
  "strip_directory s =
     (let line = takeWhile (\<lambda>c. \<not> line_end c) s in
      if list_ex slash line then drop (length line - length (takeWhile (\<lambda>c. \<not> slash c) (rev line))) s else s)"

text \<open>\<open>s.replace(/\.[^.]+$/, "")\<close>.\<close>

definition strip_extension :: "jstring \<Rightarrow> jstring" where
  "strip_extension s =
     (let ext = takeWhile (\<lambda>c. c \<noteq> 46) (rev s) in
      if 46 \<in> set s \<and> ext \<noteq> [] then take (length s - length ext - 1) s else s)"

definition default_name :: jstring where
  "default_name = [23548, 20837, 25968, 25454, 38598]"

definition baseName :: "jsval \<Rightarrow> jstring" where
  "baseName filename =
     (let s = trim (strip_extension (strip_directory (to_str (jor filename (JStr default_name))))) in
      if s = [] then default_name else s)"

text \<open>\<open>[...s].length\<close>: a surrogate pair counts once.\<close>

fun code_point_count :: "jstring \<Rightarrow> int" where
  "code_point_count [] = 0"
| "code_point_count [c] = 1"
| "code_point_count (c # d # s) = (if high_surrogate c \<and> low_surrogate d then 1 + code_point_count s else 1 + code_point_count (d # s))"

definition tag_separator :: "int \<Rightarrow> bool" where
  "tag_separator c \<longleftrightarrow> c \<in> set [124, 44, 65292, 59, 65307]"

fun split_tags :: "jstring \<Rightarrow> jstring list" where
  "split_tags [] = [[]]"
| "split_tags (c # s) = (if tag_separator c then [] # split_tags s
     else case split_tags s of [] \<Rightarrow> [[c]] | w # ws \<Rightarrow> (c # w) # ws)"

definition row_text :: "jstring \<Rightarrow> jstring" where
  "row_text row = [31532, 32] @ row"

fun collect_tags :: "jstring \<Rightarrow> jstring list \<Rightarrow> jstring list \<Rightarrow> dataset_error + jstring list" where
  "collect_tags row tags [] = Inr tags"
| "collect_tags row tags (tag # rest) =
     (if tag = [] \<or> tag \<in> set tags then collect_tags row tags rest
      else if code_point_count tag > 80 then Inl (DatasetError (row_text row @ [32, 34892, 30340, 26631, 31614, 19981, 33021, 36229, 36807, 32, 56, 48, 32, 20010, 23383, 31526, 12290]))
      else collect_tags row (tags @ [tag]) rest)"

definition normalizedTags :: "jsval \<Rightarrow> jstring \<Rightarrow> dataset_error + jstring list" where
  "normalizedTags v row =
     (let source = (case v of JArr xs \<Rightarrow> map trimmed_text xs | _ \<Rightarrow> map trim (split_tags (text_of v))) in
      andThen (collect_tags row [] source) (\<lambda>tags.
      if length tags > 10 then Inl (DatasetError (row_text row @ [32, 34892, 26368, 22810, 21482, 33021, 21253, 21547, 32, 49, 48, 32, 20010, 26631, 31614, 12290])) else Inr tags))"

record dataset_item =
  di_prompt :: jstring
  di_expectedOutput :: jstring
  di_tags :: "jstring list"

fun normalize_rows :: "(jstring \<Rightarrow> jstring) \<Rightarrow> nat \<Rightarrow> (jstring, nat) jmap \<Rightarrow> jsval list \<Rightarrow> dataset_error + dataset_item list" where
  "normalize_rows lower row seen [] = Inr []"
| "normalize_rows lower row seen (r # rest) =
     (let prompt = trimmed_text (record_field r promptKeys); expected = trimmed_text (record_field r expectedOutputKeys) in
      if prompt = [] then Inl (DatasetError (row_text (nat_str row) @ [32, 34892, 32570, 23569, 25552, 31034, 35789, 12290]))
      else if code_point_count prompt > 20000 then Inl (DatasetError (row_text (nat_str row) @ [32, 34892, 30340, 25552, 31034, 35789, 19981, 33021, 36229, 36807, 32, 50, 48, 48, 48, 48, 32, 20010, 23383, 31526, 12290]))
      else if code_point_count expected > 20000 then Inl (DatasetError (row_text (nat_str row) @ [32, 34892, 30340, 26399, 26395, 32467, 26524, 19981, 33021, 36229, 36807, 32, 50, 48, 48, 48, 48, 32, 20010, 23383, 31526, 12290]))
      else case map_get seen (lower prompt) of
          Some other \<Rightarrow> Inl (DatasetError (row_text (nat_str row) @ [32, 34892, 30340, 25552, 31034, 35789, 19982, 31532, 32] @ nat_str other @ [32, 34892, 37325, 22797, 12290]))
        | None \<Rightarrow>
            andThen (normalizedTags (record_field r tagsKeys) (nat_str row)) (\<lambda>tags.
            andThen (normalize_rows lower (Suc row) (map_set seen (lower prompt) row) rest) (\<lambda>items.
            Inr (\<lparr>di_prompt = prompt, di_expectedOutput = expected, di_tags = tags\<rparr> # items))))"

definition normalizeItems :: "(jstring \<Rightarrow> jstring) \<Rightarrow> jsval list \<Rightarrow> dataset_error + dataset_item list" where
  "normalizeItems lower records =
     (if records = [] then Inl (DatasetError [23548, 20837, 25991, 20214, 20013, 27809, 26377, 21487, 29992, 26679, 26412, 12290])
      else if length records > DATASET_MAX_ITEMS
      then Inl (DatasetError ([19968, 20010, 25968, 25454, 38598, 26368, 22810, 21253, 21547, 32] @ nat_str DATASET_MAX_ITEMS @ [32, 26465, 26679, 26412, 65292, 24403, 21069, 25991, 20214, 21253, 21547, 32] @ nat_str (length records) @ [32, 26465, 12290]))
      else normalize_rows lower 1 [] records)"

record dataset =
  ds_filename :: jsval
  ds_format :: string
  ds_name :: jstring
  ds_description :: jstring
  ds_items :: "dataset_item list"

definition without_bom :: "jstring \<Rightarrow> jstring" where
  "without_bom s = (case s of c # r \<Rightarrow> if c = 65279 then r else s | [] \<Rightarrow> [])"

definition file_extension :: "jsval \<Rightarrow> jstring" where
  "file_extension filename = last (split_on 46 (to_lower (text_of filename)))"

text \<open>\<open>papa transform content\<close> is the row (when it has one) and the message of the first error, or the header fields and the rows.\<close>

definition transformHeader :: "jstring \<Rightarrow> jstring" where
  "transformHeader header = trim (without_bom header)"

definition csv_message :: "int option \<Rightarrow> jstring \<Rightarrow> jstring" where
  "csv_message row message = [67, 83, 86, 32, 35299, 26512, 22833, 36133]
     @ (case row of Some i \<Rightarrow> [65288, 31532, 32] @ int_str (i + 2) @ [32, 34892, 65289] | None \<Rightarrow> []) @ [65306] @ message"

definition parseDatasetFile :: "(jstring \<Rightarrow> jstring)
    \<Rightarrow> ((jstring \<Rightarrow> jstring) \<Rightarrow> jstring \<Rightarrow> int option \<times> jstring + jstring list \<times> jsval list) \<Rightarrow> jsval \<Rightarrow> jsval
    \<Rightarrow> dataset_error + dataset" where
  "parseDatasetFile lower papa txt filename =
     (let content = without_bom (text_of txt); ext = file_extension filename in
      if ext = lit ''json''
      then (case json_parse content of
          None \<Rightarrow> Inl JSONSyntax
        | Some decoded \<Rightarrow>
            (let envelope = (if is_array decoded then jobj [(''items'', decoded)] else decoded) in
             case dot envelope ''items'' of
               JArr records \<Rightarrow> andThen (normalizeItems lower records) (\<lambda>items.
                 Inr \<lparr>ds_filename = filename, ds_format = ''json'',
                      ds_name = (if trimmed_text (dot envelope ''name'') = [] then baseName filename else trimmed_text (dot envelope ''name'')),
                      ds_description = trimmed_text (dot envelope ''description''), ds_items = items\<rparr>)
             | _ \<Rightarrow> Inl (DatasetError [74, 83, 79, 78, 32, 24517, 39035, 26159, 26679, 26412, 25968, 32452, 65292, 25110, 21253, 21547, 32, 105, 116, 101, 109, 115, 32, 25968, 32452, 30340, 23545, 35937, 12290])))
      else if ext \<noteq> lit ''csv'' then Inl (DatasetError [20165, 25903, 25345, 32, 46, 99, 115, 118, 32, 21644, 32, 46, 106, 115, 111, 110, 32, 25991, 20214, 12290])
      else (case papa transformHeader content of
          Inl (row, message) \<Rightarrow> Inl (DatasetError (csv_message row message))
        | Inr (headers, rows) \<Rightarrow>
            if \<not> list_ex (\<lambda>h. h \<in> set promptKeys) headers then Inl (DatasetError [67, 83, 86, 32, 32570, 23569, 32, 112, 114, 111, 109, 112, 116, 32, 25110, 8220, 25552, 31034, 35789, 8221, 21015, 12290])
            else andThen (normalizeItems lower rows) (\<lambda>items.
              Inr \<lparr>ds_filename = filename, ds_format = ''csv'', ds_name = baseName filename, ds_description = [], ds_items = items\<rparr>)))"

section \<open>Files that are written\<close>

text \<open>Reading a property of \<open>null\<close> or \<open>undefined\<close>, or calling \<open>map\<close> on a value that has none, throws.\<close>

definition needs_object :: "jsval \<Rightarrow> 'a \<Rightarrow> dataset_error + 'a" where
  "needs_object v x = (if v = JUndef \<or> v = JNull then Inl TypeError else Inr x)"

definition listed_items :: "jsval \<Rightarrow> dataset_error + jsval list" where
  "listed_items v = (if \<not> truthy v then Inr [] else case v of JArr xs \<Rightarrow> Inr xs | _ \<Rightarrow> Inl TypeError)"

definition number_or_0 :: "jsval \<Rightarrow> jsnum" where
  "number_or_0 v = to_num (jor v (jint 0))"

definition num_succ :: "jsnum \<Rightarrow> jsnum" where
  "num_succ n = (case n of Fin r \<Rightarrow> Fin (r + 1) | _ \<Rightarrow> n)"

definition dataset_row :: "jsval \<Rightarrow> dataset_error + jsval list" where
  "dataset_row item =
     andThen (needs_object item ()) (\<lambda>_.
     andThen (case dot item ''tags'' of
         JArr tags \<Rightarrow> Inr tags
       | v \<Rightarrow> andThen (normalizedTags v (num_str (num_succ (number_or_0 (dot item ''item_index''))))) (\<lambda>ts. Inr (map JStr ts))) (\<lambda>tags.
     Inr [JStr (text_of (dot item ''prompt'')),
          JStr (to_str (nullish (nullish (dot item ''expected_output'') (dot item ''expectedOutput'')) (JStr []))), JArr tags]))"

definition datasetItems :: "jsval \<Rightarrow> dataset_error + jsval list list" where
  "datasetItems ds = andThen (listed_items (dot ds ''items'')) (mapE dataset_row)"

definition unsafe_char :: "int \<Rightarrow> bool" where
  "unsafe_char c \<longleftrightarrow> c \<in> set [92, 47, 58, 42, 63, 34, 60, 62, 124]"

text \<open>\<open>s.replace(/[...]+/g, "-")\<close> for a class of characters.\<close>

function replace_runs :: "(int \<Rightarrow> bool) \<Rightarrow> jstring \<Rightarrow> jstring" where
  "replace_runs P [] = []"
| "replace_runs P (c # s) = (if P c then 45 # replace_runs P (dropWhile P s) else c # replace_runs P s)"
  by pat_completeness auto
termination
  by (relation "measure (\<lambda>(P, s). length s)") (auto simp: le_imp_less_Suc length_dropWhile_le)

definition safeFilename :: "jsval \<Rightarrow> jstring" where
  "safeFilename v =
     (let s = slice_to 100 (replace_runs js_space (replace_runs unsafe_char (trim (to_str (jor v (jlit ''export'')))))) in
      if s = [] then lit ''export'' else s)"

record written_file =
  wf_content :: jstring
  wf_filename :: jstring
  wf_mimeType :: string

definition json_text :: "jsval \<Rightarrow> jstring" where
  "json_text v = (case pretty 0 v of Some s \<Rightarrow> s | None \<Rightarrow> lit ''undefined'')"

definition row_object :: "jsval list \<Rightarrow> jsval" where
  "row_object r = jobj (zip [''prompt'', ''expected_output'', ''tags''] r)"

definition joined_tags :: "jsval \<Rightarrow> jsval" where
  "joined_tags v = JStr (join [124] (map (\<lambda>x. if x = JUndef \<or> x = JNull then [] else to_str x) (array_items v)))"

text \<open>\<open>unparse columns rows\<close> prints rows of values; without columns all names of the rows are used.\<close>

definition serializeDataset :: "(string list option \<Rightarrow> jsval list \<Rightarrow> jstring) \<Rightarrow> jsval \<Rightarrow> string \<Rightarrow> dataset_error + written_file" where
  "serializeDataset unparse ds format =
     andThen (datasetItems ds) (\<lambda>items.
       let base = safeFilename (jor (dot ds ''name'') (jlit ''dataset'')) in
       if format = ''csv''
       then Inr \<lparr>wf_content = unparse (Some [''prompt'', ''expected_output'', ''tags''])
                   (map (\<lambda>r. row_object [r ! 0, r ! 1, joined_tags (r ! 2)]) items),
                 wf_filename = base @ lit ''.csv'', wf_mimeType = ''text/csv;charset=utf-8''\<rparr>
       else Inr \<lparr>wf_content = json_text (jobj [(''name'', jor (dot ds ''name'') (JStr [])), (''description'', jor (dot ds ''description'') (JStr [])),
                                          (''items'', JArr (map row_object items))]),
                 wf_filename = base @ lit ''.json'', wf_mimeType = ''application/json;charset=utf-8''\<rparr>)"

definition or_empty :: "jsval \<Rightarrow> jsval" where
  "or_empty v = jor v (JStr [])"

text \<open>The link to a comparison; a lone surrogate in an id is the error \<open>URIError\<close>.\<close>

definition comparison_url :: "jsval \<Rightarrow> dataset_error + jstring" where
  "comparison_url item =
     (if truthy (dot item ''left_session_id'') \<and> truthy (dot item ''right_session_id'')
      then (case map (\<lambda>k. encodeURIComponent (text_of (dot item k))) [''left_session_id'', ''left_turn_id'', ''right_session_id'', ''right_turn_id''] of
          [Some a, Some b, Some c, Some d] \<Rightarrow>
            Inr (lit ''/space#left='' @ a @ lit ''&left_turn='' @ b @ lit ''&right='' @ c @ lit ''&right_turn='' @ d)
        | _ \<Rightarrow> Inl URIError)
      else Inr [])"

definition experiment_item :: "jsval \<Rightarrow> dataset_error + jsval" where
  "experiment_item item = andThen (needs_object item ()) (\<lambda>_. andThen (comparison_url item) (\<lambda>url. Inr (jobj
     [(''item_index'', JNum (num_succ (number_or_0 (dot item ''item_index'')))), (''prompt'', or_empty (dot item ''prompt'')),
      (''expected_output'', or_empty (dot item ''expected_output'')), (''tags'', JArr (array_items (dot item ''tags''))),
      (''status'', or_empty (dot item ''status'')), (''left_average'', JNum (number_or_0 (dot item ''left_average''))),
      (''right_average'', JNum (number_or_0 (dot item ''right_average''))), (''conclusion'', or_empty (dot item ''conclusion'')),
      (''error_message'', or_empty (dot item ''error_message'')), (''left_session_id'', or_empty (dot item ''left_session_id'')),
      (''left_turn_id'', or_empty (dot item ''left_turn_id'')), (''right_session_id'', or_empty (dot item ''right_session_id'')),
      (''right_turn_id'', or_empty (dot item ''right_turn_id'')), (''comparison_url'', JStr url)])))"

definition experiment_items :: "jsval \<Rightarrow> dataset_error + jsval list" where
  "experiment_items experiment = andThen (listed_items (dot experiment ''items'')) (mapE experiment_item)"

definition with_joined_tags :: "jsval \<Rightarrow> jsval" where
  "with_joined_tags item = (case item of
       JObj p kvs \<Rightarrow> JObj p (map_set kvs (lit ''tags'') (joined_tags (dot item ''tags'')))
     | _ \<Rightarrow> item)"

definition serializeDatasetTemplate :: "(string list option \<Rightarrow> jsval list \<Rightarrow> jstring) \<Rightarrow> written_file" where
  "serializeDatasetTemplate unparse =
     \<lparr>wf_content = unparse (Some [''prompt'', ''expected_output'', ''tags''])
        [jobj [(''prompt'', JStr [35828, 26126, 38656, 35201, 35780, 27979, 30340, 38382, 39064]),
               (''expected_output'', JStr [21487, 36873, 30340, 26399, 26395, 32467, 26524]),
               (''tags'', JStr [22238, 24402, 124, 26680, 24515])]],
      wf_filename = lit ''llm-space-dataset-template.csv'', wf_mimeType = ''text/csv;charset=utf-8''\<rparr>"

definition serializeExperiment :: "(string list option \<Rightarrow> jsval list \<Rightarrow> jstring) \<Rightarrow> jsval \<Rightarrow> string \<Rightarrow> dataset_error + written_file" where
  "serializeExperiment unparse experiment format =
     andThen (experiment_items experiment) (\<lambda>items.
       let base = safeFilename (jor (dot experiment ''name'') (jlit ''experiment'')) @ lit ''-results'' in
       if format = ''csv''
       then Inr \<lparr>wf_content = unparse None (map with_joined_tags items), wf_filename = base @ lit ''.csv'', wf_mimeType = ''text/csv;charset=utf-8''\<rparr>
       else Inr \<lparr>wf_content = json_text (jobj [(''id'', or_empty (dot experiment ''id'')), (''name'', or_empty (dot experiment ''name'')),
                 (''status'', or_empty (dot experiment ''status'')), (''dataset_id'', or_empty (dot experiment ''dataset_id'')),
                 (''rubric_id'', or_empty (dot experiment ''rubric_id'')), (''summary'', jor (dot experiment ''summary'') (JObj ObjectProto [])),
                 (''items'', JArr items)]),
             wf_filename = base @ lit ''.json'', wf_mimeType = ''application/json;charset=utf-8''\<rparr>)"

section \<open>Scores\<close>

definition boundedScore :: "jsval \<Rightarrow> int" where
  "boundedScore v = (case to_num v of Fin r \<Rightarrow> max 1 (min 5 \<lfloor>r + 1 / 2\<rfloor>) | _ \<Rightarrow> 3)"

record criterion =
  cr_id :: jstring
  cr_name :: jstring
  cr_description :: jstring
  cr_leftScore :: int
  cr_rightScore :: int

record evaluation =
  ev_version :: int
  ev_conclusion :: jstring
  ev_notes :: jstring
  ev_criteria :: "criterion list"
  ev_savedAt :: jstring

text \<open>The default criteria with the scores of a new evaluation; \<open>criterion_value\<close> is the object without and
  \<open>scored_value\<close> the object with the scores.\<close>

definition defaultCriteria :: "criterion list" where
  "defaultCriteria =
     [\<lparr>cr_id = lit ''task-completion'', cr_name = [20219, 21153, 23436, 25104, 24230],
       cr_description = [26159, 21542, 23436, 25972, 23454, 29616, 20102, 35201, 27714, 30340, 32467, 26524, 12290], cr_leftScore = 3, cr_rightScore = 3\<rparr>,
      \<lparr>cr_id = lit ''correctness'', cr_name = [27491, 30830, 24615],
       cr_description = [32467, 26524, 26159, 21542, 20934, 30830, 19988, 20869, 37096, 19968, 33268, 12290], cr_leftScore = 3, cr_rightScore = 3\<rparr>,
      \<lparr>cr_id = lit ''tool-discipline'', cr_name = [24037, 20855, 20351, 29992],
       cr_description = [24037, 20855, 35843, 29992, 26159, 21542, 39640, 25928, 12289, 21512, 29702, 12290], cr_leftScore = 3, cr_rightScore = 3\<rparr>,
      \<lparr>cr_id = lit ''evidence-quality'', cr_name = [35777, 25454, 36136, 37327],
       cr_description = [32467, 35770, 26159, 21542, 24471, 21040, 36816, 34892, 35777, 25454, 25903, 25345, 12290], cr_leftScore = 3, cr_rightScore = 3\<rparr>]"

definition criterion_value :: "criterion \<Rightarrow> jsval" where
  "criterion_value c = jobj [(''id'', JStr (cr_id c)), (''name'', JStr (cr_name c)), (''description'', JStr (cr_description c))]"

definition scored_value :: "criterion \<Rightarrow> jsval" where
  "scored_value c = jobj [(''id'', JStr (cr_id c)), (''name'', JStr (cr_name c)), (''description'', JStr (cr_description c)),
     (''leftScore'', jint (cr_leftScore c)), (''rightScore'', jint (cr_rightScore c))]"

definition localizedCriterion :: "jsval \<Rightarrow> jsval" where
  "localizedCriterion criterion = (case find (\<lambda>c. JStr (cr_id c) = dot criterion ''id'') defaultCriteria of
       Some c \<Rightarrow> criterion_value c | None \<Rightarrow> criterion)"

definition createEvaluation :: evaluation where
  "createEvaluation = \<lparr>ev_version = 1, ev_conclusion = lit ''inconclusive'', ev_notes = [], ev_criteria = defaultCriteria, ev_savedAt = []\<rparr>"

definition conclusions :: "jstring list" where
  "conclusions = map lit [''left'', ''right'', ''tie'', ''inconclusive'']"

definition normalize_criterion :: "nat \<Rightarrow> jsval \<Rightarrow> dataset_error + criterion" where
  "normalize_criterion i c = needs_object c
     \<lparr>cr_id = to_str (jor (dot c ''id'') (JStr (lit ''criterion-'' @ nat_str (i + 1)))),
      cr_name = to_str (jor (dot c ''name'') (JStr (lit ''Criterion '' @ nat_str (i + 1)))),
      cr_description = text_of (dot c ''description''),
      cr_leftScore = boundedScore (dot c ''leftScore''), cr_rightScore = boundedScore (dot c ''rightScore'')\<rparr>"

definition normalizeEvaluation :: "jsval \<Rightarrow> dataset_error + evaluation" where
  "normalizeEvaluation v = (case dot v ''criteria'' of
       JArr cs \<Rightarrow> andThen (mapiE normalize_criterion 0 (take 6 cs)) (\<lambda>criteria.
         Inr \<lparr>ev_version = 1,
              ev_conclusion = (case dot v ''conclusion'' of JStr s \<Rightarrow> if s \<in> set conclusions then s else lit ''inconclusive''
                               | _ \<Rightarrow> lit ''inconclusive''),
              ev_notes = text_of (dot v ''notes''), ev_criteria = criteria, ev_savedAt = text_of (dot v ''savedAt'')\<rparr>)
     | _ \<Rightarrow> Inr createEvaluation)"

text \<open>\<open>{...v, leftScore, rightScore}\<close>: of a value that is not an object nothing is kept that is read later.\<close>

definition spread_scores :: "jsval \<Rightarrow> jsval \<Rightarrow> jsval \<Rightarrow> jsval" where
  "spread_scores v l r = JObj ObjectProto
     (map_set (map_set (case v of JObj _ kvs \<Rightarrow> kvs | _ \<Rightarrow> []) (lit ''leftScore'') l) (lit ''rightScore'') r)"

text \<open>The ids that key the \<open>Map\<close> of scores are strings.\<close>

definition score_entries :: "jsval \<Rightarrow> dataset_error + (jsval, jsval) jmap" where
  "score_entries persisted =
     andThen (listed_items (dot persisted ''scores'')) (\<lambda>scores.
     andThen (mapE (\<lambda>s. needs_object s (dot s ''criterion_id'', s)) scores) (\<lambda>entries.
     Inr (foldl (\<lambda>m (k, v). map_set m k v) [] entries)))"

definition score_of :: "(jsval, jsval) jmap \<Rightarrow> jsval \<Rightarrow> string \<Rightarrow> jsval" where
  "score_of scores c k = nullish (case map_get scores (dot c ''id'') of Some s \<Rightarrow> dot s k | None \<Rightarrow> JUndef) (jint 3)"

definition evaluationFromRubric :: "jsval \<Rightarrow> jsval \<Rightarrow> dataset_error + evaluation" where
  "evaluationFromRubric rubric persisted =
     andThen (score_entries persisted) (\<lambda>scores.
     let criteria = (if array_items (dot rubric ''criteria'') \<noteq> [] then array_items (dot rubric ''criteria'') else map criterion_value defaultCriteria) in
     andThen (mapE (\<lambda>c. needs_object c (spread_scores c (score_of scores c ''left_score'') (score_of scores c ''right_score''))) criteria) (\<lambda>cs.
     normalizeEvaluation (jobj [(''conclusion'', jor (dot persisted ''conclusion'') (jlit ''inconclusive'')),
       (''notes'', jor (dot persisted ''notes'') (JStr [])), (''savedAt'', jor (dot persisted ''created_at'') (JStr [])),
       (''criteria'', JArr cs)])))"

definition evaluationStorageKey :: "jsval \<Rightarrow> jsval \<Rightarrow> jstring" where
  "evaluationStorageKey leftSessionID rightSessionID =
     lit ''tma.space.evaluation.v1:'' @ to_str leftSessionID @ lit '':'' @ to_str rightSessionID"

definition averageScore :: "jsval \<Rightarrow> string \<Rightarrow> dataset_error + rat" where
  "averageScore criteria side = (case criteria of
       JArr [] \<Rightarrow> Inr 0
     | JArr cs \<Rightarrow> andThen (mapE (\<lambda>c. needs_object c (boundedScore (dot c (if side = ''right'' then ''rightScore'' else ''leftScore'')))) cs)
         (\<lambda>scores. Inr (of_int (sum_list scores) / of_nat (length cs)))
     | _ \<Rightarrow> Inr 0)"

section \<open>Labels\<close>

definition status_labels :: jsval where
  "status_labels = jobj
     [(''completed'', JStr [24050, 23436, 25104]),
      (''success'', JStr [25104, 21151]),
      (''ok'', JStr [27491, 24120]),
      (''approved'', JStr [24050, 25209, 20934]),
      (''failed'', JStr [22833, 36133]),
      (''error'', JStr [38169, 35823]),
      (''rejected'', JStr [24050, 25298, 32477]),
      (''canceled'', JStr [24050, 21462, 28040]),
      (''queued'', JStr [25490, 38431, 20013]),
      (''running'', JStr [36816, 34892, 20013]),
      (''pending'', JStr [31561, 24453, 20013]),
      (''waiting_approval'', JStr [31561, 24453, 25209, 20934]),
      (''blocked'', JStr [24050, 38459, 22622]),
      (''idle'', JStr [31354, 38386]),
      (''interrupted'', JStr [24050, 20013, 26029]),
      (''interrupting'', JStr [27491, 22312, 20013, 26029]),
      (''unknown'', JStr [26410, 30693])]"

text \<open>The lookup \<open>labels[...]\<close> also finds the members that every object inherits.\<close>

definition statusLabel :: "jsval \<Rightarrow> jsval" where
  "statusLabel status = jor (index status_labels (to_lower (text_of status))) (jor status (JStr [26410, 30693]))"

definition conclusionLabel :: "jsval \<Rightarrow> jsval" where
  "conclusionLabel conclusion =
     jor (index (jobj [(''left'', JStr [65, 32, 26356, 20248]), (''right'', JStr [66, 32, 26356, 20248]), (''tie'', JStr [25345, 24179]), (''inconclusive'', JStr [26080, 27861, 21028, 26029])]) (to_str conclusion))
       (jor conclusion (JStr [26080, 27861, 21028, 26029]))"

definition pillTone :: "jsval \<Rightarrow> string" where
  "pillTone status = (let v = to_lower (text_of status) in
     if v \<in> set (map lit [''completed'', ''ok'', ''success'', ''approved'']) then ''good''
     else if v \<in> set (map lit [''failed'', ''error'', ''rejected'', ''canceled'']) then ''bad''
     else if v \<in> set (map lit [''running'', ''pending'', ''waiting_approval'', ''blocked'']) then ''warn'' else ''neutral'')"

section \<open>Evidence\<close>

fun numberOr :: "jsval list \<Rightarrow> jsnum" where
  "numberOr [] = Fin 0"
| "numberOr (v # vs) = (if is_finite (to_num v) \<and> to_num v \<noteq> Fin 0 then to_num v else numberOr vs)"

definition step_type :: "jsval \<Rightarrow> jstring" where
  "step_type step = text_of (dot step ''type'')"

definition tool_step :: "jsval \<Rightarrow> bool" where
  "tool_step step \<longleftrightarrow> str_includes (step_type step) (lit ''tool'')"

definition error_step :: "jsval \<Rightarrow> bool" where
  "error_step step \<longleftrightarrow>
     (let type = to_lower (step_type step); outcome = to_lower (text_of (jor (dot step ''outcome'') (dot step ''span_status''))) in
      str_includes type (lit ''failed'') \<or> str_includes type (lit ''error'') \<or> outcome \<in> set (map lit [''failed'', ''error'', ''rejected'']))"

definition js_length :: "jsval \<Rightarrow> jsval" where
  "js_length v = (case v of JArr xs \<Rightarrow> jint (int (length xs)) | JStr s \<Rightarrow> jint (int (length s)) | _ \<Rightarrow> dot v ''length'')"

definition or_object :: "jsval \<Rightarrow> jsval" where
  "or_object v = jor v (JObj ObjectProto [])"

definition count_value :: "'a list \<Rightarrow> jsval" where
  "count_value xs = jint (int (length xs))"

definition summarizeEvidence :: "jsval \<Rightarrow> dataset_error + jsval" where
  "summarizeEvidence arg =
     (let evidence = (if arg = JUndef then JObj ObjectProto [] else arg);
          comparison = or_object (dot evidence ''comparison''); trace = or_object (dot evidence ''trace'');
          stats = or_object (dot trace ''stats''); usage = or_object (dot (dot comparison ''usage'') ''summary'');
          steps = array_items (dot trace ''steps''); events = array_items (dot evidence ''events'');
          toolSteps = filter tool_step steps; errorSteps = filter error_step steps in
      andThen (needs_object evidence ()) (\<lambda>_.
      andThen (mapE (\<lambda>step. needs_object step ()) steps) (\<lambda>_.
      Inr (jobj
        [(''session'', or_object (dot comparison ''session'')),
         (''provider'', jor (dot comparison ''llm_provider'') (jlit ''-'')), (''model'', jor (dot comparison ''llm_model'') (jlit ''-'')),
         (''prompt'', or_empty (dot comparison ''prompt'')), (''result'', or_empty (dot comparison ''result'')),
         (''summary'', jor (dot (dot evidence ''summary'') ''summary_text'') (or_empty (dot trace ''summary''))),
         (''durationMS'', JNum (numberOr [dot stats ''duration_ms'', dot comparison ''duration_ms''])),
         (''latencyMS'', JNum (numberOr [dot usage ''latency_ms''])),
         (''inputTokens'', JNum (numberOr [dot usage ''input_tokens''])), (''outputTokens'', JNum (numberOr [dot usage ''output_tokens''])),
         (''totalTokens'', JNum (numberOr [dot usage ''total_tokens''])), (''reasoningTokens'', JNum (numberOr [dot usage ''reasoning_tokens''])),
         (''modelCalls'', JNum (numberOr [dot stats ''llm_requests'', dot usage ''record_count''])),
         (''toolCalls'', JNum (numberOr [dot stats ''tool_calls'', count_value (filter (\<lambda>step. dot step ''type'' = jlit ''runtime.tool_call'') toolSteps)])),
         (''errors'', JNum (numberOr [dot stats ''errors'', count_value errorSteps])),
         (''stepCount'', JNum (numberOr [dot stats ''step_count'', count_value steps])),
         (''spanCount'', JNum (numberOr [dot stats ''span_count'', js_length (dot trace ''spans'')])),
         (''artifactCount'', if is_array (dot comparison ''artifacts'') then count_value (array_items (dot comparison ''artifacts''))
                             else JNum (numberOr [dot stats ''artifact_count''])),
         (''criticalPathMS'', JNum (numberOr [dot (dot trace ''graph'') ''critical_path_duration_ms''])),
         (''traceID'', or_empty (dot trace ''trace_id'')), (''turnID'', or_empty (dot trace ''turn_id'')),
         (''status'', jor (dot trace ''status'') (jor (dot (dot comparison ''session'') ''status'') (jlit ''unknown''))),
         (''steps'', JArr steps), (''events'', JArr events), (''toolSteps'', JArr toolSteps), (''errorSteps'', JArr errorSteps),
         (''artifacts'', jor (dot comparison ''artifacts'') (JArr []))]))))"

fun num_minus :: "jsnum \<Rightarrow> jsnum \<Rightarrow> jsnum" where
  "num_minus NaN b = NaN"
| "num_minus a NaN = NaN"
| "num_minus PosInf b = (if b = PosInf then NaN else PosInf)"
| "num_minus NegInf b = (if b = NegInf then NaN else NegInf)"
| "num_minus (Fin a) PosInf = NegInf"
| "num_minus (Fin a) NegInf = PosInf"
| "num_minus (Fin a) (Fin b) = Fin (a - b)"

definition metricDelta :: "jsval \<Rightarrow> jsval \<Rightarrow> jsnum" where
  "metricDelta left right = num_minus (number_or_0 right) (number_or_0 left)"

text \<open>\<open>local\<close> stands for \<open>toLocaleString\<close>.\<close>

definition formatDelta :: "(jsnum \<Rightarrow> jstring) \<Rightarrow> jsval \<Rightarrow> jstring \<Rightarrow> jstring" where
  "formatDelta local v unit = (let n = number_or_0 v in
     if n = Fin 0 then 48 # unit else (if num_less (Fin 0) n then [43] else []) @ local n @ unit)"

section \<open>Accepted data sets\<close>

definition tags_ok :: "jstring list \<Rightarrow> bool" where
  "tags_ok tags \<longleftrightarrow> length tags \<le> 10 \<and> distinct tags
     \<and> (\<forall>tag \<in> set tags. tag \<noteq> [] \<and> trim tag = tag \<and> code_point_count tag \<le> 80)"

definition item_ok :: "dataset_item \<Rightarrow> bool" where
  "item_ok i \<longleftrightarrow> di_prompt i \<noteq> [] \<and> trim (di_prompt i) = di_prompt i \<and> code_point_count (di_prompt i) \<le> 20000
     \<and> trim (di_expectedOutput i) = di_expectedOutput i \<and> code_point_count (di_expectedOutput i) \<le> 20000 \<and> tags_ok (di_tags i)"

definition items_ok :: "(jstring \<Rightarrow> jstring) \<Rightarrow> dataset_item list \<Rightarrow> bool" where
  "items_ok lower items \<longleftrightarrow> items \<noteq> [] \<and> length items \<le> 20 \<and> list_all item_ok items
     \<and> distinct (map (\<lambda>i. lower (di_prompt i)) items)"

lemma collect_tags_ok:
  assumes "collect_tags row acc tags = Inr ts" "distinct acc" "\<forall>t \<in> set acc. t \<noteq> [] \<and> trim t = t \<and> code_point_count t \<le> 80"
    and "\<forall>t \<in> set tags. trim t = t"
  shows "distinct ts \<and> (\<forall>t \<in> set ts. t \<noteq> [] \<and> trim t = t \<and> code_point_count t \<le> 80)"
  using assms by (induction row acc tags rule: collect_tags.induct) (auto split: if_splits)

lemma normalizedTags_ok:
  assumes "normalizedTags v row = Inr ts"
  shows "tags_ok ts"
proof -
  obtain source where c: "collect_tags row [] source = Inr ts" "\<forall>t \<in> set source. trim t = t" and l: "length ts \<le> 10"
    using assms by (cases v) (auto simp: normalizedTags_def Let_def js_result split: if_splits)
  from collect_tags_ok [OF c(1)] c(2) l show ?thesis by (simp add: tags_ok_def)
qed

lemma normalize_rows_ok:
  assumes "normalize_rows lower row seen rs = Inr items"
  shows "list_all item_ok items \<and> length items = length rs \<and> distinct (map (\<lambda>i. lower (di_prompt i)) items)
    \<and> (\<forall>i \<in> set items. map_get seen (lower (di_prompt i)) = None)"
  using assms
proof (induction rs arbitrary: row seen items)
  case (Cons r rs)
  let ?p = "trimmed_text (record_field r promptKeys)"
  from Cons.prems obtain ts rest where i: "normalizedTags (record_field r tagsKeys) (nat_str row) = Inr ts"
      "normalize_rows lower (Suc row) (map_set seen (lower ?p) row) rs = Inr rest" "map_get seen (lower ?p) = None"
      "?p \<noteq> []" "code_point_count ?p \<le> 20000" "code_point_count (trimmed_text (record_field r expectedOutputKeys)) \<le> 20000"
    and items: "items = \<lparr>di_prompt = ?p, di_expectedOutput = trimmed_text (record_field r expectedOutputKeys), di_tags = ts\<rparr> # rest"
    by (auto simp: Let_def js_result split: if_splits option.splits)
  from Cons.IH [OF i(2)] have "list_all item_ok rest" "length rest = length rs" "distinct (map (\<lambda>i. lower (di_prompt i)) rest)"
      "\<forall>i \<in> set rest. lower (di_prompt i) \<noteq> lower ?p \<and> map_get seen (lower (di_prompt i)) = None"
    by (auto simp: map_get_set split: if_splits)
  moreover from calculation(4) have "lower ?p \<notin> (\<lambda>i. lower (di_prompt i)) ` set rest" by auto
  moreover have "item_ok \<lparr>di_prompt = ?p, di_expectedOutput = trimmed_text (record_field r expectedOutputKeys), di_tags = ts\<rparr>"
    using i normalizedTags_ok [OF i(1)] by (simp add: item_ok_def)
  ultimately show ?case using i(3) items by simp
qed simp

lemma normalizeItems_ok:
  assumes "normalizeItems lower records = Inr items"
  shows "items_ok lower items"
  using assms normalize_rows_ok [of lower 1 "[]" records items]
  by (auto simp: normalizeItems_def items_ok_def DATASET_MAX_ITEMS_def split: if_splits)


lemma parseDatasetFile_items:
  assumes "parseDatasetFile lower papa txt filename = Inr d"
  obtains records where "normalizeItems lower records = Inr (ds_items d)"
  using assms by (auto simp: parseDatasetFile_def Let_def js_result split: if_splits option.splits jsval.splits sum.splits)

section \<open>Exported data sets\<close>

definition item_value :: "dataset_item \<Rightarrow> jsval" where
  "item_value i = jobj [(''prompt'', JStr (di_prompt i)), (''expectedOutput'', JStr (di_expectedOutput i)), (''tags'', JArr (map JStr (di_tags i)))]"

definition item_row :: "dataset_item \<Rightarrow> jsval list" where
  "item_row i = [JStr (di_prompt i), JStr (di_expectedOutput i), JArr (map JStr (di_tags i))]"

definition dataset_value :: "dataset \<Rightarrow> jsval" where
  "dataset_value d = jobj [(''filename'', ds_filename d), (''format'', jlit (ds_format d)), (''name'', JStr (ds_name d)),
     (''description'', JStr (ds_description d)), (''items'', JArr (map item_value (ds_items d)))]"

lemma dataset_row_item [simp]: "dataset_row (item_value i) = Inr (item_row i)"
  by (simp add: dataset_row_def item_value_def item_row_def needs_object_def dot_jobj nullish_def) (simp add: jobj_def)

lemma mapE_Inr [simp]: "(\<And>x. x \<in> set xs \<Longrightarrow> f x = Inr (g x)) \<Longrightarrow> mapE f xs = Inr (map g xs)"
  by (induction xs) simp_all

lemma datasetItems_value: "datasetItems (dataset_value d) = Inr (map item_row (ds_items d))"
proof -
  have "mapE dataset_row (map item_value is) = Inr (map item_row is)" for "is"
    by (induction "is") simp_all
  then show ?thesis by (simp add: datasetItems_def dataset_value_def dot_jobj listed_items_def)
qed

lemma collect_tags_same:
  assumes "distinct (acc @ tags)" "\<forall>t \<in> set tags. t \<noteq> [] \<and> code_point_count t \<le> 80"
  shows "collect_tags row acc tags = Inr (acc @ tags)"
  using assms by (induction row acc tags rule: collect_tags.induct) auto

lemma normalizedTags_same:
  assumes "tags_ok tags"
  shows "normalizedTags (JArr (map JStr tags)) row = Inr tags"
proof -
  from assms have "map trimmed_text (map JStr tags) = tags"
    by (simp add: tags_ok_def trimmed_text_def map_idI)
  with assms collect_tags_same [of "[]" tags row] show ?thesis by (simp add: normalizedTags_def tags_ok_def)
qed

lemma row_fields:
  "record_field (row_object (item_row i)) promptKeys = JStr (di_prompt i)"
  "record_field (row_object (item_row i)) expectedOutputKeys = JStr (di_expectedOutput i)"
  "record_field (row_object (item_row i)) tagsKeys = JArr (map JStr (di_tags i))"
  by (simp_all add: row_object_def item_row_def own_prop_def jobj_def promptKeys_def expectedOutputKeys_def tagsKeys_def)

lemma normalize_rows_same:
  assumes "list_all item_ok items" "distinct (map (\<lambda>i. lower (di_prompt i)) items)"
    "\<forall>i \<in> set items. map_get seen (lower (di_prompt i)) = None"
  shows "normalize_rows lower row seen (map (\<lambda>i. row_object (item_row i)) items) = Inr items"
  using assms
proof (induction items arbitrary: row seen)
  case (Cons i items)
  from Cons.prems have "item_ok i" "map_get seen (lower (di_prompt i)) = None" by simp_all
  moreover from Cons.prems(2) have "\<forall>j \<in> set items. lower (di_prompt j) \<noteq> lower (di_prompt i)" by (simp add: image_iff) metis
  then have "normalize_rows lower (Suc row) (map_set seen (lower (di_prompt i)) row) (map (\<lambda>i. row_object (item_row i)) items) = Inr items"
    using Cons.prems by (intro Cons.IH) (simp_all add: map_get_set)
  ultimately show ?case
    by (simp add: row_fields trimmed_text_def item_ok_def normalizedTags_same)
qed simp

lemma normalizeItems_same: "items_ok lower items \<Longrightarrow> normalizeItems lower (map (\<lambda>i. row_object (item_row i)) items) = Inr items"
  by (simp add: normalizeItems_def items_ok_def DATASET_MAX_ITEMS_def normalize_rows_same)


definition example_file :: jstring where
  "example_file = lit ''[{'' @ [34] @ lit ''prompt'' @ [34] @ lit '':'' @ [34] @ lit '' say hi'' @ [34] @ lit '','' @ [34] @ lit ''tags'' @ [34]
     @ lit '':'' @ [34] @ lit ''a|b,a'' @ [34] @ lit ''}]''"


section \<open>Evaluations\<close>

definition criterion_ok :: "criterion \<Rightarrow> bool" where
  "criterion_ok c \<longleftrightarrow> 1 \<le> cr_leftScore c \<and> cr_leftScore c \<le> 5 \<and> 1 \<le> cr_rightScore c \<and> cr_rightScore c \<le> 5"

definition evaluation_ok :: "evaluation \<Rightarrow> bool" where
  "evaluation_ok e \<longleftrightarrow> ev_version e = 1 \<and> ev_conclusion e \<in> set conclusions \<and> length (ev_criteria e) \<le> 6 \<and> list_all criterion_ok (ev_criteria e)"

definition named :: "criterion \<Rightarrow> bool" where
  "named c \<longleftrightarrow> cr_id c \<noteq> [] \<and> cr_name c \<noteq> []"

definition evaluation_value :: "evaluation \<Rightarrow> jsval" where
  "evaluation_value e = jobj [(''version'', jint (ev_version e)), (''conclusion'', JStr (ev_conclusion e)), (''notes'', JStr (ev_notes e)),
     (''criteria'', JArr (map scored_value (ev_criteria e))), (''savedAt'', JStr (ev_savedAt e))]"

lemma boundedScore_bounds [simp]: "1 \<le> boundedScore v" "boundedScore v \<le> 5"
  by (simp_all add: boundedScore_def split: jsnum.split)

lemma floor_half [simp]: "\<lfloor>of_int i + 1 / 2 :: rat\<rfloor> = i"
  by (simp add: floor_eq_iff)

lemma boundedScore_same [simp]: "1 \<le> i \<Longrightarrow> i \<le> 5 \<Longrightarrow> boundedScore (jint i) = i"
  by (simp add: boundedScore_def)

lemma createEvaluation_ok: "evaluation_ok createEvaluation" "list_all named (ev_criteria createEvaluation)"
  by (simp_all add: evaluation_ok_def createEvaluation_def defaultCriteria_def criterion_ok_def conclusions_def named_def)

lemma normalize_criterion_ok: "normalize_criterion i c = Inr d \<Longrightarrow> criterion_ok d"
  by (auto simp: normalize_criterion_def needs_object_def criterion_ok_def split: if_splits)

lemma normalizeEvaluation_ok:
  assumes "normalizeEvaluation v = Inr e"
  shows "evaluation_ok e"
proof (cases "dot v ''criteria''")
  case (JArr cs)
  with assms obtain ds where ds: "mapiE normalize_criterion 0 (take 6 cs) = Inr ds" "ev_criteria e = ds" "ev_version e = 1" "ev_conclusion e \<in> set conclusions"
    by (auto simp: normalizeEvaluation_def js_result conclusions_def split: if_splits jsval.splits)
  moreover have "criterion_ok d" if "d \<in> set ds" for d
    using mapiE_set [OF ds(1) that] normalize_criterion_ok by blast
  moreover have "length ds \<le> 6" using mapiE_length [OF ds(1)] by simp
  ultimately show ?thesis by (simp add: evaluation_ok_def list_all_iff)
qed (use assms createEvaluation_ok in \<open>simp_all add: normalizeEvaluation_def\<close>)

lemma normalize_criterion_same:
  "criterion_ok c \<Longrightarrow> named c \<Longrightarrow> normalize_criterion i (scored_value c) = Inr c"
  by (simp add: normalize_criterion_def scored_value_def needs_object_def criterion_ok_def named_def dot_jobj jor_def) (simp add: jobj_def)

lemma mapiE_same: "(\<And>i x. x \<in> set xs \<Longrightarrow> f i (g x) = Inr x) \<Longrightarrow> mapiE f i (map g xs) = Inr xs"
  by (induction xs arbitrary: i) simp_all

lemma normalizeEvaluation_same:
  assumes "evaluation_ok e" "list_all named (ev_criteria e)"
  shows "normalizeEvaluation (evaluation_value e) = Inr e"
proof -
  have "mapiE normalize_criterion 0 (map scored_value (ev_criteria e)) = Inr (ev_criteria e)"
    using assms by (intro mapiE_same normalize_criterion_same) (auto simp: evaluation_ok_def list_all_iff)
  with assms show ?thesis
    by (simp add: normalizeEvaluation_def evaluation_value_def dot_jobj evaluation_ok_def)
qed

text \<open>The score of a saved evaluation: every normalized evaluation has at most six criteria and scores from 1 to 5, so both averages
  lie between 1 and 5 when there is a criterion; and normalizing it again changes nothing as long as the criteria have names.\<close>

lemma mean_bounds:
  assumes "xs \<noteq> []" "\<forall>x \<in> set xs. 1 \<le> x \<and> x \<le> (5 :: int)"
  shows "1 \<le> (of_int (sum_list xs) / of_nat (length xs) :: rat)" "(of_int (sum_list xs) / of_nat (length xs) :: rat) \<le> 5"
proof -
  have "int (length xs) \<le> sum_list xs \<and> sum_list xs \<le> 5 * int (length xs)"
    using assms(2) by (induction xs) auto
  then have "(of_nat (length xs) :: rat) \<le> of_int (sum_list xs)" "(of_int (sum_list xs) :: rat) \<le> 5 * of_nat (length xs)"
    by (metis of_int_le_iff of_int_of_nat_eq, metis of_int_le_iff of_int_mult of_int_numeral of_int_of_nat_eq)
  with assms(1) show "1 \<le> (of_int (sum_list xs) / of_nat (length xs) :: rat)" "(of_int (sum_list xs) / of_nat (length xs) :: rat) \<le> 5"
    by (simp_all add: field_simps)
qed

lemma mapE_needs_object: "mapE (\<lambda>c. needs_object c (f c)) cs = Inr xs \<Longrightarrow> xs = map f cs"
  by (induction cs arbitrary: xs) (auto simp: js_result needs_object_def split: if_splits)

lemma averageScore_bounds:
  assumes "averageScore (JArr cs) side = Inr r" "cs \<noteq> []"
  shows "1 \<le> r \<and> r \<le> 5"
proof -
  let ?score = "\<lambda>c. boundedScore (dot c (if side = ''right'' then ''rightScore'' else ''leftScore''))"
  from assms obtain xs where xs: "mapE (\<lambda>c. needs_object c (?score c)) cs = Inr xs" "r = of_int (sum_list xs) / of_nat (length cs)"
    by (cases cs) (auto simp: averageScore_def js_result)
  from mapE_needs_object [OF xs(1)] have "xs = map ?score cs" .
  with mean_bounds [of xs] assms(2) xs(2) show ?thesis by simp
qed

lemma numberOr_finite: "is_finite (numberOr vs)"
  by (induction vs) (simp_all add: is_finite_def)

text \<open>An inherited member of every object passes for the label of a status of the same name.\<close>

lemma inherited_label: "is_function (statusLabel (jlit ''constructor''))"
  by code_simp

end
