(* ===== verification/Event_Stream.thy ===== *)
theory Event_Stream
  imports JS_JSON "HOL-Library.Sublist"
begin

text \<open>
  The event streams of the TypeScript SDK (\<open>sdk/typescript/src\<close>): \<open>errors.ts\<close>, \<open>transport.ts\<close> and \<open>sse.ts\<close>.

  \<open>streamEvents\<close> and \<open>streamLiveEvents\<close> are loops that connect, deliver the events of the connection, and connect again.
  The world outside is a list of attempts, one for each time round the loop: what \<open>fetch\<close> answers to a request for the events
  after a sequence number, what the reader returns and when, and at which points the signal is aborted. A stream that is still
  waiting when the list ends is \<open>Running\<close>. The observable behaviour is the list of requests, delivered events and waits.

  \<open>eventsource-parser\<close> together with \<open>TextDecoder\<close> is a parser \<open>sse_parser\<close> with a state of any type: what a chunk makes it
  report, and what it reports at the end. \<open>JSON.parse\<close> is \<open>json_parse\<close>; the text of its error is not part of a message here.
\<close>

section \<open>Errors\<close>

record api_error =
  ae_status :: int
  ae_message :: jstring
  ae_code :: jsval
  ae_requestId :: jsval
  ae_retryable :: jsval
  ae_details :: jsval

definition defaultErrorCode :: "int \<Rightarrow> string" where
  "defaultErrorCode status =
     (if status = 400 \<or> status = 422 then ''invalid_request'' else if status = 401 then ''unauthorized''
      else if status = 403 then ''forbidden'' else if status = 404 then ''not_found'' else if status = 409 then ''conflict''
      else if status = 412 then ''revision_conflict'' else if status = 413 then ''payload_too_large''
      else if status = 415 then ''unsupported_media_type'' else if status = 429 then ''rate_limited''
      else if status = 502 then ''upstream_error'' else if status = 503 then ''service_unavailable''
      else if status = 504 then ''upstream_timeout'' else ''internal_error'')"

definition defaultRetryable :: "int \<Rightarrow> bool" where
  "defaultRetryable status \<longleftrightarrow> status = 429 \<or> status = 502 \<or> status = 503 \<or> status = 504"

definition default_message :: "int \<Rightarrow> jstring" where
  "default_message status = lit ''TMA request failed with HTTP '' @ int_str status"

definition new_api_error :: "int \<Rightarrow> jsval \<Rightarrow> api_error" where
  "new_api_error status body =
     \<lparr>ae_status = status, ae_message = to_str (jor (dot body ''message'') (JStr (default_message status))),
      ae_code = jor (dot body ''code'') (jlit (defaultErrorCode status)), ae_requestId = nullish (dot body ''request_id'') (JStr []),
      ae_retryable = nullish (dot body ''retryable'') (JBool (defaultRetryable status)), ae_details = dot body ''details''\<rparr>"

text \<open>The part of a response that is read: \<open>rp_json\<close> is what \<open>response.json()\<close> gives, \<open>None\<close> when it throws.\<close>

record response =
  rp_status :: int
  rp_statusText :: jstring
  rp_requestId :: "jstring option"
  rp_json :: "jsval option"

definition response_ok :: "response \<Rightarrow> bool" where
  "response_ok r \<longleftrightarrow> 200 \<le> rp_status r \<and> rp_status r \<le> 299"

text \<open>The operator \<open>in\<close> throws for a value that is not an object; the error is caught like one of the decoder.\<close>

definition error_body :: "jsval option \<Rightarrow> jsval option" where
  "error_body decoded = (case decoded of
       Some (JObj p kvs) \<Rightarrow> Some (jor (dot (JObj p kvs) ''error'') (JObj p kvs))
     | Some (JArr xs) \<Rightarrow> Some (JArr xs)
     | _ \<Rightarrow> None)"

definition fromResponse :: "response \<Rightarrow> api_error" where
  "fromResponse r = new_api_error (rp_status r) (case error_body (rp_json r) of
       Some body \<Rightarrow> body
     | None \<Rightarrow> jobj [(''code'', jlit (defaultErrorCode (rp_status r))),
         (''message'', jor (JStr (rp_statusText r)) (JStr (default_message (rp_status r)))),
         (''request_id'', JStr (case rp_requestId r of Some s \<Rightarrow> s | None \<Rightarrow> [])),
         (''retryable'', JBool (defaultRetryable (rp_status r)))])"

text \<open>\<open>RetryableSSEError\<close> and everything else that is thrown on the way (a failed \<open>fetch\<close>, a failed read) is \<open>Transient\<close>: it is
  caught, and its text is never seen.\<close>

datatype stream_error = AbortError | SSESchemaError jstring | API api_error | Transient

section \<open>Events\<close>

definition number_of :: "jsval \<Rightarrow> jsnum" where
  "number_of v = (case v of JNum n \<Rightarrow> n | _ \<Rightarrow> NaN)"

definition is_json_object :: "jsval \<Rightarrow> bool" where
  "is_json_object v \<longleftrightarrow> is_object v \<or> is_array v"

definition decodeEvent :: "jstring \<Rightarrow> stream_error + jsval" where
  "decodeEvent data = (case json_parse data of
       None \<Rightarrow> Inl (SSESchemaError (lit ''SSE event is not valid JSON: ''))
     | Some event \<Rightarrow>
         if \<not> is_json_object event then Inl (SSESchemaError (lit ''SSE event must be an object''))
         else if \<not> safe_integer (number_of (dot event ''seq'')) \<or> \<not> is_string (dot event ''type'') \<or> \<not> is_string (dot event ''created_at'')
         then Inl (SSESchemaError (lit ''SSE event is missing seq, type, or created_at''))
         else Inr event)"

definition seq :: "jsval \<Rightarrow> int" where
  "seq event = \<lfloor>num_val (number_of (dot event ''seq''))\<rfloor>"

definition valid_base :: "jsval \<Rightarrow> bool" where
  "valid_base event \<longleftrightarrow> safe_integer (number_of (dot event ''stream_seq''))
     \<and> list_all (\<lambda>k. is_string (dot event k)) [''session_id'', ''turn_id'', ''text'', ''created_at'']"

definition valid_llm_text :: "jsval \<Rightarrow> bool" where
  "valid_llm_text event \<longleftrightarrow> dot event ''type'' = jlit ''llm.text''
     \<and> (dot event ''operation'' = jlit ''append'' \<or> dot event ''operation'' = jlit ''reset'') \<and> dot event ''content_format'' = jlit ''markdown''"

definition valid_tool_progress :: "jsval \<Rightarrow> bool" where
  "valid_tool_progress event \<longleftrightarrow> dot event ''type'' = jlit ''tool.call_progress'' \<and> dot event ''operation'' = jlit ''update''
     \<and> dot event ''content_format'' = jlit ''text'' \<and> list_all (\<lambda>k. is_string (dot event k)) [''call_id'', ''tool'', ''stage'']"

definition decodeLiveEvent :: "jstring \<Rightarrow> stream_error + jsval" where
  "decodeLiveEvent data = (case json_parse data of
       None \<Rightarrow> Inl (SSESchemaError (lit ''Live SSE event is not valid JSON: ''))
     | Some event \<Rightarrow>
         if \<not> is_json_object event then Inl (SSESchemaError (lit ''Live SSE event must be an object''))
         else if \<not> valid_base event \<or> (\<not> valid_llm_text event \<and> \<not> valid_tool_progress event)
         then Inl (SSESchemaError (lit ''Live SSE event is missing required transient stream fields''))
         else Inr event)"

section \<open>One connection\<close>

text \<open>A read takes some milliseconds; \<open>Silent\<close> is one that never ends.\<close>

datatype 'c read = Chunk rat 'c | Done rat | ReadFails rat | Silent

datatype 'c arrival = Data 'c | Closed | Broken | Waiting

definition timed_out :: "jsnum \<Rightarrow> rat \<Rightarrow> bool" where
  "timed_out timeoutMs elapsed \<longleftrightarrow> (case timeoutMs of Fin t \<Rightarrow> 0 < t \<and> t < elapsed | _ \<Rightarrow> False)"

definition readWithIdleTimeout :: "jsnum \<Rightarrow> 'c read \<Rightarrow> 'c arrival" where
  "readWithIdleTimeout timeoutMs r = (case r of
       Chunk t c \<Rightarrow> if timed_out timeoutMs t then Broken else Data c
     | Done t \<Rightarrow> if timed_out timeoutMs t then Broken else Closed
     | ReadFails t \<Rightarrow> Broken
     | Silent \<Rightarrow> (case timeoutMs of Fin t \<Rightarrow> if 0 < t then Broken else Waiting | _ \<Rightarrow> Waiting))"

record ('p, 'c) sse_parser =
  ps_init :: 'p
  ps_feed :: "'p \<Rightarrow> 'c \<Rightarrow> 'p \<times> jstring list \<times> jstring option"
  ps_flush :: "'p \<Rightarrow> jstring option"

text \<open>Delivery of the messages of a chunk: the new position, the events, and the error that ended it.\<close>

type_synonym delivery = "int \<Rightarrow> jstring list \<Rightarrow> int \<times> jsval list \<times> stream_error option"

fun deliver :: delivery where
  "deliver afterSeq [] = (afterSeq, [], None)"
| "deliver afterSeq (data # messages) = (case decodeEvent data of
       Inl e \<Rightarrow> (afterSeq, [], Some e)
     | Inr event \<Rightarrow>
         if seq event \<le> afterSeq then deliver afterSeq messages
         else (let (n, events, e) = deliver (seq event) messages in (n, event # events, e)))"

fun deliver_live :: delivery where
  "deliver_live afterSeq [] = (afterSeq, [], None)"
| "deliver_live afterSeq (data # messages) = (case decodeLiveEvent data of
       Inl e \<Rightarrow> (afterSeq, [], Some e)
     | Inr event \<Rightarrow> (let (n, events, e) = deliver_live afterSeq messages in (n, event # events, e)))"

text \<open>How a connection ends: with an error, or not yet.\<close>

fun read_loop :: "delivery \<Rightarrow> ('p, 'c) sse_parser \<Rightarrow> jsnum \<Rightarrow> int \<Rightarrow> 'p \<Rightarrow> 'c read list \<Rightarrow> int \<times> jsval list \<times> stream_error option" where
  "read_loop dl parser timeout afterSeq p [] = (afterSeq, [], None)"
| "read_loop dl parser timeout afterSeq p (r # reads) = (case readWithIdleTimeout timeout r of
       Waiting \<Rightarrow> (afterSeq, [], None)
     | Broken \<Rightarrow> (afterSeq, [], Some Transient)
     | Closed \<Rightarrow> (afterSeq, [], Some (case ps_flush parser p of Some m \<Rightarrow> SSESchemaError m | None \<Rightarrow> Transient))
     | Data c \<Rightarrow>
         (let (p', messages, failed) = ps_feed parser p c in
          case failed of
            Some m \<Rightarrow> (afterSeq, [], Some (SSESchemaError m))
          | None \<Rightarrow>
              (let (n, events, e) = dl afterSeq messages in
               case e of
                 Some err \<Rightarrow> (n, events, Some err)
               | None \<Rightarrow> (let (n', events', e') = read_loop dl parser timeout n p' reads in (n', events @ events', e')))))"

text \<open>One time round the loop, as the world sees it.\<close>

datatype 'c fetched = FetchFails | NoBody response | Stream response "'c read list"

record 'c attempt =
  at_aborted :: bool
  at_fetched :: "'c fetched"
  at_abortedCatch :: bool
  at_abortedDelay :: bool

record connection =
  cn_connected :: bool
  cn_after :: int
  cn_events :: "jsval list"
  cn_error :: "stream_error option"

definition server_error :: "int \<Rightarrow> bool" where
  "server_error status \<longleftrightarrow> 500 \<le> status \<and> status \<le> 599"

definition refused :: "int \<Rightarrow> stream_error \<Rightarrow> connection" where
  "refused afterSeq e = \<lparr>cn_connected = False, cn_after = afterSeq, cn_events = [], cn_error = Some e\<rparr>"

definition answer_error :: "response \<Rightarrow> stream_error" where
  "answer_error r = (if server_error (rp_status r) then Transient else API (fromResponse r))"

definition connect :: "delivery \<Rightarrow> ('p, 'c) sse_parser \<Rightarrow> jsnum \<Rightarrow> int \<Rightarrow> 'c fetched \<Rightarrow> connection" where
  "connect dl parser timeout afterSeq fetched = (case fetched of
       FetchFails \<Rightarrow> refused afterSeq Transient
     | NoBody r \<Rightarrow> refused afterSeq (if response_ok r then SSESchemaError (lit ''SSE response has no body'') else answer_error r)
     | Stream r reads \<Rightarrow>
         if \<not> response_ok r then refused afterSeq (answer_error r)
         else (let (n, events, e) = read_loop dl parser timeout afterSeq (ps_init parser) reads in
               \<lparr>cn_connected = True, cn_after = n, cn_events = events, cn_error = e\<rparr>))"

section \<open>Streams\<close>

record stream_options =
  so_afterSeq :: "int option"
  so_retryInitialMs :: "rat option"
  so_retryMaxMs :: "rat option"
  so_idleTimeoutMs :: "jsnum option"

definition retry_initial :: "stream_options \<Rightarrow> rat" where
  "retry_initial opts = (case so_retryInitialMs opts of Some t \<Rightarrow> t | None \<Rightarrow> 250)"

definition retry_max :: "stream_options \<Rightarrow> rat" where
  "retry_max opts = (case so_retryMaxMs opts of Some t \<Rightarrow> t | None \<Rightarrow> 10000)"

definition idle_timeout :: "stream_options \<Rightarrow> jsnum" where
  "idle_timeout opts = (case so_idleTimeoutMs opts of Some t \<Rightarrow> t | None \<Rightarrow> Fin 45000)"

datatype stream_output = Requested "int option" | Yielded jsval | Waited rat

datatype stream_outcome = Running | Threw stream_error

definition fatal :: "stream_error \<Rightarrow> bool" where
  "fatal e \<longleftrightarrow> (case e of SSESchemaError _ \<Rightarrow> True | API a \<Rightarrow> \<not> server_error (ae_status a) | _ \<Rightarrow> False)"

fun stream_loop :: "delivery \<Rightarrow> ('p, 'c) sse_parser \<Rightarrow> stream_options \<Rightarrow> int \<Rightarrow> rat \<Rightarrow> (int \<Rightarrow> 'c attempt) list \<Rightarrow> stream_output list \<times> stream_outcome" where
  "stream_loop dl parser opts afterSeq retryDelay [] = ([], Running)"
| "stream_loop dl parser opts afterSeq retryDelay (world # rest) =
     (let a = world afterSeq in
      if at_aborted a then ([], Threw AbortError)
      else
        (let c = connect dl parser (idle_timeout opts) afterSeq (at_fetched a);
             outs = Requested (if afterSeq > 0 then Some afterSeq else None) # map Yielded (cn_events c) in
         case cn_error c of
           None \<Rightarrow> (outs, Running)
         | Some e \<Rightarrow>
             if at_abortedCatch a then (outs, Threw AbortError)
             else if fatal e then (outs, Threw e)
             else
               (let delay = (if cn_connected c then retry_initial opts else retryDelay) in
                if at_abortedDelay a then (outs @ [Waited delay], Threw AbortError)
                else
                  (let (outs', res) = stream_loop dl parser opts (cn_after c) (min (delay * 2) (retry_max opts)) rest in
                   (outs @ Waited delay # outs', res)))))"

definition streamEvents :: "('p, 'c) sse_parser \<Rightarrow> stream_options \<Rightarrow> (int \<Rightarrow> 'c attempt) list \<Rightarrow> stream_output list \<times> stream_outcome" where
  "streamEvents parser opts worlds =
     stream_loop deliver parser opts (case so_afterSeq opts of Some n \<Rightarrow> n | None \<Rightarrow> 0) (retry_initial opts) worlds"

definition streamLiveEvents :: "('p, 'c) sse_parser \<Rightarrow> stream_options \<Rightarrow> (int \<Rightarrow> 'c attempt) list \<Rightarrow> stream_output list \<times> stream_outcome" where
  "streamLiveEvents parser opts worlds = stream_loop deliver_live parser opts 0 (retry_initial opts) worlds"

section \<open>Resumption\<close>

text \<open>\<open>resumes n outs\<close>: starting behind \<open>n\<close>, every request asks for what follows the last event that was delivered, and every event
  that is delivered follows it.\<close>

fun resumes :: "int \<Rightarrow> stream_output list \<Rightarrow> bool" where
  "resumes n [] = True"
| "resumes n (Requested r # outs) = (r = (if n > 0 then Some n else None) \<and> resumes n outs)"
| "resumes n (Yielded event # outs) = (n < seq event \<and> resumes (seq event) outs)"
| "resumes n (Waited t # outs) = resumes n outs"

definition yielded :: "stream_output list \<Rightarrow> jsval list" where
  "yielded outs = List.map_filter (\<lambda>out. case out of Yielded event \<Rightarrow> Some event | _ \<Rightarrow> None) outs"

lemma yielded_simps [simp]:
  "yielded [] = []" "yielded (Yielded event # outs) = event # yielded outs" "yielded (Requested r # outs) = yielded outs"
  "yielded (Waited t # outs) = yielded outs" "yielded (outs @ outs') = yielded outs @ yielded outs'" "yielded (map Yielded events) = events"
  by (simp_all add: yielded_def map_filter_def comp_def filter_map)

text \<open>The position a connection ends with: behind the last event it delivered.\<close>

definition position :: "int \<Rightarrow> jsval list \<Rightarrow> int" where
  "position n events = last (n # map seq events)"

lemma position_simps [simp]: "position n [] = n" "position n (event # events) = position (seq event) events"
  by (simp_all add: position_def)

lemma position_append [simp]: "position n (events @ events') = position (position n events) events'"
  by (induction events arbitrary: n) simp_all

lemma resumes_yielded: "resumes n (map Yielded events @ outs) \<longleftrightarrow> resumes n (map Yielded events) \<and> resumes (position n events) outs"
  by (induction events arbitrary: n) auto

lemma position_ge: "resumes n (map Yielded events) \<Longrightarrow> n \<le> position n events"
  by (induction events arbitrary: n) (auto intro: order_trans less_imp_le)

lemma deliver_resumes:
  "deliver n messages = (n', events, e) \<Longrightarrow> resumes n (map Yielded events) \<and> n' = position n events"
  by (induction n messages arbitrary: n' events e rule: deliver.induct) (auto simp: Let_def split: sum.splits if_splits prod.splits)

lemma read_loop_resumes:
  "read_loop deliver parser timeout n p reads = (n', events, e) \<Longrightarrow> resumes n (map Yielded events) \<and> n' = position n events"
proof (induction reads arbitrary: n p n' events e)
  case (Cons r reads)
  show ?case
  proof (cases "\<exists>c p' messages n1 es1. readWithIdleTimeout timeout r = Data c \<and> ps_feed parser p c = (p', messages, None) \<and> deliver n messages = (n1, es1, None)")
    case True
    then obtain c p' messages n1 es1 where d: "readWithIdleTimeout timeout r = Data c" "ps_feed parser p c = (p', messages, None)" "deliver n messages = (n1, es1, None)"
      by blast
    obtain n2 es2 e2 where r2: "read_loop deliver parser timeout n1 p' reads = (n2, es2, e2)" by (cases "read_loop deliver parser timeout n1 p' reads")
    from Cons.IH [OF r2] deliver_resumes [OF d(3)] Cons.prems d r2 show ?thesis by (auto simp: resumes_yielded)
  next
    case False
    with Cons.prems show ?thesis
      by (auto simp: Let_def deliver_resumes split: arrival.splits option.splits prod.splits dest: deliver_resumes)
  qed
qed simp

lemma connect_resumes:
  "resumes n (map Yielded (cn_events (connect deliver parser timeout n fetched)))"
  "cn_after (connect deliver parser timeout n fetched) = position n (cn_events (connect deliver parser timeout n fetched))"
  by (auto simp: connect_def refused_def Let_def split: fetched.splits prod.splits dest: read_loop_resumes)

lemma stream_loop_resumes: "resumes n (fst (stream_loop deliver parser opts n delay worlds))"
proof (induction worlds arbitrary: n delay)
  case (Cons world worlds)
  let ?c = "connect deliver parser (idle_timeout opts) n (at_fetched (world n))"
  note c = connect_resumes [where n = n and parser = parser and timeout = "idle_timeout opts" and fetched = "at_fetched (world n)"]
  have "resumes n (map Yielded (cn_events ?c) @ outs) \<longleftrightarrow> resumes (cn_after ?c) outs" for outs
    using c by (simp add: resumes_yielded)
  with c Cons.IH [of "cn_after ?c"] show ?case
    by (simp add: Let_def case_prod_beta split: option.split)
qed simp

text \<open>C15: However often the connection breaks, every request of the event stream resumes behind the last event that was delivered, and
  the sequence numbers of the delivered events increase strictly: no event is delivered twice.\<close>

theorem stream_resumes:
  "resumes (case so_afterSeq opts of Some n \<Rightarrow> n | None \<Rightarrow> 0) (fst (streamEvents parser opts worlds))"
  unfolding streamEvents_def by (rule stream_loop_resumes)

section \<open>Completeness\<close>

text \<open>The log of a session is the list of its events with the texts that carry them. An honest connection reports, in order, what the
  log has behind the position that was asked for, as far as the connection gets.\<close>

type_synonym event_log = "(jstring \<times> jsval) list"

definition log_ok :: "event_log \<Rightarrow> bool" where
  "log_ok entries \<longleftrightarrow> (\<forall>(text, event) \<in> set entries. decodeEvent text = Inr event) \<and> sorted_wrt (<) (map (seq \<circ> snd) entries)"

definition behind :: "event_log \<Rightarrow> int \<Rightarrow> event_log" where
  "behind entries n = filter (\<lambda>(text, event). n < seq event) entries"

fun reported :: "('p, 'c) sse_parser \<Rightarrow> 'p \<Rightarrow> 'c read list \<Rightarrow> jstring list" where
  "reported parser p (Chunk t c # reads) = (let (p', messages, failed) = ps_feed parser p c in messages @ reported parser p' reads)"
| "reported parser p _ = []"

definition reported_by :: "('p, 'c) sse_parser \<Rightarrow> 'c fetched \<Rightarrow> jstring list" where
  "reported_by parser fetched = (case fetched of Stream r reads \<Rightarrow> reported parser (ps_init parser) reads | _ \<Rightarrow> [])"

definition honest :: "('p, 'c) sse_parser \<Rightarrow> event_log \<Rightarrow> int \<Rightarrow> 'c fetched \<Rightarrow> bool" where
  "honest parser entries n fetched \<longleftrightarrow> prefix (reported_by parser fetched) (map fst (behind entries n))"

lemma behind_ok: "log_ok entries \<Longrightarrow> log_ok (behind entries n)"
  by (auto simp: log_ok_def behind_def sorted_wrt_map sorted_wrt_filter)

lemma behind_all: "\<forall>(text, event) \<in> set entries. n < seq event \<Longrightarrow> behind entries n = entries"
  by (auto simp: behind_def intro: filter_True)

lemma behind_behind: "n \<le> m \<Longrightarrow> behind (behind entries n) m = behind entries m"
  by (auto simp: behind_def intro!: filter_cong)

lemma behind_self: "behind (behind entries n) n = behind entries n"
  by (simp add: behind_behind)

lemma behind_Cons:
  assumes "log_ok ((text, event) # entries)"
  shows "behind ((text, event) # entries) (seq event) = entries"
  using assms by (auto simp: log_ok_def behind_def intro!: filter_True)

lemma log_ok_tl: "log_ok (x # entries) \<Longrightarrow> log_ok entries"
  by (auto simp: log_ok_def)

lemma deliver_log:
  assumes "log_ok entries" "behind entries n = entries" "map fst entries = messages @ others" "deliver n messages = (n', events, e)"
  shows "e = None \<and> events = map snd (take (length messages) entries) \<and> behind entries n' = drop (length messages) entries"
  using assms
proof (induction messages arbitrary: n entries n' events e)
  case (Cons d messages)
  from Cons.prems(3) obtain event rest where entries: "entries = (d, event) # rest" by (cases entries) auto
  with Cons.prems have dec: "decodeEvent d = Inr event" "n < seq event"
    by (auto simp: log_ok_def behind_def filter_eq_Cons_iff split: if_splits)
  obtain n1 es1 e1 where d1: "deliver (seq event) messages = (n1, es1, e1)" by (cases "deliver (seq event) messages")
  have rest: "behind rest (seq event) = rest" using behind_Cons Cons.prems(1) entries by (fastforce simp: behind_def)
  have "e1 = None \<and> es1 = map snd (take (length messages) rest) \<and> behind rest n1 = drop (length messages) rest"
    using Cons.IH [OF log_ok_tl rest _ d1] Cons.prems(1,3) entries by simp
  moreover have "seq event \<le> n1" using deliver_resumes [OF d1] position_ge by blast
  ultimately show ?case using Cons.prems(4) dec d1 entries by (auto simp: behind_def)
qed simp

lemma read_loop_log:
  assumes "log_ok entries" "behind entries n = entries" "prefix (reported parser p reads) (map fst entries)"
    and "read_loop deliver parser timeout n p reads = (n', events, e)"
  shows "\<exists>k. events = map snd (take k entries) \<and> behind entries n' = drop k entries"
  using assms
proof (induction reads arbitrary: n p n' events e entries)
  case Nil
  then show ?case by (intro exI [of _ 0]) simp
next
  case (Cons r reads)
  show ?case
  proof (cases "\<exists>t c p' messages. r = Chunk t c \<and> readWithIdleTimeout timeout r = Data c \<and> ps_feed parser p c = (p', messages, None)")
    case False
    with Cons.prems(2,4) have "events = []" "n' = n"
      by (auto simp: Let_def readWithIdleTimeout_def split: read.splits arrival.splits option.splits prod.splits if_splits jsnum.splits)
    with Cons.prems(2) show ?thesis by (intro exI [of _ 0]) simp
  next
    case True
    then obtain t c p' messages where c: "r = Chunk t c" "readWithIdleTimeout timeout r = Data c" "ps_feed parser p c = (p', messages, None)" by blast
    with Cons.prems(3) obtain others where m: "map fst entries = messages @ reported parser p' reads @ others" by (auto simp: prefix_def)
    obtain n1 es1 e1 where d1: "deliver n messages = (n1, es1, e1)" by (cases "deliver n messages")
    obtain n2 es2 e2 where r2: "read_loop deliver parser timeout n1 p' reads = (n2, es2, e2)" by (cases "read_loop deliver parser timeout n1 p' reads")
    let ?l = "length messages"
    from deliver_log [OF Cons.prems(1,2) m d1] have d: "e1 = None" "es1 = map snd (take ?l entries)" "behind entries n1 = drop ?l entries" by auto
    from m have "map fst (drop ?l entries) = reported parser p' reads @ others" by (simp add: drop_map [symmetric])
    then have "\<exists>k. es2 = map snd (take k (drop ?l entries)) \<and> behind (drop ?l entries) n2 = drop k (drop ?l entries)"
      using Cons.IH [of "drop ?l entries" n1 p' n2 es2 e2] behind_ok [OF Cons.prems(1), of n1] behind_self [of entries n1] d(3) r2 by (auto simp: prefix_def)
    then obtain k where k: "es2 = map snd (take k (drop ?l entries))" "behind (drop ?l entries) n2 = drop k (drop ?l entries)" by blast
    have "n1 \<le> n2" using read_loop_resumes [OF r2] position_ge by blast
    then have "behind entries n2 = drop (k + ?l) entries" using behind_behind [of n1 n2 entries] d(3) k(2) by (simp add: add.commute)
    moreover have "events = map snd (take (k + ?l) entries)" "n' = n2"
      using Cons.prems(4) c d1 d(1,2) r2 k(1) by (auto simp: take_add add.commute [of k])
    ultimately show ?thesis by blast
  qed
qed

lemma connect_log:
  assumes "log_ok entries" "honest parser entries n fetched"
  shows "\<exists>k. cn_events (connect deliver parser timeout n fetched) = map snd (take k (behind entries n))
    \<and> behind entries (cn_after (connect deliver parser timeout n fetched)) = drop k (behind entries n)"
proof -
  let ?c = "connect deliver parser timeout n fetched"
  have ge: "n \<le> cn_after ?c" using connect_resumes [where n = n and parser = parser and timeout = timeout and fetched = fetched] position_ge by metis
  have "\<exists>k. cn_events ?c = map snd (take k (behind entries n)) \<and> behind (behind entries n) (cn_after ?c) = drop k (behind entries n)"
  proof (cases "\<exists>r reads. fetched = Stream r reads \<and> response_ok r")
    case True
    then obtain r reads where f: "fetched = Stream r reads" "response_ok r" by blast
    obtain n' events e where l: "read_loop deliver parser timeout n (ps_init parser) reads = (n', events, e)"
      by (cases "read_loop deliver parser timeout n (ps_init parser) reads")
    from read_loop_log [OF behind_ok [OF assms(1)] behind_self _ l] assms(2) f l show ?thesis
      by (auto simp: connect_def honest_def reported_by_def)
  next
    case False
    then show ?thesis by (intro exI [of _ 0]) (auto simp: connect_def refused_def behind_self split: fetched.split)
  qed
  with ge show ?thesis by (simp add: behind_behind)
qed

fun clean :: "('p, 'c) sse_parser \<Rightarrow> jsnum \<Rightarrow> 'p \<Rightarrow> 'c read list \<Rightarrow> bool" where
  "clean parser timeout p [] = True"
| "clean parser timeout p (Chunk t c # reads) = (\<not> timed_out timeout t \<and> (let (p', messages, failed) = ps_feed parser p c in failed = None \<and> clean parser timeout p' reads))"
| "clean parser timeout p _ = False"

text \<open>An attempt that fails on the way and is repeated, and one that gets through to the end of the log and stays open.\<close>

definition drops :: "('p, 'c) sse_parser \<Rightarrow> jsnum \<Rightarrow> int \<Rightarrow> 'c attempt \<Rightarrow> bool" where
  "drops parser timeout n a \<longleftrightarrow> \<not> at_aborted a \<and> \<not> at_abortedCatch a \<and> \<not> at_abortedDelay a
     \<and> cn_error (connect deliver parser timeout n (at_fetched a)) = Some Transient"

definition catches_up :: "('p, 'c) sse_parser \<Rightarrow> jsnum \<Rightarrow> event_log \<Rightarrow> int \<Rightarrow> 'c attempt \<Rightarrow> bool" where
  "catches_up parser timeout entries n a \<longleftrightarrow> \<not> at_aborted a \<and> (case at_fetched a of
       Stream r reads \<Rightarrow> response_ok r \<and> clean parser timeout (ps_init parser) reads
         \<and> reported parser (ps_init parser) reads = map fst (behind entries n)
     | _ \<Rightarrow> False)"

lemma read_loop_clean:
  assumes "log_ok entries" "behind entries n = entries" "clean parser timeout p reads" "reported parser p reads = map fst entries"
  shows "\<exists>n'. read_loop deliver parser timeout n p reads = (n', map snd entries, None)"
  using assms
proof (induction reads arbitrary: n p entries)
  case (Cons r reads)
  then obtain t c p' messages where c: "r = Chunk t c" "\<not> timed_out timeout t" "ps_feed parser p c = (p', messages, None)" "clean parser timeout p' reads"
    by (cases r) auto
  with Cons.prems(4) have m: "map fst entries = messages @ reported parser p' reads" by simp
  obtain n1 es1 e1 where d1: "deliver n messages = (n1, es1, e1)" by (cases "deliver n messages")
  let ?l = "length messages"
  from deliver_log [OF Cons.prems(1,2) m d1] have d: "e1 = None" "es1 = map snd (take ?l entries)" "behind entries n1 = drop ?l entries" by auto
  from m have "reported parser p' reads = map fst (drop ?l entries)" by (simp add: drop_map [symmetric])
  then obtain n2 where "read_loop deliver parser timeout n1 p' reads = (n2, map snd (drop ?l entries), None)"
    using Cons.IH [of "drop ?l entries" n1 p'] behind_ok [OF Cons.prems(1), of n1] behind_self [of entries n1] d(3) c(4) by auto
  with c d1 d show ?case by (simp add: readWithIdleTimeout_def map_append [symmetric] del: map_append)
qed simp

lemma stream_loop_complete:
  assumes "log_ok entries" "\<forall>w \<in> set worlds. \<forall>n. honest parser entries n (at_fetched (w n)) \<and> drops parser (idle_timeout opts) n (w n)"
    and "\<forall>n. catches_up parser (idle_timeout opts) entries n (final n)"
  shows "yielded (fst (stream_loop deliver parser opts n delay (worlds @ [final]))) = map snd (behind entries n)
    \<and> snd (stream_loop deliver parser opts n delay (worlds @ [final])) = Running"
  using assms(2)
proof (induction worlds arbitrary: n delay)
  case Nil
  from assms(3) obtain r reads where f: "at_fetched (final n) = Stream r reads" "response_ok r" "\<not> at_aborted (final n)"
      "clean parser (idle_timeout opts) (ps_init parser) reads" "reported parser (ps_init parser) reads = map fst (behind entries n)"
    by (cases "at_fetched (final n)") (auto simp: catches_up_def dest!: spec [of _ n])
  with read_loop_clean [OF behind_ok [OF assms(1)] behind_self f(4,5)] show ?case by (auto simp: connect_def simp del: map_map)
next
  case (Cons w worlds)
  let ?c = "connect deliver parser (idle_timeout opts) n (at_fetched (w n))"
  from Cons.prems have w: "honest parser entries n (at_fetched (w n))" "drops parser (idle_timeout opts) n (w n)" by auto
  from connect_log [OF assms(1) w(1), of "idle_timeout opts"] obtain k where k: "cn_events ?c = map snd (take k (behind entries n))"
      "behind entries (cn_after ?c) = drop k (behind entries n)" by blast
  note ih = Cons.IH [of "cn_after ?c"]
  have "map snd (take k (behind entries n)) @ map snd (drop k (behind entries n)) = map snd (behind entries n)"
    by (simp add: map_append [symmetric] del: map_append)
  with ih Cons.prems k w(2) show ?case by (simp add: drops_def Let_def case_prod_beta fatal_def del: map_map)
qed

text \<open>C16: The event stream loses nothing: however the connections before were cut, once a connection reports the log to its end, the
  events that were delivered are exactly those of the log behind the starting position, in order.\<close>

theorem stream_complete:
  assumes "log_ok entries"
    and "\<forall>w \<in> set worlds. \<forall>n. honest parser entries n (at_fetched (w n)) \<and> drops parser (idle_timeout opts) n (w n)"
    and "\<forall>n. catches_up parser (idle_timeout opts) entries n (final n)"
  shows "yielded (fst (streamEvents parser opts (worlds @ [final]))) = map snd (behind entries (case so_afterSeq opts of Some n \<Rightarrow> n | None \<Rightarrow> 0))
    \<and> snd (streamEvents parser opts (worlds @ [final])) = Running"
  unfolding streamEvents_def by (rule stream_loop_complete [OF assms])

text \<open>A parser whose chunks are lists of messages, and a log of two events.\<close>

definition list_parser :: "(unit, jstring list) sse_parser" where
  "list_parser = \<lparr>ps_init = (), ps_feed = (\<lambda>p messages. (p, messages, None)), ps_flush = (\<lambda>p. None)\<rparr>"

definition event_text :: "int \<Rightarrow> jstring" where
  "event_text c = [123, 34, 115, 101, 113, 34, 58, c, 44, 34, 116, 121, 112, 101, 34, 58, 34, 97, 34, 44, 34, 99, 114, 101, 97, 116, 101, 100, 95, 97, 116, 34, 58, 34, 98, 34, 125]"

definition event_value :: "int \<Rightarrow> jsval" where
  "event_value n = jobj [(''seq'', jint n), (''type'', jlit ''a''), (''created_at'', jlit ''b'')]"

definition two_events :: event_log where
  "two_events = [(event_text 49, event_value 1), (event_text 50, event_value 2)]"

definition stream_ok :: response where
  "stream_ok = \<lparr>rp_status = 200, rp_statusText = lit ''OK'', rp_requestId = None, rp_json = None\<rparr>"

definition default_options :: stream_options where
  "default_options = \<lparr>so_afterSeq = None, so_retryInitialMs = None, so_retryMaxMs = None, so_idleTimeoutMs = None\<rparr>"

text \<open>The first connection closes after one event, the second one reports the rest.\<close>

definition cut_after_one :: "int \<Rightarrow> jstring list attempt" where
  "cut_after_one n = \<lparr>at_aborted = False, at_fetched = Stream stream_ok [Chunk 5 (take 1 (map fst (behind two_events n))), Done 9],
     at_abortedCatch = False, at_abortedDelay = False\<rparr>"

definition the_rest :: "int \<Rightarrow> jstring list attempt" where
  "the_rest n = \<lparr>at_aborted = False, at_fetched = Stream stream_ok [Chunk 5 (map fst (behind two_events n))],
     at_abortedCatch = False, at_abortedDelay = False\<rparr>"

lemma two_events_ok: "log_ok two_events"
proof -
  have "decodeEvent (event_text 49) = Inr (event_value 1)" "decodeEvent (event_text 50) = Inr (event_value 2)" by code_simp+
  moreover have "seq (event_value 1) = 1" "seq (event_value 2) = 2" by code_simp+
  ultimately show ?thesis by (simp add: log_ok_def two_events_def)
qed

lemma deliver_behind:
  assumes "log_ok entries"
  shows "\<exists>n' events. deliver n (take k (map fst (behind entries n))) = (n', events, None)"
proof -
  obtain n' events e where d: "deliver n (take k (map fst (behind entries n))) = (n', events, e)"
    by (cases "deliver n (take k (map fst (behind entries n)))")
  have "map fst (behind entries n) = take k (map fst (behind entries n)) @ drop k (map fst (behind entries n))" by simp
  from deliver_log [OF behind_ok [OF assms] behind_self this d] d show ?thesis by simp
qed

lemma cut_after_one_drops:
  "honest list_parser two_events n (at_fetched (cut_after_one n)) \<and> drops list_parser (idle_timeout default_options) n (cut_after_one n)"
  using deliver_behind [OF two_events_ok, of n 1]
  by (auto simp: honest_def reported_by_def cut_after_one_def list_parser_def take_is_prefix drops_def connect_def stream_ok_def
      response_ok_def readWithIdleTimeout_def timed_out_def idle_timeout_def default_options_def)

lemma the_rest_catches_up: "catches_up list_parser (idle_timeout default_options) two_events n (the_rest n)"
  by (simp add: catches_up_def the_rest_def list_parser_def stream_ok_def response_ok_def timed_out_def idle_timeout_def default_options_def)

theorem stream_complete_witness:
  "yielded (fst (streamEvents list_parser default_options ([cut_after_one] @ [the_rest]))) = [event_value 1, event_value 2]"
proof -
  have "yielded (fst (streamEvents list_parser default_options ([cut_after_one] @ [the_rest])))
      = map snd (behind two_events (case so_afterSeq default_options of Some n \<Rightarrow> n | None \<Rightarrow> 0))"
    using stream_complete [OF two_events_ok, of "[cut_after_one]" list_parser default_options the_rest] cut_after_one_drops the_rest_catches_up
    by (simp del: append.simps)
  moreover have "map snd (behind two_events (case so_afterSeq default_options of Some n \<Rightarrow> n | None \<Rightarrow> 0)) = [event_value 1, event_value 2]"
    by code_simp
  ultimately show ?thesis by simp
qed

section \<open>Errors and waits\<close>

lemma read_loop_errors:
  assumes "\<And>n messages n' events e. dl n messages = (n', events, Some e) \<Longrightarrow> \<exists>m. e = SSESchemaError m"
  shows "read_loop dl parser timeout n p reads = (n', events, Some e) \<Longrightarrow> e = Transient \<or> (\<exists>m. e = SSESchemaError m)"
proof (induction reads arbitrary: n p n' events)
  case (Cons r reads)
  then show ?case
    by (auto simp: Let_def split: arrival.splits option.splits prod.splits dest: assms)
qed simp

lemma decodeEvent_errors: "decodeEvent data = Inl e \<Longrightarrow> \<exists>m. e = SSESchemaError m"
  by (auto simp: decodeEvent_def split: option.splits if_splits)

lemma decodeLiveEvent_errors: "decodeLiveEvent data = Inl e \<Longrightarrow> \<exists>m. e = SSESchemaError m"
  by (auto simp: decodeLiveEvent_def split: option.splits if_splits)

lemma deliver_errors: "deliver n messages = (n', events, Some e) \<Longrightarrow> \<exists>m. e = SSESchemaError m"
  by (induction n messages arbitrary: n' events rule: deliver.induct)
    (auto simp: Let_def split: sum.splits if_splits prod.splits dest: decodeEvent_errors)

lemma deliver_live_errors: "deliver_live n messages = (n', events, Some e) \<Longrightarrow> \<exists>m. e = SSESchemaError m"
  by (induction n messages arbitrary: n' events rule: deliver_live.induct)
    (auto simp: Let_def split: sum.splits prod.splits dest: decodeLiveEvent_errors)

text \<open>What may come out of a stream: an abort, a schema error, or the answer of the server to a request it refused; never an error
  that is retried.\<close>

definition reportable :: "stream_outcome \<Rightarrow> bool" where
  "reportable res \<longleftrightarrow> (case res of Running \<Rightarrow> True | Threw Transient \<Rightarrow> False | Threw (API a) \<Rightarrow> \<not> server_error (ae_status a) | _ \<Rightarrow> True)"

lemma fatal_reportable: "fatal e \<Longrightarrow> reportable (Threw e)"
  by (cases e) (auto simp: fatal_def reportable_def)

lemma stream_loop_reportable: "reportable (snd (stream_loop dl parser opts n delay worlds))"
proof (induction worlds arbitrary: n delay)
  case (Cons w worlds)
  then show ?case
    by (auto simp: Let_def case_prod_beta fatal_reportable reportable_def [of Running] reportable_def [of "Threw AbortError"] split: option.split)
qed (simp add: reportable_def)

fun waits :: "stream_output list \<Rightarrow> rat list" where
  "waits [] = []"
| "waits (Waited t # outs) = t # waits outs"
| "waits (_ # outs) = waits outs"

lemma waits_append [simp]: "waits (outs @ outs') = waits outs @ waits outs'" "waits (map Yielded events) = []"
  by (induction outs rule: waits.induct) (simp_all, induction events, simp_all)

lemma stream_loop_waits:
  "delay \<le> max (retry_initial opts) (retry_max opts)
    \<Longrightarrow> \<forall>t \<in> set (waits (fst (stream_loop dl parser opts n delay worlds))). t \<le> max (retry_initial opts) (retry_max opts)"
proof (induction worlds arbitrary: n delay)
  case (Cons w worlds)
  let ?c = "connect dl parser (idle_timeout opts) n (at_fetched (w n))"
  let ?d = "if cn_connected ?c then retry_initial opts else delay"
  have "min (?d * 2) (retry_max opts) \<le> max (retry_initial opts) (retry_max opts)" by simp
  from Cons.IH [OF this, of "cn_after ?c"] Cons.prems show ?case
    by (auto simp: Let_def case_prod_beta split: option.splits if_splits)
qed simp

section \<open>Transport\<close>

text \<open>A \<open>Headers\<close> object maps lower-case names to values. \<open>protocol_of\<close> stands for the protocol that \<open>new URL\<close> finds in a text
  (\<open>None\<close> when it throws), \<open>with_protocol\<close> for the setter of the protocol.\<close>

type_synonym headers = "(jstring, jstring) jmap"

definition headers_set :: "headers \<Rightarrow> jstring \<Rightarrow> jstring \<Rightarrow> headers" where
  "headers_set h name v = map_set h (to_lower name) (trim v)"

definition headers_append :: "headers \<Rightarrow> jstring \<times> jstring \<Rightarrow> headers" where
  "headers_append h nv = (case map_get h (to_lower (fst nv)) of
       None \<Rightarrow> headers_set h (fst nv) (snd nv)
     | Some v \<Rightarrow> map_set h (to_lower (fst nv)) (v @ lit '', '' @ trim (snd nv)))"

definition new_headers :: "(jstring \<times> jstring) list \<Rightarrow> headers" where
  "new_headers init = foldl headers_append [] init"

record transport =
  tr_baseURL :: jstring
  tr_staticToken :: jstring
  tr_tokenSource :: "jstring option option"
  tr_defaultHeaders :: headers

datatype transport_error = InvalidURL | NotHTTP

definition strip_slashes :: "jstring \<Rightarrow> jstring" where
  "strip_slashes s = rev (dropWhile (\<lambda>c. c = 47) (rev s))"

text \<open>\<open>token_source\<close> is what a given \<open>tokenSource\<close> answers; the \<open>fetch\<close> to use is the world's.\<close>

definition new_transport :: "(jstring \<Rightarrow> jstring option) \<Rightarrow> jstring \<Rightarrow> jstring option \<Rightarrow> jstring option option \<Rightarrow> (jstring \<times> jstring) list
    \<Rightarrow> transport_error + transport" where
  "new_transport protocol_of baseURL token token_source default_headers = (case protocol_of (trim baseURL) of
       None \<Rightarrow> Inl InvalidURL
     | Some protocol \<Rightarrow>
         if protocol \<noteq> lit ''http:'' \<and> protocol \<noteq> lit ''https:'' then Inl NotHTTP
         else Inr \<lparr>tr_baseURL = strip_slashes (trim baseURL), tr_staticToken = (case token of Some t \<Rightarrow> trim t | None \<Rightarrow> []),
                   tr_tokenSource = token_source, tr_defaultHeaders = new_headers default_headers\<rparr>)"

definition url :: "transport \<Rightarrow> jstring \<Rightarrow> jstring" where
  "url tr path = tr_baseURL tr @ (if starts_with path (lit ''/'') then path else 47 # path)"

definition socket_protocol :: "jstring \<Rightarrow> jstring" where
  "socket_protocol protocol = (if protocol = lit ''https:'' then lit ''wss:'' else lit ''ws:'')"

definition web_socket_url :: "(jstring \<Rightarrow> jstring option) \<Rightarrow> (jstring \<Rightarrow> jstring \<Rightarrow> jstring) \<Rightarrow> transport \<Rightarrow> jstring \<Rightarrow> jstring option" where
  "web_socket_url protocol_of with_protocol tr path =
     map_option (\<lambda>protocol. with_protocol (url tr path) (socket_protocol protocol)) (protocol_of (url tr path))"

definition add_default :: "headers \<Rightarrow> jstring \<times> jstring \<Rightarrow> headers" where
  "add_default h nv = (if map_has h (fst nv) then h else map_set h (fst nv) (snd nv))"

definition token :: "transport \<Rightarrow> jstring" where
  "token tr = (if tr_staticToken tr \<noteq> [] then tr_staticToken tr
     else case tr_tokenSource tr of Some (Some t) \<Rightarrow> t | _ \<Rightarrow> [])"

text \<open>The headers \<open>fetch\<close> sends: those of the input, the defaults where they are missing, those of the call, and the token.\<close>

definition request_headers :: "transport \<Rightarrow> headers \<Rightarrow> (jstring \<times> jstring) list \<Rightarrow> headers" where
  "request_headers tr input init =
     (let h = foldl add_default input (tr_defaultHeaders tr);
          h = foldl (\<lambda>h (name, v). map_set h name v) h (new_headers init) in
      if token tr \<noteq> [] then headers_set h (lit ''Authorization'') (lit ''Bearer '' @ token tr) else h)"

record sdk_request =
  rq_method :: jstring
  rq_url :: jstring
  rq_headers :: headers
  rq_body :: "jstring option"

definition json_request :: "transport \<Rightarrow> jstring \<Rightarrow> jstring \<Rightarrow> jsval \<Rightarrow> (jstring \<times> jstring) list \<Rightarrow> sdk_request" where
  "json_request tr method path body init =
     (let h = headers_set (new_headers init) (lit ''Accept'') (lit ''application/json'');
          h = (if body \<noteq> JUndef then headers_set h (lit ''Content-Type'') (lit ''application/json'') else h) in
      \<lparr>rq_method = method, rq_url = url tr path, rq_headers = request_headers tr [] h,
       rq_body = (if body \<noteq> JUndef then stringify body else None)\<rparr>)"

datatype json_result = Refused api_error | NoContent | Decoded jsval | NotJSON

definition json_answer :: "response \<Rightarrow> json_result" where
  "json_answer r = (if \<not> response_ok r then Refused (fromResponse r) else if rp_status r = 204 then NoContent
     else case rp_json r of Some v \<Rightarrow> Decoded v | None \<Rightarrow> NotJSON)"

definition requestJSON :: "(sdk_request \<Rightarrow> response) \<Rightarrow> transport \<Rightarrow> jstring \<Rightarrow> jstring \<Rightarrow> jsval \<Rightarrow> (jstring \<times> jstring) list \<Rightarrow> json_result" where
  "requestJSON server tr method path body init = json_answer (server (json_request tr method path body init))"

definition plain_request :: "(sdk_request \<Rightarrow> response) \<Rightarrow> transport \<Rightarrow> jstring \<Rightarrow> jstring \<Rightarrow> (jstring \<times> jstring) list \<Rightarrow> jstring option \<Rightarrow> api_error + response" where
  "plain_request server tr method path init body =
     (let r = server \<lparr>rq_method = method, rq_url = url tr path, rq_headers = request_headers tr [] init, rq_body = body\<rparr> in
      if response_ok r then Inr r else Inl (fromResponse r))"

lemma map_ok_map_set: "map_ok h \<Longrightarrow> map_ok (map_set h k v)"
  by (auto simp: map_ok_def keys_map_set map_has_def)

lemma map_ok_headers_append: "map_ok h \<Longrightarrow> map_ok (headers_append h nv)"
  by (simp add: headers_append_def headers_set_def map_ok_map_set split: option.split)

lemma map_ok_new_headers: "map_ok (new_headers init)"
proof -
  have "map_ok h \<Longrightarrow> map_ok (foldl headers_append h init)" for h
    by (induction init arbitrary: h) (simp_all add: map_ok_headers_append)
  then show ?thesis by (simp add: new_headers_def)
qed

lemma map_get_Cons: "map_get (d # m) k = (if k = fst d then Some (snd d) else map_get m k)"
  by (simp add: map_get_def)

lemma foldl_add_default:
  "map_get (foldl add_default h defaults) k = (case map_get h k of Some v \<Rightarrow> Some v | None \<Rightarrow> map_get defaults k)"
proof (induction defaults arbitrary: h)
  case (Cons d defaults)
  show ?case
    by (subst foldl_Cons, subst Cons.IH)
      (auto simp: add_default_def map_has_iff map_get_set map_get_Cons split: option.split)
qed (simp split: option.split)

lemma foldl_map_set:
  "map_ok m \<Longrightarrow> map_get (foldl (\<lambda>h (name, v). map_set h name v) h m) k = (case map_get m k of Some v \<Rightarrow> Some v | None \<Rightarrow> map_get h k)"
proof (induction m arbitrary: h)
  case (Cons d m)
  then have "map_ok m" "map_get m (fst d) = None"
    by (auto simp: map_ok_def map_get_def map_of_eq_None_iff)
  with Cons.IH [of "map_set h (fst d) (snd d)"] show ?case
    by (auto simp: case_prod_beta map_get_set map_get_Cons split: option.split)
qed (simp split: option.split)

text \<open>The header of a request: a header of the call wins over one of the input, and this one over a default; the token decides the
  authorization whenever there is one.\<close>

lemma request_header:
  "map_get (request_headers tr input init) name =
     (if token tr \<noteq> [] \<and> name = lit ''authorization'' then Some (trim (lit ''Bearer '' @ token tr))
      else case map_get (new_headers init) name of
        Some v \<Rightarrow> Some v
      | None \<Rightarrow> (case map_get input name of Some v \<Rightarrow> Some v | None \<Rightarrow> map_get (tr_defaultHeaders tr) name))"
proof -
  have "to_lower (lit ''Authorization'') = lit ''authorization''" by code_simp
  then show ?thesis
    by (auto simp: request_headers_def Let_def headers_set_def map_get_set foldl_map_set [OF map_ok_new_headers] foldl_add_default split: option.split)
qed

end
