(* ===== verification/Multimodal_Realtime.thy ===== *)
theory Multimodal_Realtime
  imports JS_JSON JS_URI "HOL-Library.Word" "HOL-Library.Sublist"
begin

text \<open>
  Multimodal realtime sessions of the TypeScript SDK (\<open>sdk/typescript/src/multimodal-realtime.ts\<close>): the binary format of media
  frames, and the session over a web socket with its event buffer and the credit that bounds what may be sent.

  Bytes are \<open>8 word\<close>s and the flags are tested as 32-bit words, as JavaScript does; sequence numbers and time stamps are numbers
  until they are written into the frame. Names that TypeScript makes unions of literals are strings here, because the code tests them.

  The session is a record with the fields of the class. An asynchronous operation is split where it awaits: a read that waits is an
  entry of \<open>rs_waiters\<close>, a transmission that waits for credit an entry of \<open>rs_creditWaiters\<close>, one that was woken of \<open>rs_woken\<close>, and
  one whose credit is reserved of \<open>rs_reserved\<close> until it is handed to the socket. \<open>rs_settled\<close> and \<open>rs_outcomes\<close> record how reads and
  transmissions ended, \<open>rs_wire\<close> what was sent.
\<close>

unbundle bit_operations_syntax

section \<open>Media frames\<close>

type_synonym byte = "8 word"

datatype rt_error = TypeErr string | RangeErr string | Failed jstring | SyntaxErr | Aborted
  | Remote jstring jstring jsval jsval jsval

definition MULTIMODAL_REALTIME_PROTOCOL :: jstring where
  "MULTIMODAL_REALTIME_PROTOCOL = lit ''tma.multimodal.realtime.v1''"

definition MULTIMODAL_MEDIA_HEADER_BYTES :: int where
  "MULTIMODAL_MEDIA_HEADER_BYTES = 28"

definition MULTIMODAL_MAX_TRACK_ID_BYTES :: int where
  "MULTIMODAL_MAX_TRACK_ID_BYTES = 64"

definition MULTIMODAL_MAX_FRAME_BYTES :: int where
  "MULTIMODAL_MAX_FRAME_BYTES = 4 * 2 ^ 20"

definition MULTIMODAL_MAX_IN_FLIGHT_BYTES :: int where
  "MULTIMODAL_MAX_IN_FLIGHT_BYTES = 16 * 2 ^ 20"

definition MULTIMODAL_MAX_IN_FLIGHT_FRAMES :: int where
  "MULTIMODAL_MAX_IN_FLIGHT_FRAMES = 8"

definition Discontinuity :: "32 word" where
  "Discontinuity = 4"

definition allowedMediaFlags :: "32 word" where
  "allowedMediaFlags = 1 OR 2 OR Discontinuity"

record media_frame =
  fr_kind :: jstring
  fr_flags :: "jsnum option"
  fr_sequence :: jsnum
  fr_timestamp :: jsnum
  fr_track :: jstring
  fr_payload :: "byte list"

definition positiveSafeInteger :: "jsnum \<Rightarrow> bool" where
  "positiveSafeInteger v \<longleftrightarrow> safe_integer v \<and> num_less (Fin 0) v"

definition nonNegativeSafeInteger :: "jsnum \<Rightarrow> bool" where
  "nonNegativeSafeInteger v \<longleftrightarrow> safe_integer v \<and> \<not> num_less v (Fin 0)"

definition int_of :: "jsnum \<Rightarrow> int" where
  "int_of v = \<lfloor>num_val v\<rfloor>"

text \<open>\<open>TextEncoder\<close>: UTF-8, a lone surrogate becomes U+FFFD. \<open>TextDecoder\<close> with \<open>fatal\<close>: bytes that are not UTF-8 throw, a byte order
  mark at the start is dropped.\<close>

definition utf8_point :: "int \<Rightarrow> int list" where
  "utf8_point v =
     (if v < 128 then [v] else if v < 2048 then [192 + v div 64, 128 + v mod 64]
      else if v < 65536 then [224 + v div 4096, 128 + (v div 64) mod 64, 128 + v mod 64]
      else [240 + v div 262144, 128 + (v div 4096) mod 64, 128 + (v div 64) mod 64, 128 + v mod 64])"

definition utf8_unit :: "int \<Rightarrow> int list" where
  "utf8_unit c = (if high_surrogate c \<or> low_surrogate c then [239, 191, 189] else utf8_point c)"

fun text_encode :: "jstring \<Rightarrow> int list" where
  "text_encode [] = []"
| "text_encode [c] = utf8_unit c"
| "text_encode (c # d # s) = (if high_surrogate c \<and> low_surrogate d
     then utf8_point (65536 + (c - 55296) * 1024 + (d - 56320)) @ text_encode s else utf8_unit c @ text_encode (d # s))"

definition strip_bom :: "jstring \<Rightarrow> jstring" where
  "strip_bom s = (case s of c # r \<Rightarrow> if c = 65279 then r else s | [] \<Rightarrow> [])"

definition text_decode :: "byte list \<Rightarrow> jstring option" where
  "text_decode bs = map_option strip_bom (decodeURIComponent (concat (map (\<lambda>b. percent (uint b)) bs)))"

definition printable :: "int \<Rightarrow> bool" where
  "printable b \<longleftrightarrow> 33 \<le> b \<and> b \<le> 126"

definition media_kinds :: "jstring list" where
  "media_kinds = [lit ''audio'', lit ''image'', lit ''video'']"

definition flags_value :: "media_frame \<Rightarrow> jsnum" where
  "flags_value f = (case fr_flags f of Some n \<Rightarrow> n | None \<Rightarrow> Fin 0)"

definition flags_word :: "media_frame \<Rightarrow> 32 word" where
  "flags_word f = word_of_int (int_of (flags_value f))"

definition validateMediaFrame :: "media_frame \<Rightarrow> rt_error + unit" where
  "validateMediaFrame f =
     (let flags = flags_value f; track = text_encode (fr_track f) in
      if fr_kind f \<notin> set media_kinds \<or> \<not> positiveSafeInteger (fr_sequence f) \<or> \<not> nonNegativeSafeInteger (fr_timestamp f)
         \<or> length track < 1 \<or> int (length track) > MULTIMODAL_MAX_TRACK_ID_BYTES \<or> length (fr_payload f) < 1
         \<or> int (length (fr_payload f)) > MULTIMODAL_MAX_FRAME_BYTES \<or> \<not> is_integer flags \<or> num_less flags (Fin 0)
         \<or> flags_word f AND NOT allowedMediaFlags \<noteq> 0
      then Inl (TypeErr ''Invalid multimodal media frame'')
      else if \<not> list_all printable track then Inl (TypeErr ''Multimodal track ID must be printable ASCII'')
      else Inr ())"

definition mediaKindCode :: "jstring \<Rightarrow> byte" where
  "mediaKindCode kind = (if kind = lit ''audio'' then 1 else if kind = lit ''image'' then 2 else 3)"

definition mediaKindName :: "byte \<Rightarrow> rt_error + jstring" where
  "mediaKindName code = (if code = 1 then Inr (lit ''audio'') else if code = 2 then Inr (lit ''image'') else if code = 3 then Inr (lit ''video'')
     else Inl (TypeErr ''Invalid multimodal media kind''))"

text \<open>\<open>DataView\<close>: \<open>n\<close> bytes, the most significant first; a larger value is cut off.\<close>

fun be_bytes :: "nat \<Rightarrow> int \<Rightarrow> byte list" where
  "be_bytes 0 v = []"
| "be_bytes (Suc n) v = be_bytes n (v div 256) @ [word_of_int v]"

definition be_value :: "byte list \<Rightarrow> int" where
  "be_value bs = foldl (\<lambda>a b. a * 256 + uint b) 0 bs"

definition safeBigIntNumber :: "int \<Rightarrow> rt_error + jsnum" where
  "safeBigIntNumber v = (if v > 9007199254740991 then Inl (RangeErr ''Multimodal integer exceeds JavaScript safe range'') else Inr (Fin (of_int v)))"

definition encodeMultimodalMediaFrame :: "media_frame \<Rightarrow> rt_error + byte list" where
  "encodeMultimodalMediaFrame f = andThen (validateMediaFrame f) (\<lambda>_.
     let track = text_encode (fr_track f) in
     Inr ([84, 77, 65, 77, 1, mediaKindCode (fr_kind f)] @ be_bytes 2 (int_of (flags_value f)) @ be_bytes 8 (int_of (fr_sequence f))
       @ be_bytes 8 (int_of (fr_timestamp f)) @ be_bytes 2 (int (length track)) @ [0, 0] @ map word_of_int track @ fr_payload f))"

definition decodeMultimodalMediaFrame :: "byte list \<Rightarrow> rt_error + media_frame" where
  "decodeMultimodalMediaFrame encoded =
     (if length encoded < 28 \<or> take 5 encoded \<noteq> [84, 77, 65, 77, 1] \<or> encoded ! 26 \<noteq> 0 \<or> encoded ! 27 \<noteq> 0
      then Inl (TypeErr ''Invalid multimodal media frame header'')
      else
        (let trackLength = be_value (take 2 (drop 24 encoded)) in
         if trackLength < 1 \<or> trackLength > MULTIMODAL_MAX_TRACK_ID_BYTES \<or> int (length encoded) \<le> MULTIMODAL_MEDIA_HEADER_BYTES + trackLength
         then Inl (TypeErr ''Invalid multimodal media frame track or payload'')
         else
           andThen (mediaKindName (encoded ! 5)) (\<lambda>kind.
           andThen (safeBigIntNumber (be_value (take 8 (drop 8 encoded)))) (\<lambda>sequence.
           andThen (safeBigIntNumber (be_value (take 8 (drop 16 encoded)))) (\<lambda>timestamp.
           case text_decode (take (nat trackLength) (drop 28 encoded)) of
             None \<Rightarrow> Inl (TypeErr ''The encoded data was not valid for encoding utf-8'')
           | Some track \<Rightarrow>
               (let f = \<lparr>fr_kind = kind, fr_flags = Some (Fin (of_int (be_value (take 2 (drop 6 encoded))))), fr_sequence = sequence,
                         fr_timestamp = timestamp, fr_track = track, fr_payload = drop (28 + nat trackLength) encoded\<rparr> in
                andThen (validateMediaFrame f) (\<lambda>_. Inr f)))))))"

subsection \<open>Numbers and track ids in a frame\<close>

lemma length_be_bytes [simp]: "length (be_bytes n v) = n"
  by (induction n arbitrary: v) simp_all

lemma be_value_snoc: "be_value (bs @ [b]) = be_value bs * 256 + uint b"
  by (simp add: be_value_def)

lemma be_value_be_bytes: "0 \<le> v \<Longrightarrow> v < 256 ^ n \<Longrightarrow> be_value (be_bytes n v) = v"
proof (induction n arbitrary: v)
  case 0
  then show ?case by (simp add: be_value_def)
next
  case (Suc n)
  then have "be_value (be_bytes n (v div 256)) = v div 256" by (intro Suc.IH) auto
  then show ?case by (simp add: be_value_snoc uint_word_of_int)
qed

lemma utf8_point_printable: "list_all printable (utf8_point v @ s) \<Longrightarrow> utf8_point v = [v] \<and> printable v"
  by (auto simp: utf8_point_def printable_def split: if_splits)

lemma utf8_unit_printable: "list_all printable (utf8_unit c @ s) \<Longrightarrow> utf8_unit c = [c] \<and> printable c"
  using utf8_point_printable [of c s] by (auto simp: utf8_unit_def printable_def split: if_splits)

lemma text_encode_printable: "list_all printable (text_encode s) \<Longrightarrow> text_encode s = s \<and> list_all printable s"
proof (induction s rule: text_encode.induct)
  case (2 c)
  then show ?case using utf8_unit_printable [of c "[]"] by simp
next
  case (3 c d s)
  show ?case
  proof (cases "high_surrogate c \<and> low_surrogate d")
    case True
    with 3 utf8_point_printable [of "65536 + (c - 55296) * 1024 + (d - 56320)" "text_encode s"]
    have "printable (65536 + (c - 55296) * 1024 + (d - 56320))" by simp
    with True show ?thesis by (simp add: printable_def high_surrogate_def low_surrogate_def)
  next
    case False
    with 3 utf8_unit_printable [of c "text_encode (d # s)"] show ?thesis by auto
  qed
qed simp

lemma decode_ascii: "list_all printable s \<Longrightarrow> decodeURIComponent (concat (map percent s)) = Some s"
proof (induction s)
  case (Cons c s)
  then have c: "33 \<le> c" "c \<le> 126" and IH: "decodeURIComponent (concat (map percent s)) = Some s" by (auto simp: printable_def)
  have "utf8_sequence c r = Some ([c], r)" for r using c by (simp add: utf8_sequence_def)
  with IH c show ?case by (simp add: decode_percent)
qed simp

lemma text_decode_printable:
  assumes "list_all printable s"
  shows "text_decode (map word_of_int s) = Some s"
proof -
  have "map (\<lambda>b. percent (uint b)) (map word_of_int s :: byte list) = map percent s"
    using assms by (auto simp: list_all_iff printable_def uint_word_of_int)
  moreover have "strip_bom s = s" using assms by (cases s) (auto simp: strip_bom_def printable_def)
  ultimately show ?thesis using decode_ascii [OF assms] by (simp add: text_decode_def del: map_map)
qed

lemma mediaKind_roundtrip: "kind \<in> set media_kinds \<Longrightarrow> mediaKindName (mediaKindCode kind) = Inr kind"
  by (auto simp: media_kinds_def mediaKindName_def mediaKindCode_def)

lemma flags_small:
  assumes "(word_of_int v :: 32 word) AND NOT allowedMediaFlags = 0" "0 \<le> v" "v < 2 ^ 32"
  shows "v \<le> 7"
proof -
  let ?w = "word_of_int v :: 32 word"
  have "allowedMediaFlags = 7" by (simp add: allowedMediaFlags_def Discontinuity_def)
  moreover have "?w = (?w AND 7) OR (?w AND NOT 7)" by (rule bit_word_eqI) (simp add: bit_simps, blast)
  ultimately have "?w = ?w AND 7" using assms(1) by simp
  then have "?w \<le> 7" using word_and_le1 [of ?w 7] by metis
  then have "uint ?w \<le> 7" by (simp add: word_le_def)
  with assms(2,3) show ?thesis by (simp add: uint_word_of_int)
qed

subsection \<open>Round trips\<close>

definition frame_ok :: "media_frame \<Rightarrow> bool" where
  "frame_ok f \<longleftrightarrow> validateMediaFrame f = Inr ()"

lemma safe_cases:
  assumes "safe_integer v"
  obtains i where "v = Fin (of_int i)" "int_of v = i" "i \<le> 9007199254740991"
proof -
  from assms obtain r where "v = Fin r" "of_int \<lfloor>r\<rfloor> = r" "\<lfloor>r\<rfloor> \<le> 9007199254740991" by (auto simp: safe_integer_def split: jsnum.splits)
  then obtain i where "v = Fin (of_int i)" "i \<le> 9007199254740991" by metis
  then show thesis using that by (simp add: int_of_def num_val_def)
qed

lemma positive_cases:
  assumes "positiveSafeInteger v"
  obtains i where "v = Fin (of_int i)" "int_of v = i" "0 < i" "i \<le> 9007199254740991"
  using assms by (auto simp: positiveSafeInteger_def elim: safe_cases)

lemma nonNegative_cases:
  assumes "nonNegativeSafeInteger v"
  obtains i where "v = Fin (of_int i)" "int_of v = i" "0 \<le> i" "i \<le> 9007199254740991"
  using assms by (auto simp: nonNegativeSafeInteger_def elim!: safe_cases)

lemma frame_okD:
  assumes "frame_ok f"
  shows "fr_kind f \<in> set media_kinds" "positiveSafeInteger (fr_sequence f)" "nonNegativeSafeInteger (fr_timestamp f)"
    "text_encode (fr_track f) = fr_track f" "list_all printable (fr_track f)" "fr_track f \<noteq> []" "length (fr_track f) \<le> 64"
    "fr_payload f \<noteq> []" "int (length (fr_payload f)) \<le> MULTIMODAL_MAX_FRAME_BYTES"
    "is_integer (flags_value f)" "\<not> num_less (flags_value f) (Fin 0)" "flags_word f AND NOT allowedMediaFlags = 0"
  using assms text_encode_printable [of "fr_track f"]
  by (auto simp: frame_ok_def validateMediaFrame_def Let_def MULTIMODAL_MAX_TRACK_ID_BYTES_def split: if_splits)

lemma flags_cases:
  assumes "is_integer v" "\<not> num_less v (Fin 0)"
  obtains i where "v = Fin (of_int i)" "int_of v = i" "0 \<le> i"
proof -
  from assms obtain r where "v = Fin r" "of_int \<lfloor>r\<rfloor> = r" "0 \<le> r" by (auto simp: is_integer_def split: jsnum.splits)
  then obtain i where "v = Fin (of_int i)" "0 \<le> i" by (metis of_int_0_le_iff)
  then show thesis using that by (simp add: int_of_def num_val_def)
qed

definition frame_bytes :: "byte \<Rightarrow> int \<Rightarrow> int \<Rightarrow> int \<Rightarrow> jstring \<Rightarrow> byte list \<Rightarrow> byte list" where
  "frame_bytes kind fl sq ts track payload =
     [84, 77, 65, 77, 1, kind] @ be_bytes 2 fl @ be_bytes 8 sq @ be_bytes 8 ts @ be_bytes 2 (int (length track)) @ [0, 0] @ map word_of_int track @ payload"

lemma frame_bytes_parts:
  "length (frame_bytes kind fl sq ts track payload) = 28 + length track + length payload"
  "take 5 (frame_bytes kind fl sq ts track payload) = [84, 77, 65, 77, 1]"
  "frame_bytes kind fl sq ts track payload ! 5 = kind"
  "frame_bytes kind fl sq ts track payload ! 26 = 0" "frame_bytes kind fl sq ts track payload ! 27 = 0"
  "take 2 (drop 6 (frame_bytes kind fl sq ts track payload)) = be_bytes 2 fl"
  "take 8 (drop 8 (frame_bytes kind fl sq ts track payload)) = be_bytes 8 sq"
  "take 8 (drop 16 (frame_bytes kind fl sq ts track payload)) = be_bytes 8 ts"
  "take 2 (drop 24 (frame_bytes kind fl sq ts track payload)) = be_bytes 2 (int (length track))"
  "take (length track) (drop 28 (frame_bytes kind fl sq ts track payload)) = map word_of_int track"
  by (simp_all add: frame_bytes_def nth_append nth_Cons' del: be_bytes.simps)

lemma frame_bytes_payload: "drop (28 + length track) (frame_bytes kind fl sq ts track payload) = payload"
proof -
  have "drop 28 (frame_bytes kind fl sq ts track payload) = map word_of_int track @ payload"
    by (simp add: frame_bytes_def del: be_bytes.simps)
  then have "drop (length track) (drop 28 (frame_bytes kind fl sq ts track payload)) = payload" by simp
  then show ?thesis by (simp add: add.commute)
qed

lemma encode_eq: "encodeMultimodalMediaFrame f = Inr bs \<longleftrightarrow> frame_ok f
    \<and> bs = frame_bytes (mediaKindCode (fr_kind f)) (int_of (flags_value f)) (int_of (fr_sequence f)) (int_of (fr_timestamp f)) (text_encode (fr_track f)) (fr_payload f)"
  by (auto simp: encodeMultimodalMediaFrame_def frame_ok_def frame_bytes_def js_result Let_def)

lemma decode_frame_bytes:
  assumes ok: "frame_ok f" and fl: "int_of (flags_value f) < 2 ^ 32"
  shows "decodeMultimodalMediaFrame (frame_bytes (mediaKindCode (fr_kind f)) (int_of (flags_value f)) (int_of (fr_sequence f)) (int_of (fr_timestamp f)) (fr_track f) (fr_payload f))
    = Inr (f\<lparr>fr_flags := Some (flags_value f)\<rparr>)"
proof -
  note d = frame_okD [OF ok]
  obtain sq where sq: "fr_sequence f = Fin (of_int sq)" "int_of (fr_sequence f) = sq" "0 < sq" "sq \<le> 9007199254740991" using d(2) by (rule positive_cases)
  obtain ts where ts: "fr_timestamp f = Fin (of_int ts)" "int_of (fr_timestamp f) = ts" "0 \<le> ts" "ts \<le> 9007199254740991" using d(3) by (rule nonNegative_cases)
  obtain i where i: "flags_value f = Fin (of_int i)" "int_of (flags_value f) = i" "0 \<le> i" using d(10,11) by (rule flags_cases)
  have i7: "i \<le> 7" using flags_small [of i] d(12) i(2,3) fl by (simp add: flags_word_def)
  have v: "be_value (be_bytes 2 i) = i" "be_value (be_bytes 8 sq) = sq" "be_value (be_bytes 8 ts) = ts" "be_value (be_bytes 2 (int (length (fr_track f)))) = int (length (fr_track f))"
    using i(3) i7 sq ts d(7) by (simp_all add: be_value_be_bytes del: be_bytes.simps)
  let ?f = "\<lparr>fr_kind = fr_kind f, fr_flags = Some (Fin (of_int i)), fr_sequence = Fin (of_int sq), fr_timestamp = Fin (of_int ts), fr_track = fr_track f, fr_payload = fr_payload f\<rparr>"
  have f: "?f = f\<lparr>fr_flags := Some (flags_value f)\<rparr>" using i sq ts by simp
  moreover have "validateMediaFrame (f\<lparr>fr_flags := Some (flags_value f)\<rparr>) = validateMediaFrame f"
    by (simp add: validateMediaFrame_def flags_value_def flags_word_def Let_def)
  ultimately have "validateMediaFrame ?f = Inr ()" using ok by (simp add: frame_ok_def)
  then have "decodeMultimodalMediaFrame (frame_bytes (mediaKindCode (fr_kind f)) i sq ts (fr_track f) (fr_payload f)) = Inr ?f"
    using d(1,5-8) i(3) sq(3,4) ts(3,4) v
    by (simp add: decodeMultimodalMediaFrame_def frame_bytes_parts frame_bytes_payload Let_def mediaKind_roundtrip safeBigIntNumber_def text_decode_printable
        MULTIMODAL_MEDIA_HEADER_BYTES_def MULTIMODAL_MAX_TRACK_ID_BYTES_def del: be_bytes.simps)
  then show ?thesis unfolding f i(2) sq(2) ts(2) .
qed


text \<open>The other direction: what is accepted is canonical.\<close>

lemma be_bytes_be_value: "be_bytes (length bs) (be_value bs) = bs"
proof (induction bs rule: rev_induct)
  case (snoc b bs)
  have "uint b < 256" using uint_lt2p [of b] by simp
  then have "(be_value bs * 256 + uint b) div 256 = be_value bs" by simp
  moreover have "uint (word_of_int (be_value bs * 256 + uint b) :: byte) = uint b"
    by (simp only: uint_word_of_int) (use \<open>uint b < 256\<close> in simp)
  then have "(word_of_int (be_value bs * 256 + uint b) :: byte) = b" by (simp only: word_uint_eq_iff)
  ultimately show ?case using snoc by (simp add: be_value_snoc)
qed (simp add: be_value_def)

definition percents :: "byte list \<Rightarrow> jstring" where
  "percents bs = concat (map (\<lambda>b. percent (uint b)) bs)"

lemma percents_simps [simp]: "percents [] = []" "percents (b # bs) = percent (uint b) @ percents bs"
  by (simp_all add: percents_def)

lemma uint_byte: "0 \<le> uint (b :: byte)" "uint b < 256"
  using uint_lt2p [of b] by simp_all

lemma percent_byte_percents: "percent_byte (percents bs) = (case bs of [] \<Rightarrow> None | b # r \<Rightarrow> Some (uint b, percents r))"
  using uint_byte by (cases bs) simp_all

lemma continuation_percents: "continuation n v (percents bs) = Some (w, s) \<Longrightarrow> n \<le> length bs \<and> s = percents (drop n bs)"
proof (induction n arbitrary: v bs)
  case (Suc n)
  then show ?case by (cases bs) (auto simp: percent_byte_percents split: if_splits simp del: percents_simps)
qed simp

lemma multi_byte:
  assumes "(case continuation n v0 (percents bs) of Some (v, s') \<Rightarrow> map_option (\<lambda>u. (u, s')) (code_point least v) | None \<Rightarrow> None) = Some (u, s)"
    and "128 \<le> least" "1 \<le> n"
  shows "n \<le> length bs \<and> s = percents (drop n bs) \<and> length u \<le> Suc n \<and> u \<noteq> [] \<and> 128 \<le> hd u"
proof -
  from assms(1) obtain v where v: "continuation n v0 (percents bs) = Some (v, s)" "code_point least v = Some u"
    by (auto split: option.splits)
  from v(2) assms(2) have "length u \<le> 2 \<and> u \<noteq> [] \<and> 128 \<le> hd u" by (auto simp: code_point_def split: if_splits)
  with continuation_percents [OF v(1)] assms(3) show ?thesis by auto
qed

lemma utf8_sequence_percents:
  assumes "utf8_sequence b (percents bs) = Some (u, s)"
  obtains k where "k \<le> length bs" "s = percents (drop k bs)" "length u \<le> Suc k" "u \<noteq> []" "b < 128 \<longrightarrow> u = [b] \<and> k = 0" "128 \<le> b \<longrightarrow> 128 \<le> hd u"
proof (cases "b < 128")
  case True
  with assms have "u = [b]" "s = percents bs" unfolding utf8_sequence_def by simp_all
  with that [of 0] True show thesis by simp
next
  case False
  with assms consider
      "(case continuation 1 (b - 192) (percents bs) of Some (v, s') \<Rightarrow> map_option (\<lambda>u. (u, s')) (code_point 128 v) | None \<Rightarrow> None) = Some (u, s)"
    | "(case continuation 2 (b - 224) (percents bs) of Some (v, s') \<Rightarrow> map_option (\<lambda>u. (u, s')) (code_point 2048 v) | None \<Rightarrow> None) = Some (u, s)"
    | "(case continuation 3 (b - 240) (percents bs) of Some (v, s') \<Rightarrow> map_option (\<lambda>u. (u, s')) (code_point 65536 v) | None \<Rightarrow> None) = Some (u, s)"
    unfolding utf8_sequence_def by (metis option.distinct(1))
  then show thesis
  proof cases
    case 1
    from multi_byte [OF this] that [of 1] False show thesis by simp
  next
    case 2
    from multi_byte [OF this] that [of 2] False show thesis by simp
  next
    case 3
    from multi_byte [OF this] that [of 3] False show thesis by simp
  qed
qed

lemma decode_percents_ascii:
  "decodeURIComponent (percents bs) = Some s \<Longrightarrow> length s \<le> length bs \<and> (list_all printable s \<longrightarrow> map uint bs = s)"
proof (induction bs arbitrary: s rule: length_induct)
  case (1 bs)
  show ?case
  proof (cases bs)
    case Nil
    with 1 show ?thesis by simp
  next
    case (Cons b r)
    with 1 obtain u s2 t where u: "utf8_sequence (uint b) (percents r) = Some (u, s2)" "decodeURIComponent s2 = Some t" "s = u @ t"
      using decode_percent [of "uint b" "percents r"] uint_byte [of b] by (auto split: option.splits)
    from u(1) obtain k where k: "k \<le> length r" "s2 = percents (drop k r)" "length u \<le> Suc k" "u \<noteq> []" "uint b < 128 \<longrightarrow> u = [uint b] \<and> k = 0" "128 \<le> uint b \<longrightarrow> 128 \<le> hd u"
      by (rule utf8_sequence_percents)
    from 1(1) [rule_format, of "drop k r" t] Cons u(2) k(2) have IH: "length t \<le> length (drop k r)" "list_all printable t \<longrightarrow> map uint (drop k r) = t" by auto
    show ?thesis
    proof (cases "uint b < 128")
      case True
      with IH k u(3) Cons show ?thesis by auto
    next
      case False
      with k have "\<not> list_all printable u" by (cases u) (auto simp: printable_def)
      with IH(1) k u(3) Cons show ?thesis by auto
    qed
  qed
qed

lemma text_decode_ascii:
  assumes "text_decode bs = Some s" "list_all printable s" "length s = length bs"
  shows "map word_of_int s = bs"
proof -
  from assms(1) obtain s0 where s0: "decodeURIComponent (percents bs) = Some s0" "s = strip_bom s0" by (auto simp: text_decode_def percents_def)
  with decode_percents_ascii [OF s0(1)] assms(3) have "s0 = s" by (cases s0) (auto simp: strip_bom_def split: if_splits)
  with decode_percents_ascii [OF s0(1)] assms(2) have "map uint bs = s" by simp
  then show ?thesis by (auto simp: comp_def)
qed

lemma frame_split:
  assumes "28 \<le> length bs"
  shows "bs = take 5 bs @ bs ! 5 # take 2 (drop 6 bs) @ take 8 (drop 8 bs) @ take 8 (drop 16 bs) @ take 2 (drop 24 bs) @ bs ! 26 # bs ! 27 # take n (drop 28 bs) @ drop (28 + n) bs"
proof -
  have part: "drop i bs = take k (drop i bs) @ drop (k + i) bs" for i k by (metis append_take_drop_id drop_drop)
  have one: "i < length bs \<Longrightarrow> drop i bs = bs ! i # drop (Suc i) bs" for i by (simp add: Cons_nth_drop_Suc)
  from part [of 0 5] one [of 5] part [of 6 2] part [of 8 8] part [of 16 8] part [of 24 2] one [of 26] one [of 27] part [of 28 n] assms
  show ?thesis by (simp add: add.commute)
qed

lemma be_bytes_take: "i + k \<le> length bs \<Longrightarrow> be_bytes k (be_value (take k (drop i bs))) = take k (drop i bs)"
  using be_bytes_be_value [of "take k (drop i bs)"] by simp

lemma mediaKindName_code: "mediaKindName c = Inr kind \<Longrightarrow> mediaKindCode kind = c"
  by (auto simp: mediaKindName_def mediaKindCode_def split: if_splits)

lemma int_of_Fin [simp]: "int_of (Fin (of_int i)) = i"
  by (simp add: int_of_def num_val_def)


section \<open>Sessions\<close>

record track =
  tk_id :: jstring
  tk_kind :: jstring
  tk_delivery :: jstring

record session_start =
  ss_provider_id :: jstring
  ss_model :: jstring
  ss_session_id :: "jstring option"
  ss_input_tracks :: "track list"
  ss_output_modalities :: "jstring list"

record flow_limits =
  li_frame_bytes :: int
  li_in_flight_bytes :: int
  li_in_flight_frames :: int

record object_ref =
  or_track :: jstring
  or_sequence :: jsnum
  or_timestamp :: jsnum
  or_object :: jstring
  or_size :: jsnum

datatype transmission = SendMedia media_frame | SendObject object_ref

datatype rt_event = Control jsval | MediaEvent media_frame

datatype ws_data = TextData jstring | BinaryData "byte list" | OtherData

text \<open>What is handed to the socket; a control message is the value that is printed as JSON.\<close>

datatype wire = WireStart session_start | WireMedia "byte list" | WireObject object_ref | WireControl jsval

text \<open>Where \<open>start\<close> is: it has not begun or is over, it waits for the socket to open, or for the event that answers its read.\<close>

datatype start_stage = NotStarting | Opening session_start | Answering session_start nat

text \<open>The last four fields are history: the credit granted so far, the transmissions whose credit was reserved and those that were handed
  to the socket, in order. They are never read by an operation.\<close>

record rt_session =
  rs_maxBufferedEvents :: int
  rs_queue :: "rt_event list"
  rs_waiters :: "nat list"
  rs_pendingMessages :: "ws_data list"
  rs_failure :: "rt_error option"
  rs_startAttempted :: bool
  rs_starting :: start_stage
  rs_started :: bool
  rs_inputLimits :: "flow_limits option"
  rs_inputBytes :: int
  rs_inputFrames :: int
  rs_tracks :: "(jstring, track) jmap"
  rs_sequences :: "(jstring, int) jmap"
  rs_droppedLatest :: "jstring list"
  rs_creditWaiters :: "(nat \<times> transmission) list"
  rs_woken :: "(nat \<times> transmission) list"
  rs_reserved :: "(nat \<times> transmission) list"
  rs_readyState :: nat
  rs_protocol :: jstring
  rs_wire :: "wire list"
  rs_closes :: "(int \<times> jstring) list"
  rs_settled :: "(nat \<times> (rt_error + rt_event)) list"
  rs_outcomes :: "(nat \<times> (rt_error + bool)) list"
  rs_grantedBytes :: int
  rs_grantedFrames :: int
  rs_history :: "transmission list"
  rs_handed :: "transmission list"

definition new_rt_session :: "jsnum option \<Rightarrow> rt_error + rt_session" where
  "new_rt_session maxBufferedEvents =
     (let m = (case maxBufferedEvents of Some n \<Rightarrow> n | None \<Rightarrow> Fin 32) in
      if \<not> is_integer m \<or> num_less m (Fin 1) \<or> num_less (Fin 1024) m then Inl (RangeErr ''maxBufferedEvents must be between 1 and 1024'')
      else Inr \<lparr>rs_maxBufferedEvents = int_of m, rs_queue = [], rs_waiters = [], rs_pendingMessages = [], rs_failure = None,
        rs_startAttempted = False, rs_starting = NotStarting, rs_started = False, rs_inputLimits = None, rs_inputBytes = 0, rs_inputFrames = 0,
        rs_tracks = [], rs_sequences = [], rs_droppedLatest = [], rs_creditWaiters = [], rs_woken = [], rs_reserved = [], rs_readyState = 0,
        rs_protocol = [], rs_wire = [], rs_closes = [], rs_settled = [], rs_outcomes = [], rs_grantedBytes = 0, rs_grantedFrames = 0,
        rs_history = [], rs_handed = []\<rparr>)"

subsection \<open>Checks of a start\<close>

definition track_ok :: "track \<Rightarrow> bool" where
  "track_ok t \<longleftrightarrow> trim (tk_id t) \<noteq> [] \<and> (tk_delivery t = lit ''reliable'' \<or> tk_delivery t = lit ''latest'')
     \<and> (tk_delivery t = lit ''latest'' \<longrightarrow> tk_kind t = lit ''video'')"

fun check_tracks :: "jstring list \<Rightarrow> track list \<Rightarrow> rt_error + unit" where
  "check_tracks ids [] = Inr ()"
| "check_tracks ids (t # ts) = (if \<not> track_ok t \<or> tk_id t \<in> set ids
     then Inl (TypeErr ''Multimodal session contains an invalid or duplicate input track'') else check_tracks (set_add ids (tk_id t)) ts)"

definition validateSessionStart :: "session_start \<Rightarrow> rt_error + unit" where
  "validateSessionStart r =
     (if trim (ss_provider_id r) = [] \<or> trim (ss_model r) = [] \<or> length (ss_input_tracks r) < 1 \<or> length (ss_input_tracks r) > 8
         \<or> length (ss_output_modalities r) < 1
      then Inl (TypeErr ''Multimodal session requires provider, model, input tracks, and output modalities'')
      else check_tracks [] (ss_input_tracks r))"

text \<open>A number field of a decoded message; a field of another type is no safe integer.\<close>

definition num_field :: "jsval \<Rightarrow> string \<Rightarrow> jsnum" where
  "num_field v k = (case dot v k of JNum n \<Rightarrow> n | _ \<Rightarrow> NaN)"

definition bounded_field :: "jsval \<Rightarrow> string \<Rightarrow> int \<Rightarrow> bool" where
  "bounded_field v k m \<longleftrightarrow> positiveSafeInteger (num_field v k) \<and> int_of (num_field v k) \<le> m"

definition validFlowLimits :: "jsval \<Rightarrow> bool" where
  "validFlowLimits limits \<longleftrightarrow> bounded_field limits ''max_frame_bytes'' MULTIMODAL_MAX_FRAME_BYTES
     \<and> bounded_field limits ''max_in_flight_bytes'' MULTIMODAL_MAX_IN_FLIGHT_BYTES \<and> bounded_field limits ''max_in_flight_frames'' MULTIMODAL_MAX_IN_FLIGHT_FRAMES"

text \<open>Reading a property of \<open>undefined\<close> or \<open>null\<close>.\<close>

definition unreadable :: "jsval \<Rightarrow> bool" where
  "unreadable v \<longleftrightarrow> v = JUndef \<or> v = JNull"

definition read_error :: rt_error where
  "read_error = TypeErr ''Cannot read properties of undefined''"

definition validateSessionStarted :: "jsval \<Rightarrow> session_start \<Rightarrow> rt_error + unit" where
  "validateSessionStarted started start =
     (let limits = dot started ''input_flow_limits''; credit = dot started ''initial_input_credit''; sid = dot started ''session_id'' in
      if unreadable started then Inl read_error
      else if dot started ''type'' \<noteq> jlit ''session.started'' \<or> dot started ''protocol_version'' \<noteq> JStr MULTIMODAL_REALTIME_PROTOCOL
      then Inl (TypeErr ''Invalid multimodal session.started event'')
      else if \<not> is_string sid then Inl read_error
      else if trimmed_text sid = [] \<or> (case ss_session_id start of Some i \<Rightarrow> sid \<noteq> JStr i | None \<Rightarrow> False)
      then Inl (TypeErr ''Invalid multimodal session.started event'')
      else if unreadable limits then Inl read_error
      else if \<not> validFlowLimits limits then Inl (RangeErr ''Invalid multimodal input flow negotiation'')
      else if unreadable credit then Inl read_error
      else if \<not> bounded_field credit ''bytes'' (int_of (num_field limits ''max_in_flight_bytes''))
           \<or> \<not> bounded_field credit ''frames'' (int_of (num_field limits ''max_in_flight_frames''))
      then Inl (RangeErr ''Invalid multimodal input flow negotiation'')
      else Inr ())"

subsection \<open>Credit and events\<close>

definition notifyCredit :: "rt_session \<Rightarrow> rt_session" where
  "notifyCredit s = s\<lparr>rs_woken := rs_woken s @ rs_creditWaiters s, rs_creditWaiters := []\<rparr>"

definition fail :: "rt_error \<Rightarrow> rt_session \<Rightarrow> rt_session" where
  "fail e s = (if rs_failure s \<noteq> None then s
     else notifyCredit (s\<lparr>rs_failure := Some e, rs_settled := rs_settled s @ map (\<lambda>w. (w, Inl e)) (rs_waiters s), rs_waiters := []\<rparr>))"

definition close_socket :: "int \<Rightarrow> string \<Rightarrow> rt_session \<Rightarrow> rt_session" where
  "close_socket code reason s = s\<lparr>rs_closes := rs_closes s @ [(code, lit reason)]\<rparr>"

definition applyInputCredit :: "jsval \<Rightarrow> rt_session \<Rightarrow> rt_error + rt_session" where
  "applyInputCredit credit s =
     (case (rs_started s, rs_inputLimits s) of
        (True, Some limits) \<Rightarrow>
          if unreadable credit then Inl read_error
          else
            (let bytes = num_field credit ''bytes''; frames = num_field credit ''frames'' in
             if \<not> positiveSafeInteger bytes \<or> \<not> positiveSafeInteger frames \<or> rs_inputBytes s + int_of bytes > li_in_flight_bytes limits
                \<or> rs_inputFrames s + int_of frames > li_in_flight_frames limits
             then Inl (RangeErr ''Multimodal input credit exceeds negotiated limits'')
             else Inr (notifyCredit (s\<lparr>rs_inputBytes := rs_inputBytes s + int_of bytes, rs_inputFrames := rs_inputFrames s + int_of frames,
                    rs_grantedBytes := rs_grantedBytes s + int_of bytes, rs_grantedFrames := rs_grantedFrames s + int_of frames\<rparr>)))
      | _ \<Rightarrow> Inl (RangeErr ''Multimodal input credit exceeds negotiated limits''))"

definition event_credit :: "rt_event \<Rightarrow> jsval" where
  "event_credit ev = (case ev of Control v \<Rightarrow> dot v ''credit'' | MediaEvent _ \<Rightarrow> JUndef)"

text \<open>The event that a waiting reader gets, or the error its promise is rejected with, and the state after it.\<close>

definition consumeEvent :: "rt_event \<Rightarrow> rt_session \<Rightarrow> (rt_error + rt_event) \<times> rt_session" where
  "consumeEvent ev s = (if event_credit ev = JUndef then (Inr ev, s)
     else case applyInputCredit (event_credit ev) s of Inl e \<Rightarrow> (Inl e, s) | Inr s' \<Rightarrow> (Inr ev, s'))"

definition settle :: "nat \<Rightarrow> rt_event \<Rightarrow> rt_session \<Rightarrow> rt_session" where
  "settle w ev s = (let (r, s') = consumeEvent ev s in s'\<lparr>rs_settled := rs_settled s' @ [(w, r)]\<rparr>)"

definition enqueue_event :: "rt_event \<Rightarrow> rt_session \<Rightarrow> rt_error option \<times> rt_session" where
  "enqueue_event ev s = (case rs_waiters s of
       w # ws \<Rightarrow> (None, settle w ev (s\<lparr>rs_waiters := ws\<rparr>))
     | [] \<Rightarrow>
         if int (length (rs_queue s)) \<ge> rs_maxBufferedEvents s
         then (Some (Failed (lit ''Multimodal event buffer exceeded'')), close_socket 1008 ''multimodal event buffer exceeded'' s)
         else (None, s\<lparr>rs_queue := rs_queue s @ [ev]\<rparr>))"

definition control_event :: "jsval \<Rightarrow> jsval" where
  "control_event parsed = (case parsed of
       JObj p kvs \<Rightarrow>
         (let kvs1 = (if dot parsed ''type'' = jlit ''session.started'' then map_set kvs (lit ''started'') parsed else kvs);
              kvs2 = (if dot parsed ''type'' = jlit ''flow.credit'' then map_set kvs1 (lit ''credit'') parsed else kvs1) in
          JObj ObjectProto kvs2)
     | _ \<Rightarrow> parsed)"

definition processMessage :: "ws_data \<Rightarrow> rt_session \<Rightarrow> rt_error option \<times> rt_session" where
  "processMessage data s = (case data of
       TextData t \<Rightarrow> (case json_parse t of
           None \<Rightarrow> (Some SyntaxErr, s)
         | Some parsed \<Rightarrow> if is_string (dot parsed ''type'') then enqueue_event (Control (control_event parsed)) s
                         else (Some (TypeErr ''Invalid multimodal control event''), s))
     | BinaryData bs \<Rightarrow> (case decodeMultimodalMediaFrame bs of
           Inl e \<Rightarrow> (Some e, s)
         | Inr f \<Rightarrow> enqueue_event (MediaEvent f) s)
     | OtherData \<Rightarrow> (Some (TypeErr ''Unsupported multimodal WebSocket message type''), s))"

text \<open>The listener of the socket queues a message behind the chain of earlier ones; \<open>process_next\<close> is the next link of the chain.\<close>

definition on_message :: "ws_data \<Rightarrow> rt_session \<Rightarrow> rt_session" where
  "on_message data s = (if int (length (rs_pendingMessages s)) + 1 > rs_maxBufferedEvents s
     then fail (Failed (lit ''Multimodal pending message buffer exceeded'')) (close_socket 1008 ''multimodal pending message buffer exceeded'' s)
     else s\<lparr>rs_pendingMessages := rs_pendingMessages s @ [data]\<rparr>)"

definition process_next :: "rt_session \<Rightarrow> rt_session" where
  "process_next s = (case rs_pendingMessages s of
       [] \<Rightarrow> s
     | data # rest \<Rightarrow>
         (let (e, s') = processMessage data (s\<lparr>rs_pendingMessages := rest\<rparr>) in
          case e of Some err \<Rightarrow> fail err s' | None \<Rightarrow> s'))"

definition on_error :: "rt_session \<Rightarrow> rt_session" where
  "on_error s = fail (Failed (lit ''Multimodal WebSocket failed'')) s"

definition on_close :: "int \<Rightarrow> rt_session \<Rightarrow> rt_session" where
  "on_close code s = (if rs_failure s = None then fail (Failed (lit ''Multimodal WebSocket closed ('' @ int_str code @ lit '')'')) s else s)"

definition nextEvent :: "nat \<Rightarrow> rt_session \<Rightarrow> rt_session" where
  "nextEvent w s = (case rs_queue s of
       ev # rest \<Rightarrow> settle w ev (s\<lparr>rs_queue := rest\<rparr>)
     | [] \<Rightarrow> (case rs_failure s of
         Some e \<Rightarrow> s\<lparr>rs_settled := rs_settled s @ [(w, Inl e)]\<rparr>
       | None \<Rightarrow> s\<lparr>rs_waiters := rs_waiters s @ [w]\<rparr>))"

definition abort_read :: "nat \<Rightarrow> rt_session \<Rightarrow> rt_session" where
  "abort_read w s = (if w \<in> set (rs_waiters s)
     then s\<lparr>rs_waiters := remove1 w (rs_waiters s), rs_settled := rs_settled s @ [(w, Inl Aborted)]\<rparr> else s)"

definition read_event :: "nat \<Rightarrow> rt_session \<Rightarrow> rt_session" where
  "read_event w s = (if \<not> rs_started s
     then s\<lparr>rs_settled := rs_settled s @ [(w, Inl (Failed (lit ''Multimodal session has not started'')))]\<rparr> else nextEvent w s)"

subsection \<open>Starting\<close>

definition start_begin :: "session_start \<Rightarrow> rt_session \<Rightarrow> rt_error option \<times> rt_session" where
  "start_begin request s =
     (if rs_startAttempted s then (Some (Failed (lit ''Multimodal session start has already been attempted'')), s)
      else case validateSessionStart request of
          Inl e \<Rightarrow> (Some e, s\<lparr>rs_startAttempted := True\<rparr>)
        | Inr _ \<Rightarrow> (None, s\<lparr>rs_startAttempted := True, rs_starting := Opening request\<rparr>))"

text \<open>\<open>start\<close> behind \<open>waitUntilOpen\<close>, up to the answer of the server.\<close>

definition start_open :: "nat \<Rightarrow> session_start \<Rightarrow> rt_session \<Rightarrow> rt_error option \<times> rt_session" where
  "start_open w request s =
     (if rs_readyState s \<noteq> 1 then (Some (Failed (lit ''Multimodal WebSocket is not connectable'')), s\<lparr>rs_starting := NotStarting\<rparr>)
      else if rs_protocol s \<noteq> MULTIMODAL_REALTIME_PROTOCOL
      then (Some (Failed (lit ''Server did not negotiate the multimodal realtime subprotocol'')),
            close_socket 1008 ''multimodal subprotocol was not negotiated'' (s\<lparr>rs_starting := NotStarting\<rparr>))
      else (None, nextEvent w (s\<lparr>rs_starting := Answering request w, rs_wire := rs_wire s @ [WireStart request]\<rparr>)))"

definition remote_error :: "jsval \<Rightarrow> rt_error" where
  "remote_error event =
     (let message = dot event ''message''; code = dot event ''code'' in
      if \<not> unreadable message \<and> \<not> is_string message \<or> \<not> unreadable code \<and> \<not> is_string code then read_error
      else Remote (if string_text message = [] then lit ''Multimodal realtime request failed'' else string_text message) (string_text code)
             (nullish (dot event ''retryable'') (JBool False)) (nullish (dot event ''retry_after_seconds'') (jint 0)) (nullish (dot event ''limit_scope'') (JStr [])))"

definition start_finish :: "session_start \<Rightarrow> rt_error + rt_event \<Rightarrow> rt_session \<Rightarrow> rt_error option \<times> rt_session" where
  "start_finish request answer s = (case answer of
       Inl e \<Rightarrow> (Some e, s)
     | Inr (MediaEvent _) \<Rightarrow> (Some (Failed (lit ''First multimodal server event must be session.started'')), s)
     | Inr (Control v) \<Rightarrow>
         (let started = dot v ''started''; limits = dot started ''input_flow_limits''; credit = dot started ''initial_input_credit'' in
          if dot v ''type'' = jlit ''error'' then (Some (remote_error v), s)
          else if started = JUndef then (Some (Failed (lit ''First multimodal server event must be session.started'')), s)
          else case validateSessionStarted started request of
              Inl e \<Rightarrow> (Some e, s)
            | Inr _ \<Rightarrow> (None, notifyCredit (s\<lparr>rs_started := True,
                 rs_inputLimits := Some \<lparr>li_frame_bytes = int_of (num_field limits ''max_frame_bytes''),
                   li_in_flight_bytes = int_of (num_field limits ''max_in_flight_bytes''), li_in_flight_frames = int_of (num_field limits ''max_in_flight_frames'')\<rparr>,
                 rs_inputBytes := int_of (num_field credit ''bytes''), rs_inputFrames := int_of (num_field credit ''frames''),
                 rs_grantedBytes := int_of (num_field credit ''bytes''), rs_grantedFrames := int_of (num_field credit ''frames''),
                 rs_tracks := foldl (\<lambda>m t. map_set m (tk_id t) t) (rs_tracks s) (ss_input_tracks request)\<rparr>))))"

subsection \<open>Sending\<close>

fun track_of :: "transmission \<Rightarrow> jstring" where
  "track_of (SendMedia f) = fr_track f"
| "track_of (SendObject r) = or_track r"

fun sequence_of :: "transmission \<Rightarrow> jsnum" where
  "sequence_of (SendMedia f) = fr_sequence f"
| "sequence_of (SendObject r) = or_sequence r"

fun size_of :: "transmission \<Rightarrow> jsnum" where
  "size_of (SendMedia f) = Fin (of_int (int (length (fr_payload f))))"
| "size_of (SendObject r) = or_size r"

datatype reservation = Reserved | Dropped | MustWait | Refused rt_error

definition last_sequence :: "(jstring, int) jmap \<Rightarrow> jstring \<Rightarrow> int" where
  "last_sequence m trackID = (case map_get m trackID of Some n \<Rightarrow> n | None \<Rightarrow> 0)"

text \<open>One time round the loop of \<open>reserveInput\<close>.\<close>

definition reserveInput :: "transmission \<Rightarrow> rt_session \<Rightarrow> reservation \<times> rt_session" where
  "reserveInput t s =
     (let trackID = track_of t; sequence = sequence_of t; size = size_of t in
      case rs_failure s of
        Some e \<Rightarrow> (Refused e, s)
      | None \<Rightarrow>
          (case (rs_started s, rs_inputLimits s) of
             (True, Some limits) \<Rightarrow>
               (case map_get (rs_tracks s) trackID of
                  None \<Rightarrow> (Refused (TypeErr ''Invalid multimodal input frame''), s)
                | Some track \<Rightarrow>
                    if \<not> positiveSafeInteger sequence \<or> \<not> positiveSafeInteger size \<or> int_of size > li_frame_bytes limits
                    then (Refused (TypeErr ''Invalid multimodal input frame''), s)
                    else if int_of sequence \<le> last_sequence (rs_sequences s) trackID
                    then (Refused (RangeErr ''Multimodal sequence must increase per track''), s)
                    else if int_of size \<le> rs_inputBytes s \<and> rs_inputFrames s > 0
                    then (Reserved, s\<lparr>rs_inputBytes := rs_inputBytes s - int_of size, rs_inputFrames := rs_inputFrames s - 1,
                            rs_sequences := map_set (rs_sequences s) trackID (int_of sequence), rs_history := rs_history s @ [t]\<rparr>)
                    else if tk_delivery track = lit ''latest''
                    then (Dropped, s\<lparr>rs_droppedLatest := set_add (rs_droppedLatest s) trackID\<rparr>)
                    else (MustWait, s))
           | _ \<Rightarrow> (Refused (Failed (lit ''Multimodal session has not started'')), s)))"

definition record_outcome :: "nat \<Rightarrow> rt_error + bool \<Rightarrow> rt_session \<Rightarrow> rt_session" where
  "record_outcome i r s = s\<lparr>rs_outcomes := rs_outcomes s @ [(i, r)]\<rparr>"

definition attempt_send :: "nat \<Rightarrow> transmission \<Rightarrow> rt_session \<Rightarrow> rt_session" where
  "attempt_send i t s = (case reserveInput t s of
       (Refused e, s') \<Rightarrow> record_outcome i (Inl e) s'
     | (Dropped, s') \<Rightarrow> record_outcome i (Inr False) s'
     | (MustWait, s') \<Rightarrow> s'\<lparr>rs_creditWaiters := rs_creditWaiters s' @ [(i, t)]\<rparr>
     | (Reserved, s') \<Rightarrow> s'\<lparr>rs_reserved := rs_reserved s' @ [(i, t)]\<rparr>)"

definition sendMedia :: "nat \<Rightarrow> media_frame \<Rightarrow> rt_session \<Rightarrow> rt_session" where
  "sendMedia i f s = (case validateMediaFrame f of
       Inl e \<Rightarrow> record_outcome i (Inl e) s
     | Inr _ \<Rightarrow>
         if (case map_get (rs_tracks s) (fr_track f) of Some track \<Rightarrow> tk_kind track \<noteq> fr_kind f | None \<Rightarrow> False)
         then record_outcome i (Inl (TypeErr ''Media frame kind does not match its input track'')) s
         else attempt_send i (SendMedia f) s)"

definition sendObjectRef :: "nat \<Rightarrow> object_ref \<Rightarrow> rt_session \<Rightarrow> rt_session" where
  "sendObjectRef i r s =
     (if trim (or_object r) = [] \<or> \<not> positiveSafeInteger (or_size r) \<or> \<not> nonNegativeSafeInteger (or_timestamp r)
      then record_outcome i (Inl (TypeErr ''ObjectRef input requires object_ref_id, positive size_bytes, and non-negative timestamp_us'')) s
      else attempt_send i (SendObject r) s)"

text \<open>The loop goes on for a transmission that was woken; an abort ends the wait of one that was not.\<close>

definition resume_send :: "rt_session \<Rightarrow> rt_session" where
  "resume_send s = (case rs_woken s of [] \<Rightarrow> s | (i, t) # rest \<Rightarrow> attempt_send i t (s\<lparr>rs_woken := rest\<rparr>))"

definition abort_send :: "nat \<Rightarrow> rt_session \<Rightarrow> rt_session" where
  "abort_send i s = (if i \<in> fst ` set (rs_creditWaiters s)
     then record_outcome i (Inl Aborted) (s\<lparr>rs_creditWaiters := filter (\<lambda>(j, t). j \<noteq> i) (rs_creditWaiters s)\<rparr>) else s)"

definition sent_flags :: "media_frame \<Rightarrow> bool \<Rightarrow> int" where
  "sent_flags f dropped = uint (flags_word f OR (if dropped then Discontinuity else 0))"

definition sent_frame :: "media_frame \<Rightarrow> bool \<Rightarrow> media_frame" where
  "sent_frame f dropped = f\<lparr>fr_flags := Some (Fin (of_int (sent_flags f dropped)))\<rparr>"

text \<open>A socket that is closing or closed discards what it is given.\<close>

definition put_wire :: "wire \<Rightarrow> rt_session \<Rightarrow> rt_session" where
  "put_wire w s = (if rs_readyState s = 1 then s\<lparr>rs_wire := rs_wire s @ [w]\<rparr> else s)"

definition hand_over :: "rt_session \<Rightarrow> rt_session" where
  "hand_over s = (case rs_reserved s of
       [] \<Rightarrow> s
     | (i, t) # rest \<Rightarrow>
         (let d = track_of t \<in> set (rs_droppedLatest s);
              s1 = s\<lparr>rs_reserved := rest, rs_handed := rs_handed s @ [t], rs_droppedLatest := filter (\<lambda>x. x \<noteq> track_of t) (rs_droppedLatest s)\<rparr> in
          case t of
            SendMedia f \<Rightarrow> (case encodeMultimodalMediaFrame (sent_frame f d) of
                Inl e \<Rightarrow> record_outcome i (Inl e) s1
              | Inr bs \<Rightarrow> record_outcome i (Inr True) (put_wire (WireMedia bs) s1))
          | SendObject r \<Rightarrow>
              if rs_readyState s \<noteq> 1 then record_outcome i (Inl (Failed (lit ''Multimodal WebSocket is not open''))) s1
              else record_outcome i (Inr True) (put_wire (WireObject r) s1)))"

subsection \<open>Control messages\<close>

definition sendJSON :: "jsval \<Rightarrow> rt_session \<Rightarrow> rt_error option \<times> rt_session" where
  "sendJSON v s = (if rs_readyState s \<noteq> 1 then (Some (Failed (lit ''Multimodal WebSocket is not open'')), s) else (None, put_wire (WireControl v) s))"

definition appendText :: "jstring \<Rightarrow> rt_session \<Rightarrow> rt_error option \<times> rt_session" where
  "appendText t s = (if trim t = [] then (Some (TypeErr ''Multimodal input text is required''), s)
     else sendJSON (jobj [(''type'', jlit ''input.text.append''), (''text'', JStr t)]) s)"

definition commitInput :: "rt_session \<Rightarrow> rt_error option \<times> rt_session" where
  "commitInput s = sendJSON (jobj [(''type'', jlit ''input.commit'')]) s"

definition grantOutputCredit :: "media_frame \<Rightarrow> rt_session \<Rightarrow> rt_error option \<times> rt_session" where
  "grantOutputCredit f s =
     (if \<not> positiveSafeInteger (fr_sequence f) \<or> length (fr_payload f) < 1 \<or> trim (fr_track f) = []
      then (Some (TypeErr ''Output credit requires a consumed media frame''), s)
      else sendJSON (jobj [(''type'', jlit ''flow.credit''), (''bytes'', jint (int (length (fr_payload f)))), (''frames'', jint 1),
             (''track_id'', JStr (fr_track f)), (''acknowledged_sequence'', JNum (fr_sequence f))]) s)"

definition ping :: "rt_session \<Rightarrow> rt_error option \<times> rt_session" where
  "ping s = sendJSON (jobj [(''type'', jlit ''ping'')]) s"

definition cancel_session :: "rt_session \<Rightarrow> rt_error option \<times> rt_session" where
  "cancel_session s = sendJSON (jobj [(''type'', jlit ''session.cancel'')]) s"

subsection \<open>Runs\<close>

inductive mm_step :: "rt_session \<Rightarrow> rt_session \<Rightarrow> bool" where
  message: "mm_step s (on_message data s)"
| processed: "mm_step s (process_next s)"
| socket_error: "mm_step s (on_error s)"
| socket_closed: "mm_step s (on_close code s)"
| socket_state: "mm_step s (s\<lparr>rs_readyState := n, rs_protocol := p\<rparr>)"
| begin_start: "mm_step s (snd (start_begin request s))"
| open_start: "rs_starting s = Opening request \<Longrightarrow> rs_readyState s \<noteq> 0 \<Longrightarrow> mm_step s (snd (start_open w request s))"
| finish_start: "rs_starting s = Answering request w \<Longrightarrow> (w, answer) \<in> set (rs_settled s)
    \<Longrightarrow> mm_step s (snd (start_finish request answer (s\<lparr>rs_starting := NotStarting\<rparr>)))"
| read_next: "mm_step s (read_event w s)"
| read_aborted: "mm_step s (abort_read w s)"
| media: "mm_step s (sendMedia i f s)"
| object: "mm_step s (sendObjectRef i r s)"
| resumed: "mm_step s (resume_send s)"
| send_aborted: "mm_step s (abort_send i s)"
| handed: "mm_step s (hand_over s)"
| control: "mm_step s (snd (sendJSON v s))"
| closed_by_client: "mm_step s (close_socket code reason s)"

inductive mm_reachable :: "rt_session \<Rightarrow> bool" where
  initial: "new_rt_session m = Inr s \<Longrightarrow> mm_reachable s"
| step: "mm_reachable s \<Longrightarrow> mm_step s s' \<Longrightarrow> mm_reachable s'"

section \<open>Flow control\<close>

definition bytes_of :: "transmission list \<Rightarrow> int" where
  "bytes_of ts = sum_list (map (\<lambda>t. int_of (size_of t)) ts)"

definition sequences_on :: "jstring \<Rightarrow> transmission list \<Rightarrow> int list" where
  "sequences_on track ts = map (\<lambda>t. int_of (sequence_of t)) (filter (\<lambda>t. track_of t = track) ts)"

text \<open>The window: what was sent and what is left make up the credit, which stays within the negotiated limits.\<close>

definition window_ok :: "rt_session \<Rightarrow> bool" where
  "window_ok s \<longleftrightarrow> (case rs_inputLimits s of
       None \<Rightarrow> rs_history s = [] \<and> rs_grantedBytes s = 0 \<and> rs_grantedFrames s = 0
     | Some l \<Rightarrow> 0 \<le> rs_inputBytes s \<and> rs_inputBytes s \<le> li_in_flight_bytes l \<and> 0 \<le> rs_inputFrames s \<and> rs_inputFrames s \<le> li_in_flight_frames l
         \<and> li_frame_bytes l \<le> MULTIMODAL_MAX_FRAME_BYTES \<and> li_in_flight_bytes l \<le> MULTIMODAL_MAX_IN_FLIGHT_BYTES
         \<and> li_in_flight_frames l \<le> MULTIMODAL_MAX_IN_FLIGHT_FRAMES
         \<and> bytes_of (rs_history s) + rs_inputBytes s = rs_grantedBytes s \<and> int (length (rs_history s)) + rs_inputFrames s = rs_grantedFrames s
         \<and> (\<forall>t \<in> set (rs_history s). 0 < int_of (size_of t) \<and> int_of (size_of t) \<le> li_frame_bytes l))"

text \<open>Sequence numbers increase on every track.\<close>

definition order_ok :: "rt_session \<Rightarrow> bool" where
  "order_ok s \<longleftrightarrow> (\<forall>track. sorted_wrt (<) (sequences_on track (rs_history s))
     \<and> (\<forall>n \<in> set (sequences_on track (rs_history s)). n \<le> last_sequence (rs_sequences s) track))
     \<and> rs_history s = rs_handed s @ map snd (rs_reserved s)"

text \<open>A session starts once.\<close>

definition start_once :: "rt_session \<Rightarrow> bool" where
  "start_once s \<longleftrightarrow> (rs_starting s \<noteq> NotStarting \<or> rs_inputLimits s \<noteq> None \<longrightarrow> rs_startAttempted s)
     \<and> (rs_starting s \<noteq> NotStarting \<longrightarrow> rs_inputLimits s = None)"

definition flow_ok :: "rt_session \<Rightarrow> bool" where
  "flow_ok s \<longleftrightarrow> window_ok s \<and> order_ok s \<and> start_once s"

text \<open>The fields the invariant speaks of. Most operations leave them alone.\<close>

definition flow :: "rt_session \<Rightarrow> _" where
  "flow s = (rs_inputLimits s, rs_inputBytes s, rs_inputFrames s, rs_grantedBytes s, rs_grantedFrames s, rs_history s, rs_handed s,
     map snd (rs_reserved s), rs_sequences s, rs_startAttempted s, rs_starting s)"

lemma flow_ok_cong: "flow s' = flow s \<Longrightarrow> flow_ok s' = flow_ok s"
  by (simp add: flow_def flow_ok_def window_ok_def order_ok_def start_once_def split: option.split)

lemma flow_ok_same: "flow_ok s \<Longrightarrow> flow s' = flow s \<Longrightarrow> flow_ok s'"
  using flow_ok_cong by blast

lemma flow_simps [simp]:
  "flow (notifyCredit s) = flow s" "flow (close_socket code reason s) = flow s" "flow (record_outcome i r s) = flow s" "flow (put_wire wi s) = flow s"
  "flow (fail e s) = flow s" "flow (on_error s) = flow s" "flow (on_close code s) = flow s" "flow (on_message data s) = flow s"
  "flow (abort_read w s) = flow s" "flow (abort_send i s) = flow s" "flow (snd (sendJSON v s)) = flow s"
  by (simp_all add: flow_def notifyCredit_def close_socket_def record_outcome_def put_wire_def fail_def on_error_def on_close_def on_message_def
      abort_read_def abort_send_def sendJSON_def)

lemma flow_updates [simp]:
  "flow (s\<lparr>rs_settled := x\<rparr>) = flow s" "flow (s\<lparr>rs_waiters := ws\<rparr>) = flow s" "flow (s\<lparr>rs_queue := q\<rparr>) = flow s"
  "flow (s\<lparr>rs_pendingMessages := ds\<rparr>) = flow s" "flow (s\<lparr>rs_woken := x'\<rparr>) = flow s" "flow (s\<lparr>rs_creditWaiters := x'\<rparr>) = flow s"
  "flow (s\<lparr>rs_droppedLatest := ts\<rparr>) = flow s" "flow (s\<lparr>rs_readyState := n, rs_protocol := pr\<rparr>) = flow s" "flow (s\<lparr>rs_wire := wi\<rparr>) = flow s"
  by (simp_all add: flow_def)

lemma applyInputCredit_flow: "applyInputCredit credit s = Inr s' \<Longrightarrow> flow_ok s \<Longrightarrow> flow_ok s'"
  by (auto simp: applyInputCredit_def Let_def flow_ok_def window_ok_def order_ok_def start_once_def notifyCredit_def
      elim!: positive_cases split: bool.splits option.splits if_splits)

lemma consumeEvent_flow: "flow_ok s \<Longrightarrow> flow_ok (snd (consumeEvent ev s))"
  by (auto simp: consumeEvent_def split: sum.split dest: applyInputCredit_flow)

lemma settle_flow: "flow_ok s \<Longrightarrow> flow_ok (settle w ev s)"
  using consumeEvent_flow [of s ev] flow_ok_cong [of "settle w ev s" "snd (consumeEvent ev s)"]
  by (simp add: settle_def case_prod_beta)

lemma flow_ok_updates:
  assumes "flow_ok s"
  shows "flow_ok (s\<lparr>rs_settled := x\<rparr>)" "flow_ok (s\<lparr>rs_waiters := ws\<rparr>)" "flow_ok (s\<lparr>rs_queue := q\<rparr>)" "flow_ok (s\<lparr>rs_pendingMessages := ds\<rparr>)"
    "flow_ok (close_socket code reason s)" "flow_ok (fail e s)" "flow_ok (s\<lparr>rs_woken := x'\<rparr>)"
  by (rule flow_ok_same [OF assms], simp)+

lemma enqueue_event_flow: "flow_ok s \<Longrightarrow> flow_ok (snd (enqueue_event ev s))"
  by (simp add: enqueue_event_def settle_flow flow_ok_updates split: list.split)

lemma processMessage_flow: "flow_ok s \<Longrightarrow> flow_ok (snd (processMessage data s))"
  by (simp add: processMessage_def enqueue_event_flow split: ws_data.split option.split sum.split)

lemma process_next_flow: "flow_ok s \<Longrightarrow> flow_ok (process_next s)"
  using processMessage_flow
  by (auto simp: process_next_def flow_ok_updates case_prod_beta split: list.split option.split)

lemma nextEvent_flow: "flow_ok s \<Longrightarrow> flow_ok (nextEvent w s)"
  by (simp add: nextEvent_def settle_flow flow_ok_updates split: list.split option.split)

lemma last_sequence_set: "last_sequence (map_set m k n) k' = (if k' = k then n else last_sequence m k')"
  by (simp add: last_sequence_def map_get_set)

lemma sequences_on_simps:
  "sequences_on track [] = []" "sequences_on track (t # ts) = (if track_of t = track then [int_of (sequence_of t)] else []) @ sequences_on track ts"
  "sequences_on track (ts @ ts') = sequences_on track ts @ sequences_on track ts'"
  by (simp_all add: sequences_on_def)

lemma reserve_other: "reserveInput t s = (r, s') \<Longrightarrow> r \<noteq> Reserved \<Longrightarrow> flow s' = flow s"
  by (auto simp: reserveInput_def Let_def split: option.splits bool.splits if_splits)

lemma reserve_reserved:
  assumes "reserveInput t s = (Reserved, s')"
  shows "\<exists>l. rs_inputLimits s = Some l \<and> positiveSafeInteger (size_of t) \<and> int_of (size_of t) \<le> li_frame_bytes l
    \<and> last_sequence (rs_sequences s) (track_of t) < int_of (sequence_of t) \<and> int_of (size_of t) \<le> rs_inputBytes s \<and> 0 < rs_inputFrames s
    \<and> s' = s\<lparr>rs_inputBytes := rs_inputBytes s - int_of (size_of t), rs_inputFrames := rs_inputFrames s - 1,
          rs_sequences := map_set (rs_sequences s) (track_of t) (int_of (sequence_of t)), rs_history := rs_history s @ [t]\<rparr>"
  using assms by (simp add: reserveInput_def Let_def split: option.splits bool.splits if_splits)

lemma order_snoc:
  assumes "order_ok s" "last_sequence (rs_sequences s) (track_of t) < int_of (sequence_of t)"
    and "rs_history s' = rs_history s @ [t]" "rs_sequences s' = map_set (rs_sequences s) (track_of t) (int_of (sequence_of t))"
      "rs_handed s' = rs_handed s" "rs_reserved s' = rs_reserved s @ [(i, t)]"
  shows "order_ok s'"
proof -
  have "sorted_wrt (<) (sequences_on track (rs_history s')) \<and> (\<forall>n \<in> set (sequences_on track (rs_history s')). n \<le> last_sequence (rs_sequences s') track)" for track
  proof (cases "track_of t = track")
    case True
    from assms(1) have "\<forall>n \<in> set (sequences_on track (rs_history s)). n \<le> last_sequence (rs_sequences s) track" by (simp add: order_ok_def)
    with assms(2) True have "\<forall>n \<in> set (sequences_on track (rs_history s)). n < int_of (sequence_of t)" by force
    moreover from assms(1) have "sorted_wrt (<) (sequences_on track (rs_history s))" unfolding order_ok_def by blast
    ultimately show ?thesis using assms(3,4) True by (auto simp: sequences_on_simps last_sequence_set sorted_wrt_append intro: less_imp_le)
  next
    case False
    with assms show ?thesis by (auto simp: order_ok_def sequences_on_simps last_sequence_set)
  qed
  with assms show ?thesis by (simp add: order_ok_def)
qed

lemma reserve_flow:
  assumes "flow_ok s" "reserveInput t s = (Reserved, s')"
  shows "flow_ok (s'\<lparr>rs_reserved := rs_reserved s' @ [(i, t)]\<rparr>)"
proof -
  obtain l where l: "rs_inputLimits s = Some l" "positiveSafeInteger (size_of t)" "int_of (size_of t) \<le> li_frame_bytes l"
      "last_sequence (rs_sequences s) (track_of t) < int_of (sequence_of t)" "int_of (size_of t) \<le> rs_inputBytes s" "0 < rs_inputFrames s"
    and s': "s' = s\<lparr>rs_inputBytes := rs_inputBytes s - int_of (size_of t), rs_inputFrames := rs_inputFrames s - 1,
          rs_sequences := map_set (rs_sequences s) (track_of t) (int_of (sequence_of t)), rs_history := rs_history s @ [t]\<rparr>"
    using reserve_reserved [OF assms(2)] by blast
  from l(2) have t: "0 < int_of (size_of t)" by (auto elim: positive_cases)
  from assms(1) have w: "window_ok s" "order_ok s" "start_once s" by (simp_all add: flow_ok_def)
  have "window_ok (s'\<lparr>rs_reserved := rs_reserved s' @ [(i, t)]\<rparr>)" using w(1) l t s' by (simp add: window_ok_def bytes_of_def)
  moreover have "order_ok (s'\<lparr>rs_reserved := rs_reserved s' @ [(i, t)]\<rparr>)" by (rule order_snoc [OF w(2) l(4)]) (simp_all add: s')
  moreover have "start_once (s'\<lparr>rs_reserved := rs_reserved s' @ [(i, t)]\<rparr>)" using w(3) s' by (simp add: start_once_def)
  ultimately show ?thesis by (simp add: flow_ok_def)
qed

lemma attempt_flow:
  assumes "flow_ok s"
  shows "flow_ok (attempt_send i t s)"
proof (cases "reserveInput t s")
  case (Pair r s')
  show ?thesis
  proof (cases "r = Reserved")
    case True
    with Pair reserve_flow [OF assms, of t s' i] show ?thesis by (simp add: attempt_send_def)
  next
    case False
    with Pair have "flow (attempt_send i t s) = flow s'" by (simp add: attempt_send_def split: reservation.split)
    with reserve_other [OF Pair False] show ?thesis using flow_ok_same [OF assms] by simp
  qed
qed

lemma start_begin_flow: "flow_ok s \<Longrightarrow> flow_ok (snd (start_begin request s))"
  by (auto simp: start_begin_def flow_ok_def window_ok_def order_ok_def start_once_def split: sum.split option.splits)

lemma start_open_flow:
  assumes "flow_ok s" "rs_starting s = Opening request"
  shows "flow_ok (snd (start_open w request s))"
proof -
  from assms have "flow_ok (s\<lparr>rs_starting := NotStarting\<rparr>)" "flow_ok (s\<lparr>rs_starting := Answering request w, rs_wire := rs_wire s @ [WireStart request]\<rparr>)"
    by (auto simp: flow_ok_def window_ok_def order_ok_def start_once_def split: option.splits)
  then show ?thesis by (simp add: start_open_def flow_ok_updates nextEvent_flow)
qed

lemma start_finish_flow:
  assumes "flow_ok s" "rs_starting s = Answering request w"
  shows "flow_ok (snd (start_finish request answer (s\<lparr>rs_starting := NotStarting\<rparr>)))"
proof -
  have none: "rs_inputLimits s = None" "rs_history s = []" "rs_startAttempted s" using assms by (auto simp: flow_ok_def window_ok_def start_once_def)
  have same: "flow_ok (s\<lparr>rs_starting := NotStarting\<rparr>)" using assms by (auto simp: flow_ok_def window_ok_def order_ok_def start_once_def split: option.splits)
  show ?thesis
  proof (cases "start_finish request answer (s\<lparr>rs_starting := NotStarting\<rparr>)")
    case (Pair e s')
    show ?thesis
    proof (cases e)
      case (Some err)
      with Pair same show ?thesis by (auto simp: start_finish_def Let_def split: sum.splits rt_event.splits if_splits)
    next
      case None
      then obtain v where v: "answer = Inr (Control v)" "validateSessionStarted (dot v ''started'') request = Inr ()"
          "dot v ''type'' \<noteq> jlit ''error''" "dot v ''started'' \<noteq> JUndef"
        using Pair by (auto simp: start_finish_def Let_def split: sum.splits rt_event.splits if_splits)
      then have "validFlowLimits (dot (dot v ''started'') ''input_flow_limits'')"
          "bounded_field (dot (dot v ''started'') ''initial_input_credit'') ''bytes'' (int_of (num_field (dot (dot v ''started'') ''input_flow_limits'') ''max_in_flight_bytes''))"
          "bounded_field (dot (dot v ''started'') ''initial_input_credit'') ''frames'' (int_of (num_field (dot (dot v ''started'') ''input_flow_limits'') ''max_in_flight_frames''))"
        by (auto simp: validateSessionStarted_def Let_def split: if_splits)
      with v none assms show ?thesis
        by (auto simp: start_finish_def Let_def flow_ok_def window_ok_def order_ok_def start_once_def notifyCredit_def validFlowLimits_def bounded_field_def bytes_of_def
            elim!: positive_cases)
    qed
  qed
qed

lemma hand_over_flow: "flow_ok s \<Longrightarrow> flow_ok (hand_over s)"
proof (cases "rs_reserved s")
  case (Cons x rest)
  obtain i t where x: "x = (i, t)" by (cases x)
  let ?s1 = "s\<lparr>rs_reserved := rest, rs_handed := rs_handed s @ [t], rs_droppedLatest := filter (\<lambda>y. y \<noteq> track_of t) (rs_droppedLatest s)\<rparr>"
  assume "flow_ok s"
  then have "flow_ok ?s1" using Cons x by (auto simp: flow_ok_def window_ok_def order_ok_def start_once_def split: option.splits)
  moreover have "flow (hand_over s) = flow ?s1"
    using Cons x by (simp add: hand_over_def Let_def split: transmission.split sum.split)
  ultimately show ?thesis using flow_ok_cong by blast
qed (simp add: hand_over_def)

lemma sends_flow:
  assumes "flow_ok s"
  shows "flow_ok (sendMedia i f s)" "flow_ok (sendObjectRef i r s)" "flow_ok (resume_send s)"
  using attempt_flow [OF assms] attempt_flow [OF flow_ok_updates(7) [OF assms]] flow_ok_same [OF assms, of "record_outcome i e s" for e]
  by (simp_all add: sendMedia_def sendObjectRef_def resume_send_def assms split: sum.split list.split)

lemma mm_step_flow:
  assumes "mm_step s s'" "flow_ok s"
  shows "flow_ok s'"
  using assms(1)
proof cases
  case finish_start
  with assms(2) start_finish_flow show ?thesis by blast
next
  case open_start
  with assms(2) start_open_flow show ?thesis by blast
next
  case read_next
  with assms(2) nextEvent_flow show ?thesis by (simp add: read_event_def flow_ok_updates)
qed (use assms(2) in \<open>auto intro: flow_ok_same process_next_flow start_begin_flow hand_over_flow sends_flow\<close>)

lemma reachable_flow: "mm_reachable s \<Longrightarrow> flow_ok s"
proof (induction rule: mm_reachable.induct)
  case (initial m s)
  then show ?case
    by (auto simp: new_rt_session_def Let_def flow_ok_def window_ok_def order_ok_def start_once_def sequences_on_def split: if_splits)
next
  case (step s s')
  then show ?case using mm_step_flow by blast
qed

section \<open>The wire\<close>

text \<open>What the server sees of a transmission: track, sequence number and size, as it decodes them.\<close>

type_synonym item = "jstring \<times> int \<times> int"

definition item_of :: "transmission \<Rightarrow> item" where
  "item_of t = (track_of t, int_of (sequence_of t), int_of (size_of t))"

definition wire_item :: "wire \<Rightarrow> item option" where
  "wire_item w = (case w of
       WireMedia bs \<Rightarrow> (case decodeMultimodalMediaFrame bs of Inr f \<Rightarrow> Some (item_of (SendMedia f)) | Inl e \<Rightarrow> None)
     | WireObject r \<Rightarrow> Some (item_of (SendObject r))
     | _ \<Rightarrow> None)"

definition wire_items :: "wire list \<Rightarrow> item list" where
  "wire_items ws = List.map_filter wire_item ws"

definition transmission_ok :: "transmission \<Rightarrow> bool" where
  "transmission_ok t \<longleftrightarrow> (case t of SendMedia f \<Rightarrow> frame_ok f | SendObject r \<Rightarrow> True)"

definition waiting :: "rt_session \<Rightarrow> transmission set" where
  "waiting s = snd ` (set (rs_creditWaiters s) \<union> set (rs_woken s) \<union> set (rs_reserved s))"

definition wire_ok :: "rt_session \<Rightarrow> bool" where
  "wire_ok s \<longleftrightarrow> subseq (wire_items (rs_wire s)) (map item_of (rs_handed s))
     \<and> (\<forall>t \<in> waiting s. transmission_ok t)"

lemma wire_items_simps [simp]:
  "wire_items [] = []" "wire_items (ws @ ws') = wire_items ws @ wire_items ws'" "wire_items [w] = (case wire_item w of None \<Rightarrow> [] | Some x \<Rightarrow> [x])"
  by (simp_all add: wire_items_def map_filter_def split: option.split)

lemma wire_item_other [simp]: "wire_item (WireStart r) = None" "wire_item (WireControl v) = None"
  by (simp_all add: wire_item_def)

lemma sent_frame_simps [simp]:
  "fr_kind (sent_frame f d) = fr_kind f" "fr_sequence (sent_frame f d) = fr_sequence f" "fr_timestamp (sent_frame f d) = fr_timestamp f"
  "fr_track (sent_frame f d) = fr_track f" "fr_payload (sent_frame f d) = fr_payload f"
  by (simp_all add: sent_frame_def)

lemma sent_frame_ok:
  assumes "frame_ok f"
  shows "frame_ok (sent_frame f d)" "int_of (flags_value (sent_frame f d)) < 2 ^ 32"
proof -
  let ?w = "flags_word f OR (if d then Discontinuity else 0)"
  define i where "i = uint ?w"
  have i0: "0 \<le> i" "i < 2 ^ 32" using uint_lt2p [of ?w] by (simp_all add: i_def)
  have v: "flags_value (sent_frame f d) = Fin (of_int i)" unfolding i_def by (simp add: sent_frame_def flags_value_def sent_flags_def)
  then have "flags_word (sent_frame f d) = word_of_int i" by (simp add: flags_word_def)
  then have w: "flags_word (sent_frame f d) = ?w" unfolding i_def by (simp only: word_of_int_uint)
  have "Discontinuity AND NOT allowedMediaFlags = 0" by (simp add: Discontinuity_def allowedMediaFlags_def)
  then have "?w AND NOT allowedMediaFlags = 0" using frame_okD(12) [OF assms] by (simp add: bit.conj_disj_distrib2)
  moreover have "is_integer (flags_value (sent_frame f d))" "\<not> num_less (flags_value (sent_frame f d)) (Fin 0)"
    using v i0 by (simp_all add: is_integer_def)
  ultimately show "frame_ok (sent_frame f d)"
    using assms w by (simp add: frame_ok_def validateMediaFrame_def Let_def split: if_splits)
  show "int_of (flags_value (sent_frame f d)) < 2 ^ 32" using v i0 by simp
qed

lemma sent_item:
  assumes "frame_ok f" "encodeMultimodalMediaFrame (sent_frame f d) = Inr bs"
  shows "wire_item (WireMedia bs) = Some (item_of (SendMedia f))"
proof -
  note ok = sent_frame_ok [OF assms(1), of d]
  from decode_frame_bytes [OF ok] assms(2) frame_okD(4) [OF ok(1)]
  have "decodeMultimodalMediaFrame bs = Inr (sent_frame f d\<lparr>fr_flags := Some (flags_value (sent_frame f d))\<rparr>)" by (simp add: encode_eq)
  then show ?thesis by (simp add: wire_item_def item_of_def)
qed

text \<open>The wire only changes when a transmission is handed over or a control message is sent, and the transmissions under way only when
  one is begun, aborted or handed over.\<close>

definition wire_view :: "rt_session \<Rightarrow> _" where
  "wire_view s = (wire_items (rs_wire s), rs_handed s, waiting s)"

lemma wire_ok_same: "wire_ok s \<Longrightarrow> wire_view s' = wire_view s \<Longrightarrow> wire_ok s'"
  by (simp add: wire_ok_def wire_view_def)

lemma wire_view_simps [simp]:
  "wire_view (notifyCredit s) = wire_view s" "wire_view (close_socket code reason s) = wire_view s" "wire_view (record_outcome i r s) = wire_view s"
  "wire_view (s\<lparr>rs_settled := x\<rparr>) = wire_view s" "wire_view (s\<lparr>rs_waiters := ws\<rparr>) = wire_view s" "wire_view (s\<lparr>rs_queue := q\<rparr>) = wire_view s"
  "wire_view (s\<lparr>rs_pendingMessages := ds\<rparr>) = wire_view s" "wire_view (s\<lparr>rs_readyState := n, rs_protocol := pr\<rparr>) = wire_view s"
  "wire_view (s\<lparr>rs_starting := st\<rparr>) = wire_view s" "wire_view (s\<lparr>rs_droppedLatest := ts\<rparr>) = wire_view s"
  by (auto simp: wire_view_def waiting_def notifyCredit_def close_socket_def record_outcome_def)

lemma wire_view_fail [simp]:
  "wire_view (fail e s) = wire_view s" "wire_view (on_error s) = wire_view s" "wire_view (on_close code s) = wire_view s"
  "wire_view (on_message data s) = wire_view s" "wire_view (abort_read w s) = wire_view s" "wire_view (snd (sendJSON v s)) = wire_view s"
  by (auto simp: wire_view_def waiting_def fail_def notifyCredit_def on_error_def on_close_def on_message_def close_socket_def abort_read_def sendJSON_def put_wire_def)

lemma wire_view_credit: "applyInputCredit credit s = Inr s' \<Longrightarrow> wire_view s' = wire_view s"
  by (auto simp: applyInputCredit_def Let_def wire_view_def waiting_def notifyCredit_def split: bool.splits option.splits if_splits)

lemma wire_view_settle [simp]: "wire_view (settle w ev s) = wire_view s"
  by (simp add: settle_def consumeEvent_def wire_view_credit split: sum.split)

lemma wire_view_events [simp]:
  "wire_view (snd (enqueue_event ev s)) = wire_view s" "wire_view (nextEvent w s) = wire_view s"
  by (simp_all add: enqueue_event_def nextEvent_def split: list.split option.split)

lemma wire_view_process [simp]: "wire_view (snd (processMessage data s)) = wire_view s" "wire_view (process_next s) = wire_view s"
proof -
  show p: "wire_view (snd (processMessage data s)) = wire_view s" for data s
    by (simp add: processMessage_def split: ws_data.split option.split sum.split)
  show "wire_view (process_next s) = wire_view s"
    by (simp add: process_next_def case_prod_beta p split: list.split option.split)
qed

lemma wire_view_start [simp]:
  "wire_view (snd (start_begin request s)) = wire_view s" "wire_view (snd (start_open w request s)) = wire_view s"
  "wire_view (snd (start_finish request answer s)) = wire_view s"
proof -
  have "wire_view (s\<lparr>rs_starting := st, rs_wire := rs_wire s @ [WireStart r]\<rparr>) = wire_view s" for st r
    by (simp add: wire_view_def waiting_def)
  then show "wire_view (snd (start_open w request s)) = wire_view s" by (simp add: start_open_def)
  show "wire_view (snd (start_begin request s)) = wire_view s"
    by (simp add: start_begin_def wire_view_def waiting_def split: sum.split)
  show "wire_view (snd (start_finish request answer s)) = wire_view s"
    by (auto simp: start_finish_def Let_def wire_view_def waiting_def notifyCredit_def split: sum.split rt_event.split)
qed

lemma wire_view_reserve: "reserveInput t s = (r, s') \<Longrightarrow> wire_view s' = wire_view s"
  by (auto simp: reserveInput_def Let_def wire_view_def waiting_def split: option.splits bool.splits if_splits)

lemma attempt_wire:
  assumes "wire_ok s" "transmission_ok t"
  shows "wire_ok (attempt_send i t s)"
proof (cases "reserveInput t s")
  case (Pair r s')
  from wire_ok_same [OF assms(1) wire_view_reserve [OF Pair]] have ok: "wire_ok s'" .
  then have "wire_ok (s'\<lparr>rs_creditWaiters := rs_creditWaiters s' @ [(i, t)]\<rparr>)" "wire_ok (s'\<lparr>rs_reserved := rs_reserved s' @ [(i, t)]\<rparr>)"
    using assms(2) by (auto simp: wire_ok_def waiting_def)
  with Pair ok wire_ok_same [OF ok] show ?thesis by (simp add: attempt_send_def split: reservation.split)
qed

lemma sends_wire:
  assumes "wire_ok s"
  shows "wire_ok (sendMedia i f s)" "wire_ok (sendObjectRef i r s)" "wire_ok (resume_send s)" "wire_ok (abort_send i s)"
proof -
  show "wire_ok (sendMedia i f s)"
    using attempt_wire [OF assms, of "SendMedia f" i] wire_ok_same [OF assms, of "record_outcome i e s" for e]
    by (simp add: sendMedia_def transmission_ok_def frame_ok_def split: sum.split)
  show "wire_ok (sendObjectRef i r s)"
    using attempt_wire [OF assms, of "SendObject r" i] wire_ok_same [OF assms, of "record_outcome i e s" for e]
    by (simp add: sendObjectRef_def transmission_ok_def)
  show "wire_ok (resume_send s)"
  proof (cases "rs_woken s")
    case (Cons x rest)
    then have "wire_ok (s\<lparr>rs_woken := rest\<rparr>)" "transmission_ok (snd x)" using assms by (auto simp: wire_ok_def waiting_def)
    with Cons attempt_wire show ?thesis by (simp add: resume_send_def case_prod_beta)
  qed (simp add: resume_send_def assms)
  show "wire_ok (abort_send i s)"
    using assms by (auto simp: abort_send_def record_outcome_def wire_ok_def waiting_def)
qed

lemma hand_over_wire:
  assumes "wire_ok s"
  shows "wire_ok (hand_over s)"
proof (cases "rs_reserved s")
  case (Cons x rest)
  obtain i t where x: "x = (i, t)" by (cases x)
  let ?d = "track_of t \<in> set (rs_droppedLatest s)"
  let ?s1 = "s\<lparr>rs_reserved := rest, rs_handed := rs_handed s @ [t], rs_droppedLatest := filter (\<lambda>y. y \<noteq> track_of t) (rs_droppedLatest s)\<rparr>"
  have t: "transmission_ok t" using assms Cons x by (auto simp: wire_ok_def waiting_def)
  have w: "wire_ok ?s1" using assms Cons x by (auto simp: wire_ok_def waiting_def subseq_append_iff intro: subseq_rev_drop_many)
  have o: "wire_ok (record_outcome i r s') = wire_ok s'" for r s' by (simp add: wire_ok_def record_outcome_def waiting_def)
  have p: "wire_ok (put_wire wi ?s1)" if "wire_item wi = Some (item_of t)" for wi
    using w assms that Cons x by (auto simp: put_wire_def wire_ok_def waiting_def intro: list_emb_append_mono)
  show ?thesis
  proof (cases t)
    case (SendMedia f)
    with t have "frame_ok f" by (simp add: transmission_ok_def)
    with SendMedia Cons x w o p sent_item show ?thesis by (simp add: hand_over_def Let_def split: sum.split)
  next
    case (SendObject r)
    with Cons x w o p [of "WireObject r"] show ?thesis by (simp add: hand_over_def Let_def wire_item_def)
  qed
qed (simp add: hand_over_def assms)

lemma mm_step_wire:
  assumes "mm_step s s'" "wire_ok s"
  shows "wire_ok s'"
  using assms(1)
  by cases (use assms(2) in \<open>auto simp: read_event_def intro: wire_ok_same sends_wire hand_over_wire\<close>)

lemma reachable_wire: "mm_reachable s \<Longrightarrow> wire_ok s"
proof (induction rule: mm_reachable.induct)
  case (initial m s)
  then show ?case by (auto simp: new_rt_session_def Let_def wire_ok_def waiting_def split: if_splits)
next
  case (step s s')
  then show ?case using mm_step_wire by blast
qed

lemma subseq_sum:
  assumes "subseq xs ys" "\<forall>y \<in> set ys. 0 \<le> (f y :: int)"
  shows "sum_list (map f xs) \<le> sum_list (map f ys)"
  using assms by (induction rule: list_emb.induct) (auto intro!: sum_list_nonneg)

lemma subseq_sorted_wrt:
  assumes "subseq xs ys" "sorted_wrt P ys"
  shows "sorted_wrt P xs"
  using assms
proof (induction rule: list_emb.induct)
  case (list_emb_Cons2 x y xs ys)
  then show ?case using list_emb_set [OF list_emb_Cons2(2)] by fastforce
qed auto

definition wire_bytes :: "rt_session \<Rightarrow> int" where
  "wire_bytes s = sum_list (map (\<lambda>(track, sequence, size). size) (wire_items (rs_wire s)))"

definition wire_sequences :: "jstring \<Rightarrow> rt_session \<Rightarrow> int list" where
  "wire_sequences track s = map (\<lambda>(track, sequence, size). sequence) (filter (\<lambda>(track', sequence, size). track' = track) (wire_items (rs_wire s)))"

lemma wire_history:
  assumes "mm_reachable s"
  shows "subseq (wire_items (rs_wire s)) (map item_of (rs_history s))"
  using reachable_wire [OF assms] reachable_flow [OF assms]
  by (auto simp: wire_ok_def flow_ok_def order_ok_def intro: subseq_order.trans)

text \<open>C11: In every run of a session, whatever the server sends and in whatever order operations wait and are woken, the frames and object
  references on the wire never exceed the credit the server has granted, in bytes and in number; none is larger than the largest
  frame; and the credit that is left lies within the negotiated window.\<close>

theorem flow_control:
  assumes "mm_reachable s"
  shows "wire_bytes s \<le> rs_grantedBytes s \<and> int (length (wire_items (rs_wire s))) \<le> rs_grantedFrames s
    \<and> (\<forall>(track, sequence, size) \<in> set (wire_items (rs_wire s)). 0 < size \<and> size \<le> MULTIMODAL_MAX_FRAME_BYTES)
    \<and> (\<forall>l. rs_inputLimits s = Some l \<longrightarrow> 0 \<le> rs_inputBytes s \<and> rs_inputBytes s \<le> li_in_flight_bytes l
         \<and> 0 \<le> rs_inputFrames s \<and> rs_inputFrames s \<le> li_in_flight_frames l)"
proof -
  note w = wire_history [OF assms]
  have ok: "window_ok s" using reachable_flow [OF assms] by (simp add: flow_ok_def)
  then have sizes: "\<forall>t \<in> set (rs_history s). 0 < int_of (size_of t) \<and> int_of (size_of t) \<le> MULTIMODAL_MAX_FRAME_BYTES"
    by (fastforce simp: window_ok_def split: option.splits)
  have granted: "bytes_of (rs_history s) \<le> rs_grantedBytes s" "int (length (rs_history s)) \<le> rs_grantedFrames s"
    using ok by (auto simp: window_ok_def bytes_of_def split: option.splits)
  have "wire_bytes s \<le> sum_list (map (\<lambda>(track, sequence, size). size) (map item_of (rs_history s)))"
    unfolding wire_bytes_def by (rule subseq_sum [OF w]) (use sizes in \<open>force simp: item_of_def\<close>)
  also have "\<dots> = bytes_of (rs_history s)" by (simp add: bytes_of_def item_of_def comp_def)
  finally have "wire_bytes s \<le> rs_grantedBytes s" using granted(1) by simp
  moreover have "int (length (wire_items (rs_wire s))) \<le> rs_grantedFrames s" using list_emb_length [OF w] granted(2) by simp
  moreover have "set (wire_items (rs_wire s)) \<subseteq> item_of ` set (rs_history s)" using w by (auto dest: list_emb_set)
  then have "\<forall>(track, sequence, size) \<in> set (wire_items (rs_wire s)). 0 < size \<and> size \<le> MULTIMODAL_MAX_FRAME_BYTES"
    using sizes by (fastforce simp: item_of_def)
  moreover have "\<forall>l. rs_inputLimits s = Some l \<longrightarrow> 0 \<le> rs_inputBytes s \<and> rs_inputBytes s \<le> li_in_flight_bytes l
         \<and> 0 \<le> rs_inputFrames s \<and> rs_inputFrames s \<le> li_in_flight_frames l" using ok by (simp add: window_ok_def split: option.splits)
  ultimately show ?thesis by blast
qed

text \<open>C12: On every track the sequence numbers that reach the wire increase strictly.\<close>

theorem wire_in_sequence:
  assumes "mm_reachable s"
  shows "sorted_wrt (<) (wire_sequences track s)"
proof -
  let ?seq = "\<lambda>(track, sequence, size). sequence :: int" and ?on = "\<lambda>(track', sequence, size). track' = track"
  have "subseq (wire_sequences track s) (map ?seq (filter ?on (map item_of (rs_history s))))"
    unfolding wire_sequences_def by (intro subseq_map subseq_filter wire_history assms)
  moreover have "map ?seq (filter ?on (map item_of (rs_history s))) = sequences_on track (rs_history s)"
    by (simp add: sequences_on_def filter_map comp_def item_of_def)
  moreover have "sorted_wrt (<) (sequences_on track (rs_history s))" using reachable_flow [OF assms] unfolding flow_ok_def order_ok_def by blast
  ultimately show ?thesis using subseq_sorted_wrt by metis
qed

section \<open>Buffers and failure\<close>

text \<open>The buffers stay within the limit, a reader waits only while there is no event, and nobody waits in a session that has failed.\<close>

definition buffers_ok :: "rt_session \<Rightarrow> bool" where
  "buffers_ok s \<longleftrightarrow> int (length (rs_queue s)) \<le> rs_maxBufferedEvents s \<and> int (length (rs_pendingMessages s)) \<le> rs_maxBufferedEvents s
     \<and> (rs_waiters s \<noteq> [] \<longrightarrow> rs_queue s = []) \<and> (rs_failure s \<noteq> None \<longrightarrow> rs_waiters s = [] \<and> rs_creditWaiters s = [])"

lemmas buffer_defs = buffers_ok_def notifyCredit_def close_socket_def record_outcome_def put_wire_def

lemma fail_buffers: "buffers_ok s \<Longrightarrow> buffers_ok (fail e s)"
  by (auto simp: fail_def buffer_defs)

lemma credit_buffers: "applyInputCredit credit s = Inr s' \<Longrightarrow> buffers_ok s \<Longrightarrow> buffers_ok s'"
  by (auto simp: applyInputCredit_def Let_def buffer_defs split: bool.splits option.splits if_splits)

lemma settle_buffers: "buffers_ok s \<Longrightarrow> buffers_ok (settle w ev s)"
proof -
  assume s: "buffers_ok s"
  have "buffers_ok (snd (consumeEvent ev s))" using s credit_buffers by (auto simp: consumeEvent_def split: sum.split)
  then show ?thesis by (simp add: settle_def case_prod_beta buffers_ok_def)
qed

lemma enqueue_buffers: "buffers_ok s \<Longrightarrow> buffers_ok (snd (enqueue_event ev s))"
proof (cases "rs_waiters s")
  case (Cons w ws)
  assume "buffers_ok s"
  with Cons have "buffers_ok (s\<lparr>rs_waiters := ws\<rparr>)" by (auto simp: buffers_ok_def)
  with Cons settle_buffers show ?thesis by (simp add: enqueue_event_def)
qed (auto simp: enqueue_event_def buffer_defs)

lemma nextEvent_buffers: "buffers_ok s \<Longrightarrow> buffers_ok (nextEvent w s)"
proof (cases "rs_queue s")
  case (Cons ev rest)
  assume "buffers_ok s"
  with Cons have "buffers_ok (s\<lparr>rs_queue := rest\<rparr>)" by (auto simp: buffers_ok_def)
  with Cons settle_buffers show ?thesis by (simp add: nextEvent_def)
qed (auto simp: nextEvent_def buffer_defs split: option.split)

lemma process_buffers: "buffers_ok s \<Longrightarrow> buffers_ok (process_next s)"
proof (cases "rs_pendingMessages s")
  case (Cons data rest)
  assume "buffers_ok s"
  with Cons have "buffers_ok (s\<lparr>rs_pendingMessages := rest\<rparr>)" by (auto simp: buffers_ok_def)
  then have "buffers_ok (snd (processMessage data (s\<lparr>rs_pendingMessages := rest\<rparr>)))"
    by (simp add: processMessage_def enqueue_buffers split: ws_data.split option.split sum.split)
  with Cons fail_buffers show ?thesis by (auto simp: process_next_def case_prod_beta split: option.split)
qed (simp add: process_next_def)

lemma reserve_buffers: "reserveInput t s = (r, s') \<Longrightarrow> buffers_ok s \<Longrightarrow> buffers_ok s' \<and> (r = MustWait \<longrightarrow> rs_failure s' = None)"
  by (auto simp: reserveInput_def Let_def buffers_ok_def split: option.splits bool.splits if_splits)

lemma attempt_buffers: "buffers_ok s \<Longrightarrow> buffers_ok (attempt_send i t s)"
proof (cases "reserveInput t s")
  case (Pair r s')
  assume "buffers_ok s"
  with reserve_buffers [OF Pair] Pair show ?thesis by (cases r) (simp_all add: attempt_send_def record_outcome_def buffers_ok_def)
qed

lemma start_buffers:
  assumes "buffers_ok s"
  shows "buffers_ok (snd (start_begin request s))" "buffers_ok (snd (start_open w request s))"
    "buffers_ok (snd (start_finish request answer (s\<lparr>rs_starting := st\<rparr>)))"
proof -
  show "buffers_ok (snd (start_begin request s))" using assms by (auto simp: start_begin_def buffer_defs split: sum.split)
  have "buffers_ok (s\<lparr>rs_starting := Answering request w, rs_wire := rs_wire s @ [WireStart request]\<rparr>)" using assms by (simp add: buffers_ok_def)
  with nextEvent_buffers assms show "buffers_ok (snd (start_open w request s))" by (simp add: start_open_def close_socket_def) (simp add: buffers_ok_def)
  show "buffers_ok (snd (start_finish request answer (s\<lparr>rs_starting := st\<rparr>)))"
    using assms by (auto simp: start_finish_def Let_def buffer_defs split: sum.split rt_event.split)
qed

lemma hand_over_buffers: "buffers_ok s \<Longrightarrow> buffers_ok (hand_over s)"
proof (cases "rs_reserved s")
  case (Cons x rest)
  assume s: "buffers_ok s"
  obtain i t where x: "x = (i, t)" by (cases x)
  have o: "buffers_ok (record_outcome j r s') = buffers_ok s'" "buffers_ok (put_wire w s') = buffers_ok s'" for j r s' w by (simp_all add: buffer_defs)
  have "buffers_ok (s\<lparr>rs_reserved := a, rs_handed := b, rs_droppedLatest := c\<rparr>)" for a b c using s by (simp add: buffers_ok_def)
  with Cons x o show ?thesis by (simp add: hand_over_def Let_def split: transmission.split sum.split)
qed (simp add: hand_over_def)

lemma mm_step_buffers:
  assumes "mm_step s s'" "buffers_ok s"
  shows "buffers_ok s'"
  using assms(1)
proof cases
  case (message data)
  with assms(2) fail_buffers show ?thesis by (auto simp: on_message_def close_socket_def buffers_ok_def)
next
  case read_next
  with assms(2) nextEvent_buffers show ?thesis by (auto simp: read_event_def buffers_ok_def)
next
  case (media i f)
  with assms(2) attempt_buffers show ?thesis by (auto simp: sendMedia_def record_outcome_def buffers_ok_def split: sum.split)
next
  case (object i r)
  with assms(2) attempt_buffers show ?thesis by (auto simp: sendObjectRef_def record_outcome_def buffers_ok_def)
next
  case resumed
  have "buffers_ok (s\<lparr>rs_woken := r\<rparr>)" for r using assms(2) by (simp add: buffers_ok_def)
  with resumed assms(2) attempt_buffers show ?thesis by (auto simp: resume_send_def split: list.split)
qed (use assms(2) in \<open>auto simp: on_error_def on_close_def abort_read_def abort_send_def sendJSON_def
    intro: fail_buffers process_buffers start_buffers hand_over_buffers\<close>, auto simp: buffer_defs)

text \<open>C33: In every run the buffers of a session stay within their limit, readers wait only while no event is there, and after a failure no
  reader and no transmission waits for ever: all of them have been settled or woken.\<close>

theorem session_buffers:
  assumes "mm_reachable s"
  shows "buffers_ok s"
  using assms
proof (induction rule: mm_reachable.induct)
  case (initial m s)
  then show ?case by (auto simp: new_rt_session_def Let_def buffers_ok_def int_of_def num_val_def is_integer_def split: if_splits jsnum.splits option.splits)
next
  case (step s s')
  then show ?case using mm_step_buffers by blast
qed

section \<open>A run\<close>

text \<open>A session with one reliable track and room for four bytes. A frame of six bytes waits for credit; a later frame of two bytes does not.
  When more credit arrives and is read, the frame that waited is refused, because its sequence number has been overtaken.\<close>

definition mic_request :: session_start where
  "mic_request = \<lparr>ss_provider_id = lit ''p'', ss_model = lit ''m'', ss_session_id = None,
     ss_input_tracks = [\<lparr>tk_id = lit ''mic'', tk_kind = lit ''audio'', tk_delivery = lit ''reliable''\<rparr>], ss_output_modalities = [lit ''text'']\<rparr>"

definition demo_started :: jstring where
  "demo_started = [123, 34, 116, 121, 112, 101, 34, 58, 34, 115, 101, 115, 115, 105, 111, 110, 46, 115, 116, 97, 114, 116, 101, 100, 34, 44, 34, 112, 114, 111, 116, 111, 99, 111, 108, 95, 118, 101, 114, 115, 105, 111, 110, 34, 58, 34, 116, 109, 97, 46, 109, 117, 108, 116, 105, 109, 111, 100, 97, 108, 46, 114, 101, 97, 108, 116, 105, 109, 101, 46, 118, 49, 34, 44, 34, 115, 101, 115, 115, 105, 111, 110, 95, 105, 100, 34, 58, 34, 115, 34, 44, 34, 105, 110, 112, 117, 116, 95, 102, 108, 111, 119, 95, 108, 105, 109, 105, 116, 115, 34, 58, 123, 34, 109, 97, 120, 95, 102, 114, 97, 109, 101, 95, 98, 121, 116, 101, 115, 34, 58, 57, 44, 34, 109, 97, 120, 95, 105, 110, 95, 102, 108, 105, 103, 104, 116, 95, 98, 121, 116, 101, 115, 34, 58, 57, 44, 34, 109, 97, 120, 95, 105, 110, 95, 102, 108, 105, 103, 104, 116, 95, 102, 114, 97, 109, 101, 115, 34, 58, 50, 125, 44, 34, 105, 110, 105, 116, 105, 97, 108, 95, 105, 110, 112, 117, 116, 95, 99, 114, 101, 100, 105, 116, 34, 58, 123, 34, 98, 121, 116, 101, 115, 34, 58, 52, 44, 34, 102, 114, 97, 109, 101, 115, 34, 58, 50, 125, 125]"

definition demo_credit :: jstring where
  "demo_credit = [123, 34, 116, 121, 112, 101, 34, 58, 34, 102, 108, 111, 119, 46, 99, 114, 101, 100, 105, 116, 34, 44, 34, 98, 121, 116, 101, 115, 34, 58, 55, 44, 34, 102, 114, 97, 109, 101, 115, 34, 58, 49, 125]"

definition demo_frame :: "int \<Rightarrow> byte list \<Rightarrow> media_frame" where
  "demo_frame n bs = \<lparr>fr_kind = lit ''audio'', fr_flags = None, fr_sequence = Fin (of_int n), fr_timestamp = Fin 0, fr_track = lit ''mic'', fr_payload = bs\<rparr>"

definition demo_open :: rt_session where
  "demo_open = (projr (new_rt_session None))\<lparr>rs_readyState := 1, rs_protocol := MULTIMODAL_REALTIME_PROTOCOL\<rparr>"

definition demo_answered :: rt_session where
  "demo_answered = process_next (on_message (TextData demo_started) (snd (start_open 0 mic_request (snd (start_begin mic_request demo_open)))))"

definition demo_ready :: rt_session where
  "demo_ready = snd (start_finish mic_request (snd (hd (rs_settled demo_answered))) (demo_answered\<lparr>rs_starting := NotStarting\<rparr>))"

definition demo_sent :: rt_session where
  "demo_sent = hand_over (sendMedia 2 (demo_frame 2 [7, 8]) (sendMedia 1 (demo_frame 1 [1, 2, 3, 4, 5, 6]) demo_ready))"

definition demo_overtaken :: rt_session where
  "demo_overtaken = resume_send (read_event 3 (process_next (on_message (TextData demo_credit) demo_sent)))"

lemma demo_answered_state: "rs_starting demo_answered = Answering mic_request 0" "(0, snd (hd (rs_settled demo_answered))) \<in> set (rs_settled demo_answered)"
  by code_simp+

lemma demo_ready_state: "rs_started demo_ready" "rs_inputBytes demo_ready = 4"
  by code_simp+

lemma demo_sent_state: "wire_items (rs_wire demo_sent) = [(lit ''mic'', 2, 2)]" "rs_grantedBytes demo_sent = 4"
  by code_simp+

lemmas reach = mm_reachable.step [OF _ mm_step.message] mm_reachable.step [OF _ mm_step.processed] mm_reachable.step [OF _ mm_step.read_next]
  mm_reachable.step [OF _ mm_step.resumed] mm_reachable.step [OF _ mm_step.media] mm_reachable.step [OF _ mm_step.handed]

lemma demo_reachable: "mm_reachable demo_sent" "mm_reachable demo_overtaken"
proof -
  have "new_rt_session None = Inr (projr (new_rt_session None))" by (simp add: new_rt_session_def is_integer_def)
  then have "mm_reachable demo_open" unfolding demo_open_def by (intro mm_reachable.step [OF mm_reachable.initial]) (auto intro: mm_step.intros)
  then have b: "mm_reachable (snd (start_begin mic_request demo_open))" by (rule mm_reachable.step) (rule mm_step.begin_start)
  have "rs_starting (snd (start_begin mic_request demo_open)) = Opening mic_request" "rs_readyState (snd (start_begin mic_request demo_open)) \<noteq> 0" by code_simp+
  with b have "mm_reachable (snd (start_open 0 mic_request (snd (start_begin mic_request demo_open))))" by (blast intro: mm_reachable.step mm_step.open_start)
  then have "mm_reachable demo_answered" unfolding demo_answered_def by (intro reach)
  then have "mm_reachable demo_ready" unfolding demo_ready_def by (rule mm_reachable.step) (rule mm_step.finish_start [OF demo_answered_state])
  then show s: "mm_reachable demo_sent" unfolding demo_sent_def by (intro reach)
  then show "mm_reachable demo_overtaken" unfolding demo_overtaken_def by (intro reach)
qed

theorem flow_control_witness:
  "mm_reachable demo_sent \<and> wire_bytes demo_sent = 2 \<and> wire_bytes demo_sent \<le> rs_grantedBytes demo_sent"
proof -
  have "wire_bytes demo_sent = 2" by (simp add: wire_bytes_def demo_sent_state)
  with flow_control [OF demo_reachable(1)] demo_reachable(1) show ?thesis by blast
qed

theorem wire_in_sequence_witness: "mm_reachable demo_sent \<and> wire_sequences (lit ''mic'') demo_sent = [2] \<and> sorted_wrt (<) (wire_sequences (lit ''mic'') demo_sent)"
proof -
  have "wire_sequences (lit ''mic'') demo_sent = [2]" by (simp add: wire_sequences_def demo_sent_state)
  with wire_in_sequence [OF demo_reachable(1), of "lit ''mic''"] demo_reachable(1) show ?thesis by blast
qed

theorem session_buffers_witness: "mm_reachable demo_overtaken \<and> rs_creditWaiters demo_overtaken = [] \<and> buffers_ok demo_overtaken"
proof -
  have "rs_creditWaiters demo_overtaken = []" by code_simp
  with session_buffers [OF demo_reachable(2)] demo_reachable(2) show ?thesis by blast
qed


definition demo_bytes :: "byte list" where
  "demo_bytes = [84, 77, 65, 77, 1, 1, 0, 5, 0, 0, 0, 0, 0, 0, 0, 3, 0, 0, 0, 0, 0, 0, 0, 0, 0, 3, 0, 0, 109, 105, 99, 1, 2]"


text \<open>A frame on a reliable track that waits for credit can be lost: in this run a later, smaller frame of the same track is sent in the
  meantime, and when the credit arrives the waiting frame is refused because its sequence number no longer increases.\<close>

theorem reliable_frame_overtaken:
  "mm_reachable demo_overtaken \<and> (1, Inl (RangeErr ''Multimodal sequence must increase per track'')) \<in> set (rs_outcomes demo_overtaken)
     \<and> wire_sequences (lit ''mic'') demo_overtaken = [2] \<and> rs_inputBytes demo_overtaken = 9"
proof -
  have "(1, Inl (RangeErr ''Multimodal sequence must increase per track'')) \<in> set (rs_outcomes demo_overtaken)"
    "wire_sequences (lit ''mic'') demo_overtaken = [2]" "rs_inputBytes demo_overtaken = 9" by code_simp+
  with demo_reachable(2) show ?thesis by blast
qed

text \<open>Flags are tested as 32-bit numbers: a larger number passes and loses its upper bits on the wire.\<close>

lemma large_flags_accepted: "validateMediaFrame (demo_frame 3 [1, 2]\<lparr>fr_flags := Some (Fin 4294967296)\<rparr>) = Inr ()"
  by code_simp

end
