(* ===== verification/Event_Merge.thy ===== *)
theory Event_Merge
  imports Tool_Lifecycle
begin

text \<open>
  How the applications fold new events of a session into the events they already show: \<open>mergeEventResponses\<close> and
  \<open>highestEventSeq\<close> of the inspector (\<open>apps/inspector/src/utils.js\<close>) and \<open>mergeEvents\<close> of the workbench
  (\<open>apps/workbench/src/App.jsx\<close>). Both put the events into a \<open>Map\<close> and sort its values.

  A list of events is read as a finite map from keys to events (\<open>latest_at\<close>: the last event of a key). The locale
  \<open>keyed_log\<close> states that merging is the override of these maps; the locale \<open>ordered_log\<close> adds that the merged list is
  determined by its map. The inspector satisfies both, the workbench the first one only.
\<close>

section \<open>Sorting by a number\<close>

text \<open>\<open>sort((l, r) => f(l) - f(r))\<close>: \<open>NaN\<close> counts as zero.\<close>

definition num_le :: "jsnum \<Rightarrow> jsnum \<Rightarrow> bool" where
  "num_le a b \<longleftrightarrow> \<not> num_less b a"

definition num_max :: "jsnum \<Rightarrow> jsnum \<Rightarrow> jsnum" where
  "num_max a b = (if a = NaN \<or> b = NaN then NaN else if num_less a b then b else a)"

section \<open>A Map of events, sorted\<close>

definition log_map :: "('e \<Rightarrow> 'k) \<Rightarrow> ('e \<Rightarrow> bool) \<Rightarrow> 'e list \<Rightarrow> ('k, 'e) jmap" where
  "log_map key keep es = foldl (\<lambda>m e. if keep e then map_set m (key e) e else m) [] es"

definition merge_log :: "('e \<Rightarrow> 'k) \<Rightarrow> ('e \<Rightarrow> bool) \<Rightarrow> ('e \<Rightarrow> jsnum) \<Rightarrow> 'e list \<Rightarrow> 'e list" where
  "merge_log key keep pos es = sort_by (\<lambda>a b. num_le (pos a) (pos b)) (map_values (log_map key keep es))"

text \<open>The specification: the last event of every key.\<close>

definition latest_at :: "('e \<Rightarrow> 'k) \<Rightarrow> ('e \<Rightarrow> bool) \<Rightarrow> 'e list \<Rightarrow> 'k \<Rightarrow> 'e option" where
  "latest_at key keep es = map_of (rev (map (\<lambda>e. (key e, e)) (filter keep es)))"

section \<open>The inspector\<close>

definition has_position :: "jsval \<Rightarrow> bool" where
  "has_position e \<longleftrightarrow> num_less (Fin 0) (event_seq e)"

definition merged_events :: "jsval list \<Rightarrow> jsval list \<Rightarrow> jsval list" where
  "merged_events previous incoming = merge_log event_seq has_position event_seq (previous @ incoming)"

text \<open>\<open>...v\<close> in an array literal: arrays and strings can be iterated, other values throw a \<open>TypeError\<close>.\<close>

definition iterated :: "jsval \<Rightarrow> jsval list option" where
  "iterated v = (case v of JArr es \<Rightarrow> Some es | JStr s \<Rightarrow> Some (map (\<lambda>c. JStr [c]) s) | _ \<Rightarrow> None)"

definition own_entries :: "jsval \<Rightarrow> (jstring, jsval) jmap" where
  "own_entries v = (case v of JObj _ kvs \<Rightarrow> kvs | _ \<Rightarrow> [])"

definition response_events :: "jsval \<Rightarrow> jsval list option" where
  "response_events r = iterated (jor (dot r ''events'') (JArr []))"

definition mergeEventResponses :: "jsval \<Rightarrow> jsval \<Rightarrow> jsval option" where
  "mergeEventResponses previous incoming =
     (case (response_events previous, response_events incoming) of
        (Some old, Some new) \<Rightarrow>
          (let both = foldl (\<lambda>m (k, v). map_set m k v) (own_entries previous) (own_entries incoming);
               response = map_set both (lit ''events'') (JArr (merged_events old new))
           in Some (JObj ObjectProto (if map_has (own_entries incoming) (lit ''error'') then response
                else map_delete response (lit ''error''))))
      | _ \<Rightarrow> None)"

definition highestEventSeq :: "jsval list \<Rightarrow> jsnum" where
  "highestEventSeq events = foldl (\<lambda>highest e. num_max highest (event_seq e)) (Fin 0) events"

section \<open>The workbench\<close>

definition workbench_event_key :: "jsval \<Rightarrow> jstring" where
  "workbench_event_key e = to_str (dot e ''seq'') @ lit ''-'' @ to_str (dot e ''type'')"

definition mergeEvents :: "jsval list \<Rightarrow> jsval list \<Rightarrow> jsval list" where
  "mergeEvents currentEvents nextEvents =
     merge_log workbench_event_key (\<lambda>_. True) event_seq (currentEvents @ nextEvents)"

section \<open>Lemmas on numbers\<close>

lemma num_less_irrefl [simp]: "\<not> num_less a a"
  by (cases a) auto

lemma num_less_trans: "num_less a b \<Longrightarrow> num_less b c \<Longrightarrow> num_less a c"
  by (cases a; cases b; cases c) auto

lemma num_less_asym: "num_less a b \<Longrightarrow> \<not> num_less b a"
  using num_less_trans by fastforce

lemma num_less_NaN [simp]: "\<not> num_less a NaN" "\<not> num_less NaN a"
  by (cases a; simp)+

lemma num_less_linear: "a \<noteq> NaN \<Longrightarrow> b \<noteq> NaN \<Longrightarrow> num_less a b \<or> a = b \<or> num_less b a"
  by (cases a; cases b) auto

lemma num_le_total: "num_le a b \<or> num_le b a"
  using num_less_asym by (auto simp: num_le_def)

lemma num_le_trans:
  assumes "num_le a b" "num_le b c" "b \<noteq> NaN"
  shows "num_le a c"
  using assms by (cases a; cases b; cases c) (auto simp: num_le_def)

lemma num_le_less_or_eq: "num_le a b \<Longrightarrow> a \<noteq> NaN \<Longrightarrow> b \<noteq> NaN \<Longrightarrow> num_less a b \<or> a = b"
  using num_less_linear by (auto simp: num_le_def)

lemma num_max_NaN_iff [simp]: "num_max a b = NaN \<longleftrightarrow> a = NaN \<or> b = NaN"
  by (auto simp: num_max_def)

text \<open>Sorting needs a transitive comparison on the elements of the list only.\<close>

lemma sorted_insort_by_on:
  assumes "\<And>a b. le a b \<or> le b a" and "\<And>a b c. b \<in> insert x (set xs) \<Longrightarrow> le a b \<Longrightarrow> le b c \<Longrightarrow> le a c"
    and "sorted_wrt le xs"
  shows "sorted_wrt le (insort_by le x xs)"
  using assms(2,3)
proof (induction xs)
  case (Cons y ys)
  have "sorted_wrt le (insort_by le x ys)"
  proof (rule Cons.IH)
    show "le a c" if "b \<in> insert x (set ys)" "le a b" "le b c" for a b c
      using Cons.prems(1) [of b a c] that by auto
  qed (use Cons.prems(2) in simp)
  moreover have "le y x" if "\<not> le x y" using assms(1) that by blast
  moreover have "le x z" if "le x y" "z \<in> set ys" for z
    using Cons.prems(1) [of y x z] Cons.prems(2) that by simp
  ultimately show ?case using Cons.prems(2) by simp
qed simp

lemma sorted_sort_by_on:
  assumes "\<And>a b. le a b \<or> le b a" and "\<And>a b c. b \<in> set xs \<Longrightarrow> le a b \<Longrightarrow> le b c \<Longrightarrow> le a c"
  shows "sorted_wrt le (sort_by le xs)"
  using assms(2) unfolding sort_by_def
proof (induction xs)
  case (Cons x xs)
  have "sorted_wrt le (foldr (insort_by le) xs [])" using Cons.prems by (intro Cons.IH) auto
  moreover have "set (foldr (insort_by le) xs []) = set xs" using set_sort_by [of le xs] by (simp add: sort_by_def)
  ultimately have "sorted_wrt le (insort_by le x (foldr (insort_by le) xs []))"
    using Cons.prems assms(1) by (intro sorted_insort_by_on) auto
  then show ?case by simp
qed simp

lemma foldl_invariant:
  assumes "P s" "\<And>s x. P s \<Longrightarrow> P (f s x)"
  shows "P (foldl f s xs)"
  using assms by (induction xs rule: rev_induct) simp_all

section \<open>The merged list and its map\<close>

lemma map_get_log_map: "map_get (log_map key keep es) = latest_at key keep es"
  unfolding log_map_def
proof (induction es rule: rev_induct)
  case Nil
  then show ?case by (simp add: latest_at_def fun_eq_iff)
next
  case (snoc e es)
  then show ?case by (auto simp: latest_at_def fun_eq_iff js_map)
qed

lemma map_ok_log_map: "map_ok (log_map key keep es)"
  unfolding log_map_def by (induction es rule: rev_induct) (auto intro: jsmap.ok_put)

lemma log_map_entry: "(k, e) \<in> set (log_map key keep es) \<Longrightarrow> key e = k \<and> keep e \<and> e \<in> set es"
  using map_get_of_in_set [OF map_ok_log_map, of k e key keep es]
  by (auto simp: map_get_log_map latest_at_def dest: map_of_SomeD)

text \<open>Any arrangement of the values of the map has distinct keys and the map of the original list.\<close>

definition arranges :: "('e \<Rightarrow> 'k) \<Rightarrow> ('e \<Rightarrow> bool) \<Rightarrow> 'e list \<Rightarrow> 'e list \<Rightarrow> bool" where
  "arranges key keep es xs \<longleftrightarrow> mset xs = mset (map_values (log_map key keep es))"

lemma arranges_values: "arranges key keep es (map_values (log_map key keep es))"
  by (simp add: arranges_def)

lemma arranges_sorted: "arranges key keep es (merge_log key keep pos es)"
  by (simp add: arranges_def merge_log_def mset_sort_by)

lemma arranges_elem:
  assumes "arranges key keep es xs"
  shows "e \<in> set xs \<longleftrightarrow> (key e, e) \<in> set (log_map key keep es)"
proof -
  have "e \<in> set xs \<longleftrightarrow> e \<in> set (map_values (log_map key keep es))" using assms unfolding arranges_def by (metis set_mset_mset)
  also have "\<dots> \<longleftrightarrow> (key e, e) \<in> set (log_map key keep es)"
  proof
    assume "e \<in> set (map_values (log_map key keep es))"
    then obtain k where "(k, e) \<in> set (log_map key keep es)" by (auto simp: map_values_def)
    then show "(key e, e) \<in> set (log_map key keep es)" using log_map_entry by fastforce
  qed (force simp: map_values_def)
  finally show ?thesis .
qed

lemma arranges_kept: "arranges key keep es xs \<Longrightarrow> e \<in> set xs \<Longrightarrow> keep e \<and> e \<in> set es"
  using arranges_elem [of key keep es xs e] log_map_entry [of "key e" e key keep es] by blast

lemma arranges_distinct:
  assumes "arranges key keep es xs"
  shows "distinct (map key xs)"
proof -
  have "mset (map key xs) = mset (map key (map_values (log_map key keep es)))" using assms by (simp only: arranges_def mset_map)
  also have "map key (map_values (log_map key keep es)) = map fst (log_map key keep es)"
    by (auto simp: map_values_def dest: log_map_entry)
  finally show ?thesis using map_ok_log_map [of key keep es] by (metis map_ok_def mset_eq_imp_distinct_iff)
qed

lemma latest_at_distinct:
  assumes "distinct (map key es)" "\<And>e. e \<in> set es \<Longrightarrow> keep e"
  shows "latest_at key keep es k = Some e \<longleftrightarrow> e \<in> set es \<and> key e = k"
proof -
  have "distinct (map fst (rev (map (\<lambda>e. (key e, e)) es)))" using assms(1) by (simp add: comp_def flip: rev_map)
  moreover have "filter keep es = es" using assms(2) by (simp add: filter_id_conv)
  ultimately show ?thesis by (auto simp: latest_at_def)
qed

lemma latest_at_arranged:
  assumes "arranges key keep es xs"
  shows "latest_at key keep xs = latest_at key keep es"
proof
  fix k
  have "latest_at key keep xs k = Some e \<longleftrightarrow> latest_at key keep es k = Some e" for e
  proof -
    have "latest_at key keep xs k = Some e \<longleftrightarrow> (k, e) \<in> set (log_map key keep es)"
      using latest_at_distinct [OF arranges_distinct [OF assms], of keep k e] arranges_kept [OF assms] arranges_elem [OF assms]
      by (auto dest: log_map_entry)
    also have "\<dots> \<longleftrightarrow> latest_at key keep es k = Some e"
      using map_get_of_in_set [OF map_ok_log_map] map_get_in_set by (metis map_get_log_map)
    finally show ?thesis .
  qed
  then show "latest_at key keep xs k = latest_at key keep es k"
    by (metis option.exhaust)
qed

lemmas merge_log_kept = arranges_kept [OF arranges_sorted]
lemmas merge_log_distinct = arranges_distinct [OF arranges_sorted]
lemmas latest_at_merge_log = latest_at_arranged [OF arranges_sorted]

lemma latest_at_append: "latest_at key keep (xs @ ys) = latest_at key keep xs ++ latest_at key keep ys"
  by (simp add: latest_at_def map_add_def fun_eq_iff)

lemma merge_log_sorted:
  assumes "\<And>e. keep e \<Longrightarrow> pos e \<noteq> NaN"
  shows "sorted_wrt (\<lambda>a b. num_le (pos a) (pos b)) (merge_log key keep pos es)"
  unfolding merge_log_def
proof (rule sorted_sort_by_on)
  fix a b c
  assume "b \<in> set (map_values (log_map key keep es))" "num_le (pos a) (pos b)" "num_le (pos b) (pos c)"
  then show "num_le (pos a) (pos c)"
    using assms by (auto simp: map_values_def intro: num_le_trans dest!: log_map_entry)
qed (rule num_le_total)

section \<open>Interfaces\<close>

locale keyed_log =
  fixes merge :: "'e list \<Rightarrow> 'e list \<Rightarrow> 'e list"
    and view :: "'e list \<Rightarrow> 'k \<Rightarrow> 'e option"
  assumes view_merge: "view (merge a b) = view a ++ view b"
begin

text \<open>What was delivered before may be delivered again.\<close>

lemma redelivered: "view b \<subseteq>\<^sub>m view a \<Longrightarrow> view (merge a b) = view a"
  by (auto simp: view_merge map_add_def map_le_def fun_eq_iff dom_def split: option.splits)

lemma view_merge_assoc: "view (merge (merge a b) c) = view (merge a (merge b c))"
  by (simp add: view_merge)

lemma view_merge_twice: "view (merge (merge a b) b) = view (merge a b)"
  by (rule redelivered) (simp add: view_merge map_le_map_add)

lemma view_merges: "view (foldl merge a bs) = foldl (++) (view a) (map view bs)"
  by (induction bs rule: rev_induct) (simp_all add: view_merge)

end

locale ordered_log = keyed_log +
  fixes ordered :: "'e list \<Rightarrow> bool"
  assumes ordered_merge: "ordered (merge a b)"
    and ordered_ext: "ordered a \<Longrightarrow> ordered b \<Longrightarrow> view a = view b \<Longrightarrow> a = b"
begin

lemma merge_redelivered: "ordered a \<Longrightarrow> view b \<subseteq>\<^sub>m view a \<Longrightarrow> merge a b = a"
  by (intro ordered_ext ordered_merge redelivered)

lemma merge_associative: "merge (merge a b) c = merge a (merge b c)"
  by (intro ordered_ext ordered_merge view_merge_assoc)

lemma merge_twice: "merge (merge a b) b = merge a b"
  by (intro ordered_ext ordered_merge view_merge_twice)

lemma merge_split: "ordered c \<Longrightarrow> view c = view a ++ view b \<Longrightarrow> merge a b = c"
  by (intro ordered_ext ordered_merge) (simp_all add: view_merge)

end

subsection \<open>The inspector merges ordered logs\<close>

definition event_at :: "jsval list \<Rightarrow> jsnum \<Rightarrow> jsval option" where
  "event_at = latest_at event_seq has_position"

definition in_order :: "jsval list \<Rightarrow> bool" where
  "in_order es \<longleftrightarrow> list_all has_position es \<and> sorted_wrt (\<lambda>a b. num_less (event_seq a) (event_seq b)) es"

lemma has_position_NaN: "has_position e \<Longrightarrow> event_seq e \<noteq> NaN"
  by (auto simp: has_position_def)

lemma in_order_distinct: "in_order es \<Longrightarrow> distinct (map event_seq es)"
  by (induction es) (auto simp: in_order_def)

lemma event_at_in_order: "in_order es \<Longrightarrow> event_at es n = Some e \<longleftrightarrow> e \<in> set es \<and> event_seq e = n"
  unfolding event_at_def by (rule latest_at_distinct [OF in_order_distinct]) (auto simp: in_order_def list_all_iff)

lemma strictly_sorted:
  assumes "sorted_wrt (\<lambda>a b. num_le (f a) (f b)) es" "distinct (map f es)" "\<And>e. e \<in> set es \<Longrightarrow> f e \<noteq> NaN"
  shows "sorted_wrt (\<lambda>a b. num_less (f a) (f b)) es"
  using assms
proof (induction es)
  case (Cons e es)
  have "num_less (f e) (f x)" if "x \<in> set es" for x
    using that Cons.prems num_le_less_or_eq [of "f e" "f x"] by (auto simp: image_iff)
  with Cons show ?case by simp
qed simp

lemma strictly_sorted_unique:
  assumes "sorted_wrt (\<lambda>a b. num_less (f a) (f b)) xs" "sorted_wrt (\<lambda>a b. num_less (f a) (f b)) ys" "set xs = set ys"
  shows "xs = ys"
  using assms
proof (induction xs arbitrary: ys)
  case (Cons x xs)
  then obtain y ys' where ys: "ys = y # ys'" by (cases ys) auto
  have "x = y" using Cons.prems ys num_less_asym by (metis list.set_intros(1) set_ConsD sorted_wrt.simps(2))
  moreover have "x \<notin> set xs" "y \<notin> set ys'" using Cons.prems ys by fastforce+
  ultimately have "set xs = set ys'" using Cons.prems(3) ys by auto
  with Cons ys \<open>x = y\<close> show ?case by simp
qed simp

lemma in_order_merged: "in_order (merged_events a b)"
proof -
  let ?m = "merged_events a b"
  have kept: "has_position e" if "e \<in> set ?m" for e
    using that by (auto simp: merged_events_def dest: merge_log_kept)
  have "sorted_wrt (\<lambda>a b. num_le (event_seq a) (event_seq b)) ?m"
    unfolding merged_events_def by (rule merge_log_sorted) (rule has_position_NaN)
  moreover have "distinct (map event_seq ?m)" unfolding merged_events_def by (rule merge_log_distinct)
  ultimately have "sorted_wrt (\<lambda>a b. num_less (event_seq a) (event_seq b)) ?m"
    using kept has_position_NaN by (blast intro: strictly_sorted)
  then show ?thesis using kept by (simp add: in_order_def list_all_iff)
qed

lemma in_order_ext:
  assumes "in_order a" "in_order b" "event_at a = event_at b"
  shows "a = b"
proof (rule strictly_sorted_unique)
  show "set a = set b" using assms event_at_in_order by (metis set_eqI)
qed (use assms in \<open>auto simp: in_order_def\<close>)

interpretation inspector_log: ordered_log merged_events event_at in_order
proof unfold_locales
  show "event_at (merged_events a b) = event_at a ++ event_at b" for a b
    by (simp add: event_at_def merged_events_def latest_at_merge_log latest_at_append)
qed (auto intro: in_order_merged in_order_ext)

subsection \<open>The workbench merges keyed logs\<close>

definition workbench_event_at :: "jsval list \<Rightarrow> jstring \<Rightarrow> jsval option" where
  "workbench_event_at = latest_at workbench_event_key (\<lambda>_. True)"

interpretation workbench_log: keyed_log mergeEvents workbench_event_at
  by unfold_locales (simp add: workbench_event_at_def mergeEvents_def latest_at_merge_log latest_at_append)

section \<open>The highest position\<close>

lemma highestEventSeq_NaN: "(\<And>e. e \<in> set es \<Longrightarrow> event_seq e \<noteq> NaN) \<Longrightarrow> highestEventSeq es \<noteq> NaN"
  unfolding highestEventSeq_def by (induction es rule: rev_induct) auto

lemma highestEventSeq_ge:
  assumes "e \<in> set es" "\<And>e. e \<in> set es \<Longrightarrow> event_seq e \<noteq> NaN"
  shows "num_le (event_seq e) (highestEventSeq es)"
  using assms
proof (induction es rule: rev_induct)
  case (snoc x es)
  have nan: "highestEventSeq es \<noteq> NaN" "event_seq x \<noteq> NaN" using snoc.prems(2) highestEventSeq_NaN [of es] by auto
  have step: "highestEventSeq (es @ [x]) = num_max (highestEventSeq es) (event_seq x)" by (simp add: highestEventSeq_def)
  show ?case
  proof (cases "e = x")
    case True
    with nan step show ?thesis using num_less_asym by (auto simp: num_max_def num_le_def)
  next
    case False
    then have "num_le (event_seq e) (highestEventSeq es)" using snoc by auto
    moreover have "num_le (highestEventSeq es) (highestEventSeq (es @ [x]))"
      using nan step num_less_asym by (auto simp: num_max_def num_le_def)
    ultimately show ?thesis using nan num_le_trans by blast
  qed
qed simp

lemma highestEventSeq_mem: "highestEventSeq es = Fin 0 \<or> highestEventSeq es = NaN \<or> highestEventSeq es \<in> event_seq ` set es"
  unfolding highestEventSeq_def by (induction es rule: rev_induct) (auto simp: num_max_def)

section \<open>Merged responses\<close>

lemma map_get_fold_set:
  assumes "map_ok kvs"
  shows "map_get (foldl (\<lambda>m (k, v). map_set m k v) m kvs) k = (case map_get kvs k of Some v \<Rightarrow> Some v | None \<Rightarrow> map_get m k)"
  using assms
proof (induction kvs arbitrary: m)
  case (Cons kv kvs)
  obtain a v where kv: "kv = (a, v)" by fastforce
  have "map_get kvs a = None" "map_ok kvs" using Cons.prems kv by (simp_all add: map_ok_def map_get_def map_of_eq_None_iff)
  moreover have "map_get (kv # kvs) k = (if k = a then Some v else map_get kvs k)" by (simp add: kv map_get_def)
  ultimately show ?case using Cons.IH [of "map_set m a v"] by (auto simp: kv map_get_set split: option.splits)
qed simp

lemma own_prop_get: "own_prop v k = map_get (own_entries v) k"
  by (cases v) (auto simp: own_prop_def own_entries_def map_get_def)

lemma merged_response:
  assumes "response_events previous = Some old" "response_events incoming = Some new" "map_ok (own_entries incoming)"
  obtains r where "mergeEventResponses previous incoming = Some r" "response_events r = Some (merged_events old new)"
    "own_prop r (lit ''error'') = own_prop incoming (lit ''error'')" "is_object r"
proof -
  let ?both = "foldl (\<lambda>m (k, v). map_set m k v) (own_entries previous) (own_entries incoming)"
  let ?response = "map_set ?both (lit ''events'') (JArr (merged_events old new))"
  define r where "r = JObj ObjectProto (if map_has (own_entries incoming) (lit ''error'') then ?response
    else map_delete ?response (lit ''error''))"
  have "own_entries r = (if map_has (own_entries incoming) (lit ''error'') then ?response
    else map_delete ?response (lit ''error''))" by (simp add: r_def own_entries_def)
  then have get: "own_prop r k = (if k = lit ''events'' then Some (JArr (merged_events old new))
      else if k = lit ''error'' then own_prop incoming k
      else case own_prop incoming k of Some v \<Rightarrow> Some v | None \<Rightarrow> own_prop previous k)" for k
    using assms(3) by (auto simp: own_prop_get js_map map_get_fold_set split: option.splits)
  show thesis
  proof (rule that)
    show "mergeEventResponses previous incoming = Some r" using assms(1,2) by (simp add: mergeEventResponses_def r_def Let_def)
    show "response_events r = Some (merged_events old new)"
      by (simp add: response_events_def dot_def get jor_def iterated_def)
    show "own_prop r (lit ''error'') = own_prop incoming (lit ''error'')" by (simp add: get)
    show "is_object r" by (simp add: r_def)
  qed
qed

text \<open>C26: Merging a response into the events shown so far: the result lists the events by strictly increasing position, has
  for every position the newest event that either side knows, and carries an error exactly when the new response does.
  Events may be delivered again, and batches may be merged in any grouping.\<close>

theorem merge_event_responses:
  assumes "response_events previous = Some old" "response_events incoming = Some new" "map_ok (own_entries incoming)"
  shows "(\<exists>r. mergeEventResponses previous incoming = Some r \<and> response_events r = Some (merged_events old new)
       \<and> own_prop r (lit ''error'') = own_prop incoming (lit ''error''))
    \<and> in_order (merged_events old new)
    \<and> event_at (merged_events old new) = event_at old ++ event_at new
    \<and> merged_events (merged_events old new) new = merged_events old new
    \<and> (\<forall>later. merged_events (merged_events old new) later = merged_events old (merged_events new later))"
proof -
  obtain r where "mergeEventResponses previous incoming = Some r" "response_events r = Some (merged_events old new)"
    "own_prop r (lit ''error'') = own_prop incoming (lit ''error'')" using merged_response [OF assms] .
  then show ?thesis
    using in_order_merged inspector_log.view_merge inspector_log.merge_twice inspector_log.merge_associative by blast
qed

definition sample_event :: "int \<Rightarrow> string \<Rightarrow> jsval" where
  "sample_event n ty = jobj [(''seq'', jint n), (''type'', jlit ty)]"

theorem merge_event_responses_witness:
  "let previous = jobj [(''events'', JArr [sample_event 3 ''old'', sample_event 1 ''one'']), (''error'', jlit ''old error'')];
       incoming = jobj [(''events'', JArr [sample_event 3 ''three'', sample_event 2 ''two''])];
       old = [sample_event 3 ''old'', sample_event 1 ''one'']; new = [sample_event 3 ''three'', sample_event 2 ''two''] in
   event_at (merged_events old new) = event_at old ++ event_at new
   \<and> merged_events old new = [sample_event 1 ''one'', sample_event 2 ''two'', sample_event 3 ''three'']
   \<and> mergeEventResponses previous incoming \<noteq> None"
proof -
  let ?p = "jobj [(''events'', JArr [sample_event 3 ''old'', sample_event 1 ''one'']), (''error'', jlit ''old error'')]"
  let ?i = "jobj [(''events'', JArr [sample_event 3 ''three'', sample_event 2 ''two''])]"
  have "response_events ?p = Some [sample_event 3 ''old'', sample_event 1 ''one'']"
    "response_events ?i = Some [sample_event 3 ''three'', sample_event 2 ''two'']" "map_ok (own_entries ?i)"
    by (code_simp, code_simp, code_simp)
  note m = merge_event_responses [OF this]
  have "merged_events [sample_event 3 ''old'', sample_event 1 ''one''] [sample_event 3 ''three'', sample_event 2 ''two'']
    = [sample_event 1 ''one'', sample_event 2 ''two'', sample_event 3 ''three'']" by code_simp
  with m show ?thesis by (auto simp: Let_def)
qed

end
