(* ===== verification/Inspector_Utils.thy ===== *)
theory Inspector_Utils
  imports Event_Merge
begin

text \<open>
  The readers of the inspector (\<open>apps/inspector/src/utils.js\<close>): the summary of the completion metrics with its small
  reader of the Prometheus text format, counts and filters of task plans, the presentation of MCP results, and the table
  of MCP calls, in which every result is joined to the oldest call with its id that has no result yet.

  Regular expressions are functions on code units. \<open>escapePrometheusLabel\<close> is the writer of the label values in
  \<open>internal/observability/metrics.go\<close>. \<open>formatTime\<close>, \<open>formatDuration\<close> and \<open>pretty\<close> print for a locale and are not
  modelled.
\<close>

section \<open>Completion metrics\<close>

definition word_start :: "int \<Rightarrow> bool" where
  "word_start c \<longleftrightarrow> is_lower c \<or> is_upper c \<or> c = 95"

definition word_char :: "int \<Rightarrow> bool" where
  "word_char c \<longleftrightarrow> word_start c \<or> is_digit c"

text \<open>\<open>.\<close> of a regular expression: no line terminator.\<close>

definition line_terminator :: "int \<Rightarrow> bool" where
  "line_terminator c \<longleftrightarrow> c \<in> set [10, 13, 8232, 8233]"

text \<open>\<open>((?:\\.|[^"\\])*)"\<close>: the characters up to the closing quote, and what follows it.\<close>

fun label_body :: "jstring \<Rightarrow> (jstring \<times> jstring) option" where
  "label_body [] = None"
| "label_body (c # s) =
     (if c = 34 then Some ([], s)
      else if c = 92 then
        (case s of [] \<Rightarrow> None
         | d # s' \<Rightarrow> if line_terminator d then None else map_option (\<lambda>(b, r). (c # d # b, r)) (label_body s'))
      else map_option (\<lambda>(b, r). (c # b, r)) (label_body s))"

text \<open>The pattern of a label at the start of a text.\<close>

definition label_match :: "jstring \<Rightarrow> (jstring \<times> jstring \<times> jstring) option" where
  "label_match s =
     (let name = takeWhile word_char s; rest = dropWhile word_char s in
      if s \<noteq> [] \<and> word_start (hd s) \<and> starts_with rest [61, 34]
      then map_option (\<lambda>(b, r). (name, b, r)) (label_body (drop 2 rest)) else None)"

fun replace_two :: "int \<Rightarrow> int \<Rightarrow> int \<Rightarrow> jstring \<Rightarrow> jstring" where
  "replace_two a b r (x # y # s) =
     (if x = a \<and> y = b then r # replace_two a b r s else x # replace_two a b r (y # s))"
| "replace_two a b r s = s"

definition unescape_label :: "jstring \<Rightarrow> jstring" where
  "unescape_label s = replace_two 92 92 92 (replace_two 92 34 34 (replace_two 92 110 10 s))"

lemma label_body_shorter: "label_body s = Some (b, r) \<Longrightarrow> length r < length s"
  by (induction s arbitrary: b r rule: label_body.induct) (fastforce split: if_splits list.splits)+

lemma label_match_shorter:
  assumes "label_match s = Some (n, b, r)"
  shows "length r < length s"
proof -
  from assms obtain bs where "label_body (drop 2 (dropWhile word_char s)) = Some (bs, r)"
    by (auto simp: label_match_def Let_def split: if_splits)
  then have "length r < length (drop 2 (dropWhile word_char s))" by (rule label_body_shorter)
  also have "\<dots> \<le> length s" using length_dropWhile_le [of word_char s] by simp
  finally show ?thesis .
qed

text \<open>The matches of the pattern from left to right.\<close>

function label_matches :: "jstring \<Rightarrow> (jstring \<times> jstring) list" where
  "label_matches [] = []"
| "label_matches (c # s) =
     (case label_match (c # s) of
        Some (n, b, r) \<Rightarrow> (n, b) # label_matches r
      | None \<Rightarrow> label_matches s)"
  by pat_completeness auto
termination
  by (relation "measure length") (auto dest!: label_match_shorter)

definition parsePrometheusLabels :: "jstring \<Rightarrow> (jstring, jstring) jmap" where
  "parsePrometheusLabels v = foldl (\<lambda>m (n, b). map_set m n (unescape_label b)) [] (label_matches v)"

text \<open>\<open>s.split(/\r?\n/)\<close>.\<close>

definition strip_cr :: "jstring \<Rightarrow> jstring" where
  "strip_cr s = (if s \<noteq> [] \<and> last s = 13 then butlast s else s)"

definition split_lines :: "jstring \<Rightarrow> jstring list" where
  "split_lines s = map strip_cr (butlast (split_on 10 s)) @ [last (split_on 10 s)]"

text \<open>\<open>-?\d+(?:\.\d+)?\<close> up to the end of the line.\<close>

definition metric_number :: "jstring \<Rightarrow> bool" where
  "metric_number s =
     (let u = (case s of [] \<Rightarrow> [] | c # r \<Rightarrow> if c = 45 then r else s);
          whole = takeWhile is_digit u; rest = dropWhile is_digit u in
      whole \<noteq> [] \<and> (rest = [] \<or> (hd rest = 46 \<and> tl rest \<noteq> [] \<and> list_all is_digit (tl rest))))"

definition completion_metric :: jstring where
  "completion_metric = lit ''tma_completion_validation_total{''"

definition metric_match :: "jstring \<Rightarrow> (jstring \<times> jstring) option" where
  "metric_match line =
     (let rest = drop (length completion_metric) line;
          labels = takeWhile (\<lambda>c. c \<noteq> 125) rest; after = dropWhile (\<lambda>c. c \<noteq> 125) rest;
          number = dropWhile js_space (tl after) in
      if starts_with line completion_metric \<and> after \<noteq> [] \<and> tl after \<noteq> [] \<and> js_space (hd (tl after))
         \<and> metric_number number then Some (labels, number) else None)"

record completion_summary =
  cs_pass :: rat
  cs_retry :: rat
  cs_fail :: rat
  cs_attempts :: rat
  cs_validators :: "jstring list"

definition add_outcome :: "jstring \<Rightarrow> rat \<Rightarrow> completion_summary \<Rightarrow> completion_summary" where
  "add_outcome outcome x s =
     (let t = s\<lparr>cs_attempts := cs_attempts s + x\<rparr> in
      if outcome = lit ''pass'' then t\<lparr>cs_pass := cs_pass s + x\<rparr>
      else if outcome = lit ''retry'' then t\<lparr>cs_retry := cs_retry s + x\<rparr>
      else t\<lparr>cs_fail := cs_fail s + x\<rparr>)"

definition completion_line :: "completion_summary \<Rightarrow> jstring \<Rightarrow> completion_summary" where
  "completion_line s line =
     (case metric_match line of None \<Rightarrow> s
      | Some (text', number) \<Rightarrow>
          (let labels = parsePrometheusLabels text'; n = str_to_num number in
           case (map_get labels (lit ''outcome''), n) of
             (Some outcome, Fin x) \<Rightarrow>
               if outcome \<in> set (map lit [''pass'', ''retry'', ''fail'']) then
                 (let t = add_outcome outcome x s in
                  case map_get labels (lit ''validator'') of
                    Some v \<Rightarrow> if v \<noteq> [] then t\<lparr>cs_validators := set_add (cs_validators t) v\<rparr> else t
                  | None \<Rightarrow> t)
               else s
           | _ \<Rightarrow> s))"

text \<open>The default order of \<open>sort\<close>: by code units.\<close>

definition str_le :: "jstring \<Rightarrow> jstring \<Rightarrow> bool" where
  "str_le s t \<longleftrightarrow> \<not> ord_class.lexordp t s"

definition completion_totals :: "jstring \<Rightarrow> completion_summary" where
  "completion_totals metricsText =
     foldl completion_line \<lparr>cs_pass = 0, cs_retry = 0, cs_fail = 0, cs_attempts = 0, cs_validators = []\<rparr> (split_lines metricsText)"

definition retryRate :: "completion_summary \<Rightarrow> rat" where
  "retryRate s = (if cs_attempts s > 0 then cs_retry s / cs_attempts s else 0)"

definition completionQualitySummary :: "jsval \<Rightarrow> completion_summary \<times> rat" where
  "completionQualitySummary metricsText =
     (let s = completion_totals (text_of metricsText) in
      (s\<lparr>cs_validators := sort_by str_le (cs_validators s)\<rparr>, retryRate s))"

text \<open>\<open>escapePrometheusLabel\<close> of the server.\<close>

definition escape_char :: "int \<Rightarrow> jstring" where
  "escape_char c = (if c = 92 then [92, 92] else if c = 10 then [92, 110] else if c = 34 then [92, 34] else [c])"

definition escapePrometheusLabel :: "jstring \<Rightarrow> jstring" where
  "escapePrometheusLabel v = concat (map escape_char v)"

section \<open>Task plans\<close>

record plan_counts =
  pc_total :: nat
  pc_active :: nat
  pc_completed :: nat
  pc_canceled :: nat
  pc_superseded :: nat

definition plan_status :: "jsval \<Rightarrow> jstring" where
  "plan_status plan = to_lower (trimmed_text (dot plan ''status''))"

definition count_plan :: "plan_counts \<Rightarrow> jsval \<Rightarrow> plan_counts" where
  "count_plan c plan =
     (let s = plan_status plan; t = c\<lparr>pc_total := Suc (pc_total c)\<rparr> in
      if s = lit ''active'' then t\<lparr>pc_active := Suc (pc_active c)\<rparr>
      else if s = lit ''completed'' then t\<lparr>pc_completed := Suc (pc_completed c)\<rparr>
      else if s = lit ''canceled'' then t\<lparr>pc_canceled := Suc (pc_canceled c)\<rparr>
      else if s = lit ''superseded'' then t\<lparr>pc_superseded := Suc (pc_superseded c)\<rparr>
      else t)"

definition taskPlanStatusCounts :: "jsval \<Rightarrow> plan_counts" where
  "taskPlanStatusCounts plans = foldl count_plan
     \<lparr>pc_total = 0, pc_active = 0, pc_completed = 0, pc_canceled = 0, pc_superseded = 0\<rparr> (array_items plans)"

definition filterTaskPlans :: "jsval \<Rightarrow> jsval \<Rightarrow> jsval list" where
  "filterTaskPlans plans status =
     (let normalized = to_lower (trimmed_text status) in
      if normalized = [] then array_items plans else filter (\<lambda>p. plan_status p = normalized) (array_items plans))"

section \<open>Classes and labels\<close>

definition is_word :: "jsval \<Rightarrow> string list \<Rightarrow> bool" where
  "is_word v ws \<longleftrightarrow> v \<in> set (map jlit ws)"

definition pillClass :: "jsval \<Rightarrow> string" where
  "pillClass v = (if is_word v [''completed'', ''ok'', ''success'', ''approved''] then ''pill ok''
     else if is_word v [''waiting_approval'', ''pending'', ''blocked''] then ''pill warn''
     else if is_word v [''failed'', ''error'', ''rejected''] then ''pill err'' else ''pill'')"

text \<open>\<open>v.includes(word)\<close> of a text; the types of steps are texts.\<close>

definition has_word :: "jsval \<Rightarrow> string \<Rightarrow> bool" where
  "has_word v w \<longleftrightarrow> (case v of JStr s \<Rightarrow> str_includes s (lit w) | _ \<Rightarrow> False)"

definition stepClass :: "jsval \<Rightarrow> string" where
  "stepClass step =
     (if dot step ''outcome'' = jlit ''error'' \<or> event_is step ''runtime.failed'' then ''step error''
      else if has_word (dot step ''type'') ''intervention'' then ''step approval''
      else if has_word (dot step ''type'') ''tool'' then ''step tool'' else ''step'')"

definition isTerminalTurnStatus :: "jsval \<Rightarrow> bool" where
  "isTerminalTurnStatus status \<longleftrightarrow>
     to_lower (trimmed_text status) \<in> set (map lit [''completed'', ''failed'', ''canceled'', ''terminated''])"

definition normalizeToolSource :: "jsval \<Rightarrow> jstring" where
  "normalizeToolSource source = to_lower (trimmed_text source)"

definition toolSourceLabel :: "jsval \<Rightarrow> string" where
  "toolSourceLabel source = (let s = normalizeToolSource source in
     if s = lit ''mcp'' then ''MCP'' else if s = lit ''worker_plugin'' then ''Worker Plugin''
     else if s = lit ''builtin'' then ''Builtin'' else [])"

definition from_mcp :: "jsval \<Rightarrow> bool" where
  "from_mcp data \<longleftrightarrow> is_object data \<and> normalizeToolSource (dot data ''tool_source'') = lit ''mcp''"

section \<open>MCP results\<close>

text \<open>\<open>xs.join(", ")\<close>.\<close>

definition comma_join :: "jsval list \<Rightarrow> jstring" where
  "comma_join xs = join (lit '', '') (map (\<lambda>x. if x = JUndef \<or> x = JNull then [] else to_str x) xs)"

definition on :: "bool \<Rightarrow> jstring \<Rightarrow> jstring list" where
  "on b s = (if b then [s] else [])"

definition mcpDiagnosticBadges :: "jsval \<Rightarrow> jstring list" where
  "mcpDiagnosticBadges data =
     (let d = dot data; caps = array_items (d ''mcp_capabilities'') in
      if \<not> from_mcp data then []
      else on (truthy (d ''mcp_transport'')) (lit ''transport '' @ to_str (d ''mcp_transport''))
         @ on (truthy (d ''mcp_protocol_version'')) (lit ''protocol '' @ to_str (d ''mcp_protocol_version''))
         @ on (d ''mcp_tool_count'' \<noteq> JUndef) (to_str (d ''mcp_tool_count'') @ lit '' tool(s)'')
         @ on (caps \<noteq> []) (lit ''capabilities '' @ comma_join caps)
         @ on (truthy (d ''mcp_oauth'')) (lit ''OAuth'')
         @ on (truthy (d ''mcp_listen'')) (lit ''SSE listener'')
         @ on (truthy (d ''mcp_expose_resources'')) (lit ''resources exposed'')
         @ on (truthy (d ''mcp_expose_prompts'')) (lit ''prompts exposed''))"

definition unique_texts :: "jsval list \<Rightarrow> jstring list" where
  "unique_texts values' = uniq (filter (\<lambda>s. s \<noteq> []) (map trimmed_text values'))"

record result_summary =
  su_title :: string
  su_facts :: "jstring list"

definition summarizeMCPToolState :: "jsval \<Rightarrow> result_summary" where
  "summarizeMCPToolState state =
     (let content = array_items (dot state ''content''); types = unique_texts (map (\<lambda>i. dot i ''type'') content) in
      \<lparr>su_title = ''MCP tool result'',
       su_facts = on (truthy (dot state ''tool_name'')) (lit ''tool '' @ to_str (dot state ''tool_name''))
         @ [lit ''is_error '' @ to_str (JBool (truthy (dot state ''is_error''))), nat_str (length content) @ lit '' content item(s)'']
         @ on (types \<noteq> []) (lit ''content types '' @ join (lit '', '') types)
         @ on (dot state ''structured_content'' \<noteq> JUndef) (lit ''structured content present'')
         @ on (is_object (dot state ''meta'')) (nat_str (length (obj_keys (dot state ''meta''))) @ lit '' meta key(s)'')\<rparr>)"

definition has_text :: "string \<Rightarrow> jsval \<Rightarrow> bool" where
  "has_text k item \<longleftrightarrow> trimmed_text (dot item k) \<noteq> []"

definition contents_facts :: "jsval list \<Rightarrow> jstring list" where
  "contents_facts contents =
     (let mimeTypes = unique_texts (map (\<lambda>i. jor (dot i ''mimeType'') (dot i ''mime_type'')) contents);
          textCount = length (filter (has_text ''text'') contents); blobCount = length (filter (has_text ''blob'') contents) in
      [nat_str (length contents) @ lit '' resource content item(s)'']
      @ on (mimeTypes \<noteq> []) (lit ''mime '' @ join (lit '', '') mimeTypes)
      @ on (textCount \<noteq> 0) (nat_str textCount @ lit '' text item(s)'')
      @ on (blobCount \<noteq> 0) (nat_str blobCount @ lit '' blob item(s)''))"

definition prompts_facts :: "jsval list \<Rightarrow> jstring list" where
  "prompts_facts prompts =
     (let argumentCount = sum_list (map (\<lambda>p. length (array_items (dot p ''arguments''))) prompts) in
      [nat_str (length prompts) @ lit '' prompt(s)'']
      @ on (argumentCount \<noteq> 0) (nat_str argumentCount @ lit '' prompt argument(s)''))"

definition prompt_facts :: "jsval \<Rightarrow> jstring list" where
  "prompt_facts prompt =
     (let messages = array_items (dot prompt ''messages''); roles = unique_texts (map (\<lambda>m. dot m ''role'') messages) in
      [nat_str (length messages) @ lit '' prompt message(s)'']
      @ on (roles \<noteq> []) (lit ''roles '' @ join (lit '', '') roles))"

definition summarizeMCPContextState :: "jsval \<Rightarrow> result_summary" where
  "summarizeMCPContextState state =
     (let list = (\<lambda>k. array_items (dot state k)); given = (\<lambda>k. is_array (dot state k)) in
      \<lparr>su_title = ''MCP context result'',
       su_facts = on (truthy (dot state ''tool_name'')) (lit ''tool '' @ to_str (dot state ''tool_name''))
         @ on (given ''resources'') (nat_str (length (list ''resources'')) @ lit '' resource(s)'')
         @ on (given ''resource_templates'') (nat_str (length (list ''resource_templates'')) @ lit '' resource template(s)'')
         @ (if given ''contents'' then contents_facts (list ''contents'') else [])
         @ (if given ''prompts'' then prompts_facts (list ''prompts'') else [])
         @ (if is_object (dot state ''prompt'') then prompt_facts (dot state ''prompt'') else [])\<rparr>)"

definition mcpResultSummary :: "jsval \<Rightarrow> result_summary option" where
  "mcpResultSummary data =
     (let state = dot data ''state'' in
      if \<not> from_mcp data \<or> \<not> is_object state then None
      else if truthy (dot state ''truncated'') then
        Some \<lparr>su_title = ''MCP result state omitted'',
              su_facts = on (truthy (dot state ''original_bytes'')) (to_str (dot state ''original_bytes'') @ lit '' original byte(s)'')
                @ [lit ''open full artifact or raw event for complete state'']\<rparr>
      else if dot state ''protocol_version'' = jlit ''tma.mcp_result.v1'' then Some (summarizeMCPToolState state)
      else if dot state ''protocol_version'' = jlit ''tma.mcp_context_result.v1'' then Some (summarizeMCPContextState state)
      else None)"

record source_counts =
  sc_mcp :: nat
  sc_worker_plugin :: nat
  sc_builtin :: nat
  sc_other :: nat
  sc_total :: nat

definition count_source :: "source_counts \<Rightarrow> jsval \<Rightarrow> source_counts" where
  "count_source c e =
     (let s = normalizeToolSource (dot (event_data e) ''tool_source''); t = c\<lparr>sc_total := Suc (sc_total c)\<rparr> in
      if s = [] then c
      else if s = lit ''mcp'' then t\<lparr>sc_mcp := Suc (sc_mcp c)\<rparr>
      else if s = lit ''worker_plugin'' then t\<lparr>sc_worker_plugin := Suc (sc_worker_plugin c)\<rparr>
      else if s = lit ''builtin'' then t\<lparr>sc_builtin := Suc (sc_builtin c)\<rparr>
      else t\<lparr>sc_other := Suc (sc_other c)\<rparr>)"

definition collectToolSourceStats :: "jsval list \<Rightarrow> source_counts" where
  "collectToolSourceStats events = foldl count_source
     \<lparr>sc_mcp = 0, sc_worker_plugin = 0, sc_builtin = 0, sc_other = 0, sc_total = 0\<rparr> events"

section \<open>The table of MCP calls\<close>

definition mcpMethodForAPI :: "jstring \<Rightarrow> jsval \<Rightarrow> string" where
  "mcpMethodForAPI apiName state =
     (let is = (\<lambda>s. trim (if apiName \<noteq> [] then apiName else text_of (dot state ''tool_name'')) \<in> set (map lit s)) in
      if is [''mcp_list_resources'', ''__tma_mcp_list_resources''] then ''resources/list''
      else if is [''mcp_list_resource_templates'', ''__tma_mcp_list_resource_templates''] then ''resources/templates/list''
      else if is [''mcp_read_resource'', ''__tma_mcp_read_resource''] then ''resources/read''
      else if is [''mcp_list_prompts'', ''__tma_mcp_list_prompts''] then ''prompts/list''
      else if is [''mcp_get_prompt'', ''__tma_mcp_get_prompt''] then ''prompts/get''
      else ''tools/call'')"

definition mcpErrorType :: "jsval \<Rightarrow> jsval \<Rightarrow> jstring" where
  "mcpErrorType data state =
     (let err = dot data ''error'' in
      if is_object err then trim (to_str (jor (jor (dot err ''type'') (dot err ''code'')) (jlit ''tool_error'')))
      else if truthy err \<or> dot data ''success'' = JBool False then lit ''tool_error''
      else if truthy (dot state ''is_error'') then lit ''mcp_result_error'' else [])"

record mcp_operation =
  op_key :: jstring
  op_call_id :: jstring
  op_identifier :: jstring
  op_api_name :: jstring
  op_method :: string
  op_status :: string
  op_request_seq :: jsnum
  op_response_seq :: jsnum
  op_request_time :: jsval
  op_response_time :: jsval
  op_duration_ms :: "jsnum option"
  op_transport :: jstring
  op_protocol_version :: jstring
  op_diagnostics :: "jstring list"
  op_result_protocol :: jstring
  op_result_summary :: "result_summary option"
  op_error_type :: jstring
  op_artifact_count :: nat
  op_preview_truncated :: bool

definition num_or :: "jsnum \<Rightarrow> jsnum \<Rightarrow> jsnum" where
  "num_or a b = (if truthy (JNum a) then a else b)"

definition str_or :: "jstring \<Rightarrow> jstring \<Rightarrow> jstring" where
  "str_or a b = (if a \<noteq> [] then a else b)"

text \<open>The events of an operation are \<open>null\<close> where they are missing.\<close>

definition newMCPProtocolOperation :: "jsval \<Rightarrow> jsval \<Rightarrow> jsval \<Rightarrow> mcp_operation" where
  "newMCPProtocolOperation requestEvent data responseEvent =
     (let requestSeq = event_seq requestEvent; responseSeq = event_seq responseEvent;
          apiName = trimmed_text (dot data ''api_name''); callID = trimmed_text (dot data ''id'') in
      \<lparr>op_key = str_or callID (lit ''unpaired'') @ lit '':'' @ num_str (num_or requestSeq responseSeq),
       op_call_id = callID, op_identifier = trimmed_text (dot data ''identifier''), op_api_name = apiName,
       op_method = mcpMethodForAPI apiName (dot data ''state''), op_status = ''pending'',
       op_request_seq = requestSeq, op_response_seq = responseSeq,
       op_request_time = jor (dot requestEvent ''created_at'') (JStr []),
       op_response_time = jor (dot responseEvent ''created_at'') (JStr []),
       op_duration_ms = None, op_transport = trimmed_text (dot data ''mcp_transport''),
       op_protocol_version = trimmed_text (dot data ''mcp_protocol_version''),
       op_diagnostics = mcpDiagnosticBadges data, op_result_protocol = [], op_result_summary = None,
       op_error_type = [], op_artifact_count = 0, op_preview_truncated = False\<rparr>)"

definition applyMCPProtocolResult :: "mcp_operation \<Rightarrow> jsval \<Rightarrow> jsval \<Rightarrow> mcp_operation" where
  "applyMCPProtocolResult operation event data =
     (let state = object_value (dot data ''state''); context' = dot data ''context'';
          apiName = str_or (op_api_name operation) (trimmed_text (dot data ''api_name''));
          errorType = mcpErrorType data state; duration = to_num (dot data ''duration_ms'') in
      operation\<lparr>op_call_id := str_or (op_call_id operation) (trimmed_text (dot data ''id'')),
        op_identifier := str_or (op_identifier operation) (trimmed_text (dot data ''identifier'')),
        op_api_name := apiName, op_method := mcpMethodForAPI apiName state,
        op_response_seq := event_seq event, op_response_time := jor (dot event ''created_at'') (JStr []),
        op_transport := str_or (op_transport operation) (trimmed_text (dot data ''mcp_transport'')),
        op_protocol_version := str_or (op_protocol_version operation) (trimmed_text (dot data ''mcp_protocol_version'')),
        op_diagnostics := unique_texts (map JStr (op_diagnostics operation @ mcpDiagnosticBadges data)),
        op_result_protocol := trimmed_text (dot state ''protocol_version''),
        op_result_summary := mcpResultSummary data,
        op_duration_ms := (if is_finite duration then Some duration else None),
        op_artifact_count := length (array_items (dot data ''artifacts'')),
        op_preview_truncated := (truthy (dot context' ''content_truncated'') \<or> truthy (dot context' ''state_truncated'')
           \<or> truthy (dot state ''truncated'')),
        op_error_type := errorType, op_status := (if errorType \<noteq> [] then ''failed'' else ''completed'')\<rparr>)"

record call_table =
  ct_operations :: "mcp_operation list"
  ct_pending :: "(jstring, nat list) jmap"

definition is_mcp_call :: "jsval \<Rightarrow> bool" where
  "is_mcp_call e \<longleftrightarrow> from_mcp (event_data e) \<and> event_is e ''runtime.tool_call''"

definition is_mcp_result :: "jsval \<Rightarrow> bool" where
  "is_mcp_result e \<longleftrightarrow> from_mcp (event_data e) \<and> event_is e ''runtime.tool_result''"

definition mcp_call_id :: "jsval \<Rightarrow> jstring" where
  "mcp_call_id e = trimmed_text (dot (event_data e) ''id'')"

definition pending_calls :: "call_table \<Rightarrow> jstring \<Rightarrow> nat list" where
  "pending_calls t callID = (if callID = [] then [] else case map_get (ct_pending t) callID of None \<Rightarrow> [] | Some is \<Rightarrow> is)"

definition record_call :: "call_table \<Rightarrow> jsval \<Rightarrow> call_table" where
  "record_call t e =
     (let callID = mcp_call_id e; operations = ct_operations t @ [newMCPProtocolOperation e (event_data e) JNull] in
      \<lparr>ct_operations = operations,
       ct_pending = (if callID = [] then ct_pending t
         else map_set (ct_pending t) callID (pending_calls t callID @ [length operations - 1]))\<rparr>)"

definition record_result :: "call_table \<Rightarrow> jsval \<Rightarrow> call_table" where
  "record_result t e =
     (let callID = mcp_call_id e; data = event_data e in
      case pending_calls t callID of
        [] \<Rightarrow> \<lparr>ct_operations = ct_operations t @ [applyMCPProtocolResult (newMCPProtocolOperation JNull data e) e data],
               ct_pending = (if callID = [] then ct_pending t else map_delete (ct_pending t) callID)\<rparr>
      | i # pending \<Rightarrow>
          \<lparr>ct_operations = (ct_operations t)[i := applyMCPProtocolResult (ct_operations t ! i) e data],
           ct_pending = (if pending = [] then map_delete (ct_pending t) callID else map_set (ct_pending t) callID pending)\<rparr>)"

definition record_event :: "call_table \<Rightarrow> jsval \<Rightarrow> call_table" where
  "record_event t e = (if is_mcp_call e then record_call t e else if is_mcp_result e then record_result t e else t)"

definition recorded_calls :: "jsval list \<Rightarrow> call_table" where
  "recorded_calls events = foldl record_event \<lparr>ct_operations = [], ct_pending = []\<rparr> events"

definition operation_seq :: "mcp_operation \<Rightarrow> jsnum" where
  "operation_seq o' = num_or (num_or (op_request_seq o') (op_response_seq o')) (Fin 0)"

definition ordered_events :: "jsval list \<Rightarrow> jsval list" where
  "ordered_events events = sort_by (\<lambda>a b. num_le (event_seq a) (event_seq b)) events"

definition collectMCPProtocolOperations :: "jsval list \<Rightarrow> mcp_operation list" where
  "collectMCPProtocolOperations events =
     sort_by (\<lambda>a b. num_le (operation_seq a) (operation_seq b)) (ct_operations (recorded_calls (ordered_events events)))"

section \<open>Download commands\<close>

definition download_command :: "jstring \<Rightarrow> jstring \<Rightarrow> jstring" where
  "download_command session artifact =
     lit ''bin/tma session artifact download --session '' @ session @ lit '' --artifact '' @ artifact"

definition artifact_cli :: "jstring \<Rightarrow> jsval \<Rightarrow> jstring" where
  "artifact_cli base downloadPath =
     (let path = hd (split_on 35 (hd (split_on 63 (trimmed_text downloadPath)))) in
      if \<not> starts_with path base then []
      else case split_on 47 (drop (length base) path) of
          [session, artifacts, artifact, download] \<Rightarrow>
            if artifacts = lit ''artifacts'' \<and> download = lit ''download'' \<and> session \<noteq> [] \<and> artifact \<noteq> []
            then download_command session artifact else []
        | _ \<Rightarrow> [])"

definition sessionArtifactCLI :: "jsval \<Rightarrow> jstring" where
  "sessionArtifactCLI = artifact_cli (lit ''/v1/sessions/'')"

definition sessionArtifactCommand :: "jsval \<Rightarrow> jsval \<Rightarrow> jstring" where
  "sessionArtifactCommand sessionId artifactId =
     (let session = trimmed_text sessionId; artifact = trimmed_text artifactId in
      if session = [] \<or> artifact = [] then [] else download_command session artifact)"

section \<open>Specification of the table\<close>

text \<open>A row is a call with its result; either of them may be missing.\<close>

type_synonym call_row = "jsval option \<times> jsval option"

definition waits_for :: "jstring \<Rightarrow> call_row \<Rightarrow> bool" where
  "waits_for callID row \<longleftrightarrow> callID \<noteq> [] \<and> snd row = None \<and> (case fst row of None \<Rightarrow> False | Some c \<Rightarrow> mcp_call_id c = callID)"

text \<open>A result goes to the first row that waits for its id, or to a row of its own.\<close>

fun answer_row :: "jsval \<Rightarrow> call_row list \<Rightarrow> call_row list" where
  "answer_row e [] = [(None, Some e)]"
| "answer_row e (row # rows) =
     (if waits_for (mcp_call_id e) row then (fst row, Some e) # rows else row # answer_row e rows)"

definition row_event :: "call_row list \<Rightarrow> jsval \<Rightarrow> call_row list" where
  "row_event rows e = (if is_mcp_call e then rows @ [(Some e, None)] else if is_mcp_result e then answer_row e rows else rows)"

definition call_rows :: "jsval list \<Rightarrow> call_row list" where
  "call_rows events = foldl row_event [] events"

fun row_operation :: "call_row \<Rightarrow> mcp_operation" where
  "row_operation (Some c, None) = newMCPProtocolOperation c (event_data c) JNull"
| "row_operation (Some c, Some r) =
     applyMCPProtocolResult (newMCPProtocolOperation c (event_data c) JNull) r (event_data r)"
| "row_operation (None, Some r) =
     applyMCPProtocolResult (newMCPProtocolOperation JNull (event_data r) r) r (event_data r)"
| "row_operation (None, None) = newMCPProtocolOperation JNull JNull JNull"

definition waiting_rows :: "call_row list \<Rightarrow> jstring \<Rightarrow> nat list" where
  "waiting_rows rows callID = filter (\<lambda>i. waits_for callID (rows ! i)) [0..<length rows]"

section \<open>The table implements its specification\<close>

lemma waits_for_Nil [simp]: "\<not> waits_for [] row"
  by (simp add: waits_for_def)

lemma waiting_snoc:
  "waiting_rows (rows @ [row]) callID = waiting_rows rows callID @ (if waits_for callID row then [length rows] else [])"
  by (auto simp: waiting_rows_def nth_append intro!: filter_cong)

lemma answer_row_no_wait: "(\<And>row. row \<in> set rows \<Longrightarrow> \<not> waits_for (mcp_call_id e) row) \<Longrightarrow> answer_row e rows = rows @ [(None, Some e)]"
  by (induction rows) auto

lemma answer_row_split:
  assumes "waits_for (mcp_call_id e) row" "\<And>r. r \<in> set l \<Longrightarrow> \<not> waits_for (mcp_call_id e) r"
  shows "answer_row e (l @ row # r) = l @ (fst row, Some e) # r"
  using assms by (induction l) auto

lemma answer_row_cases:
  obtains (alone) "answer_row e rows = rows @ [(None, Some e)]" "\<And>row. row \<in> set rows \<Longrightarrow> \<not> waits_for (mcp_call_id e) row"
  | (joined) l c r where "rows = l @ (Some c, None) # r" "mcp_call_id c = mcp_call_id e" "mcp_call_id e \<noteq> []"
      "answer_row e rows = l @ (Some c, Some e) # r" "\<And>row. row \<in> set l \<Longrightarrow> \<not> waits_for (mcp_call_id e) row"
proof (cases "\<exists>row \<in> set rows. waits_for (mcp_call_id e) row")
  case True
  then obtain l row r where s: "rows = l @ row # r" "waits_for (mcp_call_id e) row" "\<forall>x \<in> set l. \<not> waits_for (mcp_call_id e) x"
    using split_list_first_prop [OF True] by blast
  then obtain c where "row = (Some c, None)" "mcp_call_id c = mcp_call_id e" "mcp_call_id e \<noteq> []"
    by (cases row) (auto simp: waits_for_def split: option.splits)
  with s joined answer_row_split [of e row l r] show thesis by auto
qed (use alone answer_row_no_wait in blast)

lemma waiting_update:
  assumes "\<And>c. \<not> waits_for c row"
  shows "waiting_rows (rows[i := row]) callID = filter (\<lambda>j. j \<noteq> i) (waiting_rows rows callID)"
  using assms by (auto simp: waiting_rows_def nth_list_update intro!: filter_cong split: if_splits)
    (metis nth_list_update_eq nth_list_update_neq)

lemma waiting_Cons:
  assumes "waiting_rows rows callID = i # is"
  shows "i < length rows" "waits_for callID (rows ! i)" "filter (\<lambda>j. j \<noteq> i) (i # is) = is"
    "\<And>row. row \<in> set (take i rows) \<Longrightarrow> \<not> waits_for callID row"
proof -
  have mem: "j \<in> set (i # is) \<longleftrightarrow> j < length rows \<and> waits_for callID (rows ! j)" for j
    unfolding assms [symmetric] by (auto simp: waiting_rows_def)
  have sorted: "sorted (i # is)" "distinct (i # is)" unfolding assms [symmetric] waiting_rows_def by (simp_all add: sorted_filter [of id, simplified])
  show "i < length rows" "waits_for callID (rows ! i)" using mem [of i] by simp_all
  show "filter (\<lambda>j. j \<noteq> i) (i # is) = is" using sorted(2) by (auto simp: filter_id_conv)
  fix row assume "row \<in> set (take i rows)"
  then obtain j where j: "j < i" "j < length rows" "row = rows ! j" by (auto simp: in_set_conv_nth)
  with sorted(1) mem [of j] show "\<not> waits_for callID row" by auto
qed

lemma answer_row_waiting:
  assumes "waiting_rows rows (mcp_call_id e) = i # is"
  shows "answer_row e rows = rows[i := (fst (rows ! i), Some e)]"
proof -
  note w = waiting_Cons [OF assms]
  have "answer_row e (take i rows @ rows ! i # drop (Suc i) rows) = take i rows @ (fst (rows ! i), Some e) # drop (Suc i) rows"
    by (rule answer_row_split) (use w in auto)
  with w(1) show ?thesis by (simp add: id_take_nth_drop [symmetric] upd_conv_take_nth_drop)
qed

lemma answer_row_not_waiting:
  assumes "waiting_rows rows (mcp_call_id e) = []"
  shows "answer_row e rows = rows @ [(None, Some e)]"
proof (rule answer_row_no_wait)
  have none: "\<not> waits_for (mcp_call_id e) (rows ! i)" if "i < length rows" for i
    using assms that by (simp add: waiting_rows_def filter_empty_conv)
  show "\<not> waits_for (mcp_call_id e) row" if "row \<in> set rows" for row
    using that none by (metis in_set_conv_nth)
qed

definition implements_rows :: "call_table \<Rightarrow> call_row list \<Rightarrow> bool" where
  "implements_rows t rows \<longleftrightarrow> ct_operations t = map row_operation rows \<and> pending_calls t = waiting_rows rows"

lemma pending_calls_set:
  "pending_calls \<lparr>ct_operations = ops, ct_pending = map_set m c is\<rparr> =
     (\<lambda>d. if d = [] then [] else if d = c then is else case map_get m d of None \<Rightarrow> [] | Some js \<Rightarrow> js)"
  by (auto simp: pending_calls_def fun_eq_iff js_map)

lemma pending_calls_delete:
  "pending_calls \<lparr>ct_operations = ops, ct_pending = map_delete m c\<rparr> =
     (\<lambda>d. if d = [] \<or> d = c then [] else case map_get m d of None \<Rightarrow> [] | Some js \<Rightarrow> js)"
  by (auto simp: pending_calls_def fun_eq_iff js_map)

lemma pending_calls_same: "pending_calls \<lparr>ct_operations = ops, ct_pending = ct_pending t\<rparr> = pending_calls t"
  by (simp add: pending_calls_def fun_eq_iff)

lemma pending_calls_get: "d \<noteq> [] \<Longrightarrow> (case map_get (ct_pending t) d of None \<Rightarrow> [] | Some js \<Rightarrow> js) = pending_calls t d"
  by (simp add: pending_calls_def)

lemma record_call_rows:
  assumes "implements_rows t rows"
  shows "implements_rows (record_call t e) (rows @ [(Some e, None)])"
proof -
  have pc: "pending_calls t = waiting_rows rows" and ops: "ct_operations t = map row_operation rows"
    using assms by (auto simp: implements_rows_def)
  have "pending_calls (record_call t e) d = waiting_rows (rows @ [(Some e, None)]) d" for d
    using ops pc
    by (auto simp: record_call_def Let_def pending_calls_set pending_calls_same pending_calls_get waiting_snoc waits_for_def)
      (simp add: waiting_rows_def)
  then show ?thesis using ops by (auto simp: implements_rows_def record_call_def Let_def)
qed

lemma record_result_rows:
  assumes "implements_rows t rows"
  shows "implements_rows (record_result t e) (answer_row e rows)"
proof -
  let ?c = "mcp_call_id e"
  have pc: "pending_calls t = waiting_rows rows" and ops: "ct_operations t = map row_operation rows"
    using assms by (auto simp: implements_rows_def)
  have nil: "waiting_rows rows [] = []" for rows by (simp add: waiting_rows_def)
  show ?thesis
  proof (cases "waiting_rows rows ?c")
    case Nil
    have "pending_calls (record_result t e) d = waiting_rows (rows @ [(None, Some e)]) d" for d
      using Nil pc
      by (auto simp: record_result_def Let_def pending_calls_delete pending_calls_same pending_calls_get waiting_snoc
          waits_for_def nil)
    then show ?thesis using ops pc Nil
      by (auto simp: implements_rows_def answer_row_not_waiting record_result_def Let_def)
  next
    case (Cons i rest)
    note w = waiting_Cons [OF Cons]
    then obtain c where c: "rows ! i = (Some c, None)" "?c \<noteq> []" "mcp_call_id c = ?c"
      by (cases "rows ! i") (auto simp: waits_for_def split: option.splits)
    have upd: "answer_row e rows = rows[i := (Some c, Some e)]" using answer_row_waiting [OF Cons] c by simp
    have other: "i \<notin> set (waiting_rows rows d)" if "d \<noteq> ?c" for d using that c by (auto simp: waiting_rows_def waits_for_def)
    have "waiting_rows (rows[i := (Some c, Some e)]) d = (if d = ?c then rest else waiting_rows rows d)" for d
      using waiting_update [of "(Some c, Some e)" rows i d] other [of d] Cons w(3)
      by (auto simp: waits_for_def filter_id_conv simp del: filter.simps)
    moreover have "pending_calls (record_result t e) d = (if d = ?c then rest else waiting_rows rows d)" for d
      using Cons pc c(2) nil by (auto simp: record_result_def Let_def pending_calls_delete pending_calls_set pending_calls_get)
    ultimately show ?thesis using ops pc Cons c w(1)
      by (auto simp: implements_rows_def upd record_result_def Let_def map_update)
  qed
qed

lemma recorded_calls_rows: "implements_rows (recorded_calls events) (call_rows events)"
  unfolding recorded_calls_def call_rows_def
proof (induction events rule: rev_induct)
  case Nil
  then show ?case by (auto simp: implements_rows_def pending_calls_def waiting_rows_def fun_eq_iff)
next
  case (snoc e events)
  then show ?case by (simp add: record_event_def row_event_def record_call_rows record_result_rows)
qed

section \<open>Calls and results in the rows\<close>

definition joined_ok :: "jsval list \<Rightarrow> call_row \<Rightarrow> bool" where
  "joined_ok evs row \<longleftrightarrow> (case row of
       (Some c, Some r) \<Rightarrow> mcp_call_id c = mcp_call_id r \<and> mcp_call_id c \<noteq> [] \<and> subseq [c, r] evs
     | _ \<Rightarrow> True)"

text \<open>Of two calls with the same id the first one is answered first.\<close>

definition in_turn :: "jsval list \<Rightarrow> call_row \<Rightarrow> call_row \<Rightarrow> bool" where
  "in_turn evs row row' \<longleftrightarrow> (case (row, row') of
       ((Some a, r), (Some b, Some y)) \<Rightarrow> mcp_call_id a = mcp_call_id b \<longrightarrow> (\<exists>x. r = Some x \<and> subseq [x, y] evs)
     | _ \<Rightarrow> True)"

lemma subseq_snoc: "subseq xs evs \<Longrightarrow> subseq xs (evs @ [e])"
  using list_emb_append_mono [of "(=)" xs evs "[]" "[e]"] by simp

lemma subseq_pair_snoc: "x \<in> set evs \<Longrightarrow> subseq [x, e] (evs @ [e])"
  using list_emb_append_mono [of "(=)" "[x]" evs "[e]" "[e]"] by (simp add: subseq_singleton_left)

lemma call_rows_snoc: "call_rows (evs @ [e]) = row_event (call_rows evs) e"
  by (simp add: call_rows_def)

lemma map_filter_append: "List.map_filter f (xs @ ys) = List.map_filter f xs @ List.map_filter f ys"
  by (induction xs) (auto simp: List.map_filter_simps split: option.splits)

lemmas map_filter_simps' = map_filter_append List.map_filter_simps

lemma rows_calls: "List.map_filter fst (call_rows evs) = filter is_mcp_call evs"
proof (induction evs rule: rev_induct)
  case (snoc e evs)
  show ?case
    by (rule answer_row_cases [of e "call_rows evs"])
      (use snoc in \<open>auto simp: call_rows_snoc row_event_def map_filter_simps'\<close>)
qed (simp add: call_rows_def List.map_filter_simps)

lemma not_call_and_result: "is_mcp_call e \<Longrightarrow> \<not> is_mcp_result e"
  by (auto simp: is_mcp_call_def is_mcp_result_def event_is_def)

lemma rows_results: "mset (List.map_filter snd (call_rows evs)) = mset (filter is_mcp_result evs)"
proof (induction evs rule: rev_induct)
  case (snoc e evs)
  show ?case
    by (rule answer_row_cases [of e "call_rows evs"])
      (use snoc not_call_and_result [of e] in \<open>auto simp: call_rows_snoc row_event_def map_filter_simps'\<close>)
qed (simp add: call_rows_def List.map_filter_simps)

lemma row_members:
  assumes "(c, r) \<in> set (call_rows evs)"
  shows "c = Some a \<Longrightarrow> a \<in> set evs" "r = Some b \<Longrightarrow> b \<in> set evs"
proof -
  have "a \<in> set (List.map_filter fst (call_rows evs))" if "c = Some a"
    using assms that by (force simp: List.map_filter_def)
  then show "c = Some a \<Longrightarrow> a \<in> set evs" by (simp add: rows_calls)
  have "b \<in># mset (List.map_filter snd (call_rows evs))" if "r = Some b"
    using assms that by (force simp: List.map_filter_def)
  then show "r = Some b \<Longrightarrow> b \<in> set evs" by (simp add: rows_results)
qed

lemma joined_ok_snoc: "joined_ok evs row \<Longrightarrow> joined_ok (evs @ [e]) row"
  by (auto simp: joined_ok_def subseq_snoc split: option.splits prod.splits)

lemma in_turn_snoc: "in_turn evs row row' \<Longrightarrow> in_turn (evs @ [e]) row row'"
  by (auto simp: in_turn_def subseq_snoc split: option.splits prod.splits)

lemma in_turn_open [simp]: "in_turn evs row (a, None)" "in_turn evs row (None, r)" "in_turn evs (None, r) row"
  by (auto simp: in_turn_def split: option.splits prod.splits)

lemma rows_joined: "list_all (joined_ok evs) (call_rows evs)"
proof (induction evs rule: rev_induct)
  case (snoc e evs)
  then have old: "list_all (joined_ok (evs @ [e])) (call_rows evs)" by (auto simp: list_all_iff intro: joined_ok_snoc)
  show ?case
  proof (rule answer_row_cases [of e "call_rows evs"])
    fix l c r assume "call_rows evs = l @ (Some c, None) # r" "mcp_call_id c = mcp_call_id e" "mcp_call_id e \<noteq> []"
      and "answer_row e (call_rows evs) = l @ (Some c, Some e) # r"
    moreover from this have "c \<in> set evs" using row_members(1) [of "Some c" None evs c] by auto
    ultimately show ?thesis using old
      by (auto simp: call_rows_snoc row_event_def list_all_iff joined_ok_def subseq_pair_snoc)
  qed (use old in \<open>auto simp: call_rows_snoc row_event_def\<close>, auto simp: joined_ok_def)
qed (simp add: call_rows_def)

lemma rows_in_turn: "sorted_wrt (in_turn evs) (call_rows evs)"
proof (induction evs rule: rev_induct)
  case (snoc e evs)
  then have old: "sorted_wrt (in_turn (evs @ [e])) (call_rows evs)"
    by (rule sorted_wrt_mono_rel [rotated]) (rule in_turn_snoc)
  show ?case
  proof (rule answer_row_cases [of e "call_rows evs"])
    fix l c r assume s: "call_rows evs = l @ (Some c, None) # r" "mcp_call_id c = mcp_call_id e" "mcp_call_id e \<noteq> []"
      and a: "answer_row e (call_rows evs) = l @ (Some c, Some e) # r"
      and l: "\<And>row. row \<in> set l \<Longrightarrow> \<not> waits_for (mcp_call_id e) row"
    have "in_turn (evs @ [e]) row (Some c, Some e)" if "row \<in> set l" for row
    proof -
      obtain a x where row: "row = (a, x)" by fastforce
      have "x \<noteq> None" if "a = Some d" "mcp_call_id d = mcp_call_id c" for d
        using l [OF \<open>row \<in> set l\<close>] s that row by (auto simp: waits_for_def)
      moreover have "y \<in> set evs" if "x = Some y" for y
        using row_members(2) [of a x evs y] s(1) \<open>row \<in> set l\<close> row that by auto
      ultimately show ?thesis using row by (auto simp: in_turn_def subseq_pair_snoc split: option.splits)
    qed
    moreover have "in_turn (evs @ [e]) (Some c, Some e) row" if "row \<in> set r" for row
      using old s(1) that by (auto simp: sorted_wrt_append in_turn_def split: option.splits prod.splits)
    ultimately show ?thesis using old s(1) a by (auto simp: call_rows_snoc row_event_def sorted_wrt_append)
  qed (use old in \<open>auto simp: call_rows_snoc row_event_def sorted_wrt_append\<close>)
qed (simp add: call_rows_def)

section \<open>Label values\<close>

text \<open>What the three replacements leave of an escaped value: \<open>q\<close> stands for a quote and \<open>b\<close> for a backslash, and the
  letter \<open>n\<close> after a backslash has become a line feed.\<close>

fun staged :: "jstring \<Rightarrow> jstring \<Rightarrow> jstring \<Rightarrow> jstring" where
  "staged b q [] = []"
| "staged b q (c # s) =
     (if c = 92 then (case s of [] \<Rightarrow> b | d # s' \<Rightarrow> if d = 110 then 92 # 10 # staged b q s' else b @ staged b q s)
      else if c = 34 then q @ staged b q s else c # staged b q s)"

lemma replace_two_skip: "x \<noteq> a \<or> t = [] \<or> hd t \<noteq> b \<Longrightarrow> replace_two a b r (x # t) = x # replace_two a b r t"
  by (cases t) auto

lemma hd_escape: "escapePrometheusLabel (c # s) \<noteq> [] \<and> hd (escapePrometheusLabel (c # s)) = (if c = 10 \<or> c = 34 then 92 else c)"
  by (auto simp: escapePrometheusLabel_def escape_char_def)

abbreviation spoiled :: "int \<Rightarrow> jstring \<Rightarrow> bool" where
  "spoiled c s \<equiv> c = 92 \<and> s \<noteq> [] \<and> hd s = 110"

lemma staged_spoiled [simp]: "staged b q (92 # 110 # s) = 92 # 10 # staged b q s"
  by simp

lemma staged_step:
  "\<not> spoiled c s \<Longrightarrow> staged b q (c # s) = (if c = 92 then b else if c = 34 then q else [c]) @ staged b q s"
  by (cases s) auto

lemma hd_staged: "staged [92, 92] [92, 34] s = [] \<or> hd (staged [92, 92] [92, 34] s) \<noteq> 34"
  by (cases s; cases "tl s") simp_all

declare staged.simps(2) [simp del]

lemma staged_induct [case_names Nil spoiled plain]:
  assumes "P []" "\<And>s. P s \<Longrightarrow> P (92 # 110 # s)" "\<And>c s. \<not> spoiled c s \<Longrightarrow> P s \<Longrightarrow> P (c # s)"
  shows "P v"
proof (induction v rule: length_induct)
  case (1 v)
  show ?case
  proof (cases v)
    case (Cons c s)
    then show ?thesis using 1 assms(2,3) by (cases "spoiled c s") (auto simp: neq_Nil_conv)
  qed (simp add: assms(1))
qed

lemma escape_Cons: "escapePrometheusLabel (c # s) = escape_char c @ escapePrometheusLabel s"
  by (simp add: escapePrometheusLabel_def)

lemma unescape_stage1: "replace_two 92 110 10 (escapePrometheusLabel v) = staged [92, 92] [92, 34] v"
proof (induction v rule: staged_induct)
  case (plain c s)
  have "escapePrometheusLabel s = [] \<or> hd (escapePrometheusLabel s) \<noteq> 110" if "c = 92"
    using plain(1) that hd_escape [of "hd s" "tl s"] by (cases s) (auto simp: escapePrometheusLabel_def)
  with plain show ?case by (auto simp: staged_step escape_Cons escape_char_def replace_two_skip)
qed (simp_all add: escapePrometheusLabel_def escape_char_def)

lemma unescape_stage2: "replace_two 92 34 34 (staged [92, 92] [92, 34] v) = staged [92, 92] [34] v"
proof (induction v rule: staged_induct)
  case (plain c s)
  then show ?case using hd_staged [of s] by (auto simp: staged_step replace_two_skip)
qed (simp_all add: replace_two_skip)

lemma unescape_stage3: "replace_two 92 92 92 (staged [92, 92] [34] v) = staged [92] [34] v"
proof (induction v rule: staged_induct)
  case (plain c s)
  then show ?case by (auto simp: staged_step replace_two_skip)
qed (simp_all add: replace_two_skip)

lemma unescape_escape: "unescape_label (escapePrometheusLabel v) = staged [92] [34] v"
  by (simp add: unescape_label_def unescape_stage1 unescape_stage2 unescape_stage3)

lemma includes_simps:
  "str_includes [] p = starts_with [] p" "str_includes (c # s) p = (starts_with (c # s) p \<or> str_includes s p)"
  by (simp_all add: str_includes.simps [of "[]"] str_includes.simps [of "c # s"])

lemma staged_id: "staged [92] [34] v = v \<longleftrightarrow> \<not> str_includes v [92, 110]"
proof (induction v rule: staged_induct)
  case (plain c s)
  have "\<not> starts_with (c # s) [92, 110]" using plain(1) by (cases s) (auto simp: starts_with_def)
  with plain show ?case by (simp add: staged_step includes_simps)
qed (simp_all add: includes_simps starts_with_def)

text \<open>The labels as the server prints them.\<close>

definition label_text :: "(jstring \<times> jstring) list \<Rightarrow> jstring" where
  "label_text kvs = join [44] (map (\<lambda>(k, v). k @ [61, 34] @ escapePrometheusLabel v @ [34]) kvs)"

definition label_name :: "jstring \<Rightarrow> bool" where
  "label_name k \<longleftrightarrow> k \<noteq> [] \<and> word_start (hd k) \<and> list_all word_char k"

lemma label_body_escaped: "label_body (escapePrometheusLabel v @ 34 # r) = Some (escapePrometheusLabel v, r)"
  by (induction v) (auto simp: escapePrometheusLabel_def escape_char_def line_terminator_def)

lemma label_match_printed:
  assumes "label_name k"
  shows "label_match (k @ [61, 34] @ escapePrometheusLabel v @ 34 # r) = Some (k, escapePrometheusLabel v, r)"
proof -
  let ?s = "k @ [61, 34] @ escapePrometheusLabel v @ 34 # r"
  have "\<not> word_char 61" by (simp add: word_char_def word_start_def is_lower_def is_upper_def is_digit_def)
  moreover have "\<forall>c \<in> set k. word_char c" using assms by (simp add: label_name_def list_all_iff)
  ultimately have "takeWhile word_char ?s = k" "dropWhile word_char ?s = [61, 34] @ escapePrometheusLabel v @ 34 # r"
    by (simp_all add: takeWhile_append2 dropWhile_append2)
  then show ?thesis using assms label_body_escaped [of v r]
    by (simp add: label_match_def Let_def label_name_def starts_with_def)
qed

lemma label_matches_printed:
  assumes "list_all (\<lambda>(k, v). label_name k) kvs"
  shows "label_matches (label_text kvs) = map (\<lambda>(k, v). (k, escapePrometheusLabel v)) kvs"
  using assms
proof (induction kvs)
  case (Cons kv kvs)
  obtain k v where kv: "kv = (k, v)" by fastforce
  let ?rest = "if kvs = [] then [] else 44 # label_text kvs"
  have printed: "label_text (kv # kvs) = k @ [61, 34] @ escapePrometheusLabel v @ 34 # ?rest"
    by (cases kvs) (auto simp: label_text_def kv)
  then have "label_text (kv # kvs) \<noteq> []" by simp
  then obtain c s where cs: "label_text (kv # kvs) = c # s" by (meson neq_Nil_conv)
  have "label_matches (label_text (kv # kvs)) = (k, escapePrometheusLabel v) # label_matches ?rest"
    using label_match_printed [of k v ?rest] Cons.prems printed kv cs by simp
  moreover have "label_match (44 # t) = None" for t
    by (simp add: label_match_def word_start_def is_lower_def is_upper_def)
  then have "label_matches ?rest = label_matches (label_text kvs)" by (simp add: label_text_def)
  ultimately show ?case using Cons kv by simp
qed (simp add: label_text_def)

lemma fold_map_set_fresh:
  assumes "distinct (map fst (m @ kvs))"
  shows "foldl (\<lambda>m (k, v). map_set m k (f v)) m kvs = m @ map (\<lambda>(k, v). (k, f v)) kvs"
  using assms
proof (induction kvs arbitrary: m)
  case (Cons kv kvs)
  obtain k v where kv: "kv = (k, v)" by fastforce
  have "map_set m k (f v) = m @ [(k, f v)]" using Cons.prems kv by (auto simp: map_set_def map_has_def)
  with Cons.IH [of "m @ [(k, f v)]"] Cons.prems kv show ?case by simp
qed simp

lemma parse_printed_labels:
  assumes "list_all (\<lambda>(k, v). label_name k) kvs" "distinct (map fst kvs)"
  shows "parsePrometheusLabels (label_text kvs) = map (\<lambda>(k, v). (k, staged [92] [34] v)) kvs"
proof -
  let ?m = "map (\<lambda>(k, v). (k, escapePrometheusLabel v)) kvs"
  have "map fst ?m = map fst kvs" by (simp add: comp_def split_def)
  then have "foldl (\<lambda>m (k, v). map_set m k (unescape_label v)) [] ?m = [] @ map (\<lambda>(k, v). (k, unescape_label v)) ?m"
    using assms(2) by (intro fold_map_set_fresh) (simp only: append_Nil)
  then show ?thesis using label_matches_printed [OF assms(1)]
    by (simp add: parsePrometheusLabels_def comp_def split_def unescape_escape)
qed

text \<open>The inspector reads back the labels that the server prints exactly when no value contains a backslash
  followed by the letter \<open>n\<close>. The three replacements of \<open>parsePrometheusLabels\<close> run one after the other, so the escaped
  backslash of such a value is taken for the start of an escaped line feed.\<close>

theorem prometheus_labels_roundtrip:
  assumes "list_all (\<lambda>(k, v). label_name k) kvs" "distinct (map fst kvs)"
  shows "parsePrometheusLabels (label_text kvs) = kvs \<longleftrightarrow> (\<forall>(k, v) \<in> set kvs. \<not> str_includes v [92, 110])"
proof -
  have "map (\<lambda>(k, v). (k, staged [92] [34] v)) kvs = kvs \<longleftrightarrow> (\<forall>(k, v) \<in> set kvs. staged [92] [34] v = v)"
    by (induction kvs) auto
  then show ?thesis by (simp only: parse_printed_labels [OF assms] staged_id)
qed

theorem prometheus_labels_roundtrip_witness:
  "parsePrometheusLabels (label_text [(lit ''outcome'', lit ''pass''), (lit ''validator'', [97, 34, 10, 92, 98])])
     = [(lit ''outcome'', lit ''pass''), (lit ''validator'', [97, 34, 10, 92, 98])]
   \<and> parsePrometheusLabels (label_text [(lit ''validator'', [67, 58, 92, 110])]) \<noteq> [(lit ''validator'', [67, 58, 92, 110])]"
proof
  show "parsePrometheusLabels (label_text [(lit ''outcome'', lit ''pass''), (lit ''validator'', [97, 34, 10, 92, 98])])
     = [(lit ''outcome'', lit ''pass''), (lit ''validator'', [97, 34, 10, 92, 98])]"
    by (subst prometheus_labels_roundtrip) (code_simp, code_simp, code_simp)
  show "parsePrometheusLabels (label_text [(lit ''validator'', [67, 58, 92, 110])]) \<noteq> [(lit ''validator'', [67, 58, 92, 110])]"
    by (subst prometheus_labels_roundtrip) (code_simp, code_simp, code_simp)
qed

section \<open>Totals\<close>

lemma completion_line_adds:
  assumes "cs_attempts s = cs_pass s + cs_retry s + cs_fail s"
  shows "let t = completion_line s line in cs_attempts t = cs_pass t + cs_retry t + cs_fail t"
  using assms by (auto simp: completion_line_def add_outcome_def Let_def split: option.splits jsnum.splits)

lemma totals_add_up: "cs_attempts (completion_totals m) = cs_pass (completion_totals m) + cs_retry (completion_totals m) + cs_fail (completion_totals m)"
  unfolding completion_totals_def
  by (rule foldl_invariant [where P = "\<lambda>t. cs_attempts t = cs_pass t + cs_retry t + cs_fail t"])
    (use completion_line_adds in \<open>auto simp: Let_def\<close>)

text \<open>The counters of the plans agree with the filter.\<close>

lemma plan_counts_filter:
  assumes "c = foldl count_plan \<lparr>pc_total = 0, pc_active = 0, pc_completed = 0, pc_canceled = 0, pc_superseded = 0\<rparr> plans"
  shows "pc_total c = length plans"
    "pc_active c = length (filter (\<lambda>p. plan_status p = lit ''active'') plans)"
    "pc_completed c = length (filter (\<lambda>p. plan_status p = lit ''completed'') plans)"
    "pc_canceled c = length (filter (\<lambda>p. plan_status p = lit ''canceled'') plans)"
    "pc_superseded c = length (filter (\<lambda>p. plan_status p = lit ''superseded'') plans)"
  using assms by (induction plans arbitrary: c rule: rev_induct) (simp_all add: count_plan_def Let_def)

lemma source_counts_total:
  "let c = collectToolSourceStats events in sc_total c = sc_mcp c + sc_worker_plugin c + sc_builtin c + sc_other c"
  unfolding collectToolSourceStats_def Let_def
  by (rule foldl_invariant [where P = "\<lambda>c. sc_total c = sc_mcp c + sc_worker_plugin c + sc_builtin c + sc_other c"])
    (auto simp: count_source_def Let_def)

text \<open>C25: The table of MCP calls. Its rows are those of the specification: every call of the log starts one row, in the
  order of the log; every result is in exactly one row; a result joined to a call has the id of the call and comes after it;
  of two calls with one id the earlier one gets the earlier result. The queues per id of the code and the search for the
  first open row of the specification give the same table.\<close>

theorem mcp_calls_paired:
  "collectMCPProtocolOperations events
     = sort_by (\<lambda>a b. num_le (operation_seq a) (operation_seq b)) (map row_operation (call_rows (ordered_events events)))
   \<and> List.map_filter fst (call_rows (ordered_events events)) = filter is_mcp_call (ordered_events events)
   \<and> mset (List.map_filter snd (call_rows (ordered_events events))) = mset (filter is_mcp_result (ordered_events events))
   \<and> list_all (joined_ok (ordered_events events)) (call_rows (ordered_events events))
   \<and> sorted_wrt (in_turn (ordered_events events)) (call_rows (ordered_events events))"
  using recorded_calls_rows [of "ordered_events events"]
  by (simp add: collectMCPProtocolOperations_def implements_rows_def rows_calls rows_results rows_joined rows_in_turn)

end
