(* ===== verification/Inspector_Refresh.thy ===== *)
theory Inspector_Refresh
  imports Inspector_Utils
begin

text \<open>
  Loading and refreshing a session in the inspector (\<open>apps/inspector/src/Inspector.jsx\<close>, \<open>load\<close> and
  \<open>clearInspectionResults\<close>).

  The record \<open>inspector\<close> holds the React state that the two functions set (\<open>iv_\<close>) and the refs that they share
  (\<open>rf_\<close>). An \<open>AbortController\<close> is a number; the aborted ones are kept in a list. \<open>load\<close> is split at its awaits:
  \<open>load_begin\<close> runs to the first request and leaves a frame with the local variables, \<open>load_settle\<close> runs the rest with the
  outcome of the requests. Between the two, other loads may begin and settle, and the results may be cleared.

  The step relation adds the server: the log of every session grows, and a request for events is answered at some moment
  with the events after the given position (\<open>listEventsContext\<close> of the server selects \<open>seq > after\<close> in the order of
  \<open>seq\<close>), or it fails. The text that \<open>pretty\<close> prints is a parameter without assumptions.
\<close>

section \<open>State\<close>

record load_frame =
  lf_session :: jstring
  lf_turn :: jsval
  lf_incremental :: bool
  lf_after :: jsnum
  lf_autoOn :: bool

record inspector =
  iv_status :: jstring
  iv_sessionID :: jstring
  iv_agentID :: jsval
  iv_turnID :: jsval
  iv_traceID :: jsval
  iv_selectedSpanID :: jsval
  iv_currentTrace :: jsval
  iv_traceCatalog :: jsval
  iv_spanCatalog :: jsval
  iv_sessionCatalog :: jsval
  iv_sessionMeta :: jsval
  iv_usage :: jsval
  iv_summary :: jsval
  iv_taskPlans :: jsval
  iv_artifacts :: jsval
  iv_events :: jsval
  iv_interventions :: jsval
  iv_metrics :: jsval
  iv_exporters :: jsval
  iv_raw :: jstring
  iv_artifactPreview :: jsval
  iv_autoRefresh :: bool
  iv_hash :: "(jstring, jstring) jmap"
  rf_loadRequest :: "nat option"
  rf_aborted :: "nat list"
  rf_events :: jsval
  rf_eventsSessionID :: jstring
  rf_frames :: "(nat, load_frame) jmap"
  rf_next :: nat

definition no_events :: jsval where
  "no_events = jobj [(''events'', JArr [])]"

definition no_items :: "string \<Rightarrow> jsval" where
  "no_items k = jobj [(k, JArr [])]"

definition initial_inspector :: inspector where
  "initial_inspector =
     \<lparr>iv_status = lit ''idle'', iv_sessionID = [], iv_agentID = JStr [], iv_turnID = JStr [], iv_traceID = JStr [],
      iv_selectedSpanID = JStr [], iv_currentTrace = JNull, iv_traceCatalog = no_items ''traces'', iv_spanCatalog = jobj [],
      iv_sessionCatalog = no_items ''sessions'', iv_sessionMeta = JNull, iv_usage = JNull, iv_summary = JNull,
      iv_taskPlans = no_items ''plans'', iv_artifacts = no_items ''artifacts'', iv_events = no_events,
      iv_interventions = no_items ''interventions'', iv_metrics = jlit ''No metrics loaded.'', iv_exporters = JNull,
      iv_raw = lit ''No raw export loaded.'', iv_artifactPreview = JNull, iv_autoRefresh = False, iv_hash = [],
      rf_loadRequest = None, rf_aborted = [], rf_events = no_events, rf_eventsSessionID = [], rf_frames = [], rf_next = 0\<rparr>"

section \<open>Helpers\<close>

text \<open>\<open>setInspectorHash\<close>: the parameters of the address.\<close>

definition set_hash :: "(string \<times> jsval) list \<Rightarrow> (jstring, jstring) jmap \<Rightarrow> (jstring, jstring) jmap" where
  "set_hash values' params = foldl (\<lambda>m (k, raw). let v = trimmed_text raw in
     if v \<noteq> [] then map_set m (lit k) v else map_delete m (lit k)) params values'"

definition setInspectorHash :: "(string \<times> jsval) list \<Rightarrow> inspector \<Rightarrow> inspector" where
  "setInspectorHash values' st = st\<lparr>iv_hash := set_hash values' (iv_hash st)\<rparr>"

text \<open>\<open>softFail\<close> on a promise that is not aborted: \<open>Inl\<close> carries \<open>String(error)\<close>.\<close>

definition softFail :: "jstring + jsval \<Rightarrow> (jstring \<Rightarrow> jsval) \<Rightarrow> jsval" where
  "softFail result fallback = (case result of Inl error' \<Rightarrow> fallback error' | Inr v \<Rightarrow> v)"

definition or_blank :: "jsval \<Rightarrow> jsval" where
  "or_blank v = jor v (JStr [])"

definition renderTrace :: "(jsval \<Rightarrow> jstring) \<Rightarrow> jsval \<Rightarrow> inspector \<Rightarrow> inspector" where
  "renderTrace pretty trace st =
     (let spans = map (\<lambda>s. dot s ''span_id'') (array_items (dot trace ''spans''));
          previous = iv_selectedSpanID st in
      st\<lparr>iv_currentTrace := trace, iv_traceID := or_blank (dot trace ''trace_id''), iv_turnID := or_blank (dot trace ''turn_id''),
         iv_selectedSpanID := (if truthy previous \<and> previous \<in> set spans then previous
           else or_blank (case spans of [] \<Rightarrow> JUndef | s # _ \<Rightarrow> s)),
         iv_raw := pretty trace\<rparr>)"

definition with_session :: "jsval \<Rightarrow> jsval \<Rightarrow> jsval" where
  "with_session session catalog =
     (let known = array_items (dot catalog ''sessions'') in
      if dot session ''id'' \<in> set (map (\<lambda>s. dot s ''id'') known) then catalog
      else jobj [(''sessions'', JArr (filter truthy (session # known)))])"

section \<open>Loading\<close>

definition abortRequest :: "inspector \<Rightarrow> inspector" where
  "abortRequest st = (case rf_loadRequest st of None \<Rightarrow> st | Some c \<Rightarrow> st\<lparr>rf_aborted := set_add (rf_aborted st) c\<rparr>)"

definition clearInspectionResults :: "inspector \<Rightarrow> inspector" where
  "clearInspectionResults st =
     (abortRequest st)\<lparr>iv_turnID := JStr [], iv_traceID := JStr [], iv_selectedSpanID := JStr [], iv_currentTrace := JNull,
       iv_traceCatalog := no_items ''traces'', iv_spanCatalog := no_items ''spans'', iv_sessionMeta := JNull,
       iv_usage := JNull, iv_summary := JNull, iv_taskPlans := no_items ''plans'', iv_artifacts := no_items ''artifacts'',
       iv_events := no_events, rf_events := no_events, rf_eventsSessionID := [],
       iv_interventions := no_items ''interventions'', iv_metrics := jlit ''No metrics loaded.'', iv_exporters := JNull,
       iv_raw := lit ''No raw export loaded.'', iv_artifactPreview := JNull, iv_autoRefresh := False\<rparr>"

definition shown_events :: "inspector \<Rightarrow> jsval list" where
  "shown_events st = (case response_events (rf_events st) of None \<Rightarrow> [] | Some es \<Rightarrow> es)"

text \<open>The first part of \<open>load\<close>, for a call with the mode \<open>auto\<close> or another one.\<close>

definition load_begin :: "jstring \<Rightarrow> jsval \<Rightarrow> bool \<Rightarrow> bool \<Rightarrow> inspector \<Rightarrow> inspector" where
  "load_begin nextSession nextTurn auto incrementalOption st =
     (if nextSession = [] then st\<lparr>iv_status := lit ''session required''\<rparr>
      else if auto \<and> rf_loadRequest st \<noteq> None then st
      else
        (let st1 = abortRequest st; controller = rf_next st;
             incremental = (incrementalOption \<and> rf_eventsSessionID st = nextSession) in
         st1\<lparr>rf_loadRequest := Some controller, rf_next := Suc controller,
             rf_frames := map_set (rf_frames st) controller
               \<lparr>lf_session = nextSession, lf_turn = nextTurn, lf_incremental = incremental,
                lf_after = (if incremental then highestEventSeq (shown_events st) else Fin 0),
                lf_autoOn = iv_autoRefresh st\<rparr>,
             iv_status := lit ''loading '' @ nextSession\<rparr>))"

record load_results =
  lr_trace :: jsval
  lr_session :: jsval
  lr_usage :: "jstring + jsval"
  lr_summary :: "jstring + jsval"
  lr_artifacts :: "jstring + jsval"
  lr_events :: "jstring + jsval"
  lr_interventions :: "jstring + jsval"
  lr_metrics :: "jstring + jsval"
  lr_exporters :: "jstring + jsval"
  lr_taskPlans :: "jstring + jsval"

definition failed_items :: "string \<Rightarrow> jstring \<Rightarrow> jsval" where
  "failed_items k e = jobj [(k, JArr []), (''error'', JStr e)]"

definition failed_value :: "jstring \<Rightarrow> jsval" where
  "failed_value e = jobj [(''error'', JStr e)]"

definition next_events :: "load_frame \<Rightarrow> load_results \<Rightarrow> inspector \<Rightarrow> jsval option" where
  "next_events f r st =
     (let response = softFail (lr_events r) (failed_items ''events'') in
      if lf_incremental f then mergeEventResponses (rf_events st) response else Some response)"

definition loaded_status :: "load_frame \<Rightarrow> jsval \<Rightarrow> jstring" where
  "loaded_status f trace =
     lit ''loaded '' @ lf_session f @ lit '' / '' @ to_str (jor (dot trace ''turn_id'') (jlit ''latest''))
     @ (if isTerminalTurnStatus (dot trace ''status'') \<and> lf_autoOn f
        then lit ''; auto refresh stopped ('' @ to_str (dot trace ''status'') @ lit '')'' else [])"

text \<open>The assignments after the last await of \<open>load\<close>.\<close>

definition apply_load :: "(jsval \<Rightarrow> jstring) \<Rightarrow> load_frame \<Rightarrow> load_results \<Rightarrow> jsval \<Rightarrow> inspector \<Rightarrow> inspector" where
  "apply_load pretty f r events st =
     (let trace = lr_trace r; st1 = renderTrace pretty trace st in
      setInspectorHash [(''session'', JStr (lf_session f)), (''turn'', jor (dot trace ''turn_id'') (lf_turn f)),
        (''trace'', or_blank (dot trace ''trace_id'')), (''span'', JStr [])]
      (st1\<lparr>iv_sessionMeta := lr_session r, iv_agentID := or_blank (dot (lr_session r) ''agent_id''),
           iv_sessionCatalog := with_session (lr_session r) (iv_sessionCatalog st1),
           iv_usage := softFail (lr_usage r) failed_value,
           iv_summary := softFail (lr_summary r) (\<lambda>_. jobj [(''summary_text'', JStr []), (''source_until_seq'', jint 0)]),
           iv_artifacts := softFail (lr_artifacts r) (failed_items ''artifacts''),
           iv_events := events, rf_events := events, rf_eventsSessionID := lf_session f,
           iv_interventions := softFail (lr_interventions r) (failed_items ''interventions''),
           iv_metrics := softFail (lr_metrics r) JStr, iv_exporters := softFail (lr_exporters r) failed_value,
           iv_taskPlans := softFail (lr_taskPlans r) (failed_items ''plans''),
           iv_autoRefresh := (if isTerminalTurnStatus (dot trace ''status'') then False else iv_autoRefresh st1),
           iv_status := loaded_status f trace\<rparr>))"

text \<open>How the requests of a load end: all of them answered, one of them aborted, or the trace or the session refused.\<close>

datatype load_outcome = Loaded load_results | LoadAborted | LoadFailed jstring

definition is_current :: "nat \<Rightarrow> inspector \<Rightarrow> bool" where
  "is_current c st \<longleftrightarrow> rf_loadRequest st = Some c \<and> c \<notin> set (rf_aborted st)"

text \<open>The \<open>finally\<close> of \<open>load\<close>.\<close>

definition load_finally :: "nat \<Rightarrow> inspector \<Rightarrow> inspector" where
  "load_finally c st = st\<lparr>rf_frames := map_delete (rf_frames st) c,
     rf_loadRequest := (if rf_loadRequest st = Some c then None else rf_loadRequest st)\<rparr>"

text \<open>When the events cannot be iterated, the load ends with the \<open>TypeError\<close> of the engine.\<close>

definition load_settle :: "(jsval \<Rightarrow> jstring) \<Rightarrow> nat \<Rightarrow> load_outcome \<Rightarrow> inspector \<Rightarrow> inspector" where
  "load_settle pretty c outcome st =
     (case map_get (rf_frames st) c of None \<Rightarrow> st
      | Some f \<Rightarrow>
          (case outcome of
             LoadAborted \<Rightarrow> load_finally c st
           | LoadFailed message \<Rightarrow> (load_finally c st)\<lparr>iv_status := message\<rparr>
           | Loaded r \<Rightarrow>
               if \<not> is_current c st then load_finally c st
               else (case next_events f r st of
                   None \<Rightarrow> (load_finally c st)\<lparr>iv_status := lit ''object is not iterable''\<rparr>
                 | Some events \<Rightarrow> load_finally c (apply_load pretty f r events st))))"

section \<open>The inspector and the server\<close>

record world =
  w_inspector :: inspector
  w_log :: "jstring \<Rightarrow> jsval list"
  w_answers :: "(nat, jstring + jsval) jmap"

text \<open>The events of a session after a position, as the server selects them.\<close>

definition listEvents :: "jsval list \<Rightarrow> jsnum \<Rightarrow> jsval list" where
  "listEvents es after = filter (\<lambda>e. num_less after (event_seq e)) es"

definition events_response :: "jsval list \<Rightarrow> jsval" where
  "events_response es = jobj [(''events'', JArr es)]"

text \<open>What the other handlers of the page may change: nothing that \<open>load\<close> relies on.\<close>

definition same_refs :: "inspector \<Rightarrow> inspector \<Rightarrow> bool" where
  "same_refs a b \<longleftrightarrow> iv_events a = iv_events b \<and> rf_loadRequest a = rf_loadRequest b \<and> rf_aborted a = rf_aborted b
     \<and> rf_events a = rf_events b \<and> rf_eventsSessionID a = rf_eventsSessionID b \<and> rf_frames a = rf_frames b \<and> rf_next a = rf_next b"

inductive world_step :: "(jsval \<Rightarrow> jstring) \<Rightarrow> world \<Rightarrow> world \<Rightarrow> bool" for pretty where
  step_append: "in_order (w_log w s @ [e]) \<Longrightarrow> world_step pretty w (w\<lparr>w_log := (w_log w)(s := w_log w s @ [e])\<rparr>)"
| step_begin: "world_step pretty w (w\<lparr>w_inspector := load_begin s turn auto incremental (w_inspector w)\<rparr>)"
| step_answer: "map_get (rf_frames (w_inspector w)) c = Some f \<Longrightarrow> map_get (w_answers w) c = None \<Longrightarrow>
    world_step pretty w (w\<lparr>w_answers := map_set (w_answers w) c
      (Inr (events_response (listEvents (w_log w (lf_session f)) (lf_after f))))\<rparr>)"
| step_refuse: "map_get (rf_frames (w_inspector w)) c = Some f \<Longrightarrow> map_get (w_answers w) c = None \<Longrightarrow>
    world_step pretty w (w\<lparr>w_answers := map_set (w_answers w) c (Inl message)\<rparr>)"
| step_loaded: "map_get (w_answers w) c = Some (lr_events r) \<Longrightarrow>
    world_step pretty w (w\<lparr>w_inspector := load_settle pretty c (Loaded r) (w_inspector w)\<rparr>)"
| step_aborted: "world_step pretty w (w\<lparr>w_inspector := load_settle pretty c LoadAborted (w_inspector w)\<rparr>)"
| step_failed: "world_step pretty w (w\<lparr>w_inspector := load_settle pretty c (LoadFailed message) (w_inspector w)\<rparr>)"
| step_clear: "world_step pretty w (w\<lparr>w_inspector := clearInspectionResults (w_inspector w)\<rparr>)"
| step_abort: "world_step pretty w (w\<lparr>w_inspector := abortRequest (w_inspector w)\<rparr>)"
| step_other: "same_refs (w_inspector w) st \<Longrightarrow> world_step pretty w (w\<lparr>w_inspector := st\<rparr>)"

definition initial_world :: world where
  "initial_world = \<lparr>w_inspector = initial_inspector, w_log = (\<lambda>_. []), w_answers = []\<rparr>"

inductive reachable_world :: "(jsval \<Rightarrow> jstring) \<Rightarrow> world \<Rightarrow> bool" for pretty where
  reach_init: "reachable_world pretty initial_world"
| reach_step: "reachable_world pretty w \<Longrightarrow> world_step pretty w w' \<Longrightarrow> reachable_world pretty w'"

section \<open>Merging what was shown with what is new\<close>

lemma in_order_append: "in_order (xs @ ys) \<longleftrightarrow> in_order xs \<and> in_order ys
    \<and> (\<forall>x \<in> set xs. \<forall>y \<in> set ys. num_less (event_seq x) (event_seq y))"
  by (auto simp: in_order_def sorted_wrt_append)

lemma in_order_take: "in_order es \<Longrightarrow> in_order (take n es)"
  by (metis append_take_drop_id in_order_append)

lemma in_order_positions: "in_order es \<Longrightarrow> e \<in> set es \<Longrightarrow> num_less (Fin 0) (event_seq e) \<and> event_seq e \<noteq> NaN"
  by (auto simp: in_order_def list_all_iff has_position_def)

text \<open>Asking for the events after the highest position gives exactly the rest of the log.\<close>

lemma listEvents_after:
  assumes "in_order (xs @ ys)"
  shows "listEvents (xs @ ys) (highestEventSeq xs) = ys"
proof -
  have xs: "in_order xs" and ys: "in_order ys" and lt: "\<And>x y. x \<in> set xs \<Longrightarrow> y \<in> set ys \<Longrightarrow> num_less (event_seq x) (event_seq y)"
    using assms by (auto simp: in_order_append)
  have "\<not> num_less (highestEventSeq xs) (event_seq x)" if "x \<in> set xs" for x
    using highestEventSeq_ge [OF that] in_order_positions [OF xs] by (auto simp: num_le_def)
  moreover have "num_less (highestEventSeq xs) (event_seq y)" if "y \<in> set ys" for y
  proof -
    have "highestEventSeq xs \<noteq> NaN" using in_order_positions [OF xs] by (intro highestEventSeq_NaN) auto
    then consider "highestEventSeq xs = Fin 0" | x where "x \<in> set xs" "highestEventSeq xs = event_seq x"
      using highestEventSeq_mem by blast
    then show ?thesis using lt that in_order_positions [OF ys that] by cases auto
  qed
  ultimately show ?thesis by (simp add: listEvents_def filter_empty_conv filter_id_conv)
qed

lemma listEvents_all: "in_order es \<Longrightarrow> listEvents es (Fin 0) = es"
  using listEvents_after [of "[]" es] by (simp add: highestEventSeq_def)

lemma merged_rest: "in_order (xs @ ys) \<Longrightarrow> merged_events xs ys = xs @ ys"
  by (rule inspector_log.merge_split) (simp_all add: event_at_def latest_at_append)

lemma merged_prefix:
  assumes "in_order es" "n \<le> m"
  shows "merged_events (take n es) (listEvents (take m es) (highestEventSeq (take n es))) = take m es"
proof -
  have split: "take m es = take n es @ drop n (take m es)" using assms(2) by (metis append_take_drop_id min.absorb1 take_take)
  then have "in_order (take n es @ drop n (take m es))" using in_order_take [OF assms(1), of m] by simp
  from listEvents_after [OF this] merged_rest [OF this] split show ?thesis by simp
qed

section \<open>The invariant\<close>

definition load_ok :: "inspector \<Rightarrow> nat \<Rightarrow> load_frame \<Rightarrow> bool" where
  "load_ok st c f \<longleftrightarrow> c < rf_next st \<and>
     (is_current c st \<longrightarrow> lf_after f = (if lf_incremental f then highestEventSeq (shown_events st) else Fin 0)
        \<and> (lf_incremental f \<longrightarrow> rf_eventsSessionID st = lf_session f))"

definition answer_ok :: "inspector \<Rightarrow> jsval list \<Rightarrow> nat \<Rightarrow> load_frame \<Rightarrow> jstring + jsval \<Rightarrow> bool" where
  "answer_ok st es c f a \<longleftrightarrow> (case a of Inl _ \<Rightarrow> True
     | Inr v \<Rightarrow> \<exists>m \<le> length es. v = events_response (listEvents (take m es) (lf_after f))
         \<and> (is_current c st \<and> lf_incremental f \<longrightarrow> length (shown_events st) \<le> m))"

definition shows_prefix :: "inspector \<Rightarrow> (jstring \<Rightarrow> jsval list) \<Rightarrow> bool" where
  "shows_prefix st lg \<longleftrightarrow> iv_events st = rf_events st \<and> response_events (rf_events st) = Some (shown_events st)
     \<and> shown_events st = take (length (shown_events st)) (lg (rf_eventsSessionID st))"

definition requests_ok :: "inspector \<Rightarrow> (nat, jstring + jsval) jmap \<Rightarrow> bool" where
  "requests_ok st ans \<longleftrightarrow> (\<forall>c. rf_loadRequest st = Some c \<longrightarrow> c < rf_next st) \<and> (\<forall>c \<in> set (rf_aborted st). c < rf_next st)
     \<and> (\<forall>c. map_get ans c \<noteq> None \<longrightarrow> c < rf_next st)"

definition loads_ok :: "inspector \<Rightarrow> (jstring \<Rightarrow> jsval list) \<Rightarrow> (nat, jstring + jsval) jmap \<Rightarrow> bool" where
  "loads_ok st lg ans \<longleftrightarrow> (\<forall>c f. map_get (rf_frames st) c = Some f \<longrightarrow> load_ok st c f
     \<and> (\<forall>a. map_get ans c = Some a \<longrightarrow> answer_ok st (lg (lf_session f)) c f a))"

definition world_ok :: "world \<Rightarrow> bool" where
  "world_ok w \<longleftrightarrow> (\<forall>s. in_order (w_log w s)) \<and> shows_prefix (w_inspector w) (w_log w)
     \<and> requests_ok (w_inspector w) (w_answers w) \<and> loads_ok (w_inspector w) (w_log w) (w_answers w)"

lemma response_events_events: "response_events (events_response es) = Some es"
  by (simp add: response_events_def events_response_def dot_jobj jor_def iterated_def)

lemma response_events_failed: "response_events (failed_items ''events'' e) = Some []"
  by (simp add: response_events_def failed_items_def dot_jobj jor_def iterated_def)

lemma response_events_none: "response_events no_events = Some []"
  by (simp add: response_events_def no_events_def dot_jobj jor_def iterated_def)

lemma response_ok: "map_ok (own_entries (events_response es))" "map_ok (own_entries (failed_items ''events'' e))"
  by (simp_all add: own_entries_def events_response_def failed_items_def jobj_def map_ok_def)

lemma shown_eq: "response_events (rf_events st) = Some es \<Longrightarrow> shown_events st = es"
  by (simp add: shown_events_def)

lemma take_length_take: "take (min (length xs) n) xs = take n xs"
  by (cases "n \<le> length xs") simp_all

text \<open>Where no load is current, nothing depends on the events that are shown.\<close>

lemma load_ok_idle: "load_ok st c f \<Longrightarrow> \<not> is_current c st' \<Longrightarrow> rf_next st \<le> rf_next st' \<Longrightarrow> load_ok st' c f"
  by (auto simp: load_ok_def)

lemma answer_ok_idle: "answer_ok st es c f a \<Longrightarrow> \<not> is_current c st' \<Longrightarrow> answer_ok st' es c f a"
  by (cases a) (auto simp: answer_ok_def)

lemma loads_ok_idle:
  assumes "loads_ok st lg ans" "\<And>c. \<not> is_current c st'" "rf_next st \<le> rf_next st'"
    "\<And>c f. map_get (rf_frames st') c = Some f \<Longrightarrow> map_get (rf_frames st) c = Some f"
  shows "loads_ok st' lg ans"
  unfolding loads_ok_def
proof (intro allI impI conjI)
  fix c f assume f: "map_get (rf_frames st') c = Some f"
  then have old: "load_ok st c f" "\<And>a. map_get ans c = Some a \<Longrightarrow> answer_ok st (lg (lf_session f)) c f a"
    using assms(1,4) by (auto simp: loads_ok_def)
  show "load_ok st' c f" using old(1) assms(2,3) by (rule load_ok_idle)
  show "answer_ok st' (lg (lf_session f)) c f a" if "map_get ans c = Some a" for a
    using old(2) [OF that] assms(2) by (rule answer_ok_idle)
qed

text \<open>The parts of the state the invariant reads.\<close>

lemma loads_ok_same:
  assumes "loads_ok st lg ans" "rf_next st' = rf_next st" "rf_events st' = rf_events st"
    "rf_eventsSessionID st' = rf_eventsSessionID st" "\<And>c. is_current c st' \<Longrightarrow> is_current c st"
    "\<And>c f. map_get (rf_frames st') c = Some f \<Longrightarrow> map_get (rf_frames st) c = Some f"
  shows "loads_ok st' lg ans"
  unfolding loads_ok_def
proof (intro allI impI conjI)
  have shown: "shown_events st' = shown_events st" using assms(3) by (simp add: shown_events_def)
  fix c f assume f: "map_get (rf_frames st') c = Some f"
  then have old: "load_ok st c f" "\<And>a. map_get ans c = Some a \<Longrightarrow> answer_ok st (lg (lf_session f)) c f a"
    using assms(1,6) by (auto simp: loads_ok_def)
  show "load_ok st' c f" using old(1) assms(2,4,5) shown by (auto simp: load_ok_def)
  show "answer_ok st' (lg (lf_session f)) c f a" if "map_get ans c = Some a" for a
    using old(2) [OF that] assms(5) shown by (auto simp: answer_ok_def split: sum.splits)
qed

lemma shows_prefix_same:
  assumes "shows_prefix st lg" "iv_events st' = iv_events st" "rf_events st' = rf_events st"
    "rf_eventsSessionID st' = rf_eventsSessionID st"
  shows "shows_prefix st' lg"
  using assms by (simp add: shows_prefix_def shown_events_def)

lemma shows_nothing: "rf_events st = no_events \<Longrightarrow> iv_events st = no_events \<Longrightarrow> shows_prefix st lg"
  by (simp add: shows_prefix_def shown_events_def response_events_none)

section \<open>Every step keeps the invariant\<close>

lemma abort_current: "\<not> is_current c (abortRequest st)"
  by (auto simp: is_current_def abortRequest_def split: option.splits)

lemma abort_refs [simp]:
  "rf_loadRequest (abortRequest st) = rf_loadRequest st" "rf_next (abortRequest st) = rf_next st"
  "rf_events (abortRequest st) = rf_events st" "rf_eventsSessionID (abortRequest st) = rf_eventsSessionID st"
  "rf_frames (abortRequest st) = rf_frames st" "iv_events (abortRequest st) = iv_events st"
  by (simp_all add: abortRequest_def split: option.splits)

lemma abort_requests: "requests_ok st ans \<Longrightarrow> requests_ok (abortRequest st) ans"
  by (auto simp: requests_ok_def abortRequest_def split: option.splits)

lemma finally_refs [simp]:
  "rf_next (load_finally c st) = rf_next st" "rf_events (load_finally c st) = rf_events st"
  "rf_eventsSessionID (load_finally c st) = rf_eventsSessionID st" "iv_events (load_finally c st) = iv_events st"
  "rf_aborted (load_finally c st) = rf_aborted st" "rf_frames (load_finally c st) = map_delete (rf_frames st) c"
  "rf_loadRequest (load_finally c st) = (if rf_loadRequest st = Some c then None else rf_loadRequest st)"
  by (simp_all add: load_finally_def)

lemma finally_current: "is_current d (load_finally c st) \<longleftrightarrow> is_current d st \<and> d \<noteq> c"
  by (auto simp: is_current_def)

lemma apply_refs [simp]:
  "rf_next (apply_load pretty f r es st) = rf_next st" "rf_events (apply_load pretty f r es st) = es"
  "rf_eventsSessionID (apply_load pretty f r es st) = lf_session f" "iv_events (apply_load pretty f r es st) = es"
  "rf_aborted (apply_load pretty f r es st) = rf_aborted st" "rf_frames (apply_load pretty f r es st) = rf_frames st"
  "rf_loadRequest (apply_load pretty f r es st) = rf_loadRequest st"
  by (simp_all add: apply_load_def renderTrace_def setInspectorHash_def Let_def)

lemma append_ok:
  assumes "world_ok w" "in_order (w_log w s @ [e])"
  shows "world_ok (w\<lparr>w_log := (w_log w)(s := w_log w s @ [e])\<rparr>)"
proof -
  let ?log = "(w_log w)(s := w_log w s @ [e])"
  have longer: "take n (?log t) = take n (w_log w t)" if "n \<le> length (w_log w t)" for n t using that by auto
  have "length (shown_events (w_inspector w)) \<le> length (w_log w (rf_eventsSessionID (w_inspector w)))"
    using assms(1) by (metis length_take min.cobounded1 shows_prefix_def world_ok_def)
  then have "shows_prefix (w_inspector w) ?log" using assms(1) longer by (auto simp: world_ok_def shows_prefix_def)
  moreover have "answer_ok st (?log t) c f a" if "answer_ok st (w_log w t) c f a" for st c f a t
    using that longer unfolding answer_ok_def by (cases a) (auto simp: less_SucI intro: le_SucI)
  then have "loads_ok (w_inspector w) ?log (w_answers w)" using assms(1) by (simp add: world_ok_def loads_ok_def)
  ultimately show ?thesis using assms by (simp add: world_ok_def)
qed

lemma begin_ok:
  assumes "world_ok w"
  shows "world_ok (w\<lparr>w_inspector := load_begin s turn auto incr (w_inspector w)\<rparr>)"
proof -
  let ?st = "w_inspector w" and ?st' = "load_begin s turn auto incr (w_inspector w)"
  have shown: "shows_prefix ?st' (w_log w)"
    by (rule shows_prefix_same [of ?st]) (use assms in \<open>auto simp: world_ok_def load_begin_def Let_def\<close>)
  have fresh: "map_get (w_answers w) (rf_next ?st) = None" "rf_next ?st \<notin> set (rf_aborted ?st)"
    using assms by (auto simp: world_ok_def requests_ok_def)
  show ?thesis
  proof (cases "s = [] \<or> (auto \<and> rf_loadRequest ?st \<noteq> None)")
    case True
    then have same: "rf_frames ?st' = rf_frames ?st" "rf_next ?st' = rf_next ?st" "rf_events ?st' = rf_events ?st"
      "rf_eventsSessionID ?st' = rf_eventsSessionID ?st" "rf_loadRequest ?st' = rf_loadRequest ?st" "rf_aborted ?st' = rf_aborted ?st"
      by (auto simp: load_begin_def)
    then have current: "is_current c ?st' = is_current c ?st" for c by (simp add: is_current_def)
    have "loads_ok ?st (w_log w) (w_answers w)" using assms by (simp add: world_ok_def)
    then have "loads_ok ?st' (w_log w) (w_answers w)"
      by (rule loads_ok_same) (simp_all only: same current)
    moreover have "requests_ok ?st' (w_answers w)" using same assms by (simp add: world_ok_def requests_ok_def)
    ultimately show ?thesis using shown assms by (simp add: world_ok_def)
  next
    case False
    let ?f = "\<lparr>lf_session = s, lf_turn = turn, lf_incremental = (incr \<and> rf_eventsSessionID ?st = s),
      lf_after = (if incr \<and> rf_eventsSessionID ?st = s then highestEventSeq (shown_events ?st) else Fin 0),
      lf_autoOn = iv_autoRefresh ?st\<rparr>"
    have refs: "rf_loadRequest ?st' = Some (rf_next ?st)" "rf_next ?st' = Suc (rf_next ?st)"
      "rf_frames ?st' = map_set (rf_frames ?st) (rf_next ?st) ?f" "shown_events ?st' = shown_events ?st"
      "rf_eventsSessionID ?st' = rf_eventsSessionID ?st"
      using False by (auto simp: load_begin_def Let_def shown_events_def)
    have frames: "load_ok ?st' c f \<and> (\<forall>a. map_get (w_answers w) c = Some a \<longrightarrow> answer_ok ?st' (w_log w (lf_session f)) c f a)"
      if "map_get (rf_frames ?st') c = Some f" for c f
    proof (cases "c = rf_next ?st")
      case True
      with that refs have "f = ?f" by (simp add: map_get_set)
      then show ?thesis using True refs fresh(1) by (auto simp: load_ok_def)
    next
      case other: False
      then have old: "load_ok ?st c f" "\<And>a. map_get (w_answers w) c = Some a \<Longrightarrow> answer_ok ?st (w_log w (lf_session f)) c f a"
        using that refs assms by (auto simp: map_get_set world_ok_def loads_ok_def)
      have "\<not> is_current c ?st'" using refs(1) other by (simp add: is_current_def)
      then show ?thesis using old refs(2) by (auto intro: load_ok_idle answer_ok_idle)
    qed
    have "rf_aborted ?st' = rf_aborted (abortRequest ?st)" using False by (auto simp: load_begin_def Let_def)
    moreover have "requests_ok (abortRequest ?st) (w_answers w)" using assms by (simp add: world_ok_def abort_requests)
    ultimately have "requests_ok ?st' (w_answers w)" using refs(1,2) by (auto simp: requests_ok_def less_SucI)
    with frames shown assms show ?thesis by (simp add: world_ok_def loads_ok_def)
  qed
qed

lemma answer_step_ok:
  assumes "world_ok w" "map_get (rf_frames (w_inspector w)) c = Some f"
    "answer_ok (w_inspector w) (w_log w (lf_session f)) c f a"
  shows "world_ok (w\<lparr>w_answers := map_set (w_answers w) c a\<rparr>)"
proof -
  have "c < rf_next (w_inspector w)" using assms(1,2) by (auto simp: world_ok_def loads_ok_def load_ok_def)
  then show ?thesis using assms by (auto simp: world_ok_def requests_ok_def loads_ok_def map_get_set)
qed

lemma answered_ok:
  assumes "world_ok w" "map_get (rf_frames (w_inspector w)) c = Some f"
  shows "answer_ok (w_inspector w) (w_log w (lf_session f)) c f
    (Inr (events_response (listEvents (w_log w (lf_session f)) (lf_after f))))"
proof -
  have "length (shown_events (w_inspector w)) \<le> length (w_log w (lf_session f))"
    if "is_current c (w_inspector w)" "lf_incremental f"
    using assms that by (metis load_ok_def length_take loads_ok_def min.cobounded1 shows_prefix_def world_ok_def)
  then show ?thesis by (auto simp: answer_ok_def intro!: exI [of _ "length (w_log w (lf_session f))"])
qed

text \<open>The result of a load that is still current.\<close>

lemma next_events_value:
  assumes "response_events (rf_events st) = Some old" "response = softFail (lr_events r) (failed_items ''events'')"
    "response_events response = Some new" "map_ok (own_entries response)"
  obtains events where "next_events f r st = Some events"
    "response_events events = Some (if lf_incremental f then merged_events old new else new)"
proof (cases "lf_incremental f")
  case True
  obtain v where "mergeEventResponses (rf_events st) response = Some v" "response_events v = Some (merged_events old new)"
    using merged_response [OF assms(1,3,4)] .
  with True that assms(2) show thesis by (simp add: next_events_def)
next
  case False
  with that assms(2,3) show thesis by (simp add: next_events_def)
qed

lemma next_events_answered:
  assumes "world_ok w" "map_get (rf_frames (w_inspector w)) c = Some f" "is_current c (w_inspector w)"
    "lr_events r = Inr (events_response (listEvents (take m (w_log w (lf_session f))) (lf_after f)))"
    "lf_incremental f \<Longrightarrow> length (shown_events (w_inspector w)) \<le> m"
  obtains events where "next_events f r (w_inspector w) = Some events"
    "response_events events = Some (take m (w_log w (lf_session f)))"
proof -
  let ?st = "w_inspector w" and ?es = "w_log w (lf_session f)"
  have ord: "in_order ?es" and frame: "load_ok ?st c f" and shown: "shows_prefix ?st (w_log w)"
    using assms by (auto simp: world_ok_def loads_ok_def)
  obtain events where ev: "next_events f r ?st = Some events" "response_events events
    = Some (if lf_incremental f then merged_events (shown_events ?st) (listEvents (take m ?es) (lf_after f))
        else listEvents (take m ?es) (lf_after f))"
    using shown by (rule_tac next_events_value [of ?st "shown_events ?st" "events_response (listEvents (take m ?es) (lf_after f))" r])
      (auto simp: shows_prefix_def softFail_def assms(4) response_events_events response_ok)
  have "merged_events (shown_events ?st) (listEvents (take m ?es) (lf_after f)) = take m ?es" if "lf_incremental f"
  proof -
    have "shown_events ?st = take (length (shown_events ?st)) ?es" "lf_after f = highestEventSeq (shown_events ?st)"
      using shown frame that assms(3) by (auto simp: shows_prefix_def load_ok_def)
    then show ?thesis using merged_prefix [OF ord assms(5) [OF that]] by simp
  qed
  moreover have "listEvents (take m ?es) (lf_after f) = take m ?es" if "\<not> lf_incremental f"
    using that frame assms(3) listEvents_all [OF in_order_take [OF ord, of m]] by (simp add: load_ok_def)
  ultimately show thesis using ev that by (simp split: if_splits)
qed

lemma next_events_refused:
  assumes "world_ok w" "map_get (rf_frames (w_inspector w)) c = Some f" "is_current c (w_inspector w)" "lr_events r = Inl message"
  obtains events n where "next_events f r (w_inspector w) = Some events"
    "response_events events = Some (take n (w_log w (lf_session f)))"
proof -
  let ?st = "w_inspector w" and ?es = "w_log w (lf_session f)"
  have ord: "in_order ?es" and frame: "load_ok ?st c f" and shown: "shows_prefix ?st (w_log w)"
    using assms by (auto simp: world_ok_def loads_ok_def)
  obtain events where ev: "next_events f r ?st = Some events" "response_events events
    = Some (if lf_incremental f then merged_events (shown_events ?st) [] else [])"
    using shown by (rule_tac next_events_value [of ?st "shown_events ?st" "failed_items ''events'' message" r])
      (auto simp: shows_prefix_def softFail_def assms(4) response_events_failed response_ok)
  have "merged_events (shown_events ?st) [] = take (length (shown_events ?st)) ?es" if "lf_incremental f"
  proof -
    have "shown_events ?st = take (length (shown_events ?st)) ?es"
      using shown frame that assms(3) by (auto simp: shows_prefix_def load_ok_def)
    then show ?thesis using merged_rest [of "shown_events ?st" "[]"] in_order_take [OF ord] by (metis append_Nil2)
  qed
  with ev that [of events "if lf_incremental f then length (shown_events ?st) else 0"] show thesis by (simp split: if_splits)
qed

lemma next_events_prefix:
  assumes "world_ok w" "map_get (rf_frames (w_inspector w)) c = Some f" "is_current c (w_inspector w)"
    "map_get (w_answers w) c = Some (lr_events r)"
  obtains events n where "next_events f r (w_inspector w) = Some events"
    "response_events events = Some (take n (w_log w (lf_session f)))"
proof (cases "lr_events r")
  case (Inl message)
  then show thesis using next_events_refused [OF assms(1-3)] that by metis
next
  case (Inr v)
  have "answer_ok (w_inspector w) (w_log w (lf_session f)) c f (lr_events r)"
    using assms by (auto simp: world_ok_def loads_ok_def)
  with Inr assms(3) obtain m where "lr_events r = Inr (events_response (listEvents (take m (w_log w (lf_session f))) (lf_after f)))"
    "lf_incremental f \<Longrightarrow> length (shown_events (w_inspector w)) \<le> m" by (auto simp: answer_ok_def)
  then show thesis using next_events_answered [OF assms(1-3)] that by metis
qed

lemma settle_ok:
  assumes "world_ok w" "\<And>r. outcome = Loaded r \<Longrightarrow> map_get (w_answers w) c = Some (lr_events r)"
  shows "world_ok (w\<lparr>w_inspector := load_settle pretty c outcome (w_inspector w)\<rparr>)"
proof -
  let ?st = "w_inspector w"
  have ok: "loads_ok ?st (w_log w) (w_answers w)" "shows_prefix ?st (w_log w)" "requests_ok ?st (w_answers w)"
    using assms(1) by (simp_all add: world_ok_def)
  have finish: "world_ok (w\<lparr>w_inspector := st\<rparr>)" if "shows_prefix st (w_log w)" "loads_ok st (w_log w) (w_answers w)"
    "rf_next st = rf_next ?st" "rf_aborted st = rf_aborted ?st" "rf_loadRequest st = None \<or> rf_loadRequest st = rf_loadRequest ?st" for st
    using that assms(1) by (auto simp: world_ok_def requests_ok_def)
  have unapplied: "world_ok (w\<lparr>w_inspector := (load_finally c ?st)\<lparr>iv_status := m\<rparr>\<rparr>)" for m
  proof (rule finish)
    let ?st' = "(load_finally c ?st)\<lparr>iv_status := m\<rparr>"
    have "is_current d ?st' = is_current d (load_finally c ?st)" for d by (simp add: is_current_def)
    then show "loads_ok ?st' (w_log w) (w_answers w)"
      by (intro loads_ok_same [OF ok(1)]) (auto simp: finally_current map_get_delete split: if_splits)
    show "shows_prefix ?st' (w_log w)" by (rule shows_prefix_same [OF ok(2)]) simp_all
  qed auto
  have unchanged: "\<exists>m. load_finally c ?st = (load_finally c ?st)\<lparr>iv_status := m\<rparr>"
    by (rule exI [of _ "iv_status (load_finally c ?st)"]) simp
  have applied: "world_ok (w\<lparr>w_inspector := load_finally c (apply_load pretty f r events ?st)\<rparr>)"
    if "is_current c ?st" "response_events events = Some (take n (w_log w (lf_session f)))" for f r events n
  proof (rule finish)
    let ?st' = "load_finally c (apply_load pretty f r events ?st)"
    have "\<not> is_current d ?st'" for d using that(1) by (auto simp: is_current_def)
    then show "loads_ok ?st' (w_log w) (w_answers w)"
      by (rule loads_ok_idle [OF ok(1)]) (auto simp: map_get_delete split: if_splits)
    show "shows_prefix ?st' (w_log w)" using that(2) by (simp add: shows_prefix_def shown_events_def take_length_take)
  qed (use that(1) in \<open>auto simp: is_current_def\<close>)
  show ?thesis
  proof (cases "map_get (rf_frames ?st) c")
    case None
    then show ?thesis using assms(1) by (simp add: load_settle_def)
  next
    case (Some f)
    show ?thesis
    proof (cases "\<exists>r. outcome = Loaded r \<and> is_current c ?st")
      case True
      then obtain r where r: "outcome = Loaded r" "is_current c ?st" by blast
      obtain events n where "next_events f r ?st = Some events" "response_events events = Some (take n (w_log w (lf_session f)))"
        using next_events_prefix [OF assms(1) Some r(2) assms(2) [OF r(1)]] .
      with Some r applied show ?thesis by (simp add: load_settle_def)
    next
      case False
      then have "\<exists>m. load_settle pretty c outcome ?st = (load_finally c ?st)\<lparr>iv_status := m\<rparr>"
        using Some unchanged by (auto simp: load_settle_def split: load_outcome.splits)
      then show ?thesis using unapplied by auto
    qed
  qed
qed

lemma clear_ok:
  assumes "world_ok w"
  shows "world_ok (w\<lparr>w_inspector := clearInspectionResults (w_inspector w)\<rparr>)"
proof -
  let ?st = "w_inspector w" and ?st' = "clearInspectionResults (w_inspector w)"
  have refs: "rf_frames ?st' = rf_frames ?st" "rf_next ?st' = rf_next ?st" "rf_loadRequest ?st' = rf_loadRequest (abortRequest ?st)"
    "rf_aborted ?st' = rf_aborted (abortRequest ?st)" "rf_events ?st' = no_events" "iv_events ?st' = no_events"
    by (simp_all add: clearInspectionResults_def)
  then have idle: "\<not> is_current c ?st'" for c using abort_current [of c ?st] by (simp add: is_current_def)
  have "loads_ok ?st (w_log w) (w_answers w)" using assms by (simp add: world_ok_def)
  then have "loads_ok ?st' (w_log w) (w_answers w)" using idle by (rule loads_ok_idle) (simp_all add: refs(1,2))
  moreover have "requests_ok (abortRequest ?st) (w_answers w)" using assms by (simp add: world_ok_def abort_requests)
  then have "requests_ok ?st' (w_answers w)" by (simp only: requests_ok_def refs abort_refs)
  ultimately show ?thesis using assms shows_nothing [OF refs(5,6)] by (simp add: world_ok_def)
qed

lemma abort_ok:
  assumes "world_ok w"
  shows "world_ok (w\<lparr>w_inspector := abortRequest (w_inspector w)\<rparr>)"
proof -
  let ?st = "w_inspector w"
  have "loads_ok ?st (w_log w) (w_answers w)" using assms by (simp add: world_ok_def)
  then have "loads_ok (abortRequest ?st) (w_log w) (w_answers w)" using abort_current by (rule loads_ok_idle) simp_all
  moreover have "shows_prefix (abortRequest ?st) (w_log w)"
    by (rule shows_prefix_same [of ?st]) (use assms in \<open>simp_all add: world_ok_def\<close>)
  ultimately show ?thesis using assms abort_requests by (simp add: world_ok_def)
qed

lemma other_ok:
  assumes "world_ok w" "same_refs (w_inspector w) st"
  shows "world_ok (w\<lparr>w_inspector := st\<rparr>)"
proof -
  have "loads_ok (w_inspector w) (w_log w) (w_answers w)" using assms(1) by (simp add: world_ok_def)
  then have "loads_ok st (w_log w) (w_answers w)"
    by (rule loads_ok_same) (use assms(2) in \<open>auto simp: same_refs_def is_current_def\<close>)
  moreover have "shows_prefix st (w_log w)"
    by (rule shows_prefix_same [of "w_inspector w"]) (use assms in \<open>auto simp: world_ok_def same_refs_def\<close>)
  ultimately show ?thesis using assms by (auto simp: world_ok_def requests_ok_def same_refs_def)
qed

lemma step_ok: "world_step pretty w w' \<Longrightarrow> world_ok w \<Longrightarrow> world_ok w'"
proof (induction rule: world_step.induct)
  case (step_refuse w c f message)
  then show ?case by (intro answer_step_ok) (auto simp: answer_ok_def)
qed (auto intro: append_ok begin_ok answer_step_ok answered_ok settle_ok clear_ok abort_ok other_ok)

lemma reachable_ok: "reachable_world pretty w \<Longrightarrow> world_ok w"
proof (induction rule: reachable_world.induct)
  case reach_init
  have "shows_prefix initial_inspector (\<lambda>_. [])" by (rule shows_nothing) (simp_all add: initial_inspector_def)
  then show ?case
    by (simp add: world_ok_def initial_world_def requests_ok_def loads_ok_def initial_inspector_def in_order_def)
qed (rule step_ok)

section \<open>Theorems\<close>

text \<open>C24: Whatever loads, refreshes, aborts and resets happen, and however they overlap, the inspector shows the first events
  of the log of the session it belongs to: nothing is shown twice, left out in the middle, or mixed in from another session.\<close>

theorem inspector_shows_log:
  assumes "reachable_world pretty w"
  shows "\<exists>n. response_events (iv_events (w_inspector w)) = Some (take n (w_log w (rf_eventsSessionID (w_inspector w))))"
  using reachable_ok [OF assms] by (metis shows_prefix_def world_ok_def)

definition one_event_world :: world where
  "one_event_world = initial_world\<lparr>w_log := (w_log initial_world)(lit ''s'' := [sample_event 1 ''one''])\<rparr>"

lemma one_event_reachable: "reachable_world pretty one_event_world"
proof (rule reach_step [OF reach_init])
  have "in_order [sample_event 1 ''one'']" by code_simp
  then show "world_step pretty initial_world one_event_world"
    using step_append [of initial_world "lit ''s''" "sample_event 1 ''one''" pretty]
    by (simp add: one_event_world_def initial_world_def)
qed

theorem inspector_shows_log_witness:
  "\<exists>n. response_events (iv_events (w_inspector one_event_world))
     = Some (take n (w_log one_event_world (rf_eventsSessionID (w_inspector one_event_world))))"
  using inspector_shows_log [OF one_event_reachable [of to_str]] .


definition loading_world :: world where
  "loading_world = one_event_world\<lparr>w_inspector := load_begin (lit ''s'') (JStr []) False False (w_inspector one_event_world)\<rparr>"

definition sample_results :: load_results where
  "sample_results = \<lparr>lr_trace = jobj [(''status'', jlit ''completed'')], lr_session = jobj [(''id'', jlit ''s'')],
     lr_usage = Inl (lit ''Error: usage''), lr_summary = Inr JNull, lr_artifacts = Inr JNull,
     lr_events = Inr (events_response [sample_event 1 ''one'']), lr_interventions = Inr JNull, lr_metrics = Inr (JStr []),
     lr_exporters = Inr JNull, lr_taskPlans = Inr JNull\<rparr>"


text \<open>A load that was replaced or aborted leaves what is shown untouched.\<close>

lemma superseded_load_ignored:
  assumes "\<not> is_current c st"
  shows "load_settle pretty c (Loaded r) st = load_finally c st \<or> load_settle pretty c (Loaded r) st = st"
  using assms by (auto simp: load_settle_def split: option.splits)

lemma reset_supersedes: "\<not> is_current c (clearInspectionResults st)" "\<not> is_current c (abortRequest st)"
  using abort_current [of c st] by (simp_all add: is_current_def clearInspectionResults_def)

end
