(* ===== verification/Runtime_Failures.thy ===== *)
theory Runtime_Failures
  imports Inspector_Utils
begin

text \<open>
  What the workbench says about a failed turn: errors of the model provider (\<open>apps/workbench/src/providerErrors.js\<close>),
  failures of the runtime (\<open>runtimeFailures.js\<close>) and the events of context compaction (\<open>contextCompactionEvents.js\<close>).

  Chinese texts are lists of code units. A table of texts is an ordinary object, so \<open>table[name]\<close> also finds the inherited
  members (\<open>index\<close>). \<open>toLocaleString\<close> of numbers is a parameter without assumptions.
\<close>

section \<open>Provider errors\<close>


definition providerErrorDescriptions :: jsval where
  "providerErrorDescriptions = jobj
    [(''auth'', JStr [27169, 22411, 26381, 21153, 35748, 35777, 22833, 36133, 65292, 35831, 26816, 26597, 32, 80, 114, 111, 118, 105, 100, 101, 114, 32, 20973, 25454, 25110, 32852, 31995, 31649, 29702, 21592, 12290]),
     (''rate_limit'', JStr [27169, 22411, 26381, 21153, 35831, 27714, 36807, 22810, 25110, 39069, 24230, 21463, 38480, 65292, 35831, 31245, 21518, 37325, 35797, 12290]),
     (''context_length'', JStr [24403, 21069, 23545, 35805, 20869, 23481, 36229, 36807, 27169, 22411, 19978, 19979, 25991, 19978, 38480, 65292, 35831, 21387, 32553, 19978, 19979, 25991, 25110, 26032, 24314, 20219, 21153, 12290]),
     (''timeout'', JStr [27169, 22411, 26381, 21153, 21709, 24212, 36229, 26102, 65292, 35831, 31245, 21518, 37325, 35797, 12290]),
     (''server'', JStr [27169, 22411, 26381, 21153, 26242, 26102, 19981, 21487, 29992, 65292, 35831, 31245, 21518, 37325, 35797, 12290]),
     (''invalid_request'', JStr [27169, 22411, 26381, 21153, 26080, 27861, 22788, 29702, 24403, 21069, 35831, 27714, 65292, 35831, 26816, 26597, 27169, 22411, 19982, 35831, 27714, 37197, 32622, 12290]),
     (''unknown'', JStr [27169, 22411, 35831, 27714, 22833, 36133, 65292, 35831, 26681, 25454, 21407, 22987, 38169, 35823, 25490, 26597, 12290])]"

text \<open>``The provider gave no details of the error.''\<close>

definition no_details :: jstring where
  "no_details = [80, 114, 111, 118, 105, 100, 101, 114, 32, 26410, 36820, 22238, 38169, 35823, 35814, 24773, 12290]"

text \<open>The label ``original error'' and the parentheses and commas of the texts.\<close>

definition original_label :: jstring where
  "original_label = [21407, 22987, 38169, 35823, 65306]"

definition wide_open :: jstring where
  "wide_open = [65288]"

definition wide_close :: jstring where
  "wide_close = [65289]"

definition wide_comma :: jstring where
  "wide_comma = [65292]"

definition positiveNumber :: "jsval \<Rightarrow> rat" where
  "positiveNumber value = (case to_num (jor value (jint 0)) of Fin x \<Rightarrow> if x > 0 then x else 0 | _ \<Rightarrow> 0)"

text \<open>\<open>/^http_(\d+)$/i\<close>: the digits.\<close>

definition http_code :: "jstring \<Rightarrow> jstring option" where
  "http_code s = (let digits = drop 5 s in
     if to_lower (take 5 s) = lit ''http_'' \<and> digits \<noteq> [] \<and> list_all is_digit digits then Some digits else None)"

definition providerStatusCode :: "jsval \<Rightarrow> rat" where
  "providerStatusCode source =
     (let explicit = positiveNumber (dot source ''status_code'') in
      if explicit \<noteq> 0 then explicit
      else case http_code (trimmed_text (dot source ''code'')) of None \<Rightarrow> 0 | Some ds \<Rightarrow> positiveNumber (JStr ds))"

record provider_presentation =
  pp_description :: jsval
  pp_original :: jstring
  pp_detail :: jstring

definition error_class :: "jsval \<Rightarrow> jstring" where
  "error_class source =
     str_or (to_lower (trim (to_str (jor (dot source ''class'') (jlit ''unknown''))))) (lit ''unknown'')"

definition provider_metadata :: "jsval \<Rightarrow> jstring list" where
  "provider_metadata source =
     (let statusCode = providerStatusCode source; attempts = positiveNumber (dot source ''attempts'');
          retryAfterMS = positiveNumber (dot source ''retry_after_ms'') in
      on (statusCode \<noteq> 0) (lit ''HTTP '' @ rat_str statusCode)
      @ on (attempts \<noteq> 0) ([24050, 23581, 35797, 32] @ rat_str attempts @ [32, 27425])
      @ on (retryAfterMS \<noteq> 0) ([24314, 35758, 31561, 24453, 32] @ int_str \<lceil>retryAfterMS / 1000\<rceil> @ [32, 31186]))"

definition providerErrorPresentation :: "jsval \<Rightarrow> jsval \<Rightarrow> provider_presentation" where
  "providerErrorPresentation error' fallbackMessage =
     (let source = object_value error';
          description = jor (index providerErrorDescriptions (error_class source)) (dot providerErrorDescriptions ''unknown'');
          original = trim (collapse_spaces (to_str (jor (jor (dot source ''message'') fallbackMessage) (JStr no_details))));
          metadata = provider_metadata source;
          suffix = (if metadata \<noteq> [] then wide_open @ join wide_comma metadata @ wide_close else []) in
      \<lparr>pp_description = description, pp_original = original,
       pp_detail = to_str description @ [32] @ original_label @ original @ suffix\<rparr>)"

section \<open>Failures of the runtime\<close>


definition failureDescriptions :: jsval where
  "failureDescriptions = jobj
    [(''context_compaction_failed'', JStr [19978, 19979, 25991, 21387, 32553, 22833, 36133, 65292, 27169, 22411, 26381, 21153, 26410, 33021, 22788, 29702, 24403, 21069, 23545, 35805, 12290, 35831, 37325, 35797, 65307, 22914, 25345, 32493, 22833, 36133, 65292, 35831, 26032, 24314, 20219, 21153, 25110, 26816, 26597, 27169, 22411, 37197, 32622, 12290]),
     (''context_build_failed'', JStr [20219, 21153, 19978, 19979, 25991, 20934, 22791, 22833, 36133, 12290, 35831, 37325, 35797, 65307, 22914, 25345, 32493, 22833, 36133, 65292, 35831, 26032, 24314, 20219, 21153, 12290]),
     (''budget_exhausted'', JStr [26412, 36718, 20219, 21153, 24050, 36798, 21040, 36816, 34892, 39044, 31639, 19978, 38480, 12290, 35831, 32553, 23567, 20219, 21153, 33539, 22260, 21518, 37325, 35797, 12290]),
     (''runtime_binding_changed'', JStr [26234, 33021, 20307, 37197, 32622, 22312, 20219, 21153, 25191, 34892, 26399, 38388, 21457, 29983, 21464, 21270, 12290, 35831, 26032, 24314, 20219, 21153, 21518, 37325, 35797, 12290]),
     (''tool_runtime_failed'', JStr [24037, 20855, 36816, 34892, 29615, 22659, 25191, 34892, 22833, 36133, 12290, 35831, 26816, 26597, 32, 65, 103, 101, 110, 116, 32, 32465, 23450, 30340, 36816, 34892, 29615, 22659, 21518, 37325, 35797, 12290]),
     (''model_request_failed'', JStr [27169, 22411, 35831, 27714, 22833, 36133, 65292, 35831, 31245, 21518, 37325, 35797, 25110, 26816, 26597, 27169, 22411, 37197, 32622, 12290]),
     (''invalid_model_request'', JStr [27169, 22411, 26080, 27861, 22788, 29702, 24403, 21069, 35831, 27714, 65292, 35831, 26816, 26597, 27169, 22411, 21450, 36755, 20837, 37197, 32622, 12290]),
     (''completion_validator_failed'', JStr [20219, 21153, 23436, 25104, 26657, 39564, 22833, 36133, 65292, 35831, 37325, 35797, 12290])]"

definition cleanText :: "jsval \<Rightarrow> jstring" where
  "cleanText value = trim (collapse_spaces (text_of value))"

text \<open>\<open>/provider request failed \(([^/,)]+)/i\<close>: the class after the first place where the pattern fits.\<close>

definition class_mark :: jstring where
  "class_mark = lit ''provider request failed (''"

definition class_char :: "int \<Rightarrow> bool" where
  "class_char c \<longleftrightarrow> c \<noteq> 47 \<and> c \<noteq> 44 \<and> c \<noteq> 41"

definition class_here :: "jstring \<Rightarrow> jstring option" where
  "class_here s = (let cls = takeWhile class_char (drop (length class_mark) s) in
     if to_lower (take (length class_mark) s) = class_mark \<and> cls \<noteq> [] then Some cls else None)"

fun class_match :: "jstring \<Rightarrow> jstring option" where
  "class_match [] = None"
| "class_match (c # s) = (case class_here (c # s) of Some cls \<Rightarrow> Some cls | None \<Rightarrow> class_match s)"

definition inferredProviderError :: "jstring \<Rightarrow> jstring \<Rightarrow> jsval" where
  "inferredProviderError code message =
     (if \<not> starts_with code (lit ''http_'') \<and> \<not> starts_with message (lit ''provider request failed'') then jobj []
      else jobj
        [(''class'', JStr (case class_match message of None \<Rightarrow> lit ''unknown'' | Some cls \<Rightarrow> cls)),
         (''code'', JStr code),
         (''status_code'', JNum (case http_code code of None \<Rightarrow> Fin 0 | Some ds \<Rightarrow> str_to_num ds)),
         (''message'', JStr message)])"

record failure_presentation =
  fp_code :: jstring
  fp_description :: jsval
  fp_original :: jstring
  fp_providerError :: jsval
  fp_detail :: jstring

text \<open>``An unknown error occurred while running'', ``The task failed'' and the label ``error code''.\<close>

definition unknown_failure :: jstring where
  "unknown_failure = [25191, 34892, 36807, 31243, 20013, 20986, 29616, 26410, 30693, 38169, 35823, 12290]"

definition task_failed :: jstring where
  "task_failed = [20219, 21153, 25191, 34892, 22833, 36133, 12290, 35831, 37325, 35797, 65307, 22914, 25345, 32493, 22833, 36133, 65292, 35831, 26597, 30475, 38169, 35823, 20195, 30721, 24182, 32852, 31995, 31649, 29702, 21592, 12290]"

definition code_suffix :: "jstring \<Rightarrow> jstring" where
  "code_suffix code = (if code \<noteq> [] then wide_open @ [38169, 35823, 20195, 30721, 65306] @ code @ wide_close else [])"

definition genericMessages :: "jstring list" where
  "genericMessages = [lit ''agent runtime failed.'', lit ''turn failed.'', [25191, 34892, 36807, 31243, 20013, 20986, 29616, 22833, 36133, 12290]]"

definition has_keys :: "jsval \<Rightarrow> bool" where
  "has_keys v \<longleftrightarrow> obj_keys v \<noteq> []"

definition present_failure :: "jstring \<Rightarrow> jstring \<Rightarrow> jsval \<Rightarrow> failure_presentation" where
  "present_failure code original providerError =
     (let mapped = jor (index failureDescriptions code) (JStr []) in
      if has_keys providerError then
        (let provider = providerErrorPresentation providerError (JStr original); description = jor mapped (pp_description provider) in
         \<lparr>fp_code = code, fp_description = description, fp_original = pp_original provider, fp_providerError = providerError,
          fp_detail = to_str description @ [32] @ original_label @ pp_original provider @ code_suffix code\<rparr>)
      else
        (let showOriginal = (to_lower original \<notin> set genericMessages \<and> JStr original \<noteq> mapped);
             description = jor mapped (JStr task_failed) in
         \<lparr>fp_code = code, fp_description = description, fp_original = original, fp_providerError = jobj [],
          fp_detail = to_str description @ (if showOriginal then [32] @ original_label @ original else []) @ code_suffix code\<rparr>))"

definition runtimeFailurePresentation :: "jsval \<Rightarrow> failure_presentation" where
  "runtimeFailurePresentation value =
     (let root = object_value value; data = object_value (dot root ''data''); nestedError = object_value (dot data ''error'');
          failure = (if has_keys nestedError then nestedError else data);
          code = cleanText (jor (dot failure ''code'') (dot root ''code''));
          original = str_or (cleanText (jor (jor (jor (dot failure ''message'') (dot root ''reason'')) (dot root ''error_message''))
            (dot root ''message''))) unknown_failure;
          structured = object_value (jor (jor (dot failure ''provider_error'') (dot data ''provider_error'')) (dot root ''provider_error'')) in
      present_failure code original (if has_keys structured then structured else inferredProviderError code original))"

section \<open>Context compaction\<close>

definition compaction_types :: "string list" where
  "compaction_types = [''runtime.context_compacting'', ''runtime.context_compacted'', ''runtime.context_compaction_failed'']"

definition isContextCompactionEvent :: "jsval \<Rightarrow> bool" where
  "isContextCompactionEvent event \<longleftrightarrow> is_word (dot event ''type'') compaction_types"

definition compaction_data :: "jsval \<Rightarrow> jsval" where
  "compaction_data event = object_value (dot (object_value (dot event ''payload'')) ''data'')"

definition contextCompactionFailureDedupeKey :: "jsval \<Rightarrow> jstring" where
  "contextCompactionFailureDedupeKey event =
     (let root = object_value (dot event ''payload''); data = compaction_data event;
          explicit = event_is event ''runtime.context_compaction_failed'';
          runtime = (event_is event ''runtime.failed'' \<and> text_of (dot data ''code'')
            \<in> set (map lit [''context_compaction_failed'', ''invalid_compaction_result'', ''invalid_compaction_usage'']));
          turnID = text_of (dot root ''turn_id''); revision = to_str (nullish (dot root ''loop_revision'') (JStr [])) in
      if \<not> explicit \<and> \<not> runtime then []
      else if turnID \<noteq> [] \<and> revision \<noteq> [] then turnID @ lit '':'' @ revision else [])"

text \<open>``Context management''.\<close>

definition management_label :: jstring where
  "management_label = [19978, 19979, 25991, 31649, 29702]"

record compaction_presentation =
  cp_title :: jstring
  cp_detail :: jstring
  cp_metaLabel :: jstring
  cp_tone :: string
  cp_status :: string
  cp_statusLabel :: jstring
  cp_defaultExpanded :: bool
  cp_contextItems :: "(jstring \<times> jstring) list"
  cp_detailObject :: "(string \<times> jsval) list"

definition opt_value :: "bool \<Rightarrow> jsval \<Rightarrow> jsval" where
  "opt_value b v = (if b then v else JUndef)"

definition compacting_presentation :: "jsval \<Rightarrow> bool \<Rightarrow> compaction_presentation" where
  "compacting_presentation data active =
     (let attempt = to_num (jor (dot data ''number'') (jint 0)); counted = num_less (Fin 0) attempt in
      \<lparr>cp_title = [24320, 22987, 21387, 32553, 19978, 19979, 25991],
       cp_detail = (if counted then [27491, 22312, 36827, 34892, 31532, 32] @ num_str attempt @ [32, 27425, 19978, 19979, 25991, 21387, 32553, 65292, 23436, 25104, 21518, 33258, 21160, 32487, 32493, 20219, 21153, 12290] else [27491, 22312, 21387, 32553, 21382, 21490, 19978, 19979, 25991, 65292, 23436, 25104, 21518, 33258, 21160, 32487, 32493, 20219, 21153, 12290]),
       cp_metaLabel = management_label, cp_tone = ''tool'', cp_status = (if active then ''running'' else ''completed''),
       cp_statusLabel = (if active then [21387, 32553, 20013] else [24050, 24320, 22987]), cp_defaultExpanded = active,
       cp_contextItems = (if counted then [([23581, 35797, 27425, 25968], num_str attempt)] else [])
         @ (if truthy (dot data ''id'') then [([23581, 35797, 32, 73, 68], to_str (dot data ''id''))] else []),
       cp_detailObject = [(''attempt_number'', opt_value (truthy (JNum attempt)) (JNum attempt)),
         (''attempt_id'', opt_value (truthy (dot data ''id'')) (dot data ''id''))]\<rparr>)"

definition compacted_presentation :: "(jsnum \<Rightarrow> jstring) \<Rightarrow> jsval \<Rightarrow> compaction_presentation" where
  "compacted_presentation toLocaleString data =
     (let tokens = to_num (dot data ''estimated_input_tokens''); hasEstimate = (is_finite tokens \<and> \<not> num_less tokens (Fin 0)) in
      \<lparr>cp_title = [19978, 19979, 25991, 21387, 32553, 23436, 25104],
       cp_detail = (if hasEstimate then [21387, 32553, 21518, 39044, 35745, 21253, 21547, 32] @ toLocaleString tokens @ [32, 20010, 36755, 20837, 32, 116, 111, 107, 101, 110, 65292, 20219, 21153, 23558, 32487, 32493, 25191, 34892, 12290] else [21382, 21490, 19978, 19979, 25991, 24050, 21387, 32553, 65292, 20219, 21153, 23558, 32487, 32493, 25191, 34892, 12290]),
       cp_metaLabel = management_label, cp_tone = ''ok'', cp_status = ''completed'', cp_statusLabel = [23436, 25104], cp_defaultExpanded = False,
       cp_contextItems = (if hasEstimate then [([39044, 35745, 36755, 20837, 32, 84, 111, 107, 101, 110], toLocaleString tokens)] else [])
         @ (if truthy (dot data ''attempt_id'') then [([23581, 35797, 32, 73, 68], to_str (dot data ''attempt_id''))] else []),
       cp_detailObject = [(''estimated_input_tokens'', opt_value hasEstimate (JNum tokens)),
         (''attempt_id'', opt_value (truthy (dot data ''attempt_id'')) (dot data ''attempt_id'')),
         (''usage'', opt_value (has_keys (object_value (dot data ''usage''))) (dot data ''usage''))]\<rparr>)"

definition compaction_failed_presentation :: "jsval \<Rightarrow> compaction_presentation" where
  "compaction_failed_presentation event =
     (let failure = runtimeFailurePresentation (dot event ''payload'') in
      \<lparr>cp_title = [19978, 19979, 25991, 21387, 32553, 22833, 36133], cp_detail = fp_detail failure, cp_metaLabel = management_label, cp_tone = ''error'', cp_status = ''error'', cp_statusLabel = [22833, 36133],
       cp_defaultExpanded = True,
       cp_contextItems = (if fp_code failure \<noteq> [] then [([38169, 35823, 20195, 30721], fp_code failure)] else []),
       cp_detailObject = [(''error_code'', opt_value (fp_code failure \<noteq> []) (JStr (fp_code failure))),
         (''description'', fp_description failure), (''original_error'', JStr (fp_original failure))]
         @ (if has_keys (fp_providerError failure) then [(''provider_error'', fp_providerError failure)] else [])\<rparr>)"

definition contextCompactionPresentation :: "(jsnum \<Rightarrow> jstring) \<Rightarrow> jsval \<Rightarrow> bool \<Rightarrow> compaction_presentation option" where
  "contextCompactionPresentation toLocaleString event active =
     (if event_is event ''runtime.context_compacting'' then Some (compacting_presentation (compaction_data event) active)
      else if event_is event ''runtime.context_compacted'' then Some (compacted_presentation toLocaleString (compaction_data event))
      else if event_is event ''runtime.context_compaction_failed'' then Some (compaction_failed_presentation event)
      else None)"

section \<open>Every failure is explained\<close>

definition one_line :: "jstring \<Rightarrow> bool" where
  "one_line s \<longleftrightarrow> list_all (\<lambda>c. js_space c \<longrightarrow> c = 32) s"

lemma collapse_spaces_one_line: "one_line (collapse_spaces s)"
  by (induction s rule: collapse_spaces.induct) (auto simp: one_line_def js_space_def)

lemma set_trim_subset: "set (trim s) \<subseteq> set s"
  unfolding trim_def by (metis set_dropWhileD set_rev subsetI)

lemma trim_one_line: "one_line s \<Longrightarrow> one_line (trim s)"
  using set_trim_subset by (auto simp: one_line_def list_all_iff)

lemma cleanText_one_line: "one_line (cleanText v)" "trim (cleanText v) = cleanText v"
  by (simp_all add: cleanText_def trim_one_line collapse_spaces_one_line)

lemma unknown_failure_one_line: "one_line unknown_failure" "unknown_failure \<noteq> []"
  by (simp_all add: unknown_failure_def one_line_def js_space_def)

lemma shown_text: "truthy v \<Longrightarrow> (\<And>xs. v \<noteq> JArr xs) \<Longrightarrow> to_str v \<noteq> []"
proof (induction v)
  case (JNum n)
  then show ?case by (cases n) (auto simp: rat_str_def int_str_def)
qed auto

text \<open>A table of texts gives a text, a function or an object, never an array.\<close>

lemma index_texts:
  assumes "list_all (\<lambda>(k, v). is_string v) kvs"
  shows "index (jobj kvs) k \<noteq> JArr xs"
proof -
  have "is_string v" if "map_of (map (\<lambda>(k, v). (lit k, v)) kvs) k = Some v" for v
    using assms map_of_SomeD [OF that] by (auto simp: list_all_iff)
  then show ?thesis by (auto simp: index_def own_prop_def jobj_def is_string_def split: option.splits jsval.splits)
qed

lemma failure_text: "truthy (index failureDescriptions code) \<Longrightarrow> to_str (index failureDescriptions code) \<noteq> []"
  by (rule shown_text) (simp_all add: failureDescriptions_def index_texts is_string_def)

lemma str_includes_middle: "str_includes (a @ b @ c) b"
proof (induction a)
  case Nil
  have "starts_with (b @ c) b" by simp
  then show ?case by (simp add: str_includes.simps [of "b @ c"])
next
  case (Cons x a)
  then show ?case by (simp add: includes_simps)
qed

lemma trimmed_unknown: "trim unknown_failure = unknown_failure"
  by code_simp

lemma provider_original:
  "one_line (pp_original (providerErrorPresentation e m))"
  "trim (pp_original (providerErrorPresentation e m)) = pp_original (providerErrorPresentation e m)"
  by (simp_all add: providerErrorPresentation_def Let_def trim_one_line collapse_spaces_one_line)

lemma present_failure_ok:
  assumes "one_line code" "one_line original" "trim original = original"
  shows "let p = present_failure code original e in
     fp_detail p \<noteq> [] \<and> one_line (fp_code p) \<and> one_line (fp_original p) \<and> trim (fp_original p) = fp_original p
     \<and> (str_includes (fp_detail p) (fp_original p) \<or> to_lower (fp_original p) \<in> set genericMessages
        \<or> JStr (fp_original p) = fp_description p)"
proof (cases "has_keys e")
  case True
  then show ?thesis using assms(1) provider_original [of e "JStr original"]
      str_includes_middle [of "d @ [32] @ original_label" "pp_original (providerErrorPresentation e (JStr original))" "code_suffix code" for d]
    by (simp add: present_failure_def Let_def)
next
  case False
  define m where "m = jor (index failureDescriptions code) (JStr [])"
  have "to_str (jor m (JStr task_failed)) \<noteq> []"
    using failure_text [of code] by (auto simp: m_def jor_def task_failed_def)
  moreover have "original \<noteq> [] \<and> JStr original = m \<Longrightarrow> jor m (JStr task_failed) = JStr original" by (auto simp: jor_def)
  moreover have "str_includes s []" for s by (simp add: str_includes.simps [of s] starts_with_def)
  ultimately show ?thesis using False assms str_includes_middle [of "to_str (jor m (JStr task_failed)) @ [32] @ original_label" original "code_suffix code"]
    unfolding present_failure_def m_def [symmetric] Let_def by (cases "original = []") auto
qed

lemma failure_detail: "fp_detail (runtimeFailurePresentation v) \<noteq> []"
  using present_failure_ok cleanText_one_line unknown_failure_one_line(1) trimmed_unknown
  by (auto simp: runtimeFailurePresentation_def str_or_def Let_def)

text \<open>Whatever value a failed turn carries, the workbench has a text for it: the detail is not empty, the error code and
  the original message are single lines without white space at the ends, and the detail contains the original message unless
  that message is one of the generic ones or is the description itself.\<close>

theorem failure_explained:
  "let p = runtimeFailurePresentation v in
     fp_detail p \<noteq> [] \<and> one_line (fp_code p) \<and> one_line (fp_original p) \<and> trim (fp_original p) = fp_original p
     \<and> (str_includes (fp_detail p) (fp_original p) \<or> to_lower (fp_original p) \<in> set genericMessages
        \<or> JStr (fp_original p) = fp_description p)"
  using present_failure_ok cleanText_one_line unknown_failure_one_line(1) trimmed_unknown
  by (auto simp: runtimeFailurePresentation_def str_or_def Let_def)

section \<open>One notice per failed compaction\<close>

definition failed_turn :: "jsval \<Rightarrow> jstring" where
  "failed_turn event = text_of (dot (object_value (dot event ''payload'')) ''turn_id'')"

definition failed_revision :: "jsval \<Rightarrow> jstring" where
  "failed_revision event = to_str (nullish (dot (object_value (dot event ''payload'')) ''loop_revision'') (JStr []))"

lemma dedupe_key_cases:
  "contextCompactionFailureDedupeKey event = []
   \<or> contextCompactionFailureDedupeKey event = failed_turn event @ 58 # failed_revision event"
  by (simp add: contextCompactionFailureDedupeKey_def Let_def failed_turn_def failed_revision_def lit_def)

lemma split_at_colon:
  assumes "a @ 58 # b = c @ (58::int) # d" "58 \<notin> set b" "58 \<notin> set d"
  shows "a = c \<and> b = d"
proof -
  have last_part: "takeWhile (\<lambda>x. x \<noteq> 58) (rev u @ 58 # v) = rev u" if "58 \<notin> set u" for u v :: jstring
  proof -
    have "\<And>x. x \<in> set (rev u) \<Longrightarrow> x \<noteq> 58" using that by auto
    then show ?thesis by (subst takeWhile_append2) simp_all
  qed
  have "rev b @ 58 # rev a = rev d @ 58 # rev c" using arg_cong [OF assms(1), of rev] by simp
  then have "rev b = rev d" using last_part [OF assms(2), of "rev a"] last_part [OF assms(3), of "rev c"] by simp
  with assms(1) show ?thesis by simp
qed

text \<open>Two failures are folded into one notice exactly when they belong to the same revision of the same turn.\<close>

lemma dedupe_key_identifies:
  assumes "contextCompactionFailureDedupeKey e \<noteq> []" "contextCompactionFailureDedupeKey e' \<noteq> []"
    "58 \<notin> set (failed_revision e)" "58 \<notin> set (failed_revision e')"
  shows "contextCompactionFailureDedupeKey e = contextCompactionFailureDedupeKey e'
    \<longleftrightarrow> failed_turn e = failed_turn e' \<and> failed_revision e = failed_revision e'"
  using assms dedupe_key_cases [of e] dedupe_key_cases [of e'] split_at_colon by metis

end
