(* ===== verification/Artifact_Associations.thy ===== *)
theory Artifact_Associations
  imports Inspector_Utils
begin

text \<open>
  Which files the workbench shows below a message and at the end of a conversation
  (\<open>apps/workbench/src/artifactAssociations.js\<close>). Artifacts and events are JavaScript values; the last artifact with a
  path stands for the file. Ids and turns are compared as the texts they are.
\<close>

section \<open>Definitions\<close>

definition eventPayload :: "jsval \<Rightarrow> jsval" where
  "eventPayload event = object_value (dot event ''payload'')"

definition eventText :: "jsval \<Rightarrow> jsval" where
  "eventText event =
     (let data = eventPayload event; content = dot data ''content'' in
      case content of
        JArr items \<Rightarrow> JStr (join [10] (map to_str (filter truthy
          (map (\<lambda>item. jor (jor (dot item ''text'') (dot item ''content'')) (JStr [])) items))))
      | JStr s \<Rightarrow> JStr s
      | _ \<Rightarrow> jor (jor (jor (dot data ''message'') (dot data ''summary'')) (dot data ''text'')) (JStr []))"

definition artifactName :: "jsval \<Rightarrow> jsval" where
  "artifactName artifact = jor (jor (dot artifact ''name'') (dot artifact ''id'')) (jlit ''artifact'')"

definition artifactMetadata :: "jsval \<Rightarrow> jsval" where
  "artifactMetadata artifact = object_value (dot artifact ''metadata'')"

definition isUserFileArtifact :: "jsval \<Rightarrow> bool" where
  "isUserFileArtifact artifact \<longleftrightarrow> dot (artifactMetadata artifact) ''protocol_version'' = jlit ''tma.tool_export.v1''
     \<or> starts_with (text_of (dot artifact ''description'')) (lit ''Exported file'')"

text \<open>\<open>s.replace(/\\/g, "/")\<close>.\<close>

definition slashes :: "jstring \<Rightarrow> jstring" where
  "slashes s = replace_char 92 47 s"

definition artifact_path :: "jsval \<Rightarrow> jstring" where
  "artifact_path artifact = slashes (to_str (jor (dot (artifactMetadata artifact) ''path'') (artifactName artifact)))"

definition finalFileArtifacts :: "jsval list \<Rightarrow> jsval list" where
  "finalFileArtifacts artifacts = map_values (log_map artifact_path isUserFileArtifact artifacts)"

definition artifactReferencedByMessage :: "jsval \<Rightarrow> jsval \<Rightarrow> bool" where
  "artifactReferencedByMessage artifact text' \<longleftrightarrow>
     (let normalizedText = slashes (text_of text'); metadata = artifactMetadata artifact;
          path = slashes (text_of (jor (dot metadata ''path'') (dot metadata ''file_path'')));
          name = artifactName artifact in
      (path \<noteq> [] \<and> str_includes normalizedText path) \<or> (truthy name \<and> str_includes normalizedText (to_str name)))"

definition messageArtifactIDs :: "jsval \<Rightarrow> jstring list option" where
  "messageArtifactIDs event = (case dot (eventPayload event) ''artifact_ids'' of
       JArr ids \<Rightarrow> Some (foldl (\<lambda>result i. let value = trimmed_text i in
         if value = [] \<or> value \<in> set result then result else result @ [value]) [] ids)
     | _ \<Rightarrow> None)"

definition artifactsByIDs :: "jsval list \<Rightarrow> jstring list \<Rightarrow> jsval list" where
  "artifactsByIDs artifacts ids =
     (let byID = log_map (\<lambda>a. dot a ''id'') (\<lambda>a. truthy (dot a ''id'')) artifacts in
      filter truthy (map (\<lambda>i. case map_get byID (JStr i) of None \<Rightarrow> JUndef | Some a \<Rightarrow> a) ids))"

definition artifact_turn :: "jsval \<Rightarrow> jsval" where
  "artifact_turn artifact = jor (dot artifact ''turn_id'') (JStr [])"

definition message_turn :: "jsval \<Rightarrow> jsval" where
  "message_turn event = jor (dot (eventPayload event) ''turn_id'') (JStr [])"

definition finalAgentMessageArtifacts :: "jsval \<Rightarrow> jsval list \<Rightarrow> jsval list" where
  "finalAgentMessageArtifacts event artifacts =
     (case messageArtifactIDs event of
        Some structuredIDs \<Rightarrow> artifactsByIDs artifacts structuredIDs
      | None \<Rightarrow>
          (let candidates = finalFileArtifacts (filter (\<lambda>a. dot a ''turn_id'' = message_turn event) artifacts);
               referenced = filter (\<lambda>a. artifactReferencedByMessage a (eventText event)) candidates in
           if referenced \<noteq> [] then referenced else candidates))"

definition finalMessageByTurn :: "jsval list \<Rightarrow> (jsval, jsval) jmap" where
  "finalMessageByTurn events = log_map message_turn (\<lambda>e. event_is e ''agent.message'') events"

definition structured_messages :: "jsval list \<Rightarrow> jsval list" where
  "structured_messages events = filter (\<lambda>e. messageArtifactIDs e \<noteq> None) (map_values (finalMessageByTurn events))"

definition structuredTurns :: "jsval list \<Rightarrow> jsval list" where
  "structuredTurns events = uniq (map message_turn (structured_messages events))"

definition structuredIDs :: "jsval list \<Rightarrow> jsval list" where
  "structuredIDs events = uniq (concat (map (\<lambda>e. case messageArtifactIDs e of None \<Rightarrow> [] | Some ids \<Rightarrow> map JStr ids)
     (structured_messages events)))"

definition referenced_in :: "jsval list \<Rightarrow> jsval \<Rightarrow> bool" where
  "referenced_in events artifact \<longleftrightarrow> (case map_get (finalMessageByTurn events) (artifact_turn artifact) of
       None \<Rightarrow> False | Some event \<Rightarrow> artifactReferencedByMessage artifact (eventText event))"

definition referencedTurns :: "jsval list \<Rightarrow> jsval list \<Rightarrow> jsval list" where
  "referencedTurns candidates events = uniq (map artifact_turn
     (filter (\<lambda>a. artifact_turn a \<notin> set (structuredTurns events) \<and> referenced_in events a) candidates))"

text \<open>The text of a missing final message does not occur: its turn is not in \<open>referencedTurns\<close>.\<close>

definition conversationFinalFileArtifacts :: "jsval list \<Rightarrow> jsval list \<Rightarrow> jsval list" where
  "conversationFinalFileArtifacts artifacts events =
     (let candidates = finalFileArtifacts artifacts in
      filter (\<lambda>a. if artifact_turn a \<in> set (structuredTurns events) then dot a ''id'' \<in> set (structuredIDs events)
                  else if artifact_turn a \<notin> set (referencedTurns candidates events) then True
                  else referenced_in events a) candidates)"

section \<open>One artifact per file\<close>

lemma arranges_final_files: "arranges artifact_path isUserFileArtifact artifacts (finalFileArtifacts artifacts)"
  unfolding finalFileArtifacts_def by (rule arranges_values)

lemmas final_files_distinct = arranges_distinct [OF arranges_final_files]
lemmas final_files_latest = latest_at_arranged [OF arranges_final_files]
lemmas final_files_kept = arranges_kept [OF arranges_final_files]

section \<open>Files of a conversation\<close>

definition latest_file :: "jsval list \<Rightarrow> jsval \<Rightarrow> bool" where
  "latest_file artifacts a \<longleftrightarrow> latest_at artifact_path isUserFileArtifact artifacts (artifact_path a) = Some a"

lemma final_file_iff: "a \<in> set (finalFileArtifacts artifacts) \<longleftrightarrow> latest_file artifacts a"
proof -
  have "latest_at artifact_path isUserFileArtifact (finalFileArtifacts artifacts) (artifact_path a) = Some a
    \<longleftrightarrow> a \<in> set (finalFileArtifacts artifacts) \<and> artifact_path a = artifact_path a"
    by (rule latest_at_distinct [OF final_files_distinct]) (use final_files_kept in blast)
  then show ?thesis by (simp only: latest_file_def final_files_latest) simp
qed


definition sample_file :: "string \<Rightarrow> string \<Rightarrow> string \<Rightarrow> jsval" where
  "sample_file aid turn path = jobj [(''id'', jlit aid), (''turn_id'', jlit turn),
     (''metadata'', jobj [(''protocol_version'', jlit ''tma.tool_export.v1''), (''path'', jlit path)])]"

definition sample_message :: "string \<Rightarrow> (string \<times> jsval) list \<Rightarrow> jsval" where
  "sample_message turn kvs = jobj [(''type'', jlit ''agent.message''), (''payload'', jobj ((''turn_id'', jlit turn) # kvs))]"

definition sample_artifacts :: "jsval list" where
  "sample_artifacts = [sample_file ''a1'' ''t1'' ''out/x.csv'', sample_file ''a2'' ''t2'' ''out/x.csv'',
     sample_file ''a3'' ''t2'' ''out/y.csv'', sample_file ''a4'' ''t3'' ''out/z.csv'', sample_file ''a5'' ''t3'' ''w.csv'']"

definition sample_messages :: "jsval list" where
  "sample_messages = [sample_message ''t2'' [(''artifact_ids'', JArr [jlit ''a2''])],
     sample_message ''t3'' [(''content'', jlit ''see w.csv'')]]"


end
