(* ===== verification/Workbench_Catalogues.thy ===== *)
theory Workbench_Catalogues
  imports Inspector_Utils
begin

text \<open>
  Small modules of the workbench: states of MCP servers (\<open>mcpRuntimeStatus.js\<close>), the publication workflow of the
  marketplace (\<open>marketplaceCatalog.js\<close>), forms for questions of the agent (\<open>interactionForms.js\<close>), texts for failed
  previews (\<open>artifactPreviewErrors.js\<close>), code blocks (\<open>markdownCode.js\<close>) and status classes (\<open>utils.js\<close>), all under
  \<open>apps/workbench/src\<close>.

  A read \<open>table[name]\<close> with a computed name also finds the members every object inherits (\<open>index\<close>). Errors with their
  causes are objects of a heap, because the chain of causes may be cyclic.
\<close>

section \<open>States of MCP servers\<close>

record state_meta =
  sm_label :: jstring
  sm_rank :: int

definition stateMeta :: "(string \<times> state_meta) list" where
  "stateMeta =
    [(''open'', \<lparr>sm_label = [24050, 29076, 26029], sm_rank = 4\<rparr>), (''half_open'', \<lparr>sm_label = [24674, 22797, 25506, 27979], sm_rank = 3\<rparr>),
     (''saturated'', \<lparr>sm_label = [24182, 21457, 24050, 28385], sm_rank = 2\<rparr>), (''closed'', \<lparr>sm_label = [27491, 24120], sm_rank = 1\<rparr>),
     (''untracked'', \<lparr>sm_label = [26410, 36816, 34892], sm_rank = 0\<rparr>)]"

text \<open>\<open>stateMeta[v]\<close>: an entry, a member that every object has, or nothing.\<close>

datatype meta_read = Entry state_meta | Inherited | Absent

definition inherited_name :: "jstring \<Rightarrow> bool" where
  "inherited_name k \<longleftrightarrow> k \<in> set object_prototype_names \<or> k = lit ''__proto__''"

definition read_meta :: "jsval \<Rightarrow> meta_read" where
  "read_meta v = (case map_of (map (\<lambda>(k, m). (lit k, m)) stateMeta) (to_str v) of
       Some m \<Rightarrow> Entry m | None \<Rightarrow> if inherited_name (to_str v) then Inherited else Absent)"

definition meta_rank :: "meta_read \<Rightarrow> int option" where
  "meta_rank m = (case m of Entry e \<Rightarrow> Some (sm_rank e) | _ \<Rightarrow> None)"

text \<open>\<open>.rank\<close> of an inherited member is \<open>undefined\<close>, and every comparison with it is false.\<close>

definition rank_greater :: "jsval \<Rightarrow> jsval \<Rightarrow> bool" where
  "rank_greater a b \<longleftrightarrow> (case (meta_rank (read_meta a), meta_rank (read_meta b)) of (Some x, Some y) \<Rightarrow> x > y | _ \<Rightarrow> False)"

definition known_state :: "jsval \<Rightarrow> bool" where
  "known_state state \<longleftrightarrow> read_meta (dot state ''state'') \<noteq> Absent"

text \<open>The groups are the properties of an object; pushing to an inherited member throws (\<open>None\<close>).\<close>

fun groupMCPRuntimeStates :: "jsval list \<Rightarrow> (jstring, jsval list) jmap \<Rightarrow> (jstring, jsval list) jmap option" where
  "groupMCPRuntimeStates [] grouped = Some grouped"
| "groupMCPRuntimeStates (state # states) grouped =
     (let serverID = trimmed_text (dot state ''server_id'') in
      if serverID = [] \<or> \<not> known_state state then groupMCPRuntimeStates states grouped
      else case map_get grouped serverID of
          Some members \<Rightarrow> groupMCPRuntimeStates states (map_set grouped serverID (members @ [state]))
        | None \<Rightarrow> if inherited_name serverID then None
                  else groupMCPRuntimeStates states (map_set grouped serverID [state]))"

record runtime_summary =
  rs_state :: jsval
  rs_label :: jstring
  rs_count :: nat

definition untracked_label :: jstring where
  "untracked_label = [26410, 36816, 34892]"

definition worst_state :: "jsval \<Rightarrow> jsval list \<Rightarrow> jsval" where
  "worst_state first states = foldl (\<lambda>current state.
     if rank_greater (dot state ''state'') (dot current ''state'') then state else current) first states"

text \<open>The label of an inherited member is \<open>undefined\<close>; it is written as the empty text.\<close>

definition meta_label :: "meta_read \<Rightarrow> jstring" where
  "meta_label m = (case m of Entry e \<Rightarrow> sm_label e | _ \<Rightarrow> [])"

definition summarizeMCPRuntimeStates :: "jsval list \<Rightarrow> runtime_summary" where
  "summarizeMCPRuntimeStates states =
     (case filter known_state states of
        [] \<Rightarrow> \<lparr>rs_state = jlit ''untracked'', rs_label = untracked_label, rs_count = 0\<rparr>
      | first # others \<Rightarrow> (let worst = worst_state first others in
          \<lparr>rs_state = dot worst ''state'', rs_label = meta_label (read_meta (dot worst ''state'')), rs_count = length (first # others)\<rparr>))"

definition mcpRuntimeStateLabel :: "jsval \<Rightarrow> jstring" where
  "mcpRuntimeStateLabel state = str_or (meta_label (read_meta state)) untracked_label"

definition failureLabels :: jsval where
  "failureLabels = jobj
    [(''authentication'', JStr [35748, 35777, 22833, 36133]), (''canceled'', JStr [35843, 29992, 21462, 28040]), (''protocol'', JStr [21327, 35758, 38169, 35823]),
     (''rate_limited'', JStr [36828, 31471, 38480, 27969]), (''timeout'', JStr [35843, 29992, 36229, 26102]), (''transport'', JStr [20256, 36755, 22833, 36133]),
     (''unavailable'', JStr [26381, 21153, 19981, 21487, 29992]), (''unknown'', JStr [26410, 30693, 22833, 36133])]"

definition mcpRuntimeFailureLabel :: "jsval \<Rightarrow> jsval" where
  "mcpRuntimeFailureLabel failureClass = jor (index failureLabels (to_str failureClass)) (JStr [])"

section \<open>The marketplace\<close>

definition marketplaceEntryStages :: "(string \<times> jstring) list" where
  "marketplaceEntryStages = [(''draft'', [33609, 31295]), (''pending_review'', [24453, 23457, 26680]),
     (''published'', [24050, 21457, 24067]), (''withdrawn'', [24050, 19979, 26550])]"

definition stage_index :: "jsval \<Rightarrow> nat option" where
  "stage_index status = (let hits = filter (\<lambda>i. jlit (fst (marketplaceEntryStages ! i)) = status) [0..<length marketplaceEntryStages] in
     case hits of [] \<Rightarrow> None | i # _ \<Rightarrow> Some i)"

definition marketplaceEntryStatusLabel :: "jsval \<Rightarrow> jsval" where
  "marketplaceEntryStatusLabel status = (case stage_index status of
       Some i \<Rightarrow> JStr (snd (marketplaceEntryStages ! i)) | None \<Rightarrow> jor status (JStr [26410, 30693]))"

definition marketplaceEntryStatusTone :: "jsval \<Rightarrow> string" where
  "marketplaceEntryStatusTone status =
     (if status = jlit ''published'' then ''ok'' else if status = jlit ''pending_review'' then ''warn''
      else if status = jlit ''withdrawn'' then ''danger'' else ''neutral'')"

record entry_action =
  ea_action :: string
  ea_label :: jstring
  ea_target :: string

definition marketplaceEntryNextAction :: "jsval \<Rightarrow> entry_action option" where
  "marketplaceEntryNextAction status =
     (if status = jlit ''draft'' then Some \<lparr>ea_action = ''submit'', ea_label = [25552, 20132, 23457, 26680], ea_target = ''pending_review''\<rparr>
      else if status = jlit ''pending_review'' then Some \<lparr>ea_action = ''publish'', ea_label = [23457, 26680, 24182, 21457, 24067], ea_target = ''published''\<rparr>
      else if status = jlit ''published'' then Some \<lparr>ea_action = ''withdraw'', ea_label = [19979, 26550], ea_target = ''withdrawn''\<rparr>
      else None)"

definition marketplaceEntryStageState :: "jsval \<Rightarrow> jsval \<Rightarrow> string" where
  "marketplaceEntryStageState currentStatus stageStatus =
     (case (stage_index currentStatus, stage_index stageStatus) of
        (Some current, Some stage) \<Rightarrow> if stage = current then ''current'' else if stage < current then ''complete'' else ''upcoming''
      | _ \<Rightarrow> ''upcoming'')"

record install_meta =
  im_label :: jstring
  im_tone :: string
  im_actionLabel :: jstring

definition marketplaceInstallStateMeta :: "jsval \<Rightarrow> install_meta" where
  "marketplaceInstallStateMeta state =
     (if state = jlit ''new_install'' then \<lparr>im_label = [21487, 23433, 35013], im_tone = ''ok'', im_actionLabel = [23433, 20840, 39044, 35272]\<rparr>
      else if state = jlit ''upgrade'' then \<lparr>im_label = [26377, 26032, 29256, 26412], im_tone = ''warn'', im_actionLabel = [26597, 30475, 26356, 26032]\<rparr>
      else if state = jlit ''unchanged'' then \<lparr>im_label = [24050, 23433, 35013], im_tone = ''neutral'', im_actionLabel = [26597, 30475, 35814, 24773]\<rparr>
      else if state = jlit ''blocked'' then \<lparr>im_label = [19981, 21487, 23433, 35013], im_tone = ''danger'', im_actionLabel = [26597, 30475, 21407, 22240]\<rparr>
      else \<lparr>im_label = [20869, 37096, 24050, 21457, 24067], im_tone = ''ok'', im_actionLabel = [23433, 20840, 39044, 35272]\<rparr>)"

definition marketplaceUpgradeVersions :: "jsval \<Rightarrow> (rat \<times> rat) option" where
  "marketplaceUpgradeVersions preview =
     (if dot preview ''install_state'' \<noteq> jlit ''upgrade'' then None
      else case to_num (jor (dot (dot preview ''existing'') ''version'') (jint 0)) of
          Fin current \<Rightarrow> if is_integer (Fin current) \<and> 1 \<le> current then Some (current, current + 1) else None
        | _ \<Rightarrow> None)"

section \<open>Questions of the agent\<close>

definition selectedChoiceIDs :: "jsval \<Rightarrow> jsval \<Rightarrow> jsval list" where
  "selectedChoiceIDs value choices =
     map (\<lambda>choice. dot choice ''id'')
       (filter (\<lambda>choice. truthy (index (object_value value) (to_str (dot choice ''id'')))) (array_items choices))"

definition fieldValue :: "jsval \<Rightarrow> jsval \<Rightarrow> jsval" where
  "fieldValue field answer =
     (let value = index (object_value answer) (to_str (dot field ''id'')) in
      if dot field ''type'' = jlit ''multiselect'' then JArr (selectedChoiceIDs value (dot field ''choices''))
      else nullish value (JStr []))"

definition fieldHasValue :: "jsval \<Rightarrow> jsval \<Rightarrow> bool" where
  "fieldHasValue field answer =
     (case fieldValue field answer of JArr xs \<Rightarrow> xs \<noteq> [] | v \<Rightarrow> trimmed_text v \<noteq> [])"

datatype human_response =
    Answers jstring "jsval list"
  | Fields jstring "(jstring, jsval) jmap"
  | Answer jstring jsval

text \<open>\<open>values[id] = v\<close>; an assignment to \<open>__proto__\<close> makes no property.\<close>

definition put_field :: "(jstring, jsval) jmap \<Rightarrow> jstring \<Rightarrow> jsval \<Rightarrow> (jstring, jsval) jmap" where
  "put_field m k v = (if k = lit ''__proto__'' then m else map_set m k v)"

definition response_mode :: "jsval \<Rightarrow> jstring" where
  "response_mode mode = to_str (jor mode (jlit ''freeform''))"

definition buildHumanInputResponse :: "jsval \<Rightarrow> jsval \<Rightarrow> jsval \<Rightarrow> jsval \<Rightarrow> human_response" where
  "buildHumanInputResponse mode choices questions answer =
     (let m = response_mode mode in
      if m = lit ''multiselect'' then Answers m (selectedChoiceIDs answer choices)
      else if m = lit ''form'' then
        Fields m (foldl (\<lambda>vs field. put_field vs (to_str (dot field ''id'')) (fieldValue field answer)) [] (array_items questions))
      else Answer m answer)"

definition response_answer :: "human_response \<Rightarrow> jsval" where
  "response_answer r = (case r of Answer _ a \<Rightarrow> a | _ \<Rightarrow> JUndef)"

definition response_answers :: "human_response \<Rightarrow> jsval list" where
  "response_answers r = (case r of Answers _ xs \<Rightarrow> xs | _ \<Rightarrow> [])"

definition canSubmitHumanInput :: "jsval \<Rightarrow> jsval \<Rightarrow> jsval \<Rightarrow> jsval \<Rightarrow> bool" where
  "canSubmitHumanInput mode choices questions answer =
     (let response = buildHumanInputResponse mode choices questions answer in
      if mode = jlit ''multiselect'' then response_answers response \<noteq> []
      else if mode = jlit ''form'' then
        list_all (\<lambda>field. \<not> truthy (dot field ''required'') \<or> fieldHasValue field answer) (array_items questions)
      else trimmed_text (response_answer response) \<noteq> [])"

section \<open>Failed previews\<close>

text \<open>The heap of errors: an address gives the \<open>message\<close> and the address of the \<open>cause\<close>; \<open>None\<close> stands for a cause
  without a message and a cause of its own.\<close>

type_synonym error_heap = "(nat \<times> (jsval \<times> nat option)) list"

function error_messages :: "error_heap \<Rightarrow> nat list \<Rightarrow> nat option \<Rightarrow> jstring list" where
  "error_messages h seen None = []"
| "error_messages h seen (Some a) =
     (if a \<in> set seen \<or> a \<notin> fst ` set h then []
      else case map_of h a of
          Some (message, cause) \<Rightarrow>
            (if string_text message \<noteq> [] then [string_text message] else []) @ error_messages h (seen @ [a]) cause
        | None \<Rightarrow> [])"
  by pat_completeness auto
termination
proof (relation "measure (\<lambda>(h, seen, c). card (fst ` set h - set seen))", simp)
  fix h :: error_heap and seen a x and message cause
  assume "\<not> (a \<in> set seen \<or> a \<notin> fst ` set h)"
  then have "fst ` set h - set (seen @ [a]) \<subset> fst ` set h - set seen" by auto
  then show "((h, seen @ [a], cause), h, seen, Some a) \<in> measure (\<lambda>(h, seen, c). card (fst ` set h - set seen))"
    by (simp add: psubset_card_mono)
qed

definition artifactPreviewErrorMessage :: "error_heap \<Rightarrow> nat option \<Rightarrow> jstring" where
  "artifactPreviewErrorMessage h error' =
     (let messages = error_messages h [] error';
          detail = (case filter (\<lambda>m. \<not> starts_with m (lit ''Resource provider '')) (rev messages) of [] \<Rightarrow> [] | d # _ \<Rightarrow> d);
          normalized = to_lower detail; mentions = (\<lambda>w. str_includes normalized (lit w)) in
      if mentions ''soffice/libreoffice binary was not found''
      then [26080, 27861, 39044, 35272, 32, 68, 79, 67, 88, 65306, 26381, 21153, 22120, 26410, 23433, 35013, 32, 76, 105, 98, 114, 101, 79, 102, 102, 105, 99, 101, 32, 25991, 26723, 36716, 25442, 32452, 20214, 12290, 35831, 19979, 36733, 25991, 20214, 26597, 30475, 65292, 25110, 32852, 31995, 31649, 29702, 21592, 23433, 35013, 21518, 37325, 35797, 12290]
      else if mentions ''artifact is too large for document preview''
      then [26080, 27861, 22312, 32447, 39044, 35272, 65306, 68, 79, 67, 88, 32, 25991, 20214, 36229, 36807, 32, 50, 53, 32, 77, 66, 65292, 35831, 19979, 36733, 21518, 26597, 30475, 12290]
      else if mentions ''only docx artifacts can be converted''
      then [26080, 27861, 22312, 32447, 39044, 35272, 65306, 35813, 25991, 20214, 19981, 26159, 26377, 25928, 30340, 32, 68, 79, 67, 88, 32, 25991, 26723, 65292, 35831, 19979, 36733, 21518, 26816, 26597, 25991, 20214, 26684, 24335, 12290]
      else if mentions ''convert docx preview'' \<or> mentions ''converted pdf preview''
      then [68, 79, 67, 88, 32, 36716, 32, 80, 68, 70, 32, 39044, 35272, 22833, 36133, 65306] @ detail
      else if detail \<noteq> [] then [25991, 20214, 39044, 35272, 22833, 36133, 65306] @ detail
      else [25991, 20214, 39044, 35272, 22833, 36133, 65292, 35831, 19979, 36733, 25991, 20214, 21518, 26597, 30475, 12290])"

section \<open>Code blocks\<close>

fun renderedCodeText :: "jsval \<Rightarrow> jstring" where
  "renderedCodeText (JArr items) = concat (map renderedCodeText items)"
| "renderedCodeText JUndef = []"
| "renderedCodeText JNull = []"
| "renderedCodeText (JBool b) = []"
| "renderedCodeText v = to_str v"

definition markdownCodeText :: "jsval \<Rightarrow> jstring" where
  "markdownCodeText value = (let t = renderedCodeText value in if t \<noteq> [] \<and> last t = 10 then butlast t else t)"

text \<open>\<open>/(?:^|\s)language-([^\s]+)/\<close>: at the start of the text, or after a white space.\<close>

definition language_here :: "jstring \<Rightarrow> jstring option" where
  "language_here s = (let name = takeWhile (\<lambda>c. \<not> js_space c) (drop 9 s) in
     if starts_with s (lit ''language-'') \<and> name \<noteq> [] then Some name else None)"

fun language_after_space :: "jstring \<Rightarrow> jstring option" where
  "language_after_space [] = None"
| "language_after_space (c # s) =
     (case (if js_space c then language_here s else None) of Some n \<Rightarrow> Some n | None \<Rightarrow> language_after_space s)"

definition markdownCodeLanguage :: "jsval \<Rightarrow> jstring" where
  "markdownCodeLanguage className =
     (let s = text_of className in
      case (case language_here s of Some n \<Rightarrow> Some n | None \<Rightarrow> language_after_space s) of None \<Rightarrow> [] | Some n \<Rightarrow> n)"

section \<open>Status classes and commands\<close>

definition workbench_pillClass :: "jsval \<Rightarrow> string" where
  "workbench_pillClass v =
     (if is_word v [''completed'', ''ok'', ''success'', ''approved'', ''idle''] then ''pill ok''
      else if is_word v [''waiting approval'', ''waiting_approval'', ''pending'', ''blocked'', ''running'', ''interrupting'',
        ''provisioning'', ''compacting''] then ''pill warn''
      else if is_word v [''failed'', ''error'', ''rejected''] then ''pill err'' else ''pill'')"

definition workbench_stepClass :: "jsval \<Rightarrow> string" where
  "workbench_stepClass = stepClass"

definition workbench_sessionArtifactCLI :: "jsval \<Rightarrow> jstring" where
  "workbench_sessionArtifactCLI = artifact_cli (lit ''/v2/sessions/'')"

definition workbench_sessionArtifactCommand :: "jsval \<Rightarrow> jsval \<Rightarrow> jstring" where
  "workbench_sessionArtifactCommand = sessionArtifactCommand"

section \<open>Lemmas\<close>

lemma rank_greater_entries:
  "read_meta a = Entry x \<Longrightarrow> read_meta b = Entry y \<Longrightarrow> rank_greater a b \<longleftrightarrow> sm_rank x > sm_rank y"
  by (simp add: rank_greater_def meta_rank_def)

definition entry_state :: "jsval \<Rightarrow> bool" where
  "entry_state s \<longleftrightarrow> (\<exists>m. read_meta (dot s ''state'') = Entry m)"

definition state_rank :: "jsval \<Rightarrow> int" where
  "state_rank s = (case read_meta s of Entry m \<Rightarrow> sm_rank m | _ \<Rightarrow> -1)"

lemma worst_state_max:
  assumes "entry_state first" "list_all entry_state states"
  shows "worst_state first states \<in> set (first # states)
    \<and> (\<forall>s \<in> set (first # states). state_rank (dot s ''state'') \<le> state_rank (dot (worst_state first states) ''state''))"
  using assms(2)
proof (induction states rule: rev_induct)
  case (snoc s states)
  let ?w = "worst_state first states"
  have step: "worst_state first (states @ [s]) = (if rank_greater (dot s ''state'') (dot ?w ''state'') then s else ?w)"
    by (simp add: worst_state_def)
  have "entry_state s" "entry_state ?w" using snoc assms(1) by (auto simp: list_all_iff)
  then have "rank_greater (dot s ''state'') (dot ?w ''state'') \<longleftrightarrow> state_rank (dot s ''state'') > state_rank (dot ?w ''state'')"
    by (auto simp: entry_state_def state_rank_def rank_greater_entries)
  with snoc step show ?case by fastforce
qed (simp add: worst_state_def)

text \<open>The summary of a server reports its worst state.\<close>

lemma summary_worst:
  assumes "list_all entry_state (filter known_state states)" "s \<in> set states" "known_state s"
  shows "state_rank (dot s ''state'') \<le> state_rank (rs_state (summarizeMCPRuntimeStates states))
    \<and> rs_count (summarizeMCPRuntimeStates states) = length (filter known_state states)"
proof -
  have "s \<in> set (filter known_state states)" using assms(2,3) by simp
  then obtain first others where split: "filter known_state states = first # others" by (cases "filter known_state states") auto
  with assms(1) worst_state_max [of first others] \<open>s \<in> set (filter known_state states)\<close> show ?thesis
    by (auto simp: summarizeMCPRuntimeStates_def Let_def)
qed

definition group_of :: "jstring \<Rightarrow> jsval list \<Rightarrow> jsval list" where
  "group_of k states = filter (\<lambda>s. k \<noteq> [] \<and> trimmed_text (dot s ''server_id'') = k \<and> known_state s) states"

definition extend_group :: "'a list option \<Rightarrow> 'a list \<Rightarrow> 'a list option" where
  "extend_group g xs = (if xs = [] then g else Some ((case g of None \<Rightarrow> [] | Some ys \<Rightarrow> ys) @ xs))"

lemma extend_group_Cons: "extend_group (Some ((case g of None \<Rightarrow> [] | Some ys \<Rightarrow> ys) @ [x])) xs = extend_group g (x # xs)"
  by (simp add: extend_group_def)

lemma extend_group_None: "extend_group None xs = (if xs = [] then None else Some xs)"
  by (simp add: extend_group_def)

lemma group_states_get:
  assumes "list_all (\<lambda>s. \<not> inherited_name (trimmed_text (dot s ''server_id''))) states"
  shows "\<exists>m. groupMCPRuntimeStates states grouped = Some m \<and> (\<forall>k. map_get m k = extend_group (map_get grouped k) (group_of k states))"
  using assms
proof (induction states arbitrary: grouped)
  case (Cons s states)
  let ?id = "trimmed_text (dot s ''server_id'')"
  let ?g = "case map_get grouped ?id of None \<Rightarrow> [] | Some g \<Rightarrow> g"
  have rest: "list_all (\<lambda>s. \<not> inherited_name (trimmed_text (dot s ''server_id''))) states" using Cons.prems by simp
  show ?case
  proof (cases "?id = [] \<or> \<not> known_state s")
    case True
    then have "group_of k (s # states) = group_of k states" for k by (auto simp: group_of_def)
    with True Cons.IH [OF rest, of grouped] show ?thesis by simp
  next
    case False
    then have next_step: "groupMCPRuntimeStates (s # states) grouped = groupMCPRuntimeStates states (map_set grouped ?id (?g @ [s]))"
      using Cons.prems by (auto simp: Let_def split: option.splits)
    have "group_of k (s # states) = (if k = ?id then s # group_of k states else group_of k states)" for k
      using False by (auto simp: group_of_def)
    with next_step Cons.IH [OF rest, of "map_set grouped ?id (?g @ [s])"] show ?thesis
      by (auto simp: map_get_set extend_group_Cons)
  qed
qed (simp add: group_of_def extend_group_def)

text \<open>Every server gets the list of its states, in their order.\<close>

lemma states_grouped:
  assumes "list_all (\<lambda>s. \<not> inherited_name (trimmed_text (dot s ''server_id''))) states"
  shows "\<exists>m. groupMCPRuntimeStates states [] = Some m
    \<and> (\<forall>k. map_get m k = (if group_of k states = [] then None else Some (group_of k states)))"
  using group_states_get [OF assms, of "[]"] by (simp only: extend_group_None map_get_empty)

text \<open>A server whose id is the name of an inherited member makes the grouping throw.\<close>

lemma inherited_server_id_throws:
  "groupMCPRuntimeStates [jobj [(''server_id'', jlit ''constructor''), (''state'', jlit ''open'')]] [] = None"
  by code_simp

text \<open>Following the actions of the marketplace moves an entry from stage to stage.\<close>

lemma next_action_next_stage:
  "marketplaceEntryNextAction status = Some a \<Longrightarrow>
   (\<exists>i. stage_index status = Some i \<and> stage_index (jlit (ea_target a)) = Some (Suc i))
   \<and> marketplaceEntryStageState (jlit (ea_target a)) status = ''complete''
   \<and> marketplaceEntryStageState status (jlit (ea_target a)) = ''upcoming''"
proof -
  have stages: "stage_index (jlit ''draft'') = Some 0" "stage_index (jlit ''pending_review'') = Some 1"
    "stage_index (jlit ''published'') = Some 2" "stage_index (jlit ''withdrawn'') = Some 3"
    by (code_simp, code_simp, code_simp, code_simp)
  assume "marketplaceEntryNextAction status = Some a"
  then show ?thesis
    by (auto simp: marketplaceEntryNextAction_def marketplaceEntryStageState_def stages split: if_splits)
qed

text \<open>An answer that may be submitted is complete: a multiple choice has at least one of the offered choices and nothing
  else, in the order of the choices; a form has a value for every required field; a free answer is not blank.\<close>

theorem submitted_answer_complete:
  assumes "canSubmitHumanInput mode choices questions answer"
  shows "(case buildHumanInputResponse mode choices questions answer of
       Answers m ids \<Rightarrow> ids \<noteq> [] \<and> subseq ids (map (\<lambda>c. dot c ''id'') (array_items choices))
     | Fields m values' \<Rightarrow> (\<forall>q \<in> set (array_items questions). truthy (dot q ''required'') \<longrightarrow> fieldHasValue q answer)
     | Answer m a \<Rightarrow> a = answer \<and> trimmed_text a \<noteq> [])"
proof -
  have "subseq (selectedChoiceIDs answer choices) (map (\<lambda>c. dot c ''id'') (array_items choices))"
    unfolding selectedChoiceIDs_def by (rule subseq_map) simp
  then show ?thesis using assms
    by (auto simp: canSubmitHumanInput_def buildHumanInputResponse_def response_mode_def response_answer_def response_answers_def
        Let_def list_all_iff jor_def trimmed_text_def text_of_def split: if_splits)
qed

theorem submitted_answer_complete_witness:
  "subseq [jlit ''b''] (map (\<lambda>c. dot c ''id'') [jobj [(''id'', jlit ''a'')], jobj [(''id'', jlit ''b'')]])"
proof -
  let ?choices = "JArr [jobj [(''id'', jlit ''a'')], jobj [(''id'', jlit ''b'')]]" and ?answer = "jobj [(''b'', JBool True)]"
  have "canSubmitHumanInput (jlit ''multiselect'') ?choices JUndef ?answer" by code_simp
  from submitted_answer_complete [OF this]
  have "subseq (response_answers (buildHumanInputResponse (jlit ''multiselect'') ?choices JUndef ?answer))
    (map (\<lambda>c. dot c ''id'') (array_items ?choices))"
    by (simp add: buildHumanInputResponse_def response_mode_def jor_def response_answers_def lit_def)
  moreover have "response_answers (buildHumanInputResponse (jlit ''multiselect'') ?choices JUndef ?answer) = [jlit ''b'']"
    by code_simp
  ultimately show ?thesis by (simp add: array_items_def)
qed

section \<open>Causes of errors\<close>

text \<open>A chain of causes is followed once around a cycle at most: there are no more messages than errors.\<close>

lemma error_messages_bounded: "length (error_messages h seen c) \<le> card (fst ` set h - set seen)"
proof (induction h seen c rule: error_messages.induct)
  case (2 h seen a)
  show ?case
  proof (cases "a \<in> set seen \<or> a \<notin> fst ` set h")
    case False
    then obtain m cause where e: "map_of h a = Some (m, cause)" by (cases "map_of h a") (auto simp: map_of_eq_None_iff)
    have "fst ` set h - set seen = insert a (fst ` set h - set (seen @ [a]))" using False by auto
    then have "card (fst ` set h - set seen) = card (insert a (fst ` set h - set (seen @ [a])))" by (rule arg_cong)
    also have "\<dots> = Suc (card (fst ` set h - set (seen @ [a])))" by (rule card_insert_disjoint) simp_all
    finally have "card (fst ` set h - set seen) = Suc (card (fst ` set h - set (seen @ [a])))" .
    moreover have "length (error_messages h (seen @ [a]) cause) \<le> card (fst ` set h - set (seen @ [a]))"
      by (rule 2 [OF False e refl])
    moreover have "error_messages h seen (Some a) =
      (if string_text m \<noteq> [] then [string_text m] else []) @ error_messages h (seen @ [a]) cause"
      using False by (simp only: error_messages.simps e) simp
    ultimately show ?thesis by (simp del: error_messages.simps)
  qed (simp add: error_messages.simps(2) [of h seen a])
qed simp

end
