(* ===== verification/Workbench_Timeline.thy ===== *)
theory Workbench_Timeline
  imports Session_Events Runtime_Failures Artifact_Associations
begin

text \<open>
  The conversation as the workbench shows it, from the functions of \<open>apps/workbench/src/App.jsx\<close> that are not components:
  the compacted timeline of a chat (\<open>compactChatTimelineEvents\<close>), the banner of the running turn (\<open>turnSignal\<close>), the
  status of a session, and the tree of its files (\<open>buildArtifactTree\<close>).

  The types of events are texts. The text of a reply that \<open>turnSignal\<close> shortens is read by \<open>eventText\<close> of
  \<open>artifactAssociations.js\<close>, which agrees with the one of \<open>App.jsx\<close> on payloads that are objects.
\<close>

section \<open>The compacted timeline\<close>

definition app_payload :: "jsval \<Rightarrow> jsval" where
  "app_payload event = jor (dot event ''payload'') (jobj [])"

definition app_data :: "jsval \<Rightarrow> jsval" where
  "app_data event = object_value (dot (app_payload event) ''data'')"

definition chatTimelineStatusEventTypes :: "string list" where
  "chatTimelineStatusEventTypes = [''session.status_provisioning'', ''session.status_running'', ''session.status_interrupting'',
    ''session.status_compacting'', ''session.status_idle'', ''session.status_failed'',
    ''session.status_terminated'', ''runtime.started'', ''runtime.llm_request'',
    ''runtime.llm_response'', ''runtime.context_compacting'', ''runtime.context_compacted'',
    ''runtime.context_compaction_failed'', ''runtime.skills_resolving'', ''runtime.skills_resolved'',
    ''runtime.turn_completing'', ''runtime.completion_validated'', ''runtime.completion_blocked'',
    ''runtime.completion_validation_failed'', ''runtime.completed'', ''runtime.tool_intervention_required'',
    ''runtime.tool_intervention_approved'', ''runtime.tool_intervention_rejected'', ''runtime.human_input_required'',
    ''runtime.human_input_submitted'', ''runtime.human_input_skipped'', ''runtime.human_input_canceled'',
    ''runtime.plan_approval_approved'', ''model.requested'', ''model.responded'',
    ''completion.started'', ''completion.validated'', ''tool.batch_planned'',
    ''tool.batch_completed'', ''tool.call_started'', ''tool.call_result'',
    ''intervention.required'', ''intervention.resolved'']"

definition chatTimelineInternalEventTypes :: "string list" where
  "chatTimelineInternalEventTypes = [''session.status_provisioning'', ''session.status_running'', ''session.status_compacting'',
    ''session.status_idle'', ''runtime.started'', ''runtime.llm_request'',
    ''runtime.llm_response'', ''runtime.skills_resolving'', ''runtime.skills_resolved'',
    ''runtime.turn_completing'', ''runtime.completion_validated'', ''model.requested'',
    ''model.responded'', ''completion.started'', ''completion.validated'',
    ''tool.batch_planned'', ''tool.batch_completed'', ''tool.call_started'',
    ''tool.call_result'', ''intervention.required'', ''intervention.resolved'']"

text \<open>``Analysing the request and preparing the next step.''\<close>

definition thinking_text :: jstring where
  "thinking_text = [27491, 22312, 20998, 26512, 35831, 27714, 24182, 20934, 22791, 19979, 19968, 27493, 12290]"

definition type_prefix :: "jsval \<Rightarrow> string \<Rightarrow> bool" where
  "type_prefix event p \<longleftrightarrow> (case dot event ''type'' of JStr s \<Rightarrow> starts_with s (lit p) | _ \<Rightarrow> False)"

record timeline_options =
  to_includeTransientThinking :: bool
  to_transientThinkingAfterSeq :: jsnum

record timeline_state =
  ts_compacted :: "jsval list"
  ts_internal :: "jsval list"

text \<open>\<open>a <= b\<close> on numbers.\<close>

definition num_leq :: "jsnum \<Rightarrow> jsnum \<Rightarrow> bool" where
  "num_leq a b \<longleftrightarrow> a \<noteq> NaN \<and> b \<noteq> NaN \<and> \<not> num_less b a"

definition synthesized_thinking :: "jsval \<Rightarrow> jsval \<Rightarrow> jsval" where
  "synthesized_thinking first last' =
     spread first [(''type'', jlit ''runtime.thinking''),
       (''seq'', JStr (lit ''thinking-'' @ to_str (dot first ''seq'') @ lit ''-'' @ to_str (dot last' ''seq''))),
       (''payload'', spread (app_payload first) [(''data'', spread (app_data first) [(''text'', JStr thinking_text)])])]"

definition flushInternalEvents :: "timeline_options \<Rightarrow> timeline_state \<Rightarrow> timeline_state" where
  "flushInternalEvents opts st =
     (let internal = ts_internal st; compacted = ts_compacted st in
      if internal = [] then st
      else if \<not> shouldSynthesizeThinking (JArr internal) then st\<lparr>ts_internal := []\<rparr>
      else if \<not> to_includeTransientThinking opts \<or> num_leq (event_seq (last internal)) (to_transientThinkingAfterSeq opts)
      then st\<lparr>ts_internal := []\<rparr>
      else if compacted \<noteq> [] \<and> event_is (last compacted) ''runtime.thinking'' then st\<lparr>ts_internal := []\<rparr>
      else \<lparr>ts_compacted = compacted @ [synthesized_thinking (hd internal) (last internal)], ts_internal = []\<rparr>)"

text \<open>A result that only confirms a call which is shown, and steps of its approval.\<close>

definition quiet_result :: "jstring list \<Rightarrow> jsval \<Rightarrow> bool" where
  "quiet_result toolCallIDs event \<longleftrightarrow> event_is event ''runtime.tool_result'' \<and> toolCallID event \<in> set toolCallIDs
     \<and> dot (app_data event) ''success'' \<noteq> JBool False \<and> array_items (dot (app_data event) ''artifacts'') = []
     \<and> dot (app_data event) ''identifier'' \<noteq> jlit ''skills''"

definition shown_by_call :: "jstring list \<Rightarrow> jsval \<Rightarrow> bool" where
  "shown_by_call toolCallIDs event \<longleftrightarrow> toolCallID event \<in> set toolCallIDs
     \<and> (type_prefix event ''runtime.tool_intervention_'' \<or> type_prefix event ''runtime.human_input_'')"

definition timeline_event :: "timeline_options \<Rightarrow> jstring list \<Rightarrow> jstring list \<Rightarrow> timeline_state \<Rightarrow> jsval \<Rightarrow> timeline_state" where
  "timeline_event opts toolCallIDs failures st event =
     (if event_is event ''runtime.failed'' \<and> contextCompactionFailureDedupeKey event \<in> set failures then st
      else if is_word (dot event ''type'') chatTimelineInternalEventTypes then st\<lparr>ts_internal := ts_internal st @ [event]\<rparr>
      else if event_is event ''runtime.thinking'' then
        (if retainedProcessText event = [] then st\<lparr>ts_internal := []\<rparr>
         else \<lparr>ts_compacted = ts_compacted st @ [event], ts_internal = []\<rparr>)
      else if event_is event ''runtime.completed'' then st\<lparr>ts_internal := []\<rparr>
      else if quiet_result toolCallIDs event \<or> shown_by_call toolCallIDs event then st
      else (let st1 = flushInternalEvents opts st in st1\<lparr>ts_compacted := ts_compacted st1 @ [event]\<rparr>))"

definition shown_call_ids :: "jsval list \<Rightarrow> jstring list" where
  "shown_call_ids sorted' = filter (\<lambda>s. s \<noteq> []) (map toolCallID (filter (\<lambda>e. event_is e ''runtime.tool_call'') sorted'))"

definition explicit_failures :: "jsval list \<Rightarrow> jstring list" where
  "explicit_failures sorted' = filter (\<lambda>s. s \<noteq> [])
     (map contextCompactionFailureDedupeKey (filter (\<lambda>e. event_is e ''runtime.context_compaction_failed'') sorted'))"

definition compactChatTimelineEvents :: "timeline_options \<Rightarrow> jsval list \<Rightarrow> jsval list" where
  "compactChatTimelineEvents opts sourceEvents =
     (let sorted' = ordered_events sourceEvents in
      ts_compacted (flushInternalEvents opts
        (foldl (timeline_event opts (shown_call_ids sorted') (explicit_failures sorted')) \<lparr>ts_compacted = [], ts_internal = []\<rparr> sorted')))"

section \<open>Status of a session\<close>

definition sessionStatusRank :: "jsval \<Rightarrow> nat" where
  "sessionStatusRank status = (let s = text_of status in
     if s = lit ''running'' then 0 else if s = lit ''interrupting'' then 1 else if s = lit ''idle'' then 2
     else if s = lit ''failed'' then 3 else if s = lit ''terminated'' then 4 else 5)"

definition status_types :: "string list" where
  "status_types = [''session.status_provisioning'', ''session.status_idle'', ''session.status_running'',
     ''session.status_interrupting'', ''session.status_compacting'', ''session.status_failed'', ''session.status_terminated'']"

definition sessionStatusFromEvent :: "jsval \<Rightarrow> jstring" where
  "sessionStatusFromEvent event =
     (if is_word (dot event ''type'') status_types
      then to_str (jor (dot (app_payload event) ''status'') (JStr (drop 15 (to_str (dot event ''type'')))))
      else [])"

definition latestSessionStatus :: "jsval list \<Rightarrow> jsval \<Rightarrow> jstring" where
  "latestSessionStatus events fallback =
     (case filter (\<lambda>s. s \<noteq> []) (map sessionStatusFromEvent (rev events)) of s # _ \<Rightarrow> s | [] \<Rightarrow> text_of fallback)"

definition latest_event :: "(jsval \<Rightarrow> bool) \<Rightarrow> jsval list \<Rightarrow> jsval option" where
  "latest_event P events = List.find P (rev events)"

definition latestIdleTurnStatus :: "jsval list \<Rightarrow> jstring" where
  "latestIdleTurnStatus events = (case latest_event (\<lambda>e. event_is e ''session.status_idle'') events of
       None \<Rightarrow> [] | Some e \<Rightarrow> text_of (dot (app_payload e) ''last_turn_status''))"

record runtime_settings =
  se_interventionMode :: jstring
  se_llmModel :: jstring
  se_llmProvider :: jstring
  se_humanInteractionEnabled :: bool

definition text_setting :: "jsval \<Rightarrow> jstring" where
  "text_setting v = (case v of JStr s \<Rightarrow> s | _ \<Rightarrow> [])"

text \<open>\<open>None\<close> is the empty object that is returned for a value without settings.\<close>

definition parseSessionRuntimeSettings :: "jsval \<Rightarrow> runtime_settings option" where
  "parseSessionRuntimeSettings raw =
     (if \<not> is_object raw \<and> \<not> is_array raw then None
      else Some \<lparr>se_interventionMode = text_setting (dot raw ''intervention_mode''), se_llmModel = text_setting (dot raw ''llm_model''),
        se_llmProvider = text_setting (dot raw ''llm_provider''),
        se_humanInteractionEnabled = (dot (object_value (dot raw ''human_interaction'')) ''enabled'' \<noteq> JBool False)\<rparr>)"

text \<open>\<open>sort\<close> with the chosen agent first; \<open>lc\<close> is \<open>localeCompare\<close>.\<close>

definition agent_before :: "(jstring \<Rightarrow> jstring \<Rightarrow> int) \<Rightarrow> jsval \<Rightarrow> jsval \<Rightarrow> jsval \<Rightarrow> bool" where
  "agent_before lc defaultAgentID left right =
     (if dot left ''id'' = defaultAgentID then True else if dot right ''id'' = defaultAgentID then False
      else lc (text_of (dot left ''name'')) (text_of (dot right ''name'')) \<le> 0)"

definition sortAvailableAgents :: "(jstring \<Rightarrow> jstring \<Rightarrow> int) \<Rightarrow> jsval list \<Rightarrow> jsval \<Rightarrow> jsval list" where
  "sortAvailableAgents lc agents defaultAgentID = sort_by (agent_before lc defaultAgentID) agents"

section \<open>The banner of a turn\<close>

definition shortText :: "jsval \<Rightarrow> nat \<Rightarrow> jstring" where
  "shortText value maxLength =
     (let t = trim (collapse_spaces (text_of value)) in
      if t = [] then [] else if length t > maxLength then take (maxLength - 1) t @ lit ''...'' else t)"

definition meaningfulApprovalReason :: "jsval \<Rightarrow> jstring" where
  "meaningfulApprovalReason value =
     (let reason = trimmed_text value in
      if to_lower reason \<in> set (map lit [''approved from app'', ''approved from inspector'', ''plan approved from app'']) then [] else reason)"

definition activity_labels :: "(string \<times> jstring) list" where
  "activity_labels =
    [(''runtime.started'', [26412, 36718, 24050, 24320, 22987, 65292, 27491, 22312, 22788, 29702, 46, 46, 46]),
     (''runtime.thinking'', [27491, 22312, 22788, 29702, 24403, 21069, 35831, 27714, 46, 46, 46]),
     (''runtime.llm_request'', [27491, 22312, 21644, 27169, 22411, 23545, 35805, 46, 46, 46]),
     (''runtime.llm_response'', [27169, 22411, 24050, 36820, 22238, 32467, 26524, 65292, 27491, 22312, 25972, 29702, 46, 46, 46]),
     (''runtime.progress_message'', [26234, 33021, 20307, 26356, 26032, 20102, 24403, 21069, 36827, 23637, 12290]),
     (''runtime.tool_call'', [27491, 22312, 35843, 29992, 24037, 20855, 46, 46, 46]),
     (''runtime.tool_result'', [24037, 20855, 24050, 36820, 22238, 32467, 26524, 65292, 27491, 22312, 32487, 32493, 46, 46, 46]),
     (''runtime.tool_intervention_required'', [24037, 20855, 35843, 29992, 38656, 35201, 30830, 35748, 21518, 25165, 33021, 32487, 32493, 12290]),
     (''runtime.tool_intervention_approved'', [23457, 25209, 24050, 36890, 36807, 65292, 27491, 22312, 32487, 32493, 25191, 34892, 46, 46, 46]),
     (''runtime.plan_approval_required'', [25191, 34892, 35745, 21010, 38656, 35201, 23457, 38405, 21518, 25165, 33021, 32487, 32493, 12290]),
     (''runtime.plan_approval_approved'', [35745, 21010, 24050, 25209, 20934, 65292, 27491, 22312, 32487, 32493, 20219, 21153, 46, 46, 46]),
     (''runtime.plan_approval_rejected'', [35745, 21010, 38656, 35201, 20462, 25913, 65292, 27491, 22312, 37325, 26032, 35268, 21010, 46, 46, 46]),
     (''runtime.turn_completing'', [27491, 22312, 39564, 35777, 20219, 21153, 26159, 21542, 30495, 27491, 23436, 25104, 46, 46, 46]),
     (''runtime.completion_validated'', [23436, 25104, 39564, 35777, 24050, 36890, 36807, 65292, 27491, 22312, 20132, 20184, 32467, 26524, 46, 46, 46]),
     (''runtime.completion_blocked'', [23436, 25104, 39564, 35777, 26410, 36890, 36807, 65292, 27491, 22312, 32487, 32493, 25191, 34892, 46, 46, 46]),
     (''runtime.completion_validation_failed'', [20219, 21153, 26410, 33021, 36890, 36807, 23436, 25104, 39564, 35777, 12290])]"

definition turnActivityLabel :: "jsval option \<Rightarrow> jstring" where
  "turnActivityLabel event = (case event of None \<Rightarrow> []
     | Some e \<Rightarrow> (case map_of (map (\<lambda>(k, v). (jlit k, v)) activity_labels) (dot e ''type'') of None \<Rightarrow> [] | Some t \<Rightarrow> t))"

datatype signal_kind = Approval | SignalError | Success | Thinking

record turn_signal =
  sg_kind :: signal_kind
  sg_title :: jstring
  sg_detail :: jstring

record signal_options =
  so_sinceSeq :: jsnum
  so_sessionStatus :: jsval
  so_waitingForReply :: bool
  so_includeSuccess :: bool
  so_interventions :: "jsval list"

definition failure_event :: "jsval \<Rightarrow> bool" where
  "failure_event e \<longleftrightarrow> event_is e ''runtime.failed''
     \<or> (event_is e ''session.status_idle'' \<and> dot (app_payload e) ''last_turn_status'' = jlit ''failed'')
     \<or> event_is e ''session.status_failed''"

definition progress_types :: "string list" where
  "progress_types = [''runtime.started'', ''runtime.thinking'', ''runtime.llm_request'', ''runtime.llm_response'',
     ''runtime.tool_call'', ''runtime.tool_result'', ''runtime.tool_intervention_approved'',
     ''runtime.plan_approval_approved'', ''runtime.plan_approval_rejected'']"

definition or_text :: "jstring \<Rightarrow> jstring \<Rightarrow> jstring" where
  "or_text a b = (if a \<noteq> [] then a else b)"

definition approval_signal :: "jsval list \<Rightarrow> jsval option \<Rightarrow> turn_signal" where
  "approval_signal interventions approvalEvent =
     (let planOnly = list_all (\<lambda>i. dot i ''kind'' = jlit ''plan_approval'') interventions in
      \<lparr>sg_kind = Approval,
       sg_title = (if planOnly then [25191, 34892, 35745, 21010, 31561, 24453, 23457, 38405] else if length interventions = 1 then [31561, 24453, 23457, 25209]
         else nat_str (length interventions) @ [32, 20010, 23457, 25209, 24453, 22788, 29702]),
       sg_detail = (if approvalEvent \<noteq> None then turnActivityLabel approvalEvent
         else if planOnly then [25209, 20934, 35745, 21010, 25110, 25552, 20986, 20462, 25913, 21518, 32487, 32493, 12290] else [25209, 20934, 25110, 25298, 32477, 21518, 32487, 32493, 12290])\<rparr>)"

definition turnSignal :: "jsval list \<Rightarrow> signal_options \<Rightarrow> turn_signal option" where
  "turnSignal events opts =
     (let current = filter (\<lambda>e. num_less (so_sinceSeq opts) (event_seq e)) events;
          newest = (\<lambda>P. latest_event P current); status = so_sessionStatus opts;
          latestAgentMessage = newest (\<lambda>e. event_is e ''agent.message''); failureEvent = newest failure_event;
          approvalEvent = newest (\<lambda>e. event_is e ''runtime.tool_intervention_required'' \<or> event_is e ''runtime.plan_approval_required'');
          progressEvent = newest (\<lambda>e. is_word (dot e ''type'') progress_types) in
      if so_interventions opts \<noteq> [] then Some (approval_signal (so_interventions opts) approvalEvent)
      else case failureEvent of
          Some e \<Rightarrow> Some \<lparr>sg_kind = SignalError, sg_title = [26412, 36718, 22833, 36133],
            sg_detail = fp_detail (runtimeFailurePresentation (app_payload e))\<rparr>
        | None \<Rightarrow>
          if latestAgentMessage \<noteq> None \<and> so_includeSuccess opts then
            Some \<lparr>sg_kind = Success, sg_title = [24050, 22238, 22797],
              sg_detail = or_text (shortText (eventText (the latestAgentMessage)) 180) (lit ''Agent reply received.'')\<rparr>
          else if newest (\<lambda>e. event_is e ''session.status_idle'') \<noteq> None \<or> newest (\<lambda>e. event_is e ''session.status_terminated'') \<noteq> None
            \<or> status = jlit ''idle'' \<or> status = jlit ''terminated'' then None
          else if so_waitingForReply opts \<or> progressEvent \<noteq> None \<or> status = jlit ''running'' \<or> status = jlit ''interrupting'' then
            Some \<lparr>sg_kind = Thinking, sg_title = [27491, 22312, 22788, 29702],
              sg_detail = or_text (turnActivityLabel (if progressEvent \<noteq> None then progressEvent
                else if current = [] then None else Some (last current))) [27491, 22312, 29983, 25104, 22238, 22797, 46, 46, 46]\<rparr>
          else None)"

section \<open>The tree of files\<close>

datatype artifact_tree = Tree (tree_folders: "(jstring \<times> artifact_tree) list") (tree_files: "(jsval \<times> jstring) list")

definition trailing_digits :: "jstring \<Rightarrow> jstring" where
  "trailing_digits s = rev (takeWhile is_digit (rev s))"

definition turn_folder :: "jsval \<Rightarrow> jstring" where
  "turn_folder artifact = (let ds = trailing_digits (text_of (dot artifact ''turn_id'')) in
     if ds \<noteq> [] then [31532, 32] @ num_str (str_to_num ds) @ [32, 36718] else [20854, 20182, 32467, 26524])"

definition artifactPathParts :: "jsval \<Rightarrow> jstring list" where
  "artifactPathParts artifact =
     (let metadata = artifactMetadata artifact; explicitPath = jor (dot metadata ''path'') (dot metadata ''file_path'');
          rawPath = slashes (text_of (jor explicitPath (artifactName artifact)));
          parts = filter (\<lambda>s. s \<noteq> []) (split_on 47 rawPath) in
      if truthy explicitPath \<and> parts \<noteq> [] then parts
      else [turn_folder artifact, if parts \<noteq> [] then last parts else to_str (artifactName artifact)])"

fun tree_add :: "jstring list \<Rightarrow> jsval \<times> jstring \<Rightarrow> artifact_tree \<Rightarrow> artifact_tree" where
  "tree_add [] file (Tree folders files) = Tree folders (files @ [file])"
| "tree_add (d # ds) file (Tree folders files) =
     Tree (map_set folders d (tree_add ds file (case map_get folders d of None \<Rightarrow> Tree [] [] | Some t \<Rightarrow> t))) files"

definition add_artifact :: "artifact_tree \<Rightarrow> jsval \<Rightarrow> artifact_tree" where
  "add_artifact tree artifact = (let parts = artifactPathParts artifact in tree_add (butlast parts) (artifact, last parts) tree)"

definition buildArtifactTree :: "jsval list \<Rightarrow> artifact_tree" where
  "buildArtifactTree artifacts = foldl add_artifact (Tree [] []) artifacts"

section \<open>Nothing of the conversation is lost\<close>

definition is_thinking :: "jsval \<Rightarrow> bool" where
  "is_thinking e \<longleftrightarrow> event_is e ''runtime.thinking''"

definition kept_event :: "jstring list \<Rightarrow> jstring list \<Rightarrow> jsval \<Rightarrow> bool" where
  "kept_event toolCallIDs failures e \<longleftrightarrow> \<not> is_thinking e
     \<and> \<not> (event_is e ''runtime.failed'' \<and> contextCompactionFailureDedupeKey e \<in> set failures)
     \<and> \<not> is_word (dot e ''type'') chatTimelineInternalEventTypes \<and> \<not> event_is e ''runtime.completed''
     \<and> \<not> quiet_result toolCallIDs e \<and> \<not> shown_by_call toolCallIDs e"

lemma synthesized_is_thinking: "is_thinking (synthesized_thinking f l)"
  by (simp add: is_thinking_def synthesized_thinking_def event_is_def dot_spread)

lemma flush_cases:
  obtains (dropped) "ts_compacted (flushInternalEvents opts st) = ts_compacted st"
  | (thought) "ts_compacted (flushInternalEvents opts st) = ts_compacted st @ [synthesized_thinking (hd (ts_internal st)) (last (ts_internal st))]"
      "ts_compacted st = [] \<or> \<not> is_thinking (last (ts_compacted st))"
proof -
  have "ts_compacted (flushInternalEvents opts st) = ts_compacted st
    \<or> ts_compacted (flushInternalEvents opts st) = ts_compacted st @ [synthesized_thinking (hd (ts_internal st)) (last (ts_internal st))]
      \<and> (ts_compacted st = [] \<or> \<not> is_thinking (last (ts_compacted st)))"
    by (simp add: flushInternalEvents_def is_thinking_def Let_def)
  then show thesis using dropped thought by blast
qed

lemma flush_conversation:
  "filter (\<lambda>e. \<not> is_thinking e) (ts_compacted (flushInternalEvents opts st)) = filter (\<lambda>e. \<not> is_thinking e) (ts_compacted st)"
  by (rule flush_cases [of opts st]) (simp_all add: synthesized_is_thinking)

lemma timeline_event_conversation:
  "filter (\<lambda>e. \<not> is_thinking e) (ts_compacted (timeline_event opts ids fs st e))
     = filter (\<lambda>e. \<not> is_thinking e) (ts_compacted st) @ (if kept_event ids fs e then [e] else [])"
  by (simp add: timeline_event_def kept_event_def is_thinking_def [symmetric] flush_conversation Let_def)

lemma timeline_conversation:
  "filter (\<lambda>e. \<not> is_thinking e) (ts_compacted (foldl (timeline_event opts ids fs) st es))
     = filter (\<lambda>e. \<not> is_thinking e) (ts_compacted st) @ filter (kept_event ids fs) es"
  by (induction es arbitrary: st) (simp_all add: timeline_event_conversation)

text \<open>Two thoughts in a row: the second one is an event of the session, never a synthesized one.\<close>

definition thoughts_apart :: "jsval list \<Rightarrow> jsval list \<Rightarrow> bool" where
  "thoughts_apart evs es \<longleftrightarrow> (\<forall>i. Suc i < length es \<and> is_thinking (es ! i) \<and> is_thinking (es ! Suc i) \<longrightarrow> es ! Suc i \<in> set evs)"

lemma thoughts_apart_snoc:
  assumes "thoughts_apart evs es" "es = [] \<or> \<not> is_thinking (last es) \<or> \<not> is_thinking e \<or> e \<in> set evs"
  shows "thoughts_apart evs (es @ [e])"
  unfolding thoughts_apart_def
proof (intro allI impI)
  fix i assume i: "Suc i < length (es @ [e]) \<and> is_thinking ((es @ [e]) ! i) \<and> is_thinking ((es @ [e]) ! Suc i)"
  show "(es @ [e]) ! Suc i \<in> set evs"
  proof (cases "Suc i < length es")
    case True
    with i assms(1) show ?thesis by (auto simp: thoughts_apart_def nth_append)
  next
    case False
    with i have "length es = Suc i" by simp
    moreover from this have "last es = es ! i" by (subst last_conv_nth) auto
    ultimately show ?thesis using i assms(2) by (auto simp: nth_append)
  qed
qed

lemma flush_apart: "thoughts_apart evs (ts_compacted st) \<Longrightarrow> thoughts_apart evs (ts_compacted (flushInternalEvents opts st))"
  by (rule flush_cases [of opts st]) (auto intro: thoughts_apart_snoc)

lemma timeline_event_apart:
  assumes "thoughts_apart evs (ts_compacted st)" "e \<in> set evs"
  shows "thoughts_apart evs (ts_compacted (timeline_event opts ids fs st e))"
  using assms flush_apart [of evs st opts] by (simp add: timeline_event_def Let_def thoughts_apart_snoc)

lemma timeline_apart:
  "thoughts_apart evs (ts_compacted st) \<Longrightarrow> set es \<subseteq> set evs \<Longrightarrow>
   thoughts_apart evs (ts_compacted (foldl (timeline_event opts ids fs) st es))"
  by (induction es arbitrary: st) (simp_all add: timeline_event_apart)

lemma conversation_types_kept:
  assumes "event_is e ''user.message'' \<or> event_is e ''agent.message'' \<or> event_is e ''runtime.tool_call''
    \<or> (event_is e ''runtime.tool_result'' \<and> dot (app_data e) ''success'' = JBool False)"
  shows "kept_event ids fs e"
  using assms
  by (auto simp: kept_event_def is_thinking_def event_is_def is_word_def chatTimelineInternalEventTypes_def quiet_result_def
      shown_by_call_def type_prefix_def starts_with_def lit_def)

text \<open>C27: The compacted timeline. Apart from thoughts it consists of exactly the kept events of the session, in the order of
  their positions; messages of the user and the agent, tool calls and failed results are always kept. A thought that is made
  up from internal events never follows another thought.\<close>

theorem timeline_keeps_conversation:
  "filter (\<lambda>e. \<not> is_thinking e) (compactChatTimelineEvents opts events)
     = filter (kept_event (shown_call_ids (ordered_events events)) (explicit_failures (ordered_events events))) (ordered_events events)
   \<and> (\<forall>e. e \<in> set events \<and> (event_is e ''user.message'' \<or> event_is e ''agent.message'' \<or> event_is e ''runtime.tool_call''
         \<or> (event_is e ''runtime.tool_result'' \<and> dot (app_data e) ''success'' = JBool False))
       \<longrightarrow> e \<in> set (compactChatTimelineEvents opts events))
   \<and> thoughts_apart events (compactChatTimelineEvents opts events)"
proof -
  let ?s = "ordered_events events" and ?out = "compactChatTimelineEvents opts events"
  have main: "filter (\<lambda>e. \<not> is_thinking e) ?out = filter (kept_event (shown_call_ids ?s) (explicit_failures ?s)) ?s"
    by (simp add: compactChatTimelineEvents_def Let_def flush_conversation timeline_conversation)
  have same: "set ?s = set events" by (simp add: ordered_events_def)
  have "e \<in> set ?out" if "e \<in> set events" "kept_event (shown_call_ids ?s) (explicit_failures ?s) e" for e
  proof -
    have "e \<in> set (filter (\<lambda>e. \<not> is_thinking e) ?out)" using that same by (simp only: main) simp
    then show ?thesis by simp
  qed
  moreover have "thoughts_apart events []" by (simp add: thoughts_apart_def)
  then have "thoughts_apart events ?out"
    using same by (simp add: compactChatTimelineEvents_def Let_def flush_apart timeline_apart)
  ultimately show ?thesis using main conversation_types_kept by blast
qed

definition sample_timeline :: "jsval list" where
  "sample_timeline = [sample_event 4 ''agent.message'', sample_event 1 ''user.message'', sample_event 2 ''runtime.started'',
     sample_event 3 ''runtime.llm_request'']"

theorem timeline_keeps_conversation_witness:
  "sample_event 4 ''agent.message''
     \<in> set (compactChatTimelineEvents \<lparr>to_includeTransientThinking = True, to_transientThinkingAfterSeq = Fin 1\<rparr> sample_timeline)
   \<and> map (\<lambda>e. dot e ''type'') (compactChatTimelineEvents \<lparr>to_includeTransientThinking = True, to_transientThinkingAfterSeq = Fin 1\<rparr> sample_timeline)
     = [jlit ''user.message'', jlit ''runtime.thinking'', jlit ''agent.message'']"
proof
  have "sample_event 4 ''agent.message'' \<in> set sample_timeline \<and> event_is (sample_event 4 ''agent.message'') ''agent.message''"
    by code_simp
  then show "sample_event 4 ''agent.message''
     \<in> set (compactChatTimelineEvents \<lparr>to_includeTransientThinking = True, to_transientThinkingAfterSeq = Fin 1\<rparr> sample_timeline)"
    using timeline_keeps_conversation by blast
qed code_simp

section \<open>Every file is in its folder\<close>

fun tree_paths :: "artifact_tree \<Rightarrow> (jstring list \<times> jsval \<times> jstring) list" where
  "tree_paths (Tree folders files) =
     map (\<lambda>f. ([], f)) files @ concat (map (\<lambda>(d, t). map (\<lambda>(p, f). (d # p, f)) (tree_paths t)) folders)"

fun tree_ok :: "artifact_tree \<Rightarrow> bool" where
  "tree_ok (Tree folders files) \<longleftrightarrow> map_ok folders \<and> list_all (\<lambda>(d, t). tree_ok t) folders"

lemma tree_add_ok:
  "tree_ok t \<Longrightarrow> tree_ok (tree_add ds fl t) \<and> mset (tree_paths (tree_add ds fl t)) = add_mset (ds, fl) (mset (tree_paths t))"
proof (induction ds fl t rule: tree_add.induct)
  case (2 d ds fl folders files)
  let ?t = "case map_get folders d of None \<Rightarrow> Tree [] [] | Some t \<Rightarrow> t"
  have ok: "map_ok folders" using "2.prems" by simp
  have "tree_ok ?t"
    using "2.prems" by (auto simp: list_all_iff map_ok_def split: option.splits dest!: map_get_in_set)
  note new = "2.IH" [OF this]
  show ?case
  proof (cases "map_get folders d")
    case None
    then have "map_set folders d (tree_add ds fl ?t) = folders @ [(d, tree_add ds fl ?t)]"
      by (simp add: map_set_def map_has_iff)
    moreover have "map_ok (folders @ [(d, tree_add ds fl ?t)])"
      using jsmap.ok_put [OF ok, of d "tree_add ds fl ?t"] calculation by simp
    ultimately show ?thesis using "2.prems" new None by simp
  next
    case (Some t)
    obtain l r where s: "folders = l @ (d, t) # r" "\<And>v. map_set folders d v = l @ (d, v) # r"
      using map_split [OF ok Some] by metis
    have "map_ok (l @ (d, tree_add ds fl t) # r)" using jsmap.ok_put [OF ok, of d "tree_add ds fl t"] s(2) by simp
    then show ?thesis using "2.prems" new Some s by simp
  qed
qed simp

text \<open>The tree of files holds every artifact exactly once, in the folder of its path, and no folder lists a name twice.\<close>

theorem tree_holds_artifacts:
  "tree_ok (buildArtifactTree artifacts)
   \<and> mset (tree_paths (buildArtifactTree artifacts))
     = mset (map (\<lambda>a. (butlast (artifactPathParts a), a, last (artifactPathParts a))) artifacts)"
  unfolding buildArtifactTree_def
proof (induction artifacts rule: rev_induct)
  case (snoc a artifacts)
  then show ?case by (simp add: add_artifact_def Let_def tree_add_ok)
qed simp

section \<open>The banner\<close>

text \<open>Open approvals come first, then a failure; after the turn ended there is no progress to report.\<close>

lemma signal_approval: "so_interventions opts \<noteq> [] \<Longrightarrow> \<exists>s. turnSignal events opts = Some s \<and> sg_kind s = Approval"
  by (simp add: turnSignal_def approval_signal_def Let_def)

lemma signal_failure:
  assumes "so_interventions opts = []" "e \<in> set events" "num_less (so_sinceSeq opts) (event_seq e)" "failure_event e"
  shows "\<exists>s. turnSignal events opts = Some s \<and> sg_kind s = SignalError \<and> sg_detail s \<noteq> []"
proof -
  have "latest_event failure_event (filter (\<lambda>e. num_less (so_sinceSeq opts) (event_seq e)) events) \<noteq> None"
    using assms(2-4) by (auto simp: latest_event_def find_None_iff)
  moreover have "fp_detail (runtimeFailurePresentation v) \<noteq> []" for v using failure_detail [of v] .
  ultimately show ?thesis using assms(1) by (auto simp: turnSignal_def Let_def)
qed

lemma signal_idle:
  assumes "turnSignal events opts = Some s" "sg_kind s = Thinking"
  shows "so_sessionStatus opts \<noteq> jlit ''idle'' \<and> so_sessionStatus opts \<noteq> jlit ''terminated''
    \<and> latest_event (\<lambda>e. event_is e ''session.status_idle'') (filter (\<lambda>e. num_less (so_sinceSeq opts) (event_seq e)) events) = None"
  using assms by (auto simp: turnSignal_def approval_signal_def Let_def split: if_splits option.splits)

text \<open>The shortened text may be two characters longer than the bound.\<close>

lemma shortText_length: "0 < n \<Longrightarrow> length (shortText v n) \<le> n + 2"
  by (auto simp: shortText_def Let_def lit_def)

lemma latest_status_of_last:
  "sessionStatusFromEvent e \<noteq> [] \<Longrightarrow> latestSessionStatus (es @ [e]) fallback = sessionStatusFromEvent e"
  "sessionStatusFromEvent e = [] \<Longrightarrow> latestSessionStatus (es @ [e]) fallback = latestSessionStatus es fallback"
  by (simp_all add: latestSessionStatus_def)

end
