(* ===== verification/SDK_Requests.thy ===== *)
theory SDK_Requests
  imports Event_Stream JS_URI "HOL-Library.Monad_Syntax"
begin

text \<open>
  How the services of the SDK build requests (\<open>sdk/typescript/src/services/base.ts\<close>): \<open>resourcePath\<close> puts encoded ids behind a path, \<open>withQuery\<close>
  appends the values that are given. A call is what a service hands to the transport: method, path, body and headers, and which part of the
  answer it returns; \<open>None\<close> is the \<open>URIError\<close> of \<open>encodeURIComponent\<close> on an id with a lone surrogate. The signal that every method takes
  is handed on to \<open>fetch\<close> and is left out.

  The other side of a request is \<open>targets\<close>: the names a server finds in the path, after the URL parser has cut off the query and removed
  dot segments. The relation \<open>reaches\<close> is kept by every way a path is built, so the services need only its rules.
\<close>

section \<open>Paths and queries\<close>

definition strip_slash :: "jstring \<Rightarrow> jstring" where
  "strip_slash s = (if s \<noteq> [] \<and> last s = 47 then butlast s else s)"

definition resourcePath :: "jstring \<Rightarrow> jsval list \<Rightarrow> jstring option" where
  "resourcePath base ids = map_option (\<lambda>es. join (lit ''/'') (strip_slash base # es)) (those (map (\<lambda>i. encodeURIComponent (to_str i)) ids))"

text \<open>\<open>URLSearchParams\<close>: the serializer of form data. A text becomes a sequence of scalar values first, in which a lone surrogate is replaced.\<close>

fun scalar_values :: "jstring \<Rightarrow> int list" where
  "scalar_values [] = []"
| "scalar_values (c # s) =
     (if high_surrogate c
      then (case s of
          [] \<Rightarrow> [65533]
        | d # s' \<Rightarrow> if low_surrogate d then (65536 + 1024 * (c - 55296) + (d - 56320)) # scalar_values s' else 65533 # scalar_values s)
      else (if low_surrogate c then 65533 else c) # scalar_values s)"

definition form_plain :: "int \<Rightarrow> bool" where
  "form_plain c \<longleftrightarrow> is_digit c \<or> is_lower c \<or> is_upper c \<or> c \<in> set [42, 45, 46, 95]"

definition form_unit :: "int \<Rightarrow> jstring" where
  "form_unit v = (if v = 32 then [43] else if form_plain v then [v] else percent_utf8 v)"

definition form_encode :: "jstring \<Rightarrow> jstring" where
  "form_encode s = concat (map form_unit (scalar_values s))"

type_synonym search_params = "(jstring \<times> jstring) list"

definition params_append :: "search_params \<Rightarrow> jstring \<Rightarrow> jstring \<Rightarrow> search_params" where
  "params_append ps name v = ps @ [(name, v)]"

text \<open>\<open>set\<close> is the update of a map as long as no name has been appended twice, as everywhere in the services.\<close>

definition params_set :: "search_params \<Rightarrow> jstring \<Rightarrow> jstring \<Rightarrow> search_params" where
  "params_set ps name v = map_set ps name v"

definition params_string :: "search_params \<Rightarrow> jstring" where
  "params_string ps = join (lit ''&'') (map (\<lambda>(name, v). form_encode name @ [61] @ form_encode v) ps)"

definition query_params :: "(jstring \<times> jsval) list \<Rightarrow> search_params" where
  "query_params values = foldl (\<lambda>ps (key, v). if v = JUndef \<or> v = JStr [] then ps else params_set ps key (to_str v)) [] values"

definition withQuery :: "jstring \<Rightarrow> (jstring \<times> jsval) list \<Rightarrow> jstring" where
  "withQuery path values = (let encoded = params_string (query_params values) in if encoded \<noteq> [] then path @ [63] @ encoded else path)"

definition fields_of :: "(string \<times> jsval) list \<Rightarrow> (jstring \<times> jsval) list" where
  "fields_of values = map (\<lambda>(k, v). (lit k, v)) values"

definition own_fields :: "jsval \<Rightarrow> (jstring \<times> jsval) list" where
  "own_fields v = (case v of JObj _ kvs \<Rightarrow> kvs | _ \<Rightarrow> [])"

text \<open>The expressions the services build paths with: a template that puts a fixed text behind a path, ids behind a path, one id that is encoded in
  place, and a query.\<close>

definition below :: "jstring option \<Rightarrow> string \<Rightarrow> jstring option" where
  "below path s = map_option (\<lambda>p. p @ lit s) path"

definition resource_below :: "jstring option \<Rightarrow> jsval list \<Rightarrow> jstring option" where
  "resource_below path ids = path \<bind> (\<lambda>p. resourcePath p ids)"

definition encoded_below :: "jstring option \<Rightarrow> string \<Rightarrow> jstring \<Rightarrow> jstring option" where
  "encoded_below path s i = path \<bind> (\<lambda>p. map_option (\<lambda>e. p @ lit s @ e) (encodeURIComponent i))"

definition with_query :: "jstring option \<Rightarrow> (string \<times> jsval) list \<Rightarrow> jstring option" where
  "with_query path values = map_option (\<lambda>p. withQuery p (fields_of values)) path"

definition with_params :: "jstring option \<Rightarrow> search_params \<Rightarrow> jstring option" where
  "with_params path params = map_option (\<lambda>p. if params = [] then p else p @ [63] @ params_string params) path"

section \<open>Calls\<close>

text \<open>\<open>requestJSON\<close> and \<open>request\<close> of the transport, and the two streams.\<close>

datatype call_kind = JSONCall | PlainCall | EventCall | LiveCall

text \<open>The body of an upload is a form. The bytes of a file are not looked at: a file is a number that stands for them, with the type it declares.\<close>

datatype form_value = FormText jstring | FormFile nat jstring jstring

record upload_file =
  uf_body :: nat
  uf_body_type :: jstring
  uf_filename :: jstring
  uf_contentType :: "jstring option"

definition upload_form :: "(jstring \<times> jstring) list \<Rightarrow> upload_file \<Rightarrow> (jstring, form_value) jmap" where
  "upload_form parts f =
     (let form = foldl (\<lambda>m (k, v). map_set m k (FormText v)) [] parts;
          type = (case uf_contentType f of Some t \<Rightarrow> if t \<noteq> [] \<and> t \<noteq> uf_body_type f then to_lower t else uf_body_type f | None \<Rightarrow> uf_body_type f) in
      map_set form (lit ''file'') (FormFile (uf_body f) type (uf_filename f)))"

record api_call =
  ac_kind :: call_kind
  ac_method :: jstring
  ac_path :: jstring
  ac_body :: jsval
  ac_form :: "(jstring, form_value) jmap option"
  ac_headers :: "(jstring \<times> jstring) list"
  ac_field :: "string option"

definition call :: "call_kind \<Rightarrow> string \<Rightarrow> jstring \<Rightarrow> jsval \<Rightarrow> (jstring \<times> jstring) list \<Rightarrow> string option \<Rightarrow> api_call" where
  "call kind method path body hs field =
     \<lparr>ac_kind = kind, ac_method = lit method, ac_path = path, ac_body = body, ac_form = None, ac_headers = hs, ac_field = field\<rparr>"

definition json_call :: "string \<Rightarrow> jstring option \<Rightarrow> jsval \<Rightarrow> api_call option" where
  "json_call method path body = map_option (\<lambda>p. call JSONCall method p body [] None) path"

definition json_field :: "string \<Rightarrow> jstring option \<Rightarrow> jsval \<Rightarrow> string \<Rightarrow> api_call option" where
  "json_field method path body field = map_option (\<lambda>p. call JSONCall method p body [] (Some field)) path"

definition json_call_with :: "string \<Rightarrow> jstring option \<Rightarrow> jsval \<Rightarrow> (jstring \<times> jstring) list \<Rightarrow> api_call option" where
  "json_call_with method path body hs = map_option (\<lambda>p. call JSONCall method p body hs None) path"

definition plain_call :: "string \<Rightarrow> jstring option \<Rightarrow> jsval \<Rightarrow> (jstring \<times> jstring) list \<Rightarrow> api_call option" where
  "plain_call method path body hs = map_option (\<lambda>p. call PlainCall method p body hs None) path"

definition form_call :: "string \<Rightarrow> jstring option \<Rightarrow> (jstring, form_value) jmap \<Rightarrow> api_call option" where
  "form_call method path form = map_option (\<lambda>p. (call PlainCall method p JUndef [] None)\<lparr>ac_form := Some form\<rparr>) path"

definition stream_call :: "call_kind \<Rightarrow> jstring option \<Rightarrow> api_call option" where
  "stream_call kind path = map_option (\<lambda>p. call kind ''GET'' p JUndef [] None) path"

definition if_match :: "jsnum \<Rightarrow> (jstring \<times> jstring) list" where
  "if_match revision = [(lit ''If-Match'', [34] @ num_str revision @ [34])]"

definition no_body :: jsval where
  "no_body = jobj []"

text \<open>Default parameters: they stand for a missing argument, not for \<open>null\<close>.\<close>

definition default_body :: "jsval \<Rightarrow> jsval" where
  "default_body v = (if v = JUndef then no_body else v)"

definition default_text :: "jsval \<Rightarrow> string \<Rightarrow> jsval" where
  "default_text v s = (if v = JUndef then jlit s else v)"

text \<open>What a service returns for a JSON call: the answer, or a field of it; reading a field of \<open>undefined\<close> or \<open>null\<close> throws.\<close>

datatype call_result = CallRefused api_error | CallValue jsval | CallThrows

definition call_answer :: "api_call \<Rightarrow> json_result \<Rightarrow> call_result" where
  "call_answer c r = (case r of
       Refused e \<Rightarrow> CallRefused e
     | NotJSON \<Rightarrow> CallThrows
     | NoContent \<Rightarrow> (if ac_field c = None then CallValue JUndef else CallThrows)
     | Decoded v \<Rightarrow> (case ac_field c of None \<Rightarrow> CallValue v
         | Some k \<Rightarrow> if v = JUndef \<or> v = JNull then CallThrows else CallValue (dot v k)))"

definition perform_call :: "(sdk_request \<Rightarrow> response) \<Rightarrow> transport \<Rightarrow> api_call \<Rightarrow> call_result" where
  "perform_call server tr c = call_answer c (requestJSON server tr (ac_method c) (ac_path c) (ac_body c) (ac_headers c))"

section \<open>What a server reads\<close>

text \<open>The path of a URL is what stands before the query and the fragment. The URL parser removes the segment \<open>.\<close> and lets \<open>..\<close> remove the one before it.\<close>

definition path_part :: "jstring \<Rightarrow> jstring" where
  "path_part s = takeWhile (\<lambda>c. c \<noteq> 63 \<and> c \<noteq> 35) s"

fun remove_dots :: "jstring list \<Rightarrow> jstring list \<Rightarrow> jstring list" where
  "remove_dots acc [] = rev acc"
| "remove_dots acc (s # ss) =
     (if s = [46, 46] then (if ss = [] then rev ([] # tl acc) else remove_dots (tl acc) ss)
      else if s = [46] then (if ss = [] then rev ([] # acc) else remove_dots acc ss)
      else remove_dots (s # acc) ss)"

definition path_segments :: "jstring \<Rightarrow> jstring list" where
  "path_segments s = remove_dots [] (tl (split_on 47 (path_part s)))"

definition targets :: "jstring \<Rightarrow> jstring list option" where
  "targets s = those (map decodeURIComponent (path_segments s))"

text \<open>The pairs a server finds in the query.\<close>

definition form_decode :: "jstring \<Rightarrow> jstring option" where
  "form_decode s = decodeURIComponent (replace_char 43 32 s)"

definition pair_of :: "jstring \<Rightarrow> (jstring \<times> jstring) option" where
  "pair_of s = do {
     name \<leftarrow> form_decode (takeWhile (\<lambda>c. c \<noteq> 61) s);
     v \<leftarrow> form_decode (drop 1 (dropWhile (\<lambda>c. c \<noteq> 61) s));
     Some (name, v) }"

definition query_of :: "jstring \<Rightarrow> (jstring \<times> jstring) list option" where
  "query_of s = (case drop 1 (dropWhile (\<lambda>c. c \<noteq> 63) s) of [] \<Rightarrow> Some [] | q \<Rightarrow> those (map pair_of (split_on 38 q)))"

section \<open>Paths that reach a resource\<close>

definition name_ok :: "jstring \<Rightarrow> bool" where
  "name_ok s \<longleftrightarrow> code_units s \<and> encodeURIComponent s \<noteq> None \<and> s \<noteq> [] \<and> s \<noteq> [46] \<and> s \<noteq> [46, 46]"

definition plain_segment :: "jstring \<Rightarrow> bool" where
  "plain_segment e \<longleftrightarrow> e \<noteq> [] \<and> e \<noteq> [46] \<and> e \<noteq> [46, 46] \<and> list_all (\<lambda>c. c \<noteq> 47 \<and> c \<noteq> 63 \<and> c \<noteq> 35) e"

definition slashed :: "jstring list \<Rightarrow> jstring" where
  "slashed es = concat (map (\<lambda>e. 47 # e) es)"

definition reaches :: "jstring \<Rightarrow> jstring list \<Rightarrow> bool" where
  "reaches p names \<longleftrightarrow> (let es = tl (split_on 47 p) in
     p = slashed es \<and> list_all plain_segment es \<and> those (map decodeURIComponent es) = Some names)"

lemma split_slashed: "list_all plain_segment es \<Longrightarrow> split_on 47 (slashed es) = [] # es"
proof (induction es)
  case (Cons e es)
  then have "47 \<notin> set e" by (auto simp: plain_segment_def list_all_iff)
  moreover have "split_on 47 (slashed (e # es)) = [] # split_on 47 (e @ slashed es)" by (simp add: slashed_def)
  ultimately show ?case using Cons by (cases es) (auto simp: slashed_def split_on_append split_on_single)
qed (simp add: slashed_def)

lemma reachesI: "list_all plain_segment es \<Longrightarrow> those (map decodeURIComponent es) = Some names \<Longrightarrow> reaches (slashed es) names"
  by (simp add: reaches_def split_slashed)

lemma reachesE:
  assumes "reaches p names"
  obtains es where "p = slashed es" "list_all plain_segment es" "those (map decodeURIComponent es) = Some names"
  using assms by (auto simp: reaches_def Let_def)

lemma those_append: "those (xs @ ys) = (case (those xs, those ys) of (Some a, Some b) \<Rightarrow> Some (a @ b) | _ \<Rightarrow> None)"
  by (induction xs) (auto split: option.splits)

lemma reaches_append: "reaches p a \<Longrightarrow> reaches q b \<Longrightarrow> reaches (p @ q) (a @ b)"
proof (elim reachesE)
  fix es fs
  assume "p = slashed es" "list_all plain_segment es" "those (map decodeURIComponent es) = Some a"
    "q = slashed fs" "list_all plain_segment fs" "those (map decodeURIComponent fs) = Some b"
  then show "reaches (p @ q) (a @ b)" using reachesI [of "es @ fs" "a @ b"] by (simp add: slashed_def those_append)
qed

text \<open>Characters that separate the parts of a URL never come out of an encoder.\<close>

definition separator :: "int \<Rightarrow> bool" where
  "separator c \<longleftrightarrow> c \<in> set [47, 63, 35, 38, 61, 43]"

lemma percent_plain: "0 \<le> b \<Longrightarrow> list_all (\<lambda>c. \<not> separator c) (percent b)"
proof -
  have "0 \<le> n \<Longrightarrow> \<not> separator (hex_digit n)" for n by (auto simp: hex_digit_def separator_def)
  then show "0 \<le> b \<Longrightarrow> list_all (\<lambda>c. \<not> separator c) (percent b)" by (simp add: percent_def) (simp add: separator_def)
qed

lemma percent_utf8_plain: "0 \<le> v \<Longrightarrow> list_all (\<lambda>c. \<not> separator c) (percent_utf8 v)"
  by (simp add: percent_utf8_def percent_plain)

lemma encode_plain: "code_units s \<Longrightarrow> encodeURIComponent s = Some e \<Longrightarrow> list_all (\<lambda>c. \<not> separator c) e"
proof (induction s arbitrary: e rule: encodeURIComponent.induct)
  case (2 c s)
  have "uri_unreserved c \<Longrightarrow> \<not> separator c"
    by (auto simp: uri_unreserved_def is_digit_def is_lower_def is_upper_def separator_def)
  moreover have "0 \<le> c" "code_units s" "\<And>d s'. s = d # s' \<Longrightarrow> code_units s' \<and> 0 \<le> d" using 2(4) by (auto simp: code_units_def)
  moreover have "high_surrogate c \<Longrightarrow> low_surrogate d \<Longrightarrow> 0 \<le> 65536 + 1024 * (c - 55296) + (d - 56320)" for d
    by (simp add: high_surrogate_def low_surrogate_def)
  ultimately show ?case using 2 percent_utf8_plain by (fastforce split: if_splits list.splits)
qed simp

lemma encode_segment:
  assumes "name_ok s" "encodeURIComponent s = Some e"
  shows "plain_segment e"
proof -
  have dec: "decodeURIComponent e = Some s" using assms uri_roundtrip by (simp add: name_ok_def)
  have "decodeURIComponent [46] = Some [46]" "decodeURIComponent [46, 46] = Some [46, 46]" by code_simp+
  with dec have "e \<noteq> []" "e \<noteq> [46]" "e \<noteq> [46, 46]" using assms(1) by (auto simp: name_ok_def)
  moreover have "list_all (\<lambda>c. \<not> separator c) e" using assms(1) encode_plain [OF _ assms(2)] by (simp add: name_ok_def)
  ultimately show ?thesis by (auto simp: plain_segment_def separator_def list_all_iff)
qed

lemma encode_segments:
  assumes "list_all (\<lambda>i. name_ok (to_str i)) ids" "those (map (\<lambda>i. encodeURIComponent (to_str i)) ids) = Some es"
  shows "list_all plain_segment es \<and> those (map decodeURIComponent es) = Some (map to_str ids)"
  using assms
proof (induction ids arbitrary: es)
  case (Cons i ids)
  then obtain e fs where e: "encodeURIComponent (to_str i) = Some e" "those (map (\<lambda>i. encodeURIComponent (to_str i)) ids) = Some fs" "es = e # fs"
    by (auto split: option.splits)
  moreover have "decodeURIComponent e = Some (to_str i)" using Cons.prems(1) e(1) uri_roundtrip by (simp add: name_ok_def)
  moreover have "plain_segment e" using Cons.prems(1) encode_segment [OF _ e(1)] by simp
  ultimately show ?case using Cons by simp
qed simp

lemma join_slashed: "join (lit ''/'') (b # es) = b @ slashed es"
proof (induction es arbitrary: b)
  case (Cons e es)
  show ?case using Cons.IH [of e] by (simp add: slashed_def lit_def)
qed (simp add: slashed_def)

lemma strip_slash_reaches: "reaches p names \<Longrightarrow> strip_slash p = p"
proof (elim reachesE)
  fix es assume p: "p = slashed es" "list_all plain_segment es"
  show "strip_slash p = p"
  proof (cases es rule: rev_cases)
    case (snoc fs e)
    then have "e \<noteq> []" "last e \<noteq> 47" using p(2) last_in_set [of e] by (auto simp: plain_segment_def list_all_iff)
    then show ?thesis using p(1) snoc by (simp add: slashed_def strip_slash_def)
  qed (simp add: p(1) slashed_def strip_slash_def)
qed

theorem resource_reached:
  assumes "reaches base names" "list_all (\<lambda>i. name_ok (to_str i)) ids" "resourcePath base ids = Some p"
  shows "reaches p (names @ map to_str ids)"
proof -
  obtain es where es: "those (map (\<lambda>i. encodeURIComponent (to_str i)) ids) = Some es" "p = base @ slashed es"
    using assms(1,3) strip_slash_reaches by (auto simp: resourcePath_def join_slashed)
  then show ?thesis using reaches_append [OF assms(1)] reachesI encode_segments [OF assms(2) es(1)] by simp
qed

lemma remove_dots_plain: "list_all plain_segment es \<Longrightarrow> remove_dots acc es = rev acc @ es"
  by (induction es arbitrary: acc) (auto simp: plain_segment_def)

lemma path_part_slashed:
  assumes "list_all plain_segment es" "r = [] \<or> hd r = 63"
  shows "path_part (slashed es @ r) = slashed es"
proof -
  have "list_all (\<lambda>c. c \<noteq> 63 \<and> c \<noteq> 35) (slashed es)"
    using assms(1) by (auto simp: slashed_def plain_segment_def list_all_iff)
  then have "path_part (slashed es @ r) = slashed es @ path_part r" by (simp add: path_part_def list_all_iff takeWhile_append)
  moreover have "path_part r = []" using assms(2) by (cases r) (auto simp: path_part_def)
  ultimately show ?thesis by simp
qed

text \<open>What is reached is what a server reads, with or without a query.\<close>

lemma reaches_targets:
  assumes "reaches p names" "r = [] \<or> hd r = 63"
  shows "targets (p @ r) = Some names"
proof -
  obtain es where es: "p = slashed es" "list_all plain_segment es" "those (map decodeURIComponent es) = Some names"
    using assms(1) by (rule reachesE)
  then show ?thesis using path_part_slashed [OF es(2) assms(2)]
    by (simp add: targets_def path_segments_def split_slashed remove_dots_plain)
qed

lemma targets_query: "reaches p names \<Longrightarrow> targets (withQuery p values) = Some names"
  using reaches_targets [of p names "[]"] reaches_targets [of p names "63 # params_string (query_params values)"]
  by (simp add: withQuery_def Let_def)

section \<open>Queries are read back\<close>

text \<open>A text without lone surrogates.\<close>

definition well_formed :: "jstring \<Rightarrow> bool" where
  "well_formed s \<longleftrightarrow> code_units s \<and> encodeURIComponent s \<noteq> None"

lemma form_plain_separator: "form_plain v \<Longrightarrow> \<not> separator v"
  by (auto simp: form_plain_def is_digit_def is_lower_def is_upper_def separator_def)

lemma form_unit_plain: "0 \<le> v \<Longrightarrow> list_all (\<lambda>c. separator c \<longrightarrow> c = 43) (form_unit v)"
  using percent_utf8_plain [of v] form_plain_separator [of v] by (simp add: form_unit_def list_all_iff)

lemma pair_value_nonneg: "high_surrogate c \<Longrightarrow> low_surrogate d \<Longrightarrow> 0 \<le> 65536 + 1024 * (c - 55296) + (d - 56320)"
  by (simp add: high_surrogate_def low_surrogate_def)

lemma scalar_values_nonneg: "code_units s \<Longrightarrow> list_all (\<lambda>v. 0 \<le> v) (scalar_values s)"
proof (induction s rule: scalar_values.induct)
  case (2 c s)
  have "0 \<le> c" "code_units s" "\<And>d s'. s = d # s' \<Longrightarrow> code_units s'" using 2(4) by (simp_all add: code_units_def)
  then show ?case using 2(1-3) pair_value_nonneg [of c]
    by (cases "high_surrogate c"; cases s; cases "low_surrogate (hd s)") (auto simp del: scalar_values.simps(2) simp: scalar_values.simps(2) [of c])
qed simp

lemma form_encode_plain: "code_units s \<Longrightarrow> list_all (\<lambda>c. separator c \<longrightarrow> c = 43) (form_encode s)"
  using scalar_values_nonneg [of s] form_unit_plain by (fastforce simp: form_encode_def list_all_iff)

lemma separator_plus [simp]: "separator 43"
  by (simp add: separator_def)

lemma replace_char_absent: "a \<notin> set s \<Longrightarrow> replace_char a b s = s"
  unfolding replace_char_def by (rule map_idI) auto

lemma no_plus_percent: "0 \<le> v \<Longrightarrow> replace_char 43 32 (percent_utf8 v) = percent_utf8 v"
  using percent_utf8_plain [of v] separator_plus by (blast intro: replace_char_absent dest: list_all_iff [THEN iffD1])

lemma replace_char_append: "replace_char a b (s @ t) = replace_char a b s @ replace_char a b t"
  by (simp add: replace_char_def)

lemma form_decode_unit:
  assumes "0 \<le> v" "v < 1114112" "\<not> (55296 \<le> v \<and> v \<le> 57343)"
  shows "form_decode (form_unit v @ r) = map_option (\<lambda>t. the (code_point 0 v) @ t) (form_decode r)"
proof (cases "v = 32 \<or> form_plain v")
  case True
  then have "v < 128" "v \<noteq> 37" "v \<noteq> 43" using assms(1) by (auto simp: form_plain_def is_digit_def is_lower_def is_upper_def)
  then show ?thesis using True assms(1)
    by (cases "form_decode r") (auto simp: form_decode_def form_unit_def replace_char_def code_point_def)
next
  case False
  then show ?thesis using utf8_sequence_percent [OF assms]
    by (simp add: form_decode_def form_unit_def replace_char_append no_plus_percent assms(1))
qed

theorem form_roundtrip: "code_units s \<Longrightarrow> encodeURIComponent s \<noteq> None \<Longrightarrow> form_decode (form_encode s) = Some s"
proof (induction s rule: encodeURIComponent.induct)
  case 1
  show ?case by code_simp
next
  case (2 c s)
  consider (pair) d s' where "high_surrogate c" "s = d # s'" "low_surrogate d" "encodeURIComponent s' \<noteq> None"
    | (one) "\<not> low_surrogate c" "\<not> high_surrogate c" "encodeURIComponent s \<noteq> None"
    using 2(5) by (auto simp: uri_unreserved_def is_digit_def is_lower_def is_upper_def high_surrogate_def low_surrogate_def split: if_splits list.splits)
  then show ?case
  proof cases
    case pair
    then have u: "\<not> uri_unreserved c" "\<not> low_surrogate c"
      by (auto simp: uri_unreserved_def is_digit_def is_lower_def is_upper_def high_surrogate_def low_surrogate_def)
    have "form_decode (form_encode s') = Some s'" using 2(2) [OF u pair(1-3)] 2(4) pair by (simp add: code_units_def)
    moreover have "0 \<le> 65536 + 1024 * (c - 55296) + (d - 56320)" "65536 + 1024 * (c - 55296) + (d - 56320) < 1114112"
      "\<not> (55296 \<le> 65536 + 1024 * (c - 55296) + (d - 56320) \<and> 65536 + 1024 * (c - 55296) + (d - 56320) \<le> 57343)"
      using pair by (auto simp: high_surrogate_def low_surrogate_def)
    note form_decode_unit [OF this]
    ultimately show ?thesis using pair surrogate_pair [OF pair(1,3)] by (simp add: form_encode_def)
  next
    case one
    have "form_decode (form_encode s) = Some s"
      using 2(1,3) one 2(4) by (cases "uri_unreserved c") (auto simp: code_units_def)
    moreover have "0 \<le> c" "c < 1114112" "\<not> (55296 \<le> c \<and> c \<le> 57343)"
      using 2(4) one by (auto simp: code_units_def high_surrogate_def low_surrogate_def)
    note form_decode_unit [OF this]
    moreover have "the (code_point 0 c) = [c]"
      using 2(4) one by (auto simp: code_units_def code_point_def high_surrogate_def low_surrogate_def)
    ultimately show ?thesis using one by (simp add: form_encode_def)
  qed
qed

lemma form_encode_no: "code_units s \<Longrightarrow> separator c \<Longrightarrow> c \<noteq> 43 \<Longrightarrow> c \<notin> set (form_encode s)"
  using form_encode_plain [of s] by (auto simp: list_all_iff)

lemma separator_query [simp]: "separator 63" "separator 38" "separator 61"
  by (simp_all add: separator_def)

definition pair_text :: "jstring \<times> jstring \<Rightarrow> jstring" where
  "pair_text kv = form_encode (fst kv) @ [61] @ form_encode (snd kv)"

definition pair_ok :: "jstring \<times> jstring \<Rightarrow> bool" where
  "pair_ok kv \<longleftrightarrow> well_formed (fst kv) \<and> well_formed (snd kv)"

lemma takeWhile_until: "c \<notin> set a \<Longrightarrow> takeWhile (\<lambda>x. x \<noteq> c) (a @ c # b) = a \<and> dropWhile (\<lambda>x. x \<noteq> c) (a @ c # b) = c # b"
  by (induction a) auto

lemma pair_of_text: "pair_ok kv \<Longrightarrow> pair_of (pair_text kv) = Some kv"
proof -
  assume "pair_ok kv"
  then have r: "form_decode (form_encode (fst kv)) = Some (fst kv)" "form_decode (form_encode (snd kv)) = Some (snd kv)"
    "61 \<notin> set (form_encode (fst kv))"
    using form_encode_no [of "fst kv" 61] by (auto simp: pair_ok_def well_formed_def form_roundtrip)
  then show ?thesis using takeWhile_until [OF r(3), of "form_encode (snd kv)"] by (simp add: pair_of_def pair_text_def)
qed

lemma split_pairs:
  assumes "ps \<noteq> []" "list_all pair_ok ps"
  shows "split_on 38 (params_string ps) = map pair_text ps"
proof -
  have no: "38 \<notin> set (pair_text kv)" if "kv \<in> set ps" for kv
    using that assms(2) form_encode_no [of "fst kv" 38] form_encode_no [of "snd kv" 38]
    by (auto simp: pair_text_def pair_ok_def well_formed_def list_all_iff)
  have "ts \<noteq> [] \<Longrightarrow> \<forall>t \<in> set ts. 38 \<notin> set t \<Longrightarrow> split_on 38 (join (lit ''&'') ts) = ts" for ts
    by (induction "lit ''&''" ts rule: join.induct) (auto simp: lit_def split_on_single split_on_append)
  moreover have "params_string ps = join (lit ''&'') (map pair_text ps)" unfolding params_string_def by (rule arg_cong [where f = "join (lit ''&'')"]) (auto simp: pair_text_def)
  ultimately show ?thesis using assms(1) no by simp
qed

lemma those_pairs: "list_all pair_ok ps \<Longrightarrow> those (map pair_of (map pair_text ps)) = Some ps"
  by (induction ps) (simp_all add: pair_of_text)

text \<open>The values that are given, as texts.\<close>

definition given_values :: "(jstring \<times> jsval) list \<Rightarrow> (jstring \<times> jstring) list" where
  "given_values values = map (\<lambda>(k, v). (k, to_str v)) (filter (\<lambda>(k, v). v \<noteq> JUndef \<and> v \<noteq> JStr []) values)"

lemma query_params_given: "distinct (map fst vs) \<Longrightarrow> query_params vs = given_values vs"
proof (induction vs rule: rev_induct)
  case (snoc kv vs)
  moreover have "fst ` set (given_values vs) \<subseteq> fst ` set vs" by (force simp: given_values_def)
  then have "\<not> map_has (given_values vs) (fst kv)" using snoc.prems by (auto simp: map_has_def)
  ultimately show ?case by (simp add: query_params_def given_values_def params_set_def map_set_def case_prod_beta')
qed (simp add: query_params_def given_values_def)

lemma slashed_no_query: "reaches p names \<Longrightarrow> 63 \<notin> set p"
  by (elim reachesE) (auto simp: slashed_def plain_segment_def list_all_iff)

lemma query_of_text:
  assumes "63 \<notin> set p" "q \<noteq> []"
  shows "query_of (p @ 63 # q) = those (map pair_of (split_on 38 q))"
proof -
  have "drop 1 (dropWhile (\<lambda>c. c \<noteq> 63) (p @ 63 # q)) = q" using takeWhile_until [OF assms(1)] by simp
  then show ?thesis using assms(2) unfolding query_of_def by (cases q) (simp_all del: split_on.simps)
qed

text \<open>A server that reads the query of a request finds exactly the values that were given, in order and unchanged, whatever characters they
  contain; values that are \<open>undefined\<close> or empty are left out. The names must be different, and the texts free of lone surrogates.\<close>

theorem query_read_back:
  assumes "reaches p names" "distinct (map fst values)" "list_all pair_ok (given_values values)"
  shows "query_of (withQuery p values) = Some (given_values values)"
proof (cases "given_values values = []")
  case True
  have "dropWhile (\<lambda>c. c \<noteq> 63) p = []" using slashed_no_query [OF assms(1)] dropWhile_eq_Nil_conv by blast
  then have "drop (Suc 0) (dropWhile (\<lambda>c. c \<noteq> 63) p) = []" by (simp del: dropWhile_eq_Nil_conv)
  then show ?thesis using True assms(2) by (simp add: withQuery_def query_params_given query_of_def params_string_def)
next
  case False
  have "params_string (given_values values) \<noteq> []"
    using False by (cases "given_values values" rule: list.exhaust; cases "tl (given_values values)") (auto simp: params_string_def)
  then show ?thesis using query_of_text [OF slashed_no_query [OF assms(1)]] split_pairs [OF False assms(3)] those_pairs [OF assms(3)] assms(2)
    by (simp add: withQuery_def query_params_given)
qed

theorem query_read_back_witness:
  "query_of (withQuery (lit ''/v2/spans'') [(lit ''q'', JStr (lit ''a&b=c d?/+%'')), (lit ''cursor'', JUndef), (lit ''limit'', JNum (Fin 5))])
     = Some [(lit ''q'', lit ''a&b=c d?/+%''), (lit ''limit'', lit ''5'')]"
proof -
  let ?vs = "[(lit ''q'', JStr (lit ''a&b=c d?/+%'')), (lit ''cursor'', JUndef), (lit ''limit'', JNum (Fin 5))]"
  have "reaches (lit ''/v2/spans'') [lit ''v2'', lit ''spans'']" "distinct (map fst ?vs)" "list_all pair_ok (given_values ?vs)" by code_simp+
  moreover have "given_values ?vs = [(lit ''q'', lit ''a&b=c d?/+%''), (lit ''limit'', lit ''5'')]" by code_simp
  ultimately show ?thesis using query_read_back by metis
qed

section \<open>Where calls go\<close>

text \<open>\<open>fits\<close> is for a path that can be continued, \<open>goes\<close> for one that is complete and may carry a query.\<close>

definition fits :: "jstring option \<Rightarrow> jstring list \<Rightarrow> bool" where
  "fits path names \<longleftrightarrow> (case path of None \<Rightarrow> False | Some p \<Rightarrow> reaches p names)"

definition goes :: "jstring option \<Rightarrow> jstring list \<Rightarrow> bool" where
  "goes path names \<longleftrightarrow> (case path of None \<Rightarrow> False | Some p \<Rightarrow> targets p = Some names)"

lemma resource_exists: "list_all (\<lambda>i. name_ok (to_str i)) ids \<Longrightarrow> \<exists>p. resourcePath base ids = Some p"
proof -
  assume "list_all (\<lambda>i. name_ok (to_str i)) ids"
  then have "\<exists>es. those (map (\<lambda>i. encodeURIComponent (to_str i)) ids) = Some es" by (induction ids) (auto simp: name_ok_def)
  then show ?thesis by (auto simp: resourcePath_def)
qed

lemma fits_text: "reaches (lit s) names \<Longrightarrow> fits (Some (lit s)) names"
  by (simp add: fits_def)

lemma fits_below: "fits path names \<Longrightarrow> reaches (lit s) more' \<Longrightarrow> fits (below path s) (names @ more')"
  by (auto simp: fits_def below_def reaches_append split: option.splits)

lemma fits_resource:
  assumes "fits path names" "list_all (\<lambda>i. name_ok (to_str i)) ids"
  shows "fits (resource_below path ids) (names @ map to_str ids)"
proof -
  obtain p where p: "path = Some p" "reaches p names" using assms(1) by (auto simp: fits_def split: option.splits)
  obtain q where "resourcePath p ids = Some q" using resource_exists [OF assms(2)] by blast
  then show ?thesis using resource_reached [OF p(2) assms(2)] p(1) by (simp add: fits_def resource_below_def)
qed

lemma fits_resourcePath:
  assumes "reaches (lit s) names" "list_all (\<lambda>i. name_ok (to_str i)) ids"
  shows "fits (resourcePath (lit s) ids) (names @ map to_str ids)"
  using fits_resource [OF fits_text [OF assms(1)] assms(2)] by (simp add: resource_below_def)

lemma fits_encoded:
  assumes "fits path names" "reaches (lit s) more'" "name_ok i"
  shows "fits (encoded_below path (s @ ''/'') i) (names @ more' @ [i])"
proof -
  obtain p where p: "path = Some p" "reaches p names" using assms(1) by (auto simp: fits_def split: option.splits)
  obtain e where e: "encodeURIComponent i = Some e" using assms(3) by (auto simp: name_ok_def)
  have "reaches (lit ''/'' @ e) [i]"
    using reachesI [of "[e]" "[i]"] encode_segment [OF assms(3) e] uri_roundtrip [OF _ e] assms(3)
    by (simp add: slashed_def lit_def name_ok_def)
  then show ?thesis using p e assms(2) by (simp add: fits_def encoded_below_def lit_append reaches_append)
qed

lemma fits_goes: "fits path names \<Longrightarrow> goes path names"
  using reaches_targets [of _ names "[]"] by (auto simp: fits_def goes_def split: option.splits)

lemma goes_query: "fits path names \<Longrightarrow> goes (with_query path vs) names"
  using targets_query by (auto simp: fits_def goes_def with_query_def split: option.splits)

lemma goes_own_query: "fits path names \<Longrightarrow> goes (map_option (\<lambda>p. withQuery p vs) path) names"
  using targets_query by (auto simp: fits_def goes_def split: option.splits)

lemma goes_params: "fits path names \<Longrightarrow> goes (with_params path ps) names"
  using reaches_targets [of _ names "[]"] reaches_targets [of _ names "63 # params_string ps"]
  by (auto simp: fits_def goes_def with_params_def split: option.splits)

lemma goes_parameter:
  assumes "fits path names" "encodeURIComponent i \<noteq> None"
  shows "goes (encoded_below path (CHR ''?'' # s) i) names"
proof -
  obtain p where p: "path = Some p" "reaches p names" using assms(1) by (auto simp: fits_def split: option.splits)
  obtain e where "encodeURIComponent i = Some e" using assms(2) by auto
  then show ?thesis using reaches_targets [OF p(2), of "lit (CHR ''?'' # s) @ e"] p(1) by (simp add: goes_def encoded_below_def lit_def)
qed

lemmas fits_rules = fits_text fits_below fits_resource fits_resourcePath fits_encoded

lemmas goes_rules = goes_query goes_own_query goes_params fits_text [THEN fits_goes] fits_below [THEN fits_goes]
  fits_resource [THEN fits_goes] fits_resourcePath [THEN fits_goes] fits_encoded [THEN fits_goes]

end
