(* ===== verification/SDK_Services.thy ===== *)
theory SDK_Services
  imports SDK_Requests
begin

text \<open>
  The services of the SDK (\<open>sdk/typescript/src/services\<close>), one definition for every method: the call it hands to the transport. A method
  \<open>m\<close> of the service that \<open>TMAClient\<close> has as \<open>c\<close> is \<open>c_m\<close>. Ids that the interfaces declare as strings are strings, requests and queries are
  values, an optional argument that is missing is \<open>undefined\<close>.
\<close>

section \<open>\<open>services/sessions.ts\<close>\<close>

definition sessionPath :: "jstring \<Rightarrow> jstring option" where
  "sessionPath sessionId = resourcePath (lit ''/v2/sessions'') [JStr sessionId]"

definition sessions_create :: "jsval \<Rightarrow> api_call option" where
  "sessions_create request = json_call ''POST'' (Some (lit ''/v2/sessions'')) request"

definition sessions_list :: "jsval \<Rightarrow> api_call option" where
  "sessions_list query = json_field ''GET'' (with_query (Some (lit ''/v2/sessions'')) [(''workspace_id'', dot query ''workspaceId''),
     (''app_id'', dot query ''appId''), (''external_ref'', dot query ''externalRef''), (''owner_id'', dot query ''ownerId''),
     (''status'', dot query ''status''), (''include_archived'', jor (dot query ''includeArchived'') JUndef),
     (''limit'', dot query ''limit'')]) JUndef ''sessions''"

definition sessions_get :: "jstring \<Rightarrow> api_call option" where
  "sessions_get sessionId = json_call ''GET'' (sessionPath sessionId) JUndef"

definition sessions_updateMetadata :: "jstring \<Rightarrow> jsval \<Rightarrow> api_call option" where
  "sessions_updateMetadata sessionId request = json_call ''PATCH'' (sessionPath sessionId) request"

definition sessions_delete :: "jstring \<Rightarrow> api_call option" where
  "sessions_delete sessionId = json_call ''DELETE'' (sessionPath sessionId) JUndef"

definition sessions_archive :: "jstring \<Rightarrow> api_call option" where
  "sessions_archive sessionId = json_call ''POST'' (below (sessionPath sessionId) ''/archive'') no_body"

definition sessions_restore :: "jstring \<Rightarrow> api_call option" where
  "sessions_restore sessionId = json_call ''POST'' (below (sessionPath sessionId) ''/restore'') no_body"

definition sessions_rerun :: "jstring \<Rightarrow> jsval \<Rightarrow> api_call option" where
  "sessions_rerun sessionId request = json_call ''POST'' (below (sessionPath sessionId) ''/rerun'') (default_body request)"

definition sessions_upgradeConfig :: "jstring \<Rightarrow> jsval \<Rightarrow> api_call option" where
  "sessions_upgradeConfig sessionId request = json_call ''POST'' (below (sessionPath sessionId) ''/config/upgrade'') request"

definition sessions_compare :: "jstring \<Rightarrow> jstring \<Rightarrow> api_call option" where
  "sessions_compare leftSessionId rightSessionId = json_call ''GET'' (with_query (Some
     (lit ''/v2/session-comparisons'')) [(''left_session_id'', JStr leftSessionId), (''right_session_id'', JStr rightSessionId)]) JUndef"

definition sessions_compareRuns :: "jstring \<Rightarrow> jstring \<Rightarrow> jstring \<Rightarrow> jstring \<Rightarrow> api_call option" where
  "sessions_compareRuns leftSessionId leftTurnId rightSessionId rightTurnId = json_call ''GET'' (with_query (Some
     (lit ''/v2/run-comparisons'')) [(''left_session_id'', JStr leftSessionId), (''left_turn_id'', JStr leftTurnId),
     (''right_session_id'', JStr rightSessionId), (''right_turn_id'', JStr rightTurnId)]) JUndef"

definition sessions_updateRuntimeSettings :: "jstring \<Rightarrow> jsnum \<Rightarrow> jsval \<Rightarrow> api_call option" where
  "sessions_updateRuntimeSettings sessionId expectedRevision request = json_call_with ''PATCH'' (below
     (sessionPath sessionId) ''/runtime-settings'') request (if_match expectedRevision)"

definition sessions_runtimeConfig :: "jstring \<Rightarrow> api_call option" where
  "sessions_runtimeConfig sessionId = json_call ''GET'' (below (sessionPath sessionId) ''/runtime-config'') JUndef"

definition sessions_runtimeCapabilities :: "jstring \<Rightarrow> api_call option" where
  "sessions_runtimeCapabilities sessionId = json_call ''GET'' (below (sessionPath sessionId) ''/runtime-capabilities'') JUndef"

definition sessions_summary :: "jstring \<Rightarrow> api_call option" where
  "sessions_summary sessionId = json_call ''GET'' (below (sessionPath sessionId) ''/summary'') JUndef"

definition sessions_taskPlan :: "jstring \<Rightarrow> api_call option" where
  "sessions_taskPlan sessionId = json_field ''GET'' (below (sessionPath sessionId) ''/task-plan'') JUndef ''plan''"

definition sessions_taskPlans :: "jstring \<Rightarrow> api_call option" where
  "sessions_taskPlans sessionId = json_field ''GET'' (below (sessionPath sessionId) ''/task-plans'') JUndef ''plans''"

definition sessions_usage :: "jstring \<Rightarrow> api_call option" where
  "sessions_usage sessionId = json_call ''GET'' (below (sessionPath sessionId) ''/usage'') JUndef"

definition sessions_listEvents :: "jstring \<Rightarrow> jsnum \<Rightarrow> api_call option" where
  "sessions_listEvents sessionId afterSeq = json_field ''GET'' (with_query (below
     (sessionPath sessionId) ''/events'') [(''after_seq'', if num_less (Fin 0) afterSeq then JNum afterSeq else JUndef)]) JUndef ''events''"

definition sessions_appendEvents :: "jstring \<Rightarrow> jsval \<Rightarrow> api_call option" where
  "sessions_appendEvents sessionId request = json_call ''POST'' (below (sessionPath sessionId) ''/events'') request"

definition sessions_events :: "jstring \<Rightarrow> api_call option" where
  "sessions_events sessionId = stream_call EventCall (below (sessionPath sessionId) ''/events/stream'')"

definition sessions_liveEvents :: "jstring \<Rightarrow> api_call option" where
  "sessions_liveEvents sessionId = stream_call LiveCall (below (sessionPath sessionId) ''/live/stream'')"

section \<open>\<open>services/runs.ts\<close>\<close>

definition runsPath :: "jstring \<Rightarrow> jstring option" where
  "runsPath sessionId = below (sessionPath sessionId) ''/runs''"

definition runPath :: "jstring \<Rightarrow> jstring \<Rightarrow> jstring option" where
  "runPath sessionId runId = resource_below (runsPath sessionId) [JStr runId]"

definition runs_get :: "jstring \<Rightarrow> jstring \<Rightarrow> api_call option" where
  "runs_get sessionId runId = json_call ''GET'' (runPath sessionId runId) JUndef"

definition runs_list :: "jstring \<Rightarrow> api_call option" where
  "runs_list sessionId = json_field ''GET'' (runsPath sessionId) JUndef ''runs''"

definition runs_cancel :: "jstring \<Rightarrow> jstring \<Rightarrow> api_call option" where
  "runs_cancel sessionId runId = json_call ''POST'' (below (runPath sessionId runId) ''/cancel'') no_body"

definition runs_listAttempts :: "jstring \<Rightarrow> jstring \<Rightarrow> api_call option" where
  "runs_listAttempts sessionId runId = json_field ''GET'' (below (runPath sessionId runId) ''/attempts'') JUndef ''attempts''"

definition runs_getAttempt :: "jstring \<Rightarrow> jstring \<Rightarrow> jstring \<Rightarrow> api_call option" where
  "runs_getAttempt sessionId runId attemptId = json_call ''GET'' (resource_below (below
     (runPath sessionId runId) ''/attempts'') [JStr attemptId]) JUndef"

definition runs_listEvents :: "jstring \<Rightarrow> jstring \<Rightarrow> jsnum \<Rightarrow> api_call option" where
  "runs_listEvents sessionId runId afterSeq = json_field ''GET'' (with_query (below
     (runPath sessionId runId) ''/events'') [(''after_seq'', if num_less (Fin 0) afterSeq then JNum afterSeq else JUndef)]) JUndef ''events''"

definition runs_events :: "jstring \<Rightarrow> jstring \<Rightarrow> api_call option" where
  "runs_events sessionId runId = stream_call EventCall (below (runPath sessionId runId) ''/events/stream'')"

definition runs_start :: "jstring \<Rightarrow> jsval \<Rightarrow> api_call option" where
  "runs_start sessionId request = json_call ''POST'' (runsPath sessionId) request"

section \<open>\<open>services/interventions.ts\<close>\<close>

definition interventions_list :: "jstring \<Rightarrow> jsval \<Rightarrow> api_call option" where
  "interventions_list sessionId status = json_field ''GET'' (with_query (below
     (sessionPath sessionId) ''/interventions'') [(''status'', status)]) JUndef ''interventions''"

definition interventions_resolve :: "jstring \<Rightarrow> jstring \<Rightarrow> jstring \<Rightarrow> string \<Rightarrow> jsval \<Rightarrow> api_call option" where
  "interventions_resolve sessionId turnId callId action body = json_call ''POST'' (below (resource_below (below
     (sessionPath sessionId) ''/interventions'') [JStr turnId, JStr callId]) (''/'' @ action)) body"

definition interventions_decide :: "jstring \<Rightarrow> jstring \<Rightarrow> jstring \<Rightarrow> string \<Rightarrow> jsval \<Rightarrow> jsval \<Rightarrow> api_call option" where
  "interventions_decide sessionId turnId callId decision reason response =
     json_call ''POST'' (below (resource_below (below (sessionPath sessionId) ''/interventions'') [JStr turnId, JStr callId]) (''/'' @ decision))
       (if response = JUndef then jobj [(''reason'', default_text reason [])]
        else jobj [(''reason'', default_text reason []), (''response'', response)])"

definition interventions_approve :: "jstring \<Rightarrow> jstring \<Rightarrow> jstring \<Rightarrow> jsval \<Rightarrow> jsval \<Rightarrow> api_call option" where
  "interventions_approve sessionId turnId callId reason response = interventions_decide sessionId turnId callId ''approve'' reason response"

definition interventions_reject :: "jstring \<Rightarrow> jstring \<Rightarrow> jstring \<Rightarrow> jsval \<Rightarrow> api_call option" where
  "interventions_reject sessionId turnId callId reason = interventions_decide sessionId turnId callId ''reject'' reason JUndef"

definition interventions_respond :: "jstring \<Rightarrow> jstring \<Rightarrow> jstring \<Rightarrow> jsval \<Rightarrow> api_call option" where
  "interventions_respond sessionId turnId callId response = interventions_resolve sessionId turnId callId ''respond''
     (jobj [(''response'', response)])"

definition interventions_skip :: "jstring \<Rightarrow> jstring \<Rightarrow> jstring \<Rightarrow> jsval \<Rightarrow> api_call option" where
  "interventions_skip sessionId turnId callId reason = interventions_resolve sessionId turnId callId ''skip''
     (jobj [(''reason'', default_text reason [])])"

definition interventions_cancel :: "jstring \<Rightarrow> jstring \<Rightarrow> jstring \<Rightarrow> jsval \<Rightarrow> api_call option" where
  "interventions_cancel sessionId turnId callId reason = interventions_resolve sessionId turnId callId ''cancel''
     (jobj [(''reason'', default_text reason [])])"

section \<open>\<open>services/artifacts.ts\<close>\<close>

definition artifactsPath :: "jstring \<Rightarrow> jstring option" where
  "artifactsPath sessionId = below (sessionPath sessionId) ''/artifacts''"

definition artifactPath :: "jstring \<Rightarrow> jstring \<Rightarrow> jstring option" where
  "artifactPath sessionId artifactId = resource_below (artifactsPath sessionId) [JStr artifactId]"

definition artifacts_create :: "jstring \<Rightarrow> jsval \<Rightarrow> api_call option" where
  "artifacts_create sessionId request = json_call ''POST'' (artifactsPath sessionId) request"

definition artifacts_list :: "jstring \<Rightarrow> api_call option" where
  "artifacts_list sessionId = json_field ''GET'' (artifactsPath sessionId) JUndef ''artifacts''"

definition artifacts_download :: "jstring \<Rightarrow> jstring \<Rightarrow> api_call option" where
  "artifacts_download sessionId artifactId = plain_call ''GET'' (below (artifactPath sessionId artifactId) ''/download'') JUndef []"

definition artifacts_delete :: "jstring \<Rightarrow> jstring \<Rightarrow> api_call option" where
  "artifacts_delete sessionId artifactId = plain_call ''DELETE'' (artifactPath sessionId artifactId) JUndef []"

definition artifacts_upload :: "jstring \<Rightarrow> (jstring \<times> jstring) list \<Rightarrow> upload_file \<Rightarrow> api_call option" where
  "artifacts_upload sessionId parts f = form_call ''POST'' (below (artifactsPath sessionId) ''/upload'') (upload_form parts f)"

definition artifacts_preview :: "jstring \<Rightarrow> jstring \<Rightarrow> jsval \<Rightarrow> api_call option" where
  "artifacts_preview sessionId artifactId format =
     (let preview = below (artifactPath sessionId artifactId) ''/preview''; f = default_text format ''pdf'' in
      plain_call ''GET'' (if truthy f then encoded_below preview ''?format='' (to_str f) else preview) JUndef [])"

section \<open>\<open>services/artifact-exchanges.ts\<close>\<close>

definition artifactExchanges_createImport :: "jsval \<Rightarrow> api_call option" where
  "artifactExchanges_createImport request = json_call ''POST'' (Some (lit ''/v2/artifact-exchanges/imports'')) request"

definition artifactExchanges_createExport :: "jsval \<Rightarrow> api_call option" where
  "artifactExchanges_createExport request = json_call ''POST'' (Some (lit ''/v2/artifact-exchanges/exports'')) request"

definition artifactExchanges_get :: "jstring \<Rightarrow> api_call option" where
  "artifactExchanges_get exchangeId = json_call ''GET'' (resourcePath (lit ''/v2/artifact-exchanges'') [JStr exchangeId]) JUndef"

definition artifactExchanges_upload :: "jsval \<Rightarrow> jsval \<Rightarrow> jsval \<Rightarrow> api_call option" where
  "artifactExchanges_upload grant body contentType = plain_call ''PUT'' (Some (to_str (dot grant ''content_url''))) body
     [(lit ''Content-Type'', to_str (default_text contentType ''application/octet-stream''))]"

definition artifactExchanges_download :: "jsval \<Rightarrow> api_call option" where
  "artifactExchanges_download grant = plain_call ''GET'' (Some (to_str (dot grant ''content_url''))) JUndef []"

section \<open>\<open>services/agents.ts\<close>\<close>

definition agentPath :: "jstring \<Rightarrow> jstring option" where
  "agentPath agentId = resourcePath (lit ''/v2/agents'') [JStr agentId]"

definition agents_create :: "jsval \<Rightarrow> api_call option" where
  "agents_create request = json_call ''POST'' (Some (lit ''/v2/agents'')) request"

definition agents_default :: "api_call option" where
  "agents_default = json_call ''GET'' (Some (lit ''/v2/agents/default'')) JUndef"

definition agents_list :: "api_call option" where
  "agents_list = json_field ''GET'' (Some (lit ''/v2/agents'')) JUndef ''agents''"

definition agents_listByApplication :: "jsval \<Rightarrow> api_call option" where
  "agents_listByApplication query = json_field ''GET'' (with_query (Some (lit ''/v2/agents'')) [(''app_id'', dot query ''appId''),
     (''external_ref'', dot query ''externalRef'')]) JUndef ''agents''"

definition agents_get :: "jstring \<Rightarrow> api_call option" where
  "agents_get agentId = json_call ''GET'' (agentPath agentId) JUndef"

definition agents_update :: "jstring \<Rightarrow> jsval \<Rightarrow> api_call option" where
  "agents_update agentId request = json_call ''PATCH'' (agentPath agentId) request"

definition agents_import :: "jsval \<Rightarrow> api_call option" where
  "agents_import request = json_call ''POST'' (Some (lit ''/v2/agents/import'')) request"

definition agents_export :: "jstring \<Rightarrow> api_call option" where
  "agents_export agentId = json_call ''GET'' (below (agentPath agentId) ''/export'') JUndef"

definition agents_listConfigVersions :: "jstring \<Rightarrow> api_call option" where
  "agents_listConfigVersions agentId = json_field ''GET'' (below (agentPath agentId) ''/config-versions'') JUndef ''config_versions''"

definition agents_createConfigVersion :: "jstring \<Rightarrow> jsval \<Rightarrow> api_call option" where
  "agents_createConfigVersion agentId request = json_call ''POST'' (below (agentPath agentId) ''/config-versions'') request"

definition agents_rollback :: "jstring \<Rightarrow> jsnum \<Rightarrow> api_call option" where
  "agents_rollback agentId version = json_call ''POST'' (below (resource_below (below
     (agentPath agentId) ''/config-versions'') [JNum version]) ''/rollback'') no_body"

definition agents_toolingHealth :: "jstring \<Rightarrow> jsval \<Rightarrow> api_call option" where
  "agents_toolingHealth agentId request = json_call ''POST'' (below (agentPath agentId) ''/tooling-health'') (default_body request)"

section \<open>\<open>services/application-manifests.ts\<close>\<close>

definition applicationManifests_publish :: "jsval \<Rightarrow> api_call option" where
  "applicationManifests_publish request = json_call ''POST'' (Some (lit ''/v2/application-manifests/publish'')) request"

section \<open>\<open>services/auth.ts\<close>\<close>

definition auth_configuration :: "api_call option" where
  "auth_configuration = json_call ''GET'' (Some (lit ''/v2/auth/config'')) JUndef"

definition auth_me :: "api_call option" where
  "auth_me = json_call ''GET'' (Some (lit ''/v2/auth/me'')) JUndef"

definition auth_exchange :: "jsval \<Rightarrow> api_call option" where
  "auth_exchange request = json_call ''POST'' (Some (lit ''/v2/auth/token-exchange'')) request"

section \<open>\<open>services/capabilities.ts\<close>\<close>

definition capabilities_list :: "api_call option" where
  "capabilities_list = json_call ''GET'' (Some (lit ''/v2/capabilities'')) JUndef"

section \<open>\<open>services/environments.ts\<close>\<close>

definition environments_list :: "api_call option" where
  "environments_list = json_field ''GET'' (Some (lit ''/v2/environments'')) JUndef ''environments''"

definition environments_listByApplication :: "jsval \<Rightarrow> api_call option" where
  "environments_listByApplication query = json_field ''GET'' (with_query (Some (lit ''/v2/environments'')) [(''app_id'', dot query ''appId''),
     (''external_ref'', dot query ''externalRef'')]) JUndef ''environments''"

definition environments_get :: "jstring \<Rightarrow> api_call option" where
  "environments_get environmentId = json_call ''GET'' (resourcePath (lit ''/v2/environments'') [JStr environmentId]) JUndef"

definition environments_create :: "jsval \<Rightarrow> api_call option" where
  "environments_create request = json_call ''POST'' (Some (lit ''/v2/environments'')) request"

section \<open>\<open>services/evaluations.ts\<close>\<close>

definition evaluations_createRubric :: "jsval \<Rightarrow> api_call option" where
  "evaluations_createRubric request = json_call ''POST'' (Some (lit ''/v2/evaluation-rubrics'')) request"

definition evaluations_listRubrics :: "jsval \<Rightarrow> api_call option" where
  "evaluations_listRubrics workspaceId = json_field ''GET'' (with_query (Some
     (lit ''/v2/evaluation-rubrics'')) [(''workspace_id'', workspaceId)]) JUndef ''rubrics''"

definition evaluations_getRubric :: "jstring \<Rightarrow> api_call option" where
  "evaluations_getRubric rubricId = json_call ''GET'' (resourcePath (lit ''/v2/evaluation-rubrics'') [JStr rubricId]) JUndef"

definition evaluations_createRunEvaluation :: "jsval \<Rightarrow> api_call option" where
  "evaluations_createRunEvaluation request = json_call ''POST'' (Some (lit ''/v2/run-evaluations'')) request"

definition evaluations_autoEvaluate :: "jsval \<Rightarrow> api_call option" where
  "evaluations_autoEvaluate request = json_call ''POST'' (Some (lit ''/v2/run-evaluations/auto'')) request"

definition evaluations_createDataset :: "jsval \<Rightarrow> api_call option" where
  "evaluations_createDataset request = json_call ''POST'' (Some (lit ''/v2/evaluation-datasets'')) request"

definition evaluations_listDatasets :: "jsval \<Rightarrow> api_call option" where
  "evaluations_listDatasets workspaceId = json_field ''GET'' (with_query (Some
     (lit ''/v2/evaluation-datasets'')) [(''workspace_id'', workspaceId)]) JUndef ''datasets''"

definition evaluations_getDataset :: "jstring \<Rightarrow> api_call option" where
  "evaluations_getDataset datasetId = json_call ''GET'' (resourcePath (lit ''/v2/evaluation-datasets'') [JStr datasetId]) JUndef"

definition evaluations_createExperiment :: "jsval \<Rightarrow> api_call option" where
  "evaluations_createExperiment request = json_call ''POST'' (Some (lit ''/v2/evaluation-experiments'')) request"

definition evaluations_listExperiments :: "jsval \<Rightarrow> jsval \<Rightarrow> api_call option" where
  "evaluations_listExperiments workspaceId limit = json_field ''GET'' (with_query (Some
     (lit ''/v2/evaluation-experiments'')) [(''workspace_id'', workspaceId), (''limit'', limit)]) JUndef ''experiments''"

definition evaluations_getExperiment :: "jstring \<Rightarrow> api_call option" where
  "evaluations_getExperiment experimentId = json_call ''GET'' (resourcePath (lit ''/v2/evaluation-experiments'') [JStr experimentId]) JUndef"

definition evaluations_reconcileExperiment :: "jstring \<Rightarrow> api_call option" where
  "evaluations_reconcileExperiment experimentId = json_call ''POST'' (below (resourcePath
     (lit ''/v2/evaluation-experiments'') [JStr experimentId]) ''/reconcile'') JUndef"

definition evaluations_listRunEvaluations :: "jsval \<Rightarrow> api_call option" where
  "evaluations_listRunEvaluations query = json_field ''GET'' (with_query (Some
     (lit ''/v2/run-evaluations'')) [(''left_session_id'', dot query ''leftSessionId''), (''left_turn_id'', dot query ''leftTurnId''),
     (''right_session_id'', dot query ''rightSessionId''), (''right_turn_id'', dot query ''rightTurnId''),
     (''limit'', dot query ''limit'')]) JUndef ''evaluations''"

section \<open>\<open>services/event-subscriptions.ts\<close>\<close>

definition subscriptionPath :: "jstring \<Rightarrow> jstring option" where
  "subscriptionPath subscriptionId = resourcePath (lit ''/v2/event-subscriptions'') [JStr subscriptionId]"

definition eventSubscriptions_eventTypes :: "api_call option" where
  "eventSubscriptions_eventTypes = json_field ''GET'' (Some (lit ''/v2/event-subscriptions/event-types'')) JUndef ''items''"

definition eventSubscriptions_create :: "jsval \<Rightarrow> api_call option" where
  "eventSubscriptions_create request = json_call ''POST'' (Some (lit ''/v2/event-subscriptions'')) request"

definition eventSubscriptions_get :: "jstring \<Rightarrow> api_call option" where
  "eventSubscriptions_get subscriptionId = json_call ''GET'' (subscriptionPath subscriptionId) JUndef"

definition eventSubscriptions_update :: "jstring \<Rightarrow> jsval \<Rightarrow> api_call option" where
  "eventSubscriptions_update subscriptionId request = json_call ''PATCH'' (subscriptionPath subscriptionId) request"

definition eventSubscriptions_disable :: "jstring \<Rightarrow> api_call option" where
  "eventSubscriptions_disable subscriptionId = json_call ''DELETE'' (subscriptionPath subscriptionId) JUndef"

definition eventSubscriptions_rotateSecret :: "jstring \<Rightarrow> api_call option" where
  "eventSubscriptions_rotateSecret subscriptionId = json_call ''POST'' (below (subscriptionPath subscriptionId) ''/rotate-secret'') JUndef"

definition eventSubscriptions_replay :: "jstring \<Rightarrow> jstring \<Rightarrow> api_call option" where
  "eventSubscriptions_replay subscriptionId deliveryId = json_call ''POST'' (below (encoded_below
     (subscriptionPath subscriptionId) ''/deliveries/'' deliveryId) ''/replay'') JUndef"

definition eventSubscriptions_list :: "jsval \<Rightarrow> api_call option" where
  "eventSubscriptions_list appId =
     json_field ''GET'' (with_params (Some (lit ''/v2/event-subscriptions''))
       (if truthy appId then params_set [] (lit ''app_id'') (to_str appId) else [])) JUndef ''items''"

definition eventSubscriptions_deliveries :: "jstring \<Rightarrow> jsval \<Rightarrow> api_call option" where
  "eventSubscriptions_deliveries subscriptionId query =
     (let status = dot query ''status''; limit = dot query ''limit'';
          values = (if truthy status then params_set [] (lit ''status'') (to_str status) else []);
          values = (if truthy limit \<and> num_less (Fin 0) (to_num limit) then params_set values (lit ''limit'') (to_str limit) else values) in
      json_field ''GET'' (with_params (below (subscriptionPath subscriptionId) ''/deliveries'') values) JUndef ''items'')"

section \<open>\<open>services/llm.ts\<close>\<close>

text \<open>\<open>iso_text\<close> is \<open>toISOString\<close> of a \<open>Date\<close>, \<open>None\<close> for every other value.\<close>

definition formatTime :: "(jsval \<Rightarrow> jstring option) \<Rightarrow> jsval \<Rightarrow> jsval" where
  "formatTime iso_text v = (if v = JUndef then JUndef else case iso_text v of Some t \<Rightarrow> JStr t | None \<Rightarrow> v)"

definition providerPath :: "jstring \<Rightarrow> jstring option" where
  "providerPath providerId = resourcePath (lit ''/v2/llm-providers'') [JStr providerId]"

definition llm_listProviders :: "api_call option" where
  "llm_listProviders = json_field ''GET'' (Some (lit ''/v2/llm-providers'')) JUndef ''providers''"

definition llm_getProvider :: "jstring \<Rightarrow> api_call option" where
  "llm_getProvider providerId = json_call ''GET'' (providerPath providerId) JUndef"

definition llm_createProvider :: "jsval \<Rightarrow> api_call option" where
  "llm_createProvider request = json_call ''POST'' (Some (lit ''/v2/llm-providers'')) request"

definition llm_updateProvider :: "jstring \<Rightarrow> jsnum \<Rightarrow> jsval \<Rightarrow> api_call option" where
  "llm_updateProvider providerId expectedRevision request = json_call_with ''PATCH'' (providerPath providerId) request (if_match expectedRevision)"

definition llm_setProviderEnabled :: "jstring \<Rightarrow> jsnum \<Rightarrow> bool \<Rightarrow> api_call option" where
  "llm_setProviderEnabled providerId expectedRevision enabled = json_call_with ''POST'' (below (providerPath providerId)
     (if enabled then ''/enable'' else ''/disable'')) no_body (if_match expectedRevision)"

definition llm_deleteProvider :: "jstring \<Rightarrow> jsnum \<Rightarrow> api_call option" where
  "llm_deleteProvider providerId expectedRevision = json_call_with ''DELETE'' (providerPath providerId) JUndef (if_match expectedRevision)"

definition llm_testProvider :: "jstring \<Rightarrow> api_call option" where
  "llm_testProvider providerId = json_call ''POST'' (below (providerPath providerId) ''/test'') no_body"

definition llm_listModels :: "jsval \<Rightarrow> api_call option" where
  "llm_listModels providerId = json_field ''GET'' (with_query (Some (lit ''/v2/llm-models'')) [(''provider_id'', providerId)]) JUndef ''models''"

definition llm_createModel :: "jsval \<Rightarrow> api_call option" where
  "llm_createModel request = json_call_with ''POST'' (Some (lit ''/v2/llm-models'')) request [(lit ''If-None-Match'', lit ''*'')]"

definition llm_updateModel :: "jsnum \<Rightarrow> jsval \<Rightarrow> api_call option" where
  "llm_updateModel expectedRevision request = json_call_with ''POST'' (Some (lit ''/v2/llm-models'')) request (if_match expectedRevision)"

definition llm_deleteModel :: "jstring \<Rightarrow> jstring \<Rightarrow> jsnum \<Rightarrow> api_call option" where
  "llm_deleteModel providerId model expectedRevision = json_call_with ''DELETE'' (resourcePath
     (lit ''/v2/llm-models'') [JStr providerId, JStr model]) JUndef (if_match expectedRevision)"

definition llm_testModel :: "jstring \<Rightarrow> jstring \<Rightarrow> api_call option" where
  "llm_testModel providerId model = json_call ''POST'' (below (resourcePath
     (lit ''/v2/llm-models'') [JStr providerId, JStr model]) ''/test'') no_body"

definition llm_usage :: "(jsval \<Rightarrow> jstring option) \<Rightarrow> jsval \<Rightarrow> api_call option" where
  "llm_usage iso_text query = json_call ''GET'' (with_query (Some (lit ''/v2/llm-usage'')) [(''workspace_id'', dot query ''workspaceId''),
     (''provider_id'', dot query ''providerId''), (''model'', dot query ''model''), (''status'', dot query ''status''),
     (''group_by'', dot query ''groupBy''), (''from'', formatTime iso_text (dot query ''from'')),
     (''to'', formatTime iso_text (dot query ''to''))]) JUndef"

section \<open>\<open>services/mcp.ts\<close>\<close>

definition serversPath :: "jsval \<Rightarrow> jstring option" where
  "serversPath query = with_query (Some (lit ''/v2/mcp-servers'')) [(''workspace_id'', dot query ''workspaceId''),
     (''app_id'', dot query ''appId''), (''external_ref'', dot query ''externalRef'')]"

definition serverPath :: "jstring \<Rightarrow> jstring option" where
  "serverPath serverId = resourcePath (lit ''/v2/mcp-servers'') [JStr serverId]"

definition mcp_list :: "jsval \<Rightarrow> api_call option" where
  "mcp_list query = json_field ''GET'' (serversPath query) JUndef ''servers''"

definition mcp_runtimeStatus :: "jsval \<Rightarrow> api_call option" where
  "mcp_runtimeStatus query = json_call ''GET'' (with_query (Some
     (lit ''/v2/mcp-servers/runtime-status'')) [(''workspace_id'', dot query ''workspaceId'')]) JUndef"

definition mcp_create :: "jsval \<Rightarrow> api_call option" where
  "mcp_create request = json_call ''POST'' (Some (lit ''/v2/mcp-servers'')) request"

definition mcp_get :: "jstring \<Rightarrow> api_call option" where
  "mcp_get serverId = json_call ''GET'' (serverPath serverId) JUndef"

definition mcp_update :: "jstring \<Rightarrow> jsval \<Rightarrow> api_call option" where
  "mcp_update serverId request = json_call ''PATCH'' (serverPath serverId) request"

definition mcp_setEnabled :: "jstring \<Rightarrow> bool \<Rightarrow> api_call option" where
  "mcp_setEnabled serverId enabled = json_call ''POST'' (below (serverPath serverId) (if enabled then ''/enable'' else ''/disable'')) no_body"

definition mcp_archive :: "jstring \<Rightarrow> api_call option" where
  "mcp_archive serverId = json_call ''DELETE'' (serverPath serverId) JUndef"

definition mcp_test :: "jstring \<Rightarrow> api_call option" where
  "mcp_test serverId = json_call ''POST'' (below (serverPath serverId) ''/test'') no_body"

definition mcp_versions :: "jstring \<Rightarrow> api_call option" where
  "mcp_versions serverId = json_field ''GET'' (below (serverPath serverId) ''/versions'') JUndef ''versions''"

definition mcp_restoreVersion :: "jstring \<Rightarrow> jsnum \<Rightarrow> api_call option" where
  "mcp_restoreVersion serverId version = json_call ''POST'' (below (resource_below (below
     (serverPath serverId) ''/versions'') [JNum version]) ''/restore'') JUndef"

section \<open>\<open>services/object-refs.ts\<close>\<close>

definition objectRefPath :: "jstring \<Rightarrow> jstring option" where
  "objectRefPath objectRefId = resourcePath (lit ''/v2/object-refs'') [JStr objectRefId]"

definition objectRefs_create :: "jsval \<Rightarrow> api_call option" where
  "objectRefs_create request = json_call ''POST'' (Some (lit ''/v2/object-refs'')) request"

definition objectRefs_get :: "jstring \<Rightarrow> api_call option" where
  "objectRefs_get objectRefId = json_call ''GET'' (objectRefPath objectRefId) JUndef"

definition objectRefs_delete :: "jstring \<Rightarrow> api_call option" where
  "objectRefs_delete objectRefId = plain_call ''DELETE'' (objectRefPath objectRefId) JUndef []"

definition objectRefs_download :: "jstring \<Rightarrow> jsval \<Rightarrow> api_call option" where
  "objectRefs_download objectRefId sessionId = plain_call ''GET'' (with_query (below
     (objectRefPath objectRefId) ''/download'') [(''session_id'', sessionId)]) JUndef []"

section \<open>\<open>services/object-cleanup.ts\<close>\<close>

definition dateQueryValue :: "(jsval \<Rightarrow> jstring option) \<Rightarrow> jsval \<Rightarrow> jsval" where
  "dateQueryValue iso_text v = (if \<not> truthy v then JUndef else case iso_text v of Some t \<Rightarrow> JStr t | None \<Rightarrow> v)"

definition objectCleanupJobPath :: "jstring \<Rightarrow> jstring option" where
  "objectCleanupJobPath jobId = resourcePath (lit ''/v2/object-cleanup/jobs'') [JStr jobId]"

definition objectCleanup_previewReconciliation :: "jsval \<Rightarrow> api_call option" where
  "objectCleanup_previewReconciliation input = json_call ''POST'' (Some (lit ''/v2/object-cleanup/reconciliation/preview'')) input"

definition objectCleanup_exportReconciliationArtifact :: "jsval \<Rightarrow> api_call option" where
  "objectCleanup_exportReconciliationArtifact input = json_call ''POST'' (Some (lit ''/v2/object-cleanup/reconciliation/artifacts'')) input"

definition objectCleanup_list :: "(jsval \<Rightarrow> jstring option) \<Rightarrow> jsval \<Rightarrow> api_call option" where
  "objectCleanup_list iso_text query = json_field ''GET'' (with_query (Some
     (lit ''/v2/object-cleanup/jobs'')) [(''workspace_id'', dot query ''workspaceId''), (''status'', dot query ''status''),
     (''reason'', dot query ''reason''), (''created_from'', dateQueryValue iso_text (dot query ''createdFrom'')),
     (''created_to'', dateQueryValue iso_text (dot query ''createdTo'')), (''limit'', dot query ''limit'')]) JUndef ''jobs''"

definition objectCleanup_stats :: "jsval \<Rightarrow> api_call option" where
  "objectCleanup_stats workspaceId = json_call ''GET'' (with_query (Some
     (lit ''/v2/object-cleanup/stats'')) [(''workspace_id'', workspaceId)]) JUndef"

definition objectCleanup_retry :: "jstring \<Rightarrow> jsval \<Rightarrow> api_call option" where
  "objectCleanup_retry jobId workspaceId = json_call ''POST'' (with_query (below
     (objectCleanupJobPath jobId) ''/retry'') [(''workspace_id'', workspaceId)]) JUndef"

definition objectCleanup_approve :: "jstring \<Rightarrow> jstring \<Rightarrow> jsval \<Rightarrow> api_call option" where
  "objectCleanup_approve jobId confirm workspaceId = json_call ''POST'' (with_query (below
     (objectCleanupJobPath jobId) ''/approve'') [(''workspace_id'', workspaceId)]) (jobj [(''confirm'', (JStr confirm))])"

section \<open>\<open>services/orchestration.ts\<close>\<close>

definition deliberationPath :: "jstring \<Rightarrow> jstring \<Rightarrow> jstring option" where
  "deliberationPath sessionId deliberationId = resource_below (below (sessionPath sessionId) ''/deliberations'') [JStr deliberationId]"

definition taskGroupPath :: "jstring \<Rightarrow> jstring \<Rightarrow> jstring option" where
  "taskGroupPath sessionId groupId = resource_below (below (sessionPath sessionId) ''/task-groups'') [JStr groupId]"

definition orchestration_taskGroupTemplates :: "api_call option" where
  "orchestration_taskGroupTemplates = json_call ''GET'' (Some (lit ''/v2/agent/task-group-templates'')) JUndef"

definition orchestration_discussionStrategies :: "api_call option" where
  "orchestration_discussionStrategies = json_call ''GET'' (Some (lit ''/v2/agent/discussion-strategies'')) JUndef"

definition orchestration_listDeliberations :: "jstring \<Rightarrow> api_call option" where
  "orchestration_listDeliberations sessionId = json_field ''GET'' (below (sessionPath sessionId) ''/deliberations'') JUndef ''deliberations''"

definition orchestration_getDeliberation :: "jstring \<Rightarrow> jstring \<Rightarrow> api_call option" where
  "orchestration_getDeliberation sessionId deliberationId = json_call ''GET'' (deliberationPath sessionId deliberationId) JUndef"

definition orchestration_cancelDeliberation :: "jstring \<Rightarrow> jstring \<Rightarrow> jsval \<Rightarrow> api_call option" where
  "orchestration_cancelDeliberation sessionId deliberationId request = json_call ''POST'' (below
     (deliberationPath sessionId deliberationId) ''/cancel'') (default_body request)"

definition orchestration_retryDeliberationParticipant :: "jstring \<Rightarrow> jstring \<Rightarrow> jsnum \<Rightarrow> jsval \<Rightarrow> api_call option" where
  "orchestration_retryDeliberationParticipant sessionId deliberationId participantIndex request = json_call ''POST'' (below (resource_below (below
     (deliberationPath sessionId deliberationId) ''/participants'') [JNum participantIndex]) ''/retry'') request"

definition orchestration_listTaskGroups :: "jstring \<Rightarrow> api_call option" where
  "orchestration_listTaskGroups sessionId = json_field ''GET'' (below (sessionPath sessionId) ''/task-groups'') JUndef ''task_groups''"

definition orchestration_taskGroupTree :: "jstring \<Rightarrow> api_call option" where
  "orchestration_taskGroupTree sessionId = json_call ''GET'' (below (sessionPath sessionId) ''/task-group-tree'') JUndef"

definition orchestration_getTaskGroup :: "jstring \<Rightarrow> jstring \<Rightarrow> api_call option" where
  "orchestration_getTaskGroup sessionId groupId = json_call ''GET'' (taskGroupPath sessionId groupId) JUndef"

definition orchestration_cancelTaskGroup :: "jstring \<Rightarrow> jstring \<Rightarrow> jsval \<Rightarrow> api_call option" where
  "orchestration_cancelTaskGroup sessionId groupId request = json_call ''POST'' (below (taskGroupPath sessionId groupId) ''/cancel'')
     (default_body request)"

definition orchestration_retryTaskGroup :: "jstring \<Rightarrow> jstring \<Rightarrow> api_call option" where
  "orchestration_retryTaskGroup sessionId groupId = json_call ''POST'' (below (taskGroupPath sessionId groupId) ''/retry'') no_body"

definition orchestration_retryTaskGroupItem :: "jstring \<Rightarrow> jstring \<Rightarrow> jsnum \<Rightarrow> api_call option" where
  "orchestration_retryTaskGroupItem sessionId groupId itemIndex = json_call ''POST'' (below (resource_below (below
     (taskGroupPath sessionId groupId) ''/items'') [JNum itemIndex]) ''/retry'') no_body"

definition orchestration_reapOrphans :: "jsval \<Rightarrow> api_call option" where
  "orchestration_reapOrphans request = json_call ''POST'' (Some (lit ''/v2/subagents/reap-orphans'')) (default_body request)"

section \<open>\<open>services/skills.ts\<close>\<close>

definition skillPath :: "jstring \<Rightarrow> jstring option" where
  "skillPath skillId = resourcePath (lit ''/v2/skills'') [JStr skillId]"

definition skillVersionPath :: "jstring \<Rightarrow> jsnum \<Rightarrow> jstring option" where
  "skillVersionPath skillId version = resource_below (below (skillPath skillId) ''/versions'') [JNum version]"

definition retentionPolicyPath :: "jstring \<Rightarrow> jstring option" where
  "retentionPolicyPath policyId = resourcePath (lit ''/v2/skill-asset-retention/policies'') [JStr policyId]"

definition assetGCListPath :: "jstring \<Rightarrow> jsval \<Rightarrow> jstring option" where
  "assetGCListPath path query = with_query (Some path) [(''workspace_id'', dot query ''workspaceId''), (''limit'', dot query ''limit'')]"

definition skills_create :: "jsval \<Rightarrow> api_call option" where
  "skills_create request = json_call ''POST'' (Some (lit ''/v2/skills'')) request"

definition skills_list :: "jsval \<Rightarrow> api_call option" where
  "skills_list query = json_field ''GET'' (with_query (Some (lit ''/v2/skills'')) [(''workspace_id'', dot query ''workspaceId''),
     (''app_id'', dot query ''appId''), (''external_ref'', dot query ''externalRef''),
     (''include_archived'', jor (dot query ''includeArchived'') JUndef)]) JUndef ''skills''"

definition skills_get :: "jstring \<Rightarrow> api_call option" where
  "skills_get skillId = json_call ''GET'' (skillPath skillId) JUndef"

definition skills_archive :: "jstring \<Rightarrow> api_call option" where
  "skills_archive skillId = json_call ''POST'' (below (skillPath skillId) ''/archive'') JUndef"

definition skills_createVersion :: "jstring \<Rightarrow> jsval \<Rightarrow> api_call option" where
  "skills_createVersion skillId request = json_call ''POST'' (below (skillPath skillId) ''/versions'') request"

definition skills_listVersions :: "jstring \<Rightarrow> api_call option" where
  "skills_listVersions skillId = json_field ''GET'' (below (skillPath skillId) ''/versions'') JUndef ''versions''"

definition skills_getVersion :: "jstring \<Rightarrow> jsnum \<Rightarrow> api_call option" where
  "skills_getVersion skillId version = json_call ''GET'' (skillVersionPath skillId version) JUndef"

definition skills_downloadPackage :: "jstring \<Rightarrow> jsnum \<Rightarrow> api_call option" where
  "skills_downloadPackage skillId version = plain_call ''GET'' (below (skillVersionPath skillId version) ''/package'') JUndef []"

definition skills_resolvePreview :: "jsval \<Rightarrow> api_call option" where
  "skills_resolvePreview request = json_call ''POST'' (Some (lit ''/v2/skills/resolve-preview'')) request"

definition skills_listUsages :: "jstring \<Rightarrow> jsval \<Rightarrow> api_call option" where
  "skills_listUsages sessionId turnId = json_field ''GET'' (with_query (below
     (sessionPath sessionId) ''/skill-usages'') [(''turn_id'', turnId)]) JUndef ''skill_usages''"

definition skills_backfillPackages :: "jsval \<Rightarrow> api_call option" where
  "skills_backfillPackages request = json_call ''POST'' (Some (lit ''/v2/skill-packages/backfill'')) (default_body request)"

definition skills_effectiveRetentionPolicy :: "jsval \<Rightarrow> api_call option" where
  "skills_effectiveRetentionPolicy workspaceId = json_call ''GET'' (with_query (Some
     (lit ''/v2/skill-asset-retention/effective'')) [(''workspace_id'', workspaceId)]) JUndef"

definition skills_createRetentionPolicy :: "jsval \<Rightarrow> api_call option" where
  "skills_createRetentionPolicy request = json_call ''POST'' (Some (lit ''/v2/skill-asset-retention/policies'')) request"

definition skills_listRetentionPolicies :: "jsval \<Rightarrow> api_call option" where
  "skills_listRetentionPolicies query = json_field ''GET'' (with_query (Some
     (lit ''/v2/skill-asset-retention/policies'')) [(''organization_id'', dot query ''organizationId''),
     (''workspace_id'', dot query ''workspaceId''), (''include_archived'', jor (dot query ''includeArchived'') JUndef)]) JUndef ''policies''"

definition skills_getRetentionPolicy :: "jstring \<Rightarrow> api_call option" where
  "skills_getRetentionPolicy policyId = json_call ''GET'' (retentionPolicyPath policyId) JUndef"

definition skills_publishRetentionPolicyVersion :: "jstring \<Rightarrow> jsval \<Rightarrow> api_call option" where
  "skills_publishRetentionPolicyVersion policyId request = json_call ''POST'' (below (retentionPolicyPath policyId) ''/versions'') request"

definition skills_getRetentionPolicyVersion :: "jstring \<Rightarrow> jsnum \<Rightarrow> api_call option" where
  "skills_getRetentionPolicyVersion policyId version = json_call ''GET'' (resource_below (below
     (retentionPolicyPath policyId) ''/versions'') [JNum version]) JUndef"

definition skills_archiveRetentionPolicy :: "jstring \<Rightarrow> api_call option" where
  "skills_archiveRetentionPolicy policyId = json_call ''POST'' (below (retentionPolicyPath policyId) ''/archive'') JUndef"

definition skills_previewAssetGC :: "jsval \<Rightarrow> api_call option" where
  "skills_previewAssetGC request = json_call ''POST'' (Some (lit ''/v2/skill-asset-gc/preview'')) request"

definition skills_runAssetGC :: "jsval \<Rightarrow> api_call option" where
  "skills_runAssetGC request = json_call ''POST'' (Some (lit ''/v2/skill-asset-gc/run'')) request"

definition skills_listAssetGCRuns :: "jsval \<Rightarrow> api_call option" where
  "skills_listAssetGCRuns query = json_field ''GET'' (assetGCListPath (lit ''/v2/skill-asset-gc/runs'') query) JUndef ''runs''"

definition skills_getAssetGCRun :: "jstring \<Rightarrow> api_call option" where
  "skills_getAssetGCRun runId = json_call ''GET'' (resourcePath (lit ''/v2/skill-asset-gc/runs'') [JStr runId]) JUndef"

definition skills_listAssetGCTombstones :: "jsval \<Rightarrow> api_call option" where
  "skills_listAssetGCTombstones query = json_field ''GET'' (assetGCListPath (lit ''/v2/skill-asset-gc/tombstones'') query) JUndef ''tombstones''"

section \<open>\<open>services/marketplace.ts\<close>\<close>

definition entryPath :: "jstring \<Rightarrow> jstring option" where
  "entryPath entryId = resourcePath (lit ''/v2/skill-marketplace-entries'') [JStr entryId]"

definition marketplacePolicyPath :: "jstring \<Rightarrow> jstring option" where
  "marketplacePolicyPath policyId = resourcePath (lit ''/v2/skill-marketplace-policies'') [JStr policyId]"

definition marketplace_discover :: "jsval \<Rightarrow> api_call option" where
  "marketplace_discover query = json_call ''GET'' (with_query (Some
     (lit ''/v2/skills/marketplace/discover'')) [(''session_id'', dot query ''sessionId''), (''query'', dot query ''query''),
     (''repository'', dot query ''repository''), (''limit'', dot query ''limit'')]) JUndef"

definition marketplace_preview :: "jsval \<Rightarrow> api_call option" where
  "marketplace_preview request = json_call ''POST'' (Some (lit ''/v2/skills/marketplace/preview'')) request"

definition marketplace_install :: "jsval \<Rightarrow> api_call option" where
  "marketplace_install request = json_call ''POST'' (Some (lit ''/v2/skills/marketplace/install'')) request"

definition marketplace_previewInternal :: "jsval \<Rightarrow> api_call option" where
  "marketplace_previewInternal request = json_call ''POST'' (Some (lit ''/v2/skills/marketplace/internal/preview'')) request"

definition marketplace_installInternal :: "jsval \<Rightarrow> api_call option" where
  "marketplace_installInternal request = json_call ''POST'' (Some (lit ''/v2/skills/marketplace/internal/install'')) request"

definition marketplace_enableInstalled :: "jstring \<Rightarrow> jsval \<Rightarrow> api_call option" where
  "marketplace_enableInstalled skillId request = json_call ''POST'' (below (skillPath skillId) ''/enable'') request"

definition marketplace_disableInstalled :: "jstring \<Rightarrow> jsval \<Rightarrow> api_call option" where
  "marketplace_disableInstalled skillId request = json_call ''POST'' (below (skillPath skillId) ''/disable'') request"

definition marketplace_createEntry :: "jsval \<Rightarrow> api_call option" where
  "marketplace_createEntry request = json_call ''POST'' (Some (lit ''/v2/skill-marketplace-entries'')) request"

definition marketplace_listEntries :: "jsval \<Rightarrow> api_call option" where
  "marketplace_listEntries query = json_field ''GET'' (with_query (Some
     (lit ''/v2/skill-marketplace-entries'')) [(''workspace_id'', dot query ''workspaceId''), (''status'', dot query ''status''),
     (''include_withdrawn'', jor (dot query ''includeWithdrawn'') JUndef)]) JUndef ''entries''"

definition marketplace_getEntry :: "jstring \<Rightarrow> jsval \<Rightarrow> api_call option" where
  "marketplace_getEntry entryId workspaceId = json_call ''GET'' (with_query (entryPath entryId) [(''workspace_id'', workspaceId)]) JUndef"

definition marketplace_updateEntry :: "jstring \<Rightarrow> jsval \<Rightarrow> api_call option" where
  "marketplace_updateEntry entryId request = json_call ''PATCH'' (entryPath entryId) request"

definition marketplace_createPolicy :: "jsval \<Rightarrow> api_call option" where
  "marketplace_createPolicy request = json_call ''POST'' (Some (lit ''/v2/skill-marketplace-policies'')) request"

definition marketplace_listPolicies :: "jsval \<Rightarrow> api_call option" where
  "marketplace_listPolicies query = json_field ''GET'' (with_query (Some
     (lit ''/v2/skill-marketplace-policies'')) [(''organization_id'', dot query ''organizationId''),
     (''workspace_id'', dot query ''workspaceId''), (''include_archived'', jor (dot query ''includeArchived'') JUndef)]) JUndef ''policies''"

definition marketplace_getPolicy :: "jstring \<Rightarrow> api_call option" where
  "marketplace_getPolicy policyId = json_call ''GET'' (marketplacePolicyPath policyId) JUndef"

definition marketplace_publishPolicyVersion :: "jstring \<Rightarrow> jsval \<Rightarrow> api_call option" where
  "marketplace_publishPolicyVersion policyId request = json_call ''POST'' (below (marketplacePolicyPath policyId) ''/versions'') request"

definition marketplace_getPolicyVersion :: "jstring \<Rightarrow> jsnum \<Rightarrow> api_call option" where
  "marketplace_getPolicyVersion policyId version = json_call ''GET'' (resource_below (below
     (marketplacePolicyPath policyId) ''/versions'') [JNum version]) JUndef"

definition marketplace_archivePolicy :: "jstring \<Rightarrow> api_call option" where
  "marketplace_archivePolicy policyId = json_call ''POST'' (below (marketplacePolicyPath policyId) ''/archive'') JUndef"

definition marketplace_transitionEntry :: "jstring \<Rightarrow> string \<Rightarrow> jsval \<Rightarrow> api_call option" where
  "marketplace_transitionEntry entryId action request = json_call ''POST'' (below (entryPath entryId) (''/'' @ action)) request"

definition marketplace_browseInternal :: "jsval \<Rightarrow> api_call option" where
  "marketplace_browseInternal query =
     (let q = dot query ''query''; category = dot query ''category''; limit = dot query ''limit'';
          values = params_set [] (lit ''session_id'') (to_str (dot query ''sessionId''));
          values = (if truthy q then params_set values (lit ''query'') (to_str q) else values);
          values = (if truthy category then params_set values (lit ''category'') (to_str category) else values);
          values = foldl (\<lambda>ps tag. params_append ps (lit ''tag'') (to_str tag)) values (array_items (dot query ''tags''));
          values = (if truthy limit then params_set values (lit ''limit'') (to_str limit) else values) in
      json_call ''GET'' (with_params (Some (lit ''/v2/skills/marketplace/internal'')) values) JUndef)"

definition marketplace_submitEntry :: "jstring \<Rightarrow> jsval \<Rightarrow> api_call option" where
  "marketplace_submitEntry entryId request = marketplace_transitionEntry entryId ''submit'' (default_body request)"

definition marketplace_publishEntry :: "jstring \<Rightarrow> jsval \<Rightarrow> api_call option" where
  "marketplace_publishEntry entryId request = marketplace_transitionEntry entryId ''publish'' (default_body request)"

definition marketplace_withdrawEntry :: "jstring \<Rightarrow> jsval \<Rightarrow> api_call option" where
  "marketplace_withdrawEntry entryId request = marketplace_transitionEntry entryId ''withdraw'' (default_body request)"

section \<open>\<open>services/administration.ts\<close>\<close>

definition variablesPath :: "jsval \<Rightarrow> jstring option" where
  "variablesPath query = with_query (Some (lit ''/v2/environment-variables'')) [(''workspace_id'', dot query ''workspaceId''),
     (''app_id'', dot query ''appId'')]"

definition variablePath :: "jstring \<Rightarrow> jsval \<Rightarrow> jstring option" where
  "variablePath name query = with_query (resourcePath
     (lit ''/v2/environment-variables'') [JStr name]) [(''workspace_id'', dot query ''workspaceId''), (''app_id'', dot query ''appId'')]"

definition observability_status :: "api_call option" where
  "observability_status = json_call ''GET'' (Some (lit ''/v2/observability/status'')) JUndef"

definition observability_retry :: "api_call option" where
  "observability_retry = json_call ''POST'' (Some (lit ''/v2/observability/retry'')) JUndef"

definition observability_integrityKeys :: "api_call option" where
  "observability_integrityKeys = json_call ''GET'' (Some (lit ''/v2/observability/security-audit/integrity-keys'')) JUndef"

definition audit_listToolPermissions :: "jstring \<Rightarrow> jsval \<Rightarrow> api_call option" where
  "audit_listToolPermissions sessionId query = json_call ''GET'' (map_option (\<lambda>p. withQuery p (own_fields query)) (below (resourcePath
     (lit ''/v2/sessions'') [JStr sessionId]) ''/tool-permission-audit'')) JUndef"

definition audit_integrityKeys :: "api_call option" where
  "audit_integrityKeys = json_call ''GET'' (Some (lit ''/v2/observability/security-audit/integrity-keys'')) JUndef"

definition audit_replayDeadLetters :: "jsval \<Rightarrow> api_call option" where
  "audit_replayDeadLetters limit = json_call ''POST'' (with_query (Some
     (lit ''/v2/observability/security-audit/replay'')) [(''limit'', limit)]) JUndef"

definition environmentVariables_list :: "jsval \<Rightarrow> api_call option" where
  "environmentVariables_list query = json_field ''GET'' (variablesPath query) JUndef ''variables''"

definition environmentVariables_put :: "jstring \<Rightarrow> jsval \<Rightarrow> jsval \<Rightarrow> api_call option" where
  "environmentVariables_put name request query = json_call ''PUT'' (variablePath name query) request"

definition environmentVariables_delete :: "jstring \<Rightarrow> jsval \<Rightarrow> api_call option" where
  "environmentVariables_delete name query = json_call ''DELETE'' (variablePath name query) JUndef"

definition audit_listPath :: "jstring option \<Rightarrow> api_call option" where
  "audit_listPath path = json_field ''GET'' path JUndef ''audit_records''"

definition audit_list :: "jsval \<Rightarrow> api_call option" where
  "audit_list query = audit_listPath (with_query (Some (lit ''/v2/operator-audit'')) [(''workspace_id'', dot query ''workspaceId''),
     (''session_id'', dot query ''sessionId''), (''principal_id'', dot query ''principalId''), (''action'', dot query ''action''),
     (''limit'', dot query ''limit'')])"

definition audit_listSession :: "jstring \<Rightarrow> api_call option" where
  "audit_listSession sessionId = audit_listPath (below (sessionPath sessionId) ''/operator-audit'')"

section \<open>\<open>services/quota-policies.ts\<close>\<close>

definition quotaPolicies_list :: "jsval \<Rightarrow> api_call option" where
  "quotaPolicies_list includeArchived = json_field ''GET'' (with_query (Some
     (lit ''/v2/quota-policies'')) [(''include_archived'', jor includeArchived JUndef)]) JUndef ''policies''"

definition quotaPolicies_archiveApplication :: "jstring \<Rightarrow> jsnum \<Rightarrow> api_call option" where
  "quotaPolicies_archiveApplication appId expectedRevision = json_call_with ''DELETE'' (resourcePath
     (lit ''/v2/quota-policies/applications'') [JStr appId]) JUndef (if_match expectedRevision)"

definition quotaPolicies_effective :: "jsval \<Rightarrow> api_call option" where
  "quotaPolicies_effective appId = json_call ''GET'' (with_query (Some (lit ''/v2/quota-policies/effective'')) [(''app_id'', appId)]) JUndef"

definition quotaPolicies_put :: "jstring option \<Rightarrow> jsval \<Rightarrow> jsnum option \<Rightarrow> api_call option" where
  "quotaPolicies_put path request expectedRevision = json_call_with ''PUT'' path request
     (case expectedRevision of None \<Rightarrow> [] | Some r \<Rightarrow> if_match r)"

definition quotaPolicies_putWorkspace :: "jsval \<Rightarrow> jsnum option \<Rightarrow> api_call option" where
  "quotaPolicies_putWorkspace request expectedRevision = quotaPolicies_put (Some (lit ''/v2/quota-policies/workspace'')) request expectedRevision"

definition quotaPolicies_putApplication :: "jstring \<Rightarrow> jsval \<Rightarrow> jsnum option \<Rightarrow> api_call option" where
  "quotaPolicies_putApplication appId request expectedRevision = quotaPolicies_put (resourcePath
     (lit ''/v2/quota-policies/applications'') [JStr appId]) request expectedRevision"

section \<open>\<open>services/retrieval.ts\<close>\<close>

definition retrievalCollectionsPath :: "jstring option" where
  "retrievalCollectionsPath = Some (lit ''/v2/retrieval/collections'')"

definition retrievalCollectionPath :: "jstring \<Rightarrow> jstring option" where
  "retrievalCollectionPath collectionId = resource_below retrievalCollectionsPath [JStr collectionId]"

definition retrievalDocumentPath :: "jstring \<Rightarrow> jstring option" where
  "retrievalDocumentPath documentId = resourcePath (lit ''/v2/retrieval/documents'') [JStr documentId]"

definition retrieval_collections_create :: "jsval \<Rightarrow> api_call option" where
  "retrieval_collections_create request = json_call ''POST'' retrievalCollectionsPath request"

definition retrieval_collections_list :: "api_call option" where
  "retrieval_collections_list = json_field ''GET'' retrievalCollectionsPath JUndef ''collections''"

definition retrieval_collections_delete :: "jstring \<Rightarrow> api_call option" where
  "retrieval_collections_delete collectionId = plain_call ''DELETE'' (retrievalCollectionPath collectionId) JUndef []"

definition retrieval_documents_list :: "jstring \<Rightarrow> api_call option" where
  "retrieval_documents_list collectionId = json_field ''GET'' (below (retrievalCollectionPath collectionId) ''/documents'') JUndef ''documents''"

definition retrieval_documents_get :: "jstring \<Rightarrow> api_call option" where
  "retrieval_documents_get documentId = json_call ''GET'' (retrievalDocumentPath documentId) JUndef"

definition retrieval_documents_delete :: "jstring \<Rightarrow> api_call option" where
  "retrieval_documents_delete documentId = plain_call ''DELETE'' (retrievalDocumentPath documentId) JUndef []"

definition retrieval_ingestionJobs_get :: "jstring \<Rightarrow> api_call option" where
  "retrieval_ingestionJobs_get jobId = json_call ''GET'' (resourcePath (lit ''/v2/retrieval/ingestion-jobs'') [JStr jobId]) JUndef"

definition retrieval_search :: "jsval \<Rightarrow> api_call option" where
  "retrieval_search request = json_call ''POST'' (Some (lit ''/v2/retrieval/search'')) request"

definition retrieval_documents_upload :: "jstring \<Rightarrow>
     (jstring \<times> jstring) list \<Rightarrow> upload_file \<Rightarrow> api_call option" where
  "retrieval_documents_upload collectionId parts f = form_call ''POST'' (below (retrievalCollectionPath collectionId) ''/documents'')
     (upload_form parts f)"

section \<open>\<open>services/model-runtime.ts\<close>\<close>

definition modelRuntime_generate :: "jsval \<Rightarrow> api_call option" where
  "modelRuntime_generate request = json_call ''POST'' (Some (lit ''/v2/model-runtime/generate'')) request"

definition modelRuntime_embed :: "jsval \<Rightarrow> api_call option" where
  "modelRuntime_embed request = json_call ''POST'' (Some (lit ''/v2/model-runtime/embeddings'')) request"

definition modelRuntime_rerank :: "jsval \<Rightarrow> api_call option" where
  "modelRuntime_rerank request = json_call ''POST'' (Some (lit ''/v2/model-runtime/rerank'')) request"

definition modelRuntime_invocations :: "(jsval \<Rightarrow> jstring option) \<Rightarrow> jsval \<Rightarrow> api_call option" where
  "modelRuntime_invocations iso_text query = json_call ''GET'' (with_query (Some
     (lit ''/v2/model-runtime/invocations'')) [(''principal_id'', dot query ''principalId''),
     (''service_identity_id'', dot query ''serviceIdentityId''), (''capability'', dot query ''capability''),
     (''provider_id'', dot query ''providerId''), (''model'', dot query ''model''), (''status'', dot query ''status''),
     (''from'', formatTime iso_text (dot query ''from'')), (''to'', formatTime iso_text (dot query ''to'')),
     (''limit'', dot query ''limit'')]) JUndef"

definition modelRuntime_connectMultimodalRealtime :: "(jstring \<Rightarrow> jstring option) \<Rightarrow>
     (jstring \<Rightarrow> jstring \<Rightarrow> jstring) \<Rightarrow> transport \<Rightarrow> jstring option" where
  "modelRuntime_connectMultimodalRealtime protocol_of with_protocol tr = web_socket_url protocol_of with_protocol tr
     (lit ''/v2/model-runtime/multimodal/realtime'')"

definition speech_realtimeURL :: "(jstring \<Rightarrow> jstring option) \<Rightarrow>
     (jstring \<Rightarrow> jstring \<Rightarrow> jstring) \<Rightarrow> transport \<Rightarrow> jstring option" where
  "speech_realtimeURL protocol_of with_protocol tr = web_socket_url protocol_of with_protocol tr (lit ''/v2/speech/realtime'')"

section \<open>\<open>services/traces.ts\<close>\<close>

definition traceResourcePath :: "jstring \<Rightarrow> jstring option" where
  "traceResourcePath traceId = resourcePath (lit ''/v2/traces'') [JStr traceId]"

definition traces_list :: "jsval \<Rightarrow> api_call option" where
  "traces_list query = json_call ''GET'' (with_query (Some (lit ''/v2/traces'')) [(''workspace_id'', dot query ''workspaceId''),
     (''session_id'', dot query ''sessionId''), (''turn_id'', dot query ''turnId''), (''session_status'', dot query ''sessionStatus''),
     (''include_archived'', jor (dot query ''includeArchived'') JUndef), (''limit'', dot query ''limit''),
     (''cursor'', dot query ''cursor'')]) JUndef"

definition traces_get :: "jstring \<Rightarrow> api_call option" where
  "traces_get traceId = json_call ''GET'' (traceResourcePath traceId) JUndef"

definition traces_listSpans :: "jsval \<Rightarrow> api_call option" where
  "traces_listSpans query = json_call ''GET'' (with_query (Some (lit ''/v2/spans'')) [(''workspace_id'', dot query ''workspaceId''),
     (''trace_id'', dot query ''traceId''), (''session_id'', dot query ''sessionId''), (''turn_id'', dot query ''turnId''),
     (''kind'', dot query ''kind''), (''status'', dot query ''status''), (''q'', dot query ''search''), (''critical'', dot query ''critical''),
     (''min_duration_ms'', dot query ''minDurationMs''), (''max_duration_ms'', dot query ''maxDurationMs''),
     (''min_self_duration_ms'', dot query ''minSelfDurationMs''), (''include_archived'', jor (dot query ''includeArchived'') JUndef),
     (''limit'', dot query ''limit''), (''cursor'', dot query ''cursor'')]) JUndef"

definition traces_getSpan :: "jstring \<Rightarrow> jstring \<Rightarrow> api_call option" where
  "traces_getSpan traceId spanId = json_call ''GET'' (resource_below (below (traceResourcePath traceId) ''/spans'') [JStr spanId]) JUndef"

definition traces_getSession :: "jstring \<Rightarrow> jsval \<Rightarrow> api_call option" where
  "traces_getSession sessionId turnId = json_call ''GET'' (with_query (below (sessionPath sessionId) ''/trace'') [(''turn_id'', turnId)]) JUndef"

definition traces_exportSession :: "jstring \<Rightarrow> jstring \<Rightarrow> jsval \<Rightarrow> api_call option" where
  "traces_exportSession sessionId format turnId = json_call ''GET'' (with_query (below (sessionPath sessionId) ''/trace'') [(''turn_id'', turnId),
     (''format'', JStr format)]) JUndef"

section \<open>\<open>services/tenant-administration.ts\<close>\<close>

definition tenantWorkspaceMembersPath :: "jstring \<Rightarrow> jstring option" where
  "tenantWorkspaceMembersPath workspaceId = below (resourcePath (lit ''/v2/platform/workspaces'') [JStr workspaceId]) ''/members''"

definition tenantAdministration_context :: "api_call option" where
  "tenantAdministration_context = json_call ''GET'' (Some (lit ''/v2/administration/context'')) JUndef"

definition tenantAdministration_listCurrentWorkspaceMembers :: "api_call option" where
  "tenantAdministration_listCurrentWorkspaceMembers = json_field ''GET'' (Some (lit ''/v2/workspace/members'')) JUndef ''members''"

definition tenantAdministration_upsertCurrentWorkspaceMember :: "jstring \<Rightarrow> jsval \<Rightarrow> api_call option" where
  "tenantAdministration_upsertCurrentWorkspaceMember subject request = json_call ''PUT'' (resourcePath
     (lit ''/v2/workspace/members'') [JStr subject]) request"

definition tenantAdministration_deleteCurrentWorkspaceMember :: "jstring \<Rightarrow> api_call option" where
  "tenantAdministration_deleteCurrentWorkspaceMember subject = json_call ''DELETE'' (resourcePath
     (lit ''/v2/workspace/members'') [JStr subject]) JUndef"

definition tenantAdministration_listTenantWorkspaces :: "api_call option" where
  "tenantAdministration_listTenantWorkspaces = json_field ''GET'' (Some (lit ''/v2/platform/workspaces'')) JUndef ''workspaces''"

definition tenantAdministration_createTenantWorkspace :: "jsval \<Rightarrow> api_call option" where
  "tenantAdministration_createTenantWorkspace request = json_call ''POST'' (Some (lit ''/v2/platform/workspaces'')) request"

definition tenantAdministration_listTenantWorkspaceMembers :: "jstring \<Rightarrow> api_call option" where
  "tenantAdministration_listTenantWorkspaceMembers workspaceId = json_field ''GET'' (tenantWorkspaceMembersPath workspaceId) JUndef ''members''"

definition tenantAdministration_upsertTenantWorkspaceMember :: "jstring \<Rightarrow> jstring \<Rightarrow> jsval \<Rightarrow> api_call option" where
  "tenantAdministration_upsertTenantWorkspaceMember workspaceId subject request = json_call ''PUT'' (resource_below
     (tenantWorkspaceMembersPath workspaceId) [JStr subject]) request"

definition tenantAdministration_deleteTenantWorkspaceMember :: "jstring \<Rightarrow> jstring \<Rightarrow> api_call option" where
  "tenantAdministration_deleteTenantWorkspaceMember workspaceId subject = json_call ''DELETE'' (resource_below
     (tenantWorkspaceMembersPath workspaceId) [JStr subject]) JUndef"

definition tenantAdministration_listPlatformAdmins :: "api_call option" where
  "tenantAdministration_listPlatformAdmins = json_field ''GET'' (Some (lit ''/v2/platform/admins'')) JUndef ''admins''"

definition tenantAdministration_upsertPlatformAdmin :: "jstring \<Rightarrow> jsval \<Rightarrow> api_call option" where
  "tenantAdministration_upsertPlatformAdmin subject request = json_call ''PUT'' (resourcePath (lit ''/v2/platform/admins'') [JStr subject]) request"

definition tenantAdministration_deletePlatformAdmin :: "jstring \<Rightarrow> api_call option" where
  "tenantAdministration_deletePlatformAdmin subject = json_call ''DELETE'' (resourcePath (lit ''/v2/platform/admins'') [JStr subject]) JUndef"

section \<open>\<open>services/service-identities.ts\<close>\<close>

definition serviceIdentityPath :: "jstring \<Rightarrow> jstring option" where
  "serviceIdentityPath identityId = resourcePath (lit ''/v2/service-identities'') [JStr identityId]"

definition serviceIdentities_scopes :: "api_call option" where
  "serviceIdentities_scopes = json_field ''GET'' (Some (lit ''/v2/service-identities/scopes'')) JUndef ''scopes''"

definition serviceIdentities_list :: "api_call option" where
  "serviceIdentities_list = json_field ''GET'' (Some (lit ''/v2/service-identities'')) JUndef ''service_identities''"

definition serviceIdentities_create :: "jsval \<Rightarrow> api_call option" where
  "serviceIdentities_create request = json_call ''POST'' (Some (lit ''/v2/service-identities'')) request"

definition serviceIdentities_get :: "jstring \<Rightarrow> api_call option" where
  "serviceIdentities_get identityId = json_call ''GET'' (serviceIdentityPath identityId) JUndef"

definition serviceIdentities_update :: "jstring \<Rightarrow> jsval \<Rightarrow> api_call option" where
  "serviceIdentities_update identityId request = json_call ''PATCH'' (serviceIdentityPath identityId) request"

definition serviceIdentities_credentials :: "jstring \<Rightarrow> api_call option" where
  "serviceIdentities_credentials identityId = json_field ''GET'' (below (serviceIdentityPath identityId) ''/credentials'') JUndef ''credentials''"

definition serviceIdentities_createCredential :: "jstring \<Rightarrow> jsval \<Rightarrow> api_call option" where
  "serviceIdentities_createCredential identityId request = json_call ''POST'' (below (serviceIdentityPath identityId) ''/credentials'') request"

definition serviceIdentities_revokeCredential :: "jstring \<Rightarrow> jstring \<Rightarrow> api_call option" where
  "serviceIdentities_revokeCredential identityId credentialId = json_call ''DELETE'' (encoded_below
     (serviceIdentityPath identityId) ''/credentials/'' credentialId) JUndef"

section \<open>\<open>services/workers.ts\<close>\<close>

definition workerPath :: "jstring \<Rightarrow> jstring option" where
  "workerPath workerId = resourcePath (lit ''/v2/workers'') [JStr workerId]"

definition workPath :: "jstring \<Rightarrow> jstring option" where
  "workPath workId = resourcePath (lit ''/v2/worker-work'') [JStr workId]"

definition workers_list :: "jsval \<Rightarrow> api_call option" where
  "workers_list query = json_field ''GET'' (with_query (Some (lit ''/v2/workers'')) [(''workspace_id'', dot query ''workspaceId''),
     (''status'', dot query ''status'')]) JUndef ''workers''"

definition workers_get :: "jstring \<Rightarrow> api_call option" where
  "workers_get workerId = json_call ''GET'' (workerPath workerId) JUndef"

definition workers_archive :: "jstring \<Rightarrow> api_call option" where
  "workers_archive workerId = json_call ''POST'' (below (workerPath workerId) ''/archive'') no_body"

definition workers_reapExpired :: "jsval \<Rightarrow> api_call option" where
  "workers_reapExpired request = json_call ''POST'' (Some (lit ''/v2/workers/reap-expired'')) (default_body request)"

definition workers_diagnose :: "jsval \<Rightarrow> api_call option" where
  "workers_diagnose request = json_call ''POST'' (Some (lit ''/v2/workers/diagnose'')) request"

definition workerWork_enqueue :: "jsval \<Rightarrow> api_call option" where
  "workerWork_enqueue request = json_call ''POST'' (Some (lit ''/v2/worker-work'')) request"

definition workerWork_get :: "jstring \<Rightarrow> api_call option" where
  "workerWork_get workId = json_call ''GET'' (workPath workId) JUndef"

definition workerWork_reapExpired :: "jsval \<Rightarrow> api_call option" where
  "workerWork_reapExpired request = json_call ''POST'' (Some (lit ''/v2/worker-work/reap-expired'')) (default_body request)"

definition workerWork_cancel :: "jstring \<Rightarrow> jsval \<Rightarrow> api_call option" where
  "workerWork_cancel workId request = json_call ''POST'' (below (workPath workId) ''/cancel'') (default_body request)"

definition workerWork_requeue :: "jstring \<Rightarrow> jsval \<Rightarrow> api_call option" where
  "workerWork_requeue workId request = json_call ''POST'' (below (workPath workId) ''/requeue'') (default_body request)"

definition workerWork_diagnose :: "jstring \<Rightarrow> api_call option" where
  "workerWork_diagnose workId = json_call ''GET'' (below (workPath workId) ''/diagnose'') JUndef"

section \<open>\<open>services/workspace-tool-permissions.ts\<close>\<close>

definition toolPermissionsPath :: "jstring \<Rightarrow> jstring option" where
  "toolPermissionsPath workspaceId = below (resourcePath (lit ''/v2/workspaces'') [JStr workspaceId]) ''/tool-permissions''"

definition workspaceToolPermissions_get :: "jstring \<Rightarrow> api_call option" where
  "workspaceToolPermissions_get workspaceId = json_call ''GET'' (toolPermissionsPath workspaceId) JUndef"

definition workspaceToolPermissions_update :: "jstring \<Rightarrow> jsnum \<Rightarrow> jsval \<Rightarrow> api_call option" where
  "workspaceToolPermissions_update workspaceId expectedRevision request = json_call_with ''PUT'' (toolPermissionsPath workspaceId) request
     (if_match expectedRevision)"

definition workspaceToolPermissions_evaluate :: "jstring \<Rightarrow> jsval \<Rightarrow> api_call option" where
  "workspaceToolPermissions_evaluate workspaceId request = json_call ''POST'' (below (toolPermissionsPath workspaceId) ''/evaluate'') request"


end
