(* ===== verification/Server_Routes.thy ===== *)
theory Server_Routes
  imports SDK_Services
begin

text \<open>
  The other end of the SDK: the routes the server registers (\<open>internal/httpapi/server.go\<close>, \<open>server_v2.go\<close> and the files that register the
  routes of one resource) and the alias that serves the paths of version 2 with the routes of version 1. For every call of every service that
  carries its own path, the server has a route with the method of the call that reads exactly the ids of the call from the path.

  \<open>net/http\<close> matches a pattern segment by segment, after it has decoded each of them. The alias is different: it takes the rest of the path
  as one decoded text and matches that again, so a slash inside an id separates segments there.
\<close>

section \<open>Routes\<close>

datatype seg = S string | V | Rest

type_synonym route_table = "(string \<times> (string \<times> seg list) list) list"

text \<open>What a pattern reads from the names of a path: one name for a wildcard, the rest for \<open>{name...}\<close>.\<close>

fun route_values :: "seg list \<Rightarrow> jstring list \<Rightarrow> jstring list option" where
  "route_values [] [] = Some []"
| "route_values [Rest] names = Some [join (lit ''/'') names]"
| "route_values (S s # p) (n # names) = (if n = lit s then route_values p names else None)"
| "route_values (V # p) (n # names) = map_option (\<lambda>vs. n # vs) (route_values p names)"
| "route_values _ _ = None"

text \<open>The routes of a version, by the first segment of the pattern. \<open>v2_routes\<close> are the patterns below \<open>/v2/\<close> (without the alias), \<open>v1_routes\<close> those
  below \<open>/v1/\<close>.\<close>

definition v2_auth :: "(string \<times> seg list) list" where
  "v2_auth = [(''POST'', [S ''token-exchange''])]"

definition v2_sessions :: "(string \<times> seg list) list" where
  "v2_sessions = [(''POST'', [V, S ''runs'']), (''GET'', [V, S ''runs'']), (''GET'', [V, S ''runs'', V]),
     (''GET'', [V, S ''runs'', V, S ''attempts'']), (''GET'', [V, S ''runs'', V, S ''attempts'', V]),
     (''POST'', [V, S ''runs'', V, S ''cancel'']), (''GET'', [V, S ''runs'', V, S ''events'']),
     (''GET'', [V, S ''runs'', V, S ''events'', S ''stream'']), (''GET'', [V, S ''live'', S ''stream''])]"

definition v2_model_runtime :: "(string \<times> seg list) list" where
  "v2_model_runtime = [(''POST'', [S ''generate'']), (''POST'', [S ''embeddings'']), (''POST'', [S ''rerank'']),
     (''GET'', [S ''multimodal'', S ''realtime'']), (''GET'', [S ''invocations''])]"

definition v2_speech :: "(string \<times> seg list) list" where
  "v2_speech = [(''GET'', [S ''realtime''])]"

definition v2_r_survival_projects :: "(string \<times> seg list) list" where
  "v2_r_survival_projects = [(''GET'', []), (''POST'', []), (''PATCH'', [V]), (''POST'', [V, S ''sync'']),
     (''POST'', [V, S ''runtime'', S ''start'']), (''POST'', [V, S ''runtime'', S ''stop'']),
     (''POST'', [V, S ''runtime'', S ''run-cleaning''])]"

definition v2_retrieval :: "(string \<times> seg list) list" where
  "v2_retrieval = [(''GET'', [S ''collections'']), (''POST'', [S ''collections'']), (''DELETE'', [S ''collections'', V]),
     (''GET'', [S ''collections'', V, S ''documents'']), (''POST'', [S ''collections'', V, S ''documents'']),
     (''GET'', [S ''documents'', V]), (''DELETE'', [S ''documents'', V]), (''GET'', [S ''ingestion-jobs'', V]), (''POST'', [S ''search''])]"

definition v2_knowledge :: "(string \<times> seg list) list" where
  "v2_knowledge = [(''GET'', [S ''bases'']), (''POST'', [S ''bases'']), (''DELETE'', [S ''bases'', V]),
     (''GET'', [S ''bases'', V, S ''documents'']), (''POST'', [S ''bases'', V, S ''documents'']), (''DELETE'', [S ''documents'', V]),
     (''GET'', [S ''services'']), (''POST'', [S ''services'']), (''GET'', [S ''services'', V]), (''PATCH'', [S ''services'', V]),
     (''DELETE'', [S ''services'', V]), (''POST'', [S ''services'', V, S ''ask'']), (''GET'', [S ''services'', V, S ''shares'']),
     (''POST'', [S ''services'', V, S ''shares'']), (''DELETE'', [S ''shares'', V]), (''POST'', [S ''shares'', V, S ''revoke''])]"

definition v2_public :: "(string \<times> seg list) list" where
  "v2_public = [(''GET'', [S ''knowledge-shares'', V]), (''POST'', [S ''knowledge-shares'', V, S ''ask''])]"

definition v2_capabilities :: "(string \<times> seg list) list" where
  "v2_capabilities = [(''GET'', [])]"

definition v2_quota_policies :: "(string \<times> seg list) list" where
  "v2_quota_policies = [(''GET'', []), (''PUT'', [S ''workspace'']), (''PUT'', [S ''applications'', V]),
     (''DELETE'', [S ''applications'', V]), (''GET'', [S ''effective''])]"

definition v2_administration :: "(string \<times> seg list) list" where
  "v2_administration = [(''GET'', [S ''context''])]"

definition v2_console :: "(string \<times> seg list) list" where
  "v2_console = [(''GET'', [S ''context''])]"

definition v2_workspace :: "(string \<times> seg list) list" where
  "v2_workspace = [(''GET'', [S ''members'']), (''PUT'', [S ''members'', V]), (''DELETE'', [S ''members'', V])]"

definition v2_platform :: "(string \<times> seg list) list" where
  "v2_platform = [(''GET'', [S ''workspaces'']), (''POST'', [S ''workspaces'']), (''GET'', [S ''workspaces'', V, S ''members'']),
     (''PUT'', [S ''workspaces'', V, S ''members'', V]), (''DELETE'', [S ''workspaces'', V, S ''members'', V]), (''GET'', [S ''admins'']),
     (''PUT'', [S ''admins'', V]), (''DELETE'', [S ''admins'', V])]"

definition v2_service_identities :: "(string \<times> seg list) list" where
  "v2_service_identities = [(''GET'', [S ''scopes'']), (''GET'', []), (''POST'', []), (''GET'', [V]), (''PATCH'', [V]),
     (''GET'', [V, S ''credentials'']), (''POST'', [V, S ''credentials'']), (''DELETE'', [V, S ''credentials'', V])]"

definition v2_application_manifests :: "(string \<times> seg list) list" where
  "v2_application_manifests = [(''POST'', [S ''publish''])]"

definition v2_event_subscriptions :: "(string \<times> seg list) list" where
  "v2_event_subscriptions = [(''GET'', [S ''event-types'']), (''GET'', []), (''POST'', []), (''GET'', [V]), (''PATCH'', [V]),
     (''DELETE'', [V]), (''POST'', [V, S ''rotate-secret'']), (''GET'', [V, S ''deliveries'']),
     (''POST'', [V, S ''deliveries'', V, S ''replay''])]"

definition v2_artifact_exchanges :: "(string \<times> seg list) list" where
  "v2_artifact_exchanges = [(''POST'', [S ''imports'']), (''POST'', [S ''exports'']), (''GET'', [V]), (''GET'', [V, S ''content'']),
     (''PUT'', [V, S ''content''])]"

definition v2_routes :: route_table where
  "v2_routes = [(''auth'', v2_auth), (''sessions'', v2_sessions), (''model-runtime'', v2_model_runtime), (''speech'', v2_speech),
     (''r-survival-projects'', v2_r_survival_projects), (''retrieval'', v2_retrieval), (''knowledge'', v2_knowledge),
     (''public'', v2_public), (''capabilities'', v2_capabilities), (''quota-policies'', v2_quota_policies),
     (''administration'', v2_administration), (''console'', v2_console), (''workspace'', v2_workspace), (''platform'', v2_platform),
     (''service-identities'', v2_service_identities), (''application-manifests'', v2_application_manifests),
     (''event-subscriptions'', v2_event_subscriptions), (''artifact-exchanges'', v2_artifact_exchanges)]"

definition v1_auth :: "(string \<times> seg list) list" where
  "v1_auth = [(''GET'', [S ''me'']), (''GET'', [S ''config''])]"

definition v1_workbench_projects :: "(string \<times> seg list) list" where
  "v1_workbench_projects = [(''GET'', []), (''POST'', []), (''PATCH'', [V]), (''POST'', [V, S ''sync'']),
     (''POST'', [V, S ''runtime'', S ''start'']), (''POST'', [V, S ''runtime'', S ''stop'']),
     (''POST'', [V, S ''runtime'', S ''run-cleaning''])]"

definition v1_agent :: "(string \<times> seg list) list" where
  "v1_agent = [(''GET'', [S ''task-group-templates'']), (''GET'', [S ''discussion-strategies''])]"

definition v1_task_templates :: "(string \<times> seg list) list" where
  "v1_task_templates = [(''GET'', [])]"

definition v1_traces :: "(string \<times> seg list) list" where
  "v1_traces = [(''GET'', []), (''GET'', [V]), (''GET'', [V, S ''spans'', V])]"

definition v1_spans :: "(string \<times> seg list) list" where
  "v1_spans = [(''GET'', [])]"

definition v1_observability :: "(string \<times> seg list) list" where
  "v1_observability = [(''GET'', [S ''status'']), (''POST'', [S ''retry'']), (''GET'', [S ''security-audit'', S ''integrity-keys'']),
     (''POST'', [S ''security-audit'', S ''replay''])]"

definition v1_object_cleanup :: "(string \<times> seg list) list" where
  "v1_object_cleanup = [(''GET'', [S ''jobs'']), (''GET'', [S ''stats'']), (''POST'', [S ''jobs'', V, S ''retry'']),
     (''POST'', [S ''jobs'', V, S ''approve'']), (''POST'', [S ''reconciliation'', S ''preview'']),
     (''POST'', [S ''reconciliation'', S ''artifacts''])]"

definition v1_llm_providers :: "(string \<times> seg list) list" where
  "v1_llm_providers = [(''GET'', []), (''POST'', []), (''GET'', [V]), (''PATCH'', [V]), (''POST'', [V, S ''enable'']),
     (''POST'', [V, S ''disable'']), (''POST'', [V, S ''test'']), (''DELETE'', [V])]"

definition v1_llm_models :: "(string \<times> seg list) list" where
  "v1_llm_models = [(''GET'', []), (''POST'', []), (''POST'', [V, V, S ''test'']), (''DELETE'', [V, Rest])]"

definition v1_llm_usage :: "(string \<times> seg list) list" where
  "v1_llm_usage = [(''GET'', [])]"

definition v1_workers :: "(string \<times> seg list) list" where
  "v1_workers = [(''POST'', []), (''GET'', []), (''POST'', [S ''diagnose'']), (''POST'', [S ''reap-expired'']), (''GET'', [V]),
     (''POST'', [V, S ''heartbeat'']), (''POST'', [V, S ''archive'']), (''GET'', [V, S ''work'', S ''poll'']),
     (''POST'', [V, S ''work'', V, S ''ack'']), (''POST'', [V, S ''work'', V, S ''heartbeat'']),
     (''POST'', [V, S ''work'', V, S ''result''])]"

definition v1_worker_work :: "(string \<times> seg list) list" where
  "v1_worker_work = [(''POST'', []), (''POST'', [S ''reap-expired'']), (''GET'', [V]), (''GET'', [V, S ''diagnose'']),
     (''POST'', [V, S ''cancel'']), (''POST'', [V, S ''requeue''])]"

definition v1_object_refs :: "(string \<times> seg list) list" where
  "v1_object_refs = [(''POST'', []), (''GET'', [V]), (''GET'', [V, S ''download'']), (''DELETE'', [V])]"

definition v1_skills :: "(string \<times> seg list) list" where
  "v1_skills = [(''POST'', [S ''resolve-preview'']), (''GET'', [S ''marketplace'', S ''discover'']),
     (''POST'', [S ''marketplace'', S ''preview'']), (''POST'', [S ''marketplace'', S ''install'']),
     (''GET'', [S ''marketplace'', S ''internal'']), (''POST'', [S ''marketplace'', S ''internal'', S ''preview'']),
     (''POST'', [S ''marketplace'', S ''internal'', S ''install'']), (''POST'', []), (''GET'', []), (''GET'', [V]),
     (''POST'', [V, S ''versions'']), (''GET'', [V, S ''draft'']), (''PUT'', [V, S ''draft'']), (''POST'', [V, S ''draft'', S ''publish'']),
     (''POST'', [V, S ''fork'']), (''GET'', [V, S ''versions'']), (''GET'', [V, S ''versions'', V]),
     (''GET'', [V, S ''versions'', V, S ''package'']), (''POST'', [V, S ''enable'']), (''POST'', [V, S ''disable'']),
     (''POST'', [V, S ''archive''])]"

definition v1_skill_packages :: "(string \<times> seg list) list" where
  "v1_skill_packages = [(''POST'', [S ''backfill''])]"

definition v1_skill_marketplace_entries :: "(string \<times> seg list) list" where
  "v1_skill_marketplace_entries = [(''POST'', []), (''GET'', []), (''GET'', [V]), (''PATCH'', [V]), (''POST'', [V, S ''submit'']),
     (''POST'', [V, S ''publish'']), (''POST'', [V, S ''withdraw''])]"

definition v1_skill_marketplace_policies :: "(string \<times> seg list) list" where
  "v1_skill_marketplace_policies = [(''POST'', []), (''GET'', []), (''GET'', [V]), (''POST'', [V, S ''versions'']),
     (''GET'', [V, S ''versions'', V]), (''POST'', [V, S ''archive''])]"

definition v1_skill_asset_retention :: "(string \<times> seg list) list" where
  "v1_skill_asset_retention = [(''GET'', [S ''effective'']), (''POST'', [S ''policies'']), (''GET'', [S ''policies'']),
     (''GET'', [S ''policies'', V]), (''POST'', [S ''policies'', V, S ''versions'']), (''GET'', [S ''policies'', V, S ''versions'', V]),
     (''POST'', [S ''policies'', V, S ''archive''])]"

definition v1_skill_asset_gc :: "(string \<times> seg list) list" where
  "v1_skill_asset_gc = [(''POST'', [S ''preview'']), (''POST'', [S ''run'']), (''GET'', [S ''runs'']), (''GET'', [S ''runs'', V]),
     (''GET'', [S ''tombstones''])]"

definition v1_agents :: "(string \<times> seg list) list" where
  "v1_agents = [(''POST'', []), (''POST'', [S ''import'']), (''GET'', [S ''default'']), (''GET'', []), (''GET'', [V]),
     (''GET'', [V, S ''export'']), (''PATCH'', [V]), (''GET'', [V, S ''config-versions'']), (''POST'', [V, S ''config-versions'']),
     (''POST'', [V, S ''config-versions'', V, S ''rollback'']), (''POST'', [V, S ''tooling-health'']), (''POST'', [V, S ''schedules'']),
     (''GET'', [V, S ''schedules'']), (''GET'', [V, S ''schedules'', V]), (''PATCH'', [V, S ''schedules'', V]),
     (''DELETE'', [V, S ''schedules'', V]), (''POST'', [V, S ''schedules'', V, S ''run''])]"

definition v1_workspaces :: "(string \<times> seg list) list" where
  "v1_workspaces = [(''GET'', [V, S ''tool-permissions'']), (''PUT'', [V, S ''tool-permissions'']),
     (''POST'', [V, S ''tool-permissions'', S ''evaluate''])]"

definition v1_mcp_servers :: "(string \<times> seg list) list" where
  "v1_mcp_servers = [(''GET'', []), (''GET'', [S ''runtime-status'']), (''POST'', []), (''GET'', [V]), (''PATCH'', [V]), (''DELETE'', [V]),
     (''POST'', [V, S ''enable'']), (''POST'', [V, S ''disable'']), (''POST'', [V, S ''test'']), (''GET'', [V, S ''versions'']),
     (''POST'', [V, S ''versions'', V, S ''restore''])]"

definition v1_environments :: "(string \<times> seg list) list" where
  "v1_environments = [(''POST'', []), (''GET'', []), (''GET'', [V])]"

definition v1_environment_variables :: "(string \<times> seg list) list" where
  "v1_environment_variables = [(''GET'', []), (''PUT'', [V]), (''DELETE'', [V])]"

definition v1_sessions :: "(string \<times> seg list) list" where
  "v1_sessions = [(''POST'', []), (''GET'', []), (''GET'', [V]), (''PATCH'', [V]), (''GET'', [V, S ''runtime-config'']),
     (''GET'', [V, S ''runtime-capabilities'']), (''POST'', [V, S ''config'', S ''upgrade'']), (''PATCH'', [V, S ''runtime-settings'']),
     (''GET'', [V, S ''interventions'']), (''POST'', [V, S ''interventions'', V, V, S ''approve'']),
     (''POST'', [V, S ''interventions'', V, V, S ''reject'']), (''POST'', [V, S ''interventions'', V, V, S ''respond'']),
     (''POST'', [V, S ''interventions'', V, V, S ''skip'']), (''POST'', [V, S ''interventions'', V, V, S ''cancel'']),
     (''POST'', [V, S ''archive'']), (''POST'', [V, S ''restore'']), (''POST'', [V, S ''rerun'']), (''DELETE'', [V]),
     (''GET'', [V, S ''summary'']), (''GET'', [V, S ''task-plan'']), (''GET'', [V, S ''task-plans'']), (''GET'', [V, S ''trace'']),
     (''GET'', [V, S ''task-groups'']), (''GET'', [V, S ''task-group-tree'']), (''GET'', [V, S ''task-groups'', V]),
     (''GET'', [V, S ''deliberations'']), (''GET'', [V, S ''deliberations'', V]), (''POST'', [V, S ''deliberations'', V, S ''cancel'']),
     (''POST'', [V, S ''deliberations'', V, S ''participants'', V, S ''retry'']), (''POST'', [V, S ''task-groups'', V, S ''cancel'']),
     (''POST'', [V, S ''task-groups'', V, S ''retry'']), (''POST'', [V, S ''task-groups'', V, S ''items'', V, S ''retry'']),
     (''GET'', [V, S ''operator-audit'']), (''PUT'', [V, S ''summary'']), (''GET'', [V, S ''usage'']), (''GET'', [V, S ''skill-usages'']),
     (''POST'', [V, S ''artifacts'']), (''GET'', [V, S ''artifacts'']), (''GET'', [V, S ''artifacts'', V, S ''download'']),
     (''GET'', [V, S ''artifacts'', V, S ''preview'']), (''DELETE'', [V, S ''artifacts'', V]),
     (''POST'', [V, S ''artifacts'', S ''upload'']), (''POST'', [V, S ''artifacts'', V, S ''achievement-library'']),
     (''POST'', [V, S ''events'']), (''GET'', [V, S ''events'']), (''GET'', [V, S ''tool-permission-audit'']),
     (''GET'', [V, S ''events'', S ''stream''])]"

definition v1_subagents :: "(string \<times> seg list) list" where
  "v1_subagents = [(''POST'', [S ''reap-orphans''])]"

definition v1_operator_audit :: "(string \<times> seg list) list" where
  "v1_operator_audit = [(''GET'', [])]"

definition v1_session_comparisons :: "(string \<times> seg list) list" where
  "v1_session_comparisons = [(''GET'', [])]"

definition v1_run_comparisons :: "(string \<times> seg list) list" where
  "v1_run_comparisons = [(''GET'', [])]"

definition v1_evaluation_rubrics :: "(string \<times> seg list) list" where
  "v1_evaluation_rubrics = [(''POST'', []), (''GET'', []), (''GET'', [V])]"

definition v1_run_evaluations :: "(string \<times> seg list) list" where
  "v1_run_evaluations = [(''POST'', []), (''POST'', [S ''auto'']), (''GET'', [])]"

definition v1_evaluation_datasets :: "(string \<times> seg list) list" where
  "v1_evaluation_datasets = [(''POST'', []), (''GET'', []), (''GET'', [V])]"

definition v1_evaluation_experiments :: "(string \<times> seg list) list" where
  "v1_evaluation_experiments = [(''POST'', []), (''GET'', []), (''GET'', [V]), (''POST'', [V, S ''reconcile''])]"

definition v1_achievement_library :: "(string \<times> seg list) list" where
  "v1_achievement_library = [(''GET'', []), (''PATCH'', [V]), (''DELETE'', [V]), (''GET'', [V, S ''download'']),
     (''POST'', [V, S ''reference''])]"

definition v1_routes :: route_table where
  "v1_routes = [(''auth'', v1_auth), (''workbench-projects'', v1_workbench_projects), (''agent'', v1_agent),
     (''task-templates'', v1_task_templates), (''traces'', v1_traces), (''spans'', v1_spans), (''observability'', v1_observability),
     (''object-cleanup'', v1_object_cleanup), (''llm-providers'', v1_llm_providers), (''llm-models'', v1_llm_models),
     (''llm-usage'', v1_llm_usage), (''workers'', v1_workers), (''worker-work'', v1_worker_work), (''object-refs'', v1_object_refs),
     (''skills'', v1_skills), (''skill-packages'', v1_skill_packages), (''skill-marketplace-entries'', v1_skill_marketplace_entries),
     (''skill-marketplace-policies'', v1_skill_marketplace_policies), (''skill-asset-retention'', v1_skill_asset_retention),
     (''skill-asset-gc'', v1_skill_asset_gc), (''agents'', v1_agents), (''workspaces'', v1_workspaces), (''mcp-servers'', v1_mcp_servers),
     (''environments'', v1_environments), (''environment-variables'', v1_environment_variables), (''sessions'', v1_sessions),
     (''subagents'', v1_subagents), (''operator-audit'', v1_operator_audit), (''session-comparisons'', v1_session_comparisons),
     (''run-comparisons'', v1_run_comparisons), (''evaluation-rubrics'', v1_evaluation_rubrics), (''run-evaluations'', v1_run_evaluations),
     (''evaluation-datasets'', v1_evaluation_datasets), (''evaluation-experiments'', v1_evaluation_experiments),
     (''achievement-library'', v1_achievement_library)]"

definition takes :: "route_table \<Rightarrow> jstring \<Rightarrow> jstring list \<Rightarrow> jstring list \<Rightarrow> bool" where
  "takes table method names ids = (case names of [] \<Rightarrow> False | n # ns \<Rightarrow>
     list_ex (\<lambda>(s, rs). n = lit s \<and> list_ex (\<lambda>(m, p). method = lit m \<and> route_values p ns = Some ids) rs) table)"

section \<open>The alias\<close>

definition relative_path :: "jstring list \<Rightarrow> jstring" where
  "relative_path names = slashed names"

definition has_suffix :: "jstring \<Rightarrow> string \<Rightarrow> bool" where
  "has_suffix s t \<longleftrightarrow> starts_with (rev s) (rev (lit t))"

definition v2AliasAllowed :: "jstring \<Rightarrow> jstring \<Rightarrow> bool" where
  "v2AliasAllowed method path \<longleftrightarrow>
     \<not> (method = lit ''GET'' \<and> path = lit ''/task-templates'')
   \<and> \<not> (method = lit ''POST'' \<and> path = lit ''/workers'')
   \<and> \<not> (method = lit ''POST'' \<and> has_suffix path ''/heartbeat'' \<and> starts_with path (lit ''/workers/''))
   \<and> \<not> (str_includes path (lit ''/work/poll'')
        \<or> (str_includes path (lit ''/work/'') \<and> (has_suffix path ''/ack'' \<or> has_suffix path ''/heartbeat'' \<or> has_suffix path ''/result'')))"

definition alias_names :: "jstring list \<Rightarrow> jstring list" where
  "alias_names names = split_on 47 (join (lit ''/'') names)"

definition served :: "jstring \<Rightarrow> jstring \<Rightarrow> jstring list \<Rightarrow> bool" where
  "served method path ids = (case targets path of
       Some (version # names) \<Rightarrow> version = lit ''v2''
         \<and> (takes v2_routes method names ids
            \<or> (v2AliasAllowed method (relative_path names) \<and> takes v1_routes method (alias_names names) ids))
     | _ \<Rightarrow> False)"

section \<open>The calls of the services\<close>

text \<open>All calls with a path of their own, and the ids in their paths.\<close>

definition session_calls :: "jstring \<Rightarrow> jstring \<Rightarrow> jstring \<Rightarrow> jsnum \<Rightarrow> jsval \<Rightarrow> jsval \<Rightarrow> jstring \<Rightarrow> jsnum \<Rightarrow> jsnum option
    \<Rightarrow> (jsval \<Rightarrow> jstring option) \<Rightarrow> (jstring \<times> jstring) list \<Rightarrow> upload_file \<Rightarrow> (api_call option \<times> jstring list) list" where
  "session_calls a b c n v u w r ro iso_text parts f = [
     (sessions_create v, []), (sessions_list v, []), (sessions_compare w w, []), (sessions_compareRuns w w w w, []), (sessions_get a, [a]),
     (sessions_updateMetadata a v, [a]), (sessions_delete a, [a]), (sessions_archive a, [a]), (sessions_restore a, [a]),
     (sessions_rerun a v, [a]), (sessions_upgradeConfig a v, [a]), (sessions_updateRuntimeSettings a r v, [a]), (sessions_runtimeConfig a, [a]),
     (sessions_runtimeCapabilities a, [a]), (sessions_summary a, [a]), (sessions_taskPlan a, [a]), (sessions_taskPlans a, [a]),
     (sessions_usage a, [a]), (sessions_listEvents a r, [a]), (sessions_appendEvents a v, [a]), (sessions_events a, [a]),
     (sessions_liveEvents a, [a]), (runs_get a b, [a, b]), (runs_list a, [a]), (runs_cancel a b, [a, b]), (runs_listAttempts a b, [a, b]),
     (runs_getAttempt a b c, [a, b, c]), (runs_listEvents a b r, [a, b]), (runs_events a b, [a, b]), (runs_start a v, [a]),
     (interventions_list a v, [a]), (interventions_approve a b c v u, [a, b, c]), (interventions_reject a b c v, [a, b, c]),
     (interventions_respond a b c v, [a, b, c]), (interventions_skip a b c v, [a, b, c]), (interventions_cancel a b c v, [a, b, c]),
     (artifacts_create a v, [a]), (artifacts_list a, [a]), (artifacts_download a b, [a, b]), (artifacts_delete a b, [a, b]),
     (artifacts_upload a parts f, [a]), (artifacts_preview a b (JStr w), [a, b]), (orchestration_taskGroupTemplates, []),
     (orchestration_discussionStrategies, []), (orchestration_listDeliberations a, [a]), (orchestration_listTaskGroups a, [a]),
     (orchestration_taskGroupTree a, [a]), (orchestration_reapOrphans v, []), (orchestration_getDeliberation a b, [a, b]),
     (orchestration_cancelDeliberation a b v, [a, b]), (orchestration_retryDeliberationParticipant a b n v, [a, b, num_str n]),
     (orchestration_getTaskGroup a b, [a, b]), (orchestration_cancelTaskGroup a b v, [a, b]), (orchestration_retryTaskGroup a b, [a, b]),
     (orchestration_retryTaskGroupItem a b n, [a, b, num_str n])]"

definition agent_calls :: "jstring \<Rightarrow> jstring \<Rightarrow> jstring \<Rightarrow> jsnum \<Rightarrow> jsval \<Rightarrow> jsval \<Rightarrow> jstring \<Rightarrow> jsnum \<Rightarrow> jsnum option
    \<Rightarrow> (jsval \<Rightarrow> jstring option) \<Rightarrow> (jstring \<times> jstring) list \<Rightarrow> upload_file \<Rightarrow> (api_call option \<times> jstring list) list" where
  "agent_calls a b c n v u w r ro iso_text parts f = [
     (agents_create v, []), (agents_default, []), (agents_list, []), (agents_listByApplication v, []), (agents_import v, []), (agents_get a, [a]),
     (agents_update a v, [a]), (agents_export a, [a]), (agents_listConfigVersions a, [a]), (agents_createConfigVersion a v, [a]),
     (agents_rollback a n, [a, num_str n]), (agents_toolingHealth a v, [a]), (environments_list, []), (environments_listByApplication v, []),
     (environments_get a, [a]), (environments_create v, []), (environmentVariables_list v, []), (environmentVariables_put a v v, [a]),
     (environmentVariables_delete a v, [a]), (mcp_runtimeStatus v, []), (mcp_create v, []), (mcp_list v, []), (mcp_get a, [a]),
     (mcp_update a v, [a]), (mcp_setEnabled a True, [a]), (mcp_setEnabled a False, [a]), (mcp_archive a, [a]), (mcp_test a, [a]),
     (mcp_versions a, [a]), (mcp_restoreVersion a n, [a, num_str n]), (llm_listProviders, []), (llm_createProvider v, []), (llm_listModels v, []),
     (llm_createModel v, []), (llm_updateModel r v, []), (llm_deleteModel a b r, [a, b]), (llm_testModel a b, [a, b]), (llm_usage iso_text v, []),
     (llm_getProvider a, [a]), (llm_updateProvider a r v, [a]), (llm_setProviderEnabled a r True, [a]), (llm_setProviderEnabled a r False, [a]),
     (llm_deleteProvider a r, [a]), (llm_testProvider a, [a]), (workspaceToolPermissions_get a, [a]),
     (workspaceToolPermissions_update a r v, [a]), (workspaceToolPermissions_evaluate a v, [a])]"

definition skill_calls :: "jstring \<Rightarrow> jstring \<Rightarrow> jstring \<Rightarrow> jsnum \<Rightarrow> jsval \<Rightarrow> jsval \<Rightarrow> jstring \<Rightarrow> jsnum \<Rightarrow> jsnum option
    \<Rightarrow> (jsval \<Rightarrow> jstring option) \<Rightarrow> (jstring \<times> jstring) list \<Rightarrow> upload_file \<Rightarrow> (api_call option \<times> jstring list) list" where
  "skill_calls a b c n v u w r ro iso_text parts f = [
     (skills_create v, []), (skills_list v, []), (skills_resolvePreview v, []), (skills_listUsages a v, [a]), (skills_backfillPackages v, []),
     (skills_effectiveRetentionPolicy v, []), (skills_createRetentionPolicy v, []), (skills_listRetentionPolicies v, []),
     (skills_previewAssetGC v, []), (skills_runAssetGC v, []), (skills_getAssetGCRun a, [a]), (skills_get a, [a]), (skills_archive a, [a]),
     (skills_createVersion a v, [a]), (skills_listVersions a, [a]), (skills_getVersion a n, [a, num_str n]),
     (skills_downloadPackage a n, [a, num_str n]), (skills_getRetentionPolicy a, [a]), (skills_publishRetentionPolicyVersion a v, [a]),
     (skills_getRetentionPolicyVersion a n, [a, num_str n]), (skills_archiveRetentionPolicy a, [a]), (skills_listAssetGCRuns v, []),
     (skills_listAssetGCTombstones v, []), (marketplace_discover v, []), (marketplace_preview v, []), (marketplace_install v, []),
     (marketplace_previewInternal v, []), (marketplace_installInternal v, []), (marketplace_enableInstalled a v, [a]),
     (marketplace_disableInstalled a v, [a]), (marketplace_createEntry v, []), (marketplace_listEntries v, []), (marketplace_createPolicy v, []),
     (marketplace_listPolicies v, []), (marketplace_getEntry a v, [a]), (marketplace_updateEntry a v, [a]), (marketplace_getPolicy a, [a]),
     (marketplace_publishPolicyVersion a v, [a]), (marketplace_getPolicyVersion a n, [a, num_str n]), (marketplace_archivePolicy a, [a]),
     (marketplace_browseInternal v, []), (marketplace_submitEntry a v, [a]), (marketplace_publishEntry a v, [a]),
     (marketplace_withdrawEntry a v, [a])]"

definition evaluation_calls :: "jstring \<Rightarrow> jstring \<Rightarrow> jstring \<Rightarrow> jsnum \<Rightarrow> jsval \<Rightarrow> jsval \<Rightarrow> jstring \<Rightarrow> jsnum \<Rightarrow> jsnum option
    \<Rightarrow> (jsval \<Rightarrow> jstring option) \<Rightarrow> (jstring \<times> jstring) list \<Rightarrow> upload_file \<Rightarrow> (api_call option \<times> jstring list) list" where
  "evaluation_calls a b c n v u w r ro iso_text parts f = [
     (evaluations_createRubric v, []), (evaluations_listRubrics v, []), (evaluations_getRubric a, [a]), (evaluations_createRunEvaluation v, []),
     (evaluations_autoEvaluate v, []), (evaluations_createDataset v, []), (evaluations_listDatasets v, []), (evaluations_getDataset a, [a]),
     (evaluations_createExperiment v, []), (evaluations_listExperiments v v, []), (evaluations_getExperiment a, [a]),
     (evaluations_reconcileExperiment a, [a]), (evaluations_listRunEvaluations v, []), (traces_list v, []), (traces_listSpans v, []),
     (traces_getSession a v, [a]), (traces_exportSession a w v, [a]), (traces_get a, [a]), (traces_getSpan a b, [a, b]),
     (observability_status, []), (observability_retry, []), (observability_integrityKeys, []), (audit_listToolPermissions a v, [a]),
     (audit_integrityKeys, []), (audit_replayDeadLetters v, []), (audit_list v, []), (audit_listSession a, [a]), (objectRefs_create v, []),
     (objectRefs_get a, [a]), (objectRefs_delete a, [a]), (objectRefs_download a v, [a]), (objectCleanup_previewReconciliation v, []),
     (objectCleanup_exportReconciliationArtifact v, []), (objectCleanup_list iso_text v, []), (objectCleanup_stats v, []),
     (objectCleanup_retry a v, [a]), (objectCleanup_approve a w v, [a]), (workers_list v, []), (workers_reapExpired v, []),
     (workers_diagnose v, []), (workers_get a, [a]), (workers_archive a, [a]), (workerWork_enqueue v, []), (workerWork_reapExpired v, []),
     (workerWork_get a, [a]), (workerWork_cancel a v, [a]), (workerWork_requeue a v, [a]), (workerWork_diagnose a, [a])]"

definition platform_calls :: "jstring \<Rightarrow> jstring \<Rightarrow> jstring \<Rightarrow> jsnum \<Rightarrow> jsval \<Rightarrow> jsval \<Rightarrow> jstring \<Rightarrow> jsnum \<Rightarrow> jsnum option
    \<Rightarrow> (jsval \<Rightarrow> jstring option) \<Rightarrow> (jstring \<times> jstring) list \<Rightarrow> upload_file \<Rightarrow> (api_call option \<times> jstring list) list" where
  "platform_calls a b c n v u w r ro iso_text parts f = [
     (auth_configuration, []), (auth_me, []), (auth_exchange v, []), (capabilities_list, []), (applicationManifests_publish v, []),
     (artifactExchanges_createImport v, []), (artifactExchanges_createExport v, []), (artifactExchanges_get a, [a]),
     (eventSubscriptions_eventTypes, []), (eventSubscriptions_create v, []), (eventSubscriptions_get a, [a]),
     (eventSubscriptions_update a v, [a]), (eventSubscriptions_disable a, [a]), (eventSubscriptions_rotateSecret a, [a]),
     (eventSubscriptions_replay a b, [a, b]), (eventSubscriptions_list v, []), (eventSubscriptions_deliveries a v, [a]),
     (quotaPolicies_list v, []), (quotaPolicies_archiveApplication a r, [a]), (quotaPolicies_effective v, []),
     (quotaPolicies_putWorkspace v ro, []), (quotaPolicies_putApplication a v ro, [a]), (retrieval_collections_create v, []),
     (retrieval_collections_list, []), (retrieval_collections_delete a, [a]), (retrieval_documents_list a, [a]), (retrieval_documents_get a, [a]),
     (retrieval_documents_delete a, [a]), (retrieval_documents_upload a parts f, [a]), (retrieval_ingestionJobs_get a, [a]),
     (retrieval_search v, []), (modelRuntime_generate v, []), (modelRuntime_embed v, []), (modelRuntime_rerank v, []),
     (modelRuntime_invocations iso_text v, []), (tenantAdministration_context, []), (tenantAdministration_listCurrentWorkspaceMembers, []),
     (tenantAdministration_upsertCurrentWorkspaceMember a v, [a]), (tenantAdministration_deleteCurrentWorkspaceMember a, [a]),
     (tenantAdministration_listTenantWorkspaces, []), (tenantAdministration_createTenantWorkspace v, []),
     (tenantAdministration_listPlatformAdmins, []), (tenantAdministration_upsertPlatformAdmin a v, [a]),
     (tenantAdministration_deletePlatformAdmin a, [a]), (tenantAdministration_listTenantWorkspaceMembers a, [a]),
     (tenantAdministration_upsertTenantWorkspaceMember a b v, [a, b]), (tenantAdministration_deleteTenantWorkspaceMember a b, [a, b]),
     (serviceIdentities_scopes, []), (serviceIdentities_list, []), (serviceIdentities_create v, []), (serviceIdentities_get a, [a]),
     (serviceIdentities_update a v, [a]), (serviceIdentities_credentials a, [a]), (serviceIdentities_createCredential a v, [a]),
     (serviceIdentities_revokeCredential a b, [a, b])]"

definition sdk_calls :: "jstring \<Rightarrow> jstring \<Rightarrow> jstring \<Rightarrow> jsnum \<Rightarrow> jsval \<Rightarrow> jsval \<Rightarrow> jstring \<Rightarrow> jsnum \<Rightarrow> jsnum option
    \<Rightarrow> (jsval \<Rightarrow> jstring option) \<Rightarrow> (jstring \<times> jstring) list \<Rightarrow> upload_file \<Rightarrow> (api_call option \<times> jstring list) list" where
  "sdk_calls a b c n v u w r ro iso_text parts f = session_calls a b c n v u w r ro iso_text parts f @ agent_calls a b c n v u w r ro iso_text parts f @ skill_calls a b c n v u w r ro iso_text parts f @ evaluation_calls a b c n v u w r ro iso_text parts f @ platform_calls a b c n v u w r ro iso_text parts f"

section \<open>Paths through the alias\<close>

lemma split_on_concat: "split_on c (u @ c # t) = split_on c u @ split_on c t"
proof (induction u)
  case (Cons x u)
  then show ?case by (cases "split_on c u") auto
qed simp

text \<open>An id that can be sent through the alias.\<close>

definition id_ok :: "jstring \<Rightarrow> bool" where
  "id_ok s \<longleftrightarrow> name_ok s \<and> 47 \<notin> set s \<and> s \<noteq> lit ''work''"

definition bare :: "jstring \<Rightarrow> bool" where
  "bare s \<longleftrightarrow> 47 \<notin> set s"

lemma slash_char: "(47 :: int) = of_char c \<longleftrightarrow> c = CHR ''/''"
proof -
  have "(of_char (CHR ''/'') :: int) = 47" by simp
  then show ?thesis by (metis of_char_eq_iff)
qed

lemma bare_lit [simp]: "bare (lit s) \<longleftrightarrow> CHR ''/'' \<notin> set s"
proof -
  have "set (lit s) = of_char ` set s" by (simp add: lit_def)
  then show ?thesis by (metis (no_types) bare_def image_iff slash_char)
qed

lemma split_bare: "list_all bare names \<Longrightarrow> split_on 47 (slashed names) = [] # names"
proof (induction names)
  case (Cons n names)
  then have n: "47 \<notin> set n" by (simp add: bare_def)
  have "split_on 47 (slashed (n # names)) = [] # split_on 47 (n @ slashed names)" by (simp add: slashed_def)
  moreover have "split_on 47 (n @ slashed names) = n # names"
    using Cons n by (cases names) (auto simp: slashed_def split_on_append split_on_single)
  ultimately show ?case by simp
qed (simp add: slashed_def)

lemma alias_names_bare: "list_all bare names \<Longrightarrow> names \<noteq> [] \<Longrightarrow> alias_names names = names"
proof (cases names)
  case (Cons n ns)
  assume "list_all bare names"
  then have n: "47 \<notin> set n" "split_on 47 (slashed ns) = [] # ns" using Cons split_bare by (simp_all add: bare_def)
  have "alias_names names = split_on 47 (n @ slashed ns)" by (simp only: alias_names_def Cons join_slashed)
  then show ?thesis using Cons n by (cases ns) (auto simp: slashed_def split_on_append split_on_single)
qed simp

lemma includes_middle: "str_includes s p \<Longrightarrow> \<exists>u t. s = u @ p @ t"
proof (induction s)
  case Nil
  then show ?case by (auto simp: str_includes.simps starts_with_iff)
next
  case (Cons c s)
  then show ?case
    by (subst (asm) str_includes.simps) (auto simp: starts_with_iff intro: exI [of _ "[]"], metis append_Cons)
qed

lemma includes_segment:
  assumes "list_all bare names" "str_includes (slashed names) (lit (''/work/'' @ t))"
  shows "lit ''work'' \<in> set names"
proof -
  obtain u r where "slashed names = u @ lit (''/work/'' @ t) @ r" using includes_middle [OF assms(2)] by blast
  moreover have "lit (''/work/'' @ t) = 47 # lit ''work'' @ 47 # lit t" by (simp add: lit_def)
  ultimately have "[] # names = split_on 47 u @ lit ''work'' # split_on 47 (lit t @ r)"
    using split_bare [OF assms(1)] split_on_concat [of 47 u] split_on_append [of 47 "lit ''work''" "lit t @ r"] by (simp add: lit_def)
  then have "lit ''work'' \<in> set ([] # names)" by simp
  then show ?thesis by (simp add: lit_def)
qed

lemma suffix_segment:
  assumes "list_all bare names" "names \<noteq> []" "has_suffix (slashed names) (''/'' @ t)" "CHR ''/'' \<notin> set t"
  shows "last names = lit t"
proof -
  obtain r where "rev (slashed names) = rev (lit (''/'' @ t)) @ r" using assms(3) by (auto simp: has_suffix_def starts_with_iff)
  then have "slashed names = rev r @ lit (''/'' @ t)" by (metis rev_append rev_rev_ident)
  then have "slashed names = rev r @ 47 # lit t" by (simp add: lit_def)
  then have "[] # names = split_on 47 (rev r) @ [lit t]"
    using split_bare [OF assms(1)] split_on_concat [of 47 "rev r"] bare_lit [of t] assms(4) by (simp add: split_on_single bare_def)
  then show ?thesis using assms(2) by (metis last.simps last_snoc)
qed

lemma slashed_inject: "list_all bare names \<Longrightarrow> list_all bare ms \<Longrightarrow> slashed names = slashed ms \<longleftrightarrow> names = ms"
  by (metis list.inject split_bare)

lemma alias_allowed:
  assumes "list_all bare names" "names \<noteq> []" "lit ''work'' \<notin> set names"
    "method \<noteq> lit ''GET'' \<or> names \<noteq> [lit ''task-templates'']"
    "method \<noteq> lit ''POST'' \<or> (names \<noteq> [lit ''workers''] \<and> last names \<noteq> lit ''heartbeat'')"
  shows "v2AliasAllowed method (relative_path names)"
proof -
  have "lit ''/task-templates'' = slashed [lit ''task-templates'']" "lit ''/workers'' = slashed [lit ''workers'']"
    by (simp_all add: slashed_def lit_def)
  then have "slashed names = lit ''/task-templates'' \<longleftrightarrow> names = [lit ''task-templates'']"
    "slashed names = lit ''/workers'' \<longleftrightarrow> names = [lit ''workers'']"
    using slashed_inject [OF assms(1)] by simp_all
  moreover have "\<not> str_includes (slashed names) (lit ''/work/poll'')" "\<not> str_includes (slashed names) (lit ''/work/'')"
    using includes_segment [OF assms(1), of "''poll''"] includes_segment [OF assms(1), of "''''"] assms(3) by auto
  moreover have "method = lit ''POST'' \<Longrightarrow> \<not> has_suffix (slashed names) ''/heartbeat''"
    using suffix_segment [OF assms(1,2), of "''heartbeat''"] assms(5) by auto
  ultimately show ?thesis using assms(4,5) by (auto simp: v2AliasAllowed_def relative_path_def)
qed

section \<open>Every call has a route\<close>

definition row_ok :: "api_call option \<times> jstring list \<Rightarrow> bool" where
  "row_ok row = (case fst row of None \<Rightarrow> False | Some k \<Rightarrow> served (ac_method k) (ac_path k) (snd row))"

definition route_found :: "string \<Rightarrow> jstring list \<Rightarrow> jstring list \<Rightarrow> bool" where
  "route_found method names ids = (case names of [] \<Rightarrow> False | version # ns \<Rightarrow> version = lit ''v2'' \<and> ns \<noteq> []
     \<and> (takes v2_routes (lit method) ns ids
        \<or> (list_all bare ns \<and> lit ''work'' \<notin> set ns \<and> (method = ''GET'' \<longrightarrow> ns \<noteq> [lit ''task-templates''])
           \<and> (method = ''POST'' \<longrightarrow> ns \<noteq> [lit ''workers''] \<and> last ns \<noteq> lit ''heartbeat'') \<and> takes v1_routes (lit method) ns ids)))"

lemma route_served: "targets path = Some names \<Longrightarrow> route_found method names ids \<Longrightarrow> served (lit method) path ids"
  using alias_allowed [of "tl names" "lit method"] alias_names_bare [of "tl names"]
  by (auto simp: served_def route_found_def split: list.splits)

lemma row_rules:
  "goes path names \<Longrightarrow> route_found method names ids \<Longrightarrow> row_ok (json_call method path body, ids)"
  "goes path names \<Longrightarrow> route_found method names ids \<Longrightarrow> row_ok (json_field method path body field, ids)"
  "goes path names \<Longrightarrow> route_found method names ids \<Longrightarrow> row_ok (json_call_with method path body hs, ids)"
  "goes path names \<Longrightarrow> route_found method names ids \<Longrightarrow> row_ok (plain_call method path body hs, ids)"
  "goes path names \<Longrightarrow> route_found method names ids \<Longrightarrow> row_ok (form_call method path form, ids)"
  "goes path names \<Longrightarrow> route_found ''GET'' names ids \<Longrightarrow> row_ok (stream_call kind path, ids)"
  using route_served
  by (cases path;
      auto simp: row_ok_def goes_def json_call_def json_field_def json_call_with_def plain_call_def form_call_def stream_call_def call_def)+

text \<open>The fixed parts of the paths.\<close>

lemma text_reaches:
  "reaches (lit ''/v2/sessions'') [lit ''v2'', lit ''sessions'']"
  "reaches (lit ''/archive'') [lit ''archive'']"
  "reaches (lit ''/restore'') [lit ''restore'']"
  "reaches (lit ''/rerun'') [lit ''rerun'']"
  "reaches (lit ''/config/upgrade'') [lit ''config'', lit ''upgrade'']"
  "reaches (lit ''/v2/session-comparisons'') [lit ''v2'', lit ''session-comparisons'']"
  "reaches (lit ''/v2/run-comparisons'') [lit ''v2'', lit ''run-comparisons'']"
  "reaches (lit ''/runtime-settings'') [lit ''runtime-settings'']"
  "reaches (lit ''/runtime-config'') [lit ''runtime-config'']"
  "reaches (lit ''/runtime-capabilities'') [lit ''runtime-capabilities'']"
  "reaches (lit ''/summary'') [lit ''summary'']"
  "reaches (lit ''/task-plan'') [lit ''task-plan'']"
  "reaches (lit ''/task-plans'') [lit ''task-plans'']"
  "reaches (lit ''/usage'') [lit ''usage'']"
  "reaches (lit ''/events'') [lit ''events'']"
  "reaches (lit ''/events/stream'') [lit ''events'', lit ''stream'']"
  "reaches (lit ''/live/stream'') [lit ''live'', lit ''stream'']"
  "reaches (lit ''/runs'') [lit ''runs'']"
  "reaches (lit ''/cancel'') [lit ''cancel'']"
  "reaches (lit ''/attempts'') [lit ''attempts'']"
  "reaches (lit ''/interventions'') [lit ''interventions'']"
  "reaches (lit ''/artifacts'') [lit ''artifacts'']"
  "reaches (lit ''/download'') [lit ''download'']"
  "reaches (lit ''/upload'') [lit ''upload'']"
  "reaches (lit ''/preview'') [lit ''preview'']"
  "reaches (lit ''/v2/artifact-exchanges/imports'') [lit ''v2'', lit ''artifact-exchanges'', lit ''imports'']"
  "reaches (lit ''/v2/artifact-exchanges/exports'') [lit ''v2'', lit ''artifact-exchanges'', lit ''exports'']"
  "reaches (lit ''/v2/artifact-exchanges'') [lit ''v2'', lit ''artifact-exchanges'']"
  "reaches (lit ''/v2/agents'') [lit ''v2'', lit ''agents'']"
  "reaches (lit ''/v2/agents/default'') [lit ''v2'', lit ''agents'', lit ''default'']"
  "reaches (lit ''/v2/agents/import'') [lit ''v2'', lit ''agents'', lit ''import'']"
  "reaches (lit ''/export'') [lit ''export'']"
  "reaches (lit ''/config-versions'') [lit ''config-versions'']"
  "reaches (lit ''/rollback'') [lit ''rollback'']"
  "reaches (lit ''/tooling-health'') [lit ''tooling-health'']"
  "reaches (lit ''/v2/application-manifests/publish'') [lit ''v2'', lit ''application-manifests'', lit ''publish'']"
  "reaches (lit ''/v2/auth/config'') [lit ''v2'', lit ''auth'', lit ''config'']"
  "reaches (lit ''/v2/auth/me'') [lit ''v2'', lit ''auth'', lit ''me'']"
  "reaches (lit ''/v2/auth/token-exchange'') [lit ''v2'', lit ''auth'', lit ''token-exchange'']"
  "reaches (lit ''/v2/capabilities'') [lit ''v2'', lit ''capabilities'']"
  "reaches (lit ''/v2/environments'') [lit ''v2'', lit ''environments'']"
  "reaches (lit ''/v2/evaluation-rubrics'') [lit ''v2'', lit ''evaluation-rubrics'']"
  "reaches (lit ''/v2/run-evaluations'') [lit ''v2'', lit ''run-evaluations'']"
  "reaches (lit ''/v2/run-evaluations/auto'') [lit ''v2'', lit ''run-evaluations'', lit ''auto'']"
  "reaches (lit ''/v2/evaluation-datasets'') [lit ''v2'', lit ''evaluation-datasets'']"
  "reaches (lit ''/v2/evaluation-experiments'') [lit ''v2'', lit ''evaluation-experiments'']"
  "reaches (lit ''/reconcile'') [lit ''reconcile'']"
  "reaches (lit ''/v2/event-subscriptions'') [lit ''v2'', lit ''event-subscriptions'']"
  "reaches (lit ''/v2/event-subscriptions/event-types'') [lit ''v2'', lit ''event-subscriptions'', lit ''event-types'']"
  "reaches (lit ''/rotate-secret'') [lit ''rotate-secret'']"
  "reaches (lit ''/deliveries'') [lit ''deliveries'']"
  "reaches (lit ''/replay'') [lit ''replay'']"
  "reaches (lit ''/v2/llm-providers'') [lit ''v2'', lit ''llm-providers'']"
  "reaches (lit ''/enable'') [lit ''enable'']"
  "reaches (lit ''/disable'') [lit ''disable'']"
  "reaches (lit ''/test'') [lit ''test'']"
  "reaches (lit ''/v2/llm-models'') [lit ''v2'', lit ''llm-models'']"
  "reaches (lit ''/v2/llm-usage'') [lit ''v2'', lit ''llm-usage'']"
  "reaches (lit ''/v2/mcp-servers'') [lit ''v2'', lit ''mcp-servers'']"
  "reaches (lit ''/v2/mcp-servers/runtime-status'') [lit ''v2'', lit ''mcp-servers'', lit ''runtime-status'']"
  "reaches (lit ''/versions'') [lit ''versions'']"
  "reaches (lit ''/v2/object-refs'') [lit ''v2'', lit ''object-refs'']"
  "reaches (lit ''/v2/object-cleanup/jobs'') [lit ''v2'', lit ''object-cleanup'', lit ''jobs'']"
  "reaches (lit ''/v2/object-cleanup/reconciliation/preview'') [lit ''v2'', lit ''object-cleanup'', lit ''reconciliation'', lit ''preview'']"
  "reaches (lit ''/v2/object-cleanup/reconciliation/artifacts'') [lit ''v2'', lit ''object-cleanup'', lit ''reconciliation'', lit ''artifacts'']"
  "reaches (lit ''/v2/object-cleanup/stats'') [lit ''v2'', lit ''object-cleanup'', lit ''stats'']"
  "reaches (lit ''/retry'') [lit ''retry'']"
  "reaches (lit ''/approve'') [lit ''approve'']"
  "reaches (lit ''/deliberations'') [lit ''deliberations'']"
  "reaches (lit ''/task-groups'') [lit ''task-groups'']"
  "reaches (lit ''/v2/agent/task-group-templates'') [lit ''v2'', lit ''agent'', lit ''task-group-templates'']"
  "reaches (lit ''/v2/agent/discussion-strategies'') [lit ''v2'', lit ''agent'', lit ''discussion-strategies'']"
  "reaches (lit ''/participants'') [lit ''participants'']"
  "reaches (lit ''/task-group-tree'') [lit ''task-group-tree'']"
  "reaches (lit ''/items'') [lit ''items'']"
  "reaches (lit ''/v2/subagents/reap-orphans'') [lit ''v2'', lit ''subagents'', lit ''reap-orphans'']"
  "reaches (lit ''/v2/skills'') [lit ''v2'', lit ''skills'']"
  "reaches (lit ''/v2/skill-asset-retention/policies'') [lit ''v2'', lit ''skill-asset-retention'', lit ''policies'']"
  "reaches (lit ''/package'') [lit ''package'']"
  "reaches (lit ''/v2/skills/resolve-preview'') [lit ''v2'', lit ''skills'', lit ''resolve-preview'']"
  "reaches (lit ''/skill-usages'') [lit ''skill-usages'']"
  "reaches (lit ''/v2/skill-packages/backfill'') [lit ''v2'', lit ''skill-packages'', lit ''backfill'']"
  "reaches (lit ''/v2/skill-asset-retention/effective'') [lit ''v2'', lit ''skill-asset-retention'', lit ''effective'']"
  "reaches (lit ''/v2/skill-asset-gc/preview'') [lit ''v2'', lit ''skill-asset-gc'', lit ''preview'']"
  "reaches (lit ''/v2/skill-asset-gc/run'') [lit ''v2'', lit ''skill-asset-gc'', lit ''run'']"
  "reaches (lit ''/v2/skill-asset-gc/runs'') [lit ''v2'', lit ''skill-asset-gc'', lit ''runs'']"
  "reaches (lit ''/v2/skill-asset-gc/tombstones'') [lit ''v2'', lit ''skill-asset-gc'', lit ''tombstones'']"
  "reaches (lit ''/v2/skill-marketplace-entries'') [lit ''v2'', lit ''skill-marketplace-entries'']"
  "reaches (lit ''/v2/skill-marketplace-policies'') [lit ''v2'', lit ''skill-marketplace-policies'']"
  "reaches (lit ''/v2/skills/marketplace/discover'') [lit ''v2'', lit ''skills'', lit ''marketplace'', lit ''discover'']"
  "reaches (lit ''/v2/skills/marketplace/preview'') [lit ''v2'', lit ''skills'', lit ''marketplace'', lit ''preview'']"
  "reaches (lit ''/v2/skills/marketplace/install'') [lit ''v2'', lit ''skills'', lit ''marketplace'', lit ''install'']"
  "reaches (lit ''/v2/skills/marketplace/internal/preview'') [lit ''v2'', lit ''skills'', lit ''marketplace'', lit ''internal'', lit ''preview'']"
  "reaches (lit ''/v2/skills/marketplace/internal/install'') [lit ''v2'', lit ''skills'', lit ''marketplace'', lit ''internal'', lit ''install'']"
  "reaches (lit ''/v2/skills/marketplace/internal'') [lit ''v2'', lit ''skills'', lit ''marketplace'', lit ''internal'']"
  "reaches (lit ''/v2/environment-variables'') [lit ''v2'', lit ''environment-variables'']"
  "reaches (lit ''/v2/observability/status'') [lit ''v2'', lit ''observability'', lit ''status'']"
  "reaches (lit ''/v2/observability/retry'') [lit ''v2'', lit ''observability'', lit ''retry'']"
  "reaches (lit ''/v2/observability/security-audit/integrity-keys'') [lit ''v2'', lit ''observability'', lit ''security-audit'', lit ''integrity-keys'']"
  "reaches (lit ''/tool-permission-audit'') [lit ''tool-permission-audit'']"
  "reaches (lit ''/v2/observability/security-audit/replay'') [lit ''v2'', lit ''observability'', lit ''security-audit'', lit ''replay'']"
  "reaches (lit ''/v2/operator-audit'') [lit ''v2'', lit ''operator-audit'']"
  "reaches (lit ''/operator-audit'') [lit ''operator-audit'']"
  "reaches (lit ''/v2/quota-policies'') [lit ''v2'', lit ''quota-policies'']"
  "reaches (lit ''/v2/quota-policies/applications'') [lit ''v2'', lit ''quota-policies'', lit ''applications'']"
  "reaches (lit ''/v2/quota-policies/effective'') [lit ''v2'', lit ''quota-policies'', lit ''effective'']"
  "reaches (lit ''/v2/quota-policies/workspace'') [lit ''v2'', lit ''quota-policies'', lit ''workspace'']"
  "reaches (lit ''/v2/retrieval/collections'') [lit ''v2'', lit ''retrieval'', lit ''collections'']"
  "reaches (lit ''/v2/retrieval/documents'') [lit ''v2'', lit ''retrieval'', lit ''documents'']"
  "reaches (lit ''/documents'') [lit ''documents'']"
  "reaches (lit ''/v2/retrieval/ingestion-jobs'') [lit ''v2'', lit ''retrieval'', lit ''ingestion-jobs'']"
  "reaches (lit ''/v2/retrieval/search'') [lit ''v2'', lit ''retrieval'', lit ''search'']"
  "reaches (lit ''/v2/model-runtime/generate'') [lit ''v2'', lit ''model-runtime'', lit ''generate'']"
  "reaches (lit ''/v2/model-runtime/embeddings'') [lit ''v2'', lit ''model-runtime'', lit ''embeddings'']"
  "reaches (lit ''/v2/model-runtime/rerank'') [lit ''v2'', lit ''model-runtime'', lit ''rerank'']"
  "reaches (lit ''/v2/model-runtime/invocations'') [lit ''v2'', lit ''model-runtime'', lit ''invocations'']"
  "reaches (lit ''/v2/model-runtime/multimodal/realtime'') [lit ''v2'', lit ''model-runtime'', lit ''multimodal'', lit ''realtime'']"
  "reaches (lit ''/v2/speech/realtime'') [lit ''v2'', lit ''speech'', lit ''realtime'']"
  "reaches (lit ''/v2/traces'') [lit ''v2'', lit ''traces'']"
  "reaches (lit ''/v2/spans'') [lit ''v2'', lit ''spans'']"
  "reaches (lit ''/spans'') [lit ''spans'']"
  "reaches (lit ''/trace'') [lit ''trace'']"
  "reaches (lit ''/v2/platform/workspaces'') [lit ''v2'', lit ''platform'', lit ''workspaces'']"
  "reaches (lit ''/members'') [lit ''members'']"
  "reaches (lit ''/v2/administration/context'') [lit ''v2'', lit ''administration'', lit ''context'']"
  "reaches (lit ''/v2/workspace/members'') [lit ''v2'', lit ''workspace'', lit ''members'']"
  "reaches (lit ''/v2/platform/admins'') [lit ''v2'', lit ''platform'', lit ''admins'']"
  "reaches (lit ''/v2/service-identities'') [lit ''v2'', lit ''service-identities'']"
  "reaches (lit ''/v2/service-identities/scopes'') [lit ''v2'', lit ''service-identities'', lit ''scopes'']"
  "reaches (lit ''/credentials'') [lit ''credentials'']"
  "reaches (lit ''/v2/workers'') [lit ''v2'', lit ''workers'']"
  "reaches (lit ''/v2/worker-work'') [lit ''v2'', lit ''worker-work'']"
  "reaches (lit ''/v2/workers/reap-expired'') [lit ''v2'', lit ''workers'', lit ''reap-expired'']"
  "reaches (lit ''/v2/workers/diagnose'') [lit ''v2'', lit ''workers'', lit ''diagnose'']"
  "reaches (lit ''/v2/worker-work/reap-expired'') [lit ''v2'', lit ''worker-work'', lit ''reap-expired'']"
  "reaches (lit ''/requeue'') [lit ''requeue'']"
  "reaches (lit ''/diagnose'') [lit ''diagnose'']"
  "reaches (lit ''/v2/workspaces'') [lit ''v2'', lit ''workspaces'']"
  "reaches (lit ''/tool-permissions'') [lit ''tool-permissions'']"
  "reaches (lit ''/evaluate'') [lit ''evaluate'']"
  "reaches (lit ''/reject'') [lit ''reject'']"
  "reaches (lit ''/respond'') [lit ''respond'']"
  "reaches (lit ''/skip'') [lit ''skip'']"
  "reaches (lit ''/submit'') [lit ''submit'']"
  "reaches (lit ''/publish'') [lit ''publish'']"
  "reaches (lit ''/withdraw'') [lit ''withdraw'']"
  by code_simp+

lemma encoded_rules:
  "fits path names \<Longrightarrow> name_ok i \<Longrightarrow> fits (encoded_below path ''/deliveries/'' i) (names @ [lit ''deliveries'', i])"
  "fits path names \<Longrightarrow> name_ok i \<Longrightarrow> fits (encoded_below path ''/credentials/'' i) (names @ [lit ''credentials'', i])"
  using fits_encoded [of path names "''/deliveries''" "[lit ''deliveries'']" i]
    fits_encoded [of path names "''/credentials''" "[lit ''credentials'']" i] by (simp_all add: text_reaches)

lemma id_ok_name: "id_ok s \<Longrightarrow> name_ok s" "id_ok s \<Longrightarrow> bare s" "id_ok s \<Longrightarrow> lit ''work'' \<noteq> s"
  by (auto simp: id_ok_def bare_def)

lemma preview_goes: "fits path names \<Longrightarrow> encodeURIComponent i \<noteq> None \<Longrightarrow> goes (if q then encoded_below path ''?format='' i else path) names"
  using fits_goes goes_parameter [of path names i "''format=''"] by simp

lemmas path_defs = sessionPath_def runsPath_def runPath_def artifactsPath_def artifactPath_def deliberationPath_def taskGroupPath_def
  agentPath_def serversPath_def serverPath_def providerPath_def variablesPath_def variablePath_def toolPermissionsPath_def
  skillPath_def skillVersionPath_def retentionPolicyPath_def assetGCListPath_def entryPath_def marketplacePolicyPath_def
  traceResourcePath_def objectRefPath_def objectCleanupJobPath_def workerPath_def workPath_def
  subscriptionPath_def retrievalCollectionsPath_def retrievalCollectionPath_def retrievalDocumentPath_def tenantWorkspaceMembersPath_def
  serviceIdentityPath_def append_Cons append_Nil

text \<open>The same lookup with conditionals, so that only the rows of the right resource and method are compared.\<close>

lemma takes_lookup:
  "takes table method (n # ns) ids = list_ex (\<lambda>(s, rs). if n = lit s then
     list_ex (\<lambda>(m, p). if method = lit m then route_values p ns = Some ids else False) rs else False) table"
  by (auto simp: takes_def list_ex_iff split: if_splits)

lemmas table_defs = route_found_def takes_lookup v1_routes_def v2_routes_def

lemmas resource_defs = v2_auth_def v2_sessions_def v2_model_runtime_def v2_speech_def v2_r_survival_projects_def v2_retrieval_def
  v2_knowledge_def v2_public_def v2_capabilities_def v2_quota_policies_def v2_administration_def v2_console_def v2_workspace_def
  v2_platform_def v2_service_identities_def v2_application_manifests_def v2_event_subscriptions_def v2_artifact_exchanges_def v1_auth_def
  v1_workbench_projects_def v1_agent_def v1_task_templates_def v1_traces_def v1_spans_def v1_observability_def v1_object_cleanup_def
  v1_llm_providers_def v1_llm_models_def v1_llm_usage_def v1_workers_def v1_worker_work_def v1_object_refs_def v1_skills_def
  v1_skill_packages_def v1_skill_marketplace_entries_def v1_skill_marketplace_policies_def v1_skill_asset_retention_def v1_skill_asset_gc_def
  v1_agents_def v1_workspaces_def v1_mcp_servers_def v1_environments_def v1_environment_variables_def v1_sessions_def v1_subagents_def
  v1_operator_audit_def v1_session_comparisons_def v1_run_comparisons_def v1_evaluation_rubrics_def v1_run_evaluations_def
  v1_evaluation_datasets_def v1_evaluation_experiments_def v1_achievement_library_def

lemmas session_call_defs = sessions_create_def sessions_list_def sessions_compare_def sessions_compareRuns_def sessions_get_def
  sessions_updateMetadata_def sessions_delete_def sessions_archive_def sessions_restore_def sessions_rerun_def sessions_upgradeConfig_def
  sessions_updateRuntimeSettings_def sessions_runtimeConfig_def sessions_runtimeCapabilities_def sessions_summary_def sessions_taskPlan_def
  sessions_taskPlans_def sessions_usage_def sessions_listEvents_def sessions_appendEvents_def sessions_events_def sessions_liveEvents_def
  runs_get_def runs_list_def runs_cancel_def runs_listAttempts_def runs_getAttempt_def runs_listEvents_def runs_events_def runs_start_def
  interventions_list_def interventions_approve_def interventions_reject_def interventions_respond_def interventions_skip_def
  interventions_cancel_def artifacts_create_def artifacts_list_def artifacts_download_def artifacts_delete_def artifacts_upload_def
  artifacts_preview_def orchestration_taskGroupTemplates_def orchestration_discussionStrategies_def orchestration_listDeliberations_def
  orchestration_listTaskGroups_def orchestration_taskGroupTree_def orchestration_reapOrphans_def orchestration_getDeliberation_def
  orchestration_cancelDeliberation_def orchestration_retryDeliberationParticipant_def orchestration_getTaskGroup_def
  orchestration_cancelTaskGroup_def orchestration_retryTaskGroup_def orchestration_retryTaskGroupItem_def interventions_decide_def
  interventions_resolve_def

lemma session_calls_routed:
  assumes "id_ok a" "id_ok b" "id_ok c" "id_ok (num_str n)" "encodeURIComponent w \<noteq> None"
  shows "list_all row_ok (session_calls a b c n v u w r ro iso_text parts f)"
  unfolding session_calls_def list.pred_inject session_call_defs path_defs Let_def if_True if_False default_text_def to_str.simps
  by (rule conjI TrueI row_rules preview_goes goes_rules fits_rules encoded_rules encoded_rules [THEN fits_goes] text_reaches
      | simp add: assms id_ok_name table_defs | simp add: resource_defs id_ok_name assms)+

lemmas agent_call_defs = agents_create_def agents_default_def agents_list_def agents_listByApplication_def agents_import_def agents_get_def
  agents_update_def agents_export_def agents_listConfigVersions_def agents_createConfigVersion_def agents_rollback_def
  agents_toolingHealth_def environments_list_def environments_listByApplication_def environments_get_def environments_create_def
  environmentVariables_list_def environmentVariables_put_def environmentVariables_delete_def mcp_runtimeStatus_def mcp_create_def
  mcp_list_def mcp_get_def mcp_update_def mcp_setEnabled_def mcp_archive_def mcp_test_def mcp_versions_def mcp_restoreVersion_def
  llm_listProviders_def llm_createProvider_def llm_listModels_def llm_createModel_def llm_updateModel_def llm_deleteModel_def
  llm_testModel_def llm_usage_def llm_getProvider_def llm_updateProvider_def llm_setProviderEnabled_def llm_deleteProvider_def
  llm_testProvider_def workspaceToolPermissions_get_def workspaceToolPermissions_update_def workspaceToolPermissions_evaluate_def

lemma agent_calls_routed:
  assumes "id_ok a" "id_ok b" "id_ok c" "id_ok (num_str n)" "encodeURIComponent w \<noteq> None"
  shows "list_all row_ok (agent_calls a b c n v u w r ro iso_text parts f)"
  unfolding agent_calls_def list.pred_inject agent_call_defs path_defs Let_def if_True if_False default_text_def to_str.simps
  by (rule conjI TrueI row_rules preview_goes goes_rules fits_rules encoded_rules encoded_rules [THEN fits_goes] text_reaches
      | simp add: assms id_ok_name table_defs | simp add: resource_defs id_ok_name assms)+

lemmas skill_call_defs = skills_create_def skills_list_def skills_resolvePreview_def skills_listUsages_def skills_backfillPackages_def
  skills_effectiveRetentionPolicy_def skills_createRetentionPolicy_def skills_listRetentionPolicies_def skills_previewAssetGC_def
  skills_runAssetGC_def skills_getAssetGCRun_def skills_get_def skills_archive_def skills_createVersion_def skills_listVersions_def
  skills_getVersion_def skills_downloadPackage_def skills_getRetentionPolicy_def skills_publishRetentionPolicyVersion_def
  skills_getRetentionPolicyVersion_def skills_archiveRetentionPolicy_def skills_listAssetGCRuns_def skills_listAssetGCTombstones_def
  marketplace_discover_def marketplace_preview_def marketplace_install_def marketplace_previewInternal_def marketplace_installInternal_def
  marketplace_enableInstalled_def marketplace_disableInstalled_def marketplace_createEntry_def marketplace_listEntries_def
  marketplace_createPolicy_def marketplace_listPolicies_def marketplace_getEntry_def marketplace_updateEntry_def marketplace_getPolicy_def
  marketplace_publishPolicyVersion_def marketplace_getPolicyVersion_def marketplace_archivePolicy_def marketplace_browseInternal_def
  marketplace_submitEntry_def marketplace_publishEntry_def marketplace_withdrawEntry_def marketplace_transitionEntry_def

lemma skill_calls_routed:
  assumes "id_ok a" "id_ok b" "id_ok c" "id_ok (num_str n)" "encodeURIComponent w \<noteq> None"
  shows "list_all row_ok (skill_calls a b c n v u w r ro iso_text parts f)"
  unfolding skill_calls_def list.pred_inject skill_call_defs path_defs Let_def if_True if_False default_text_def to_str.simps
  by (rule conjI TrueI row_rules preview_goes goes_rules fits_rules encoded_rules encoded_rules [THEN fits_goes] text_reaches
      | simp add: assms id_ok_name table_defs | simp add: resource_defs id_ok_name assms)+

lemmas evaluation_call_defs = evaluations_createRubric_def evaluations_listRubrics_def evaluations_getRubric_def
  evaluations_createRunEvaluation_def evaluations_autoEvaluate_def evaluations_createDataset_def evaluations_listDatasets_def
  evaluations_getDataset_def evaluations_createExperiment_def evaluations_listExperiments_def evaluations_getExperiment_def
  evaluations_reconcileExperiment_def evaluations_listRunEvaluations_def traces_list_def traces_listSpans_def traces_getSession_def
  traces_exportSession_def traces_get_def traces_getSpan_def observability_status_def observability_retry_def
  observability_integrityKeys_def audit_listToolPermissions_def audit_integrityKeys_def audit_replayDeadLetters_def audit_list_def
  audit_listSession_def objectRefs_create_def objectRefs_get_def objectRefs_delete_def objectRefs_download_def
  objectCleanup_previewReconciliation_def objectCleanup_exportReconciliationArtifact_def objectCleanup_list_def objectCleanup_stats_def
  objectCleanup_retry_def objectCleanup_approve_def workers_list_def workers_reapExpired_def workers_diagnose_def workers_get_def
  workers_archive_def workerWork_enqueue_def workerWork_reapExpired_def workerWork_get_def workerWork_cancel_def workerWork_requeue_def
  workerWork_diagnose_def audit_listPath_def

lemma evaluation_calls_routed:
  assumes "id_ok a" "id_ok b" "id_ok c" "id_ok (num_str n)" "encodeURIComponent w \<noteq> None"
  shows "list_all row_ok (evaluation_calls a b c n v u w r ro iso_text parts f)"
  unfolding evaluation_calls_def list.pred_inject evaluation_call_defs path_defs Let_def if_True if_False default_text_def to_str.simps
  by (rule conjI TrueI row_rules preview_goes goes_rules fits_rules encoded_rules encoded_rules [THEN fits_goes] text_reaches
      | simp add: assms id_ok_name table_defs | simp add: resource_defs id_ok_name assms)+

lemmas platform_call_defs = auth_configuration_def auth_me_def auth_exchange_def capabilities_list_def applicationManifests_publish_def
  artifactExchanges_createImport_def artifactExchanges_createExport_def artifactExchanges_get_def eventSubscriptions_eventTypes_def
  eventSubscriptions_create_def eventSubscriptions_get_def eventSubscriptions_update_def eventSubscriptions_disable_def
  eventSubscriptions_rotateSecret_def eventSubscriptions_replay_def eventSubscriptions_list_def eventSubscriptions_deliveries_def
  quotaPolicies_list_def quotaPolicies_archiveApplication_def quotaPolicies_effective_def quotaPolicies_putWorkspace_def
  quotaPolicies_putApplication_def retrieval_collections_create_def retrieval_collections_list_def retrieval_collections_delete_def
  retrieval_documents_list_def retrieval_documents_get_def retrieval_documents_delete_def retrieval_documents_upload_def
  retrieval_ingestionJobs_get_def retrieval_search_def modelRuntime_generate_def modelRuntime_embed_def modelRuntime_rerank_def
  modelRuntime_invocations_def tenantAdministration_context_def tenantAdministration_listCurrentWorkspaceMembers_def
  tenantAdministration_upsertCurrentWorkspaceMember_def tenantAdministration_deleteCurrentWorkspaceMember_def
  tenantAdministration_listTenantWorkspaces_def tenantAdministration_createTenantWorkspace_def tenantAdministration_listPlatformAdmins_def
  tenantAdministration_upsertPlatformAdmin_def tenantAdministration_deletePlatformAdmin_def
  tenantAdministration_listTenantWorkspaceMembers_def tenantAdministration_upsertTenantWorkspaceMember_def
  tenantAdministration_deleteTenantWorkspaceMember_def serviceIdentities_scopes_def serviceIdentities_list_def serviceIdentities_create_def
  serviceIdentities_get_def serviceIdentities_update_def serviceIdentities_credentials_def serviceIdentities_createCredential_def
  serviceIdentities_revokeCredential_def quotaPolicies_put_def

lemma platform_calls_routed:
  assumes "id_ok a" "id_ok b" "id_ok c" "id_ok (num_str n)" "encodeURIComponent w \<noteq> None"
  shows "list_all row_ok (platform_calls a b c n v u w r ro iso_text parts f)"
  unfolding platform_calls_def list.pred_inject platform_call_defs path_defs Let_def if_True if_False default_text_def to_str.simps
  by (rule conjI TrueI row_rules preview_goes goes_rules fits_rules encoded_rules encoded_rules [THEN fits_goes] text_reaches
      | simp add: assms id_ok_name table_defs | simp add: resource_defs id_ok_name assms)+



text \<open>Whether any route is there, whatever it reads.\<close>

definition matched :: "route_table \<Rightarrow> jstring \<Rightarrow> jstring list \<Rightarrow> bool" where
  "matched table method names = (case names of [] \<Rightarrow> False | n # ns \<Rightarrow>
     list_ex (\<lambda>(s, rs). n = lit s \<and> list_ex (\<lambda>(m, p). method = lit m \<and> route_values p ns \<noteq> None) rs) table)"

lemma takes_matched: "takes table method names ids \<Longrightarrow> matched table method names"
  by (auto simp: takes_def matched_def list_ex_iff split: list.splits; force)

definition model_with_slash :: jstring where
  "model_with_slash = lit ''meta/llama''"


end
