(* ===== verification/Run_Handle.thy ===== *)
theory Run_Handle
  imports SDK_Services
begin

text \<open>
  A run of an agent as the SDK shows it (\<open>services/runs.ts\<close>): starting it, the handle with its operations, and \<open>wait\<close>, which follows the events of
  the run until the server says that it has ended. The events the stream delivers are a list, and \<open>stream_end\<close> says what comes after them; the
  answers of the server to \<open>get\<close> are a function of the number of the request, so they may change in any way between two of them.
\<close>

section \<open>The handle\<close>

record run_handle =
  rh_run :: jsval
  rh_initialEvents :: "jsval list"
  rh_created :: jsval

text \<open>\<open>start\<close>: the events are copied; a missing list is an empty one, anything that cannot be spread throws.\<close>

definition start_handle :: "call_result \<Rightarrow> call_result + run_handle" where
  "start_handle answer = (case answer of
       CallValue result \<Rightarrow>
         (if result = JUndef \<or> result = JNull then Inl CallThrows
          else case nullish (dot result ''events'') (JArr []) of
              JArr events \<Rightarrow> Inr \<lparr>rh_run = dot result ''run'', rh_initialEvents = events, rh_created = dot result ''created''\<rparr>
            | _ \<Rightarrow> Inl CallThrows)
     | refusal \<Rightarrow> Inl refusal)"

definition run_session :: "jsval \<Rightarrow> jstring" where
  "run_session run = to_str (dot run ''session_id'')"

definition run_id :: "jsval \<Rightarrow> jstring" where
  "run_id run = to_str (dot run ''id'')"

definition handle_events :: "run_handle \<Rightarrow> api_call option" where
  "handle_events h = runs_events (run_session (rh_run h)) (run_id (rh_run h))"

definition handle_cancel :: "(api_call \<Rightarrow> call_result) \<Rightarrow> run_handle \<Rightarrow> run_handle \<times> call_result" where
  "handle_cancel server h = (case runs_cancel (run_session (rh_run h)) (run_id (rh_run h)) of
       None \<Rightarrow> (h, CallThrows)
     | Some c \<Rightarrow> (case server c of CallValue run \<Rightarrow> (h\<lparr>rh_run := run\<rparr>, CallValue run) | refusal \<Rightarrow> (h, refusal)))"

definition handle_approve :: "run_handle \<Rightarrow> jstring \<Rightarrow> jsval \<Rightarrow> api_call option" where
  "handle_approve h callId reason = interventions_approve (run_session (rh_run h)) (run_id (rh_run h)) callId (default_text reason []) JUndef"

definition handle_reject :: "run_handle \<Rightarrow> jstring \<Rightarrow> jsval \<Rightarrow> api_call option" where
  "handle_reject h callId reason = interventions_reject (run_session (rh_run h)) (run_id (rh_run h)) callId (default_text reason [])"

definition handle_respond :: "run_handle \<Rightarrow> jstring \<Rightarrow> jsval \<Rightarrow> api_call option" where
  "handle_respond h callId response = interventions_respond (run_session (rh_run h)) (run_id (rh_run h)) callId response"

definition handle_skip :: "run_handle \<Rightarrow> jstring \<Rightarrow> jsval \<Rightarrow> api_call option" where
  "handle_skip h callId reason = interventions_skip (run_session (rh_run h)) (run_id (rh_run h)) callId (default_text reason [])"

section \<open>Waiting\<close>

definition effectiveTurnId :: "jsval \<Rightarrow> jsval" where
  "effectiveTurnId event =
     (let turn = dot event ''turn_id''; payload = dot event ''payload'' in
      if truthy turn then turn
      else if is_json_object payload \<and> is_string (dot payload ''turn_id'') then dot payload ''turn_id''
      else JStr [])"

definition isTerminalRunStatus :: "jsval \<Rightarrow> bool" where
  "isTerminalRunStatus status \<longleftrightarrow> status = jlit ''completed'' \<or> status = jlit ''failed'' \<or> status = jlit ''interrupted''"

definition event_type :: "jsval \<Rightarrow> string \<Rightarrow> bool" where
  "event_type event t \<longleftrightarrow> dot event ''type'' = jlit t"

text \<open>The position behind which the events are requested: \<open>user_event_seq\<close> is the position of the message that started the run.\<close>

definition wait_after :: "jsval \<Rightarrow> jsnum" where
  "wait_after run = (case to_num (nullish (dot run ''user_event_seq'') (JNum (Fin 1))) of
       Fin n \<Rightarrow> Fin (max (n - 1) 0) | NegInf \<Rightarrow> Fin 0 | n \<Rightarrow> n)"

datatype stream_end = StreamEnds | StreamFails stream_error | StreamWaits

datatype wait_outcome =
    RunResult jsval "jsval option" jsval
  | WaitRefused call_result
  | StreamRejected stream_error
  | EndedEarly
  | Pending

text \<open>The first component is the run the handle has afterwards.\<close>

fun wait_loop :: "(nat \<Rightarrow> call_result) \<Rightarrow> stream_end \<Rightarrow> nat \<Rightarrow> jsval \<Rightarrow> jsval option \<Rightarrow> jsval \<Rightarrow> jsval list \<Rightarrow> jsval \<times> wait_outcome" where
  "wait_loop get fin k run lastEvent out [] =
     (run, case fin of StreamEnds \<Rightarrow> EndedEarly | StreamFails e \<Rightarrow> StreamRejected e | StreamWaits \<Rightarrow> Pending)"
| "wait_loop get fin k run lastEvent out (event # events) =
     (if effectiveTurnId event \<noteq> dot run ''id'' then wait_loop get fin k run lastEvent out events
      else let out' = (if event_type event ''agent.message'' then dot event ''payload'' else out) in
        if \<not> event_type event ''session.status_idle'' then wait_loop get fin k run (Some event) out' events
        else case get k of
            CallValue run' \<Rightarrow>
              (if run' = JUndef \<or> run' = JNull then (run', WaitRefused CallThrows)
               else if isTerminalRunStatus (dot run' ''status'') then (run', RunResult run' (Some event) out')
               else wait_loop get fin (Suc k) run' (Some event) out' events)
          | refusal \<Rightarrow> (run, WaitRefused refusal))"

definition handle_wait :: "(nat \<Rightarrow> call_result) \<Rightarrow> stream_end \<Rightarrow> run_handle \<Rightarrow> jsval list \<Rightarrow> run_handle \<times> wait_outcome" where
  "handle_wait get fin h events = (let (run, outcome) = wait_loop get fin 0 (rh_run h) None JUndef events in (h\<lparr>rh_run := run\<rparr>, outcome))"

section \<open>What waiting returns\<close>

definition own_events :: "jsval \<Rightarrow> jsval list \<Rightarrow> jsval list" where
  "own_events turn events = filter (\<lambda>e. effectiveTurnId e = turn) events"

definition idle_event :: "jsval \<Rightarrow> bool" where
  "idle_event e \<longleftrightarrow> event_type e ''session.status_idle''"

text \<open>The output is the payload of the last message of the agent.\<close>

definition output_after :: "jsval \<Rightarrow> jsval \<Rightarrow> jsval" where
  "output_after out e = (if event_type e ''agent.message'' then dot e ''payload'' else out)"

definition last_output :: "jsval \<Rightarrow> jsval list \<Rightarrow> jsval" where
  "last_output out events = foldl output_after out events"

definition still_running :: "call_result \<Rightarrow> bool" where
  "still_running answer = (case answer of CallValue run \<Rightarrow> run \<noteq> JUndef \<and> run \<noteq> JNull \<and> \<not> isTerminalRunStatus (dot run ''status'') | _ \<Rightarrow> False)"

definition has_ended :: "call_result \<Rightarrow> jsval \<Rightarrow> bool" where
  "has_ended answer run \<longleftrightarrow> answer = CallValue run \<and> run \<noteq> JUndef \<and> run \<noteq> JNull \<and> isTerminalRunStatus (dot run ''status'')"

definition ends_at :: "(nat \<Rightarrow> call_result) \<Rightarrow> jsval \<Rightarrow> jsval list \<Rightarrow> jsval \<Rightarrow> jsval option \<Rightarrow> jsval \<Rightarrow> bool" where
  "ends_at get out own run lastEvent output \<longleftrightarrow> (\<exists>before e after. own = before @ e # after \<and> idle_event e
     \<and> (\<forall>j < length (filter idle_event before). still_running (get j)) \<and> has_ended (get (length (filter idle_event before))) run
     \<and> lastEvent = Some e \<and> output = last_output out before)"

lemma idle_not_message: "idle_event e \<Longrightarrow> \<not> event_type e ''agent.message''"
  by (auto simp: idle_event_def event_type_def)

lemma ends_at_Nil [simp]: "\<not> ends_at get out [] run lastEvent output"
  by (simp add: ends_at_def)

lemma ends_at_Cons:
  "ends_at get out (e # own) run lastEvent output \<longleftrightarrow>
     (idle_event e \<and> has_ended (get 0) run \<and> lastEvent = Some e \<and> output = out)
     \<or> (if idle_event e then still_running (get 0) \<and> ends_at (\<lambda>j. get (Suc j)) (output_after out e) own run lastEvent output
        else ends_at get (output_after out e) own run lastEvent output)"
proof -
  have split: "(\<exists>before x after. e # own = before @ x # after \<and> Q before x)
      \<longleftrightarrow> Q [] e \<or> (\<exists>before x after. own = before @ x # after \<and> Q (e # before) x)" for Q :: "jsval list \<Rightarrow> jsval \<Rightarrow> bool"
    by (auto simp: Cons_eq_append_conv)
  have all: "(\<forall>j < Suc n. P j) \<longleftrightarrow> P 0 \<and> (\<forall>j < n. P (Suc j))" for n and P :: "nat \<Rightarrow> bool" by (auto simp: less_Suc_eq_0_disj)
  have out: "last_output out (e # before) = last_output (output_after out e) before" "last_output out [] = out" for before
    by (simp_all add: last_output_def)
  show ?thesis
  proof (cases "idle_event e")
    case True
    show ?thesis unfolding ends_at_def split out using True by (cases "still_running (get 0)") (simp_all add: all)
  next
    case False
    then show ?thesis unfolding ends_at_def split out by simp
  qed
qed

lemma wait_loop_result:
  assumes "\<And>j r. get j = CallValue r \<Longrightarrow> r \<noteq> JUndef \<Longrightarrow> r \<noteq> JNull \<Longrightarrow> dot r ''id'' = turn" "dot run ''id'' = turn"
  shows "snd (wait_loop get fin k run l out events) = RunResult r lastEvent output
     \<longleftrightarrow> ends_at (\<lambda>j. get (k + j)) out (own_events turn events) r lastEvent output"
  using assms(2)
proof (induction events arbitrary: k run l out)
  case Nil
  then show ?case by (simp add: own_events_def split: stream_end.split)
next
  case (Cons e events)
  show ?case
  proof (cases "effectiveTurnId e = turn")
    case False
    then show ?thesis using Cons by (simp add: own_events_def)
  next
    case own: True
    then have flt: "own_events turn (e # events) = e # own_events turn events" by (simp add: own_events_def)
    show ?thesis
    proof (cases "idle_event e")
      case False
      then show ?thesis using Cons own
        by (simp add: flt ends_at_Cons Let_def idle_event_def output_after_def)
    next
      case True
      note nm = idle_not_message [OF True]
      show ?thesis
      proof (cases "get k")
        case (CallValue run')
        then show ?thesis using Cons.IH [of run' "Suc k"] Cons.prems own True nm assms(1) [OF CallValue]
          by (auto simp: flt ends_at_Cons Let_def idle_event_def output_after_def still_running_def has_ended_def)
      qed (use own True nm Cons.prems in \<open>auto simp: flt ends_at_Cons Let_def idle_event_def still_running_def has_ended_def\<close>)
    qed
  qed
qed

text \<open>C20: Waiting for a run returns exactly this: the answer of the server at the first idle event of the run at which the run has ended,
  this event, and the payload of the last message of the agent before it. It returns whenever the stream delivers such an event and the server
  answers every earlier question with a run that is still going on; events of other runs never matter.\<close>

theorem wait_returns:
  assumes "\<And>j r. get j = CallValue r \<Longrightarrow> r \<noteq> JUndef \<Longrightarrow> r \<noteq> JNull \<Longrightarrow> dot r ''id'' = dot (rh_run h) ''id''"
  shows "snd (handle_wait get fin h events) = RunResult run lastEvent output
     \<longleftrightarrow> ends_at get JUndef (own_events (dot (rh_run h) ''id'') events) run lastEvent output"
  using wait_loop_result [OF assms refl, where k = 0] by (simp add: handle_wait_def case_prod_beta)

definition sample_run :: "string \<Rightarrow> jsval" where
  "sample_run status = jobj [(''id'', jlit ''r1''), (''session_id'', jlit ''s1''), (''status'', jlit status)]"

definition run_event :: "string \<Rightarrow> string \<Rightarrow> string \<Rightarrow> jsval" where
  "run_event turn t text' = jobj [(''turn_id'', jlit turn), (''type'', jlit t), (''payload'', jlit text')]"

theorem wait_returns_witness:
  "snd (handle_wait (\<lambda>j. CallValue (sample_run (if j = 0 then ''running'' else ''completed''))) StreamWaits
      \<lparr>rh_run = sample_run ''running'', rh_initialEvents = [], rh_created = JBool True\<rparr>
      [run_event ''r1'' ''agent.message'' ''one'', run_event ''r1'' ''session.status_idle'' [], run_event ''r0'' ''agent.message'' ''other'',
       run_event ''r1'' ''agent.message'' ''two'', run_event ''r1'' ''session.status_idle'' ''end''])
   = RunResult (sample_run ''completed'') (Some (run_event ''r1'' ''session.status_idle'' ''end'')) (jlit ''two'')"
proof -
  let ?get = "\<lambda>j :: nat. CallValue (sample_run (if j = 0 then ''running'' else ''completed''))"
  let ?h = "\<lparr>rh_run = sample_run ''running'', rh_initialEvents = [], rh_created = JBool True\<rparr>"
  let ?before = "[run_event ''r1'' ''agent.message'' ''one'', run_event ''r1'' ''session.status_idle'' [],
     run_event ''r1'' ''agent.message'' ''two'']"
  let ?e = "run_event ''r1'' ''session.status_idle'' ''end''"
  let ?evs = "[run_event ''r1'' ''agent.message'' ''one'', run_event ''r1'' ''session.status_idle'' [], run_event ''r0'' ''agent.message'' ''other'',
       run_event ''r1'' ''agent.message'' ''two'', run_event ''r1'' ''session.status_idle'' ''end'']"
  have id: "dot (sample_run s) ''id'' = jlit ''r1''" for s by (simp add: sample_run_def dot_def own_prop_def jobj_def)
  have "own_events (jlit ''r1'') ?evs = ?before @ ?e # []" "idle_event ?e" "length (filter idle_event ?before) = 1"
    "still_running (?get 0)" "has_ended (?get 1) (sample_run ''completed'')" "last_output JUndef ?before = jlit ''two''"
    by code_simp+
  then have "ends_at ?get JUndef (own_events (jlit ''r1'') ?evs) (sample_run ''completed'') (Some ?e) (jlit ''two'')"
    unfolding ends_at_def by (intro exI [of _ ?before] exI [of _ ?e] exI [of _ "[]"]) simp
  then show ?thesis using wait_returns [of ?get ?h] id by simp
qed

end
