(* ===== verification/Authenticated_Fetch.thy ===== *)
theory Authenticated_Fetch
  imports SDK_Requests "HOL-Library.Sublist"
begin

text \<open>
  The authenticated \<open>fetch\<close> of the workbench (\<open>apps/workbench/src/auth.js\<close>) and of the console (\<open>apps/console/src/auth.js\<close>). A request
  that is answered with status 401 makes the page ask for a new access token, once for all requests that wait for one, and is sent again
  when there is one; otherwise the page goes to the login. Both files share the structure and differ in two functions, the fields of
  \<open>auth_client\<close>. A call is split where it awaits; the network answers at any time, in any order, or not at all.
\<close>

section \<open>The two clients\<close>

record page_location =
  pl_pathname :: jstring
  pl_search :: jstring
  pl_hash :: jstring

text \<open>\<open>cl_auth_route\<close> tells the routes of the authentication itself by their URL, \<open>cl_login\<close> is the address of the login; its \<open>None\<close> is the
  \<open>URIError\<close> of \<open>encodeURIComponent\<close>.\<close>

record auth_client =
  cl_auth_route :: "jstring \<Rightarrow> bool"
  cl_login :: "page_location \<Rightarrow> jstring option"

text \<open>The parser of URLs is a parameter: the origin and the path of an address, or \<open>None\<close> when it throws.\<close>

definition isAuthenticationRoute :: "(jstring \<Rightarrow> (jstring \<times> jstring) option) \<Rightarrow> jstring \<Rightarrow> jstring \<Rightarrow> bool" where
  "isAuthenticationRoute parse origin href = (case parse href of
       Some (url_origin, pathname) \<Rightarrow> url_origin = origin \<and> starts_with pathname (lit ''/auth/'')
     | None \<Rightarrow> False)"

definition workbench_login :: "page_location \<Rightarrow> jstring option" where
  "workbench_login loc = map_option (\<lambda>e. lit ''/auth/login?return_to='' @ e)
     (encodeURIComponent (pl_pathname loc @ pl_search loc @ pl_hash loc))"

definition workbench_client :: "(jstring \<Rightarrow> (jstring \<times> jstring) option) \<Rightarrow> jstring \<Rightarrow> auth_client" where
  "workbench_client parse origin = \<lparr>cl_auth_route = isAuthenticationRoute parse origin, cl_login = workbench_login\<rparr>"

definition console_auth_route :: "(jstring \<Rightarrow> (jstring \<times> jstring) option) \<Rightarrow> jstring \<Rightarrow> bool" where
  "console_auth_route parse href = (case parse href of Some (_, pathname) \<Rightarrow> starts_with pathname (lit ''/auth/'') | None \<Rightarrow> False)"

text \<open>The console sets \<open>return_to\<close> as a parameter of the URL of the login at the origin of its base URL.\<close>

definition console_login :: "jstring \<Rightarrow> page_location \<Rightarrow> jstring option" where
  "console_login origin loc = (let pathname = (if pl_pathname loc = [] then lit ''/'' else pl_pathname loc);
       returnTo = pathname @ pl_search loc @ pl_hash loc in
     Some (origin @ lit ''/auth/login'' @ [63] @ params_string (params_set [] (lit ''return_to'') returnTo)))"

definition console_client :: "(jstring \<Rightarrow> (jstring \<times> jstring) option) \<Rightarrow> jstring \<Rightarrow> auth_client" where
  "console_client parse origin = \<lparr>cl_auth_route = console_auth_route parse, cl_login = console_login origin\<rparr>"

section \<open>Calls\<close>

text \<open>A refresh is open, or has ended: with an answer that is \<open>ok\<close> or not, or with an error of the network (\<open>None\<close>).\<close>

type_synonym refresh = "bool option option"

datatype call_phase =
    Sent jstring
  | AwaitsRefresh nat response
  | SentAgain
  | Returned response
  | FetchThrew

datatype auth_event =
    Requested nat jstring
  | Denied nat
  | RefreshSent nat
  | Refreshed nat "bool option"
  | Repeated nat
  | Redirected nat jstring

record auth_state =
  as_refreshRequest :: "nat option"
  as_refreshes :: "refresh list"
  as_calls :: "(nat, call_phase) jmap"
  as_log :: "auth_event list"

definition initial_auth :: auth_state where
  "initial_auth = \<lparr>as_refreshRequest = None, as_refreshes = [], as_calls = [], as_log = []\<rparr>"

definition set_phase :: "nat \<Rightarrow> call_phase \<Rightarrow> auth_state \<Rightarrow> auth_state" where
  "set_phase i ph st = st\<lparr>as_calls := map_set (as_calls st) i ph\<rparr>"

definition note_event :: "auth_event \<Rightarrow> auth_state \<Rightarrow> auth_state" where
  "note_event e st = st\<lparr>as_log := as_log st @ [e]\<rparr>"

definition authenticatedFetch :: "nat \<Rightarrow> jstring \<Rightarrow> auth_state \<Rightarrow> auth_state" where
  "authenticatedFetch i href st = set_phase i (Sent href) (note_event (Requested i href) st)"

definition refreshSession :: "auth_state \<Rightarrow> auth_state \<times> nat" where
  "refreshSession st = (case as_refreshRequest st of
       Some k \<Rightarrow> (st, k)
     | None \<Rightarrow> (let k = length (as_refreshes st) in
         (note_event (RefreshSent k) (st\<lparr>as_refreshRequest := Some k, as_refreshes := as_refreshes st @ [None]\<rparr>), k)))"

text \<open>The answer to the first request; \<open>None\<close> is an error of the network.\<close>

definition first_answer :: "auth_client \<Rightarrow> nat \<Rightarrow> response option \<Rightarrow> auth_state \<Rightarrow> auth_state" where
  "first_answer cl i answer st = (case map_get (as_calls st) i of
       Some (Sent href) \<Rightarrow> (case answer of
           None \<Rightarrow> set_phase i FetchThrew st
         | Some r \<Rightarrow> if rp_status r \<noteq> 401 \<or> cl_auth_route cl href then set_phase i (Returned r) st
             else (case refreshSession (note_event (Denied i) st) of (st', k) \<Rightarrow> set_phase i (AwaitsRefresh k r) st'))
     | _ \<Rightarrow> st)"

text \<open>A refresh ends: the handler of \<open>finally\<close> runs before any call that waits.\<close>

definition refresh_settled :: "nat \<Rightarrow> bool option \<Rightarrow> auth_state \<Rightarrow> auth_state" where
  "refresh_settled k outcome st = (if k < length (as_refreshes st) \<and> as_refreshes st ! k = None
     then note_event (Refreshed k outcome) (st\<lparr>as_refreshRequest := None, as_refreshes := (as_refreshes st)[k := Some outcome]\<rparr>)
     else st)"

text \<open>A waiting call goes on. In the console the page may have no location (\<open>None\<close>).\<close>

definition fetch_resumes :: "auth_client \<Rightarrow> page_location option \<Rightarrow> nat \<Rightarrow> auth_state \<Rightarrow> auth_state" where
  "fetch_resumes cl loc i st = (case map_get (as_calls st) i of
       Some (AwaitsRefresh k r) \<Rightarrow> (case as_refreshes st ! k of
           None \<Rightarrow> st
         | Some None \<Rightarrow> set_phase i FetchThrew st
         | Some (Some True) \<Rightarrow> set_phase i SentAgain (note_event (Repeated i) st)
         | Some (Some False) \<Rightarrow> (case loc of
             None \<Rightarrow> set_phase i (Returned r) st
           | Some l \<Rightarrow> (case cl_login cl l of
               None \<Rightarrow> set_phase i FetchThrew st
             | Some u \<Rightarrow> set_phase i (Returned r) (note_event (Redirected i u) st))))
     | _ \<Rightarrow> st)"

definition second_answer :: "nat \<Rightarrow> response option \<Rightarrow> auth_state \<Rightarrow> auth_state" where
  "second_answer i answer st = (case map_get (as_calls st) i of
       Some SentAgain \<Rightarrow> set_phase i (case answer of None \<Rightarrow> FetchThrew | Some r \<Rightarrow> Returned r) st
     | _ \<Rightarrow> st)"

inductive auth_step :: "auth_client \<Rightarrow> auth_state \<Rightarrow> auth_state \<Rightarrow> bool" for cl where
  auth_call: "map_get (as_calls st) i = None \<Longrightarrow> auth_step cl st (authenticatedFetch i href st)"
| auth_first: "auth_step cl st (first_answer cl i answer st)"
| auth_refresh: "auth_step cl st (refresh_settled k outcome st)"
| auth_resume: "auth_step cl st (fetch_resumes cl loc i st)"
| auth_second: "auth_step cl st (second_answer i answer st)"

inductive reachable_auth :: "auth_client \<Rightarrow> auth_state \<Rightarrow> bool" for cl where
  auth_init: "reachable_auth cl initial_auth"
| auth_next: "reachable_auth cl st \<Longrightarrow> auth_step cl st st' \<Longrightarrow> reachable_auth cl st'"

section \<open>The history of a call\<close>

fun of_call :: "nat \<Rightarrow> auth_event \<Rightarrow> bool" where
  "of_call i (Requested j _) = (j = i)"
| "of_call i (Denied j) = (j = i)"
| "of_call i (Repeated j) = (j = i)"
| "of_call i (Redirected j _) = (j = i)"
| "of_call i _ = False"

fun refresh_event :: "auth_event \<Rightarrow> bool" where
  "refresh_event (RefreshSent _) = True"
| "refresh_event (Refreshed _ _) = True"
| "refresh_event _ = False"

definition history :: "nat \<Rightarrow> auth_state \<Rightarrow> auth_event list" where
  "history i st = filter (of_call i) (as_log st)"

text \<open>The phases of a call and what has happened for it so far.\<close>

fun phase_ok :: "auth_client \<Rightarrow> auth_state \<Rightarrow> nat \<Rightarrow> call_phase option \<Rightarrow> bool" where
  "phase_ok cl st i None \<longleftrightarrow> history i st = []"
| "phase_ok cl st i (Some (Sent href)) \<longleftrightarrow> history i st = [Requested i href]"
| "phase_ok cl st i (Some (AwaitsRefresh k r)) \<longleftrightarrow> (\<exists>href. history i st = [Requested i href, Denied i] \<and> \<not> cl_auth_route cl href) \<and> rp_status r = 401
     \<and> k < length (as_refreshes st) \<and> (\<forall>o'. as_refreshes st ! k = Some o' \<longrightarrow> subseq [Denied i, Refreshed k o'] (as_log st))"
| "phase_ok cl st i (Some SentAgain) \<longleftrightarrow> (\<exists>href k. history i st = [Requested i href, Denied i, Repeated i] \<and> \<not> cl_auth_route cl href
     \<and> subseq [Denied i, Refreshed k (Some True), Repeated i] (as_log st))"
| "phase_ok cl st i (Some FetchThrew) \<longleftrightarrow> (\<exists>href. history i st = [Requested i href]
     \<or> (\<not> cl_auth_route cl href \<and> (history i st = [Requested i href, Denied i]
        \<or> (history i st = [Requested i href, Denied i, Repeated i]
           \<and> (\<exists>k. subseq [Denied i, Refreshed k (Some True), Repeated i] (as_log st))))))"
| "phase_ok cl st i (Some (Returned r)) \<longleftrightarrow> (\<exists>href. (history i st = [Requested i href] \<and> (rp_status r \<noteq> 401 \<or> cl_auth_route cl href))
     \<or> (\<not> cl_auth_route cl href \<and>
         ((history i st = [Requested i href, Denied i] \<and> rp_status r = 401)
        \<or> (history i st = [Requested i href, Denied i, Repeated i]
           \<and> (\<exists>k. subseq [Denied i, Refreshed k (Some True), Repeated i] (as_log st)))
        \<or> (\<exists>u k. history i st = [Requested i href, Denied i, Redirected i u] \<and> rp_status r = 401
           \<and> subseq [Denied i, Refreshed k (Some False), Redirected i u] (as_log st)))))"

text \<open>What the page has sent to refresh its token, from the list of refreshes.\<close>

definition refresh_history :: "refresh list \<Rightarrow> auth_event list" where
  "refresh_history rs = concat (map (\<lambda>k. RefreshSent k # (case rs ! k of None \<Rightarrow> [] | Some o' \<Rightarrow> [Refreshed k o'])) [0..<length rs])"

definition refreshes_ok :: "auth_state \<Rightarrow> bool" where
  "refreshes_ok st \<longleftrightarrow> filter refresh_event (as_log st) = refresh_history (as_refreshes st)
     \<and> (\<forall>k. as_refreshRequest st = Some k \<longleftrightarrow> k < length (as_refreshes st) \<and> as_refreshes st ! k = None)
     \<and> (\<forall>k < length (as_refreshes st). as_refreshes st ! k = None \<longrightarrow> Suc k = length (as_refreshes st))"

definition auth_invariant :: "auth_client \<Rightarrow> auth_state \<Rightarrow> bool" where
  "auth_invariant cl st \<longleftrightarrow> refreshes_ok st \<and> (\<forall>i. phase_ok cl st i (map_get (as_calls st) i))"


lemma history_note [simp]: "history i (note_event e st) = history i st @ (if of_call i e then [e] else [])"
  by (simp add: history_def note_event_def)

lemma history_phase [simp]: "history i (set_phase j ph st) = history i st"
  by (simp add: history_def set_phase_def)

lemma phase_fields [simp]:
  "as_log (set_phase i ph st) = as_log st" "as_refreshes (set_phase i ph st) = as_refreshes st"
  "as_refreshRequest (set_phase i ph st) = as_refreshRequest st"
  "map_get (as_calls (set_phase i ph st)) j = (if j = i then Some ph else map_get (as_calls st) j)"
  by (simp_all add: set_phase_def js_map)

lemma note_fields [simp]:
  "as_log (note_event e st) = as_log st @ [e]" "as_refreshes (note_event e st) = as_refreshes st"
  "as_refreshRequest (note_event e st) = as_refreshRequest st" "as_calls (note_event e st) = as_calls st"
  by (simp_all add: note_event_def)

lemma subseq_then: "subseq xs ys \<Longrightarrow> z \<in> set zs \<Longrightarrow> subseq (xs @ [z]) (ys @ zs)"
  by (intro list_emb_append_mono) (simp_all add: subseq_singleton_left)

lemma subseq_longer: "subseq xs ys \<Longrightarrow> subseq xs (ys @ zs)"
  by (rule list_emb_prefix)

lemma history_in_log: "history i st = es \<Longrightarrow> e \<in> set es \<Longrightarrow> subseq [e] (as_log st)"
  by (auto simp: history_def subseq_singleton_left)

lemma phase_ok_mono:
  assumes "phase_ok cl st i ph" "history i st' = history i st" "as_log st' = as_log st @ es"
    and "length (as_refreshes st) \<le> length (as_refreshes st')"
    and "\<And>k o'. k < length (as_refreshes st) \<Longrightarrow> as_refreshes st' ! k = Some o' \<Longrightarrow> as_refreshes st ! k = Some o' \<or> Refreshed k o' \<in> set es"
  shows "phase_ok cl st' i ph"
proof -
  have keep: "subseq xs (as_log st) \<Longrightarrow> subseq xs (as_log st')" for xs using subseq_longer assms(3) by simp
  show ?thesis
  proof (cases "\<exists>k r. ph = Some (AwaitsRefresh k r)")
    case True
    then obtain k r where ph: "ph = Some (AwaitsRefresh k r)" by blast
    have "subseq [Denied i, Refreshed k o'] (as_log st')" if "as_refreshes st' ! k = Some o'" for o'
    proof (cases "as_refreshes st ! k = Some o'")
      case True
      then show ?thesis using assms(1) keep ph by simp
    next
      case False
      have "subseq [Denied i] (as_log st)" using assms(1) ph history_in_log [of i st] by fastforce
      moreover have "Refreshed k o' \<in> set es" using assms(1,5) ph False that by auto
      ultimately show ?thesis using subseq_then [of "[Denied i]"] assms(3) by simp
    qed
    then show ?thesis using assms(1,2,4) ph by auto
  next
    case False
    then show ?thesis using assms(1,2) keep by (cases "(cl, st, i, ph)" rule: phase_ok.cases) (simp_all, blast+)
  qed
qed

lemma refresh_history_snoc: "refresh_history (rs @ [v])
    = refresh_history rs @ RefreshSent (length rs) # (case v of None \<Rightarrow> [] | Some o' \<Rightarrow> [Refreshed (length rs) o'])"
proof -
  let ?f = "\<lambda>rs k. RefreshSent k # (case rs ! k of None \<Rightarrow> [] | Some o' \<Rightarrow> [Refreshed k o'])"
  have "map (?f (rs @ [v])) [0..<length rs] = map (?f rs) [0..<length rs]" by (rule map_cong) (simp_all add: nth_append)
  then have "concat (map (?f (rs @ [v])) [0..<length rs]) = concat (map (?f rs) [0..<length rs])" by (rule arg_cong)
  then show ?thesis unfolding refresh_history_def by (simp del: map_eq_conv)
qed

lemma refresh_history_settle:
  assumes "Suc k = length rs" "rs ! k = None"
  shows "refresh_history (rs[k := Some o']) = refresh_history rs @ [Refreshed k o']"
proof -
  have "rs = butlast rs @ [None]" using assms by (metis append_butlast_last_id diff_Suc_1 last_conv_nth length_0_conv nat.simps(3))
  moreover have "length (butlast rs) = k" using assms(1) by simp
  ultimately show ?thesis using refresh_history_snoc [of "butlast rs"]
    by (metis append_assoc append_Cons append_Nil list_update_length option.simps(4,5))
qed

section \<open>The invariant\<close>

lemma invariantI:
  assumes "auth_invariant cl st" "refreshes_ok st'" "as_log st' = as_log st @ es"
    and "length (as_refreshes st) \<le> length (as_refreshes st')"
    and "\<And>k o'. k < length (as_refreshes st) \<Longrightarrow> as_refreshes st' ! k = Some o' \<Longrightarrow> as_refreshes st ! k = Some o' \<or> Refreshed k o' \<in> set es"
    and "\<And>j. j \<noteq> i \<Longrightarrow> map_get (as_calls st') j = map_get (as_calls st) j \<and> history j st' = history j st"
    and "phase_ok cl st' i (map_get (as_calls st') i)"
  shows "auth_invariant cl st'"
  unfolding auth_invariant_def
proof (intro conjI allI)
  show "phase_ok cl st' j (map_get (as_calls st') j)" for j
    using assms phase_ok_mono [of cl st j _ st' es] by (cases "j = i") (auto simp: auth_invariant_def)
qed (use assms in simp)

lemma refreshes_ok_same:
  "refreshes_ok st \<Longrightarrow> as_refreshes st' = as_refreshes st \<Longrightarrow> as_refreshRequest st' = as_refreshRequest st \<Longrightarrow>
     filter refresh_event (as_log st') = filter refresh_event (as_log st) \<Longrightarrow> refreshes_ok st'"
  by (simp add: refreshes_ok_def)

lemma call_invariant:
  assumes "auth_invariant cl st" "map_get (as_calls st) i = None"
  shows "auth_invariant cl (authenticatedFetch i href st)"
proof (rule invariantI [where i = i and es = "[Requested i href]", OF assms(1)])
  show "refreshes_ok (authenticatedFetch i href st)"
    using assms(1) by (auto simp: auth_invariant_def authenticatedFetch_def intro: refreshes_ok_same)
  have "history i st = []" using assms by (metis auth_invariant_def phase_ok.simps(1))
  then show "phase_ok cl (authenticatedFetch i href st) i (map_get (as_calls (authenticatedFetch i href st)) i)"
    by (simp add: authenticatedFetch_def)
qed (auto simp: authenticatedFetch_def)

lemma refreshSession_ok:
  assumes "refreshes_ok st" "refreshSession st = (st', k)"
  shows "refreshes_ok st' \<and> k < length (as_refreshes st') \<and> as_refreshes st' ! k = None \<and> as_calls st' = as_calls st
    \<and> (\<exists>es. as_log st' = as_log st @ es \<and> (\<forall>i. filter (of_call i) es = []))
    \<and> (\<exists>more'. as_refreshes st' = as_refreshes st @ more')"
proof (cases "as_refreshRequest st")
  case None
  have "as_refreshes st ! j \<noteq> None" if "j < length (as_refreshes st)" for j
    using assms(1) None that by (auto simp: refreshes_ok_def)
  then show ?thesis using assms None
    by (force simp: refreshSession_def Let_def refreshes_ok_def refresh_history_snoc nth_append less_Suc_eq)
next
  case (Some j)
  then show ?thesis using assms by (auto simp: refreshSession_def refreshes_ok_def)
qed

lemma first_invariant:
  assumes "auth_invariant cl st"
  shows "auth_invariant cl (first_answer cl i answer st)"
proof (cases "\<exists>href. map_get (as_calls st) i = Some (Sent href)")
  case True
  then obtain href where ph: "map_get (as_calls st) i = Some (Sent href)" by blast
  have inv: "refreshes_ok st" "history i st = [Requested i href]" using assms ph by (metis auth_invariant_def phase_ok.simps(2))+
  show ?thesis
  proof (cases "\<exists>r. answer = Some r \<and> rp_status r = 401 \<and> \<not> cl_auth_route cl href")
    case True
    then obtain r where r: "answer = Some r" "rp_status r = 401" "\<not> cl_auth_route cl href" by blast
    obtain st' k where re: "refreshSession (note_event (Denied i) st) = (st', k)" by fastforce
    have "refreshes_ok (note_event (Denied i) st)" using inv(1) by (rule refreshes_ok_same) simp_all
    note ok = refreshSession_ok [OF this re]
    then obtain es more' where es: "as_log st' = (as_log st @ [Denied i]) @ es" "\<And>i. filter (of_call i) es = []"
      and more': "as_refreshes st' = as_refreshes st @ more'" by auto
    have eq: "first_answer cl i answer st = set_phase i (AwaitsRefresh k r) st'" using ph r re by (simp add: first_answer_def)
    have hist: "history j st' = history j st @ (if j = i then [Denied j] else [])" for j using es by (auto simp: history_def)
    show ?thesis unfolding eq
    proof (rule invariantI [where i = i and es = "Denied i # es", OF assms])
      show "refreshes_ok (set_phase i (AwaitsRefresh k r) st')" using ok by (auto intro: refreshes_ok_same)
    qed (use ok es more' hist inv r in \<open>auto simp: nth_append\<close>)
  next
    case False
    then consider "answer = None" | r where "answer = Some r" "rp_status r \<noteq> 401 \<or> cl_auth_route cl href" by (cases answer) auto
    then obtain ph' where eq: "first_answer cl i answer st = set_phase i ph' st" and ok: "phase_ok cl (set_phase i ph' st) i (Some ph')"
      using ph inv(2) by cases (auto simp: first_answer_def)
    show ?thesis unfolding eq
      by (rule invariantI [where i = i and es = "[]", OF assms]) (use inv ok in \<open>auto intro: refreshes_ok_same\<close>)
  qed
next
  case False
  then have "first_answer cl i answer st = st" by (auto simp: first_answer_def split: option.splits call_phase.splits)
  then show ?thesis using assms by simp
qed

lemma settled_invariant:
  assumes "auth_invariant cl st"
  shows "auth_invariant cl (refresh_settled k outcome st)"
proof (cases "k < length (as_refreshes st) \<and> as_refreshes st ! k = None")
  case True
  have ok: "refreshes_ok st" using assms by (simp add: auth_invariant_def)
  then have last: "Suc k = length (as_refreshes st)" using True by (simp add: refreshes_ok_def)
  let ?st = "refresh_settled k outcome st"
  have "as_refreshes st ! j \<noteq> None" if "j < length (as_refreshes st)" "j \<noteq> k" for j
    using ok that last by (auto simp: refreshes_ok_def)
  then have all: "as_refreshes ?st ! j \<noteq> None" if "j < length (as_refreshes st)" for j
    using True that by (auto simp: refresh_settled_def nth_list_update)
  have "filter refresh_event (as_log ?st) = refresh_history (as_refreshes ?st)"
    using ok True refresh_history_settle [OF last] by (simp add: refresh_settled_def refreshes_ok_def)
  moreover have "as_refreshRequest ?st = None" "length (as_refreshes ?st) = length (as_refreshes st)"
    using True by (simp_all add: refresh_settled_def)
  ultimately have "refreshes_ok ?st" using all unfolding refreshes_ok_def by force
  moreover have "phase_ok cl ?st j (map_get (as_calls ?st) j)" for j
  proof (rule phase_ok_mono [where es = "[Refreshed k outcome]"])
    show "phase_ok cl st j (map_get (as_calls ?st) j)" using assms True by (simp add: auth_invariant_def refresh_settled_def)
  qed (use True in \<open>auto simp: refresh_settled_def history_def nth_list_update split: if_splits\<close>)
  ultimately show ?thesis by (simp add: auth_invariant_def)
next
  case False
  then have "refresh_settled k outcome st = st" unfolding refresh_settled_def by (rule if_not_P)
  then show ?thesis using assms by simp
qed

lemma resume_invariant:
  assumes "auth_invariant cl st"
  shows "auth_invariant cl (fetch_resumes cl loc i st)"
proof (cases "\<exists>k r o'. map_get (as_calls st) i = Some (AwaitsRefresh k r) \<and> as_refreshes st ! k = Some o'")
  case True
  then obtain k r o' where ph: "map_get (as_calls st) i = Some (AwaitsRefresh k r)" and settled: "as_refreshes st ! k = Some o'" by blast
  have ok: "refreshes_ok st" "phase_ok cl st i (Some (AwaitsRefresh k r))" using assms ph by (metis auth_invariant_def)+
  then obtain href where href: "history i st = [Requested i href, Denied i]" "\<not> cl_auth_route cl href" "rp_status r = 401"
    and seen: "subseq [Denied i, Refreshed k o'] (as_log st)" using settled by auto
  have more': "subseq [Denied i, Refreshed k o', e] (as_log st @ [e])" for e
    using subseq_then [OF seen, of e "[e]"] by simp
  have "\<exists>ph' es. fetch_resumes cl loc i st = set_phase i ph' (st\<lparr>as_log := as_log st @ es\<rparr>) \<and> filter refresh_event es = []
      \<and> (\<forall>j. j \<noteq> i \<longrightarrow> filter (of_call j) es = []) \<and> phase_ok cl (set_phase i ph' (st\<lparr>as_log := as_log st @ es\<rparr>)) i (Some ph')"
  proof -
    consider "o' = None \<or> (o' = Some False \<and> (\<exists>l. loc = Some l \<and> cl_login cl l = None))" | "o' = Some True"
      | "o' = Some False" "loc = None" | l u where "o' = Some False" "loc = Some l" "cl_login cl l = Some u"
      by (cases o'; cases loc; cases "cl_login cl (the loc)") auto
    then show ?thesis
    proof cases
      case 1
      then show ?thesis using ph settled href by (intro exI [of _ FetchThrew] exI [of _ "[]"]) (auto simp: fetch_resumes_def history_def)
    next
      case 2
      then show ?thesis using ph settled href more' by (intro exI [of _ SentAgain] exI [of _ "[Repeated i]"])
          (auto simp: fetch_resumes_def history_def note_event_def)
    next
      case 3
      then show ?thesis using ph settled href by (intro exI [of _ "Returned r"] exI [of _ "[]"]) (auto simp: fetch_resumes_def history_def)
    next
      case 4
      then show ?thesis using ph settled href more' by (intro exI [of _ "Returned r"] exI [of _ "[Redirected i u]"])
          (auto simp: fetch_resumes_def history_def note_event_def)
    qed
  qed
  then obtain ph' es where eq: "fetch_resumes cl loc i st = set_phase i ph' (st\<lparr>as_log := as_log st @ es\<rparr>)" "filter refresh_event es = []"
    "\<forall>j. j \<noteq> i \<longrightarrow> filter (of_call j) es = []" "phase_ok cl (set_phase i ph' (st\<lparr>as_log := as_log st @ es\<rparr>)) i (Some ph')" by blast
  show ?thesis unfolding eq(1)
    by (rule invariantI [where i = i and es = es, OF assms]) (use ok eq in \<open>auto simp: history_def intro: refreshes_ok_same\<close>)
next
  case False
  then have "fetch_resumes cl loc i st = st" by (auto simp: fetch_resumes_def split: option.splits call_phase.splits)
  then show ?thesis using assms by simp
qed

lemma second_invariant:
  assumes "auth_invariant cl st"
  shows "auth_invariant cl (second_answer i answer st)"
proof (cases "map_get (as_calls st) i = Some SentAgain")
  case True
  have ok: "refreshes_ok st" "phase_ok cl st i (Some SentAgain)" using assms True by (metis auth_invariant_def)+
  let ?ph = "case answer of None \<Rightarrow> FetchThrew | Some r \<Rightarrow> Returned r"
  have eq: "second_answer i answer st = set_phase i ?ph st" using True by (simp add: second_answer_def)
  have "phase_ok cl (set_phase i ?ph st) i (Some ?ph)" using ok(2) by (cases answer) auto
  then show ?thesis unfolding eq
    by (intro invariantI [where i = i and es = "[]", OF assms]) (use ok in \<open>auto intro: refreshes_ok_same\<close>)
next
  case False
  then have "second_answer i answer st = st" by (auto simp: second_answer_def split: option.splits call_phase.splits)
  then show ?thesis using assms by simp
qed

lemma reachable_invariant: "reachable_auth cl st \<Longrightarrow> auth_invariant cl st"
proof (induction rule: reachable_auth.induct)
  case auth_init
  then show ?case by (simp add: auth_invariant_def initial_auth_def refreshes_ok_def refresh_history_def history_def)
next
  case (auth_next st st')
  from auth_next.hyps(2) auth_next.IH show ?case
    by cases (simp_all add: call_invariant first_invariant settled_invariant resume_invariant second_invariant)
qed

section \<open>Properties\<close>

text \<open>C21: Requests that are denied share one refresh. The page sends refreshes one after the other, each after the end of the one before; the
  reference of the module is the open refresh, if there is one. A call that waits, waits for a refresh that is open or has ended; it is
  never forgotten: after the end of the refresh its next step leaves the waiting.\<close>

theorem refresh_shared:
  assumes "reachable_auth cl st"
  shows "filter refresh_event (as_log st) = refresh_history (as_refreshes st)
    \<and> length (filter (\<lambda>r. r = None) (as_refreshes st)) \<le> 1
    \<and> (\<forall>k. as_refreshRequest st = Some k \<longleftrightarrow> k < length (as_refreshes st) \<and> as_refreshes st ! k = None)
    \<and> (\<forall>i k r. map_get (as_calls st) i = Some (AwaitsRefresh k r) \<longrightarrow> as_refreshRequest st = Some k
         \<or> map_get (as_calls (fetch_resumes cl loc i st)) i \<in> {Some SentAgain, Some (Returned r), Some FetchThrew})"
proof -
  have inv: "refreshes_ok st" "\<And>i. phase_ok cl st i (map_get (as_calls st) i)"
    using reachable_invariant [OF assms] by (auto simp: auth_invariant_def)
  have "as_refreshRequest st = Some k \<or> map_get (as_calls (fetch_resumes cl loc i st)) i \<in> {Some SentAgain, Some (Returned r), Some FetchThrew}"
    if w: "map_get (as_calls st) i = Some (AwaitsRefresh k r)" for i k r
  proof (cases "as_refreshes st ! k")
    case None
    then show ?thesis using inv(1) inv(2) [of i] w by (simp add: refreshes_ok_def)
  next
    case (Some o')
    then show ?thesis using w by (cases o') (auto simp: fetch_resumes_def split: option.splits bool.splits)
  qed
  moreover have "length (filter (\<lambda>r. r = None) (as_refreshes st)) \<le> 1"
  proof -
    have "{k. k < length (as_refreshes st) \<and> as_refreshes st ! k = None} \<subseteq> {length (as_refreshes st) - 1}"
      using inv(1) by (auto simp: refreshes_ok_def)
    then have "card {k. k < length (as_refreshes st) \<and> as_refreshes st ! k = None} \<le> card {length (as_refreshes st) - 1}"
      by (intro card_mono) simp_all
    then show ?thesis by (simp add: length_filter_conv_card)
  qed
  ultimately show ?thesis using inv(1) unfolding refreshes_ok_def by blast
qed

definition sample_response :: "int \<Rightarrow> response" where
  "sample_response status = \<lparr>rp_status = status, rp_statusText = [], rp_requestId = None, rp_json = None\<rparr>"

definition sample_parse :: "jstring \<Rightarrow> (jstring \<times> jstring) option" where
  "sample_parse href = Some (lit ''https://tma.example'', href)"

definition sample_client :: auth_client where
  "sample_client = workbench_client sample_parse (lit ''https://tma.example'')"

text \<open>Two requests are denied, one before and one after the refresh was sent; the refresh succeeds.\<close>

definition denied_twice :: auth_state where
  "denied_twice = first_answer sample_client 1 (Some (sample_response 401)) (first_answer sample_client 0 (Some (sample_response 401))
     (authenticatedFetch 1 (lit ''/v2/agents'') (authenticatedFetch 0 (lit ''/v2/sessions'') initial_auth)))"

lemma reachable_denied: "reachable_auth sample_client denied_twice"
  unfolding denied_twice_def by (intro auth_next [OF _ auth_first] auth_next [OF _ auth_call] auth_init) code_simp+

theorem refresh_shared_witness:
  "as_log denied_twice = [Requested 0 (lit ''/v2/sessions''), Requested 1 (lit ''/v2/agents''), Denied 0, RefreshSent 0, Denied 1]
   \<and> as_refreshRequest denied_twice = Some 0 \<and> length (filter (\<lambda>r. r = None) (as_refreshes denied_twice)) \<le> 1"
proof -
  have "as_log denied_twice = [Requested 0 (lit ''/v2/sessions''), Requested 1 (lit ''/v2/agents''), Denied 0, RefreshSent 0, Denied 1]"
    "as_refreshRequest denied_twice = Some 0" by code_simp+
  then show ?thesis using refresh_shared [OF reachable_denied, of None] by blast
qed

text \<open>C22: A request is sent at most twice. It is sent again only when it was denied, is not a route of the authentication itself, and a refresh
  that ended after the denial has succeeded. The page goes to the login only for a denied request after a refresh that was refused,
  and the caller gets the denial. What is answered otherwise is returned as it is.\<close>

theorem retried_once:
  assumes "reachable_auth cl st"
  shows "history i st = [] \<or> (\<exists>href. history i st = [Requested i href]
     \<or> (\<not> cl_auth_route cl href
       \<and> (history i st = [Requested i href, Denied i]
        \<or> (history i st = [Requested i href, Denied i, Repeated i] \<and> (\<exists>k. subseq [Denied i, Refreshed k (Some True), Repeated i] (as_log st)))
        \<or> (\<exists>u k r. history i st = [Requested i href, Denied i, Redirected i u]
             \<and> subseq [Denied i, Refreshed k (Some False), Redirected i u] (as_log st)
             \<and> map_get (as_calls st) i = Some (Returned r) \<and> rp_status r = 401))))"
proof -
  have "phase_ok cl st i (map_get (as_calls st) i)" using reachable_invariant [OF assms] by (simp add: auth_invariant_def)
  then show ?thesis by (cases "(cl, st, i, map_get (as_calls st) i)" rule: phase_ok.cases) (simp_all, blast+)
qed

definition denied_resumed :: auth_state where
  "denied_resumed = second_answer 0 (Some (sample_response 200)) (fetch_resumes sample_client None 0 (refresh_settled 0 (Some True) denied_twice))"

lemma reachable_resumed: "reachable_auth sample_client denied_resumed"
  unfolding denied_resumed_def
  by (intro auth_next [OF _ auth_second] auth_next [OF _ auth_resume] auth_next [OF _ auth_refresh] reachable_denied)

theorem retried_once_witness:
  "history 0 denied_resumed = [Requested 0 (lit ''/v2/sessions''), Denied 0, Repeated 0]
   \<and> (\<exists>k. subseq [Denied 0, Refreshed k (Some True), Repeated 0] (as_log denied_resumed))
   \<and> map_get (as_calls denied_resumed) 0 = Some (Returned (sample_response 200))"
proof -
  have h: "history 0 denied_resumed = [Requested 0 (lit ''/v2/sessions''), Denied 0, Repeated 0]"
    "map_get (as_calls denied_resumed) 0 = Some (Returned (sample_response 200))" by code_simp+
  then show ?thesis using retried_once [OF reachable_resumed, of 0] by auto
qed

lemma encoded_value_read:
  assumes "code_units v" "encodeURIComponent v = Some e" "63 \<notin> set p"
  shows "query_of (p @ 63 # lit ''return_to='' @ e) = Some [(lit ''return_to'', v)]"
proof -
  have plain: "c \<notin> set e" if "separator c" for c using encode_plain [OF assms(1,2)] that by (auto simp: list_all_iff)
  then have "form_decode e = Some v"
    using replace_char_absent [of 43 e] uri_roundtrip [OF assms(1,2)] by (simp add: form_decode_def)
  moreover have parts: "lit ''return_to='' @ e = lit ''return_to'' @ 61 # e" by code_simp
  moreover have "61 \<notin> set (lit ''return_to'')" "form_decode (lit ''return_to'') = Some (lit ''return_to'')" by code_simp+
  ultimately have "pair_of (lit ''return_to='' @ e) = Some (lit ''return_to'', v)"
    using takeWhile_until [of 61 "lit ''return_to''" e] by (simp add: pair_of_def)
  moreover have "38 \<notin> set (lit ''return_to='')" by code_simp
  then have "split_on 38 (lit ''return_to='' @ e) = [lit ''return_to='' @ e]" using plain [of 38] by (intro split_on_single) auto
  ultimately show ?thesis using query_of_text [OF assms(3), of "lit ''return_to='' @ e"] parts by simp
qed

lemma form_value_read:
  assumes "pair_ok (k, v)" "63 \<notin> set p"
  shows "query_of (p @ 63 # params_string [(k, v)]) = Some [(k, v)]"
proof -
  have "params_string [(k, v)] \<noteq> []" by (simp add: params_string_def)
  then show ?thesis
    using query_of_text [OF assms(2)] split_pairs [of "[(k, v)]"] pair_of_text [OF assms(1)] assms(1) by simp
qed

text \<open>The login gets back, in the parameter \<open>return_to\<close>, the address of the page with its query and fragment, from the workbench and
  from the console.\<close>

theorem return_to_read_back:
  assumes "code_units (pl_pathname loc @ pl_search loc @ pl_hash loc)" "pl_pathname loc \<noteq> []"
    and "encodeURIComponent (pl_pathname loc @ pl_search loc @ pl_hash loc) \<noteq> None" "63 \<notin> set origin"
  shows "\<exists>u v. workbench_login loc = Some u \<and> console_login origin loc = Some v
    \<and> query_of u = Some [(lit ''return_to'', pl_pathname loc @ pl_search loc @ pl_hash loc)]
    \<and> query_of v = Some [(lit ''return_to'', pl_pathname loc @ pl_search loc @ pl_hash loc)]"
proof -
  let ?v = "pl_pathname loc @ pl_search loc @ pl_hash loc"
  obtain e where e: "encodeURIComponent ?v = Some e" using assms(3) by blast
  have "63 \<notin> set (lit ''/auth/login'')" "lit ''/auth/login?return_to='' = lit ''/auth/login'' @ 63 # lit ''return_to=''" by code_simp+
  then have "workbench_login loc = Some (lit ''/auth/login'' @ 63 # lit ''return_to='' @ e)"
    and "query_of (lit ''/auth/login'' @ 63 # lit ''return_to='' @ e) = Some [(lit ''return_to'', ?v)]"
    using e encoded_value_read [OF assms(1) e] by (simp_all add: workbench_login_def)
  moreover have "63 \<notin> set (origin @ lit ''/auth/login'')" using assms(4) by (simp; code_simp)
  moreover have "well_formed (lit ''return_to'')" by code_simp
  then have "pair_ok (lit ''return_to'', ?v)" using assms(1,3) by (simp add: pair_ok_def well_formed_def)
  ultimately have "workbench_login loc = Some (lit ''/auth/login'' @ 63 # lit ''return_to='' @ e)"
    "query_of (lit ''/auth/login'' @ 63 # lit ''return_to='' @ e) = Some [(lit ''return_to'', ?v)]"
    "query_of ((origin @ lit ''/auth/login'') @ 63 # params_string [(lit ''return_to'', ?v)]) = Some [(lit ''return_to'', ?v)]"
    using form_value_read by blast+
  moreover have "console_login origin loc = Some ((origin @ lit ''/auth/login'') @ 63 # params_string [(lit ''return_to'', ?v)])"
    using assms(2) by (simp add: console_login_def params_set_def map_set_def map_has_def)
  ultimately show ?thesis by blast
qed

theorem return_to_read_back_witness:
  "let loc = \<lparr>pl_pathname = lit ''/console'', pl_search = lit ''?view=a b&c'', pl_hash = lit ''#d+e''\<rparr> in
   \<exists>u v. workbench_login loc = Some u \<and> console_login (lit ''https://tma.example'') loc = Some v
    \<and> query_of u = Some [(lit ''return_to'', lit ''/console?view=a b&c#d+e'')] \<and> query_of v = query_of u"
proof -
  let ?loc = "\<lparr>pl_pathname = lit ''/console'', pl_search = lit ''?view=a b&c'', pl_hash = lit ''#d+e''\<rparr>"
  have "code_units (pl_pathname ?loc @ pl_search ?loc @ pl_hash ?loc)" "pl_pathname ?loc \<noteq> []"
    "encodeURIComponent (pl_pathname ?loc @ pl_search ?loc @ pl_hash ?loc) \<noteq> None" "63 \<notin> set (lit ''https://tma.example'')" by code_simp+
  note read = return_to_read_back [OF this]
  moreover have "pl_pathname ?loc @ pl_search ?loc @ pl_hash ?loc = lit ''/console?view=a b&c#d+e''" by code_simp
  ultimately show ?thesis unfolding Let_def by metis
qed

end
