(* ===== verification/Workbench_API.thy ===== *)
theory Workbench_API
  imports Run_Handle Server_Routes
begin

text \<open>
  The functions of \<open>apps/workbench/src/api.js\<close> through which the workbench talks to the server: calls of the SDK, with the answer put into
  an object where the code does so, and requests of its own for routes that are not in the SDK. A definition \<open>api_x\<close> models the exported
  function \<open>x\<close>; its arguments are of the types its callers pass, \<open>undefined\<close> for those that are left out. The properties are about the functions that send more than one request: a message is delivered at most once, and an
  interruption cancels the newest active run.
\<close>

section \<open>Requests of the page\<close>

text \<open>Some routes are not in the SDK; the workbench asks for them with \<open>fetch\<close>. The text of the answer is read once; an answer that is not
  \<open>ok\<close> is thrown as an error with the message the server gives.\<close>

record page_request =
  pq_method :: jstring
  pq_path :: jstring
  pq_body :: "jsval option"

record page_response =
  gr_status :: int
  gr_text :: jstring

datatype page_result = PageError jstring | PageSyntaxError | PageValue jsval

definition page_call :: "string \<Rightarrow> jsval option \<Rightarrow> jstring option \<Rightarrow> page_request option" where
  "page_call method body path = map_option (\<lambda>p. \<lparr>pq_method = lit method, pq_path = p, pq_body = body\<rparr>) path"

definition getJSON :: "jstring option \<Rightarrow> page_request option" where
  "getJSON path = page_call ''GET'' None path"

definition getText :: "jstring option \<Rightarrow> page_request option" where
  "getText path = page_call ''GET'' None path"

definition getBlob :: "jstring option \<Rightarrow> page_request option" where
  "getBlob path = page_call ''GET'' None path"

definition postJSON :: "jstring option \<Rightarrow> jsval \<Rightarrow> page_request option" where
  "postJSON path body = page_call ''POST'' (Some (jor body no_body)) path"

definition patchJSON :: "jstring option \<Rightarrow> jsval \<Rightarrow> page_request option" where
  "patchJSON path body = page_call ''PATCH'' (Some (jor body no_body)) path"

definition putJSON :: "jstring option \<Rightarrow> jsval \<Rightarrow> page_request option" where
  "putJSON path body = page_call ''PUT'' (Some (jor body no_body)) path"

definition deleteRequest :: "jstring option \<Rightarrow> page_request option" where
  "deleteRequest path = page_call ''DELETE'' None path"

definition responseErrorMessage :: "page_response \<Rightarrow> jstring" where
  "responseErrorMessage r =
     (let text' = (if gr_text r \<noteq> [] then gr_text r else lit ''HTTP '' @ int_str (gr_status r)) in
      case json_parse (gr_text r) of
        None \<Rightarrow> text'
      | Some payload \<Rightarrow> (case dot payload ''error'' of
            JStr message \<Rightarrow> message
          | e \<Rightarrow> (case dot e ''message'' of JStr message \<Rightarrow> message | _ \<Rightarrow> text')))"

definition page_ok :: "page_response \<Rightarrow> bool" where
  "page_ok r \<longleftrightarrow> 200 \<le> gr_status r \<and> gr_status r \<le> 299"

definition json_page :: "page_response \<Rightarrow> page_result" where
  "json_page r = (if \<not> page_ok r then PageError (responseErrorMessage r)
     else case json_parse (gr_text r) of None \<Rightarrow> PageSyntaxError | Some v \<Rightarrow> PageValue v)"

definition text_page :: "page_response \<Rightarrow> page_result" where
  "text_page r = (if page_ok r then PageValue (JStr (gr_text r)) else PageError (gr_text r))"

text \<open>\<open>getBlob\<close> returns the response itself, here its text.\<close>

definition blob_page :: "page_response \<Rightarrow> page_result" where
  "blob_page r = (if page_ok r then PageValue (JStr (gr_text r)) else PageError (gr_text r))"

definition deleted_page :: "page_response \<Rightarrow> page_result" where
  "deleted_page r = (if page_ok r then PageValue (JBool True) else PageError (responseErrorMessage r))"

text \<open>A parameter at the end of a path, when its value is there.\<close>

definition query_below :: "jstring option \<Rightarrow> string \<Rightarrow> jsval \<Rightarrow> jstring option" where
  "query_below path prefix' v = (if truthy v then encoded_below path prefix' (to_str v) else path)"

definition tracePath :: "jstring \<Rightarrow> jsval \<Rightarrow> jsval \<Rightarrow> jstring option" where
  "tracePath sessionId turnId format = do {
     turn \<leftarrow> (if truthy turnId then map_option (\<lambda>e. [lit ''turn_id='' @ e]) (encodeURIComponent (to_str turnId)) else Some []);
     fmt \<leftarrow> (if truthy format then map_option (\<lambda>e. [lit ''format='' @ e]) (encodeURIComponent (to_str format)) else Some []);
     sid \<leftarrow> encodeURIComponent sessionId;
     Some (lit ''/v2/sessions/'' @ sid @ lit ''/trace'' @ (if turn @ fmt \<noteq> [] then 63 # join (lit ''&'') (turn @ fmt) else [])) }"

definition metricsPath :: "jstring \<Rightarrow> jsval \<Rightarrow> jstring option" where
  "metricsPath sessionId turnId = do {
     sid \<leftarrow> encodeURIComponent sessionId;
     turn \<leftarrow> (if truthy turnId then map_option (\<lambda>e. [lit ''turn_id='' @ e]) (encodeURIComponent (to_str turnId)) else Some []);
     Some (lit ''/metrics?'' @ join (lit ''&'') ((lit ''session_id='' @ sid) # turn)) }"

definition schedulesPath :: "jstring \<Rightarrow> jstring option" where
  "schedulesPath agentId = below (encoded_below (Some (lit ''/v1/agents'')) ''/'' agentId) ''/schedules''"

definition schedulePath :: "jstring \<Rightarrow> jstring \<Rightarrow> jstring option" where
  "schedulePath agentId scheduleId = encoded_below (schedulesPath agentId) ''/'' scheduleId"

definition api_agentSchedules :: "jstring \<Rightarrow> page_request option" where
  "api_agentSchedules agentId = getJSON (schedulesPath agentId)"

definition api_createAgentSchedule :: "jstring \<Rightarrow> jsval \<Rightarrow> page_request option" where
  "api_createAgentSchedule agentId body = postJSON (schedulesPath agentId) body"

definition api_updateAgentSchedule :: "jstring \<Rightarrow> jstring \<Rightarrow> jsval \<Rightarrow> page_request option" where
  "api_updateAgentSchedule agentId scheduleId body = patchJSON (schedulePath agentId scheduleId) body"

definition api_deleteAgentSchedule :: "jstring \<Rightarrow> jstring \<Rightarrow> page_request option" where
  "api_deleteAgentSchedule agentId scheduleId = deleteRequest (schedulePath agentId scheduleId)"

definition api_runAgentSchedule :: "jstring \<Rightarrow> jstring \<Rightarrow> page_request option" where
  "api_runAgentSchedule agentId scheduleId = postJSON (below (schedulePath agentId scheduleId) ''/run'') no_body"

definition artifactDownloadPath :: "jstring \<Rightarrow> jstring \<Rightarrow> jstring option" where
  "artifactDownloadPath sessionId artifactId = below (encoded_below (below (encoded_below (Some (lit ''/v2/sessions'')) ''/'' sessionId)
     ''/artifacts'') ''/'' artifactId) ''/download''"

definition libraryItemPath :: "jstring \<Rightarrow> jstring option" where
  "libraryItemPath itemId = encoded_below (Some (lit ''/v2/achievement-library'')) ''/'' itemId"

definition api_achievementLibrary :: "jsval \<Rightarrow> page_request option" where
  "api_achievementLibrary workspaceId = getJSON (query_below (Some (lit ''/v2/achievement-library'')) ''?workspace_id='' workspaceId)"

definition api_includeArtifactInAchievementLibrary :: "jstring \<Rightarrow> jstring \<Rightarrow> jsval \<Rightarrow> page_request option" where
  "api_includeArtifactInAchievementLibrary sessionId artifactId body =
     postJSON (below (encoded_below (below (encoded_below (Some (lit ''/v2/sessions'')) ''/'' sessionId) ''/artifacts'') ''/'' artifactId)
       ''/achievement-library'') body"

definition api_updateAchievementLibraryItem :: "jstring \<Rightarrow> jsval \<Rightarrow> page_request option" where
  "api_updateAchievementLibraryItem itemId body = patchJSON (libraryItemPath itemId) body"

definition api_deleteAchievementLibraryItem :: "jstring \<Rightarrow> jsval \<Rightarrow> page_request option" where
  "api_deleteAchievementLibraryItem itemId workspaceId = deleteRequest (query_below (libraryItemPath itemId) ''?workspace_id='' workspaceId)"

definition api_referenceAchievementLibraryItem :: "jstring \<Rightarrow> jsval \<Rightarrow> page_request option" where
  "api_referenceAchievementLibraryItem itemId sessionId = postJSON (below (libraryItemPath itemId) ''/reference'') (jobj [(''session_id'', sessionId)])"

definition achievementLibraryDownloadPath :: "jstring \<Rightarrow> jsval \<Rightarrow> jstring option" where
  "achievementLibraryDownloadPath itemId workspaceId = query_below (below (libraryItemPath itemId) ''/download'') ''?workspace_id='' workspaceId"

definition api_downloadAchievementLibraryItem :: "jstring \<Rightarrow> jsval \<Rightarrow> page_request option" where
  "api_downloadAchievementLibraryItem itemId workspaceId = getBlob (achievementLibraryDownloadPath itemId workspaceId)"

definition objectRefDownloadPath :: "jstring \<Rightarrow> jsval \<Rightarrow> jstring option" where
  "objectRefDownloadPath objectRefId sessionId =
     query_below (below (encoded_below (Some (lit ''/v2/object-refs'')) ''/'' objectRefId) ''/download'') ''?session_id='' sessionId"

definition skillPackageDownloadPath :: "jstring \<Rightarrow> jsval \<Rightarrow> jstring option" where
  "skillPackageDownloadPath skillId version =
     below (encoded_below (below (encoded_below (Some (lit ''/v2/skills'')) ''/'' skillId) ''/versions'') ''/'' (to_str version)) ''/package''"

definition api_metrics :: "jstring \<Rightarrow> jsval \<Rightarrow> page_request option" where
  "api_metrics sessionId turnId = getText (metricsPath sessionId turnId)"

definition api_taskTemplates :: "page_request option" where
  "api_taskTemplates = getJSON (Some (lit ''/v1/task-templates''))"

section \<open>Calls of the SDK\<close>

text \<open>\<open>wrapped\<close> is a call whose answer is put into a field of a new object.\<close>

type_synonym wrapped_call = "(string \<times> api_call) option"

definition wrapped :: "string \<Rightarrow> api_call option \<Rightarrow> wrapped_call" where
  "wrapped field c = map_option (Pair field) c"

definition wrapped_answer :: "string \<Rightarrow> call_result \<Rightarrow> call_result" where
  "wrapped_answer field r = (case r of CallValue v \<Rightarrow> CallValue (jobj [(field, v)]) | refusal \<Rightarrow> refusal)"

text \<open>A field of an object literal that is only there when its value is.\<close>

definition given_field :: "jsval \<Rightarrow> string \<Rightarrow> string \<Rightarrow> (string \<times> jsval) list" where
  "given_field filters name key = (if truthy (dot filters name) then [(key, dot filters name)] else [])"

definition given_flag :: "jsval \<Rightarrow> string \<Rightarrow> (string \<times> jsval) list" where
  "given_flag filters name = (if truthy (dot filters name) then [(name, JBool True)] else [])"

text \<open>\<open>?.length\<close> of an array, a text or another value is truthy.\<close>

definition has_length :: "jsval \<Rightarrow> bool" where
  "has_length v = (case v of JArr xs \<Rightarrow> xs \<noteq> [] | JStr s \<Rightarrow> s \<noteq> [] | _ \<Rightarrow> truthy (dot v ''length''))"

definition api_currentPrincipal :: "api_call option" where
  "api_currentPrincipal = auth_me"

definition api_createAgent :: "jsval \<Rightarrow> api_call option" where
  "api_createAgent body = agents_create body"

definition api_agents :: "wrapped_call" where
  "api_agents = wrapped ''agents'' agents_list"

definition api_updateAgent :: "jstring \<Rightarrow> jsval \<Rightarrow> api_call option" where
  "api_updateAgent agentId body = agents_update agentId (jor body no_body)"

definition api_defaultAgent :: "api_call option" where
  "api_defaultAgent = agents_default"

definition api_agent :: "jstring \<Rightarrow> api_call option" where
  "api_agent agentId = agents_get agentId"

definition api_agentConfigVersions :: "jstring \<Rightarrow> wrapped_call" where
  "api_agentConfigVersions agentId = wrapped ''config_versions'' (agents_listConfigVersions agentId)"

definition api_importAgent :: "jsval \<Rightarrow> api_call option" where
  "api_importAgent document = agents_import document"

definition api_rollbackAgentConfigVersion :: "jstring \<Rightarrow> jsnum \<Rightarrow> api_call option" where
  "api_rollbackAgentConfigVersion agentId version = agents_rollback agentId version"

definition api_agentToolingHealth :: "jstring \<Rightarrow> jsval \<Rightarrow> api_call option" where
  "api_agentToolingHealth agentId body = agents_toolingHealth agentId (default_body body)"

definition api_workspaceToolPermissions :: "jstring \<Rightarrow> api_call option" where
  "api_workspaceToolPermissions workspaceId = workspaceToolPermissions_get workspaceId"

definition api_evaluateWorkspaceToolPermission :: "jstring \<Rightarrow> jsval \<Rightarrow> api_call option" where
  "api_evaluateWorkspaceToolPermission workspaceId request = workspaceToolPermissions_evaluate workspaceId request"

definition api_sessionToolPermissionAudit :: "jstring \<Rightarrow> jsval \<Rightarrow> api_call option" where
  "api_sessionToolPermissionAudit sessionId query = audit_listToolPermissions sessionId (default_body query)"

definition api_mcpServers :: "jsval \<Rightarrow> wrapped_call" where
  "api_mcpServers workspaceId = wrapped ''servers'' (mcp_list (if truthy workspaceId then jobj [(''workspaceId'', workspaceId)] else no_body))"

definition api_mcpServerRuntimeStatus :: "jsval \<Rightarrow> api_call option" where
  "api_mcpServerRuntimeStatus workspaceId = mcp_runtimeStatus (if truthy workspaceId then jobj [(''workspaceId'', workspaceId)] else no_body)"

definition api_createMCPServer :: "jsval \<Rightarrow> api_call option" where
  "api_createMCPServer body = mcp_create body"

definition api_updateMCPServer :: "jstring \<Rightarrow> jsval \<Rightarrow> api_call option" where
  "api_updateMCPServer serverId body = mcp_update serverId body"

definition api_setMCPServerEnabled :: "jstring \<Rightarrow> bool \<Rightarrow> api_call option" where
  "api_setMCPServerEnabled serverId enabled = mcp_setEnabled serverId enabled"

definition api_testMCPServer :: "jstring \<Rightarrow> api_call option" where
  "api_testMCPServer serverId = mcp_test serverId"

definition api_deleteMCPServer :: "jstring \<Rightarrow> api_call option" where
  "api_deleteMCPServer serverId = mcp_archive serverId"

definition api_mcpServerVersions :: "jstring \<Rightarrow> wrapped_call" where
  "api_mcpServerVersions serverId = wrapped ''versions'' (mcp_versions serverId)"

definition api_restoreMCPServerVersion :: "jstring \<Rightarrow> jsnum \<Rightarrow> api_call option" where
  "api_restoreMCPServerVersion serverId version = mcp_restoreVersion serverId version"

definition api_createEnvironment :: "jsval \<Rightarrow> api_call option" where
  "api_createEnvironment body = environments_create body"

definition api_environments :: "wrapped_call" where
  "api_environments = wrapped ''environments'' environments_list"

definition api_environment :: "jstring \<Rightarrow> api_call option" where
  "api_environment environmentId = environments_get environmentId"

definition api_environmentVariables :: "jsval \<Rightarrow> wrapped_call" where
  "api_environmentVariables workspaceId = wrapped ''variables'' (environmentVariables_list
     (if truthy workspaceId then jobj [(''workspaceId'', workspaceId)] else no_body))"

definition api_putEnvironmentVariable :: "jstring \<Rightarrow> jsval \<Rightarrow> jsval \<Rightarrow> api_call option" where
  "api_putEnvironmentVariable name value workspaceId = environmentVariables_put name (jobj [(''value'', value)])
     (if truthy workspaceId then jobj [(''workspaceId'', workspaceId)] else no_body)"

definition api_deleteEnvironmentVariable :: "jstring \<Rightarrow> jsval \<Rightarrow> api_call option" where
  "api_deleteEnvironmentVariable name workspaceId = environmentVariables_delete name
     (if truthy workspaceId then jobj [(''workspaceId'', workspaceId)] else no_body)"

definition api_createSession :: "jsval \<Rightarrow> api_call option" where
  "api_createSession body = sessions_create body"

definition api_archiveSession :: "jstring \<Rightarrow> api_call option" where
  "api_archiveSession sessionId = sessions_archive sessionId"

definition api_restoreSession :: "jstring \<Rightarrow> api_call option" where
  "api_restoreSession sessionId = sessions_restore sessionId"

definition api_rerunSession :: "jstring \<Rightarrow> jsval \<Rightarrow> api_call option" where
  "api_rerunSession sessionId body = sessions_rerun sessionId (default_body body)"

definition api_compareSessions :: "jstring \<Rightarrow> jstring \<Rightarrow> api_call option" where
  "api_compareSessions leftSessionId rightSessionId = sessions_compare leftSessionId rightSessionId"

definition api_deleteSession :: "jstring \<Rightarrow> api_call option" where
  "api_deleteSession sessionId = sessions_delete sessionId"

definition api_traceByID :: "jstring \<Rightarrow> api_call option" where
  "api_traceByID traceID = traces_get traceID"

definition api_spanByID :: "jstring \<Rightarrow> jstring \<Rightarrow> api_call option" where
  "api_spanByID traceID spanID = traces_getSpan traceID spanID"

definition api_session :: "jstring \<Rightarrow> api_call option" where
  "api_session sessionId = sessions_get sessionId"

definition api_upgradeSessionConfig :: "jstring \<Rightarrow> jsval \<Rightarrow> api_call option" where
  "api_upgradeSessionConfig sessionId body = sessions_upgradeConfig sessionId body"

definition api_updateSessionMetadata :: "jstring \<Rightarrow> jsval \<Rightarrow> api_call option" where
  "api_updateSessionMetadata sessionId body = sessions_updateMetadata sessionId body"

definition api_sessionRuntimeConfig :: "jstring \<Rightarrow> api_call option" where
  "api_sessionRuntimeConfig sessionId = sessions_runtimeConfig sessionId"

definition api_sessionRuntimeCapabilities :: "jstring \<Rightarrow> api_call option" where
  "api_sessionRuntimeCapabilities sessionId = sessions_runtimeCapabilities sessionId"

definition api_skillVersions :: "jstring \<Rightarrow> wrapped_call" where
  "api_skillVersions skillId = wrapped ''versions'' (skills_listVersions skillId)"

definition api_archiveSkill :: "jstring \<Rightarrow> api_call option" where
  "api_archiveSkill skillId = skills_archive skillId"

definition api_previewSkillsMarketplace :: "jsval \<Rightarrow> api_call option" where
  "api_previewSkillsMarketplace body = marketplace_preview body"

definition api_installSkillsMarketplace :: "jsval \<Rightarrow> api_call option" where
  "api_installSkillsMarketplace body = marketplace_install body"

definition api_previewInternalSkillsMarketplace :: "jsval \<Rightarrow> api_call option" where
  "api_previewInternalSkillsMarketplace body = marketplace_previewInternal body"

definition api_installInternalSkillsMarketplace :: "jsval \<Rightarrow> api_call option" where
  "api_installInternalSkillsMarketplace body = marketplace_installInternal body"

definition api_enableSkill :: "jstring \<Rightarrow> jsval \<Rightarrow> api_call option" where
  "api_enableSkill skillId body = marketplace_enableInstalled skillId body"

definition api_disableSkill :: "jstring \<Rightarrow> jsval \<Rightarrow> api_call option" where
  "api_disableSkill skillId body = marketplace_disableInstalled skillId body"

definition api_marketplacePolicy :: "jstring \<Rightarrow> api_call option" where
  "api_marketplacePolicy policyId = marketplace_getPolicy policyId"

definition api_createMarketplacePolicy :: "jsval \<Rightarrow> api_call option" where
  "api_createMarketplacePolicy body = marketplace_createPolicy body"

definition api_publishMarketplacePolicyVersion :: "jstring \<Rightarrow> jsval \<Rightarrow> api_call option" where
  "api_publishMarketplacePolicyVersion policyId config = marketplace_publishPolicyVersion policyId (jobj [(''config'', config)])"

definition api_archiveMarketplacePolicy :: "jstring \<Rightarrow> api_call option" where
  "api_archiveMarketplacePolicy policyId = marketplace_archivePolicy policyId"

definition api_marketplaceEntry :: "jstring \<Rightarrow> jsval \<Rightarrow> api_call option" where
  "api_marketplaceEntry entryId workspaceId = marketplace_getEntry entryId (jor workspaceId JUndef)"

definition api_createMarketplaceEntry :: "jsval \<Rightarrow> api_call option" where
  "api_createMarketplaceEntry body = marketplace_createEntry body"

definition api_updateMarketplaceEntry :: "jstring \<Rightarrow> jsval \<Rightarrow> api_call option" where
  "api_updateMarketplaceEntry entryId body = marketplace_updateEntry entryId body"

definition api_skillAssetRetentionEffective :: "jsval \<Rightarrow> api_call option" where
  "api_skillAssetRetentionEffective workspaceId = skills_effectiveRetentionPolicy (jor workspaceId JUndef)"

definition api_createSkillAssetRetentionPolicy :: "jsval \<Rightarrow> api_call option" where
  "api_createSkillAssetRetentionPolicy body = skills_createRetentionPolicy body"

definition api_publishSkillAssetRetentionPolicyVersion :: "jstring \<Rightarrow> jsval \<Rightarrow> api_call option" where
  "api_publishSkillAssetRetentionPolicyVersion policyId config = skills_publishRetentionPolicyVersion policyId (jobj [(''config'', config)])"

definition api_archiveSkillAssetRetentionPolicy :: "jstring \<Rightarrow> api_call option" where
  "api_archiveSkillAssetRetentionPolicy policyId = skills_archiveRetentionPolicy policyId"

definition api_previewSkillAssetGC :: "jsval \<Rightarrow> api_call option" where
  "api_previewSkillAssetGC body = skills_previewAssetGC body"

definition api_runSkillAssetGC :: "jsval \<Rightarrow> api_call option" where
  "api_runSkillAssetGC body = skills_runAssetGC body"

definition api_updateSessionRuntimeSettings :: "jstring \<Rightarrow> jsnum \<Rightarrow> jsval \<Rightarrow> api_call option" where
  "api_updateSessionRuntimeSettings sessionId expectedRevision body = sessions_updateRuntimeSettings sessionId expectedRevision (jor body no_body)"

definition api_llmProviders :: "wrapped_call" where
  "api_llmProviders = wrapped ''providers'' llm_listProviders"

definition api_createLLMProvider :: "jsval \<Rightarrow> api_call option" where
  "api_createLLMProvider body = llm_createProvider body"

definition api_updateLLMProvider :: "jstring \<Rightarrow> jsnum \<Rightarrow> jsval \<Rightarrow> api_call option" where
  "api_updateLLMProvider providerId revision body = llm_updateProvider providerId revision (jor body no_body)"

definition api_setLLMProviderEnabled :: "jstring \<Rightarrow> jsnum \<Rightarrow> bool \<Rightarrow> api_call option" where
  "api_setLLMProviderEnabled providerId revision enabled = llm_setProviderEnabled providerId revision enabled"

definition api_deleteLLMProvider :: "jstring \<Rightarrow> jsnum \<Rightarrow> api_call option" where
  "api_deleteLLMProvider providerId revision = llm_deleteProvider providerId revision"

definition api_testLLMProvider :: "jstring \<Rightarrow> api_call option" where
  "api_testLLMProvider providerId = llm_testProvider providerId"

definition api_llmModels :: "jsval \<Rightarrow> wrapped_call" where
  "api_llmModels providerId = wrapped ''models'' (llm_listModels providerId)"

definition api_deleteLLMModel :: "jstring \<Rightarrow> jstring \<Rightarrow> jsnum \<Rightarrow> api_call option" where
  "api_deleteLLMModel providerId model revision = llm_deleteModel providerId model revision"

definition api_testLLMModel :: "jstring \<Rightarrow> jstring \<Rightarrow> api_call option" where
  "api_testLLMModel providerId model = llm_testModel providerId model"

definition api_usage :: "jstring \<Rightarrow> api_call option" where
  "api_usage sessionId = sessions_usage sessionId"

definition api_summary :: "jstring \<Rightarrow> api_call option" where
  "api_summary sessionId = sessions_summary sessionId"

definition api_artifacts :: "jstring \<Rightarrow> wrapped_call" where
  "api_artifacts sessionId = wrapped ''artifacts'' (artifacts_list sessionId)"

definition api_downloadArtifact :: "jstring \<Rightarrow> jstring \<Rightarrow> api_call option" where
  "api_downloadArtifact sessionId artifactId = artifacts_download sessionId artifactId"

definition api_previewArtifact :: "jstring \<Rightarrow> jstring \<Rightarrow> jsval \<Rightarrow> api_call option" where
  "api_previewArtifact sessionId artifactId format = artifacts_preview sessionId artifactId format"

definition api_events :: "jstring \<Rightarrow> jsnum \<Rightarrow> wrapped_call" where
  "api_events sessionId afterSeq = wrapped ''events'' (sessions_listEvents sessionId afterSeq)"

definition api_interventions :: "jstring \<Rightarrow> jsval \<Rightarrow> wrapped_call" where
  "api_interventions sessionId status = wrapped ''interventions'' (interventions_list sessionId status)"

definition api_observabilityStatus :: "api_call option" where
  "api_observabilityStatus = observability_status"

definition api_retryObservability :: "api_call option" where
  "api_retryObservability = observability_retry"

definition api_objectCleanupStats :: "jsval \<Rightarrow> api_call option" where
  "api_objectCleanupStats workspaceId = objectCleanup_stats (jor workspaceId JUndef)"

definition api_previewObjectReconciliation :: "jsval \<Rightarrow> api_call option" where
  "api_previewObjectReconciliation input = objectCleanup_previewReconciliation (jor input no_body)"

definition api_exportObjectReconciliationArtifact :: "jsval \<Rightarrow> api_call option" where
  "api_exportObjectReconciliationArtifact input = objectCleanup_exportReconciliationArtifact (jor input no_body)"

definition api_retryObjectCleanup :: "jstring \<Rightarrow> jsval \<Rightarrow> api_call option" where
  "api_retryObjectCleanup jobId workspaceId = objectCleanup_retry jobId (jor workspaceId JUndef)"

definition api_approveObjectCleanup :: "jstring \<Rightarrow> jsval \<Rightarrow> jstring \<Rightarrow> api_call option" where
  "api_approveObjectCleanup jobId workspaceId confirm = objectCleanup_approve jobId confirm (jor workspaceId JUndef)"

definition api_taskGroupTemplates :: "api_call option" where
  "api_taskGroupTemplates = orchestration_taskGroupTemplates"

definition api_sessionTaskGroups :: "jstring \<Rightarrow> wrapped_call" where
  "api_sessionTaskGroups sessionId = wrapped ''task_groups'' (orchestration_listTaskGroups sessionId)"

definition api_sessionTaskGroup :: "jstring \<Rightarrow> jstring \<Rightarrow> api_call option" where
  "api_sessionTaskGroup sessionId groupId = orchestration_getTaskGroup sessionId groupId"

definition api_approveIntervention :: "jstring \<Rightarrow> jstring \<Rightarrow> jstring \<Rightarrow> jsval \<Rightarrow> api_call option" where
  "api_approveIntervention sessionId turnId callId body = interventions_approve sessionId turnId callId (jor (dot body ''reason'') (JStr []))
     (dot body ''response'')"

definition api_rejectIntervention :: "jstring \<Rightarrow> jstring \<Rightarrow> jstring \<Rightarrow> jsval \<Rightarrow> api_call option" where
  "api_rejectIntervention sessionId turnId callId body = interventions_reject sessionId turnId callId (jor (dot body ''reason'') (JStr []))"

definition api_respondIntervention :: "jstring \<Rightarrow> jstring \<Rightarrow> jstring \<Rightarrow> jsval \<Rightarrow> api_call option" where
  "api_respondIntervention sessionId turnId callId body = interventions_respond sessionId turnId callId (dot body ''response'')"

definition api_skipIntervention :: "jstring \<Rightarrow> jstring \<Rightarrow> jstring \<Rightarrow> jsval \<Rightarrow> api_call option" where
  "api_skipIntervention sessionId turnId callId body = interventions_skip sessionId turnId callId (jor (dot body ''reason'') (JStr []))"

definition api_cancelIntervention :: "jstring \<Rightarrow> jstring \<Rightarrow> jstring \<Rightarrow> jsval \<Rightarrow> api_call option" where
  "api_cancelIntervention sessionId turnId callId body = interventions_cancel sessionId turnId callId (jor (dot body ''reason'') (JStr []))"

definition api_trace :: "jstring \<Rightarrow> jsval \<Rightarrow> jsval \<Rightarrow> api_call option" where
  "api_trace sessionId turnId format = (if truthy format then traces_exportSession sessionId (to_str format) (jor turnId JUndef)
     else traces_getSession sessionId (jor turnId JUndef))"

text \<open>The file a user gets from \<open>exportAgent\<close>: its text and its name.\<close>

definition api_exportAgent :: "jstring \<Rightarrow> api_call option" where
  "api_exportAgent agentId = agents_export agentId"

definition exported_agent :: "jstring \<Rightarrow> jsval \<Rightarrow> jstring option \<times> jstring" where
  "exported_agent agentId document' = (pretty 0 document', lit ''attachment; filename=\"agent-'' @ agentId @ lit ''.json\"'')"

definition api_updateWorkspaceToolPermissions :: "jstring \<Rightarrow> jsval \<Rightarrow> jsnum \<Rightarrow> api_call option" where
  "api_updateWorkspaceToolPermissions workspaceId permissionRules expectedRevision =
     workspaceToolPermissions_update workspaceId expectedRevision (jobj [(''permission_rules'', jor permissionRules (JArr []))])"

definition api_sessions :: "jsval \<Rightarrow> wrapped_call" where
  "api_sessions filters = (let f = default_body filters in wrapped ''sessions'' (sessions_list (jobj (
     [(''limit'', jor (dot f ''limit'') (JNum (Fin 30)))] @ given_field f ''workspace'' ''workspaceId'' @ given_field f ''status'' ''status''
     @ given_flag f ''includeArchived''))))"

definition api_traceCatalog :: "jsval \<Rightarrow> api_call option" where
  "api_traceCatalog filters = (let f = default_body filters in traces_list (jobj (
     [(''limit'', jor (dot f ''limit'') (JNum (Fin 20)))] @ given_field f ''cursor'' ''cursor'' @ given_field f ''workspace'' ''workspaceId''
     @ given_field f ''session'' ''sessionId'' @ given_field f ''turn'' ''turnId'' @ given_field f ''sessionStatus'' ''sessionStatus''
     @ given_flag f ''includeArchived'')))"

definition api_spanCatalog :: "jsval \<Rightarrow> api_call option" where
  "api_spanCatalog filters = (let f = default_body filters in traces_listSpans (jobj (
     [(''limit'', jor (dot f ''limit'') (JNum (Fin 20)))] @ given_field f ''cursor'' ''cursor'' @ given_field f ''workspace'' ''workspaceId''
     @ given_field f ''trace'' ''traceId'' @ given_field f ''session'' ''sessionId'' @ given_field f ''turn'' ''turnId''
     @ given_field f ''query'' ''search'' @ given_field f ''kind'' ''kind'' @ given_field f ''status'' ''status''
     @ (case dot f ''critical'' of JBool b \<Rightarrow> [(''critical'', JBool b)] | _ \<Rightarrow> [])
     @ given_field f ''minDuration'' ''minDurationMs'' @ given_field f ''maxDuration'' ''maxDurationMs''
     @ given_field f ''minSelfDuration'' ''minSelfDurationMs'' @ given_flag f ''includeArchived'')))"

text \<open>What the two catalogues return of a page.\<close>

definition catalog_page :: "string \<Rightarrow> call_result \<Rightarrow> call_result" where
  "catalog_page field r = (case r of
       CallValue page \<Rightarrow> if page = JUndef \<or> page = JNull then CallThrows
         else CallValue (jobj [(field, dot page ''items''), (''next_cursor'', dot page ''next_cursor''), (''has_more'', dot page ''has_more'')])
     | refusal \<Rightarrow> refusal)"

definition api_skills :: "jsval \<Rightarrow> wrapped_call" where
  "api_skills filters = (let f = default_body filters in wrapped ''skills'' (skills_list (jobj (
     given_field f ''workspaceId'' ''workspaceId'' @ given_flag f ''includeArchived''))))"

definition api_discoverSkillsMarketplace :: "jsval \<Rightarrow> api_call option" where
  "api_discoverSkillsMarketplace filters = (let f = default_body filters in marketplace_discover (jobj (
     [(''sessionId'', jor (dot f ''sessionId'') (JStr []))] @ given_field f ''query'' ''query'' @ given_field f ''repository'' ''repository''
     @ given_field f ''limit'' ''limit'')))"

definition api_discoverInternalSkillsMarketplace :: "jsval \<Rightarrow> api_call option" where
  "api_discoverInternalSkillsMarketplace filters = (let f = default_body filters in marketplace_browseInternal (jobj (
     [(''sessionId'', jor (dot f ''sessionId'') (JStr []))] @ given_field f ''query'' ''query'' @ given_field f ''category'' ''category''
     @ (if has_length (dot f ''tags'') then [(''tags'', dot f ''tags'')] else []) @ given_field f ''limit'' ''limit'')))"

definition api_marketplacePolicies :: "jsval \<Rightarrow> wrapped_call" where
  "api_marketplacePolicies filters = (let f = default_body filters in wrapped ''policies'' (marketplace_listPolicies (jobj (
     given_field f ''organizationId'' ''organizationId'' @ given_field f ''workspaceId'' ''workspaceId'' @ given_flag f ''includeArchived''))))"

definition api_marketplaceEntries :: "jsval \<Rightarrow> wrapped_call" where
  "api_marketplaceEntries filters = (let f = default_body filters in wrapped ''entries'' (marketplace_listEntries (jobj (
     given_field f ''workspaceId'' ''workspaceId'' @ given_field f ''status'' ''status'' @ given_flag f ''includeWithdrawn''))))"

text \<open>The left side of the result is the message of the \<open>TypeError\<close>.\<close>

definition api_transitionMarketplaceEntry :: "jstring \<Rightarrow> jstring \<Rightarrow> jsval \<Rightarrow> jstring + api_call option" where
  "api_transitionMarketplaceEntry entryId action' body =
     (if action' = lit ''submit'' then Inr (marketplace_submitEntry entryId (default_body body))
      else if action' = lit ''publish'' then Inr (marketplace_publishEntry entryId (default_body body))
      else if action' = lit ''withdraw'' then Inr (marketplace_withdrawEntry entryId (default_body body))
      else Inl (lit ''unsupported Marketplace entry transition: '' @ action'))"

definition api_skillAssetRetentionPolicies :: "jsval \<Rightarrow> wrapped_call" where
  "api_skillAssetRetentionPolicies filters = (let f = default_body filters in wrapped ''policies'' (skills_listRetentionPolicies (jobj (
     given_field f ''organizationId'' ''organizationId'' @ given_field f ''workspaceId'' ''workspaceId'' @ given_flag f ''includeArchived''))))"

definition default_limit :: "jsval \<Rightarrow> jsval" where
  "default_limit v = (if v = JUndef then JNum (Fin 20) else v)"

definition api_skillAssetGCRuns :: "jsval \<Rightarrow> jsval \<Rightarrow> wrapped_call" where
  "api_skillAssetGCRuns workspaceId limit = wrapped ''runs''
     (skills_listAssetGCRuns (jobj [(''workspaceId'', jor workspaceId JUndef), (''limit'', default_limit limit)]))"

definition api_skillAssetGCTombstones :: "jsval \<Rightarrow> jsval \<Rightarrow> wrapped_call" where
  "api_skillAssetGCTombstones workspaceId limit = wrapped ''tombstones''
     (skills_listAssetGCTombstones (jobj [(''workspaceId'', jor workspaceId JUndef), (''limit'', default_limit limit)]))"

text \<open>\<open>revision\<close> is \<open>None\<close> for \<open>null\<close> or \<open>undefined\<close>.\<close>

definition api_upsertLLMModel :: "jsval \<Rightarrow> jsnum option \<Rightarrow> api_call option" where
  "api_upsertLLMModel body revision = (case revision of None \<Rightarrow> llm_createModel (jor body no_body) | Some r \<Rightarrow> llm_updateModel r (jor body no_body))"

definition api_streamSessionEvents :: "jstring \<Rightarrow> api_call option" where
  "api_streamSessionEvents sessionId = sessions_events sessionId"

definition api_streamSessionLiveEvents :: "jstring \<Rightarrow> api_call option" where
  "api_streamSessionLiveEvents sessionId = sessions_liveEvents sessionId"

definition api_objectCleanupJobs :: "(jsval \<Rightarrow> jstring option) \<Rightarrow> jsval \<Rightarrow> wrapped_call" where
  "api_objectCleanupJobs iso_text filters = wrapped ''jobs'' (objectCleanup_list iso_text (default_body filters))"

definition api_uploadSessionArtifact :: "jstring \<Rightarrow> nat \<Rightarrow> jstring \<Rightarrow> jstring \<Rightarrow> jsval \<Rightarrow> api_call option" where
  "api_uploadSessionArtifact sessionId file name type options = artifacts_upload sessionId
     [(lit ''name'', name), (lit ''artifact_type'', lit ''file''),
      (lit ''description'', to_str (jor (dot options ''description'') (jlit ''Uploaded by the user''))),
      (lit ''metadata'', lit ''{\"source\":\"user_upload\"}'')]
     \<lparr>uf_body = file, uf_body_type = type, uf_filename = name, uf_contentType = (if type \<noteq> [] then Some type else None)\<rparr>"

section \<open>Messages to a session\<close>

text \<open>The server answers the requests of a function one after the other: \<open>answer n c\<close> is its answer to the call \<open>c\<close>, the \<open>n\<close>-th of the
  function. What was sent is returned with the result.\<close>

definition text_content :: "jsval \<Rightarrow> jsval" where
  "text_content text' = JArr [jobj [(''type'', jlit ''text''), (''text'', text')]]"

definition appendQueuedSessionMessage :: "jstring \<Rightarrow> jsval \<Rightarrow> jsval \<Rightarrow> api_call option" where
  "appendQueuedSessionMessage sessionId text' options = sessions_appendEvents sessionId (jobj [
     (''prefer_latest'', JBool (truthy (dot options ''preferLatest''))),
     (''events'', JArr [jobj [(''type'', jlit ''user.message''), (''payload'', jobj [(''content'', text_content text'),
        (''attachments'', jor (dot options ''attachments'') (JArr []))])]])])"

definition start_message :: "jstring \<Rightarrow> jsval \<Rightarrow> jsval \<Rightarrow> api_call option" where
  "start_message sessionId text' options = runs_start sessionId (jobj (
     [(''input'', jobj [(''content'', text_content text'), (''attachments'', jor (dot options ''attachments'') (JArr []))])]
     @ given_field options ''idempotencyKey'' ''idempotency_key''))"

datatype message_outcome =
    MessageStarted run_handle
  | MessageQueued call_result
  | MessageThrows call_result

definition send_call :: "(nat \<Rightarrow> api_call \<Rightarrow> call_result) \<Rightarrow> nat \<Rightarrow> api_call option \<Rightarrow> api_call list \<times> call_result" where
  "send_call answer n c = (case c of None \<Rightarrow> ([], CallThrows) | Some k \<Rightarrow> ([k], answer n k))"

definition is_busy :: "call_result \<Rightarrow> bool" where
  "is_busy r = (case r of CallRefused e \<Rightarrow> ae_code e = jlit ''session_busy'' | _ \<Rightarrow> False)"

definition sendSessionMessage :: "(nat \<Rightarrow> api_call \<Rightarrow> call_result) \<Rightarrow> jstring \<Rightarrow> jsval \<Rightarrow> jsval \<Rightarrow> api_call list \<times> message_outcome" where
  "sendSessionMessage answer sessionId text' options =
     (let queued = appendQueuedSessionMessage sessionId text' options in
      if truthy (dot options ''queued'') then map_prod id MessageQueued (send_call answer 0 queued)
      else case send_call answer 0 (start_message sessionId text' options) of (sent, r) \<Rightarrow>
        (case start_handle r of
           Inr h \<Rightarrow> (sent, MessageStarted h)
         | Inl error \<Rightarrow> if truthy (dot options ''queueIfBusy'') \<and> is_busy error
             then map_prod (\<lambda>more'. sent @ more') MessageQueued (send_call answer 1 queued)
             else (sent, MessageThrows error)))"

definition api_steerSession :: "jstring \<Rightarrow> jsval \<Rightarrow> api_call option" where
  "api_steerSession sessionId text' = sessions_appendEvents sessionId (jobj [
     (''events'', JArr [jobj [(''type'', jlit ''user.steer''), (''payload'', jobj [(''content'', text_content text')])]])])"

text \<open>\<open>find\<close> on the reversed list; reading the status of \<open>null\<close> throws (\<open>None\<close>).\<close>

definition is_active_run :: "jsval \<Rightarrow> bool" where
  "is_active_run run \<longleftrightarrow> dot run ''status'' = jlit ''running'' \<or> dot run ''status'' = jlit ''waiting_approval''"

fun find_run :: "jsval list \<Rightarrow> jsval option option" where
  "find_run [] = Some None"
| "find_run (run # runs) = (if run = JUndef \<or> run = JNull then None else if is_active_run run then Some (Some run) else find_run runs)"

datatype interrupt_outcome = Interrupted jsval | NoActiveRun | InterruptFails call_result

definition interruptSession :: "(nat \<Rightarrow> api_call \<Rightarrow> call_result) \<Rightarrow> jstring \<Rightarrow> api_call list \<times> interrupt_outcome" where
  "interruptSession answer sessionId = (case send_call answer 0 (runs_list sessionId) of
       (sent, CallValue (JArr runs)) \<Rightarrow> (case find_run (rev runs) of
           None \<Rightarrow> (sent, InterruptFails CallThrows)
         | Some None \<Rightarrow> (sent, NoActiveRun)
         | Some (Some run) \<Rightarrow> (case send_call answer 1 (runs_cancel sessionId (to_str (dot run ''id''))) of
               (more', CallValue cancelled) \<Rightarrow> (sent @ more', Interrupted cancelled)
             | (more', refusal) \<Rightarrow> (sent @ more', InterruptFails refusal)))
     | (sent, CallValue _) \<Rightarrow> (sent, InterruptFails CallThrows)
     | (sent, refusal) \<Rightarrow> (sent, InterruptFails refusal))"

text \<open>\<open>taskPlan\<close> shows the first active plan of the list.\<close>

fun find_plan :: "jsval list \<Rightarrow> jsval option option" where
  "find_plan [] = Some None"
| "find_plan (plan # plans) = (if plan = JUndef \<or> plan = JNull then None
     else if dot plan ''status'' = jlit ''active'' then Some (Some plan) else find_plan plans)"

definition api_taskPlan :: "jstring \<Rightarrow> api_call option" where
  "api_taskPlan sessionId = sessions_taskPlans sessionId"

definition shown_plan :: "call_result \<Rightarrow> call_result" where
  "shown_plan r = (case r of
       CallValue (JArr plans) \<Rightarrow> (case find_plan plans of None \<Rightarrow> CallThrows
         | Some plan \<Rightarrow> CallValue (jobj [(''plan'', (case plan of None \<Rightarrow> JNull | Some p \<Rightarrow> p))]))
     | CallValue _ \<Rightarrow> CallThrows
     | refusal \<Rightarrow> refusal)"

section \<open>Requests of the page have routes\<close>

text \<open>A path of version 1 is matched as it is, one of version 2 directly or through the alias.\<close>

definition page_served :: "jstring \<Rightarrow> jstring \<Rightarrow> jstring list \<Rightarrow> bool" where
  "page_served method path ids \<longleftrightarrow> served method path ids
     \<or> (case targets path of Some (version # names) \<Rightarrow> version = lit ''v1'' \<and> takes v1_routes method names ids | _ \<Rightarrow> False)"

definition page_row_ok :: "page_request option \<times> jstring list \<Rightarrow> bool" where
  "page_row_ok row = (case fst row of None \<Rightarrow> False | Some q \<Rightarrow> page_served (pq_method q) (pq_path q) (snd row))"

definition page_found :: "string \<Rightarrow> jstring list \<Rightarrow> jstring list \<Rightarrow> bool" where
  "page_found method names ids \<longleftrightarrow> (case names of [] \<Rightarrow> False | version # ns \<Rightarrow>
     if version = lit ''v1'' then takes v1_routes (lit method) ns ids else route_found method names ids)"

text \<open>All requests of the page but the metrics, which are not below a version.\<close>

definition page_requests :: "jstring \<Rightarrow> jstring \<Rightarrow> jsval \<Rightarrow> jsval \<Rightarrow> (page_request option \<times> jstring list) list" where
  "page_requests a b v w = [
     (api_agentSchedules a, [a]), (api_createAgentSchedule a v, [a]), (api_updateAgentSchedule a b v, [a, b]),
     (api_deleteAgentSchedule a b, [a, b]), (api_runAgentSchedule a b, [a, b]), (getBlob (artifactDownloadPath a b), [a, b]),
     (api_achievementLibrary w, []), (api_includeArtifactInAchievementLibrary a b v, [a, b]), (api_updateAchievementLibraryItem a v, [a]),
     (api_deleteAchievementLibraryItem a w, [a]), (api_referenceAchievementLibraryItem a v, [a]), (api_downloadAchievementLibraryItem a w, [a]),
     (getBlob (objectRefDownloadPath a w), [a]), (getBlob (skillPackageDownloadPath a (JStr b)), [a, b]), (api_taskTemplates, [])]"

lemma page_rule: "goes path names \<Longrightarrow> page_found method names ids \<Longrightarrow> page_row_ok (page_call method body path, ids)"
  using route_served [where names = names and ids = ids]
  by (auto simp: goes_def page_row_ok_def page_call_def page_found_def page_served_def split: option.splits list.splits if_splits)

lemma fits_id: "fits path names \<Longrightarrow> name_ok i \<Longrightarrow> fits (encoded_below path ''/'' i) (names @ [i])"
  using fits_encoded [of path names "[]" "[]" i] by (simp add: reaches_def slashed_def)

lemma goes_workspace:
  "fits path names \<Longrightarrow> encodeURIComponent (to_str w) \<noteq> None \<Longrightarrow> goes (query_below path ''?workspace_id='' w) names"
  "fits path names \<Longrightarrow> encodeURIComponent (to_str w) \<noteq> None \<Longrightarrow> goes (query_below path ''?session_id='' w) names"
  by (simp_all add: query_below_def goes_parameter fits_goes)

lemma page_reaches:
  "reaches (lit ''/v1/agents'') [lit ''v1'', lit ''agents'']"
  "reaches (lit ''/schedules'') [lit ''schedules'']"
  "reaches (lit ''/run'') [lit ''run'']"
  "reaches (lit ''/v2/achievement-library'') [lit ''v2'', lit ''achievement-library'']"
  "reaches (lit ''/achievement-library'') [lit ''achievement-library'']"
  "reaches (lit ''/reference'') [lit ''reference'']"
  "reaches (lit ''/v1/task-templates'') [lit ''v1'', lit ''task-templates'']"
  by code_simp+

lemmas page_request_defs = api_agentSchedules_def api_createAgentSchedule_def api_updateAgentSchedule_def api_deleteAgentSchedule_def
  api_runAgentSchedule_def api_achievementLibrary_def api_includeArtifactInAchievementLibrary_def api_updateAchievementLibraryItem_def
  api_deleteAchievementLibraryItem_def api_referenceAchievementLibraryItem_def api_downloadAchievementLibraryItem_def api_taskTemplates_def
  getJSON_def getBlob_def postJSON_def patchJSON_def deleteRequest_def schedulesPath_def schedulePath_def artifactDownloadPath_def
  libraryItemPath_def achievementLibraryDownloadPath_def objectRefDownloadPath_def skillPackageDownloadPath_def append_Cons append_Nil

text \<open>Every request the workbench sends past the SDK has a route on the server that reads the ids of the request, also the downloads
  whose paths are put into links.\<close>

theorem page_requests_served:
  assumes "id_ok a" "id_ok b" "encodeURIComponent (to_str w) \<noteq> None"
  shows "list_all page_row_ok (page_requests a b v w)"
  unfolding page_requests_def list.pred_inject page_request_defs to_str.simps
  by (rule conjI TrueI page_rule goes_workspace fits_text fits_below fits_id fits_text [THEN fits_goes] fits_below [THEN fits_goes]
      fits_id [THEN fits_goes] text_reaches page_reaches
      | simp add: assms id_ok_name page_found_def table_defs | simp add: resource_defs id_ok_name assms)+

theorem page_requests_served_witness:
  "list_all page_row_ok (page_requests (lit ''a b'') (lit ''c?'') JUndef (JStr (lit ''w&1'')))"
proof -
  have "id_ok (lit ''a b'')" "id_ok (lit ''c?'')" "encodeURIComponent (to_str (JStr (lit ''w&1''))) \<noteq> None" by code_simp+
  then show ?thesis by (rule page_requests_served)
qed

section \<open>A message is delivered once\<close>

text \<open>Where a call carries the text of the message, and whether the server may have taken it.\<close>

definition message_content :: "api_call \<Rightarrow> jsval" where
  "message_content k = (case dot (ac_body k) ''events'' of
       JArr (e # _) \<Rightarrow> dot (dot e ''payload'') ''content''
     | _ \<Rightarrow> dot (dot (ac_body k) ''input'') ''content'')"

definition may_be_taken :: "call_result \<Rightarrow> bool" where
  "may_be_taken r = (case r of CallRefused _ \<Rightarrow> False | _ \<Rightarrow> True)"

definition message_call :: "jstring \<Rightarrow> jsval \<Rightarrow> api_call \<Rightarrow> bool" where
  "message_call sessionId text' k \<longleftrightarrow> served (ac_method k) (ac_path k) [sessionId] \<and> message_content k = text_content text'"

lemma session_route:
  assumes "id_ok sessionId"
  shows "\<exists>k. sessions_appendEvents sessionId v = Some k \<and> ac_body k = v \<and> served (ac_method k) (ac_path k) [sessionId]"
    and "\<exists>k. runs_start sessionId v = Some k \<and> ac_body k = v \<and> served (ac_method k) (ac_path k) [sessionId]"
proof -
  have "id_ok (num_str (Fin 1))" "encodeURIComponent [] \<noteq> None" by code_simp+
  note routed = session_calls_routed [OF assms assms assms this]
  have rows: "row_ok (sessions_appendEvents sessionId v, [sessionId])" "row_ok (runs_start sessionId v, [sessionId])"
    using routed [where v = v] unfolding session_calls_def list.pred_inject by blast+
  have body: "json_call m p v = Some k \<Longrightarrow> ac_body k = v" for m p k by (auto simp: json_call_def call_def)
  show "\<exists>k. sessions_appendEvents sessionId v = Some k \<and> ac_body k = v \<and> served (ac_method k) (ac_path k) [sessionId]"
    using rows(1) body unfolding row_ok_def sessions_appendEvents_def by (fastforce split: option.splits)
  show "\<exists>k. runs_start sessionId v = Some k \<and> ac_body k = v \<and> served (ac_method k) (ac_path k) [sessionId]"
    using rows(2) body unfolding row_ok_def runs_start_def by (fastforce split: option.splits)
qed

lemma cancel_route:
  assumes "id_ok sessionId" "id_ok run"
  shows "\<exists>k. runs_cancel sessionId run = Some k \<and> served (ac_method k) (ac_path k) [sessionId, run]"
proof -
  have "id_ok (num_str (Fin 1))" "encodeURIComponent [] \<noteq> None" by code_simp+
  then have "row_ok (runs_cancel sessionId run, [sessionId, run])"
    using session_calls_routed [OF assms assms(2)] unfolding session_calls_def list.pred_inject by blast
  then show ?thesis by (auto simp: row_ok_def split: option.splits)
qed

lemma queued_call: "id_ok sessionId \<Longrightarrow> \<exists>k. appendQueuedSessionMessage sessionId text' options = Some k \<and> message_call sessionId text' k"
  unfolding appendQueuedSessionMessage_def
  by (rule exE [OF session_route(1)], assumption) (auto simp: message_call_def message_content_def dot_jobj)

lemma started_call: "id_ok sessionId \<Longrightarrow> \<exists>k. start_message sessionId text' options = Some k \<and> message_call sessionId text' k"
proof -
  assume "id_ok sessionId"
  let ?v = "jobj ([(''input'', jobj [(''content'', text_content text'), (''attachments'', jor (dot options ''attachments'') (JArr []))])]
     @ given_field options ''idempotencyKey'' ''idempotency_key'')"
  obtain k where k: "runs_start sessionId ?v = Some k" "ac_body k = ?v" "served (ac_method k) (ac_path k) [sessionId]"
    using session_route(2) [OF \<open>id_ok sessionId\<close>] by blast
  have "dot ?v ''events'' = JUndef" "dot (dot ?v ''input'') ''content'' = text_content text'"
    by (auto simp: given_field_def dot_jobj)
  then show ?thesis using k by (simp add: start_message_def message_call_def message_content_def)
qed

lemma busy_refused: "start_handle r = Inl e \<Longrightarrow> is_busy e \<Longrightarrow> r = e \<and> \<not> may_be_taken r"
  by (auto simp: start_handle_def is_busy_def may_be_taken_def Let_def split: call_result.splits if_splits jsval.splits)

text \<open>C18: A message reaches the server at most once. Every request goes to the session and carries the text; there are two requests only when
  the first one, the start of a run, was refused because the session was busy and the caller wants the message to be queued then. The
  caller is told what became of it: the run that was started, the answer to the request that queues it, or the error.\<close>

theorem message_delivered_once:
  assumes "id_ok sessionId" "sendSessionMessage answer sessionId text' options = (sent, outcome)"
  shows "sent \<noteq> [] \<and> list_all (message_call sessionId text') sent
    \<and> length (filter (\<lambda>(n, k). may_be_taken (answer n k)) (enumerate 0 sent)) \<le> 1
    \<and> (length sent = 1 \<or> (length sent = 2 \<and> \<not> truthy (dot options ''queued'') \<and> truthy (dot options ''queueIfBusy'')
         \<and> is_busy (answer 0 (hd sent))))
    \<and> (case outcome of
         MessageStarted h \<Rightarrow> length sent = 1 \<and> start_handle (answer 0 (hd sent)) = Inr h
       | MessageQueued r \<Rightarrow> r = answer (length sent - 1) (last sent)
       | MessageThrows e \<Rightarrow> length sent = 1 \<and> start_handle (answer 0 (hd sent)) = Inl e)"
proof -
  obtain q where q: "appendQueuedSessionMessage sessionId text' options = Some q" "message_call sessionId text' q"
    using queued_call [OF assms(1)] by blast
  obtain s where s: "start_message sessionId text' options = Some s" "message_call sessionId text' s"
    using started_call [OF assms(1)] by blast
  consider (queued) "truthy (dot options ''queued'')" | (started) h where "\<not> truthy (dot options ''queued'')" "start_handle (answer 0 s) = Inr h"
    | (busy) e where "\<not> truthy (dot options ''queued'')" "start_handle (answer 0 s) = Inl e" "truthy (dot options ''queueIfBusy'')" "is_busy e"
    | (thrown) e where "\<not> truthy (dot options ''queued'')" "start_handle (answer 0 s) = Inl e"
        "\<not> (truthy (dot options ''queueIfBusy'') \<and> is_busy e)"
    by (cases "start_handle (answer 0 s)") auto
  then show ?thesis
  proof cases
    case busy
    then have "sent = [s, q]" "outcome = MessageQueued (answer 1 q)"
      using assms(2) q(1) s(1) by (simp_all add: sendSessionMessage_def send_call_def)
    then show ?thesis using q(2) s(2) busy busy_refused [OF busy(2,4)] by auto
  qed (use assms(2) q s in \<open>auto simp: sendSessionMessage_def send_call_def\<close>)
qed

definition busy_answer :: "nat \<Rightarrow> api_call \<Rightarrow> call_result" where
  "busy_answer n k = (if n = 0 then CallRefused \<lparr>ae_status = 409, ae_message = lit ''busy'', ae_code = jlit ''session_busy'',
     ae_requestId = JUndef, ae_retryable = JUndef, ae_details = JUndef\<rparr> else CallValue (jobj []))"

theorem message_delivered_once_witness:
  "\<exists>sent outcome. sendSessionMessage busy_answer (lit ''s1'') (jlit ''hello'') (jobj [(''queueIfBusy'', JBool True)]) = (sent, outcome)
     \<and> length sent = 2 \<and> list_all (message_call (lit ''s1'') (jlit ''hello'')) sent
     \<and> length (filter (\<lambda>(n, k). may_be_taken (busy_answer n k)) (enumerate 0 sent)) \<le> 1 \<and> outcome = MessageQueued (CallValue (jobj []))"
proof -
  let ?r = "sendSessionMessage busy_answer (lit ''s1'') (jlit ''hello'') (jobj [(''queueIfBusy'', JBool True)])"
  have ok: "id_ok (lit ''s1'')" and "length (fst ?r) = 2" "snd ?r = MessageQueued (CallValue (jobj []))" by code_simp+
  moreover have "?r = (fst ?r, snd ?r)" by (rule prod.collapse [symmetric])
  ultimately show ?thesis using message_delivered_once [OF ok, of busy_answer] by blast
qed

section \<open>An interruption cancels the newest active run\<close>

definition readable :: "jsval \<Rightarrow> bool" where
  "readable v \<longleftrightarrow> v \<noteq> JUndef \<and> v \<noteq> JNull"

lemma find_run_skip: "list_all (\<lambda>x. readable x \<and> \<not> is_active_run x) xs \<Longrightarrow> find_run (xs @ ys) = find_run ys"
  by (induction xs) (auto simp: readable_def)

lemma find_run_append:
  assumes "list_all readable runs"
  shows "find_run (rev runs) = Some (if list_ex is_active_run runs then Some (last (filter is_active_run runs)) else None)"
  using assms
proof (induction runs rule: rev_induct)
  case (snoc run runs)
  then show ?case by (auto simp: readable_def)
qed simp

text \<open>An interruption asks for the runs of the session and cancels the last one that is running or waits for an approval, and no other; when
  there is none, nothing is cancelled and the caller is told so. The cancellation is sent to a route of the session and this run.\<close>

theorem interrupts_newest_run:
  assumes "id_ok sessionId" "runs_list sessionId = Some asked" "answer 0 asked = CallValue (JArr runs)" "list_all readable runs"
    and "newest = last (filter is_active_run runs)" "id_ok (run_id newest)"
  shows "if list_ex is_active_run runs
    then \<exists>k. runs_cancel sessionId (run_id newest) = Some k \<and> served (ac_method k) (ac_path k) [sessionId, run_id newest]
        \<and> fst (interruptSession answer sessionId) = [asked, k]
        \<and> (\<forall>cancelled. snd (interruptSession answer sessionId) = Interrupted cancelled \<longleftrightarrow> answer 1 k = CallValue cancelled)
    else interruptSession answer sessionId = ([asked], NoActiveRun)"
proof (cases "list_ex is_active_run runs")
  case True
  obtain k where k: "runs_cancel sessionId (run_id newest) = Some k" "served (ac_method k) (ac_path k) [sessionId, run_id newest]"
    using cancel_route [OF assms(1,6)] by blast
  have "find_run (rev runs) = Some (Some newest)" using find_run_append [OF assms(4)] True assms(5) by simp
  then have "interruptSession answer sessionId = (case answer 1 k of
       CallValue cancelled \<Rightarrow> ([asked, k], Interrupted cancelled) | refusal \<Rightarrow> ([asked, k], InterruptFails refusal))"
    using assms(2,3) k(1) by (auto simp: interruptSession_def send_call_def run_id_def split: call_result.splits)
  then show ?thesis using True k by (auto split: call_result.splits)
next
  case False
  then show ?thesis using find_run_append [OF assms(4)] assms(2,3) by (simp add: interruptSession_def send_call_def)
qed

definition three_runs :: "jsval list" where
  "three_runs = [sample_run ''completed'', jobj [(''id'', jlit ''r2''), (''status'', jlit ''waiting_approval'')],
     jobj [(''id'', jlit ''r3''), (''status'', jlit ''failed'')]]"

theorem interrupts_newest_run_witness:
  "map_option ac_path (runs_cancel (lit ''s1'') (lit ''r2'')) = Some (lit ''/v2/sessions/s1/runs/r2/cancel'')
   \<and> map ac_path (fst (interruptSession (\<lambda>n k. if n = 0 then CallValue (JArr three_runs) else CallValue JUndef) (lit ''s1'')))
      = [lit ''/v2/sessions/s1/runs'', lit ''/v2/sessions/s1/runs/r2/cancel'']"
proof -
  let ?answer = "\<lambda>n k. if n = 0 then CallValue (JArr three_runs) else CallValue JUndef"
  obtain asked where asked: "runs_list (lit ''s1'') = Some asked" "ac_path asked = lit ''/v2/sessions/s1/runs''"
    by (rule that [of "the (runs_list (lit ''s1''))"]) code_simp+
  have cancel: "map_option ac_path (runs_cancel (lit ''s1'') (lit ''r2'')) = Some (lit ''/v2/sessions/s1/runs/r2/cancel'')" by code_simp
  have newest: "run_id (last (filter is_active_run three_runs)) = lit ''r2''" and active: "list_ex is_active_run three_runs"
    and ok: "id_ok (lit ''s1'')" "id_ok (lit ''r2'')" "list_all readable three_runs" by code_simp+
  have "\<exists>k. runs_cancel (lit ''s1'') (lit ''r2'') = Some k \<and> fst (interruptSession ?answer (lit ''s1'')) = [asked, k]"
    using interrupts_newest_run [OF ok(1) asked(1), of ?answer three_runs, OF _ ok(3) refl] newest active ok(2) by (simp only: if_True simp_thms) blast
  then obtain k where "runs_cancel (lit ''s1'') (lit ''r2'') = Some k" "fst (interruptSession ?answer (lit ''s1'')) = [asked, k]" by blast
  then show ?thesis using asked(2) cancel by simp
qed

section \<open>Error messages\<close>

text \<open>An answer that is not \<open>ok\<close> always gives an error. It has the message of the server when there is one, and is never empty unless the
  server says so.\<close>

lemma error_message_cases:
  "json_page r = PageValue v \<Longrightarrow> page_ok r \<and> json_parse (gr_text r) = Some v"
  "\<not> page_ok r \<Longrightarrow> responseErrorMessage r = [] \<Longrightarrow>
     \<exists>payload. json_parse (gr_text r) = Some payload \<and> (dot payload ''error'' = JStr [] \<or> dot (dot payload ''error'') ''message'' = JStr [])"
  by (auto simp: json_page_def responseErrorMessage_def Let_def lit_def split: if_splits option.splits jsval.splits)

end
