(* ===== verification/Application_Clients.thy ===== *)
theory Application_Clients
  imports Workbench_API
begin

text \<open>
  The modules through which the other applications talk to the server: \<open>apps/console/src/api.js\<close>, \<open>apps/knowledge/src/api.js\<close>,
  \<open>apps/space/src/api.js\<close> and \<open>apps/inspector/src/api.js\<close>. The knowledge application has its own \<open>request\<close>, which leads to the login when
  a request of its private part is denied; the evaluation space goes on without the events of a run that cannot be loaded.
\<close>

section \<open>The console\<close>

definition console_getContext :: "api_call option" where
  "console_getContext = tenantAdministration_context"

definition console_listMembers :: "api_call option" where
  "console_listMembers = tenantAdministration_listCurrentWorkspaceMembers"

definition console_saveMember :: "jstring \<Rightarrow> jsval \<Rightarrow> api_call option" where
  "console_saveMember subject member' = tenantAdministration_upsertCurrentWorkspaceMember subject member'"

definition console_removeMember :: "jstring \<Rightarrow> api_call option" where
  "console_removeMember subject = tenantAdministration_deleteCurrentWorkspaceMember subject"

definition console_listWorkspaces :: "api_call option" where
  "console_listWorkspaces = tenantAdministration_listTenantWorkspaces"

definition console_createWorkspace :: "jsval \<Rightarrow> api_call option" where
  "console_createWorkspace name = tenantAdministration_createTenantWorkspace (jobj [(''name'', name)])"

definition console_listWorkspaceMembersAsPlatform :: "jstring \<Rightarrow> api_call option" where
  "console_listWorkspaceMembersAsPlatform workspaceID = tenantAdministration_listTenantWorkspaceMembers workspaceID"

definition console_saveWorkspaceMemberAsPlatform :: "jstring \<Rightarrow> jstring \<Rightarrow> jsval \<Rightarrow> api_call option" where
  "console_saveWorkspaceMemberAsPlatform workspaceID subject member' = tenantAdministration_upsertTenantWorkspaceMember workspaceID subject member'"

definition console_removeWorkspaceMemberAsPlatform :: "jstring \<Rightarrow> jstring \<Rightarrow> api_call option" where
  "console_removeWorkspaceMemberAsPlatform workspaceID subject = tenantAdministration_deleteTenantWorkspaceMember workspaceID subject"

definition console_listPlatformAdmins :: "api_call option" where
  "console_listPlatformAdmins = tenantAdministration_listPlatformAdmins"

definition console_savePlatformAdmin :: "jstring \<Rightarrow> jsval \<Rightarrow> api_call option" where
  "console_savePlatformAdmin subject admin = tenantAdministration_upsertPlatformAdmin subject admin"

definition console_removePlatformAdmin :: "jstring \<Rightarrow> api_call option" where
  "console_removePlatformAdmin subject = tenantAdministration_deletePlatformAdmin subject"

section \<open>The knowledge application\<close>

datatype knowledge_body = NoBody | JSONBody jsval | FormBody "(jstring \<times> form_value) list"

record knowledge_call =
  kq_method :: jstring
  kq_path :: jstring
  kq_body :: knowledge_body

definition knowledge_call_to :: "string \<Rightarrow> knowledge_body \<Rightarrow> jstring option \<Rightarrow> knowledge_call option" where
  "knowledge_call_to method body path = map_option (\<lambda>p. \<lparr>kq_method = lit method, kq_path = p, kq_body = body\<rparr>) path"

text \<open>The type of the content is left to the browser when a form is sent.\<close>

definition content_type_header :: "knowledge_call \<Rightarrow> jstring option" where
  "content_type_header q = (case kq_body q of FormBody _ \<Rightarrow> None | _ \<Rightarrow> Some (lit ''application/json''))"

record knowledge_response =
  kr_status :: int
  kr_statusText :: jstring
  kr_contentType :: "jstring option"
  kr_text :: jstring

text \<open>\<open>KnowledgeLogin\<close>: the page goes to the address, and the call throws.\<close>

datatype knowledge_result =
    KnowledgeLogin jstring
  | KnowledgeError jstring
  | KnowledgeSyntaxError
  | KnowledgeValue jsval

definition knowledge_request :: "jstring \<Rightarrow> knowledge_response \<Rightarrow> knowledge_result" where
  "knowledge_request path r =
     (if kr_status r = 401 \<and> starts_with path (lit ''/v2/knowledge/'') then KnowledgeLogin (lit ''/auth/login?return_to=%2Fknowledge'')
      else let contentType = (case kr_contentType r of Some t \<Rightarrow> t | None \<Rightarrow> []) in
        case (if str_includes contentType (lit ''application/json'') then json_parse (kr_text r) else Some JNull) of
          None \<Rightarrow> KnowledgeSyntaxError
        | Some payload \<Rightarrow>
            if 200 \<le> kr_status r \<and> kr_status r \<le> 299 then KnowledgeValue payload
            else KnowledgeError (to_str (jor (jor (dot (dot payload ''error'') ''message'') (dot payload ''error'')) (JStr (kr_statusText r)))))"

definition basePath :: "jstring \<Rightarrow> jstring option" where
  "basePath baseID = encoded_below (Some (lit ''/v2/knowledge/bases'')) ''/'' baseID"

definition servicePath :: "jstring \<Rightarrow> jstring option" where
  "servicePath serviceID = encoded_below (Some (lit ''/v2/knowledge/services'')) ''/'' serviceID"

definition sharePath :: "jstring \<Rightarrow> jstring option" where
  "sharePath shareID = encoded_below (Some (lit ''/v2/knowledge/shares'')) ''/'' shareID"

definition publicSharePath :: "jstring \<Rightarrow> jstring option" where
  "publicSharePath token' = encoded_below (Some (lit ''/v2/public/knowledge-shares'')) ''/'' token'"

definition listBases :: "knowledge_call option" where
  "listBases = knowledge_call_to ''GET'' NoBody (Some (lit ''/v2/knowledge/bases''))"

definition createBase :: "jsval \<Rightarrow> knowledge_call option" where
  "createBase body = knowledge_call_to ''POST'' (JSONBody body) (Some (lit ''/v2/knowledge/bases''))"

definition deleteBase :: "jstring \<Rightarrow> knowledge_call option" where
  "deleteBase baseID = knowledge_call_to ''DELETE'' NoBody (basePath baseID)"

definition listDocuments :: "jstring \<Rightarrow> knowledge_call option" where
  "listDocuments baseID = knowledge_call_to ''GET'' NoBody (below (basePath baseID) ''/documents'')"

definition deleteDocument :: "jstring \<Rightarrow> knowledge_call option" where
  "deleteDocument documentID = knowledge_call_to ''DELETE'' NoBody (encoded_below (Some (lit ''/v2/knowledge/documents'')) ''/'' documentID)"

definition listServices :: "knowledge_call option" where
  "listServices = knowledge_call_to ''GET'' NoBody (Some (lit ''/v2/knowledge/services''))"

definition createService :: "jsval \<Rightarrow> knowledge_call option" where
  "createService body = knowledge_call_to ''POST'' (JSONBody body) (Some (lit ''/v2/knowledge/services''))"

definition updateService :: "jstring \<Rightarrow> jsval \<Rightarrow> knowledge_call option" where
  "updateService serviceID body = knowledge_call_to ''PATCH'' (JSONBody body) (servicePath serviceID)"

definition deleteService :: "jstring \<Rightarrow> knowledge_call option" where
  "deleteService serviceID = knowledge_call_to ''DELETE'' NoBody (servicePath serviceID)"

definition askService :: "jstring \<Rightarrow> jsval \<Rightarrow> knowledge_call option" where
  "askService serviceID question =
     knowledge_call_to ''POST'' (JSONBody (jobj [(''question'', question)])) (below (servicePath serviceID) ''/ask'')"

definition listShares :: "jstring \<Rightarrow> knowledge_call option" where
  "listShares serviceID = knowledge_call_to ''GET'' NoBody (below (servicePath serviceID) ''/shares'')"

definition createShare :: "jstring \<Rightarrow> jsval \<Rightarrow> knowledge_call option" where
  "createShare serviceID expiresIn =
     knowledge_call_to ''POST'' (JSONBody (jobj [(''expires_in'', expiresIn)])) (below (servicePath serviceID) ''/shares'')"

definition revokeShare :: "jstring \<Rightarrow> knowledge_call option" where
  "revokeShare shareID = knowledge_call_to ''POST'' NoBody (below (sharePath shareID) ''/revoke'')"

definition deleteShare :: "jstring \<Rightarrow> knowledge_call option" where
  "deleteShare shareID = knowledge_call_to ''DELETE'' NoBody (sharePath shareID)"

definition getPublicShare :: "jstring \<Rightarrow> knowledge_call option" where
  "getPublicShare token' = knowledge_call_to ''GET'' NoBody (publicSharePath token')"

definition askPublicShare :: "jstring \<Rightarrow> jsval \<Rightarrow> knowledge_call option" where
  "askPublicShare token' question =
     knowledge_call_to ''POST'' (JSONBody (jobj [(''question'', question)])) (below (publicSharePath token') ''/ask'')"

definition uploadDocument :: "jstring \<Rightarrow> nat \<Rightarrow> jstring \<Rightarrow> jstring \<Rightarrow> knowledge_call option" where
  "uploadDocument baseID file name type = knowledge_call_to ''POST''
     (FormBody [(lit ''file'', FormFile file type name), (lit ''name'', FormText name)]) (below (basePath baseID) ''/documents'')"

text \<open>All calls, with the ids of their paths.\<close>

definition private_calls :: "jstring \<Rightarrow> jsval \<Rightarrow> jstring \<Rightarrow> (knowledge_call option \<times> jstring list) list" where
  "private_calls a v name = [(listBases, []), (createBase v, []), (deleteBase a, [a]), (listDocuments a, [a]), (deleteDocument a, [a]),
     (listServices, []), (createService v, []), (updateService a v, [a]), (deleteService a, [a]), (askService a v, [a]), (listShares a, [a]),
     (createShare a v, [a]), (revokeShare a, [a]), (deleteShare a, [a]), (uploadDocument a 0 name [], [a])]"

definition public_calls :: "jstring \<Rightarrow> jsval \<Rightarrow> (knowledge_call option \<times> jstring list) list" where
  "public_calls a v = [(getPublicShare a, [a]), (askPublicShare a v, [a])]"

definition knowledge_row_ok :: "bool \<Rightarrow> knowledge_call option \<times> jstring list \<Rightarrow> bool" where
  "knowledge_row_ok needs_login row = (case fst row of None \<Rightarrow> False | Some q \<Rightarrow>
     served (kq_method q) (kq_path q) (snd row) \<and> starts_with (kq_path q) (lit ''/v2/knowledge/'') = needs_login)"

lemma starts_with_below: "starts_with p s \<Longrightarrow> starts_with (p @ q) s"
  by (auto simp: starts_with_iff)

definition begins :: "jstring option \<Rightarrow> bool \<Rightarrow> bool" where
  "begins path needs_login \<longleftrightarrow> (case path of None \<Rightarrow> False | Some p \<Rightarrow>
     starts_with p (lit (if needs_login then ''/v2/knowledge/'' else ''/v2/public/knowledge-shares'')))"

lemma begins_rules:
  "begins (Some (lit ''/v2/knowledge/bases'')) True" "begins (Some (lit ''/v2/knowledge/services'')) True"
  "begins (Some (lit ''/v2/knowledge/shares'')) True" "begins (Some (lit ''/v2/knowledge/documents'')) True"
  "begins (Some (lit ''/v2/public/knowledge-shares'')) False"
  by code_simp+

lemma begins_more:
  "begins path needs_login \<Longrightarrow> begins (below path s) needs_login"
  "begins path needs_login \<Longrightarrow> encodeURIComponent i \<noteq> None \<Longrightarrow> begins (encoded_below path s i) needs_login"
  by (auto simp: begins_def below_def encoded_below_def starts_with_below split: option.splits)

lemma public_not_private: "starts_with p (lit ''/v2/public/knowledge-shares'') \<Longrightarrow> \<not> starts_with p (lit ''/v2/knowledge/'')"
  by (auto simp: starts_with_iff lit_def)

lemma knowledge_rule:
  assumes "goes path names" "begins path needs_login" "route_found method names ids"
  shows "knowledge_row_ok needs_login (knowledge_call_to method body path, ids)"
  using assms route_served [where names = names and ids = ids] public_not_private
  by (cases needs_login) (auto simp: goes_def begins_def knowledge_row_ok_def knowledge_call_to_def split: option.splits)

lemma knowledge_reaches:
  "reaches (lit ''/v2/knowledge/bases'') [lit ''v2'', lit ''knowledge'', lit ''bases'']"
  "reaches (lit ''/v2/knowledge/services'') [lit ''v2'', lit ''knowledge'', lit ''services'']"
  "reaches (lit ''/v2/knowledge/shares'') [lit ''v2'', lit ''knowledge'', lit ''shares'']"
  "reaches (lit ''/v2/knowledge/documents'') [lit ''v2'', lit ''knowledge'', lit ''documents'']"
  "reaches (lit ''/v2/public/knowledge-shares'') [lit ''v2'', lit ''public'', lit ''knowledge-shares'']"
  "reaches (lit ''/ask'') [lit ''ask'']"
  "reaches (lit ''/shares'') [lit ''shares'']"
  "reaches (lit ''/revoke'') [lit ''revoke'']"
  by code_simp+

lemmas knowledge_defs = listBases_def createBase_def deleteBase_def listDocuments_def deleteDocument_def listServices_def createService_def
  updateService_def deleteService_def askService_def listShares_def createShare_def revokeShare_def deleteShare_def uploadDocument_def
  getPublicShare_def askPublicShare_def basePath_def servicePath_def sharePath_def publicSharePath_def append_Cons append_Nil

lemma knowledge_calls_ok:
  assumes "name_ok a"
  shows "list_all (knowledge_row_ok True) (private_calls a v name)" "list_all (knowledge_row_ok False) (public_calls a v)"
proof -
  have e: "encodeURIComponent a \<noteq> None" using assms by (simp add: name_ok_def)
  show "list_all (knowledge_row_ok True) (private_calls a v name)"
    unfolding private_calls_def list.pred_inject knowledge_defs
    by (rule conjI TrueI knowledge_rule begins_more begins_rules e assms fits_text fits_below fits_id fits_text [THEN fits_goes]
        fits_below [THEN fits_goes] fits_id [THEN fits_goes] text_reaches knowledge_reaches
        | simp add: table_defs v2_knowledge_def)+
  show "list_all (knowledge_row_ok False) (public_calls a v)"
    unfolding public_calls_def list.pred_inject knowledge_defs
    by (rule conjI TrueI knowledge_rule begins_more begins_rules e assms fits_text fits_below fits_id fits_text [THEN fits_goes]
        fits_below [THEN fits_goes] fits_id [THEN fits_goes] text_reaches knowledge_reaches
        | simp add: table_defs v2_public_def)+
qed

text \<open>Every request of the knowledge application has a route that reads its id. When it is denied, the private requests lead to the login
  and only they do: a visitor of a public share is shown an error instead.\<close>

theorem knowledge_login:
  assumes "name_ok a" "kr_status r = 401"
  shows "(q, ids) \<in> set (private_calls a v name) \<Longrightarrow> \<exists>k. q = Some k \<and> served (kq_method k) (kq_path k) ids
      \<and> knowledge_request (kq_path k) r = KnowledgeLogin (lit ''/auth/login?return_to=%2Fknowledge'')"
    and "(q, ids) \<in> set (public_calls a v) \<Longrightarrow> \<exists>k. q = Some k \<and> served (kq_method k) (kq_path k) ids
      \<and> (\<forall>u. knowledge_request (kq_path k) r \<noteq> KnowledgeLogin u) \<and> (\<forall>x. knowledge_request (kq_path k) r \<noteq> KnowledgeValue x)"
proof -
  show "\<exists>k. q = Some k \<and> served (kq_method k) (kq_path k) ids
      \<and> knowledge_request (kq_path k) r = KnowledgeLogin (lit ''/auth/login?return_to=%2Fknowledge'')"
    if "(q, ids) \<in> set (private_calls a v name)"
  proof -
    have "knowledge_row_ok True (q, ids)" using knowledge_calls_ok(1) [OF assms(1), of v name] that by (auto simp: list_all_iff)
    then obtain k where "q = Some k" "served (kq_method k) (kq_path k) ids" "starts_with (kq_path k) (lit ''/v2/knowledge/'')"
      by (auto simp: knowledge_row_ok_def split: option.splits)
    then show ?thesis using assms(2) by (simp add: knowledge_request_def)
  qed
  show "\<exists>k. q = Some k \<and> served (kq_method k) (kq_path k) ids
      \<and> (\<forall>u. knowledge_request (kq_path k) r \<noteq> KnowledgeLogin u) \<and> (\<forall>x. knowledge_request (kq_path k) r \<noteq> KnowledgeValue x)"
    if "(q, ids) \<in> set (public_calls a v)"
  proof -
    have "knowledge_row_ok False (q, ids)" using knowledge_calls_ok(2) [OF assms(1), of v] that by (auto simp: list_all_iff)
    then obtain k where "q = Some k" "served (kq_method k) (kq_path k) ids" "\<not> starts_with (kq_path k) (lit ''/v2/knowledge/'')"
      by (auto simp: knowledge_row_ok_def split: option.splits)
    then show ?thesis using assms(2) by (auto simp: knowledge_request_def Let_def split: option.splits if_splits)
  qed
qed

section \<open>The evaluation space\<close>

text \<open>What a request of the space ends with: an answer, or the \<open>AbortError\<close> of its signal.\<close>

datatype awaited = Answered call_result | Aborted

datatype space_result = SpaceValue jsval | SpaceFails call_result | SpaceAborted

definition optional_answer :: "awaited \<Rightarrow> jsval \<Rightarrow> space_result" where
  "optional_answer r fallback = (case r of
       Aborted \<Rightarrow> SpaceAborted
     | Answered (CallValue v) \<Rightarrow> SpaceValue v
     | Answered _ \<Rightarrow> SpaceValue fallback)"

definition space_catalogs :: "api_call option list" where
  "space_catalogs = [agents_list, sessions_list (jobj [(''limit'', JNum (Fin 100)), (''includeArchived'', JBool True)])]"

text \<open>Without a session there is no request.\<close>

definition space_runs :: "jstring \<Rightarrow> api_call option" where
  "space_runs sessionID = (if sessionID = [] then None else runs_list sessionID)"

definition evidence_call :: "jstring \<Rightarrow> jstring \<Rightarrow> api_call option" where
  "evidence_call sessionID turnID = runs_listEvents sessionID turnID (Fin 0)"

definition loadEvidence :: "awaited \<Rightarrow> jsval \<Rightarrow> space_result" where
  "loadEvidence answer comparison = (case optional_answer answer (JArr []) of
       SpaceValue events \<Rightarrow> (if comparison = JUndef \<or> comparison = JNull then SpaceFails CallThrows
         else SpaceValue (jobj [(''comparison'', comparison), (''trace'', jor (dot comparison ''trace'') JNull), (''events'', events)]))
     | other \<Rightarrow> other)"

definition analyze_call :: "jstring \<Rightarrow> jstring \<Rightarrow> jstring \<Rightarrow> jstring \<Rightarrow> api_call option" where
  "analyze_call leftSessionID leftTurnID rightSessionID rightTurnID = sessions_compareRuns leftSessionID leftTurnID rightSessionID rightTurnID"

text \<open>Both sides are loaded together; the first failure is thrown. \<open>left_first\<close> tells which side fails first when both do.\<close>

definition analyze :: "bool \<Rightarrow> awaited \<Rightarrow> awaited \<Rightarrow> awaited \<Rightarrow> space_result" where
  "analyze left_first compared left_events right_events = (case compared of
       Aborted \<Rightarrow> SpaceAborted
     | Answered (CallValue comparison) \<Rightarrow>
         (if comparison = JUndef \<or> comparison = JNull then SpaceFails CallThrows
          else case (loadEvidence left_events (dot comparison ''left''), loadEvidence right_events (dot comparison ''right'')) of
              (SpaceValue left, SpaceValue right) \<Rightarrow> SpaceValue (jobj [(''comparison'', comparison), (''left'', left), (''right'', right)])
            | (SpaceValue _, failure) \<Rightarrow> failure
            | (failure, SpaceValue _) \<Rightarrow> failure
            | (failure, failure') \<Rightarrow> if left_first then failure else failure')
     | Answered refusal \<Rightarrow> SpaceFails refusal)"

definition space_createRubric :: "jstring \<Rightarrow> jsval \<Rightarrow> jsval list \<Rightarrow> api_call option" where
  "space_createRubric description workspaceID criteria = evaluations_createRubric (jobj [(''workspace_id'', workspaceID),
     (''name'', jlit ''TMA Space default''), (''description'', JStr description),
     (''criteria'', JArr (map (\<lambda>c. jobj [(''id'', dot c ''id''), (''name'', dot c ''name''), (''description'', dot c ''description'')]) criteria))])"

definition space_listEvaluations :: "jsval \<Rightarrow> jsval \<Rightarrow> jsval \<Rightarrow> jsval \<Rightarrow> api_call option" where
  "space_listEvaluations leftSessionID leftTurnID rightSessionID rightTurnID = evaluations_listRunEvaluations (jobj [
     (''leftSessionId'', leftSessionID), (''leftTurnId'', leftTurnID), (''rightSessionId'', rightSessionID), (''rightTurnId'', rightTurnID),
     (''limit'', JNum (Fin 20))])"

definition compared_runs :: "jsval \<Rightarrow> (string \<times> jsval) list" where
  "compared_runs v = [(''left_session_id'', dot v ''leftSessionID''), (''left_turn_id'', dot v ''leftTurnID''),
     (''right_session_id'', dot v ''rightSessionID''), (''right_turn_id'', dot v ''rightTurnID''), (''rubric_id'', dot v ''rubricID'')]"

definition space_saveEvaluation :: "jsval \<Rightarrow> jsval list \<Rightarrow> api_call option" where
  "space_saveEvaluation v criteria = evaluations_createRunEvaluation (jobj (compared_runs v @ [
     (''scores'', JArr (map (\<lambda>c. jobj [(''criterion_id'', dot c ''id''), (''left_score'', dot c ''leftScore''),
        (''right_score'', dot c ''rightScore'')]) criteria)),
     (''conclusion'', dot (dot v ''evaluation'') ''conclusion''), (''notes'', dot (dot v ''evaluation'') ''notes'')]))"

definition space_autoEvaluate :: "jsval \<Rightarrow> api_call option" where
  "space_autoEvaluate v = evaluations_autoEvaluate (jobj (compared_runs v))"

definition dataset_tags :: "jsval \<Rightarrow> jsval" where
  "dataset_tags tags = JArr (map JStr (filter (\<lambda>t. t \<noteq> []) (map trim (split_on 44 (to_str (jor tags (JStr [])))))))"

definition space_createDataset :: "jsval \<Rightarrow> jsval \<Rightarrow> jsval list \<Rightarrow> api_call option" where
  "space_createDataset workspaceID v items = evaluations_createDataset (jobj [(''workspace_id'', workspaceID), (''name'', dot v ''name''),
     (''description'', dot v ''description''),
     (''items'', JArr (map (\<lambda>i. jobj [(''prompt'', dot i ''prompt''), (''expected_output'', dot i ''expectedOutput''),
        (''tags'', dataset_tags (dot i ''tags''))]) items))])"

definition space_listRubrics :: "jsval \<Rightarrow> api_call option" where
  "space_listRubrics workspaceID = evaluations_listRubrics workspaceID"

definition space_listDatasets :: "jsval \<Rightarrow> api_call option" where
  "space_listDatasets workspaceID = evaluations_listDatasets workspaceID"

definition space_listExperiments :: "jsval \<Rightarrow> api_call option" where
  "space_listExperiments workspaceID = evaluations_listExperiments workspaceID (JNum (Fin 30))"

definition space_createExperiment :: "jsval \<Rightarrow> api_call option" where
  "space_createExperiment v = evaluations_createExperiment (jobj [(''name'', dot v ''name''), (''dataset_id'', dot v ''datasetID''),
     (''rubric_id'', dot v ''rubricID''), (''left_template_session_id'', dot v ''leftTemplateSessionID''),
     (''right_template_session_id'', dot v ''rightTemplateSessionID'')])"

definition space_reconcileExperiment :: "jstring \<Rightarrow> api_call option" where
  "space_reconcileExperiment experimentID = evaluations_reconcileExperiment experimentID"

text \<open>A comparison is shown whenever the server has one for both runs, also when the events of a run cannot be loaded; then they are empty.
  Only an abort of one of the requests ends it.\<close>

lemma analysis_shown:
  assumes "is_object comparison" "is_object (dot comparison ''left'')" "is_object (dot comparison ''right'')"
  shows "(\<exists>v. analyze left_first (Answered (CallValue comparison)) l r = SpaceValue v) \<longleftrightarrow> l \<noteq> Aborted \<and> r \<noteq> Aborted"
    and "analyze left_first (Answered (CallValue comparison)) (Answered (CallRefused e)) (Answered (CallValue events)) = SpaceValue v \<Longrightarrow>
      dot (dot v ''left'') ''events'' = JArr [] \<and> dot (dot v ''right'') ''events'' = events"
proof -
  have "comparison \<noteq> JUndef" "comparison \<noteq> JNull" "dot comparison ''left'' \<noteq> JUndef" "dot comparison ''left'' \<noteq> JNull"
    "dot comparison ''right'' \<noteq> JUndef" "dot comparison ''right'' \<noteq> JNull" using assms by auto
  then show "(\<exists>v. analyze left_first (Answered (CallValue comparison)) l r = SpaceValue v) \<longleftrightarrow> l \<noteq> Aborted \<and> r \<noteq> Aborted"
    and "analyze left_first (Answered (CallValue comparison)) (Answered (CallRefused e)) (Answered (CallValue events)) = SpaceValue v \<Longrightarrow>
      dot (dot v ''left'') ''events'' = JArr [] \<and> dot (dot v ''right'') ''events'' = events"
    by (auto simp: analyze_def loadEvidence_def optional_answer_def dot_jobj split: awaited.splits call_result.splits)
qed

section \<open>The inspector\<close>

definition inspector_getJSON :: "page_response \<Rightarrow> page_result" where
  "inspector_getJSON r = (if \<not> page_ok r then PageError (gr_text r)
     else case json_parse (gr_text r) of None \<Rightarrow> PageSyntaxError | Some v \<Rightarrow> PageValue v)"

definition inspector_tracePath :: "jstring \<Rightarrow> jsval \<Rightarrow> jsval \<Rightarrow> jstring option" where
  "inspector_tracePath sessionId turnId format = tracePath sessionId turnId format"

definition inspector_metricsPath :: "jstring \<Rightarrow> jsval \<Rightarrow> jstring option" where
  "inspector_metricsPath sessionId turnId = metricsPath sessionId turnId"

definition inspector_trace :: "jstring \<Rightarrow> jsval \<Rightarrow> jsval \<Rightarrow> api_call option" where
  "inspector_trace sessionId turnId format = (if truthy format then traces_exportSession sessionId (to_str format) (jor turnId JUndef)
     else traces_getSession sessionId (jor turnId JUndef))"

definition inspector_agents :: wrapped_call where
  "inspector_agents = wrapped ''agents'' agents_list"

definition inspector_sessions :: wrapped_call where
  "inspector_sessions = wrapped ''sessions'' (sessions_list (jobj [(''limit'', JNum (Fin 100)), (''includeArchived'', JBool True)]))"

definition inspector_createAgent :: "jsval \<Rightarrow> page_request option" where
  "inspector_createAgent body = postJSON (Some (lit ''/v1/agents'')) body"

definition inspector_createEnvironment :: "jsval \<Rightarrow> page_request option" where
  "inspector_createEnvironment body = postJSON (Some (lit ''/v1/environments'')) body"

definition inspector_createSession :: "jsval \<Rightarrow> page_request option" where
  "inspector_createSession body = postJSON (Some (lit ''/v1/sessions'')) body"

definition inspector_sendSessionMessage :: "jstring \<Rightarrow> jsval \<Rightarrow> page_request option" where
  "inspector_sendSessionMessage sessionId text' = postJSON (below (encoded_below (Some (lit ''/v1/sessions'')) ''/'' sessionId) ''/events'')
     (jobj [(''events'', JArr [jobj [(''type'', jlit ''user.message''), (''payload'', jobj [(''content'', text_content text')])]])])"

definition inspector_retryObservability :: "page_request option" where
  "inspector_retryObservability = postJSON (Some (lit ''/v1/observability/retry'')) no_body"

definition inspector_traceCatalog :: "jsval \<Rightarrow> api_call option" where
  "inspector_traceCatalog filters = (let f = default_body filters in traces_list (jobj (
     [(''limit'', jor (dot f ''limit'') (JNum (Fin 20)))] @ given_field f ''cursor'' ''cursor'' @ given_field f ''session'' ''sessionId''
     @ given_field f ''turn'' ''turnId'')))"

definition inspector_spanCatalog :: "jsval \<Rightarrow> api_call option" where
  "inspector_spanCatalog filters = (let f = default_body filters in traces_listSpans (jobj (
     [(''limit'', jor (dot f ''limit'') (JNum (Fin 20)))] @ given_field f ''cursor'' ''cursor'' @ given_field f ''session'' ''sessionId''
     @ given_field f ''turn'' ''turnId'' @ given_field f ''query'' ''search'' @ given_field f ''kind'' ''kind'' @ given_field f ''status'' ''status''
     @ (if dot f ''critical'' = jlit ''true'' then [(''critical'', JBool True)]
        else if dot f ''critical'' = jlit ''false'' then [(''critical'', JBool False)] else [])
     @ (if truthy (dot f ''minDuration'') then [(''minDurationMs'', JNum (to_num (dot f ''minDuration'')))] else []))))"

text \<open>\<open>countBy\<close>: the counts are properties of an ordinary object, whose inherited members are read as counts. Adding 1 to such a member
  gives a text; the key \<open>__proto__\<close> cannot be set.\<close>

definition old_count :: "(jstring, jsval) jmap \<Rightarrow> jstring \<Rightarrow> jsval" where
  "old_count counts key = index (JObj ObjectProto counts) key"

definition count_step :: "(jstring, jsval) jmap \<Rightarrow> jstring \<Rightarrow> (jstring, jsval) jmap" where
  "count_step counts key = (if key = lit ''__proto__'' then counts else map_set counts key (case old_count counts key of
       JNum (Fin n) \<Rightarrow> JNum (Fin (n + 1))
     | JUndef \<Rightarrow> JNum (Fin 1)
     | v \<Rightarrow> JStr (to_str v @ lit ''1'')))"

definition countBy :: "(jsval \<Rightarrow> jsval) \<Rightarrow> jsval list \<Rightarrow> (jstring, jsval) jmap" where
  "countBy keyFor items = foldl (\<lambda>counts item. count_step counts (to_str (keyFor item))) [] items"

definition span_counts :: "jsval list \<Rightarrow> (string \<times> jsval) list" where
  "span_counts items = [(''kind_counts'', JObj ObjectProto (countBy (\<lambda>s. dot s ''kind'') items)),
     (''status_counts'', JObj ObjectProto (countBy (\<lambda>s. jor (dot s ''status'') (jlit ''unknown'')) items)),
     (''critical_counts'', JObj ObjectProto (countBy (\<lambda>s. JStr (to_str (JBool (truthy (dot s ''critical''))))) items))]"

lemma count_step_get:
  "map_get (count_step counts key) k = (if k = key \<and> key \<noteq> lit ''__proto__'' then Some (case old_count counts key of
       JNum (Fin n) \<Rightarrow> JNum (Fin (n + 1)) | JUndef \<Rightarrow> JNum (Fin 1) | v \<Rightarrow> JStr (to_str v @ lit ''1'')) else map_get counts k)"
  by (auto simp: count_step_def js_map)

lemma old_count_get:
  "k \<notin> set object_prototype_names \<Longrightarrow> k \<noteq> lit ''__proto__'' \<Longrightarrow> old_count counts k = (case map_get counts k of Some v \<Rightarrow> v | None \<Rightarrow> JUndef)"
  by (simp add: old_count_def index_def own_prop_def map_get_def split: option.splits)

text \<open>A key that is not the name of an inherited member is counted as often as it occurs.\<close>

lemma countBy_counts:
  assumes "k \<notin> set object_prototype_names" "k \<noteq> lit ''__proto__''"
  shows "map_get (countBy keyFor items) k = (let n = length (filter (\<lambda>i. to_str (keyFor i) = k) items) in
     if n = 0 then None else Some (JNum (Fin (rat_of_nat n))))"
proof (induction items rule: rev_induct)
  case (snoc i items)
  have "countBy keyFor (items @ [i]) = count_step (countBy keyFor items) (to_str (keyFor i))" by (simp add: countBy_def)
  then show ?case using snoc assms by (simp only: count_step_get) (auto simp: old_count_get Let_def)
qed (simp add: countBy_def)

lemma inherited_key_counted_as_text:
  "map_get (countBy (\<lambda>s. dot s ''kind'') [jobj [(''kind'', jlit ''constructor'')]]) (lit ''constructor'')
     = Some (JStr (lit ''function () { [native code] }1''))"
  by code_simp

section \<open>The rest of the inspector\<close>

definition inspector_taskPlans :: "jstring \<Rightarrow> wrapped_call" where
  "inspector_taskPlans sessionId = wrapped ''plans'' (sessions_taskPlans sessionId)"

definition inspector_artifacts :: "jstring \<Rightarrow> wrapped_call" where
  "inspector_artifacts sessionId = wrapped ''artifacts'' (artifacts_list sessionId)"

definition inspector_events :: "jstring \<Rightarrow> jsnum \<Rightarrow> wrapped_call" where
  "inspector_events sessionId afterSeq = wrapped ''events'' (sessions_listEvents sessionId afterSeq)"

definition inspector_interventions :: "jstring \<Rightarrow> jsval \<Rightarrow> wrapped_call" where
  "inspector_interventions sessionId status = wrapped ''interventions'' (interventions_list sessionId status)"

definition inspector_artifactDownloadPath :: "jstring \<Rightarrow> jstring \<Rightarrow> jstring option" where
  "inspector_artifactDownloadPath sessionId artifactId = artifactDownloadPath sessionId artifactId"

definition inspector_approveIntervention :: "jstring \<Rightarrow> jstring \<Rightarrow> jstring \<Rightarrow> jsval \<Rightarrow> api_call option" where
  "inspector_approveIntervention sessionId turnId callId body =
     interventions_approve sessionId turnId callId (jor (dot body ''reason'') (JStr [])) JUndef"

definition inspector_rejectIntervention :: "jstring \<Rightarrow> jstring \<Rightarrow> jstring \<Rightarrow> jsval \<Rightarrow> api_call option" where
  "inspector_rejectIntervention sessionId turnId callId body = interventions_reject sessionId turnId callId (jor (dot body ''reason'') (JStr []))"

definition inspector_traceByID :: "jstring \<Rightarrow> api_call option" where
  "inspector_traceByID traceID = traces_get traceID"

definition inspector_spanByID :: "jstring \<Rightarrow> jstring \<Rightarrow> api_call option" where
  "inspector_spanByID traceID spanID = traces_getSpan traceID spanID"

definition inspector_session :: "jstring \<Rightarrow> api_call option" where
  "inspector_session sessionId = sessions_get sessionId"

definition inspector_usage :: "jstring \<Rightarrow> api_call option" where
  "inspector_usage sessionId = sessions_usage sessionId"

definition inspector_summary :: "jstring \<Rightarrow> api_call option" where
  "inspector_summary sessionId = sessions_summary sessionId"

definition inspector_downloadArtifact :: "jstring \<Rightarrow> jstring \<Rightarrow> api_call option" where
  "inspector_downloadArtifact sessionId artifactId = artifacts_download sessionId artifactId"

definition inspector_metrics :: "jstring \<Rightarrow> jsval \<Rightarrow> page_request option" where
  "inspector_metrics sessionId turnId = getText (inspector_metricsPath sessionId turnId)"

definition inspector_observabilityStatus :: "api_call option" where
  "inspector_observabilityStatus = observability_status"

end
