(* ===== verification/Workbench_Plugins.thy ===== *)
theory Workbench_Plugins
  imports Plugin_Runtime Browser_Gateway SDK_Requests
begin

text \<open>
  How the workbench collects the plugins that are built into it (\<open>plugins/catalogLoader.js\<close>), and the client of the browser plugin
  (\<open>plugins/enterpriseBrowser/browserApi.js\<close>), whose paths the browser gateway reads back.
\<close>

section \<open>The catalogue\<close>

datatype catalog_error =
    NoPackage jstring
  | NoManifestID jstring
  | NoActivate jstring jstring
  | NoComponents jstring
  | NoRouteComponent jstring jstring
  | DuplicatedID jstring
  | ModulesNotObject
  | EngineError

text \<open>The values a \<open>for\<close> loop goes through; \<open>None\<close> is the \<open>TypeError\<close> of a value that cannot be iterated. The characters of a text are
  texts.\<close>

definition loop_values :: "jsval \<Rightarrow> jsval list option" where
  "loop_values v = (case v of JArr xs \<Rightarrow> Some xs | JStr s \<Rightarrow> Some (map (\<lambda>c. JStr [c]) s) | _ \<Rightarrow> None)"

definition check_route_component :: "jstring \<Rightarrow> jsval \<Rightarrow> jsval \<Rightarrow> catalog_error + unit" where
  "check_route_component pluginID components route' =
     (if route' = JUndef \<or> route' = JNull then Inl EngineError
      else check (is_function (index components (to_str (dot route' ''component''))))
        (NoRouteComponent pluginID (to_str (dot route' ''component''))))"

definition manifest_id :: "jsval \<Rightarrow> jstring" where
  "manifest_id pluginPackage = (case dot (dot pluginPackage ''manifest'') ''id'' of JStr s \<Rightarrow> trim s | _ \<Rightarrow> [])"

text \<open>The package with a copy of its components.\<close>

definition frozen_package :: "jsval \<Rightarrow> jsval" where
  "frozen_package pluginPackage = (case pluginPackage of
       JObj _ kvs \<Rightarrow> JObj ObjectProto (map_set kvs (lit ''components'') (case dot pluginPackage ''components'' of
           JObj _ cs \<Rightarrow> JObj ObjectProto cs | v \<Rightarrow> v))
     | v \<Rightarrow> v)"

definition pluginPackageFromModule :: "jsval \<Rightarrow> jstring \<Rightarrow> catalog_error + jsval" where
  "pluginPackageFromModule moduleValue source =
     (let pluginPackage = dot moduleValue ''default''; pluginID = manifest_id pluginPackage;
          plugin = dot pluginPackage ''plugin''; components = dot pluginPackage ''components'' in
      andThen (check (is_object pluginPackage) (NoPackage source)) (\<lambda>_.
      andThen (check (pluginID \<noteq> []) (NoManifestID source)) (\<lambda>_.
      andThen (check (dot plugin ''id'' = JStr pluginID \<and> is_function (dot plugin ''activate'')) (NoActivate source pluginID)) (\<lambda>_.
      andThen (check (is_object components) (NoComponents source)) (\<lambda>_.
        case loop_values (jor (dot (dot (dot pluginPackage ''manifest'') ''contributes'') ''routes'') (JArr [])) of
          None \<Rightarrow> Inl EngineError
        | Some routes \<Rightarrow> andThen (mapE (check_route_component pluginID components) routes) (\<lambda>_. Inr (frozen_package pluginPackage)))))))"

text \<open>\<open>manifest.id\<close> of a package as it is written, which is what the duplicates are looked for with.\<close>

definition written_id :: "jsval \<Rightarrow> jstring" where
  "written_id pluginPackage = to_str (dot (dot pluginPackage ''manifest'') ''id'')"

fun collect_packages :: "jstring list \<Rightarrow> (jstring \<times> jsval) list \<Rightarrow> catalog_error + jsval list" where
  "collect_packages seen [] = Inr []"
| "collect_packages seen ((source, moduleValue) # modules) = andThen (pluginPackageFromModule moduleValue source) (\<lambda>p.
     andThen (check (written_id p \<notin> set seen) (DuplicatedID (written_id p))) (\<lambda>_.
     andThen (collect_packages (written_id p # seen) modules) (\<lambda>ps. Inr (p # ps))))"

text \<open>\<open>lc\<close> is \<open>localeCompare\<close>.\<close>

definition buildStaticPluginCatalog :: "(jstring \<Rightarrow> jstring \<Rightarrow> int) \<Rightarrow> jsval \<Rightarrow> catalog_error + jsval list" where
  "buildStaticPluginCatalog lc modules = (case modules of
       JObj _ kvs \<Rightarrow> andThen (collect_packages [] kvs) (\<lambda>ps.
         Inr (sort_by (\<lambda>a b. lc (written_id a) (written_id b) \<le> 0) ps))
     | _ \<Rightarrow> Inl ModulesNotObject)"

text \<open>The runtime of the workbench is there; what is given as the catalogue may be any value.\<close>

definition loadPluginCatalog :: "runtime_options \<Rightarrow> (jstring \<Rightarrow> plugin_script) \<Rightarrow> jsval \<Rightarrow> bool \<Rightarrow> runtime
    \<Rightarrow> catalog_error + (runtime_error + public_record option list) \<times> runtime" where
  "loadPluginCatalog opts scripts catalog activate' rt = (case catalog of
       JArr packages \<Rightarrow> Inr (Plugin_Runtime.load opts scripts activate' packages rt)
     | _ \<Rightarrow> Inl EngineError)"

section \<open>What an accepted catalogue has\<close>

definition package_ok :: "jsval \<Rightarrow> bool" where
  "package_ok p \<longleftrightarrow> is_object p \<and> manifest_id p \<noteq> [] \<and> dot (dot p ''plugin'') ''id'' = JStr (manifest_id p)
     \<and> is_function (dot (dot p ''plugin'') ''activate'') \<and> is_object (dot p ''components'')
     \<and> (\<forall>routes. dot (dot (dot p ''manifest'') ''contributes'') ''routes'' = JArr routes \<longrightarrow>
          list_all (\<lambda>r. is_function (index (dot p ''components'') (to_str (dot r ''component'')))) routes)"

lemma dot_frozen:
  assumes "is_object p" "k \<noteq> ''components''"
  shows "dot (frozen_package p) k = dot p k"
  using assms by (cases p) (auto simp: frozen_package_def dot_def own_prop_def map_get_def [symmetric] js_map)

lemma components_frozen:
  "is_object p \<Longrightarrow> is_object (dot p ''components'') \<Longrightarrow> \<exists>q cs. dot p ''components'' = JObj q cs \<and> dot (frozen_package p) ''components'' = JObj ObjectProto cs"
  by (cases p; cases "dot p ''components''") (auto simp: frozen_package_def dot_def own_prop_def map_get_def [symmetric] js_map)

lemma index_frozen: "is_function (index (JObj q cs) k) \<Longrightarrow> is_function (index (JObj ObjectProto cs) k)"
  by (auto simp: index_def own_prop_def is_function_def split: option.splits if_splits)

lemma package_accepted:
  assumes "pluginPackageFromModule m source = Inr p"
  shows "package_ok p"
proof -
  let ?p = "dot m ''default''"
  have p: "is_object ?p" "manifest_id ?p \<noteq> []" "dot (dot ?p ''plugin'') ''id'' = JStr (manifest_id ?p)"
    "is_function (dot (dot ?p ''plugin'') ''activate'')" "is_object (dot ?p ''components'')" "p = frozen_package ?p"
    using assms by (auto simp: pluginPackageFromModule_def Let_def andThen_Inr_iff check_Inr_iff split: option.splits)
  then have same: "dot p k = dot ?p k" if "k \<noteq> ''components''" for k using dot_frozen that by simp
  have obj: "is_object p" using p(1,6) by (cases ?p) (auto simp: frozen_package_def)
  obtain q cs where cs: "dot ?p ''components'' = JObj q cs" "dot p ''components'' = JObj ObjectProto cs"
    using components_frozen [OF p(1,5)] p(6) by blast
  have "list_all (\<lambda>r. is_function (index (dot p ''components'') (to_str (dot r ''component'')))) routes"
    if r: "dot (dot (dot ?p ''manifest'') ''contributes'') ''routes'' = JArr routes" for routes
  proof -
    obtain us where "mapE (check_route_component (manifest_id ?p) (dot ?p ''components'')) routes = Inr us"
      using assms p(1-5) r by (auto simp: pluginPackageFromModule_def Let_def andThen_Inr_iff check_def jor_def loop_values_def)
    then have "\<forall>r \<in> set routes. is_function (index (dot ?p ''components'') (to_str (dot r ''component'')))"
      by (induction routes arbitrary: us) (auto simp: andThen_Inr_iff check_route_component_def check_Inr_iff split: if_splits)
    then show ?thesis using index_frozen cs by (auto simp: list_all_iff)
  qed
  moreover have "manifest_id p = manifest_id ?p" by (simp add: manifest_id_def same)
  ultimately show ?thesis using p obj cs same unfolding package_ok_def by simp
qed

lemma collected_ok:
  "collect_packages seen modules = Inr ps \<Longrightarrow> list_all package_ok ps \<and> distinct (map written_id ps)
     \<and> set (map written_id ps) \<inter> set seen = {} \<and> length ps = length modules"
proof (induction seen modules arbitrary: ps rule: collect_packages.induct)
  case (2 seen source m modules)
  then obtain p qs where p: "pluginPackageFromModule m source = Inr p" "written_id p \<notin> set seen"
    "collect_packages (written_id p # seen) modules = Inr qs" "ps = p # qs"
    by (auto simp: andThen_Inr_iff check_Inr_iff)
  show ?case using 2(1) [OF p(3)] p package_accepted [OF p(1)] by auto
qed simp

text \<open>A catalogue that is accepted has a package for every module; each package has a plugin with the id of its manifest and a function to
  activate it, and a component for each of its routes. No two packages have the same id, as it is written.\<close>

theorem catalog_accepted:
  assumes "buildStaticPluginCatalog lc modules = Inr ps"
  shows "list_all package_ok ps \<and> distinct (map written_id ps) \<and> length ps = length (obj_keys modules)"
proof -
  obtain q kvs collected where c: "modules = JObj q kvs" "collect_packages [] kvs = Inr collected"
    "ps = sort_by (\<lambda>a b. lc (written_id a) (written_id b) \<le> 0) collected"
    using assms by (auto simp: buildStaticPluginCatalog_def andThen_Inr_iff split: jsval.splits)
  then have "mset (map written_id ps) = mset (map written_id collected)" by (simp add: mset_sort_by)
  then have "distinct (map written_id ps)" using collected_ok [OF c(2)] mset_eq_imp_distinct_iff by blast
  then show ?thesis using c collected_ok [OF c(2)] by (simp add: list_all_iff obj_keys_def length_sort_by)
qed

definition package_module :: "string \<Rightarrow> jsval" where
  "package_module i = jobj [(''default'', jobj [(''manifest'', jobj [(''id'', jlit i)]),
     (''plugin'', jobj [(''id'', JStr (trim (lit i))), (''activate'', JFun 1)]), (''components'', jobj [])])]"

text \<open>The test for duplicates compares the ids as they are written, the other tests compare them without the surrounding spaces: two packages of
  the same plugin are accepted when the ids in their manifests differ by a space.\<close>

lemma same_plugin_twice:
  "\<exists>a b. buildStaticPluginCatalog (\<lambda>_ _. 0) (jobj [(''./a/package.js'', package_module ''com.example.a''),
      (''./b/package.js'', package_module ''com.example.a '')]) = Inr [a, b]
    \<and> dot (dot a ''plugin'') ''id'' = dot (dot b ''plugin'') ''id''"
proof -
  let ?m = "jobj [(''./a/package.js'', package_module ''com.example.a''), (''./b/package.js'', package_module ''com.example.a '')]"
  let ?a = "frozen_package (dot (package_module ''com.example.a'') ''default'')"
  let ?b = "frozen_package (dot (package_module ''com.example.a '') ''default'')"
  have "buildStaticPluginCatalog (\<lambda>_ _. 0) ?m = Inr [?a, ?b]" "dot (dot ?a ''plugin'') ''id'' = dot (dot ?b ''plugin'') ''id''" by code_simp+
  then show ?thesis by blast
qed

section \<open>Imports of a plugin\<close>

text \<open>The test of \<open>scripts/validate-workbench-plugins.mjs\<close> for an import that leaves the directory of a plugin. \<open>path.isAbsolute\<close> is that of
  POSIX.\<close>

definition imports_outside :: "jstring \<Rightarrow> bool" where
  "imports_outside specifier \<longleftrightarrow> specifier = lit ''..'' \<or> starts_with specifier (lit ''../'') \<or> starts_with specifier (lit ''/'')"

text \<open>Whether a relative specifier climbs above the directory it starts in.\<close>

fun climbs :: "nat \<Rightarrow> jstring list \<Rightarrow> bool" where
  "climbs depth [] = False"
| "climbs depth (s # ss) = (if s = [46, 46] then (case depth of 0 \<Rightarrow> True | Suc d \<Rightarrow> climbs d ss)
     else climbs (if s = [] \<or> s = [46] then depth else Suc depth) ss)"

definition leaves_directory :: "jstring \<Rightarrow> bool" where
  "leaves_directory specifier = climbs 0 (split_on 47 specifier)"

text \<open>Every specifier the test finds leaves the directory or is absolute, but the test looks at the beginning only: with a \<open>./\<close> in front, an
  import of a file outside of the plugin is accepted.\<close>

lemma found_imports_leave: "imports_outside specifier \<Longrightarrow> leaves_directory specifier \<or> starts_with specifier (lit ''/'')"
proof -
  assume "imports_outside specifier"
  then consider "specifier = [46, 46]" | r where "specifier = [46, 46] @ 47 # r" | "starts_with specifier (lit ''/'')"
    by (auto simp: imports_outside_def starts_with_iff lit_def)
  then show ?thesis
    by cases (auto simp: leaves_directory_def split_on_append split_on_single simp del: split_on.simps append.simps)
qed

lemma dotted_import_accepted:
  "\<not> imports_outside (lit ''./../../api.js'') \<and> leaves_directory (lit ''./../../api.js'')"
  by code_simp

section \<open>The client of the browser gateway\<close>

definition browserSessionPath :: "jsval \<Rightarrow> jstring \<Rightarrow> jstring option" where
  "browserSessionPath sessionID action' = map_option (\<lambda>e. let base = gateway_prefix @ lit ''/sessions/'' @ e in
       if action' \<noteq> [] then base @ lit ''/'' @ action' else base)
     (encodeURIComponent (to_str (jor sessionID (JStr []))))"

text \<open>The requests: method, path and body.\<close>

definition browser_create :: "jsval \<Rightarrow> string \<times> jstring \<times> jsval" where
  "browser_create input = (''POST'', gateway_prefix @ lit ''/sessions'', input)"

definition browser_read :: "jsval \<Rightarrow> (string \<times> jstring \<times> jsval) option" where
  "browser_read sessionID = map_option (\<lambda>p. (''GET'', p, JUndef)) (browserSessionPath sessionID [])"

definition browser_action :: "jsval \<Rightarrow> jstring \<Rightarrow> jsval \<Rightarrow> (string \<times> jstring \<times> jsval) option" where
  "browser_action sessionID action' input =
     map_option (\<lambda>p. (''POST'', p, if input = JUndef then jobj [] else input)) (browserSessionPath sessionID action')"

definition browser_close :: "jsval \<Rightarrow> (string \<times> jstring \<times> jsval) option" where
  "browser_close sessionID = map_option (\<lambda>p. (''DELETE'', p, JUndef)) (browserSessionPath sessionID [])"

definition frameURL :: "jsval \<Rightarrow> jsval \<Rightarrow> jstring option" where
  "frameURL sessionID revision = (case (browserSessionPath sessionID (lit ''frame''), encodeURIComponent (to_str revision)) of
       (Some p, Some r) \<Rightarrow> Some (p @ lit ''?v='' @ r) | _ \<Rightarrow> None)"



end
