(* ===== verification/Spec2Isabelle.thy ===== *)
theory Spec2Isabelle
  imports Workbench_Contracts Plugin_Manifest Plugin_Policy Extension_Registries Plugin_Runtime
    Dialog_Service Notification_Service Related_Resources Session_Artifacts Browser_Gateway
    Research_Projects Tool_Lifecycle Session_Events Skill_Inputs Space_Evaluation Event_Stream Multimodal_Realtime
    Event_Merge Inspector_Utils Inspector_Refresh Runtime_Failures Artifact_Associations Workbench_Catalogues Workbench_Timeline
    Server_Routes Run_Handle Authenticated_Fetch Workbench_API Application_Clients Workbench_Plugins
begin

text \<open>
  A verification library for the JavaScript and TypeScript parts of TMA, a system that runs managed agents.

  \<^bold>\<open>The program.\<close> A Go server keeps agents, sessions and their events. Around it stand the code that is modelled here:
  \<^item> the workbench (\<open>apps/workbench/src\<close>), the browser application. Its core is a plugin host: plugins are described by manifests, contribute
    navigation entries, routes and commands to registries, and use services of the host (permissions, dialogs, notifications, related
    resources). Beside it, pure modules turn the events of a session into what is shown;
  \<^item> the inspector (\<open>apps/inspector/src\<close>), which shows the trace, the events and the metrics of a session and keeps them up to date;
  \<^item> the evaluation space (\<open>apps/space/src\<close>), which compares sessions and keeps data sets;
  \<^item> the browser gateway (\<open>extensions/browser-gateway/src\<close>), an HTTP service that gives agents and users remote browser sessions;
  \<^item> the SDK (\<open>sdk/typescript/src\<close>), which other programs use to talk to the server: requests, event streams, realtime sessions.

  \<^bold>\<open>Language.\<close> \<open>JS_Prelude\<close> models the fragment of the language the sources use: strings of UTF-16 code units, values, conversions,
  property reads, thrown errors as \<open>Inl\<close>, maps in insertion order (locale \<open>ordered_map\<close>, interpreted on the association lists that stand for
  \<open>Map\<close>), stable sorting. \<open>JS_JSON\<close> has \<open>JSON.parse\<close> and \<open>JSON.stringify\<close>, \<open>JS_URI\<close> has \<open>encodeURIComponent\<close> and its inverse with the round trip.

  \<^bold>\<open>Theories and sources.\<close>
  \<^item> \<open>Workbench_Contracts\<close> (\<open>workbench/contracts.js\<close>): the validators of resource references, commands and plugin contexts. Accepted values
    validate to themselves; cloning succeeds exactly on JSON values.
  \<^item> \<open>Plugin_Manifest\<close> (\<open>workbench/pluginManifest.js\<close>): what an accepted manifest satisfies, version ranges as intervals, compatibility.
  \<^item> \<open>Plugin_Policy\<close> (\<open>pluginPolicy.js\<close>, \<open>permissionService.js\<close>): when a plugin is enabled, permissions.
  \<^item> \<open>Extension_Registries\<close> (\<open>extensionRegistries.js\<close>): the three registries with their disposers; a command runs only when authorised.
  \<^item> \<open>Plugin_Runtime\<close> (\<open>pluginRuntime.js\<close>): the life cycle of plugins as a step relation; the registries hold only what belongs to plugins
    that are there, a failed activation leaves no trace, an active plugin has all its handlers; two races are shown as runs.
  \<^item> \<open>Dialog_Service\<close>, \<open>Notification_Service\<close>, \<open>Related_Resources\<close>, \<open>Session_Artifacts\<close> (the files of these names in \<open>workbench/\<close>): the queue of
    dialogs, deduplicated notifications, previews that are disposed exactly once although they arrive late, bounded previews of files.
  \<^item> \<open>Browser_Gateway\<close> (\<open>auth.mjs\<close>, \<open>session-manager.mjs\<close>, \<open>server.mjs\<close>): signed requests, access, isolation of workspaces, quotas.
  \<^item> \<open>Research_Projects\<close> (\<open>plugins/researchProjects\<close>): the repository in the browser storage refines a list of projects; scopes do not mix.
  \<^item> \<open>Tool_Lifecycle\<close> (\<open>toolLifecycle.js\<close>), \<open>Session_Events\<close> (\<open>sessionQueue.js\<close>, \<open>sessionSyncEvents.js\<close>, \<open>taskPlanEvents.js\<close>, \<open>chatLiveReply.js\<close>,
    \<open>chatTimelineRetention.js\<close>): what is derived from the events of a session.
  \<^item> \<open>Event_Merge\<close> (\<open>mergeEvents\<close> of the workbench, \<open>mergeEventResponses\<close> of the inspector): a list of events is a log keyed by sequence number. The
    locale \<open>keyed_log\<close> has the laws of such a list, \<open>ordered_log\<close> extends it by the order; both applications are interpretations.
  \<^item> \<open>Inspector_Utils\<close> (\<open>inspector/src/utils.js\<close>): readers of metrics, traces, calls of MCP tools. Labels of a metric are read back as written; every
    result of a tool is paired with at most one call, first come first served.
  \<^item> \<open>Inspector_Refresh\<close> (\<open>Inspector.jsx\<close>, \<open>load\<close> and \<open>clearInspectionResults\<close>): overlapping loads as a step relation against the growing log of the
    server. What is shown is always a log of the session that was asked for, and a load that is not overtaken shows all of it.
  \<^item> \<open>Runtime_Failures\<close> (\<open>providerErrors.js\<close>, \<open>runtimeFailures.js\<close>, \<open>contextCompactionEvents.js\<close>): how the failure of a turn is explained.
  \<^item> \<open>Artifact_Associations\<close> (\<open>artifactAssociations.js\<close>): which files a message names and which version of a file a conversation shows.
  \<^item> \<open>Workbench_Catalogues\<close> (\<open>mcpRuntimeStatus.js\<close>, \<open>marketplaceCatalog.js\<close>, \<open>interactionForms.js\<close>, \<open>artifactPreviewErrors.js\<close>, \<open>markdownCode.js\<close>,
    \<open>utils.js\<close>): catalogues, the forms an agent asks a user to fill in, and the texts that describe states.
  \<^item> \<open>Workbench_Timeline\<close> (helpers of \<open>App.jsx\<close>): the compacted timeline of a conversation, the signal that describes a turn, the tree of files.
  \<^item> \<open>Skill_Inputs\<close> (\<open>skillInputs.js\<close>): forms from JSON schemas; resolution of references ends, validated inputs satisfy the schema.
  \<^item> \<open>Space_Evaluation\<close> (\<open>datasetFiles.js\<close>, \<open>analysis.js\<close>): accepted data sets respect the limits and survive an export; scores stay in range.
  \<^item> \<open>Event_Stream\<close> (\<open>errors.ts\<close>, \<open>transport.ts\<close>, \<open>sse.ts\<close>): the stream of events resumes after every cut, repeats nothing and loses nothing.
  \<^item> \<open>SDK_Requests\<close> (\<open>services/base.ts\<close>, and the calls of the transport) and \<open>SDK_Services\<close> (every service under \<open>services/\<close>): one definition per
    method, the request it sends. An id ends up as one segment of the path, and a server reads back the query as it was given.
  \<^item> \<open>Server_Routes\<close> (of the Go server the tables of routes and the alias from version 2 to version 1 of the interface, \<open>internal/httpapi\<close>): every call of
    the SDK is taken by a route that reads the ids of the call; a name with a slash is lost in the alias.
  \<^item> \<open>Run_Handle\<close> (\<open>services/runs.ts\<close>): waiting for a run returns at the event that ends it, with its last output.
  \<^item> \<open>Workbench_API\<close> (\<open>apps/workbench/src/api.js\<close>) and \<open>Application_Clients\<close> (\<open>api.js\<close> of the console, the knowledge application, the evaluation space and the
    inspector): the requests of the applications. A message is delivered at most once, an interruption cancels the newest active run, requests
    past the SDK have routes, and only private pages lead to the login.
  \<^item> \<open>Workbench_Plugins\<close> (\<open>plugins/catalogLoader.js\<close>, \<open>plugins/enterpriseBrowser/browserApi.js\<close>): the catalogue of built-in plugins, and the browser plugin whose
    requests the gateway reads back.
  \<^item> \<open>Authenticated_Fetch\<close> (\<open>auth.js\<close> of the workbench and of the console): denied requests share one refresh of the access token, a request is sent
    at most twice, and the login leads back to the page.
  \<^item> \<open>Multimodal_Realtime\<close> (\<open>multimodal-realtime.ts\<close>): the binary frames round trip and are canonical; what is sent stays within the credit the
    server granted and in sequence; buffers are bounded.

  \<^bold>\<open>State and time.\<close> An object with mutable fields is a record that operations return updated. An asynchronous operation is split where it
  awaits, and a step relation lets any other operation run in between, so that the invariants hold for every interleaving. A list of
  subscribers or of settled promises is kept in the state as the observable effect.

  \<^bold>\<open>Parameters.\<close> Third-party code and platform functions whose result the theorems do not depend on are arguments: the hash function of
  the gateway (collision freedom is a named hypothesis of the theorem on signatures), the browser it drives, the answers of the server, the
  SSE parser, \<open>papaparse\<close>, spreadsheet readers, \<open>Date\<close>, \<open>localeCompare\<close>, time stamps and random ids. Every theorem with a hypothesis is
  followed by a witness that applies it to a concrete run.

  \<^bold>\<open>Bounds and fuel.\<close> Recursion is structural or has a termination proof. Two functions carry fuel: \<open>JSON.parse\<close> the
  length of the text, of which every call consumes a character, and the resolution of schema references the number of references in
  the schema, with the theorem that this is always enough and that more fuel changes nothing. Numbers are exact rationals with the infinities; the only place where width matters, the frame format, uses words.

  \<^bold>\<open>Not modelled.\<close> React components and styles, generated types and bundles, the Go server (of it only the routes, the alias, and the
  query that lists events after a sequence number, as the log the inspector reads), SQL, deployment files, and scripts that only move files.
  Abort signals of the services are left out, as they only end a request early; formatting of dates and numbers for a locale is left out where it occurs.

  \<^bold>\<open>Findings.\<close> Where the code does not do what it means to, a theorem shows a run: sessions revealed by their id and a quota exceeded by
  overlapping creations in the gateway, contributions left behind by a plugin that is unregistered while it activates, an empty permission that
  skips a check, keys named \<open>__proto__\<close> that get lost, a reliable media frame that is overtaken and refused, a model whose
  name has a slash and is not found through the alias of the server.
\<close>

end
